(* ===== verification/Prelude.thy ===== *)
theory Prelude
  imports Complex_Main "HOL-Library.Word" "HOL-Library.Multiset"
begin

unbundle bit_operations_syntax

text \<open>
  Shared vocabulary and lemmas of the development: the result codes and power sources of
  the daemon, insertion into a list ordered by a key, removal from a list, single-bit
  operations on 32-bit words, and the lemma collections the component theories fill.
\<close>

section \<open>Result codes, power sources, processes\<close>

text \<open>The \<open>IOReturn\<close> codes the modelled operations return.\<close>

datatype IOReturn =
    kIOReturnSuccess
  | kIOReturnError
  | kIOReturnBadArgument
  | kIOReturnNotPermitted
  | kIOReturnNotPrivileged
  | kIOReturnNoMemory
  | kIOReturnNoSpace
  | kIOReturnNotFound
  | kIOReturnInternalError
  | kIOReturnBusy
  | kIOReturnTimeout
  | kIOReturnOffline
  | kIOReturnExclusiveAccess
  | kIOReturnNoDevice
  | kIOReturnIOError
  | kIOReturnInvalid
  | kIOReturnUnsupported
  | kIOReturnAborted
  | kIOReturnNotOpen

datatype powerSource = kBatteryPowered | kACPowered

type_synonym pid = int
type_synonym u8 = "8 word"
type_synonym u32 = "32 word"
type_synonym u64 = "64 word"

named_theorems core_simps "the effect of an operation on the abstract assertion table"
named_theorems frame_simps "state components an operation leaves alone"

section \<open>Insertion by key\<close>

text \<open>
  Insertion before the first element whose key is greater: the walk of \<open>insertByTimeout\<close>
  and, on already sorted arrays, the effect of the stable sort after an append.
\<close>

fun insert_by :: "('a \<Rightarrow> 'k::linorder) \<Rightarrow> 'a \<Rightarrow> 'a list \<Rightarrow> 'a list" where
  "insert_by k x [] = [x]"
| "insert_by k x (y # ys) = (if k y > k x then x # y # ys else y # insert_by k x ys)"

lemma mset_insert_by [simp]: "mset (insert_by k x ys) = add_mset x (mset ys)"
  by (induction ys) auto

lemma set_insert_by [simp]: "set (insert_by k x ys) = insert x (set ys)"
  by (induction ys) auto

lemma length_insert_by [simp]: "length (insert_by k x ys) = Suc (length ys)"
  by (induction ys) auto

lemma distinct_insert_by [simp]:
  "distinct (insert_by k x ys) \<longleftrightarrow> x \<notin> set ys \<and> distinct ys"
  by (induction ys) auto

lemma sorted_insert_by: "sorted (map k ys) \<Longrightarrow> sorted (map k (insert_by k x ys))"
  by (induction ys) fastforce+

lemma insert_by_cong:
  "k x = k' x \<Longrightarrow> (\<And>y. y \<in> set ys \<Longrightarrow> k y = k' y) \<Longrightarrow> insert_by k x ys = insert_by k' x ys"
  by (induction ys) auto

section \<open>Removal from lists\<close>

lemma sorted_map_removeAll: "sorted (map k xs) \<Longrightarrow> sorted (map k (removeAll x xs))"
  by (induction xs) auto

lemma length_removeAll_hd: "xs \<noteq> [] \<Longrightarrow> length (removeAll (hd xs) xs) < length xs"
  by (cases xs) (auto simp: le_imp_less_Suc)

lemma fold_invariant:
  assumes "P s" and "\<And>x s. x \<in> set xs \<Longrightarrow> P s \<Longrightarrow> P (f x s)"
  shows "P (fold f xs s)"
  using assms by (induction xs arbitrary: s) auto

lemma fold_view_same:
  assumes "\<And>x s. v (f x s) = v s"
  shows "v (fold f xs s) = v s"
  using assms by (induction xs arbitrary: s) auto

section \<open>Single bits of 32-bit words\<close>

text \<open>\<open>1 << n\<close>, the mask the code builds from an enumerator.\<close>

definition mask_of :: "nat \<Rightarrow> u32" where
  "mask_of n = push_bit n 1"

lemma bit_mask_of: "n < 32 \<Longrightarrow> bit (mask_of n) m \<longleftrightarrow> m = n"
  by (auto simp: mask_of_def bit_exp_iff possible_bit_def)

lemma mask_test: "(w AND mask_of n \<noteq> 0) = bit w n"
  by (simp add: mask_of_def and_exp_eq_0_iff_not_bit)

lemma bit_or_mask: "n < 32 \<Longrightarrow> bit (w OR mask_of n) m \<longleftrightarrow> bit w m \<or> m = n"
  by (simp add: bit_or_iff bit_mask_of)

lemma bit_and_not_mask:
  "n < 32 \<Longrightarrow> m < 32 \<Longrightarrow> bit (w AND NOT (mask_of n)) m \<longleftrightarrow> bit w m \<and> m \<noteq> n"
  by (auto simp: bit_and_iff bit_not_iff bit_mask_of)

end
