(* ===== verification/AssertionModel.thy ===== *)
theory AssertionModel
  imports Prelude
begin

unbundle bit_operations_syntax

text \<open>
  The data model of the power-assertion engine of \<open>powerd\<close>
  (src/pmconfigd/PMAssertions.h and the globals of src/pmconfigd/PMAssertions.c): the
  assertion types, their effects, the \<open>assertion_t\<close>, \<open>assertionType_t\<close> and
  \<open>ProcessInfo\<close> structures and one record \<open>pm\<close> holding the globals.

  Pointers: an \<open>assertion_t *\<close> is the index under which \<open>gAssertionsArray\<close> holds the
  structure, a \<open>ProcessInfo *\<close> is the pid under which \<open>gProcessDict\<close> holds it, an
  \<open>assertionType_t *\<close> is the enumerator that indexes \<open>gAssertionTypes\<close>.  The intrusive
  BSD lists are lists of assertion indices.  A bit field with named bits is the set of the
  names of the bits that are set.  Strings that are constants of SDK headers are
  constructors named after the constant.  Calls that leave the component are appended to
  \<open>trace\<close> (most recent first), blocks given to \<open>dispatch_async\<close> on the main queue are
  appended to \<open>mainq\<close>.  What the code reads from the rest of the system (clocks, power
  source, display state) is the record \<open>env\<close>, constant during one operation.
\<close>

section \<open>Enumerations\<close>

datatype kerAssertionEffect =
    kNoEffect
  | kPrevIdleSlpEffect
  | kPrevDemandSlpEffect
  | kPrevDisplaySlpEffect
  | kExternalMediaEffect
  | kPreventDiskSleepEffect
  | kTicklessDisplayWakeEffect
  | kEnableIdleEffect
  | kHighPerfEffect
  | kDisableInflowEffect
  | kInhibitChargeEffect
  | kDisableWarningsEffect
  | kNoRealPowerSourcesDebugEffect

text \<open>\<open>effectIdx < kMaxEffectStats\<close>, i.e. at most \<open>kPrevDisplaySlpEffect\<close>.\<close>

definition effect_has_stats :: "kerAssertionEffect \<Rightarrow> bool" where
  "effect_has_stats e \<longleftrightarrow>
     e = kNoEffect \<or> e = kPrevIdleSlpEffect \<or> e = kPrevDemandSlpEffect \<or> e = kPrevDisplaySlpEffect"

datatype kerAssertionType =
    kHighPerfType
  | kPreventIdleType
  | kDisableInflowType
  | kInhibitChargeType
  | kDisableWarningsType
  | kPreventDisplaySleepType
  | kEnableIdleType
  | kPreventSleepType
  | kExternalMediaType
  | kDeclareUserActivityType
  | kPushServiceTaskType
  | kBackgroundTaskType
  | kDeclareSystemActivityType
  | kSRPreventSleepType
  | kTicklessDisplayWakeType
  | kPreventDiskSleepType
  | kIntPreventDisplaySleepType
  | kNetworkAccessType
  | kInteractivePushServiceType
  | kReservePwrPreventIdleType
  | kSoftwareUpdateType

text \<open>The enumerators in order: the range of the loops \<open>for (i = 0; i < kIOPMNumAssertionTypes; i++)\<close>.\<close>

definition all_types :: "kerAssertionType list" where
  "all_types =
     [kHighPerfType, kPreventIdleType, kDisableInflowType, kInhibitChargeType,
      kDisableWarningsType, kPreventDisplaySleepType, kEnableIdleType, kPreventSleepType,
      kExternalMediaType, kDeclareUserActivityType, kPushServiceTaskType, kBackgroundTaskType,
      kDeclareSystemActivityType, kSRPreventSleepType, kTicklessDisplayWakeType,
      kPreventDiskSleepType, kIntPreventDisplaySleepType, kNetworkAccessType,
      kInteractivePushServiceType, kReservePwrPreventIdleType, kSoftwareUpdateType]"

fun kidx :: "kerAssertionType \<Rightarrow> nat" where
  "kidx kHighPerfType = 0"
| "kidx kPreventIdleType = 1"
| "kidx kDisableInflowType = 2"
| "kidx kInhibitChargeType = 3"
| "kidx kDisableWarningsType = 4"
| "kidx kPreventDisplaySleepType = 5"
| "kidx kEnableIdleType = 6"
| "kidx kPreventSleepType = 7"
| "kidx kExternalMediaType = 8"
| "kidx kDeclareUserActivityType = 9"
| "kidx kPushServiceTaskType = 10"
| "kidx kBackgroundTaskType = 11"
| "kidx kDeclareSystemActivityType = 12"
| "kidx kSRPreventSleepType = 13"
| "kidx kTicklessDisplayWakeType = 14"
| "kidx kPreventDiskSleepType = 15"
| "kidx kIntPreventDisplaySleepType = 16"
| "kidx kNetworkAccessType = 17"
| "kidx kInteractivePushServiceType = 18"
| "kidx kReservePwrPreventIdleType = 19"
| "kidx kSoftwareUpdateType = 20"

lemma in_all_types [simp]: "t \<in> set all_types"
  by (cases t) (simp_all add: all_types_def)

lemma distinct_all_types [simp]: "distinct all_types"
  by (simp add: all_types_def)

lemma all_types_nth: "all_types ! kidx t = t"
  by (cases t) (simp_all add: all_types_def)

lemma kidx_inject [simp]: "kidx t = kidx u \<longleftrightarrow> t = u"
  by (metis all_types_nth)

lemma kidx_less: "kidx t < 21"
  by (cases t) simp_all

lemma kidx_less_32 [simp]: "kidx t < 32"
  using kidx_less [of t] by simp

text \<open>Types are compared by enumerator, as the code's \<open>switch\<close> and loops do.\<close>

instantiation kerAssertionType :: linorder
begin

definition less_eq_kerAssertionType :: "kerAssertionType \<Rightarrow> kerAssertionType \<Rightarrow> bool" where
  "less_eq_kerAssertionType t u \<longleftrightarrow> kidx t \<le> kidx u"

definition less_kerAssertionType :: "kerAssertionType \<Rightarrow> kerAssertionType \<Rightarrow> bool" where
  "less_kerAssertionType t u \<longleftrightarrow> kidx t < kidx u"

instance
  by standard (auto simp: less_eq_kerAssertionType_def less_kerAssertionType_def
      intro: kidx_inject [THEN iffD1])

end

lemma sorted_all_types: "sorted all_types"
  by (simp add: all_types_def less_eq_kerAssertionType_def)

datatype assertionOps =
    kAssertionOpRaise
  | kAssertionOpRelease
  | kAssertionOpEval
  | kAssertionOpGlobalTimeout

text \<open>The named bits of \<open>assertion_t.state\<close>, \<open>assertion_t.mods\<close> and \<open>assertionType_t.flags\<close>.\<close>

datatype stateBit =
    kAssertionStateTimed
  | kAssertionStateInactive
  | kAssertionStateValidOnBatt
  | kAssertionLidStateModifier
  | kAssertionTimeoutIsSystemTimer
  | kAssertionSkipLogging
  | kAssertionStateLogged
  | kAssertionStateAddsToProcStats
  | kAssertionProcTimerActive
  | kAssertionExitSilentRunningMode
  | kAssertionStateSuspended

datatype modBit =
    kAssertionModTimer
  | kAssertionModLevel
  | kAssertionModPowerConstraint
  | kAssertionModLidState
  | kAssertionModName
  | kAssertionModResources
  | kAssertionModSilentRunning
  | kAssertionModCausingPid
  | kAssertionModFrameworkID

datatype typeFlag =
    kAssertionTypeNotValidOnBatt
  | kAssertionTypeGloballyTimed
  | kAssertionTypeDisabled
  | kAssertionTypePreventAppSleep
  | kAssertionTypeAutoTimed
  | kAssertionTypeLogOnCreate

text \<open>The kernel assertion bits the daemon raises (\<open>kIOPMDriverAssertion...Bit\<close>).\<close>

datatype kernelBit =
    kIOPMDriverAssertionCPUBit
  | kIOPMDriverAssertionPreventDisplaySleepBit
  | kIOPMDriverAssertionExternalMediaMountedBit

datatype assertLogAction =
    kACreateLog
  | kACreateRetain
  | kAReleaseLog
  | kAClientDeathLog
  | kATimeoutLog
  | kACapExpiryLog
  | kASummaryLog
  | kATurnOffLog
  | kATurnOnLog
  | kANameChangeLog
  | kAStateSuspend
  | kAStateResume
  | kASystemTimeoutLog
  | kASessionStartLog
  | kASessionEndLog

datatype assertionHandler =
    modifySettings_h
  | handleBatteryAssertions_h
  | setKernelAssertions_h
  | enableIdleHandler_h
  | displayWakeHandler_h

section \<open>Property dictionaries\<close>

text \<open>
  Assertion type names, resource names and timeout actions are \<open>CFString\<close> constants;
  any other string is \<open>Str\<close>.
\<close>

datatype typeName =
    kIOPMAssertionTypeNeedsCPU
  | kIOPMAssertionTypePreventUserIdleSystemSleep
  | kIOPMAssertionTypeNoIdleSleep
  | kIOPMAssertionTypeDisableInflow
  | kIOPMAssertionTypeInhibitCharging
  | kIOPMAssertionTypeDisableLowBatteryWarnings
  | kIOPMAssertionTypePreventUserIdleDisplaySleep
  | kIOPMAssertionTypeNoDisplaySleep
  | kIOPMAssertionTypeEnableIdleSleep
  | kIOPMAssertionTypePreventSystemSleep
  | kIOPMAssertionTypeDenySystemSleep
  | kIOPMAssertInternalPreventSleep
  | kIOPMAssertMaintenanceActivity
  | kIOPMAssertPreventDiskIdle
  | kIOPMAssertionTypeExternalMedia
  | kIOPMAssertionTypePreventStandby
  | kIOPMAssertionUserIsActive
  | kIOPMAssertionTypeSystemIsActive
  | kIOPMAssertionTypeApplePushServiceTask
  | kIOPMAssertionTypeBackgroundTask
  | kIOPMAssertDisplayWake
  | kIOPMAssertInternalPreventDisplaySleep
  | kIOPMAssertRequiresDisplayAudio
  | kIOPMAssertNetworkClientActive
  | kIOPMAssertInteractivePushServiceTask
  | kIOPMAssertAwakeReservePower
  | kIOPMAssertionTypeSoftwareUpdateTask

datatype resourceName =
    kIOPMAssertionResourceAudioIn
  | kIOPMAssertionResourceAudioOut
  | kIOPMAssertionResourceGPS
  | kIOPMAssertionResourceBaseband
  | kIOPMAssertionResourceBluetooth
  | kIOPMAssertionResourcePerfUnrestricted
  | kIOPMAssertionResourceCamera

datatype timeoutAction =
    kIOPMAssertionTimeoutActionRelease
  | kIOPMAssertionTimeoutActionTurnOff
  | kIOPMAssertionTimeoutActionKillProcess

datatype cfstr =
    TypeName typeName
  | Resource resourceName
  | TimeoutAction timeoutAction
  | Str string

text \<open>
  Property-list values.  A \<open>CFNumber\<close> is a finite rational: not-a-number and the
  infinities are left out.
\<close>

datatype cf =
    CFNumber rat
  | CFBoolean bool
  | CFString cfstr
  | CFDate rat
  | CFArray "cf list"
  | CFOther nat

datatype propKey =
    kIOPMAssertionTypeKey
  | kIOPMAssertionLevelKey
  | kIOPMAssertionTimeoutKey
  | kIOPMAssertionTimeoutActionKey
  | kIOPMAssertionTimeoutTimeLeftKey
  | kIOPMAssertionTimeoutUpdateTimeKey
  | kIOPMAssertionTimedOutDateKey
  | kIOPMAssertionCreateDateKey
  | kIOPMAssertionAppliesToLimitedPowerKey
  | kIOPMAssertionAppliesOnLidClose
  | kIOPMAssertionProcessingHotPlug
  | kIOPMAssertionExitSilentRunning
  | kIOPMAssertionOnBehalfOfPID
  | kIOPMAssertionNameKey
  | kIOPMAssertionHumanReadableReasonKey
  | kIOPMAssertionDetailsKey
  | kIOPMAssertionLocalizationBundlePathKey
  | kIOPMAssertionResourcesUsed
  | kIOPMAssertionAllowsDeviceRestart
  | kIOPMAssertionFrameworkIDKey
  | kIOPMAssertionActivityBudgeted
  | kIOPMAsyncClientAssertionIdKey
  | kIOPMAssertionGlobalUniqueIDKey
  | kIOPMAssertionIdKey
  | kIOPMAssertionProcessNameKey
  | kIOPMAssertionPIDKey
  | kIOPMAssertionIsStateSuspendedKey
  | kIOPMAssertionTrueTypeKey
  | kIOPMInflowDisableAssertion
  | kIOPMChargeInhibitAssertion
  | kPMAssertionTimeoutOnResumeKey
  | kPMAssertionIsRunningboardd
  | kIOPMAssertionCategoryKey
  | kIOPMAssertionIsCoalescedKey
  | kAsyncRemoteAssertionId
  | OtherKey string
  | NonStringKey nat

type_synonym props_t = "propKey \<rightharpoonup> cf"

text \<open>\<open>kIOPMAssertionLevelOff\<close> and \<open>kIOPMAssertionLevelOn\<close> of IOPMLib.h.\<close>

definition kIOPMAssertionLevelOff :: int where
  "kIOPMAssertionLevelOff = 0"

definition kIOPMAssertionLevelOn :: int where
  "kIOPMAssertionLevelOn = 255"

text \<open>\<open>CFNumberGetValue\<close> with an integer type, and the C conversion to \<open>uint64_t\<close>: truncation.\<close>

definition trunc :: "rat \<Rightarrow> int" where
  "trunc r = (if 0 \<le> r then \<lfloor>r\<rfloor> else \<lceil>r\<rceil>)"

definition to_u64 :: "rat \<Rightarrow> u64" where
  "to_u64 r = of_int (trunc r)"

definition u64_rat :: "u64 \<Rightarrow> rat" where
  "u64_rat w = of_int (uint w)"

lemma trunc_of_int [simp]: "trunc (of_int n) = n"
  by (simp add: trunc_def)

lemma to_u64_u64_rat [simp]: "to_u64 (u64_rat w) = w"
  by (simp only: to_u64_def u64_rat_def trunc_of_int word_of_int_uint)

end
