(* ===== verification/AssertionState.thy ===== *)
theory AssertionState
  imports AssertionModel
begin

unbundle bit_operations_syntax

text \<open>
  The structures and globals of the assertion engine, their accessors, and the abstract
  assertion table: the part of the state (list membership and the fields the lists depend
  on) over which the engine's table invariant is stated.
\<close>

section \<open>Structures\<close>

text \<open>\<open>assertion_t\<close> (PMAssertions.h).\<close>

record assertion =
  props :: props_t
  state :: "stateBit set"
  createTime :: u64
  timeout :: u64
  kassert :: kerAssertionType
  assertionId :: u32
  mods :: "modBit set"
  retainCnt :: u32
  pinfo :: pid
  causingPid :: pid
  causingPinfo :: "pid option"
  procTimer :: bool
  runningboard :: bool
  audioin :: bool
  audioout :: bool
  gps :: bool
  baseband :: bool
  bluetooth :: bool
  perfUnrestricted :: bool
  camera :: bool
  allowsDeviceRestart :: bool
  budgetedActivity :: bool

text \<open>The structure \<open>calloc\<close> returns; \<open>kassert\<close> 0 is \<open>kHighPerfType\<close>.\<close>

definition calloc_assertion :: assertion where
  "calloc_assertion = \<lparr>props = Map.empty, state = {}, createTime = 0, timeout = 0,
     kassert = kHighPerfType, assertionId = 0, mods = {}, retainCnt = 0, pinfo = 0,
     causingPid = 0, causingPinfo = None, procTimer = False, runningboard = False,
     audioin = False, audioout = False, gps = False, baseband = False, bluetooth = False,
     perfUnrestricted = False, camera = False, allowsDeviceRestart = False,
     budgetedActivity = False\<rparr>"

text \<open>\<open>effectStats_t\<close>.\<close>

record effectStats =
  st_cnt :: u32
  st_startTime :: u64

text \<open>\<open>ProcessInfo\<close>.  \<open>reportBuf\<close> holds the IOReport simple array, one value per effect.\<close>

record ProcessInfo =
  assert_cnt :: "kerAssertionType \<Rightarrow> u8"
  aggTypes :: u32
  stats :: "kerAssertionEffect \<Rightarrow> effectStats"
  reportBuf :: "(kerAssertionEffect \<Rightarrow> u64) option"
  retain_cnt :: u32
  pname :: "string option"
  procpid :: pid
  create_seq :: u32
  remoteConnection :: bool
  maxAssertLength :: u32
  aggAssertLength :: u32
  anychange :: bool
  aggchange :: bool
  timeoutchange :: bool
  disableAS_pend :: bool
  enableAS_pend :: bool
  proc_exited :: bool
  aggactivity :: bool
  isSuspended :: bool
  activeAsyncAssertion :: u64

definition calloc_ProcessInfo :: ProcessInfo where
  "calloc_ProcessInfo = \<lparr>assert_cnt = (\<lambda>_. 0), aggTypes = 0,
     stats = (\<lambda>_. \<lparr>st_cnt = 0, st_startTime = 0\<rparr>), reportBuf = None, retain_cnt = 0,
     pname = None, procpid = 0, create_seq = 0, remoteConnection = False,
     maxAssertLength = 0, aggAssertLength = 0, anychange = False, aggchange = False,
     timeoutchange = False, disableAS_pend = False, enableAS_pend = False,
     proc_exited = False, aggactivity = False, isSuspended = False,
     activeAsyncAssertion = 0\<rparr>"

text \<open>The four lists of an \<open>assertionType_t\<close>, and the structure.\<close>

record lists =
  activeTimed :: "nat list"
  active :: "nat list"
  inactive :: "nat list"
  suspended :: "nat list"

text \<open>
  \<open>timer\<close> and \<open>globalTimer\<close> are the dispatch sources (\<open>True\<close> once created);
  \<open>entitlement\<close> is the name of the entitlement a creator needs.
\<close>

datatype entitlementName =
    kIOPMDarkWakeControlEntitlement
  | kIOPMInteractivePushEntitlement
  | kIOPMReservePwrCtrlEntitlement
  | kIOPMAssertionTypeSoftwareUpdateEntitlement
  | kIOPMAssertOnBatteryEntitlement
  | kIOPMAssertOnLidCloseEntitlement
  | kIOPMDisplayServiceEntitlement

record assertionType =
  flags :: "typeFlag set"
  tlists :: lists
  timer :: bool
  globalTimer :: bool
  entitlement :: "entitlementName option"
  globalTimeout :: u64
  forceTimedoutCnt :: u32
  autoTimeout :: u64
  effectIdx :: kerAssertionEffect
  handler :: "assertionHandler option"
  disableCnt :: u32
  validOnBattCount :: u32

definition empty_lists :: lists where
  "empty_lists = \<lparr>activeTimed = [], active = [], inactive = [], suspended = []\<rparr>"

definition zero_assertionType :: assertionType where
  "zero_assertionType = \<lparr>flags = {}, tlists = empty_lists, timer = False, globalTimer = False,
     entitlement = None, globalTimeout = 0, forceTimedoutCnt = 0, autoTimeout = 0,
     effectIdx = kNoEffect, handler = None, disableCnt = 0, validOnBattCount = 0\<rparr>"

text \<open>\<open>sysQualifier_t\<close>.\<close>

record sysQualifier =
  q_audioin :: int
  q_audioout :: int
  q_gps :: int
  q_baseband :: int
  q_bluetooth :: int
  q_camera :: int
  q_perfUnrestricted :: int
  q_budgetedActivity :: int
  q_restartPreventers :: int

definition zero_sysQualifier :: sysQualifier where
  "zero_sysQualifier = \<lparr>q_audioin = 0, q_audioout = 0, q_gps = 0, q_baseband = 0,
     q_bluetooth = 0, q_camera = 0, q_perfUnrestricted = 0, q_budgetedActivity = 0,
     q_restartPreventers = 0\<rparr>"

section \<open>Environment, calls that leave the component, deferred blocks\<close>

record env =
  getMonotonicTime :: u64
  CFAbsoluteTimeGetCurrent :: rat
  getpid :: pid
  getPowerSource :: powerSource
  isDisplayAsleep :: bool
  userActiveRootDomain :: bool
  isDesktopMode :: bool
  isA_FullWake :: bool
  isA_DarkWakeState :: bool
  isA_SleepState :: bool
  isA_NotificationDisplayWake :: bool
  getUserActiveAssertionValid :: bool
  getUserActivePostedLevels :: u64
  isInSilentRunningMode :: bool
  canSustainFullWake :: bool
  inFlightDimRequest :: bool
  getRootDomainConnect :: bool
  rootDomainCallOK :: bool
  rootDomainWakeTypeNotification :: "bool option"
  getDisplaySleepTimer :: "u32 option"
  getIdleSleepTimer :: u64
  isA_SleepSrvcWake :: bool
  SS_allowed :: bool
  DWBT_enabled :: bool
  isA_BTMtnceWake :: bool
  tcpKeepAliveActive :: bool
  getCurrentSleepServiceCapTimeout :: u64
  appnap_enabled_for_pid :: "pid \<Rightarrow> bool"
  proc_name :: "pid \<Rightarrow> string option"
  calloc_ok :: bool

text \<open>Notifications posted with \<open>notify_post\<close>.\<close>

datatype notification =
    kIOPMAssertionsAnyChangedNotifyString
  | kIOPMAssertionsChangedNotifyString
  | kIOPMAssertionTimedOutNotifyString
  | restartpreventersNotify
  | appSleepDisableNotify pid
  | appSleepEnableNotify pid
  | durationExceptionNotify pid

text \<open>Setting overrides of PMSettings.h the engine uses.\<close>

datatype settingOverride = kPMForceHighSpeed | kPMPreventIdleSleep | kPMPreventDiskSleep

datatype batteryCommand = kSBUCInflowDisable | kSBUCChargeInhibit

text \<open>Calls to the kernel, to other components and to services of the system.\<close>

datatype event =
    NotifyPost notification
  | UserAssertionsToKernel "kernelBit set"
  | SmartBatteryCommand batteryCommand bool
  | SetBatteryWarningsDisabled bool
  | OverrideSetting settingOverride bool
  | ActivateSettingOverrides
  | SetClamshellSleepStateKernel bool
  | ActivityTickleKernel
  | SystemLoadUserActive
  | UserActiveHandleRootDomainActivity
  | UnblankDisplay
  | BlankDisplay
  | DimDisplay
  | SetDisplayPowerOn bool
  | SleepAfterNotificationWake
  | SetNotificationDisplayWake
  | CancelNotificationDisplayWake
  | UnclampSilentRunning
  | SetVMDarkwakeModeOff
  | UserActiveHandlePowerAssertionsChanged
  | EvaluatePerfMode
  | LogAssertionEvent assertLogAction nat
  | LogASLAssertionsAggregate
  | LogSleepServiceTerminated u32
  | Mt2RecordAssertionEvent assertionOps nat
  | AssertionTimeoutMsg pid u32
  | KillTerm pid
  | ArmTypeTimer kerAssertionType u64
  | ArmGlobalTimer kerAssertionType u64
  | CancelGlobalTimer kerAssertionType
  | ArmProcTimer nat u32
  | SuspendProcTimer nat
  | CancelProcTimer nat
  | ArmSystemAssertionTimer u64
  | CancelSystemAssertionTimer
  | AppNapState pid bool
  | XpcConnectionCancel pid
  | XpcRelease pid
  | CancelPowerNapStates
  | ArmAggCleanupTimer
  | CancelAggCleanupTimer
  | ProcessInfoUsedAfterFree pid
  | CFNumberGetValueOfOther nat

text \<open>Blocks deferred to the main queue.\<close>

datatype task =
    HandleAssertionTimeoutTask kerAssertionType
  | CheckRestartPreventersTask
  | UserActiveHandlePowerAssertionsChangedTask
  | StartProcTimerTask pid u32
  | DisableAppSleepTask pid
  | EnableAppSleepTask pid
  | EnforceAssertionTypeTimeCapTask kerAssertionType
  | GlobalTimerCancelHandlerTask kerAssertionType
  | SystemAssertionTimerCancelHandlerTask
  | AggCleanupCancelHandlerTask

section \<open>The globals\<close>

record pm =
  gAssertionsArray :: "nat \<rightharpoonup> assertion"
  gNextAssertionIdx :: nat
  gAssertionTypes :: "kerAssertionType \<Rightarrow> assertionType"
  gAssertionEffects :: "kerAssertionEffect \<Rightarrow> kerAssertionType list"
  gUserAssertionTypesDict :: "typeName \<rightharpoonup> kerAssertionType"
  gProcessDict :: "pid \<rightharpoonup> ProcessInfo"
  gProcessSeq :: u32
  gProcAssertionLimits :: "(string \<rightharpoonup> u32 option \<times> u32 option) option"
  gDefaultLimits :: "u32 \<times> u32"
  aggregate_assertions :: u32
  kerAssertionBits :: "kernelBit set"
  gSysQualifier :: sysQualifier
  gActivityAggCnt :: u32
  gAggCleanupDispatch :: bool
  gAnyChange :: u32
  gAggChange :: u32
  gTimeoutChange :: u32
  gDisplaySleepTimer :: u32
  gIdleSleepTimer :: u64
  gPrevClamshellSleepState :: u32
  lastTickle_ts :: u64
  delayDisplayId :: u32
  gSystemAssertionTimeoutEnabled :: bool
  gSystemAssertionTimerActive :: bool
  gSystemAssertionTimer :: bool
  gSystemAssertionTimeoutList :: "(string \<rightharpoonup> int) option"
  kPMSystemAssertionTimeoutValue :: u64
  prevBTdisable :: bool
  prevPwrSrc :: "powerSource option"
  displayAsleepPrevious :: bool
  env :: env
  mainq :: "task list"
  trace :: "event list"

section \<open>Accessors\<close>

definition emit :: "event \<Rightarrow> pm \<Rightarrow> pm" where
  "emit e s = s\<lparr>trace := e # trace s\<rparr>"

definition dispatch_async :: "task \<Rightarrow> pm \<Rightarrow> pm" where
  "dispatch_async b s = s\<lparr>mainq := mainq s @ [b]\<rparr>"

text \<open>\<open>assertion->\<close>, \<open>assertType->\<close> and \<open>pinfo->\<close>: reading and updating a structure.\<close>

definition asn :: "pm \<Rightarrow> nat \<Rightarrow> assertion" where
  "asn s i = (case gAssertionsArray s i of Some a \<Rightarrow> a | None \<Rightarrow> calloc_assertion)"

definition upd_asn :: "nat \<Rightarrow> (assertion \<Rightarrow> assertion) \<Rightarrow> pm \<Rightarrow> pm" where
  "upd_asn i f s = s\<lparr>gAssertionsArray :=
     (\<lambda>j. if j = i then map_option f (gAssertionsArray s i) else gAssertionsArray s j)\<rparr>"

definition upd_type :: "kerAssertionType \<Rightarrow> (assertionType \<Rightarrow> assertionType) \<Rightarrow> pm \<Rightarrow> pm" where
  "upd_type t f s = s\<lparr>gAssertionTypes := (gAssertionTypes s)(t := f (gAssertionTypes s t))\<rparr>"

definition upd_lists :: "kerAssertionType \<Rightarrow> (lists \<Rightarrow> lists) \<Rightarrow> pm \<Rightarrow> pm" where
  "upd_lists t f = upd_type t (\<lambda>T. T\<lparr>tlists := f (tlists T)\<rparr>)"

definition proc :: "pm \<Rightarrow> pid \<Rightarrow> ProcessInfo" where
  "proc s p = (case gProcessDict s p of Some P \<Rightarrow> P | None \<Rightarrow> calloc_ProcessInfo)"

definition upd_proc :: "pid \<Rightarrow> (ProcessInfo \<Rightarrow> ProcessInfo) \<Rightarrow> pm \<Rightarrow> pm" where
  "upd_proc p f s = s\<lparr>gProcessDict :=
     (\<lambda>q. if q = p then map_option f (gProcessDict s p) else gProcessDict s q)\<rparr>"

abbreviation currTime :: "pm \<Rightarrow> u64" where
  "currTime s \<equiv> getMonotonicTime (env s)"

abbreviation state_set :: "stateBit \<Rightarrow> assertion \<Rightarrow> assertion" where
  "state_set b a \<equiv> a\<lparr>state := insert b (state a)\<rparr>"

abbreviation state_clear :: "stateBit set \<Rightarrow> assertion \<Rightarrow> assertion" where
  "state_clear B a \<equiv> a\<lparr>state := state a - B\<rparr>"

abbreviation prop_set :: "propKey \<Rightarrow> cf \<Rightarrow> assertion \<Rightarrow> assertion" where
  "prop_set k v a \<equiv> a\<lparr>props := (props a)(k \<mapsto> v)\<rparr>"

abbreviation prop_remove :: "propKey \<Rightarrow> assertion \<Rightarrow> assertion" where
  "prop_remove k a \<equiv> a\<lparr>props := (props a)(k := None)\<rparr>"

text \<open>\<open>LIST_REMOVE (assertion, link)\<close>: the element leaves whatever list it is linked on.\<close>

definition remove_from_lists :: "nat \<Rightarrow> lists \<Rightarrow> lists" where
  "remove_from_lists i l = \<lparr>activeTimed = removeAll i (activeTimed l),
     active = removeAll i (active l), inactive = removeAll i (inactive l),
     suspended = removeAll i (suspended l)\<rparr>"

definition LIST_REMOVE :: "nat \<Rightarrow> pm \<Rightarrow> pm" where
  "LIST_REMOVE i s = s\<lparr>gAssertionTypes :=
     (\<lambda>t. (gAssertionTypes s t)\<lparr>tlists := remove_from_lists i (tlists (gAssertionTypes s t))\<rparr>)\<rparr>"

end
