(* ===== verification/AssertionCore.thy ===== *)
theory AssertionCore
  imports AssertionState
begin

unbundle bit_operations_syntax

text \<open>
  The abstract assertion table.  \<open>core\<close> maps a state of the engine to the lists of every
  type and, for every live assertion, the fields the lists depend on.  The abstract
  operations are the ways the engine moves an assertion between lists; the component
  theories show that every concrete operation commutes with \<open>core\<close> (the \<open>core_simps\<close>
  collection), so the table invariant \<open>wf\<close> is proved here once, on the abstract table.
\<close>

section \<open>Identifiers\<close>

definition kMaxAssertions :: nat where
  "kMaxAssertions = 10240"

definition ID_FROM_INDEX :: "nat \<Rightarrow> u32" where
  "ID_FROM_INDEX i = (of_nat i AND 0x7fff) OR 0x8000"

definition INDEX_FROM_ID :: "u32 \<Rightarrow> nat" where
  "INDEX_FROM_ID n = unat (n AND NOT 0x8000)"

lemma clear_set_bit: "k < 32 \<Longrightarrow> ((w AND mask k) OR mask_of k) AND NOT (mask_of k) = w AND mask k"
  by (rule bit_eqI)
    (auto simp: bit_and_iff bit_or_iff bit_not_iff bit_mask_iff bit_mask_of possible_bit_def)

lemma mask_15: "(0x7fff :: u32) = mask 15" and bit_15: "(0x8000 :: u32) = mask_of 15"
  by (simp_all add: mask_eq_exp_minus_1 mask_of_def)

lemma index_of_id_word: "(((w::u32) AND 0x7fff) OR 0x8000) AND NOT 0x8000 = w AND mask 15"
  by (simp only: mask_15 bit_15 clear_set_bit)

lemma INDEX_ID [simp]: "i < kMaxAssertions \<Longrightarrow> INDEX_FROM_ID (ID_FROM_INDEX i) = i"
proof -
  assume i: "i < kMaxAssertions"
  have "unat (of_nat i AND mask 15 :: u32) = i"
    using i by (simp add: kMaxAssertions_def and_mask_less' unsigned_and_eq take_bit_eq_mask
        [symmetric] unsigned_take_bit_eq take_bit_nat_eq_self unat_of_nat)
  then show ?thesis
    by (simp only: INDEX_FROM_ID_def ID_FROM_INDEX_def index_of_id_word)
qed

lemma ID_FROM_INDEX_inj:
  "i < kMaxAssertions \<Longrightarrow> j < kMaxAssertions \<Longrightarrow> ID_FROM_INDEX i = ID_FROM_INDEX j \<longleftrightarrow> i = j"
  by (metis INDEX_ID)

section \<open>The abstract table\<close>

record acore =
  c_kassert :: kerAssertionType
  c_timed :: bool
  c_inactive :: bool
  c_timeout :: u64
  c_id :: u32
  c_pinfo :: pid
  c_type :: "typeName option"
  c_uid :: bool
  c_retain :: u32

text \<open>The configuration of a type: what only \<open>configAssertionType\<close> changes.\<close>

definition tconf ::
    "assertionType \<Rightarrow> typeFlag set \<times> kerAssertionEffect \<times> assertionHandler option \<times>
     entitlementName option \<times> u32 \<times> u64" where
  "tconf T = (flags T, effectIdx T, handler T, entitlement T, disableCnt T, autoTimeout T)"

lemma tconf_upd [simp]:
  "tconf (T\<lparr>tlists := x1\<rparr>) = tconf T" "tconf (T\<lparr>timer := x2\<rparr>) = tconf T"
  "tconf (T\<lparr>globalTimer := x3\<rparr>) = tconf T" "tconf (T\<lparr>globalTimeout := x4\<rparr>) = tconf T"
  "tconf (T\<lparr>forceTimedoutCnt := x5\<rparr>) = tconf T" "tconf (T\<lparr>validOnBattCount := x6\<rparr>) = tconf T"
  by (simp_all add: tconf_def)

record core =
  c_lists :: "kerAssertionType \<Rightarrow> lists"
  c_asn :: "nat \<rightharpoonup> acore"
  c_dict :: "typeName \<rightharpoonup> kerAssertionType"
  c_env :: env
  c_next :: nat
  c_conf :: "kerAssertionType \<Rightarrow> typeFlag set \<times> kerAssertionEffect \<times> assertionHandler option \<times>
    entitlementName option \<times> u32 \<times> u64"
  c_effects :: "kerAssertionEffect \<Rightarrow> kerAssertionType list"

definition type_of_props :: "props_t \<Rightarrow> typeName option" where
  "type_of_props p =
     (case p kIOPMAssertionTypeKey of Some (CFString (TypeName n)) \<Rightarrow> Some n | _ \<Rightarrow> None)"

definition acore :: "assertion \<Rightarrow> acore" where
  "acore a = \<lparr>c_kassert = kassert a, c_timed = (kAssertionStateTimed \<in> state a),
     c_inactive = (kAssertionStateInactive \<in> state a), c_timeout = timeout a,
     c_id = assertionId a, c_pinfo = pinfo a, c_type = type_of_props (props a),
     c_uid = (props a kIOPMAssertionGlobalUniqueIDKey \<noteq> None), c_retain = retainCnt a\<rparr>"

definition core :: "pm \<Rightarrow> core" where
  "core s = \<lparr>c_lists = (\<lambda>t. tlists (gAssertionTypes s t)),
     c_asn = (\<lambda>i. map_option acore (gAssertionsArray s i)),
     c_dict = gUserAssertionTypesDict s, c_env = env s, c_next = gNextAssertionIdx s,
     c_conf = (\<lambda>t. tconf (gAssertionTypes s t)), c_effects = gAssertionEffects s\<rparr>"

definition linked :: "lists \<Rightarrow> nat list" where
  "linked l = activeTimed l @ active l @ inactive l @ suspended l"

definition ctimeout :: "core \<Rightarrow> nat \<Rightarrow> u64" where
  "ctimeout c i = (case c_asn c i of Some a \<Rightarrow> c_timeout a | None \<Rightarrow> 0)"

definition cbits :: "core \<Rightarrow> nat \<Rightarrow> bool \<Rightarrow> bool \<Rightarrow> bool" where
  "cbits c i tm ina \<longleftrightarrow> (\<exists>a. c_asn c i = Some a \<and> c_timed a = tm \<and> c_inactive a = ina)"

subsection \<open>The invariant\<close>

text \<open>
  \<open>F\<close> is the set of assertions that are on no list of the table at the moment: in the
  middle of an operation the assertion being moved, between operations nothing.
\<close>

definition wf_links :: "nat set \<Rightarrow> core \<Rightarrow> bool" where
  "wf_links F c \<longleftrightarrow>
     (\<forall>t. distinct (linked (c_lists c t))) \<and>
     (\<forall>t. \<forall>i \<in> set (linked (c_lists c t)).
        i \<notin> F \<and> (\<exists>a. c_asn c i = Some a \<and> c_kassert a = t)) \<and>
     (\<forall>i a. c_asn c i = Some a \<longrightarrow> i \<notin> F \<longrightarrow> i \<in> set (linked (c_lists c (c_kassert a))))"

definition wf_bits :: "core \<Rightarrow> bool" where
  "wf_bits c \<longleftrightarrow>
     (\<forall>t. (\<forall>i \<in> set (activeTimed (c_lists c t)). cbits c i True False) \<and>
          (\<forall>i \<in> set (active (c_lists c t)). cbits c i False False) \<and>
          (\<forall>i \<in> set (inactive (c_lists c t)). cbits c i False True) \<and>
          (\<forall>i \<in> set (suspended (c_lists c t)). cbits c i False False))"

definition wf_sorted :: "core \<Rightarrow> bool" where
  "wf_sorted c \<longleftrightarrow> (\<forall>t. sorted (map (ctimeout c) (activeTimed (c_lists c t))))"

definition wf_ids :: "core \<Rightarrow> bool" where
  "wf_ids c \<longleftrightarrow> c_next c < kMaxAssertions \<and> (\<forall>i a. c_asn c i = Some a \<longrightarrow> i < kMaxAssertions \<and> c_id a = ID_FROM_INDEX i)"

definition well_typed :: "core \<Rightarrow> acore \<Rightarrow> bool" where
  "well_typed c a \<longleftrightarrow> c_uid a \<and> (\<exists>n. c_type a = Some n \<and> c_dict c n \<noteq> None)"

definition wf_types :: "nat set \<Rightarrow> core \<Rightarrow> bool" where
  "wf_types F c \<longleftrightarrow> (\<forall>i a. c_asn c i = Some a \<longrightarrow> i \<notin> F \<longrightarrow> well_typed c a)"

definition wf :: "nat set \<Rightarrow> core \<Rightarrow> bool" where
  "wf F c \<longleftrightarrow> wf_links F c \<and> wf_bits c \<and> wf_sorted c \<and> wf_ids c \<and> wf_types F c"

subsection \<open>Abstract operations\<close>

definition c_upd :: "nat \<Rightarrow> (acore \<Rightarrow> acore) \<Rightarrow> core \<Rightarrow> core" where
  "c_upd i f c = c\<lparr>c_asn := (\<lambda>j. if j = i then map_option f (c_asn c i) else c_asn c j)\<rparr>"

definition c_unlink :: "nat \<Rightarrow> core \<Rightarrow> core" where
  "c_unlink i c = c\<lparr>c_lists := (\<lambda>t. remove_from_lists i (c_lists c t))\<rparr>"

definition c_lists_upd :: "kerAssertionType \<Rightarrow> (lists \<Rightarrow> lists) \<Rightarrow> core \<Rightarrow> core" where
  "c_lists_upd t f c = c\<lparr>c_lists := (c_lists c)(t := f (c_lists c t))\<rparr>"

definition c_insert_inactive :: "nat \<Rightarrow> kerAssertionType \<Rightarrow> core \<Rightarrow> core" where
  "c_insert_inactive i t c =
     c_upd i (\<lambda>a. a\<lparr>c_timed := False, c_inactive := True\<rparr>)
       (c_lists_upd t (\<lambda>l. l\<lparr>inactive := i # inactive l\<rparr>) c)"

definition c_insert_active :: "nat \<Rightarrow> kerAssertionType \<Rightarrow> core \<Rightarrow> core" where
  "c_insert_active i t c =
     c_upd i (\<lambda>a. a\<lparr>c_timed := False, c_inactive := False\<rparr>)
       (c_lists_upd t (\<lambda>l. l\<lparr>active := i # active l\<rparr>) c)"

definition c_insert_timed :: "nat \<Rightarrow> kerAssertionType \<Rightarrow> core \<Rightarrow> core" where
  "c_insert_timed i t c =
     c_upd i (\<lambda>a. a\<lparr>c_timed := True\<rparr>)
       (c_lists_upd t (\<lambda>l. l\<lparr>activeTimed := insert_by (ctimeout c) i (activeTimed l)\<rparr>) c)"

definition c_push_suspended :: "nat \<Rightarrow> kerAssertionType \<Rightarrow> core \<Rightarrow> core" where
  "c_push_suspended i t = c_lists_upd t (\<lambda>l. l\<lparr>suspended := i # suspended l\<rparr>)"

definition c_free :: "nat \<Rightarrow> core \<Rightarrow> core" where
  "c_free i c = c\<lparr>c_asn := (c_asn c)(i := None)\<rparr>"

lemmas c_op_defs = c_upd_def c_unlink_def c_lists_upd_def c_insert_inactive_def
  c_insert_active_def c_insert_timed_def c_push_suspended_def c_free_def

lemma set_linked [simp]:
  "set (linked l) = set (activeTimed l) \<union> set (active l) \<union> set (inactive l) \<union> set (suspended l)"
  by (auto simp: linked_def)

lemma linked_remove [simp]: "linked (remove_from_lists i l) = removeAll i (linked l)"
  by (simp add: linked_def remove_from_lists_def)

lemma remove_from_lists_sel [simp]:
  "activeTimed (remove_from_lists i l) = removeAll i (activeTimed l)"
  "active (remove_from_lists i l) = removeAll i (active l)"
  "inactive (remove_from_lists i l) = removeAll i (inactive l)"
  "suspended (remove_from_lists i l) = removeAll i (suspended l)"
  by (simp_all add: remove_from_lists_def)

lemma core_eqI:
  fixes c d :: core
  assumes "c_lists c = c_lists d" "c_asn c = c_asn d" "c_dict c = c_dict d" "c_env c = c_env d"
    "c_next c = c_next d" "c_conf c = c_conf d" "c_effects c = c_effects d"
  shows "c = d"
  using assms by (intro core.equality) simp_all

lemma c_sel [simp]:
  "c_asn (c_upd i f c) = (\<lambda>j. if j = i then map_option f (c_asn c i) else c_asn c j)"
  "c_lists (c_upd i f c) = c_lists c" "c_dict (c_upd i f c) = c_dict c"
  "c_env (c_upd i f c) = c_env c" "c_next (c_upd i f c) = c_next c" "c_conf (c_upd i f c) = c_conf c"
  "c_effects (c_upd i f c) = c_effects c"
  "c_lists (c_unlink i c) = (\<lambda>t. remove_from_lists i (c_lists c t))"
  "c_asn (c_unlink i c) = c_asn c" "c_dict (c_unlink i c) = c_dict c"
  "c_env (c_unlink i c) = c_env c" "c_next (c_unlink i c) = c_next c" "c_conf (c_unlink i c) = c_conf c"
  "c_effects (c_unlink i c) = c_effects c"
  "c_lists (c_lists_upd t g c) = (c_lists c)(t := g (c_lists c t))"
  "c_asn (c_lists_upd t g c) = c_asn c" "c_dict (c_lists_upd t g c) = c_dict c"
  "c_env (c_lists_upd t g c) = c_env c" "c_next (c_lists_upd t g c) = c_next c" "c_conf (c_lists_upd t g c) = c_conf c"
  "c_effects (c_lists_upd t g c) = c_effects c"
  "c_asn (c_free i c) = (c_asn c)(i := None)" "c_lists (c_free i c) = c_lists c"
  "c_dict (c_free i c) = c_dict c" "c_env (c_free i c) = c_env c" "c_next (c_free i c) = c_next c" "c_conf (c_free i c) = c_conf c"
  "c_effects (c_free i c) = c_effects c"
  by (simp_all add: c_upd_def c_unlink_def c_lists_upd_def c_free_def)

section \<open>The invariant under the abstract operations\<close>

lemma wfD:
  assumes "wf F c"
  shows "wf_links F c" "wf_bits c" "wf_sorted c" "wf_ids c" "wf_types F c"
  using assms by (simp_all add: wf_def)

lemma wf_linked_iff:
  assumes "wf F c" and "c_asn c i = Some a"
  shows "i \<in> set (linked (c_lists c t)) \<longleftrightarrow> i \<notin> F \<and> t = c_kassert a"
  using assms unfolding wf_def wf_links_def by (metis option.inject)

lemma wf_linked_live:
  "wf F c \<Longrightarrow> i \<in> set (linked (c_lists c t)) \<Longrightarrow> \<exists>a. c_asn c i = Some a \<and> c_kassert a = t"
  unfolding wf_def wf_links_def by blast

lemma wf_floating_unlinked:
  "wf F c \<Longrightarrow> i \<in> F \<Longrightarrow> i \<notin> set (linked (c_lists c t))"
  unfolding wf_def wf_links_def by blast

lemma wf_free_unlinked:
  "wf F c \<Longrightarrow> c_asn c i = None \<Longrightarrow> i \<notin> set (linked (c_lists c t))"
  unfolding wf_def wf_links_def by (metis option.simps(3))

text \<open>
  Removal.  The fields of the removed assertion may have been changed beforehand (the code
  updates the state bits and the timeout in place before it relinks the assertion), as long
  as its type and identifier are kept: this is the general form, over \<open>c_upd\<close>.
\<close>

definition keeps_identity :: "(acore \<Rightarrow> acore) \<Rightarrow> bool" where
  "keeps_identity f \<longleftrightarrow> (\<forall>a. c_kassert (f a) = c_kassert a \<and> c_id (f a) = c_id a)"

lemma wf_links_unlink_upd:
  assumes "wf_links F c" and "keeps_identity f"
  shows "wf_links (insert i F) (c_upd i f (c_unlink i c))"
  unfolding wf_links_def
proof (intro conjI allI ballI impI)
  fix t
  show "distinct (linked (c_lists (c_upd i f (c_unlink i c)) t))"
    using assms by (simp add: wf_links_def distinct_removeAll)
next
  fix t j
  assume "j \<in> set (linked (c_lists (c_upd i f (c_unlink i c)) t))"
  then have "j \<noteq> i" and "j \<in> set (linked (c_lists c t))" by auto
  with assms show "j \<notin> insert i F"
    and "\<exists>a. c_asn (c_upd i f (c_unlink i c)) j = Some a \<and> c_kassert a = t"
    unfolding wf_links_def by auto
next
  fix j a
  assume "c_asn (c_upd i f (c_unlink i c)) j = Some a" and j: "j \<notin> insert i F"
  then have "c_asn c j = Some a" by (simp split: if_splits)
  with assms j have "j \<in> set (linked (c_lists c (c_kassert a)))"
    unfolding wf_links_def by simp
  with j show "j \<in> set (linked (c_lists (c_upd i f (c_unlink i c)) (c_kassert a)))" by auto
qed

lemma cbits_unlink_upd:
  "j \<noteq> i \<Longrightarrow> cbits (c_upd i f (c_unlink i c)) j p q = cbits c j p q"
  by (simp add: cbits_def)

lemma wf_bits_unlink_upd: "wf_bits c \<Longrightarrow> wf_bits (c_upd i f (c_unlink i c))"
  by (auto simp: wf_bits_def cbits_unlink_upd)

lemma ctimeout_upd_other: "j \<noteq> i \<Longrightarrow> ctimeout (c_upd i f c) j = ctimeout c j"
  by (simp add: ctimeout_def)

lemma ctimeout_unlink [simp]: "ctimeout (c_unlink i c) = ctimeout c"
  by (simp add: ctimeout_def fun_eq_iff)

lemma ctimeout_lists_upd [simp]: "ctimeout (c_lists_upd t g c) = ctimeout c"
  by (simp add: ctimeout_def fun_eq_iff)

lemma map_ctimeout_upd:
  "i \<notin> set xs \<Longrightarrow> map (ctimeout (c_upd i f c)) xs = map (ctimeout c) xs"
  by (intro map_cong refl ctimeout_upd_other) auto

lemma wf_sorted_unlink_upd: "wf_sorted c \<Longrightarrow> wf_sorted (c_upd i f (c_unlink i c))"
  by (simp add: wf_sorted_def map_ctimeout_upd sorted_map_removeAll)

lemma wf_ids_unlink_upd:
  "wf_ids c \<Longrightarrow> keeps_identity f \<Longrightarrow> wf_ids (c_upd i f (c_unlink i c))"
  by (auto simp: wf_ids_def keeps_identity_def split: if_splits)

lemma wf_types_unlink_upd:
  "wf_types F c \<Longrightarrow> wf_types (insert i F) (c_upd i f (c_unlink i c))"
  by (auto simp: wf_types_def well_typed_def split: if_splits)

lemma wf_unlink_upd:
  "wf F c \<Longrightarrow> keeps_identity f \<Longrightarrow> wf (insert i F) (c_upd i f (c_unlink i c))"
  by (simp add: wf_def wf_links_unlink_upd wf_bits_unlink_upd wf_sorted_unlink_upd
      wf_ids_unlink_upd wf_types_unlink_upd)

lemma c_unlink_upd_commute: "c_unlink i (c_upd j f c) = c_upd j f (c_unlink i c)"
  by (rule core_eqI) (simp_all add: fun_eq_iff)

lemma c_upd_ident: "(\<And>a. f a = a) \<Longrightarrow> c_upd i f c = c"
  by (rule core_eqI) (auto simp: fun_eq_iff map_option_case split: option.splits)

lemma wf_unlink: "wf F c \<Longrightarrow> wf (insert i F) (c_unlink i c)"
  using wf_unlink_upd [of F c "\<lambda>a. a" i] by (simp add: keeps_identity_def c_upd_ident)

text \<open>Fields of a floating assertion are free to change.\<close>

lemma wf_upd_floating:
  assumes "wf F c" and "i \<in> F" and "\<And>a. c_asn c i = Some a \<Longrightarrow> c_id (f a) = c_id a"
  shows "wf F (c_upd i f c)"
proof -
  have nl: "i \<notin> set (linked (c_lists c t))" for t
    using wf_floating_unlinked [OF assms(1,2)] .
  then have nl': "i \<notin> set (activeTimed (c_lists c t))" "i \<notin> set (active (c_lists c t))"
    "i \<notin> set (inactive (c_lists c t))" "i \<notin> set (suspended (c_lists c t))" for t
    by auto
  have "wf_links F (c_upd i f c)"
    using assms nl' unfolding wf_def wf_links_def by (auto split: if_splits)
  moreover have "wf_bits (c_upd i f c)"
    using assms nl' unfolding wf_def wf_bits_def cbits_def by auto
  moreover have "wf_sorted (c_upd i f c)"
    using assms nl' by (simp add: wf_def wf_sorted_def map_ctimeout_upd)
  moreover have "wf_ids (c_upd i f c)"
    using assms by (auto simp: wf_def wf_ids_def split: if_splits)
  moreover have "wf_types F (c_upd i f c)"
    using assms by (auto simp: wf_def wf_types_def well_typed_def split: if_splits)
  ultimately show ?thesis by (simp add: wf_def)
qed

text \<open>Insertion of a floating assertion into one of the lists of its type.\<close>

lemma wf_links_insert:
  assumes "wf_links F c" and "i \<in> F" and "c_asn c i = Some a" and "c_kassert a = t"
    and "keeps_identity f"
    and "mset (linked (g (c_lists c t))) = add_mset i (mset (linked (c_lists c t)))"
  shows "wf_links (F - {i}) (c_upd i f (c_lists_upd t g c))"
proof -
  let ?c = "c_upd i f (c_lists_upd t g c)"
  have nl: "i \<notin> set (linked (c_lists c u))" for u
    using assms(1,2) unfolding wf_links_def by blast
  have set_t: "set (linked (g (c_lists c t))) = insert i (set (linked (c_lists c t)))"
    using arg_cong [OF assms(6), of set_mset] by (simp del: set_linked)
  have dist: "distinct (linked (g (c_lists c t)))"
    using nl [of t] assms(1,6) unfolding wf_links_def
    by (metis distinct.simps(2) mset.simps(2) mset_eq_imp_distinct_iff)
  have mem: "j \<in> set (linked (c_lists ?c u)) \<longleftrightarrow>
      j \<in> set (linked (c_lists c u)) \<or> j = i \<and> u = t" for j u
    using set_t by (auto simp del: set_linked)
  have "distinct (linked (c_lists ?c u))" for u
    using assms(1) dist unfolding wf_links_def by (simp del: set_linked)
  moreover have "j \<notin> F - {i} \<and> (\<exists>a. c_asn ?c j = Some a \<and> c_kassert a = u)"
    if "j \<in> set (linked (c_lists ?c u))" for j u
    using that assms(1,3-5) nl [of u] unfolding mem wf_links_def keeps_identity_def
    by (auto simp del: set_linked)
  moreover have "j \<in> set (linked (c_lists ?c (c_kassert b)))"
    if "c_asn ?c j = Some b" and "j \<notin> F - {i}" for j b
    using that assms(1,3-5) unfolding mem wf_links_def keeps_identity_def
    by (auto simp del: set_linked split: if_splits)
  ultimately show ?thesis unfolding wf_links_def by blast
qed

lemma wf_insert:
  assumes wf: "wf F c" and i: "i \<in> F" and a: "c_asn c i = Some a" "c_kassert a = t"
    and f: "keeps_identity f" and typed: "well_typed c (f a)"
    and ms: "mset (linked (g (c_lists c t))) = add_mset i (mset (linked (c_lists c t)))"
    and wb: "wf_bits (c_upd i f (c_lists_upd t g c))"
    and ws: "wf_sorted (c_upd i f (c_lists_upd t g c))"
  shows "wf (F - {i}) (c_upd i f (c_lists_upd t g c))"
proof -
  have "wf_links (F - {i}) (c_upd i f (c_lists_upd t g c))"
    using wfD(1) [OF wf] i a f ms by (rule wf_links_insert)
  moreover have "wf_ids (c_upd i f (c_lists_upd t g c))"
    using wfD(4) [OF wf] f by (auto simp: wf_ids_def keeps_identity_def split: if_splits)
  moreover have "wf_types (F - {i}) (c_upd i f (c_lists_upd t g c))"
    using wfD(5) [OF wf] a typed by (auto simp: wf_types_def well_typed_def split: if_splits)
  ultimately show ?thesis using wb ws by (simp add: wf_def)
qed

lemma floating_not_in:
  assumes "wf F c" and "i \<in> F"
  shows "i \<notin> set (activeTimed (c_lists c t))" "i \<notin> set (active (c_lists c t))"
    "i \<notin> set (inactive (c_lists c t))" "i \<notin> set (suspended (c_lists c t))"
  using wf_floating_unlinked [OF assms, of t] by auto

lemma wf_insert_inactive:
  assumes "wf F c" and "i \<in> F" and "c_asn c i = Some a" and "c_kassert a = t"
    and "well_typed c a"
  shows "wf (F - {i}) (c_insert_inactive i t c)"
  unfolding c_insert_inactive_def
proof (rule wf_insert [OF assms(1-4)])
  show "wf_bits (c_upd i (\<lambda>a. a\<lparr>c_timed := False, c_inactive := True\<rparr>)
      (c_lists_upd t (\<lambda>l. l\<lparr>inactive := i # inactive l\<rparr>) c))"
    using wfD(2) [OF assms(1)] floating_not_in [OF assms(1,2)] assms(3)
    by (auto simp: wf_bits_def cbits_def)
  show "wf_sorted (c_upd i (\<lambda>a. a\<lparr>c_timed := False, c_inactive := True\<rparr>)
      (c_lists_upd t (\<lambda>l. l\<lparr>inactive := i # inactive l\<rparr>) c))"
    using wfD(3) [OF assms(1)] floating_not_in [OF assms(1,2)]
    by (simp add: wf_sorted_def map_ctimeout_upd)
qed (use assms(5) in \<open>auto simp: keeps_identity_def well_typed_def linked_def\<close>)

lemma wf_insert_active:
  assumes "wf F c" and "i \<in> F" and "c_asn c i = Some a" and "c_kassert a = t"
    and "well_typed c a"
  shows "wf (F - {i}) (c_insert_active i t c)"
  unfolding c_insert_active_def
proof (rule wf_insert [OF assms(1-4)])
  show "wf_bits (c_upd i (\<lambda>a. a\<lparr>c_timed := False, c_inactive := False\<rparr>)
      (c_lists_upd t (\<lambda>l. l\<lparr>active := i # active l\<rparr>) c))"
    using wfD(2) [OF assms(1)] floating_not_in [OF assms(1,2)] assms(3)
    by (auto simp: wf_bits_def cbits_def)
  show "wf_sorted (c_upd i (\<lambda>a. a\<lparr>c_timed := False, c_inactive := False\<rparr>)
      (c_lists_upd t (\<lambda>l. l\<lparr>active := i # active l\<rparr>) c))"
    using wfD(3) [OF assms(1)] floating_not_in [OF assms(1,2)]
    by (simp add: wf_sorted_def map_ctimeout_upd)
qed (use assms(5) in \<open>auto simp: keeps_identity_def well_typed_def linked_def\<close>)

lemma ctimeout_same_upd:
  "(\<And>a. c_timeout (f a) = c_timeout a) \<Longrightarrow> ctimeout (c_upd i f c) = ctimeout c"
  by (auto simp: ctimeout_def fun_eq_iff split: option.splits)

lemma wf_insert_timed:
  assumes "wf F c" and "i \<in> F" and "c_asn c i = Some a" and "c_kassert a = t"
    and "well_typed c a" and "\<not> c_inactive a"
  shows "wf (F - {i}) (c_insert_timed i t c)"
  unfolding c_insert_timed_def
proof (rule wf_insert [OF assms(1-4)])
  show "wf_bits (c_upd i (\<lambda>a. a\<lparr>c_timed := True\<rparr>)
      (c_lists_upd t (\<lambda>l. l\<lparr>activeTimed := insert_by (ctimeout c) i (activeTimed l)\<rparr>) c))"
    using wfD(2) [OF assms(1)] floating_not_in [OF assms(1,2)] assms(3,6)
    by (auto simp: wf_bits_def cbits_def)
  show "wf_sorted (c_upd i (\<lambda>a. a\<lparr>c_timed := True\<rparr>)
      (c_lists_upd t (\<lambda>l. l\<lparr>activeTimed := insert_by (ctimeout c) i (activeTimed l)\<rparr>) c))"
    using wfD(3) [OF assms(1)]
    by (simp add: wf_sorted_def ctimeout_same_upd sorted_insert_by)
qed (use assms(5) in \<open>auto simp: keeps_identity_def well_typed_def linked_def\<close>)

lemma wf_push_suspended:
  assumes "wf F c" and "i \<in> F" and "c_asn c i = Some a" and "c_kassert a = t"
    and "well_typed c a" and "\<not> c_timed a" and "\<not> c_inactive a"
  shows "wf (F - {i}) (c_push_suspended i t c)"
proof -
  have "wf (F - {i}) (c_upd i (\<lambda>a. a) (c_lists_upd t (\<lambda>l. l\<lparr>suspended := i # suspended l\<rparr>) c))"
  proof (rule wf_insert [OF assms(1-4)])
    show "wf_bits (c_upd i (\<lambda>a. a) (c_lists_upd t (\<lambda>l. l\<lparr>suspended := i # suspended l\<rparr>) c))"
      using wfD(2) [OF assms(1)] floating_not_in [OF assms(1,2)] assms(3,6,7)
      by (auto simp: wf_bits_def cbits_def)
    show "wf_sorted (c_upd i (\<lambda>a. a) (c_lists_upd t (\<lambda>l. l\<lparr>suspended := i # suspended l\<rparr>) c))"
      using wfD(3) [OF assms(1)] by (simp add: wf_sorted_def c_upd_ident)
  qed (use assms(5) in \<open>auto simp: keeps_identity_def well_typed_def linked_def\<close>)
  then show ?thesis by (simp add: c_push_suspended_def c_upd_ident)
qed

text \<open>Freeing a floating assertion.\<close>

lemma wf_free:
  assumes "wf F c" and "i \<in> F"
  shows "wf (F - {i}) (c_free i c)"
proof -
  note nl = floating_not_in [OF assms]
  have tm: "map (ctimeout (c_free i c)) xs = map (ctimeout c) xs" if "i \<notin> set xs" for xs
    using that by (auto simp: ctimeout_def)
  have "wf_links (F - {i}) (c_free i c)"
    using assms nl unfolding wf_def wf_links_def by auto
  moreover have "wf_bits (c_free i c)"
    using assms nl unfolding wf_def wf_bits_def cbits_def by auto
  moreover have "wf_sorted (c_free i c)"
    using assms nl by (simp add: wf_def wf_sorted_def tm)
  moreover have "wf_ids (c_free i c)" and "wf_types (F - {i}) (c_free i c)"
    using assms by (auto simp: wf_def wf_ids_def wf_types_def well_typed_def split: if_splits)
  ultimately show ?thesis by (simp add: wf_def)
qed

end
