(* ===== verification/AssertionProc.thy ===== *)
theory AssertionProc
  imports AssertionCore
begin

unbundle bit_operations_syntax

text \<open>
  Process bookkeeping of the assertion engine (PMAssertions.c): lookup by identifier, the
  reference-counted \<open>ProcessInfo\<close> table, the per-process effect statistics, App Nap
  counters, system qualifiers and per-process assertion timers.
\<close>

section \<open>Iteration over the lists of a type\<close>

datatype listSelectType =
    kSelectActive
  | kSelectInactive
  | kSelectSuspended
  | kSelectAllButSuspended
  | kSelectAll

text \<open>The assertions a selector visits, in the order of the four list heads.\<close>

fun selected :: "listSelectType \<Rightarrow> lists \<Rightarrow> nat list" where
  "selected kSelectActive l = activeTimed l @ active l"
| "selected kSelectInactive l = inactive l @ suspended l"
| "selected kSelectSuspended l = suspended l"
| "selected kSelectAllButSuspended l = activeTimed l @ active l @ inactive l"
| "selected kSelectAll l = activeTimed l @ active l @ inactive l @ suspended l"

text \<open>
  The list heads are read before the walk and the successor before each call of the block,
  and no block links an assertion behind the one it is called on, so the walk visits the
  members the lists have at the call.
\<close>

definition applyToAssertionsSync ::
    "kerAssertionType \<Rightarrow> listSelectType \<Rightarrow> (nat \<Rightarrow> pm \<Rightarrow> pm) \<Rightarrow> pm \<Rightarrow> pm" where
  "applyToAssertionsSync t sel f s = fold f (selected sel (tlists (gAssertionTypes s t))) s"

section \<open>Lookup\<close>

definition lookupAssertion :: "pm \<Rightarrow> pid \<Rightarrow> u32 \<Rightarrow> IOReturn \<times> nat option" where
  "lookupAssertion s p aid =
     (let idx = INDEX_FROM_ID aid in
      if idx \<ge> kMaxAssertions then (kIOReturnBadArgument, None)
      else case gAssertionsArray s idx of
             None \<Rightarrow> (kIOReturnBadArgument, None)
           | Some a \<Rightarrow> if pinfo a \<noteq> p then (kIOReturnNotPermitted, None)
                       else (kIOReturnSuccess, Some idx))"

section \<open>ProcessInfo\<close>

definition processInfoGet :: "pm \<Rightarrow> pid \<Rightarrow> pid option" where
  "processInfoGet s p = (case gProcessDict s p of Some P \<Rightarrow> Some p | None \<Rightarrow> None)"

definition processInfoRetain :: "pid \<Rightarrow> pm \<Rightarrow> pm" where
  "processInfoRetain p = upd_proc p
     (\<lambda>P. if retain_cnt P \<noteq> - 1 then P\<lparr>retain_cnt := retain_cnt P + 1\<rparr> else P)"

definition processInfoRelease :: "pid \<Rightarrow> pm \<Rightarrow> pm" where
  "processInfoRelease p s =
     (case gProcessDict s p of
        None \<Rightarrow> s
      | Some P \<Rightarrow>
          if retain_cnt P = 1 then
            let s1 = (if remoteConnection P then emit (XpcConnectionCancel p) s else s)
            in s1\<lparr>gProcessDict := (gProcessDict s1)(p := None)\<rparr>
          else upd_proc p (\<lambda>P. P\<lparr>retain_cnt := retain_cnt P - 1\<rparr>) s)"

text \<open>
  \<open>gProcAssertionLimits\<close> maps a process name to its (duration, aggregate) limits, the
  default entry is \<open>gDefaultLimits\<close> (0 where it is missing).
\<close>

definition setProcessAssertionLimits :: "pid \<Rightarrow> pm \<Rightarrow> pm" where
  "setProcessAssertionLimits p s =
     (case (gProcAssertionLimits s, pname (proc s p)) of
        (Some lmts, Some nm) \<Rightarrow>
          (case lmts nm of
             Some (al, ag) \<Rightarrow>
               upd_proc p (\<lambda>P. P\<lparr>maxAssertLength := (case al of Some v \<Rightarrow> v | None \<Rightarrow> maxAssertLength P),
                                  aggAssertLength := (case ag of Some v \<Rightarrow> v | None \<Rightarrow> aggAssertLength P)\<rparr>) s
           | None \<Rightarrow>
               upd_proc p (\<lambda>P. P\<lparr>maxAssertLength := fst (gDefaultLimits s),
                                  aggAssertLength := snd (gDefaultLimits s)\<rparr>) s)
      | _ \<Rightarrow> s)"

definition processInfoCreate :: "pid \<Rightarrow> pm \<Rightarrow> pid option \<times> pm" where
  "processInfoCreate p s =
     (case proc_name (env s) p of
        None \<Rightarrow> (None, s)
      | Some nm \<Rightarrow>
          if \<not> calloc_ok (env s) then (None, s)
          else
            let P = calloc_ProcessInfo\<lparr>pname := Some nm, procpid := p, retain_cnt := 1,
                      create_seq := gProcessSeq s\<rparr>;
                s1 = s\<lparr>gProcessSeq := gProcessSeq s + 1,
                       gProcessDict := (gProcessDict s)(p \<mapsto> P)\<rparr>
            in (Some p, setProcessAssertionLimits p s1))"

section \<open>Effect statistics\<close>

text \<open>\<open>allocStatsBuf\<close>; the report buffer of \<open>malloc\<close> is always obtained.\<close>

definition allocStatsBuf :: "pid \<Rightarrow> pm \<Rightarrow> pm" where
  "allocStatsBuf p s =
     (if gActivityAggCnt s = 0 \<or> reportBuf (proc s p) \<noteq> None then s
      else processInfoRetain p
             (upd_proc p (\<lambda>P. P\<lparr>reportBuf := Some (\<lambda>_. 0),
                                 stats := (\<lambda>_. \<lparr>st_cnt = 0, st_startTime = 0\<rparr>)\<rparr>) s))"

definition releaseStatsBuf :: "pid \<Rightarrow> pm \<Rightarrow> pm" where
  "releaseStatsBuf p s =
     (if reportBuf (proc s p) = None then s
      else processInfoRelease p
             (upd_proc p (\<lambda>P. P\<lparr>reportBuf := None,
                                 stats := (\<lambda>_. \<lparr>st_cnt = 0, st_startTime = 0\<rparr>)\<rparr>) s))"

definition releaseStatsBufByPid :: "pid \<Rightarrow> pm \<Rightarrow> pm" where
  "releaseStatsBufByPid p s =
     (case processInfoGet s p of None \<Rightarrow> s | Some _ \<Rightarrow> releaseStatsBuf p s)"

text \<open>
  The process on whose statistics an assertion counts: the process it is raised on behalf
  of (its \<open>ProcessInfo\<close> is looked up or created at the first use), else its owner.
\<close>

definition statsOwner :: "nat \<Rightarrow> pm \<Rightarrow> pid \<times> pm" where
  "statsOwner i s =
     (let a = asn s i;
          s1 = (if causingPid a \<noteq> 0 \<and> causingPinfo a = None then
                  (case processInfoGet s (causingPid a) of
                     Some q \<Rightarrow> upd_asn i (\<lambda>a. a\<lparr>causingPinfo := Some q\<rparr>) (processInfoRetain q s)
                   | None \<Rightarrow>
                      (case processInfoCreate (causingPid a) s of
                         (Some q, s') \<Rightarrow> upd_asn i (\<lambda>a. a\<lparr>causingPinfo := Some q\<rparr>) s'
                       | (None, s') \<Rightarrow>
                           upd_asn i (\<lambda>a. a\<lparr>causingPinfo := processInfoGet s' (pinfo a)\<rparr>)
                             (processInfoRetain (pinfo a) s')))
                else s)
      in ((if causingPid a \<noteq> 0 then
             (case causingPinfo (asn s1 i) of Some q \<Rightarrow> q | None \<Rightarrow> pinfo a)
           else pinfo a), s1))"

text \<open>
  The first half of \<open>updateAppStats\<close>: the process whose statistics are kept, when its
  buffer exists (or could be allocated) and statistics are being collected.
\<close>

definition statsTarget :: "nat \<Rightarrow> pm \<Rightarrow> pid option \<times> pm" where
  "statsTarget i s =
     (if gActivityAggCnt s \<noteq> 0 \<and> effect_has_stats (effectIdx (gAssertionTypes s (kassert (asn s i))))
      then
        let (p, s1) = statsOwner i s;
            s2 = (if reportBuf (proc s1 p) = None then allocStatsBuf p s1 else s1)
        in (if reportBuf (proc s2 p) \<noteq> None then Some p else None, s2)
      else (None, s))"

definition countRaise :: "nat \<Rightarrow> pid \<Rightarrow> kerAssertionEffect \<Rightarrow> pm \<Rightarrow> pm" where
  "countRaise i p e s =
     (if kAssertionStateAddsToProcStats \<notin> state (asn s i) then
        upd_asn i (state_set kAssertionStateAddsToProcStats)
          (upd_proc p (\<lambda>P. P\<lparr>stats := (stats P)(e :=
             \<lparr>st_cnt = st_cnt (stats P e) + 1,
              st_startTime = (if st_cnt (stats P e) = 0 then currTime s
                              else st_startTime (stats P e))\<rparr>)\<rparr>) s)
      else s)"

definition countRelease :: "nat \<Rightarrow> pid \<Rightarrow> kerAssertionEffect \<Rightarrow> pm \<Rightarrow> pm" where
  "countRelease i p e s =
     (if st_cnt (stats (proc s p) e) \<noteq> 0 \<and> kAssertionStateAddsToProcStats \<in> state (asn s i) then
        upd_asn i (state_clear {kAssertionStateAddsToProcStats})
          (upd_proc p (\<lambda>P. P\<lparr>
             stats := (stats P)(e := (stats P e)\<lparr>st_cnt := st_cnt (stats P e) - 1\<rparr>),
             reportBuf := (if st_cnt (stats P e) - 1 = 0
               then map_option (\<lambda>b. b(e := b e + (currTime s - st_startTime (stats P e))))
                      (reportBuf P)
               else reportBuf P)\<rparr>) s)
      else s)"

text \<open>An assertion of a type that is not valid on battery does not add to the statistics there.\<close>

definition updateAppStats :: "nat \<Rightarrow> assertionOps \<Rightarrow> pm \<Rightarrow> pm" where
  "updateAppStats i op s =
     (let T = gAssertionTypes s (kassert (asn s i));
          (st, s1) = statsTarget i s
      in case (op, st) of
           (kAssertionOpRaise, Some p) \<Rightarrow>
             if kAssertionTypeNotValidOnBatt \<in> flags T \<and>
                kAssertionStateValidOnBatt \<notin> state (asn s1 i) \<and>
                getPowerSource (env s1) = kBatteryPowered
             then s1 else countRaise i p (effectIdx T) s1
         | (kAssertionOpRelease, Some p) \<Rightarrow> countRelease i p (effectIdx T) s1
         | _ \<Rightarrow> s1)"

section \<open>App Nap\<close>

text \<open>The process whose App Nap state an assertion influences.\<close>

definition appSleepProc :: "pm \<Rightarrow> nat \<Rightarrow> pid" where
  "appSleepProc s i =
     (let a = asn s i in
      if causingPid a \<noteq> 0 then (case causingPinfo a of Some q \<Rightarrow> q | None \<Rightarrow> pinfo a)
      else pinfo a)"

definition schedDisableAppSleep :: "nat \<Rightarrow> pm \<Rightarrow> pm" where
  "schedDisableAppSleep i s =
     (let a = asn s i; t = kassert a; p = appSleepProc s i in
      if kAssertionTypePreventAppSleep \<notin> flags (gAssertionTypes s t) \<or> runningboard a then s
      else if p = getpid (env s) then s
      else if assert_cnt (proc s p) t = 255 then s
      else
        let agg = aggTypes (proc s p);
            s1 = upd_proc p (\<lambda>P. P\<lparr>assert_cnt := (assert_cnt P)(t := assert_cnt P t + 1),
                                    aggTypes := aggTypes P OR mask_of (kidx t)\<rparr>) s
        in if agg = 0 then
             dispatch_async (DisableAppSleepTask p)
               (upd_proc p (\<lambda>P. P\<lparr>disableAS_pend := True\<rparr>) (processInfoRetain p s1))
           else s1)"

definition schedEnableAppSleep :: "nat \<Rightarrow> pm \<Rightarrow> pm" where
  "schedEnableAppSleep i s =
     (let a = asn s i; t = kassert a; p = appSleepProc s i in
      if kAssertionTypePreventAppSleep \<notin> flags (gAssertionTypes s t) \<or> runningboard a then s
      else if p = getpid (env s) then s
      else
        let s1 = upd_proc p (\<lambda>P. P\<lparr>assert_cnt := (assert_cnt P)(t := assert_cnt P t - 1)\<rparr>) s
        in if assert_cnt (proc s1 p) t = 0 then
             let s2 = upd_proc p (\<lambda>P. P\<lparr>aggTypes := aggTypes P AND NOT (mask_of (kidx t))\<rparr>) s1
             in if aggTypes (proc s2 p) = 0 then
                  dispatch_async (EnableAppSleepTask p)
                    (upd_proc p (\<lambda>P. P\<lparr>enableAS_pend := True\<rparr>) (processInfoRetain p s2))
                else s2
           else s1)"

definition disableAppSleep :: "pid \<Rightarrow> pm \<Rightarrow> pm" where
  "disableAppSleep p s =
     (if \<not> disableAS_pend (proc s p) then s
      else
        let s1 = upd_proc p (\<lambda>P. P\<lparr>disableAS_pend := False\<rparr>) s
        in if appnap_enabled_for_pid (env s) p then emit (AppNapState p True) s1
           else emit (NotifyPost (appSleepDisableNotify p)) s1)"

definition enableAppSleep :: "pid \<Rightarrow> pm \<Rightarrow> pm" where
  "enableAppSleep p s =
     (if \<not> enableAS_pend (proc s p) then s
      else
        let s1 = upd_proc p (\<lambda>P. P\<lparr>enableAS_pend := False\<rparr>) s
        in if appnap_enabled_for_pid (env s) p then emit (AppNapState p False) s1
           else emit (NotifyPost (appSleepEnableNotify p)) s1)"

section \<open>System qualifiers\<close>

text \<open>One entry of \<open>kIOPMAssertionResourcesUsed\<close>, in the raise block of \<open>updateSystemQualifiers\<close>.\<close>

definition useResource :: "nat \<Rightarrow> cf \<Rightarrow> pm \<Rightarrow> pm" where
  "useResource i v s =
     (case v of
        CFString (Resource kIOPMAssertionResourceAudioIn) \<Rightarrow>
          if allowsDeviceRestart (asn s i) then s
          else (upd_asn i (\<lambda>a. a\<lparr>audioin := True\<rparr>) s)
                 \<lparr>gSysQualifier := (gSysQualifier s)\<lparr>q_audioin := q_audioin (gSysQualifier s) + 1\<rparr>\<rparr>
      | CFString (Resource kIOPMAssertionResourceAudioOut) \<Rightarrow>
          (upd_asn i (\<lambda>a. a\<lparr>audioout := True\<rparr>) s)
            \<lparr>gSysQualifier := (gSysQualifier s)\<lparr>q_audioout := q_audioout (gSysQualifier s) + 1\<rparr>\<rparr>
      | CFString (Resource kIOPMAssertionResourceGPS) \<Rightarrow>
          (upd_asn i (\<lambda>a. a\<lparr>gps := True\<rparr>) s)
            \<lparr>gSysQualifier := (gSysQualifier s)\<lparr>q_gps := q_gps (gSysQualifier s) + 1\<rparr>\<rparr>
      | CFString (Resource kIOPMAssertionResourceBaseband) \<Rightarrow>
          (upd_asn i (\<lambda>a. a\<lparr>baseband := True\<rparr>) s)
            \<lparr>gSysQualifier := (gSysQualifier s)\<lparr>q_baseband := q_baseband (gSysQualifier s) + 1\<rparr>\<rparr>
      | CFString (Resource kIOPMAssertionResourceBluetooth) \<Rightarrow>
          (upd_asn i (\<lambda>a. a\<lparr>bluetooth := True\<rparr>) s)
            \<lparr>gSysQualifier := (gSysQualifier s)\<lparr>q_bluetooth := q_bluetooth (gSysQualifier s) + 1\<rparr>\<rparr>
      | CFString (Resource kIOPMAssertionResourcePerfUnrestricted) \<Rightarrow>
          (upd_asn i (\<lambda>a. a\<lparr>perfUnrestricted := True\<rparr>) s)
            \<lparr>gSysQualifier := (gSysQualifier s)
               \<lparr>q_perfUnrestricted := q_perfUnrestricted (gSysQualifier s) + 1\<rparr>\<rparr>
      | CFString (Resource kIOPMAssertionResourceCamera) \<Rightarrow>
          (upd_asn i (\<lambda>a. a\<lparr>camera := True\<rparr>) s)
            \<lparr>gSysQualifier := (gSysQualifier s)\<lparr>q_camera := q_camera (gSysQualifier s) + 1\<rparr>\<rparr>
      | _ \<Rightarrow> s)"

text \<open>The raise block of \<open>updateSystemQualifiers\<close>.\<close>

definition qualifiersCreate :: "nat \<Rightarrow> pm \<Rightarrow> pm" where
  "qualifiersCreate i s =
     (let p = props (asn s i);
          s1 = (if p kIOPMAssertionAllowsDeviceRestart = Some (CFBoolean True)
                then upd_asn i (\<lambda>a. a\<lparr>allowsDeviceRestart := True\<rparr>) s else s);
          s2 = (case p kIOPMAssertionResourcesUsed of
                  Some (CFArray vs) \<Rightarrow> fold (useResource i) vs s1 | _ \<Rightarrow> s1)
      in if p kIOPMAssertionActivityBudgeted = Some (CFBoolean True) then
           (upd_asn i (\<lambda>a. a\<lparr>budgetedActivity := True\<rparr>) s2)
             \<lparr>gSysQualifier := (gSysQualifier s2)
                \<lparr>q_budgetedActivity := q_budgetedActivity (gSysQualifier s2) + 1\<rparr>\<rparr>
         else s2)"

text \<open>\<open>if (flag && count) count--\<close>\<close>

definition dec_if :: "bool \<Rightarrow> int \<Rightarrow> int" where
  "dec_if b n = (if b \<and> n \<noteq> 0 then n - 1 else n)"

text \<open>The release block of \<open>updateSystemQualifiers\<close>.\<close>

definition qualifiersRelease :: "nat \<Rightarrow> pm \<Rightarrow> pm" where
  "qualifiersRelease i s =
     (let a = asn s i; q = gSysQualifier s in
      (upd_asn i (\<lambda>a. a\<lparr>audioin := False, audioout := False, gps := False, baseband := False,
          bluetooth := False, perfUnrestricted := False, camera := False,
          allowsDeviceRestart := False, budgetedActivity := False\<rparr>) s)
        \<lparr>gSysQualifier := q
          \<lparr>q_audioin := dec_if (audioin a) (q_audioin q),
           q_audioout := dec_if (audioout a) (q_audioout q),
           q_gps := dec_if (gps a) (q_gps q),
           q_baseband := dec_if (baseband a) (q_baseband q),
           q_bluetooth := dec_if (bluetooth a) (q_bluetooth q),
           q_perfUnrestricted := dec_if (perfUnrestricted a) (q_perfUnrestricted q),
           q_camera := dec_if (camera a) (q_camera q),
           q_budgetedActivity := dec_if (budgetedActivity a) (q_budgetedActivity q)\<rparr>\<rparr>)"

definition audioExists :: "sysQualifier \<Rightarrow> bool" where
  "audioExists q \<longleftrightarrow> q_audioin q + q_audioout q \<noteq> 0"

definition updateSystemQualifiers :: "nat \<Rightarrow> assertionOps \<Rightarrow> pm \<Rightarrow> pm" where
  "updateSystemQualifiers i op s =
     (let q0 = gSysQualifier s;
          s1 = (case op of
                  kAssertionOpRaise \<Rightarrow> qualifiersCreate i s
                | kAssertionOpRelease \<Rightarrow> qualifiersRelease i s
                | kAssertionOpEval \<Rightarrow> qualifiersCreate i (qualifiersRelease i s)
                | _ \<Rightarrow> s);
          s2 = dispatch_async CheckRestartPreventersTask s1;
          q1 = gSysQualifier s2;
          s3 = (if audioExists q0 \<noteq> audioExists q1 \<or> (q_camera q0 \<noteq> 0) \<noteq> (q_camera q1 \<noteq> 0)
                then dispatch_async UserActiveHandlePowerAssertionsChangedTask s2 else s2)
      in if (q_perfUnrestricted q0 \<noteq> 0) \<noteq> (q_perfUnrestricted q1 \<noteq> 0)
         then emit EvaluatePerfMode s3 else s3)"

definition checkRestartPreventers :: "pm \<Rightarrow> pm" where
  "checkRestartPreventers s =
     (let act = (\<lambda>t. selected kSelectActive (tlists (gAssertionTypes s t)));
          cnt = int (length (filter (\<lambda>i. \<not> allowsDeviceRestart (asn s i))
                   (act kPreventIdleType @ act kDeclareSystemActivityType)))
      in if (cnt \<noteq> 0) \<noteq> (q_restartPreventers (gSysQualifier s) \<noteq> 0) then
           emit (NotifyPost restartpreventersNotify)
             (s\<lparr>gSysQualifier := (gSysQualifier s)\<lparr>q_restartPreventers := cnt\<rparr>\<rparr>)
         else s)"

section \<open>Per-process timers\<close>

definition stopProcTimer :: "nat \<Rightarrow> pm \<Rightarrow> pm" where
  "stopProcTimer i s =
     (if procTimer (asn s i) \<and> kAssertionProcTimerActive \<in> state (asn s i) then
        upd_asn i (state_clear {kAssertionProcTimerActive}) (emit (SuspendProcTimer i) s)
      else s)"

definition startProcTimer :: "pid \<Rightarrow> u32 \<Rightarrow> pm \<Rightarrow> pm" where
  "startProcTimer p aid s =
     (if gProcessDict s p = None \<or> proc_exited (proc s p) \<or> maxAssertLength (proc s p) = 0 then s
      else case snd (lookupAssertion s p aid) of
        None \<Rightarrow> s
      | Some i \<Rightarrow>
          if effectIdx (gAssertionTypes s (kassert (asn s i))) = kNoEffect then s
          else if getPowerSource (env s) \<noteq> kBatteryPowered \<or> \<not> isDisplayAsleep (env s) then s
          else if timeout (asn s i) \<noteq> 0 \<and>
                  timeout (asn s i) - currTime s \<le> ucast (maxAssertLength (proc s p)) then s
          else
            let s1 = stopProcTimer i s
            in upd_asn i (\<lambda>a. state_set kAssertionProcTimerActive (a\<lparr>procTimer := True\<rparr>))
                 (emit (ArmProcTimer i (maxAssertLength (proc s1 p))) s1))"

definition InternalStartProcTimer :: "nat \<Rightarrow> pm \<Rightarrow> pm" where
  "InternalStartProcTimer i s =
     dispatch_async (StartProcTimerTask (pinfo (asn s i)) (assertionId (asn s i))) s"

definition handleProcAssertionTimeout :: "pid \<Rightarrow> u32 \<Rightarrow> pm \<Rightarrow> pm" where
  "handleProcAssertionTimeout p aid s =
     (if gProcessDict s p = None \<or> proc_exited (proc s p) then s
      else case snd (lookupAssertion s p aid) of
        None \<Rightarrow> s
      | Some i \<Rightarrow> emit (NotifyPost (durationExceptionNotify p)) s)"

section \<open>The bookkeeping leaves the abstract table alone\<close>

lemma core_emit [core_simps]: "core (emit e s) = core s"
  by (simp add: emit_def core_def)

lemma core_dispatch_async [core_simps]: "core (dispatch_async b s) = core s"
  by (simp add: dispatch_async_def core_def)

lemma core_upd_proc [core_simps]: "core (upd_proc p f s) = core s"
  by (simp add: upd_proc_def core_def)

lemma core_upd_asn:
  "(\<And>a. acore (f a) = g (acore a)) \<Longrightarrow> core (upd_asn i f s) = c_upd i g (core s)"
  by (rule core_eqI) (auto simp: upd_asn_def core_def fun_eq_iff option.map_comp comp_def)

lemma core_upd_asn_same:
  "(\<And>a. acore (f a) = acore a) \<Longrightarrow> core (upd_asn i f s) = core s"
  by (subst core_upd_asn [where g = "\<lambda>a. a"]) (simp_all add: c_upd_ident)

lemma core_upd_type:
  "(\<And>T. tlists (f T) = tlists T \<and> tconf (f T) = tconf T) \<Longrightarrow> core (upd_type t f s) = core s"
  by (rule core_eqI) (auto simp: upd_type_def core_def fun_eq_iff)

lemma core_upd_lists: "core (upd_lists t f s) = c_lists_upd t f (core s)"
  by (rule core_eqI) (auto simp: upd_lists_def upd_type_def core_def fun_eq_iff)

lemma core_LIST_REMOVE [core_simps]: "core (LIST_REMOVE i s) = c_unlink i (core s)"
  by (rule core_eqI) (auto simp: LIST_REMOVE_def core_def fun_eq_iff)

text \<open>Globals outside the abstract table.\<close>

lemma core_globals [core_simps]:
  "core (s\<lparr>gProcessDict := x1\<rparr>) = core s" "core (s\<lparr>gProcessSeq := x2\<rparr>) = core s"
  "core (s\<lparr>aggregate_assertions := x3\<rparr>) = core s"
  "core (s\<lparr>kerAssertionBits := x4\<rparr>) = core s" "core (s\<lparr>gSysQualifier := x5\<rparr>) = core s"
  "core (s\<lparr>gActivityAggCnt := x6\<rparr>) = core s" "core (s\<lparr>gAnyChange := x7\<rparr>) = core s"
  "core (s\<lparr>gAggChange := x8\<rparr>) = core s" "core (s\<lparr>gTimeoutChange := x9\<rparr>) = core s"
  "core (s\<lparr>gDisplaySleepTimer := x10\<rparr>) = core s" "core (s\<lparr>gIdleSleepTimer := x11\<rparr>) = core s"
  "core (s\<lparr>gPrevClamshellSleepState := x12\<rparr>) = core s" "core (s\<lparr>lastTickle_ts := x13\<rparr>) = core s"
  "core (s\<lparr>delayDisplayId := x14\<rparr>) = core s"
  "core (s\<lparr>gSystemAssertionTimer := x15\<rparr>) = core s"
  "core (s\<lparr>gSystemAssertionTimerActive := x16\<rparr>) = core s"
  "core (s\<lparr>mainq := x17\<rparr>) = core s" "core (s\<lparr>trace := x18\<rparr>) = core s"
  "core (s\<lparr>gAggCleanupDispatch := x24\<rparr>) = core s"
  "core (s\<lparr>prevBTdisable := x21\<rparr>) = core s" "core (s\<lparr>prevPwrSrc := x22\<rparr>) = core s"
  "core (s\<lparr>displayAsleepPrevious := x23\<rparr>) = core s"
  by (simp_all add: core_def)

lemma acore_fields [core_simps]:
  "acore (a\<lparr>createTime := y1\<rparr>) = acore a" "acore (a\<lparr>mods := y2\<rparr>) = acore a"
  "acore (a\<lparr>retainCnt := y3\<rparr>) = (acore a)\<lparr>c_retain := y3\<rparr>" "acore (a\<lparr>causingPid := y4\<rparr>) = acore a"
  "acore (a\<lparr>causingPinfo := y5\<rparr>) = acore a" "acore (a\<lparr>procTimer := y6\<rparr>) = acore a"
  "acore (a\<lparr>runningboard := y7\<rparr>) = acore a" "acore (a\<lparr>audioin := y8\<rparr>) = acore a"
  "acore (a\<lparr>audioout := y8\<rparr>) = acore a" "acore (a\<lparr>gps := y8\<rparr>) = acore a"
  "acore (a\<lparr>baseband := y8\<rparr>) = acore a" "acore (a\<lparr>bluetooth := y8\<rparr>) = acore a"
  "acore (a\<lparr>perfUnrestricted := y8\<rparr>) = acore a" "acore (a\<lparr>camera := y8\<rparr>) = acore a"
  "acore (a\<lparr>allowsDeviceRestart := y8\<rparr>) = acore a"
  "acore (a\<lparr>budgetedActivity := y8\<rparr>) = acore a"
  by (simp_all add: acore_def)

lemma acore_state_bits [core_simps]:
  "b \<noteq> kAssertionStateTimed \<Longrightarrow> b \<noteq> kAssertionStateInactive \<Longrightarrow> acore (state_set b a) = acore a"
  "kAssertionStateTimed \<notin> B \<Longrightarrow> kAssertionStateInactive \<notin> B \<Longrightarrow> acore (state_clear B a) = acore a"
  by (auto simp: acore_def)

lemma acore_props [core_simps]:
  "k \<noteq> kIOPMAssertionTypeKey \<Longrightarrow> k \<noteq> kIOPMAssertionGlobalUniqueIDKey \<Longrightarrow>
     acore (prop_set k v a) = acore a"
  "k \<noteq> kIOPMAssertionTypeKey \<Longrightarrow> k \<noteq> kIOPMAssertionGlobalUniqueIDKey \<Longrightarrow>
     acore (prop_remove k a) = acore a"
  by (auto simp: acore_def type_of_props_def)

lemma core_processInfo [core_simps]:
  "core (processInfoRetain p s) = core s"
  "core (processInfoRelease p s) = core s"
  "core (setProcessAssertionLimits p s) = core s"
  "core (snd (processInfoCreate p s)) = core s"
  by (auto simp: processInfoRetain_def processInfoRelease_def setProcessAssertionLimits_def
      processInfoCreate_def Let_def core_simps split: option.splits prod.splits)

lemma core_processInfoCreate [core_simps]:
  "processInfoCreate p s = (r, s') \<Longrightarrow> core s' = core s"
  using core_processInfo(4) [of p s] by simp

lemma core_stats [core_simps]:
  "core (allocStatsBuf p s) = core s" "core (releaseStatsBuf p s) = core s"
  "core (releaseStatsBufByPid p s) = core s"
  by (auto simp: allocStatsBuf_def releaseStatsBuf_def releaseStatsBufByPid_def core_simps
      split: option.splits)

lemma core_statsOwner [core_simps]: "core (snd (statsOwner i s)) = core s"
  by (auto simp: statsOwner_def Let_def core_simps core_upd_asn_same
      split: option.splits prod.splits)

lemma core_statsOwner' [core_simps]: "statsOwner i s = (p, s') \<Longrightarrow> core s' = core s"
  using core_statsOwner [of i s] by simp

lemma core_count [core_simps]:
  "core (countRaise i p e s) = core s" "core (countRelease i p e s) = core s"
  by (simp_all add: countRaise_def countRelease_def core_simps core_upd_asn_same)

lemma core_statsTarget [core_simps]: "core (snd (statsTarget i s)) = core s"
  by (auto simp: statsTarget_def Let_def core_simps split: prod.split)

lemma core_updateAppStats [core_simps]: "core (updateAppStats i op s) = core s"
  using core_statsTarget [of i s]
  by (cases op; cases "statsTarget i s"; cases "fst (statsTarget i s)")
    (simp_all add: updateAppStats_def Let_def core_count)

lemma core_appSleep [core_simps]:
  "core (schedDisableAppSleep i s) = core s" "core (schedEnableAppSleep i s) = core s"
  "core (disableAppSleep p s) = core s" "core (enableAppSleep p s) = core s"
  by (auto simp: schedDisableAppSleep_def schedEnableAppSleep_def disableAppSleep_def
      enableAppSleep_def Let_def core_simps)

lemma core_gSysQualifier: "core (s\<lparr>gSysQualifier := x\<rparr>) = core s"
  by (rule core_simps)

lemma core_useResource [core_simps]: "core (useResource i v s) = core s"
  by (simp add: useResource_def core_gSysQualifier core_upd_asn_same acore_def
      split: cf.split cfstr.split resourceName.split)

lemma core_fold_useResource [core_simps]: "core (fold (useResource i) vs s) = core s"
  by (rule fold_view_same) (rule core_useResource)

lemma core_qualifiersRelease [core_simps]: "core (qualifiersRelease i s) = core s"
  unfolding qualifiersRelease_def Let_def core_gSysQualifier
  by (rule core_upd_asn_same) (simp add: acore_def)

lemma core_useResources [core_simps]:
  "core (case v of Some (CFArray vs) \<Rightarrow> fold (useResource i) vs s | _ \<Rightarrow> s) = core s"
  by (simp add: core_fold_useResource split: option.split cf.split)

lemma core_qualifiersCreate [core_simps]: "core (qualifiersCreate i s) = core s"
  unfolding qualifiersCreate_def Let_def
  by (simp add: core_simps core_upd_asn_same if_distrib [of core] cong: if_cong)

lemma core_updateSystemQualifiers [core_simps]: "core (updateSystemQualifiers i op s) = core s"
  by (auto simp: updateSystemQualifiers_def Let_def core_simps split: assertionOps.splits)

lemma core_checkRestartPreventers [core_simps]: "core (checkRestartPreventers s) = core s"
  by (simp add: checkRestartPreventers_def Let_def core_simps)

lemma core_procTimers [core_simps]:
  "core (stopProcTimer i s) = core s" "core (startProcTimer p aid s) = core s"
  "core (InternalStartProcTimer i s) = core s" "core (handleProcAssertionTimeout p aid s) = core s"
  by (auto simp: stopProcTimer_def startProcTimer_def InternalStartProcTimer_def
      handleProcAssertionTimeout_def Let_def core_simps core_upd_asn_same acore_def
      split: option.splits)

end
