(* ===== verification/AssertionLists.thy ===== *)
theory AssertionLists
  imports AssertionProc
begin

unbundle bit_operations_syntax

text \<open>
  The list operations of the assertion engine (PMAssertions.c): linking an assertion into
  the active, timed or inactive list of its type with the accounting that goes with it, the
  type's timer, and the commuting facts with the abstract table.
\<close>

section \<open>Inactive and active lists\<close>

definition insertInactiveAssertion :: "nat \<Rightarrow> kerAssertionType \<Rightarrow> pm \<Rightarrow> pm" where
  "insertInactiveAssertion i t s =
     upd_asn i (\<lambda>a. a\<lparr>state := insert kAssertionStateInactive (state a - {kAssertionStateTimed})\<rparr>)
       (upd_lists t (\<lambda>l. l\<lparr>inactive := i # inactive l\<rparr>) s)"

definition removeInactiveAssertion :: "nat \<Rightarrow> kerAssertionType \<Rightarrow> pm \<Rightarrow> pm" where
  "removeInactiveAssertion i t s =
     upd_asn i (state_clear {kAssertionStateInactive}) (LIST_REMOVE i s)"

text \<open>The accounting \<open>insertActiveAssertion\<close> and \<open>insertTimedAssertion\<close> share.\<close>

definition countValidOnBatt :: "nat \<Rightarrow> kerAssertionType \<Rightarrow> pm \<Rightarrow> pm" where
  "countValidOnBatt i t s =
     (if kAssertionTypeNotValidOnBatt \<in> flags (gAssertionTypes s t) \<and>
         kAssertionStateValidOnBatt \<in> state (asn s i)
      then upd_type t (\<lambda>T. T\<lparr>validOnBattCount := validOnBattCount T + 1\<rparr>) s else s)"

definition uncountValidOnBatt :: "nat \<Rightarrow> kerAssertionType \<Rightarrow> pm \<Rightarrow> pm" where
  "uncountValidOnBatt i t s =
     (if kAssertionStateValidOnBatt \<in> state (asn s i) \<and>
         validOnBattCount (gAssertionTypes s t) \<noteq> 0
      then upd_type t (\<lambda>T. T\<lparr>validOnBattCount := validOnBattCount T - 1\<rparr>) s else s)"

definition raiseUpdates :: "nat \<Rightarrow> pm \<Rightarrow> pm" where
  "raiseUpdates i s =
     updateSystemQualifiers i kAssertionOpRaise
       (schedDisableAppSleep i (updateAppStats i kAssertionOpRaise s))"

definition releaseUpdates :: "nat \<Rightarrow> pm \<Rightarrow> pm" where
  "releaseUpdates i s =
     updateSystemQualifiers i kAssertionOpRelease
       (schedEnableAppSleep i (updateAppStats i kAssertionOpRelease s))"

definition insertActiveAssertion :: "nat \<Rightarrow> kerAssertionType \<Rightarrow> bool \<Rightarrow> pm \<Rightarrow> pm" where
  "insertActiveAssertion i t updates s =
     (let s1 = upd_asn i (state_clear {kAssertionStateTimed, kAssertionStateInactive,
                                         kAssertionSkipLogging})
                 (upd_lists t (\<lambda>l. l\<lparr>active := i # active l\<rparr>) s);
          s2 = countValidOnBatt i t s1;
          s3 = (if updates then raiseUpdates i s2 else s2)
      in InternalStartProcTimer i s3)"

definition removeActiveAssertion :: "nat \<Rightarrow> kerAssertionType \<Rightarrow> bool \<Rightarrow> pm \<Rightarrow> pm" where
  "removeActiveAssertion i t updates s =
     (let s1 = uncountValidOnBatt i t (LIST_REMOVE i s);
          s2 = (if updates then releaseUpdates i s1 else s1)
      in stopProcTimer i s2)"

section \<open>The timer of a type\<close>

text \<open>
  Fire at once (deferred to the main queue) when the earliest timeout has passed, else arm
  the dispatch source with the remaining seconds.
\<close>

definition armOrFire :: "kerAssertionType \<Rightarrow> nat \<Rightarrow> pm \<Rightarrow> pm" where
  "armOrFire t i s =
     (if timeout (asn s i) \<le> currTime s
      then dispatch_async (HandleAssertionTimeoutTask t) s
      else emit (ArmTypeTimer t (timeout (asn s i) - currTime s)) s)"

definition resetAssertionTimer :: "kerAssertionType \<Rightarrow> pm \<Rightarrow> pm" where
  "resetAssertionTimer t s =
     (case activeTimed (tlists (gAssertionTypes s t)) of
        [] \<Rightarrow> s
      | i # _ \<Rightarrow> armOrFire t i s)"

definition updateAssertionTimer :: "kerAssertionType \<Rightarrow> pm \<Rightarrow> pm" where
  "updateAssertionTimer t s =
     (case activeTimed (tlists (gAssertionTypes s t)) of
        [] \<Rightarrow> s
      | i # _ \<Rightarrow> armOrFire t i (upd_type t (\<lambda>T. T\<lparr>timer := True\<rparr>) s))"

section \<open>The timed list\<close>

definition insertByTimeout :: "nat \<Rightarrow> kerAssertionType \<Rightarrow> pm \<Rightarrow> pm" where
  "insertByTimeout i t s =
     (let s1 = (if timeout (asn s i) > currTime s then
                  upd_asn i (\<lambda>a. prop_set kIOPMAssertionTimeoutUpdateTimeKey
                       (CFDate (CFAbsoluteTimeGetCurrent (env s)))
                     (prop_set kIOPMAssertionTimeoutTimeLeftKey
                       (CFNumber (u64_rat (timeout a - currTime s))) a)) s
                else s)
      in upd_lists t (\<lambda>l. l\<lparr>activeTimed := insert_by (\<lambda>j. timeout (asn s1 j)) i (activeTimed l)\<rparr>) s1)"

definition insertTimedAssertion :: "nat \<Rightarrow> kerAssertionType \<Rightarrow> bool \<Rightarrow> bool \<Rightarrow> pm \<Rightarrow> pm" where
  "insertTimedAssertion i t updateTimer updates s =
     (let s1 = upd_asn i (\<lambda>a. a\<lparr>state := insert kAssertionStateTimed (state a) - {kAssertionSkipLogging}\<rparr>)
                 (insertByTimeout i t s);
          s2 = countValidOnBatt i t s1;
          s3 = (if updates then raiseUpdates i s2 else s2);
          s4 = InternalStartProcTimer i s3
      in case activeTimed (tlists (gAssertionTypes s4 t)) of
           j # _ \<Rightarrow> if j = i \<and> updateTimer then updateAssertionTimer t s4 else s4
         | [] \<Rightarrow> s4)"

definition removeTimedAssertion :: "nat \<Rightarrow> kerAssertionType \<Rightarrow> bool \<Rightarrow> bool \<Rightarrow> pm \<Rightarrow> pm" where
  "removeTimedAssertion i t updateTimer updates s =
     (let s1 = upd_asn i (prop_remove kIOPMAssertionTimeoutTimeLeftKey) s;
          isTheFirstOne = (case activeTimed (tlists (gAssertionTypes s1 t)) of
                             j # _ \<Rightarrow> j = i | [] \<Rightarrow> False);
          s2 = upd_asn i (state_clear {kAssertionStateTimed}) (LIST_REMOVE i s1);
          s3 = uncountValidOnBatt i t s2;
          s4 = (if updates then releaseUpdates i s3 else s3);
          s5 = stopProcTimer i s4
      in if isTheFirstOne \<and> updateTimer then resetAssertionTimer t s5 else s5)"

section \<open>Commuting with the abstract table\<close>

lemma core_sel [simp]:
  "c_lists (core s) t = tlists (gAssertionTypes s t)"
  "c_asn (core s) i = map_option acore (gAssertionsArray s i)"
  "c_dict (core s) = gUserAssertionTypesDict s" "c_env (core s) = env s"
  "c_next (core s) = gNextAssertionIdx s" "c_conf (core s) t = tconf (gAssertionTypes s t)"
  "c_effects (core s) = gAssertionEffects s"
  by (simp_all add: core_def)

lemma core_lists_eq: "core s = core s' \<Longrightarrow> tlists (gAssertionTypes s t) = tlists (gAssertionTypes s' t)"
  by (metis core_sel(1))

lemma core_env_eq: "core s = core s' \<Longrightarrow> env s = env s'"
  by (metis core_sel(4))

lemma ctimeout_core: "ctimeout (core s) i = (if gAssertionsArray s i = None then 0 else timeout (asn s i))"
  by (auto simp: ctimeout_def asn_def acore_def split: option.splits)

lemma timeout_asn: "timeout (asn s i) = ctimeout (core s) i"
  by (auto simp: ctimeout_core asn_def calloc_assertion_def split: option.splits)

lemma core_counts [core_simps]:
  "core (countValidOnBatt i t s) = core s" "core (uncountValidOnBatt i t s) = core s"
  "core (raiseUpdates i s) = core s" "core (releaseUpdates i s) = core s"
  by (simp_all add: countValidOnBatt_def uncountValidOnBatt_def raiseUpdates_def
      releaseUpdates_def core_simps core_upd_type)

lemma core_timers [core_simps]:
  "core (armOrFire t i s) = core s" "core (resetAssertionTimer t s) = core s"
  "core (updateAssertionTimer t s) = core s"
  by (simp_all add: armOrFire_def resetAssertionTimer_def updateAssertionTimer_def core_simps
      core_upd_type split: list.split)

lemma core_insertInactive [core_simps]:
  "core (insertInactiveAssertion i t s) = c_insert_inactive i t (core s)"
  unfolding insertInactiveAssertion_def c_insert_inactive_def core_upd_lists [symmetric]
  by (rule core_upd_asn) (simp add: acore_def)

lemma core_removeInactive [core_simps]:
  "core (removeInactiveAssertion i t s) =
     c_upd i (\<lambda>a. a\<lparr>c_inactive := False\<rparr>) (c_unlink i (core s))"
  unfolding removeInactiveAssertion_def core_LIST_REMOVE [symmetric]
  by (rule core_upd_asn) (simp add: acore_def)

lemma core_insertActive [core_simps]:
  "core (insertActiveAssertion i t updates s) = c_insert_active i t (core s)"
proof -
  have "core (upd_asn i (state_clear {kAssertionStateTimed, kAssertionStateInactive,
        kAssertionSkipLogging}) (upd_lists t (\<lambda>l. l\<lparr>active := i # active l\<rparr>) s))
      = c_insert_active i t (core s)"
    unfolding c_insert_active_def core_upd_lists [symmetric]
    by (rule core_upd_asn) (simp add: acore_def)
  then show ?thesis
    by (simp add: insertActiveAssertion_def Let_def core_simps)
qed

lemma core_removeActive [core_simps]:
  "core (removeActiveAssertion i t updates s) = c_unlink i (core s)"
  by (simp add: removeActiveAssertion_def Let_def core_simps)

lemma core_insertByTimeout [core_simps]:
  "core (insertByTimeout i t s) =
     c_lists_upd t (\<lambda>l. l\<lparr>activeTimed := insert_by (ctimeout (core s)) i (activeTimed l)\<rparr>) (core s)"
  by (simp add: insertByTimeout_def Let_def core_upd_lists timeout_asn core_upd_asn_same
      acore_def type_of_props_def)

lemma core_insertTimed [core_simps]:
  "core (insertTimedAssertion i t updateTimer updates s) = c_insert_timed i t (core s)"
proof -
  have "core (upd_asn i (\<lambda>a. a\<lparr>state := insert kAssertionStateTimed (state a) -
        {kAssertionSkipLogging}\<rparr>) (insertByTimeout i t s)) = c_insert_timed i t (core s)"
    unfolding c_insert_timed_def core_insertByTimeout [symmetric]
    by (rule core_upd_asn) (simp add: acore_def)
  then show ?thesis
    by (simp add: insertTimedAssertion_def Let_def core_simps split: list.split)
qed

lemma core_removeTimed [core_simps]:
  "core (removeTimedAssertion i t updateTimer updates s) =
     c_upd i (\<lambda>a. a\<lparr>c_timed := False\<rparr>) (c_unlink i (core s))"
proof -
  have "core (upd_asn i (state_clear {kAssertionStateTimed}) (LIST_REMOVE i s')) =
      c_upd i (\<lambda>a. a\<lparr>c_timed := False\<rparr>) (c_unlink i (core s'))" for s'
    unfolding core_LIST_REMOVE [symmetric] by (rule core_upd_asn) (simp add: acore_def)
  moreover have "core (upd_asn i (prop_remove kIOPMAssertionTimeoutTimeLeftKey) s) = core s"
    by (rule core_upd_asn_same) (simp add: core_simps)
  ultimately show ?thesis
    by (simp add: removeTimedAssertion_def Let_def core_simps)
qed

end
