(* ===== verification/AssertionHandlers.thy ===== *)
theory AssertionHandlers
  imports AssertionLists
begin

unbundle bit_operations_syntax

text \<open>
  From assertions to effects (PMAssertions.c): which effects have active assertions, the
  aggregate levels, the clamshell and display requests, and the handlers that raise and
  drop the kernel assertion bits and the setting overrides.  The build modelled is macOS on
  Apple silicon (\<open>TARGET_OS_OSX && TARGET_CPU_ARM64\<close>).
\<close>

section \<open>Aggregate levels\<close>

definition getAssertionLevel :: "pm \<Rightarrow> kerAssertionType \<Rightarrow> bool" where
  "getAssertionLevel s t \<longleftrightarrow> aggregate_assertions s AND mask_of (kidx t) \<noteq> 0"

definition setAggregateLevel :: "kerAssertionType \<Rightarrow> bool \<Rightarrow> pm \<Rightarrow> pm" where
  "setAggregateLevel t v s = s\<lparr>aggregate_assertions :=
     (if v then aggregate_assertions s OR mask_of (kidx t)
      else aggregate_assertions s AND NOT (mask_of (kidx t)))\<rparr>"

lemma getAssertionLevel_set [simp]:
  "getAssertionLevel (setAggregateLevel t v s) u = (if t = u then v else getAssertionLevel s u)"
  by (auto simp: getAssertionLevel_def setAggregateLevel_def mask_test bit_or_mask bit_and_not_mask)

section \<open>Active assertions of an effect\<close>

text \<open>\<open>typeActive\<close> of the loops in \<open>checkForActives\<close> and \<open>checkForActivesByEffect\<close>.\<close>

definition typeActive :: "pm \<Rightarrow> kerAssertionType \<Rightarrow> bool" where
  "typeActive s u =
     (let T = gAssertionTypes s u in
      if kAssertionTypeNotValidOnBatt \<in> flags T \<and> getPowerSource (env s) = kBatteryPowered
      then validOnBattCount T > 0
      else active (tlists T) \<noteq> [] \<or> activeTimed (tlists T) \<noteq> [])"

fun effectLoop :: "pm \<Rightarrow> kerAssertionType list \<Rightarrow> bool" where
  "effectLoop s [] = False"
| "effectLoop s (u # us) = (if typeActive s u then True else effectLoop s us)"

definition checkForActivesByEffect :: "pm \<Rightarrow> kerAssertionEffect \<Rightarrow> bool" where
  "checkForActivesByEffect s e =
     (if e = kNoEffect then False else effectLoop s (gAssertionEffects s e))"

text \<open>
  The loop of \<open>checkForActives\<close> with its two early returns; \<open>want\<close> says whether the caller
  passed \<open>existsInThisType\<close>.  The result is the returned value and \<open>*existsInThisType\<close>.
\<close>

fun activesLoop :: "pm \<Rightarrow> kerAssertionType \<Rightarrow> bool \<Rightarrow> kerAssertionType list \<Rightarrow> bool \<Rightarrow> bool \<times> bool" where
  "activesLoop s t want [] effectActive = (effectActive, False)"
| "activesLoop s t want (u # us) effectActive =
     (let ta = typeActive s u; ea = effectActive \<or> ta in
      if want \<and> u = t \<and> ta then (True, True)
      else if ta \<and> \<not> want then (True, False)
      else activesLoop s t want us ea)"

definition checkForActives :: "pm \<Rightarrow> kerAssertionType \<Rightarrow> bool \<Rightarrow> bool \<times> bool" where
  "checkForActives s t want =
     (let e = effectIdx (gAssertionTypes s t) in
      if e = kNoEffect then (False, False)
      else activesLoop s t want (gAssertionEffects s e) False)"

definition systemBlockedInS0Dark :: "pm \<Rightarrow> bool" where
  "systemBlockedInS0Dark s = fst (checkForActives s kPreventSleepType False)"

definition checkForActivesByType :: "pm \<Rightarrow> kerAssertionType \<Rightarrow> bool" where
  "checkForActivesByType s t = snd (checkForActives s t True)"

definition checkForEntriesByType :: "pm \<Rightarrow> kerAssertionType \<Rightarrow> bool" where
  "checkForEntriesByType s t \<longleftrightarrow>
     active (tlists (gAssertionTypes s t)) \<noteq> [] \<or> activeTimed (tlists (gAssertionTypes s t)) \<noteq> []"

definition checkForAudioType :: "pm \<Rightarrow> bool" where
  "checkForAudioType s \<longleftrightarrow> audioExists (gSysQualifier s)"

definition checkForCameraType :: "pm \<Rightarrow> bool" where
  "checkForCameraType s \<longleftrightarrow> q_camera (gSysQualifier s) \<noteq> 0"

definition checkForUnrestrictedPerfType :: "pm \<Rightarrow> bool" where
  "checkForUnrestrictedPerfType s \<longleftrightarrow> q_perfUnrestricted (gSysQualifier s) \<noteq> 0"

section \<open>Clamshell and display requests\<close>

definition kClamshellDisableAssertions :: u32 where
  "kClamshellDisableAssertions = 0x1"

definition kClamshellDisableDesktopMode :: u32 where
  "kClamshellDisableDesktopMode = 0x10"

definition kClamshellDisableSystemSleep :: u32 where
  "kClamshellDisableSystemSleep = 0x100"

definition lidSleepPreventers :: "pm \<Rightarrow> kerAssertionType \<Rightarrow> nat" where
  "lidSleepPreventers s t =
     length (filter (\<lambda>i. kAssertionLidStateModifier \<in> state (asn s i))
       (selected kSelectActive (tlists (gAssertionTypes s t))))"

definition setClamshellSleepState :: "pm \<Rightarrow> pm" where
  "setClamshellSleepState s =
     (let lidSleepCount = lidSleepPreventers s kDeclareUserActivityType
            + lidSleepPreventers s kTicklessDisplayWakeType
            + lidSleepPreventers s kPreventSleepType;
          new1 = (if isDesktopMode (env s) then kClamshellDisableDesktopMode else 0);
          newState = (if lidSleepCount \<noteq> 0 then new1 OR kClamshellDisableAssertions else new1);
          prev = gPrevClamshellSleepState s;
          update = (newState \<noteq> 0 \<and> prev = 0 \<or> newState = 0 \<and> prev \<noteq> 0)
      in if \<not> isA_FullWake (env s) then
           s\<lparr>gPrevClamshellSleepState := newState OR kClamshellDisableSystemSleep\<rparr>
         else
           let s1 = s\<lparr>gPrevClamshellSleepState := newState\<rparr> in
           if update \<and> getRootDomainConnect (env s)
           then emit (SetClamshellSleepStateKernel (newState \<noteq> 0)) s1 else s1)"

definition getClamshellSleepState :: "pm \<Rightarrow> u32" where
  "getClamshellSleepState s = gPrevClamshellSleepState s"

definition disableClamshellSleepState :: "pm \<Rightarrow> pm" where
  "disableClamshellSleepState s =
     (if gPrevClamshellSleepState s = 0 then
        if \<not> getRootDomainConnect (env s) then s
        else (emit (SetClamshellSleepStateKernel True) s)
               \<lparr>gPrevClamshellSleepState := kClamshellDisableSystemSleep\<rparr>
      else s\<lparr>gPrevClamshellSleepState :=
               gPrevClamshellSleepState s OR kClamshellDisableSystemSleep\<rparr>)"

definition kDisplayTickleDelay :: u64 where
  "kDisplayTickleDelay = 30"

definition sendActivityTickle :: "pm \<Rightarrow> pm" where
  "sendActivityTickle s =
     (let E = env s; s0 = emit SystemLoadUserActive s in
      if currTime s - lastTickle_ts s < kDisplayTickleDelay \<and> \<not> isDisplayAsleep E \<and>
         userActiveRootDomain E then s0
      else
        let s1 = (if \<not> isDisplayAsleep E \<and> \<not> userActiveRootDomain E
                  then emit UserActiveHandleRootDomainActivity s0 else s0) in
        if isDisplayAsleep E \<and> \<not> canSustainFullWake E then s1
        else if \<not> getRootDomainConnect E then s1
        else
          let s2 = emit ActivityTickleKernel s1;
              s3 = (if isDisplayAsleep E \<or> inFlightDimRequest E then emit UnblankDisplay s2 else s2)
          in if rootDomainCallOK E then s3\<lparr>lastTickle_ts := currTime s\<rparr> else s3)"

definition sendUserAssertionsToKernel :: "kernelBit set \<Rightarrow> pm \<Rightarrow> pm" where
  "sendUserAssertionsToKernel b s =
     (if getRootDomainConnect (env s) then emit (UserAssertionsToKernel b) s else s)"

section \<open>Aggregates and the global timer of a type\<close>

definition resetGlobalTimer :: "kerAssertionType \<Rightarrow> u64 \<Rightarrow> pm \<Rightarrow> pm" where
  "resetGlobalTimer t tmo s =
     (if kAssertionTypeGloballyTimed \<notin> flags (gAssertionTypes s t) then s
      else
        let s1 = upd_type t (\<lambda>T. T\<lparr>globalTimeout := tmo\<rparr>) s in
        if tmo = 0 then
          if globalTimer (gAssertionTypes s1 t)
          then dispatch_async (GlobalTimerCancelHandlerTask t) (emit (CancelGlobalTimer t) s1)
          else s1
        else emit (ArmGlobalTimer t tmo) (upd_type t (\<lambda>T. T\<lparr>globalTimer := True\<rparr>) s1))"

definition updateAggregates :: "kerAssertionType \<Rightarrow> bool \<Rightarrow> pm \<Rightarrow> pm" where
  "updateAggregates t activesForTheType s =
     (let s1 = (if activesForTheType then setAggregateLevel t True s
                else
                  setAggregateLevel t False
                    (if getAssertionLevel s t \<and> globalTimeout (gAssertionTypes s t) \<noteq> 0
                     then resetGlobalTimer t 0 s else s))
      in if t = kDeclareUserActivityType \<or> t = kPreventDisplaySleepType \<or>
            t = kNetworkAccessType \<or> t = kTicklessDisplayWakeType
         then emit UserActiveHandlePowerAssertionsChanged s1 else s1)"

definition notifyAggChange :: "pm \<Rightarrow> pm" where
  "notifyAggChange s =
     (if gAggChange s \<noteq> 0 then emit (NotifyPost kIOPMAssertionsChangedNotifyString) s else s)"

definition notifyAnyChange :: "pm \<Rightarrow> pm" where
  "notifyAnyChange s =
     (if gAnyChange s \<noteq> 0 then emit (NotifyPost kIOPMAssertionsAnyChangedNotifyString) s else s)"

definition notifyTimeoutChange :: "pm \<Rightarrow> pm" where
  "notifyTimeoutChange s =
     (if gTimeoutChange s \<noteq> 0 then emit (NotifyPost kIOPMAssertionTimedOutNotifyString) s else s)"

section \<open>Handlers\<close>

text \<open>The setting a type overrides in \<open>modifySettings\<close>.\<close>

fun settingOfType :: "kerAssertionType \<Rightarrow> settingOverride option" where
  "settingOfType kHighPerfType = Some kPMForceHighSpeed"
| "settingOfType kDeclareSystemActivityType = Some kPMPreventIdleSleep"
| "settingOfType kBackgroundTaskType = Some kPMPreventIdleSleep"
| "settingOfType kPreventIdleType = Some kPMPreventIdleSleep"
| "settingOfType kNetworkAccessType = Some kPMPreventIdleSleep"
| "settingOfType kInteractivePushServiceType = Some kPMPreventIdleSleep"
| "settingOfType kReservePwrPreventIdleType = Some kPMPreventIdleSleep"
| "settingOfType kPreventDiskSleepType = Some kPMPreventDiskSleep"
| "settingOfType _ = None"

definition modifySettings :: "kerAssertionType \<Rightarrow> assertionOps \<Rightarrow> pm \<Rightarrow> pm" where
  "modifySettings t op s =
     (if effectIdx (gAssertionTypes s t) = kNoEffect then s
      else
        let assertionLevel = getAssertionLevel s t;
            (activeExists, activesForTheType) = checkForActives s t True;
            s1 = updateAggregates t activesForTheType s;
            opVal = (case op of
                kAssertionOpRaise \<Rightarrow> if assertionLevel \<or> \<not> activeExists then None else Some True
              | kAssertionOpRelease \<Rightarrow> if \<not> assertionLevel \<or> activeExists then None else Some False
              | _ \<Rightarrow> if activeExists then (if assertionLevel then None else Some True)
                    else (if \<not> assertionLevel then None else Some False))
        in case opVal of
             None \<Rightarrow> s1
           | Some v \<Rightarrow>
              (case settingOfType t of
                 None \<Rightarrow> s1
               | Some x \<Rightarrow>
                   notifyAggChange (emit ActivateSettingOverrides (emit (OverrideSetting x v) s1))))"

definition handleBatteryAssertions :: "kerAssertionType \<Rightarrow> assertionOps \<Rightarrow> pm \<Rightarrow> pm" where
  "handleBatteryAssertions t op s =
     (if op = kAssertionOpEval then s
      else
        let activeExists = fst (checkForActives s t False); raise = (op = kAssertionOpRaise) in
        if raise \<and> (getAssertionLevel s t \<or> \<not> activeExists) then s
        else if \<not> raise \<and> (\<not> getAssertionLevel s t \<or> activeExists) then s
        else
          let s1 = setAggregateLevel t raise s;
              s2 = (if t = kDisableInflowType then emit (SmartBatteryCommand kSBUCInflowDisable raise) s1
                    else if t = kInhibitChargeType then emit (SmartBatteryCommand kSBUCChargeInhibit raise) s1
                    else if t = kDisableWarningsType then emit (SetBatteryWarningsDisabled True) s1
                    else s1)
          in notifyAggChange s2)"

text \<open>The kernel bit of a type in \<open>setKernelAssertions\<close>.\<close>

fun assertBitOf :: "kerAssertionType \<Rightarrow> kernelBit option" where
  "assertBitOf kPushServiceTaskType = Some kIOPMDriverAssertionCPUBit"
| "assertBitOf kInteractivePushServiceType = Some kIOPMDriverAssertionCPUBit"
| "assertBitOf kPreventSleepType = Some kIOPMDriverAssertionCPUBit"
| "assertBitOf kBackgroundTaskType = Some kIOPMDriverAssertionCPUBit"
| "assertBitOf kSRPreventSleepType = Some kIOPMDriverAssertionCPUBit"
| "assertBitOf kNetworkAccessType = Some kIOPMDriverAssertionCPUBit"
| "assertBitOf kSoftwareUpdateType = Some kIOPMDriverAssertionCPUBit"
| "assertBitOf kDeclareUserActivityType = Some kIOPMDriverAssertionPreventDisplaySleepBit"
| "assertBitOf kPreventDisplaySleepType = Some kIOPMDriverAssertionPreventDisplaySleepBit"
| "assertBitOf kIntPreventDisplaySleepType = Some kIOPMDriverAssertionPreventDisplaySleepBit"
| "assertBitOf kExternalMediaType = Some kIOPMDriverAssertionExternalMediaMountedBit"
| "assertBitOf _ = None"

text \<open>The tail of \<open>setKernelAssertions\<close>: change the bit and tell the kernel.\<close>

definition commitKernelBit :: "kernelBit \<Rightarrow> bool \<Rightarrow> pm \<Rightarrow> pm" where
  "commitKernelBit b activeExists s =
     notifyAggChange
       (if activeExists then
          let s1 = s\<lparr>kerAssertionBits := insert b (kerAssertionBits s)\<rparr>
          in sendUserAssertionsToKernel (kerAssertionBits s1) s1
        else
          let s1 = s\<lparr>kerAssertionBits := kerAssertionBits s - {b}\<rparr>;
              s2 = (if b = kIOPMDriverAssertionPreventDisplaySleepBit \<and>
                       getDisplaySleepTimer (env s) \<noteq> Some 0 \<and>
                       \<not> isA_NotificationDisplayWake (env s)
                    then emit DimDisplay s1 else s1)
          in sendUserAssertionsToKernel (kerAssertionBits s2) s2)"

text \<open>
  The three operations of \<open>setKernelAssertions\<close> on the type's bit \<open>b\<close>, once the aggregates
  are updated.
\<close>

definition kernelRaise :: "kerAssertionType \<Rightarrow> kernelBit \<Rightarrow> bool \<Rightarrow> bool \<Rightarrow> pm \<Rightarrow> pm" where
  "kernelRaise t b activeExists activesForTheType s =
     (let s1 = (if t = kDeclareUserActivityType \<and> activesForTheType
                then emit UnclampSilentRunning (sendActivityTickle (setClamshellSleepState s))
                else s);
          s2 = (if (t = kPreventSleepType \<or> t = kNetworkAccessType) \<and> activesForTheType
                then emit SetVMDarkwakeModeOff (emit UnclampSilentRunning
                       (if t = kPreventSleepType then setClamshellSleepState s1 else s1))
                else s1)
      in if b \<in> kerAssertionBits s2 \<or> \<not> activeExists then s2
         else commitKernelBit b activeExists s2)"

definition kernelRelease :: "kerAssertionType \<Rightarrow> kernelBit \<Rightarrow> bool \<Rightarrow> pm \<Rightarrow> pm" where
  "kernelRelease t b activeExists s =
     (let s1 = (if t = kDeclareUserActivityType then setClamshellSleepState s else s);
          s2 = (if t = kPreventSleepType then setClamshellSleepState s1 else s1)
      in if b \<notin> kerAssertionBits s2 \<or> activeExists then s2
         else commitKernelBit b activeExists s2)"

definition kernelEval :: "kerAssertionType \<Rightarrow> kernelBit \<Rightarrow> bool \<Rightarrow> bool \<Rightarrow> pm \<Rightarrow> pm" where
  "kernelEval t b activeExists activesForTheType s =
     (let s1 = (if t = kPreventSleepType \<and> activesForTheType then emit UnclampSilentRunning s else s)
      in if activeExists \<and> b \<in> kerAssertionBits s1 then s1
         else if \<not> activeExists \<and> b \<notin> kerAssertionBits s1 then s1
         else commitKernelBit b activeExists s1)"

definition setKernelAssertions :: "kerAssertionType \<Rightarrow> assertionOps \<Rightarrow> pm \<Rightarrow> pm" where
  "setKernelAssertions t op s =
     (if effectIdx (gAssertionTypes s t) = kNoEffect then s
      else
        let (activeExists, activesForTheType) = checkForActives s t True in
        case assertBitOf t of
          None \<Rightarrow> s
        | Some b \<Rightarrow>
            let s0 = (if t = kPushServiceTaskType \<and> \<not> activesForTheType \<and> getAssertionLevel s t
                      then emit (LogSleepServiceTerminated (forceTimedoutCnt (gAssertionTypes s t))) s
                      else s);
                s1 = updateAggregates t activesForTheType s0
            in case op of
                 kAssertionOpRaise \<Rightarrow> kernelRaise t b activeExists activesForTheType s1
               | kAssertionOpRelease \<Rightarrow> kernelRelease t b activeExists s1
               | _ \<Rightarrow> kernelEval t b activeExists activesForTheType s1)"

definition enableIdleHandler :: "kerAssertionType \<Rightarrow> assertionOps \<Rightarrow> pm \<Rightarrow> pm" where
  "enableIdleHandler t op s = s"

text \<open>Leaving silent running for an assertion that asks for it (\<open>check_silentRunning\<close>).\<close>

definition checkSilentRunning :: "kerAssertionType \<Rightarrow> bool \<Rightarrow> pm \<Rightarrow> pm" where
  "checkSilentRunning t level s =
     (if level \<and> isInSilentRunningMode (env s) \<and>
         (\<exists>i \<in> set (selected kSelectActive (tlists (gAssertionTypes s t))).
            kAssertionExitSilentRunningMode \<in> state (asn s i))
      then emit UnclampSilentRunning s else s)"

text \<open>The requests to the display and the root domain once the new level is decided.\<close>

definition displayWakeDisplay :: "bool \<Rightarrow> pm \<Rightarrow> pm" where
  "displayWakeDisplay level s =
     (let E = env s in
      if level then
        (if (isDisplayAsleep E \<or> inFlightDimRequest E) \<and> canSustainFullWake E
         then emit UnblankDisplay s else s)
      else if isA_NotificationDisplayWake E \<and> \<not> userActiveRootDomain E then
        (let b = emit BlankDisplay s in
         if rootDomainWakeTypeNotification E = Some True
         then emit SleepAfterNotificationWake b else b)
      else s)"

definition displayWakeNotify :: "bool \<Rightarrow> pm \<Rightarrow> pm" where
  "displayWakeNotify level s =
     (let E = env s in
      if level then
        (if \<not> getUserActiveAssertionValid E \<and>
            (isA_DarkWakeState E \<and> \<not> isA_FullWake E \<or> isA_SleepState E \<or> isDisplayAsleep E)
         then emit SetNotificationDisplayWake s else s)
      else emit CancelNotificationDisplayWake s)"

text \<open>
  \<open>notificationWakeCancelled\<close> is the display-wake state read before the cancellation, which is
  what \<open>env\<close> holds.
\<close>

definition displayWakeCommit :: "kerAssertionType \<Rightarrow> bool \<Rightarrow> bool \<Rightarrow> pm \<Rightarrow> pm" where
  "displayWakeCommit t level activesForTheType s =
     checkSilentRunning t level (notifyAggChange (emit (SetDisplayPowerOn level)
       (displayWakeDisplay level (updateAggregates t activesForTheType (displayWakeNotify level s)))))"

definition displayWakeHandler :: "kerAssertionType \<Rightarrow> assertionOps \<Rightarrow> pm \<Rightarrow> pm" where
  "displayWakeHandler t op s =
     (if t \<noteq> kTicklessDisplayWakeType then s
      else
        let assertionLevel = getAssertionLevel s t;
            (activeExists, activesForTheType) = checkForActives s t True;
            commit = (\<lambda>level s'. if getRootDomainConnect (env s')
                                then displayWakeCommit t level activesForTheType s' else s')
        in case op of
             kAssertionOpRaise \<Rightarrow>
               (let s1 = setClamshellSleepState s in if \<not> activeExists then s1 else commit True s1)
           | kAssertionOpRelease \<Rightarrow>
               (let s1 = setClamshellSleepState s in if activeExists then s1 else commit False s1)
           | _ \<Rightarrow>
               if activeExists then
                 (if assertionLevel then checkSilentRunning t True s else commit True s)
               else (if \<not> assertionLevel then s else commit False s))"

fun run_handler :: "assertionHandler \<Rightarrow> kerAssertionType \<Rightarrow> assertionOps \<Rightarrow> pm \<Rightarrow> pm" where
  "run_handler modifySettings_h = modifySettings"
| "run_handler handleBatteryAssertions_h = handleBatteryAssertions"
| "run_handler setKernelAssertions_h = setKernelAssertions"
| "run_handler enableIdleHandler_h = enableIdleHandler"
| "run_handler displayWakeHandler_h = displayWakeHandler"

text \<open>\<open>if (assertType->handler) ( *assertType->handler)(assertType, op)\<close>\<close>

definition callHandler :: "kerAssertionType \<Rightarrow> assertionOps \<Rightarrow> pm \<Rightarrow> pm" where
  "callHandler t op s =
     (case handler (gAssertionTypes s t) of None \<Rightarrow> s | Some h \<Rightarrow> run_handler h t op s)"

section \<open>Handlers leave the abstract table alone\<close>

lemma core_setAggregateLevel [core_simps]: "core (setAggregateLevel t v s) = core s"
  by (simp add: setAggregateLevel_def core_simps)

lemma core_requests [core_simps]:
  "core (setClamshellSleepState s) = core s" "core (disableClamshellSleepState s) = core s"
  "core (sendActivityTickle s) = core s" "core (sendUserAssertionsToKernel b s) = core s"
  by (simp_all add: setClamshellSleepState_def disableClamshellSleepState_def
      sendActivityTickle_def sendUserAssertionsToKernel_def Let_def core_simps)

lemma core_resetGlobalTimer [core_simps]: "core (resetGlobalTimer t tmo s) = core s"
  by (simp add: resetGlobalTimer_def Let_def core_simps core_upd_type)

lemma core_updateAggregates [core_simps]: "core (updateAggregates t b s) = core s"
  by (simp add: updateAggregates_def Let_def core_simps)

lemma core_notify [core_simps]:
  "core (notifyAggChange s) = core s" "core (notifyAnyChange s) = core s"
  "core (notifyTimeoutChange s) = core s"
  by (simp_all add: notifyAggChange_def notifyAnyChange_def notifyTimeoutChange_def core_simps)

lemma core_modifySettings [core_simps]: "core (modifySettings t op s) = core s"
  unfolding modifySettings_def Let_def
  by (simp only: split_beta if_distrib [of core] core_simps option.case_distrib [of core]
      if_cancel split: option.split) (simp add: core_simps)

lemma core_handleBatteryAssertions [core_simps]: "core (handleBatteryAssertions t op s) = core s"
  by (simp add: handleBatteryAssertions_def Let_def core_simps)

lemma core_commitKernelBit [core_simps]: "core (commitKernelBit b v s) = core s"
  by (simp add: commitKernelBit_def Let_def core_simps)

lemma core_kernelOps [core_simps]:
  "core (kernelRaise t b v w s) = core s" "core (kernelRelease t b v s) = core s"
  "core (kernelEval t b v w s) = core s"
  by (simp_all add: kernelRaise_def kernelRelease_def kernelEval_def Let_def core_simps)

lemma core_setKernelAssertions [core_simps]: "core (setKernelAssertions t op s) = core s"
  unfolding setKernelAssertions_def Let_def
  by (simp add: split_beta if_distrib [of core] core_simps split: option.split assertionOps.split)

lemma core_displayWakeParts [core_simps]:
  "core (checkSilentRunning t b s) = core s" "core (displayWakeDisplay b s) = core s"
  "core (displayWakeNotify b s) = core s"
  by (simp_all add: checkSilentRunning_def displayWakeDisplay_def displayWakeNotify_def Let_def
      core_simps)

lemma core_displayWakeCommit [core_simps]: "core (displayWakeCommit t b v s) = core s"
  by (simp add: displayWakeCommit_def core_simps)

lemma core_displayWakeHandler [core_simps]: "core (displayWakeHandler t op s) = core s"
  by (simp add: displayWakeHandler_def Let_def split_beta core_simps split: assertionOps.split)

lemma core_run_handler [core_simps]: "core (run_handler h t op s) = core s"
  by (cases h) (simp_all add: core_simps enableIdleHandler_def)

lemma core_callHandler [core_simps]: "core (callHandler t op s) = core s"
  by (simp add: callHandler_def core_simps split: option.split)

end
