(* ===== verification/AssertionFrames.thy ===== *)
theory AssertionFrames
  imports AssertionHandlers
begin

unbundle bit_operations_syntax

text \<open>
  Frames over the abstract assertion table.  \<open>keeps X P c c'\<close>: from \<open>c\<close> to \<open>c'\<close> nothing but
  assertions owned by processes of \<open>P\<close> has changed or moved, only assertions of \<open>X\<close> may have
  been freed, and a new assertion is owned by a process of \<open>P\<close>.
\<close>

definition owner :: "core \<Rightarrow> nat \<Rightarrow> pid option" where
  "owner c j = map_option c_pinfo (c_asn c j)"

definition where_is :: "nat \<Rightarrow> lists \<Rightarrow> bool list" where
  "where_is j l = [j \<in> set (activeTimed l), j \<in> set (active l), j \<in> set (inactive l),
     j \<in> set (suspended l)]"

definition keeps :: "nat set \<Rightarrow> pid set \<Rightarrow> core \<Rightarrow> core \<Rightarrow> bool" where
  "keeps X P c c' \<longleftrightarrow>
     c_dict c' = c_dict c \<and> c_env c' = c_env c \<and>
     c_conf c' = c_conf c \<and> c_effects c' = c_effects c \<and>
     (\<forall>j. owner c' j = owner c j \<or>
        (j \<in> X \<or> owner c j = None) \<and> (\<forall>p. owner c' j = Some p \<longrightarrow> p \<in> P)) \<and>
     (\<forall>j a. c_asn c j = Some a \<longrightarrow> c_pinfo a \<notin> P \<longrightarrow> c_asn c' j = Some a \<and>
        (\<forall>t. where_is j (c_lists c' t) = where_is j (c_lists c t)))"

lemma keepsD:
  assumes "keeps X P c c'"
  shows "c_dict c' = c_dict c" "c_env c' = c_env c"
    "owner c' j = owner c j \<or> (j \<in> X \<or> owner c j = None) \<and> (\<forall>p. owner c' j = Some p \<longrightarrow> p \<in> P)"
    "c_asn c j = Some a \<Longrightarrow> c_pinfo a \<notin> P \<Longrightarrow> c_asn c' j = Some a"
    "c_asn c j = Some a \<Longrightarrow> c_pinfo a \<notin> P \<Longrightarrow> where_is j (c_lists c' t) = where_is j (c_lists c t)"
    "c_conf c' = c_conf c" "c_effects c' = c_effects c"
  using assms unfolding keeps_def by metis+

lemma keeps_refl [simp]: "keeps X P c c"
  by (simp add: keeps_def)

lemma keeps_mono: "keeps X P c c' \<Longrightarrow> X \<subseteq> Y \<Longrightarrow> P \<subseteq> Q \<Longrightarrow> keeps Y Q c c'"
  unfolding keeps_def by (meson subsetD)

lemma keeps_trans:
  assumes 1: "keeps X P c c'" and 2: "keeps X P c' c''"
  shows "keeps X P c c''"
  unfolding keeps_def
proof (intro conjI allI impI)
  show "c_dict c'' = c_dict c" "c_env c'' = c_env c" "c_conf c'' = c_conf c" "c_effects c'' = c_effects c"
    using keepsD(1,2,6,7) [OF 1] keepsD(1,2,6,7) [OF 2] by simp_all
next
  fix j
  show "owner c'' j = owner c j \<or>
        (j \<in> X \<or> owner c j = None) \<and> (\<forall>p. owner c'' j = Some p \<longrightarrow> p \<in> P)"
    using keepsD(3) [OF 1, of j] keepsD(3) [OF 2, of j] by auto
next
  fix j a t
  assume a: "c_asn c j = Some a" "c_pinfo a \<notin> P"
  then have a': "c_asn c' j = Some a" by (rule keepsD(4) [OF 1])
  show "c_asn c'' j = Some a" using keepsD(4) [OF 2 a' a(2)] .
  show "where_is j (c_lists c'' t) = where_is j (c_lists c t)"
    using keepsD(5) [OF 2 a' a(2)] keepsD(5) [OF 1 a] by simp
qed

text \<open>The abstract operations on an assertion whose owner is in \<open>P\<close>.\<close>

lemma owner_sel [simp]:
  "(\<And>a. c_pinfo (f a) = c_pinfo a) \<Longrightarrow> owner (c_upd i f c) = owner c"
  "owner (c_unlink i c) = owner c" "owner (c_lists_upd t g c) = owner c"
  "owner (c_free i c) = (owner c)(i := None)"
  by (auto simp: owner_def fun_eq_iff option.map_comp comp_def)

lemma owner_Some: "owner c i = Some p \<Longrightarrow> c_asn c i = Some a \<Longrightarrow> c_pinfo a = p"
  by (simp add: owner_def)

lemma where_is_remove [simp]:
  "j \<noteq> i \<Longrightarrow> where_is j (remove_from_lists i l) = where_is j l"
  by (simp add: where_is_def)

lemma keeps_upd:
  assumes "owner c i = Some p" "p \<in> P" "\<And>a. c_pinfo (f a) = c_pinfo a"
  shows "keeps X P c (c_upd i f c)"
  using assms by (auto simp: keeps_def owner_def option.map_comp comp_def)

lemma keeps_unlink:
  assumes "owner c i = Some p" "p \<in> P"
  shows "keeps X P c (c_unlink i c)"
  using assms by (auto simp: keeps_def owner_def where_is_def)

lemma keeps_lists_upd:
  assumes "owner c i = Some p" "p \<in> P"
    and "\<And>j l. j \<noteq> i \<Longrightarrow> where_is j (g l) = where_is j l"
  shows "keeps X P c (c_lists_upd t g c)"
proof -
  have "j \<noteq> i" if "c_asn c j = Some a" "c_pinfo a \<notin> P" for j a
    using that assms(1,2) by (auto simp: owner_def)
  then show ?thesis using assms(3) by (auto simp: keeps_def)
qed

lemma keeps_free:
  assumes "owner c i = Some p" "p \<in> P" "i \<in> X"
  shows "keeps X P c (c_free i c)"
  using assms by (auto simp: keeps_def owner_def)

lemma keeps_insert:
  assumes "owner c i = Some p" "p \<in> P"
  shows "keeps X P c (c_insert_inactive i t c)" "keeps X P c (c_insert_active i t c)"
    "keeps X P c (c_insert_timed i t c)" "keeps X P c (c_push_suspended i t c)"
  using assms unfolding c_insert_inactive_def c_insert_active_def c_insert_timed_def
    c_push_suspended_def
  by (auto simp: where_is_def intro!: keeps_lists_upd [of c i p P]
      keeps_trans [OF keeps_lists_upd [of c i p P] keeps_upd [of _ i p P]])

lemma owner_insert [simp]:
  "owner (c_insert_inactive i t c) = owner c" "owner (c_insert_active i t c) = owner c"
  "owner (c_insert_timed i t c) = owner c" "owner (c_push_suspended i t c) = owner c"
  by (simp_all add: c_insert_inactive_def c_insert_active_def c_insert_timed_def
      c_push_suspended_def)

section \<open>Allocation\<close>

definition c_enter :: "nat \<Rightarrow> acore \<Rightarrow> core \<Rightarrow> core" where
  "c_enter i a c = c\<lparr>c_asn := (c_asn c)(i \<mapsto> a), c_next := (i + 1) mod kMaxAssertions\<rparr>"

lemma c_enter_sel [simp]:
  "c_asn (c_enter i a c) = (c_asn c)(i \<mapsto> a)" "c_lists (c_enter i a c) = c_lists c"
  "c_dict (c_enter i a c) = c_dict c" "c_env (c_enter i a c) = c_env c"
  "c_next (c_enter i a c) = (i + 1) mod kMaxAssertions" "c_conf (c_enter i a c) = c_conf c"
  "c_effects (c_enter i a c) = c_effects c"
  by (simp_all add: c_enter_def)

lemma wf_enter:
  assumes wf: "wf F c" and free: "c_asn c i = None" and i: "i < kMaxAssertions"
    and n: "c_id a = ID_FROM_INDEX i"
  shows "wf (insert i F) (c_enter i a c)"
proof -
  note nl = wf_free_unlinked [OF wf free]
  have nl': "i \<notin> set (activeTimed (c_lists c t))" "i \<notin> set (active (c_lists c t))"
    "i \<notin> set (inactive (c_lists c t))" "i \<notin> set (suspended (c_lists c t))" for t
    using nl [of t] by auto
  have tm: "map (ctimeout (c_enter i a c)) xs = map (ctimeout c) xs" if "i \<notin> set xs" for xs
    using that by (auto simp: ctimeout_def)
  have "wf_links (insert i F) (c_enter i a c)"
    using wfD(1) [OF wf] nl' unfolding wf_links_def by auto
  moreover have "wf_bits (c_enter i a c)"
    using wfD(2) [OF wf] nl' unfolding wf_bits_def cbits_def by auto
  moreover have "wf_sorted (c_enter i a c)"
    using wfD(3) [OF wf] nl' by (simp add: wf_sorted_def tm)
  moreover have "wf_ids (c_enter i a c)"
    using wfD(4) [OF wf] i n by (simp add: wf_ids_def kMaxAssertions_def)
  moreover have "wf_types (insert i F) (c_enter i a c)"
    using wfD(5) [OF wf] by (simp add: wf_types_def well_typed_def)
  ultimately show ?thesis by (simp add: wf_def)
qed

lemma keeps_enter:
  "c_asn c i = None \<Longrightarrow> c_pinfo a \<in> P \<Longrightarrow> keeps X P c (c_enter i a c)"
  by (auto simp: keeps_def owner_def)

lemma owner_enter [simp]: "owner (c_enter i a c) = (owner c)(i \<mapsto> c_pinfo a)"
  by (auto simp: owner_def fun_eq_iff)

section \<open>Replacing the fields of a linked assertion while it is unlinked\<close>

lemma c_upd_const: "c_asn c i = Some a \<Longrightarrow> c_upd i f c = c_upd i (\<lambda>_. f a) c"
  by (rule core_eqI) (auto simp: fun_eq_iff)

lemma wf_unlink_replace:
  assumes "wf F c" and "c_asn c i = Some a" and "c_kassert a' = c_kassert a" and "c_id a' = c_id a"
  shows "wf (insert i F) (c_upd i (\<lambda>_. a') (c_unlink i c))"
proof -
  let ?f = "\<lambda>x. if x = a then a' else x"
  have "wf (insert i F) (c_upd i ?f (c_unlink i c))"
    using assms by (intro wf_unlink_upd) (auto simp: keeps_identity_def)
  also have "c_upd i ?f (c_unlink i c) = c_upd i (\<lambda>_. a') (c_unlink i c)"
    using assms(2) by (subst c_upd_const) auto
  finally show ?thesis .
qed

lemma c_upd_upd [simp]: "c_upd i f (c_upd i g c) = c_upd i (\<lambda>a. f (g a)) c"
  by (rule core_eqI) (auto simp: fun_eq_iff option.map_comp comp_def)

lemma c_unlink_unlink [simp]: "c_unlink i (c_unlink i c) = c_unlink i c"
  by (rule core_eqI) (auto simp: fun_eq_iff remove_from_lists_def removeAll_id)

text \<open>A well-formed table without floating assertions has every assertion linked.\<close>

lemma wf_all_linked:
  assumes "wf {} c" and "owner c i = Some p"
  shows "\<exists>t. i \<in> set (linked (c_lists c t))"
proof -
  obtain a where "c_asn c i = Some a" using assms(2) by (auto simp: owner_def)
  then show ?thesis using wf_linked_iff [OF assms(1), of i a "c_kassert a"] by blast
qed

lemma wf_mono_floating: "wf F c \<Longrightarrow> i \<in> F \<Longrightarrow> insert i F = F"
  by (rule insert_absorb)

end
