(* ===== verification/AssertionRaise.thy ===== *)
theory AssertionRaise
  imports AssertionFrames
begin

unbundle bit_operations_syntax

text \<open>
  Raising and creating assertions (PMAssertions.c): \<open>raiseAssertion\<close>, \<open>doCreate\<close>, the
  system assertion timer they may start, and the release of an assertion's memory.
\<close>

section \<open>The system assertion timer\<close>

definition shouldStartSystemAssertionTimer :: "pm \<Rightarrow> bool" where
  "shouldStartSystemAssertionTimer s =
     (if \<not> gSystemAssertionTimeoutEnabled s then False
      else getPowerSource (env s) = kBatteryPowered \<and> getUserActivePostedLevels (env s) = 0)"

definition startSystemAssertionTimer :: "u64 \<Rightarrow> pm \<Rightarrow> pm" where
  "startSystemAssertionTimer timeoutSecs s =
     (if \<not> gSystemAssertionTimeoutEnabled s then s
      else if \<not> shouldStartSystemAssertionTimer s then s
      else
        let secs = (if timeoutSecs = 0 then kPMSystemAssertionTimeoutValue s else timeoutSecs)
        in (emit (ArmSystemAssertionTimer secs) s)
             \<lparr>gSystemAssertionTimer := True, gSystemAssertionTimerActive := True\<rparr>)"

definition cancelSystemAssertionTimer :: "pm \<Rightarrow> pm" where
  "cancelSystemAssertionTimer s =
     (if \<not> gSystemAssertionTimeoutEnabled s then s
      else if gSystemAssertionTimer s
      then dispatch_async SystemAssertionTimerCancelHandlerTask (emit CancelSystemAssertionTimer s)
      else s)"

section \<open>Raising an assertion\<close>

definition getAssertionTypeIndex :: "pm \<Rightarrow> cf option \<Rightarrow> kerAssertionType option" where
  "getAssertionTypeIndex s v =
     (case v of Some (CFString (TypeName n)) \<Rightarrow> gUserAssertionTypesDict s n | _ \<Rightarrow> None)"

definition MAKE_UNIQAID :: "u64 \<Rightarrow> nat \<Rightarrow> u32 \<Rightarrow> u64" where
  "MAKE_UNIQAID tm ty ix =
     push_bit 32 (tm AND 0xffffffff) OR push_bit 16 (of_nat ty AND 0xffff) OR (ucast ix AND 0xffff)"

text \<open>
  The unique identifier: an asynchronous assertion carries its own (the call fails without
  it; reading the number of a value that is none, which CoreFoundation leaves open, is an
  event of the trace), any other gets one made from the time, the type and the identifier.
\<close>

definition raiseUniqueId :: "nat \<Rightarrow> kerAssertionType \<Rightarrow> pm \<Rightarrow> pm option" where
  "raiseUniqueId i t s =
     (let a = asn s i in
      if props a kIOPMAsyncClientAssertionIdKey \<noteq> None then
        (case props a kIOPMAssertionGlobalUniqueIDKey of
           None \<Rightarrow> None
         | Some (CFNumber r) \<Rightarrow>
             Some (upd_proc (pinfo a) (\<lambda>P. P\<lparr>activeAsyncAssertion := of_int (trunc r)\<rparr>) s)
         | Some _ \<Rightarrow> Some (emit (CFNumberGetValueOfOther i) s))
      else
        Some (upd_asn i (prop_set kIOPMAssertionGlobalUniqueIDKey
          (CFNumber (of_int (sint (MAKE_UNIQAID (currTime s) (kidx t) (assertionId a)))))) s))"

definition raiseIdentity :: "nat \<Rightarrow> pm \<Rightarrow> pm" where
  "raiseIdentity i s =
     (let a = asn s i;
          s1 = upd_asn i (prop_set kIOPMAssertionIdKey (CFNumber (of_int (sint (assertionId a))))) s;
          s2 = (case pname (proc s1 (pinfo a)) of
                  Some nm \<Rightarrow> upd_asn i (prop_set kIOPMAssertionProcessNameKey (CFString (Str nm))) s1
                | None \<Rightarrow> s1)
      in upd_asn i (prop_set kIOPMAssertionPIDKey (CFNumber (of_int (procpid (proc s2 (pinfo a)))))) s2)"

definition raiseCreateTime :: "nat \<Rightarrow> pm \<Rightarrow> pm" where
  "raiseCreateTime i s =
     (let ct = (case props (asn s i) kIOPMAssertionCreateDateKey of
                  Some (CFDate d) \<Rightarrow>
                    (let delta = CFAbsoluteTimeGetCurrent (env s) - d in
                     if delta > 0 then currTime s - to_u64 delta else 0)
                | _ \<Rightarrow> 0)
      in if ct = 0 then
           upd_asn i (\<lambda>a. prop_set kIOPMAssertionCreateDateKey
               (CFDate (CFAbsoluteTimeGetCurrent (env s))) (a\<lparr>createTime := currTime s\<rparr>)) s
         else upd_asn i (\<lambda>a. a\<lparr>createTime := ct\<rparr>) s)"

text \<open>The state bits and the causing process the properties ask for.\<close>

definition raiseBits :: "typeFlag set \<Rightarrow> assertion \<Rightarrow> assertion" where
  "raiseBits fl a =
     (let p = props a;
          a1 = (if kAssertionTypeNotValidOnBatt \<in> fl \<and>
                   p kIOPMAssertionAppliesToLimitedPowerKey = Some (CFBoolean True)
                then state_set kAssertionStateValidOnBatt a else a);
          a2 = (if kassert a = kTicklessDisplayWakeType \<and>
                   p kIOPMAssertionExitSilentRunning = Some (CFBoolean True)
                then state_set kAssertionExitSilentRunningMode a1 else a1);
          a3 = (case p kIOPMAssertionOnBehalfOfPID of
                  Some (CFNumber r) \<Rightarrow> a2\<lparr>causingPid := trunc r\<rparr> | _ \<Rightarrow> a2);
          a4 = (if p kIOPMAssertionAppliesOnLidClose = Some (CFBoolean True)
                then state_set kAssertionLidStateModifier a3 else a3)
      in if p kIOPMAssertionProcessingHotPlug = Some (CFBoolean True)
         then state_set kAssertionLidStateModifier a4 else a4)"

text \<open>The timeout in seconds: the property, capped for automatically timed types.\<close>

definition raiseTimeout :: "assertionType \<Rightarrow> assertion \<Rightarrow> rat" where
  "raiseTimeout T a =
     (let tmo = (case props a kIOPMAssertionTimeoutKey of Some (CFNumber r) \<Rightarrow> r | _ \<Rightarrow> 0) in
      if kAssertionTypeAutoTimed \<in> flags T \<and> (tmo = 0 \<or> tmo > u64_rat (autoTimeout T))
      then u64_rat (autoTimeout T) else tmo)"

definition raiseSystemTimer :: "nat \<Rightarrow> pm \<Rightarrow> pm" where
  "raiseSystemTimer i s =
     (case gSystemAssertionTimeoutList s of
        None \<Rightarrow> s
      | Some lst \<Rightarrow>
          if \<not> gSystemAssertionTimerActive s \<and>
             \<not> (case pname (proc s (pinfo (asn s i))) of Some nm \<Rightarrow> lst nm \<noteq> None | None \<Rightarrow> False)
          then startSystemAssertionTimer 0 s else s)"

text \<open>From the battery check on: link the assertion and run the handler.\<close>

definition raiseActive :: "nat \<Rightarrow> kerAssertionType \<Rightarrow> pm \<Rightarrow> pm" where
  "raiseActive i t s =
     (let s1 = upd_asn i (raiseBits (flags (gAssertionTypes s t))) s;
          tmo = raiseTimeout (gAssertionTypes s t) (asn s1 i);
          s2 = (if tmo \<noteq> 0 then
                  insertTimedAssertion i t True True
                    (upd_asn i (\<lambda>a. a\<lparr>timeout := to_u64 tmo + createTime a\<rparr>) s1)
                else insertActiveAssertion i t True s1);
          s3 = callHandler t kAssertionOpRaise s2
      in emit (Mt2RecordAssertionEvent kAssertionOpRaise i) (raiseSystemTimer i s3))"

definition raiseLinked :: "nat \<Rightarrow> kerAssertionType \<Rightarrow> pm \<Rightarrow> pm" where
  "raiseLinked i t s =
     (case props (asn s i) kIOPMAssertionLevelKey of
        Some (CFNumber r) \<Rightarrow>
          if trunc r = kIOPMAssertionLevelOff then insertInactiveAssertion i t s
          else raiseActive i t s
      | _ \<Rightarrow> raiseActive i t
               (upd_asn i (prop_set kIOPMAssertionLevelKey (CFNumber (of_int kIOPMAssertionLevelOn))) s))"

definition raiseAssertion :: "nat \<Rightarrow> pm \<Rightarrow> IOReturn \<times> pm" where
  "raiseAssertion i s =
     (case getAssertionTypeIndex s (props (asn s i) kIOPMAssertionTypeKey) of
        None \<Rightarrow> (kIOReturnBadArgument, s)
      | Some t \<Rightarrow>
          let s1 = upd_asn i (\<lambda>a. a\<lparr>kassert := t\<rparr>) s in
          (case raiseUniqueId i t s1 of
             None \<Rightarrow> (kIOReturnBadArgument, s1)
           | Some s2 \<Rightarrow>
               (kIOReturnSuccess, raiseLinked i t (raiseCreateTime i (raiseIdentity i s2)))))"

section \<open>Creating an assertion\<close>

text \<open>
  The search for a free index: \<open>fuel\<close> bounds the turns of the loop, which stops by itself
  when it is back at the index it started from.
\<close>

fun idLoop :: "nat \<Rightarrow> pm \<Rightarrow> nat \<Rightarrow> nat" where
  "idLoop 0 s i = i"
| "idLoop (Suc fuel) s i =
     (if gAssertionsArray s i = None then i
      else let j = (i + 1) mod kMaxAssertions in
           if j = gNextAssertionIdx s then j else idLoop fuel s j)"

definition findIndex :: "pm \<Rightarrow> nat" where
  "findIndex s = idLoop kMaxAssertions s (gNextAssertionIdx s)"

definition kIOPMNullAssertionID :: u32 where
  "kIOPMNullAssertionID = 0"

text \<open>
  The structure \<open>doCreate\<close> fills and enters in \<open>gAssertionsArray\<close>.  \<open>causingPid\<close> is still
  0 here, so the block that would retain the causing process is never entered.
\<close>

definition newAssertion :: "pid \<Rightarrow> props_t \<Rightarrow> nat \<Rightarrow> assertion" where
  "newAssertion p np i =
     calloc_assertion\<lparr>props := np, retainCnt := 1, pinfo := p,
       runningboard := (np kPMAssertionIsRunningboardd \<noteq> None),
       assertionId := ID_FROM_INDEX i\<rparr>"

definition enterAssertion :: "pid \<Rightarrow> props_t \<Rightarrow> nat \<Rightarrow> pm \<Rightarrow> pm" where
  "enterAssertion p np i s =
     s\<lparr>gAssertionsArray := (gAssertionsArray s)(i \<mapsto> newAssertion p np i),
       gNextAssertionIdx := (i + 1) mod kMaxAssertions\<rparr>"

text \<open>The \<open>ProcessInfo\<close> of the creator: retained, or created (then also returned to the caller).\<close>

definition creatorInfo :: "pid \<Rightarrow> pm \<Rightarrow> bool \<times> pid option \<times> pm" where
  "creatorInfo p s =
     (case processInfoGet s p of
        Some _ \<Rightarrow> (True, None, processInfoRetain p s)
      | None \<Rightarrow>
          (case processInfoCreate p s of
             (None, s1) \<Rightarrow> (False, None, s1)
           | (Some q, s1) \<Rightarrow>
               if proc_exited (proc s1 q) then (False, None, s1) else (True, Some q, s1)))"

text \<open>The result: return code, identifier, and \<open>*procInfo\<close>.\<close>

definition doCreate :: "pid \<Rightarrow> props_t \<Rightarrow> pm \<Rightarrow> (IOReturn \<times> u32 \<times> pid option) \<times> pm" where
  "doCreate p np s =
     (case creatorInfo p s of
        (False, _, s1) \<Rightarrow> ((kIOReturnNoMemory, kIOPMNullAssertionID, None), s1)
      | (True, pr, s1) \<Rightarrow>
          if isSuspended (proc s1 p) then ((kIOReturnInternalError, kIOPMNullAssertionID, pr), s1)
          else
            let i = findIndex s1 in
            if gAssertionsArray s1 i \<noteq> None \<or> \<not> calloc_ok (env s1) then
              ((kIOReturnNoMemory, kIOPMNullAssertionID, pr), processInfoRelease p s1)
            else
              (case raiseAssertion i (enterAssertion p np i s1) of
                 (kIOReturnSuccess, s2) \<Rightarrow>
                   let a = asn s2 i;
                       s3 = (if kAssertionStateInactive \<notin> state a then
                               emit (LogAssertionEvent
                                 (if props a kIOPMAsyncClientAssertionIdKey \<noteq> None
                                  then kASessionStartLog else kACreateLog) i) s2
                             else s2)
                   in ((kIOReturnSuccess, assertionId a, pr), notifyAnyChange s3)
               | (e, s2) \<Rightarrow>
                   let s3 = processInfoRelease p s2
                   in ((e, kIOPMNullAssertionID, pr),
                       s3\<lparr>gAssertionsArray := (gAssertionsArray s3)(i := None)\<rparr>)))"

section \<open>Releasing the memory of an assertion\<close>

definition releaseAssertionMemory :: "nat \<Rightarrow> assertLogAction \<Rightarrow> pm \<Rightarrow> pm" where
  "releaseAssertionMemory i logAction s =
     (let a = asn s i; idx = INDEX_FROM_ID (assertionId a) in
      if idx \<ge> kMaxAssertions \<or> gAssertionsArray s idx = None \<or> idx \<noteq> i then s
      else
        let s1 = emit (LogAssertionEvent
                   (if props a kIOPMAsyncClientAssertionIdKey \<noteq> None then kASessionEndLog
                    else logAction) i)
                   (upd_asn i (\<lambda>a. a\<lparr>retainCnt := 0\<rparr>) s);
            s2 = s1\<lparr>gAssertionsArray := (gAssertionsArray s1)(i := None)\<rparr>;
            s3 = processInfoRelease (pinfo a) s2;
            s4 = (case causingPinfo a of Some q \<Rightarrow> processInfoRelease q s3 | None \<Rightarrow> s3)
        in if procTimer a then emit (CancelProcTimer i) s4 else s4)"

section \<open>Raising and the abstract table\<close>

lemma core_systemTimer [core_simps]:
  "core (startSystemAssertionTimer n s) = core s" "core (cancelSystemAssertionTimer s) = core s"
  "core (raiseSystemTimer i s) = core s"
  by (simp_all add: startSystemAssertionTimer_def cancelSystemAssertionTimer_def
      raiseSystemTimer_def Let_def core_simps split: option.split)

lemma core_raiseUniqueId:
  assumes "raiseUniqueId i t s = Some s'"
  shows "core s' = c_upd i (\<lambda>a. a\<lparr>c_uid := True\<rparr>) (core s)"
proof (cases "props (asn s i) kIOPMAsyncClientAssertionIdKey = None")
  case True
  then have s': "s' = upd_asn i (prop_set kIOPMAssertionGlobalUniqueIDKey
      (CFNumber (of_int (sint (MAKE_UNIQAID (currTime s) (kidx t) (assertionId (asn s i))))))) s"
    using assms by (simp add: raiseUniqueId_def Let_def)
  show ?thesis unfolding s' by (rule core_upd_asn) (simp add: acore_def type_of_props_def)
next
  case False
  then have uid: "props (asn s i) kIOPMAssertionGlobalUniqueIDKey \<noteq> None"
    and same: "core s' = core s"
    using assms by (auto simp: raiseUniqueId_def Let_def core_simps split: option.splits cf.splits)
  show ?thesis unfolding same using uid
    by (intro core_eqI) (auto simp: fun_eq_iff map_option_case acore_def asn_def split: option.splits)
qed

lemma core_raiseIdentity [core_simps]: "core (raiseIdentity i s) = core s"
  by (simp add: raiseIdentity_def Let_def core_simps core_upd_asn_same split: option.split)

lemma core_raiseCreateTime [core_simps]: "core (raiseCreateTime i s) = core s"
proof -
  have "core (upd_asn i (\<lambda>a. prop_set kIOPMAssertionCreateDateKey v (a\<lparr>createTime := w\<rparr>)) s) = core s"
    "core (upd_asn i (\<lambda>a. a\<lparr>createTime := w\<rparr>) s) = core s" for v w
    by (rule core_upd_asn_same; simp add: acore_def type_of_props_def)+
  then show ?thesis by (simp add: raiseCreateTime_def Let_def)
qed

lemma acore_raiseBits [core_simps]: "acore (raiseBits fl a) = acore a"
  by (simp add: raiseBits_def Let_def acore_def split: option.split cf.split)

lemma core_raiseActive:
  "\<exists>tmo. core (raiseActive i t s) = c_insert_timed i t (c_upd i (\<lambda>a. a\<lparr>c_timeout := tmo\<rparr>) (core s)) \<or>
     core (raiseActive i t s) = c_insert_active i t (core s)"
proof -
  let ?s1 = "upd_asn i (raiseBits (flags (gAssertionTypes s t))) s"
  let ?t = "raiseTimeout (gAssertionTypes s t) (asn ?s1 i)"
  have s1: "core ?s1 = core s" by (rule core_upd_asn_same) (rule core_simps)
  have tm: "core (upd_asn i (\<lambda>a. a\<lparr>timeout := to_u64 ?t + createTime a\<rparr>) ?s1)
      = c_upd i (\<lambda>a. a\<lparr>c_timeout := to_u64 ?t + createTime (asn ?s1 i)\<rparr>) (core ?s1)"
    by (rule core_eqI)
      (auto simp: upd_asn_def core_def fun_eq_iff asn_def acore_def map_option_case
        split: option.splits)
  show ?thesis
    by (cases "?t = 0") (auto simp: raiseActive_def Let_def core_simps s1 tm)
qed

lemma core_raiseLinked:
  "\<exists>tmo. core (raiseLinked i t s) = c_insert_timed i t (c_upd i (\<lambda>a. a\<lparr>c_timeout := tmo\<rparr>) (core s)) \<or>
     core (raiseLinked i t s) = c_insert_active i t (core s) \<or>
     core (raiseLinked i t s) = c_insert_inactive i t (core s)"
proof -
  have l: "core (upd_asn i (prop_set kIOPMAssertionLevelKey v) s) = core s" for v
    by (rule core_upd_asn_same) (simp add: core_simps)
  show ?thesis
    using core_raiseActive [of i t s]
      core_raiseActive [of i t "upd_asn i (prop_set kIOPMAssertionLevelKey
        (CFNumber (of_int kIOPMAssertionLevelOn))) s"]
    unfolding l by (auto simp: raiseLinked_def core_simps split: option.split cf.split)
qed

lemma c_asn_upd_Some: "c_asn c i = Some a \<Longrightarrow> c_asn (c_upd i f c) i = Some (f a)"
  by simp

lemma well_typed_upd [simp]: "well_typed (c_upd i f c) a = well_typed c a"
  by (simp add: well_typed_def)

lemma wf_raiseLinked:
  assumes wf: "wf F (core s)" and i: "i \<in> F" and a: "c_asn (core s) i = Some a"
    and t: "c_kassert a = t" and typed: "well_typed (core s) a" and act: "\<not> c_inactive a"
  shows "wf (F - {i}) (core (raiseLinked i t s)) \<and>
    keeps {} {c_pinfo a} (core s) (core (raiseLinked i t s))"
proof -
  let ?u = "\<lambda>tmo. c_upd i (\<lambda>a. a\<lparr>c_timeout := tmo\<rparr>) (core s)"
  have o: "owner (core s) i = Some (c_pinfo a)" using a by (simp add: owner_def del: core_sel)
  have u: "wf F (?u tmo)" "keeps {} {c_pinfo a} (core s) (?u tmo)" for tmo
    by (rule wf_upd_floating [OF wf i], simp) (rule keeps_upd [OF o], simp_all)
  have ut: "wf (F - {i}) (c_insert_timed i t (?u tmo))" for tmo
    by (rule wf_insert_timed [OF u(1) i c_asn_upd_Some [OF a]])
      (use t typed act in \<open>simp_all add: well_typed_def\<close>)
  have k: "keeps {} {c_pinfo a} (core s) (c_insert_timed i t (?u tmo))" for tmo
    by (rule keeps_trans [OF u(2)], rule keeps_insert) (simp_all add: o)
  consider tmo where "core (raiseLinked i t s) = c_insert_timed i t (?u tmo)"
    | "core (raiseLinked i t s) = c_insert_active i t (core s)"
    | "core (raiseLinked i t s) = c_insert_inactive i t (core s)"
    using core_raiseLinked [of i t s] by blast
  then show ?thesis
  proof cases
    case 1
    then show ?thesis using ut k by simp
  next
    case 2
    then show ?thesis
      using wf_insert_active [OF wf i a t typed] keeps_insert(2) [OF o, of "{c_pinfo a}"] by simp
  next
    case 3
    then show ?thesis
      using wf_insert_inactive [OF wf i a t typed] keeps_insert(1) [OF o, of "{c_pinfo a}"] by simp
  qed
qed

text \<open>
  \<open>raiseAssertion\<close> on an assertion that is on no list: on success it is linked, on failure it
  stays off the lists; nothing else moves.
\<close>

lemma wf_raiseAssertion:
  assumes wf: "wf F (core s)" and i: "i \<in> F" and a: "c_asn (core s) i = Some a"
    and act: "\<not> c_inactive a" and r: "raiseAssertion i s = (r, s')"
  shows "(if r = kIOReturnSuccess then wf (F - {i}) (core s')
          else r = kIOReturnBadArgument \<and> wf F (core s') \<and>
            (\<exists>a'. c_asn (core s') i = Some a' \<and> c_pinfo a' = c_pinfo a)) \<and>
    keeps {} {c_pinfo a} (core s) (core s')"
proof -
  have o: "owner (core s) i = Some (c_pinfo a)" using a by (simp add: owner_def del: core_sel)
  show ?thesis
  proof (cases "getAssertionTypeIndex s (props (asn s i) kIOPMAssertionTypeKey)")
    case None
    then show ?thesis using r wf a by (auto simp: raiseAssertion_def)
  next
    case (Some t)
    let ?s1 = "upd_asn i (\<lambda>a. a\<lparr>kassert := t\<rparr>) s"
    have s1: "core ?s1 = c_upd i (\<lambda>a. a\<lparr>c_kassert := t\<rparr>) (core s)"
      by (rule core_upd_asn) (simp add: acore_def)
    have wf1: "wf F (core ?s1)" and k1: "keeps {} {c_pinfo a} (core s) (core ?s1)"
      unfolding s1 by (rule wf_upd_floating [OF wf i], simp) (rule keeps_upd [OF o], simp_all)
    show ?thesis
    proof (cases "raiseUniqueId i t ?s1")
      case None
      then have "r = kIOReturnBadArgument" "s' = ?s1"
        using r Some by (simp_all add: raiseAssertion_def Let_def)
      moreover have "c_asn (core ?s1) i = Some (a\<lparr>c_kassert := t\<rparr>)" unfolding s1 by (rule c_asn_upd_Some [OF a])
      ultimately show ?thesis using wf1 k1 by auto
    next
      case (Some s2)
      let ?g = "\<lambda>a. a\<lparr>c_kassert := t, c_uid := True\<rparr>"
      have s2: "core s2 = c_upd i ?g (core s)"
        unfolding core_raiseUniqueId [OF Some] s1 by simp
      have wf2: "wf F (core s2)" and k2: "keeps {} {c_pinfo a} (core s) (core s2)"
        unfolding s2 by (rule wf_upd_floating [OF wf i], simp) (rule keeps_upd [OF o], simp_all)
      let ?s3 = "raiseCreateTime i (raiseIdentity i s2)"
      have s3: "core ?s3 = core s2" by (simp add: core_simps)
      have a3: "c_asn (core ?s3) i = Some (?g a)" unfolding s3 s2 by (rule c_asn_upd_Some [OF a])
      have res: "r = kIOReturnSuccess" "s' = raiseLinked i t ?s3"
        using r Some \<open>getAssertionTypeIndex _ _ = Some t\<close> by (simp_all add: raiseAssertion_def Let_def)
      have ty: "well_typed (core ?s3) (?g a)"
        using \<open>getAssertionTypeIndex _ _ = Some t\<close> a unfolding s3 s2
        by (auto simp: well_typed_def getAssertionTypeIndex_def asn_def acore_def type_of_props_def
            split: option.splits cf.splits cfstr.splits)
      have "wf (F - {i}) (core s') \<and> keeps {} {c_pinfo (?g a)} (core ?s3) (core s')"
        unfolding res(2)
        by (rule wf_raiseLinked [OF _ i a3 _ ty]) (use wf2 act in \<open>simp_all add: s3 del: core_sel\<close>)
      then show ?thesis using res(1) keeps_trans [OF k2] by (simp add: s3)
    qed
  qed
qed

section \<open>The search for a free index\<close>

lemma idLoop_less: "i < kMaxAssertions \<Longrightarrow> idLoop n s i < kMaxAssertions"
  by (induction n s i rule: idLoop.induct) (auto simp: Let_def kMaxAssertions_def)

lemma mod_ring_cover:
  assumes "j < (M::nat)" "g < M"
  shows "\<exists>k < M. (g + k) mod M = j"
proof (cases "g \<le> j")
  case True
  then show ?thesis using assms by (intro exI [of _ "j - g"]) auto
next
  case False
  then show ?thesis using assms by (intro exI [of _ "j + M - g"]) auto
qed

lemma idLoop_free:
  assumes "n + k = kMaxAssertions" and "gNextAssertionIdx s < kMaxAssertions"
    and "i = (gNextAssertionIdx s + k) mod kMaxAssertions"
    and "\<forall>k' < k. gAssertionsArray s ((gNextAssertionIdx s + k') mod kMaxAssertions) \<noteq> None"
    and "gAssertionsArray s (idLoop n s i) \<noteq> None" and "j < kMaxAssertions"
  shows "gAssertionsArray s j \<noteq> None"
  using assms
proof (induction n arbitrary: k i)
  case 0
  obtain k' where "k' < kMaxAssertions" "(gNextAssertionIdx s + k') mod kMaxAssertions = j"
    using mod_ring_cover [OF 0(6) 0(2)] by blast
  then show ?case using 0(1,4) by (metis add_0)
next
  case (Suc n)
  let ?g = "gNextAssertionIdx s"
  have occ: "gAssertionsArray s i \<noteq> None" using Suc.prems(5) by (auto split: if_splits)
  have all: "\<forall>k' < Suc k. gAssertionsArray s ((?g + k') mod kMaxAssertions) \<noteq> None"
    using Suc.prems(3,4) occ by (auto simp: less_Suc_eq)
  have next_i: "(i + 1) mod kMaxAssertions = (?g + Suc k) mod kMaxAssertions"
    using Suc.prems(3) by (simp add: mod_Suc_eq)
  show ?case
  proof (cases "(i + 1) mod kMaxAssertions = ?g")
    case True
    then have "(?g + Suc k) mod kMaxAssertions = ?g mod kMaxAssertions"
      using Suc.prems(2) next_i by simp
    then have "kMaxAssertions dvd Suc k" by (metis add_diff_cancel_left' mod_eq_dvd_iff_nat le_add1)
    then have "kMaxAssertions \<le> Suc k" by (rule dvd_imp_le) simp
    then have M: "Suc k = kMaxAssertions" using Suc.prems(1) by simp
    obtain k' where "k' < kMaxAssertions" "(?g + k') mod kMaxAssertions = j"
      using mod_ring_cover [OF Suc.prems(6,2)] by blast
    then show ?thesis using all M by metis
  next
    case False
    then have "gAssertionsArray s (idLoop n s ((i + 1) mod kMaxAssertions)) \<noteq> None"
      using Suc.prems(5) occ by (auto simp: Let_def)
    then show ?thesis
      using Suc.IH [of "Suc k" "(i + 1) mod kMaxAssertions"] Suc.prems(1,2,6) all next_i by simp
  qed
qed

text \<open>
  \<open>kMaxAssertions\<close> turns are enough: the search ends on a free index unless every index is
  taken.
\<close>

lemma findIndex_free:
  assumes "gNextAssertionIdx s < kMaxAssertions" and "j < kMaxAssertions"
    and "gAssertionsArray s j = None"
  shows "gAssertionsArray s (findIndex s) = None"
  using idLoop_free [of kMaxAssertions 0 s "gNextAssertionIdx s" j] assms
  unfolding findIndex_def by fastforce

lemma findIndex_less: "gNextAssertionIdx s < kMaxAssertions \<Longrightarrow> findIndex s < kMaxAssertions"
  unfolding findIndex_def by (rule idLoop_less)

section \<open>Creation and the abstract table\<close>

lemma core_enterAssertion:
  "core (enterAssertion p np i s) = c_enter i (acore (newAssertion p np i)) (core s)"
  by (rule core_eqI) (auto simp: enterAssertion_def core_def fun_eq_iff)

lemma core_creatorInfo: "creatorInfo p s = (ok, pr, s') \<Longrightarrow> core s' = core s"
  by (auto simp: creatorInfo_def core_simps split: option.splits prod.splits if_splits
      dest: core_processInfoCreate)

lemma core_free: "core (s\<lparr>gAssertionsArray := (gAssertionsArray s)(i := None)\<rparr>) = c_free i (core s)"
  by (rule core_eqI) (auto simp: core_def fun_eq_iff)

definition all_live :: "nat set \<Rightarrow> core \<Rightarrow> bool" where
  "all_live F c \<longleftrightarrow> (\<forall>j \<in> F. c_asn c j \<noteq> None)"

lemma newAssertion_acore:
  "c_id (acore (newAssertion p np i)) = ID_FROM_INDEX i"
  "c_pinfo (acore (newAssertion p np i)) = p" "\<not> c_inactive (acore (newAssertion p np i))"
  by (simp_all add: newAssertion_def acore_def calloc_assertion_def)

lemma owner_lookup:
  assumes "wf F (core s)" "owner (core s) i = Some p"
  shows "lookupAssertion s p (ID_FROM_INDEX i) = (kIOReturnSuccess, Some i)"
    and "c_id (the (c_asn (core s) i)) = ID_FROM_INDEX i"
proof -
  have i: "i < kMaxAssertions" "c_id (the (c_asn (core s) i)) = ID_FROM_INDEX i"
    using wfD(4) [OF assms(1)] assms(2) by (auto simp: wf_ids_def owner_def)
  show "lookupAssertion s p (ID_FROM_INDEX i) = (kIOReturnSuccess, Some i)"
    using i assms(2) by (auto simp: lookupAssertion_def owner_def acore_def split: option.splits)
  show "c_id (the (c_asn (core s) i)) = ID_FROM_INDEX i" by (rule i(2))
qed

definition createdAt :: "pid \<Rightarrow> u32 \<Rightarrow> pm \<Rightarrow> pm \<Rightarrow> nat \<Rightarrow> bool" where
  "createdAt p aid s s' i \<longleftrightarrow>
     i < kMaxAssertions \<and> gAssertionsArray s i = None \<and> aid = ID_FROM_INDEX i \<and>
     lookupAssertion s' p aid = (kIOReturnSuccess, Some i)"

lemma wf_doCreate:
  assumes wf: "wf F (core s)" and F: "all_live F (core s)"
    and r: "doCreate p np s = ((r, aid, pr), s')"
  shows "wf F (core s') \<and> keeps {} {p} (core s) (core s') \<and>
    (if r = kIOReturnSuccess then \<exists>i. createdAt p aid s s' i else aid = kIOPMNullAssertionID)"
proof -
  obtain ok pr1 s1 where c: "creatorInfo p s = (ok, pr1, s1)" by (cases "creatorInfo p s") auto
  have s1: "core s1 = core s" by (rule core_creatorInfo [OF c])
  let ?i = "findIndex s1"
  let ?a = "acore (newAssertion p np ?i)"
  have nx: "gNextAssertionIdx s1 < kMaxAssertions"
    using wfD(4) [OF wf] unfolding s1 [symmetric] by (simp add: wf_ids_def)
  show ?thesis
  proof (cases "ok \<and> \<not> isSuspended (proc s1 p) \<and> gAssertionsArray s1 ?i = None \<and> calloc_ok (env s1)")
    case False
    then have "core s' = core s \<and> r \<noteq> kIOReturnSuccess \<and> aid = kIOPMNullAssertionID"
      using r c s1 by (auto simp: doCreate_def Let_def core_simps split: bool.splits if_splits)
    then show ?thesis using wf by simp
  next
    case True
    let ?s2 = "enterAssertion p np ?i s1"
    have free: "c_asn (core s) ?i = None" using True by (simp add: s1 [symmetric])
    then have nF: "?i \<notin> F" using F by (auto simp: all_live_def simp del: core_sel)
    have s2: "core ?s2 = c_enter ?i ?a (core s)" by (simp add: core_enterAssertion s1)
    have wf2: "wf (insert ?i F) (core ?s2)"
      unfolding s2 by (rule wf_enter [OF wf free findIndex_less [OF nx]]) (simp add: newAssertion_acore)
    have k2: "keeps {} {p} (core s) (core ?s2)"
      unfolding s2 by (rule keeps_enter [OF free]) (simp add: newAssertion_acore)
    have a2: "c_asn (core ?s2) ?i = Some ?a" by (simp add: s2 del: core_sel)
    obtain r3 s3 where r3: "raiseAssertion ?i ?s2 = (r3, s3)" by (cases "raiseAssertion ?i ?s2")
    note raised = wf_raiseAssertion [OF wf2 insertI1 a2 newAssertion_acore(3) r3]
    have k3: "keeps {} {p} (core ?s2) (core s3)" using raised by (simp add: newAssertion_acore)
    note k = keeps_trans [OF k2 k3]
    have o2: "owner (core ?s2) ?i = Some p" by (simp add: s2 newAssertion_acore)
    have o3: "owner (core s3) ?i = Some p"
      using keepsD(3) [OF k3, of ?i] o2 by auto
    show ?thesis
    proof (cases "r3 = kIOReturnSuccess")
      case True
      then have wf3: "wf F (core s3)" using raised nF by simp
      have out: "r = kIOReturnSuccess" "aid = assertionId (asn s3 ?i)" "core s' = core s3"
        using r c True \<open>ok \<and> _\<close> r3 by (auto simp: doCreate_def Let_def core_simps)
      have id3: "assertionId (asn s3 ?i) = ID_FROM_INDEX ?i"
        using owner_lookup(2) [OF wf3 o3] o3 by (auto simp: owner_def asn_def acore_def)
      have "owner (core s') ?i = Some p" "wf F (core s')" using o3 wf3 out(3) by simp_all
      then have "createdAt p aid s s' ?i"
        using owner_lookup(1) [of F s' ?i p] out(2) id3 free findIndex_less [OF nx]
        by (simp add: createdAt_def)
      then show ?thesis using wf3 k out(1,3) by auto
    next
      case False
      then have b: "r3 = kIOReturnBadArgument" "wf (insert ?i F) (core s3)" using raised by auto
      have out: "r \<noteq> kIOReturnSuccess" "aid = kIOPMNullAssertionID"
        "core s' = c_free ?i (core s3)"
        using r c b(1) \<open>ok \<and> _\<close> r3 by (auto simp: doCreate_def Let_def core_free core_simps)
      have "wf F (core s')" using wf_free [OF b(2) insertI1] nF out(3) by simp
      moreover have "keeps {} {p} (core s) (core s')"
        using k free unfolding out(3) keeps_def by (auto simp: owner_def simp del: core_sel)
      ultimately show ?thesis using out by simp
    qed
  qed
qed

end
