(* ===== verification/AssertionSetProps.thy ===== *)
theory AssertionSetProps
  imports AssertionRaise
begin

unbundle bit_operations_syntax

declare core_sel [simp del]

text \<open>
  Changing the properties of an assertion (PMAssertions.c): \<open>forwardPropertiesToAssertion\<close>,
  \<open>doSetProperties\<close> and \<open>delayDisplayTurnOff\<close>, which call each other.  The locale
  \<open>display_delay\<close> is the contract of the display-off delay its callers rely on.
\<close>

section \<open>Forwarding a property\<close>

text \<open>
  One property applied to an assertion of a type with flags and automatic timeout \<open>T\<close> at
  monotonic time \<open>now\<close>; the second component is the type's \<open>validOnBattCount\<close>.  \<open>None\<close> is
  an early return, which leaves the property unset.
\<close>

definition forwardLevel :: "cf \<Rightarrow> assertion \<Rightarrow> assertion option" where
  "forwardLevel v a =
     (case v of
        CFNumber r \<Rightarrow>
          Some (if kAssertionStateInactive \<in> state a \<and> trunc r = kIOPMAssertionLevelOn then
                  a\<lparr>state := state a - {kAssertionStateInactive}, mods := insert kAssertionModLevel (mods a)\<rparr>
                else if kAssertionStateInactive \<notin> state a \<and> trunc r = kIOPMAssertionLevelOff then
                  a\<lparr>state := insert kAssertionStateInactive (state a), mods := insert kAssertionModLevel (mods a)\<rparr>
                else a)
      | _ \<Rightarrow> None)"

definition forwardTimeout :: "assertionType \<Rightarrow> u64 \<Rightarrow> cf \<Rightarrow> assertion \<Rightarrow> assertion option" where
  "forwardTimeout T now v a =
     (case v of
        CFNumber r \<Rightarrow>
          let tmo = (if kAssertionTypeAutoTimed \<in> flags T \<and> (r = 0 \<or> r > u64_rat (autoTimeout T))
                     then u64_rat (autoTimeout T) else r);
              a1 = a\<lparr>timeout := (if tmo \<noteq> 0 then to_u64 tmo + now else 0)\<rparr>
          in Some (if kAssertionStateInactive \<in> state a1 then
                     a1\<lparr>state := state a1 - {kAssertionStateInactive}, mods := insert kAssertionModLevel (mods a1)\<rparr>
                   else a1\<lparr>mods := insert kAssertionModTimer (mods a1)\<rparr>)
      | _ \<Rightarrow> None)"

definition forwardLimitedPower ::
    "assertionType \<Rightarrow> cf \<Rightarrow> assertion \<times> u32 \<Rightarrow> (assertion \<times> u32) option" where
  "forwardLimitedPower T v an =
     (let (a, n) = an in
      case v of
        CFBoolean b \<Rightarrow>
          if kAssertionTypeNotValidOnBatt \<notin> flags T then None
          else Some (if b \<and> kAssertionStateValidOnBatt \<notin> state a then
                       (a\<lparr>state := insert kAssertionStateValidOnBatt (state a),
                          mods := insert kAssertionModPowerConstraint (mods a)\<rparr>, n + 1)
                     else if \<not> b \<and> kAssertionStateValidOnBatt \<in> state a then
                       (a\<lparr>state := state a - {kAssertionStateValidOnBatt},
                          mods := insert kAssertionModPowerConstraint (mods a)\<rparr>,
                        if n \<noteq> 0 then n - 1 else n)
                     else (a, n))
      | _ \<Rightarrow> None)"

definition forwardLid :: "cf \<Rightarrow> assertion \<Rightarrow> assertion option" where
  "forwardLid v a =
     (case v of
        CFBoolean b \<Rightarrow>
          Some (if b \<and> kAssertionLidStateModifier \<notin> state a then
                  a\<lparr>state := insert kAssertionLidStateModifier (state a), mods := insert kAssertionModLidState (mods a)\<rparr>
                else if \<not> b \<and> kAssertionLidStateModifier \<in> state a then
                  a\<lparr>state := state a - {kAssertionLidStateModifier}, mods := insert kAssertionModLidState (mods a)\<rparr>
                else a)
      | _ \<Rightarrow> None)"

definition forwardSilent :: "cf \<Rightarrow> assertion \<Rightarrow> assertion option" where
  "forwardSilent v a =
     (case v of
        CFBoolean b \<Rightarrow>
          Some (if b \<and> kAssertionExitSilentRunningMode \<notin> state a then
                  a\<lparr>state := insert kAssertionExitSilentRunningMode (state a),
                    mods := insert kAssertionModSilentRunning (mods a)\<rparr>
                else a)
      | _ \<Rightarrow> None)"

definition addMod :: "modBit \<Rightarrow> assertion \<Rightarrow> assertion" where
  "addMod m a = a\<lparr>mods := insert m (mods a)\<rparr>"

definition forwardKey ::
    "assertionType \<Rightarrow> u64 \<Rightarrow> propKey \<Rightarrow> cf \<Rightarrow> assertion \<times> u32 \<Rightarrow> (assertion \<times> u32) option" where
  "forwardKey T now k v an =
     (let (a, n) = an; keep = map_option (\<lambda>a'. (a', n)) in
      case k of
        NonStringKey _ \<Rightarrow> None
      | kIOPMAssertionLevelKey \<Rightarrow> keep (forwardLevel v a)
      | kIOPMAssertionTimeoutKey \<Rightarrow> keep (forwardTimeout T now v a)
      | kIOPMAssertionAppliesToLimitedPowerKey \<Rightarrow> forwardLimitedPower T v (a, n)
      | kIOPMAssertionAppliesOnLidClose \<Rightarrow> keep (forwardLid v a)
      | kIOPMAssertionProcessingHotPlug \<Rightarrow> keep (forwardLid v a)
      | kIOPMAssertionExitSilentRunning \<Rightarrow> keep (forwardSilent v a)
      | kIOPMAssertionOnBehalfOfPID \<Rightarrow>
          (case v of CFNumber _ \<Rightarrow> Some (addMod kAssertionModCausingPid a, n) | _ \<Rightarrow> None)
      | kIOPMAssertionTypeKey \<Rightarrow> None
      | kIOPMAssertionNameKey \<Rightarrow> Some (addMod kAssertionModName a, n)
      | kIOPMAssertionResourcesUsed \<Rightarrow> Some (addMod kAssertionModResources a, n)
      | kIOPMAssertionAllowsDeviceRestart \<Rightarrow> Some (addMod kAssertionModResources a, n)
      | kIOPMAssertionFrameworkIDKey \<Rightarrow> Some (addMod kAssertionModFrameworkID a, n)
      | _ \<Rightarrow> Some (a, n))"

definition forwardPropertiesToAssertion ::
    "assertionType \<Rightarrow> u64 \<Rightarrow> propKey \<times> cf \<Rightarrow> assertion \<times> u32 \<Rightarrow> assertion \<times> u32" where
  "forwardPropertiesToAssertion T now kv an =
     (case forwardKey T now (fst kv) (snd kv) an of
        None \<Rightarrow> an
      | Some (a, n) \<Rightarrow> (prop_set (fst kv) (snd kv) a, n))"

section \<open>doSetProperties\<close>

text \<open>
  \<open>CFDictionaryApplyFunction\<close> visits the entries of the request in an order the
  dictionary chooses; the request is the list of entries in that order.
\<close>

definition applyProperties :: "nat \<Rightarrow> (propKey \<times> cf) list \<Rightarrow> pm \<Rightarrow> pm" where
  "applyProperties i inProps s =
     (let t = kassert (asn s i); T = gAssertionTypes s t;
          (a, n) = fold (forwardPropertiesToAssertion T (currTime s)) inProps
                     ((asn s i)\<lparr>mods := {}\<rparr>, validOnBattCount T)
      in upd_asn i (\<lambda>_. a) (upd_type t (\<lambda>T. T\<lparr>validOnBattCount := n\<rparr>) s))"

text \<open>The branch of a level change; \<open>ddt\<close> is \<open>delayDisplayTurnOff\<close>.\<close>

definition setLevel :: "(pm \<Rightarrow> pm) \<Rightarrow> nat \<Rightarrow> kerAssertionType \<Rightarrow> stateBit set \<Rightarrow> pm \<Rightarrow> pm" where
  "setLevel ddt i t oldState s =
     (if kAssertionStateInactive \<in> state (asn s i) then
        let s1 = (if kAssertionStateTimed \<in> oldState then removeTimedAssertion i t True True s
                  else removeActiveAssertion i t True s);
            s2 = insertInactiveAssertion i t s1;
            s3 = (if kassert (asn s2 i) = kPreventDisplaySleepType \<and>
                     pinfo (asn s2 i) \<noteq> getpid (env s2) then ddt s2 else s2)
        in emit (LogAssertionEvent kATurnOffLog i) (callHandler t kAssertionOpRelease s3)
      else
        let s1 = upd_asn i (\<lambda>a. prop_remove kIOPMAssertionCreateDateKey
                    (prop_remove kIOPMAssertionTimedOutDateKey a)) (removeInactiveAssertion i t s)
        in emit (LogAssertionEvent kATurnOnLog i) (snd (raiseAssertion i s1)))"

definition setTimer :: "nat \<Rightarrow> kerAssertionType \<Rightarrow> stateBit set \<Rightarrow> pm \<Rightarrow> pm" where
  "setTimer i t oldState s =
     (let s1 = (if kAssertionStateTimed \<in> oldState then removeTimedAssertion i t True False s
                else removeActiveAssertion i t False s);
          s2 = upd_asn i (\<lambda>a. prop_set kIOPMAssertionCreateDateKey
                 (CFDate (CFAbsoluteTimeGetCurrent (env s))) (a\<lparr>createTime := currTime s\<rparr>)) s1;
          s3 = (if timeout (asn s2 i) \<noteq> 0 then insertTimedAssertion i t True False s2
                else insertActiveAssertion i t False s2);
          s4 = (if kassert (asn s3 i) = kDeclareUserActivityType then
                  let s' = callHandler t kAssertionOpRaise s3
                  in if \<not> userActiveRootDomain (env s3) then emit (LogAssertionEvent kATurnOnLog i) s' else s'
                else s3)
      in callHandler t kAssertionOpEval s4)"

definition setPowerConstraint :: "nat \<Rightarrow> kerAssertionType \<Rightarrow> pm \<Rightarrow> pm" where
  "setPowerConstraint i t s =
     (if handler (gAssertionTypes s t) = None then s
      else let op = (if kAssertionStateValidOnBatt \<in> state (asn s i) then kAssertionOpRaise
                     else kAssertionOpRelease)
           in updateAppStats i op (callHandler t op s))"

definition setLidState :: "nat \<Rightarrow> kerAssertionType \<Rightarrow> pm \<Rightarrow> pm" where
  "setLidState i t s =
     callHandler t (if kAssertionLidStateModifier \<in> state (asn s i) then kAssertionOpRaise
                    else kAssertionOpRelease) s"

text \<open>What follows the level branch: the assertion is active and its level unchanged.\<close>

definition setOthers :: "nat \<Rightarrow> kerAssertionType \<Rightarrow> stateBit set \<Rightarrow> modBit set \<Rightarrow> pm \<Rightarrow> pm" where
  "setOthers i t oldState m s =
     (let s1 = (if kAssertionModTimer \<in> m then setTimer i t oldState s else s);
          s2 = (if kAssertionModPowerConstraint \<in> m then setPowerConstraint i t s1 else s1);
          s3 = (if kAssertionModLidState \<in> m then setLidState i t s2 else s2);
          s4 = (if kAssertionModSilentRunning \<in> m then callHandler t kAssertionOpEval s3 else s3)
      in if kAssertionModResources \<in> m then updateSystemQualifiers i kAssertionOpEval s4 else s4)"

definition suspendedProc :: "pm \<Rightarrow> pid \<Rightarrow> bool" where
  "suspendedProc s p = (case gProcessDict s p of None \<Rightarrow> False | Some P \<Rightarrow> isSuspended P)"

definition doSetProperties_with ::
    "(pm \<Rightarrow> pm) \<Rightarrow> pid \<Rightarrow> u32 \<Rightarrow> (propKey \<times> cf) list \<Rightarrow> pm \<Rightarrow> IOReturn \<times> pm" where
  "doSetProperties_with ddt p aid inProps s =
     (case lookupAssertion s p aid of
        (ret, None) \<Rightarrow> (ret, s)
      | (_, Some i) \<Rightarrow>
          if processInfoGet s p = None then (kIOReturnBadArgument, s)
          else if suspendedProc s p then (kIOReturnNotPermitted, s)
          else if suspendedProc s (causingPid (asn s i)) then (kIOReturnNotPermitted, s)
          else
            let t = kassert (asn s i);
                oldState = state (asn s i);
                s1 = applyProperties i inProps s;
                m = mods (asn s1 i);
                s2 = (if kAssertionModName \<in> m then emit (LogAssertionEvent kANameChangeLog i) s1 else s1)
            in (kIOReturnSuccess,
                if kAssertionModLevel \<in> m then notifyAnyChange (setLevel ddt i t oldState s2)
                else if kAssertionStateInactive \<in> state (asn s2 i) then s2
                else notifyAnyChange (setOthers i t oldState m s2)))"

section \<open>Delaying the display turn-off\<close>

definition kPMMaxDisplayTurnOffDelay :: u32 where
  "kPMMaxDisplayTurnOffDelay = 5"

definition displayOffDelay :: "pm \<Rightarrow> rat" where
  "displayOffDelay s =
     (let minutes = (if gDisplaySleepTimer s \<noteq> 0 then
                       (if gDisplaySleepTimer s > kPMMaxDisplayTurnOffDelay then kPMMaxDisplayTurnOffDelay
                        else gDisplaySleepTimer s)
                     else kPMMaxDisplayTurnOffDelay)
      in of_int (uint minutes) * 60)"

definition IOPMAssertionDescriptionCreate ::
    "typeName \<Rightarrow> string \<Rightarrow> string option \<Rightarrow> string option \<Rightarrow> string option \<Rightarrow> rat \<Rightarrow>
     timeoutAction option \<Rightarrow> props_t" where
  "IOPMAssertionDescriptionCreate ty nm det reason path tmo act =
     (let d = Map.empty(kIOPMAssertionNameKey \<mapsto> CFString (Str nm),
                        kIOPMAssertionLevelKey \<mapsto> CFNumber (of_int kIOPMAssertionLevelOn),
                        kIOPMAssertionTypeKey \<mapsto> CFString (TypeName ty));
          d1 = (case det of Some x \<Rightarrow> d(kIOPMAssertionDetailsKey \<mapsto> CFString (Str x)) | None \<Rightarrow> d);
          d2 = (case reason of Some x \<Rightarrow> d1(kIOPMAssertionHumanReadableReasonKey \<mapsto> CFString (Str x))
                | None \<Rightarrow> d1);
          d3 = (case path of Some x \<Rightarrow> d2(kIOPMAssertionLocalizationBundlePathKey \<mapsto> CFString (Str x))
                | None \<Rightarrow> d2);
          d4 = (if tmo \<noteq> 0 then d3(kIOPMAssertionTimeoutKey \<mapsto> CFNumber tmo) else d3)
      in case act of Some x \<Rightarrow> d4(kIOPMAssertionTimeoutActionKey \<mapsto> CFString (TimeoutAction x))
         | None \<Rightarrow> d4)"

text \<open>
  The assertion of the delay is the daemon's own, so \<open>doSetProperties\<close> on it never reaches
  the call of \<open>delayDisplayTurnOff\<close>: the parameter is the identity here.
\<close>

definition delayDisplayTurnOff :: "pm \<Rightarrow> pm" where
  "delayDisplayTurnOff s =
     (if delayDisplayId s = kIOPMNullAssertionID then
        case doCreate (getpid (env s))
               (IOPMAssertionDescriptionCreate kIOPMAssertInternalPreventDisplaySleep
                  ''com.apple.powermanagement.delayDisplayOff'' None (Some ''Proxy to delay display off'')
                  None (displayOffDelay s) (Some kIOPMAssertionTimeoutActionTurnOff)) s of
          ((_, aid, _), s1) \<Rightarrow> s1\<lparr>delayDisplayId := aid\<rparr>
      else snd (doSetProperties_with (\<lambda>s. s) (getpid (env s)) (delayDisplayId s)
             [(kIOPMAssertionLevelKey, CFNumber (of_int kIOPMAssertionLevelOn)),
              (kIOPMAssertionTimeoutKey, CFNumber (displayOffDelay s))] s))"

definition doSetProperties :: "pid \<Rightarrow> u32 \<Rightarrow> (propKey \<times> cf) list \<Rightarrow> pm \<Rightarrow> IOReturn \<times> pm" where
  "doSetProperties = doSetProperties_with delayDisplayTurnOff"

section \<open>What forwarding changes\<close>

text \<open>
  Identity, type, owner and the timed bit survive; unless the level changed, activity does,
  and unless the level or the timer changed, the timeout does.
\<close>

definition fixedPart :: "assertion \<Rightarrow> kerAssertionType \<times> u32 \<times> pid \<times> typeName option \<times> bool \<times> u32" where
  "fixedPart a = (kassert a, assertionId a, pinfo a, type_of_props (props a), kAssertionStateTimed \<in> state a,
     retainCnt a)"

definition unlessLevel :: "assertion \<Rightarrow> assertion \<Rightarrow> bool" where
  "unlessLevel a0 a \<longleftrightarrow>
     (kAssertionStateInactive \<in> state a) = (kAssertionStateInactive \<in> state a0) \<and>
     (kAssertionModTimer \<notin> mods a \<longrightarrow> timeout a = timeout a0) \<and>
     (kAssertionStateInactive \<in> state a \<longrightarrow> kAssertionModTimer \<notin> mods a)"

definition forwarded :: "assertion \<Rightarrow> assertion \<Rightarrow> bool" where
  "forwarded a0 a \<longleftrightarrow>
     fixedPart a = fixedPart a0 \<and>
     (props a0 kIOPMAssertionGlobalUniqueIDKey \<noteq> None \<longrightarrow> props a kIOPMAssertionGlobalUniqueIDKey \<noteq> None) \<and>
     (kAssertionModLevel \<in> mods a \<or> unlessLevel a0 a)"

text \<open>A change of other bits and modification marks keeps \<open>forwarded\<close>.\<close>

lemma forwarded_bits:
  assumes "forwarded a0 a"
    and "S - {b} = state a - {b}" "b \<notin> {kAssertionStateTimed, kAssertionStateInactive}"
    and "M - {m} = mods a - {m}" "m \<notin> {kAssertionModLevel, kAssertionModTimer}"
  shows "forwarded a0 (a\<lparr>state := S, mods := M\<rparr>)"
proof -
  have "kAssertionStateTimed \<in> S \<longleftrightarrow> kAssertionStateTimed \<in> state a"
    "kAssertionStateInactive \<in> S \<longleftrightarrow> kAssertionStateInactive \<in> state a"
    "kAssertionModLevel \<in> M \<longleftrightarrow> kAssertionModLevel \<in> mods a"
    "kAssertionModTimer \<in> M \<longleftrightarrow> kAssertionModTimer \<in> mods a"
    using assms(2-5) by blast+
  then show ?thesis
    using assms(1) by (simp add: forwarded_def fixedPart_def unlessLevel_def)
qed

lemma forwarded_level:
  assumes "forwarded a0 a"
    and "S - {kAssertionStateInactive} = state a - {kAssertionStateInactive}"
  shows "forwarded a0 (a\<lparr>timeout := tmo, state := S, mods := insert kAssertionModLevel M\<rparr>)"
proof -
  have "kAssertionStateTimed \<in> S \<longleftrightarrow> kAssertionStateTimed \<in> state a"
    using assms(2) by blast
  then show ?thesis
    using assms(1) by (simp add: forwarded_def fixedPart_def)
qed

lemma forwarded_timer:
  assumes "forwarded a0 a" and "kAssertionStateInactive \<notin> state a"
  shows "forwarded a0 (a\<lparr>timeout := tmo, mods := insert kAssertionModTimer (mods a)\<rparr>)"
  using assms by (auto simp: forwarded_def fixedPart_def unlessLevel_def)

lemma forwarded_parts:
  assumes f: "forwarded a0 a"
  shows "forwardLevel v a = Some a' \<Longrightarrow> forwarded a0 a'"
    and "forwardTimeout T now v a = Some a' \<Longrightarrow> forwarded a0 a'"
    and "forwardLid v a = Some a' \<Longrightarrow> forwarded a0 a'"
    and "forwardSilent v a = Some a' \<Longrightarrow> forwarded a0 a'"
proof -
  have lv: "forwarded a0 (a\<lparr>state := S, mods := insert kAssertionModLevel M\<rparr>)"
    if "S - {kAssertionStateInactive} = state a - {kAssertionStateInactive}" for S M
    using forwarded_level [OF f that, where tmo = "timeout a" and M = M] by simp
  show "forwarded a0 a'" if "forwardLevel v a = Some a'"
    using that f lv [of "state a - {kAssertionStateInactive}" "mods a"]
      lv [of "insert kAssertionStateInactive (state a)" "mods a"]
    by (simp add: forwardLevel_def split: cf.split_asm if_split_asm; blast)
  show "forwarded a0 a'" if "forwardTimeout T now v a = Some a'"
    using that forwarded_level [OF f, of "state a - {kAssertionStateInactive}"]
      forwarded_timer [OF f]
    by (simp add: forwardTimeout_def Let_def split: cf.split_asm if_split_asm; blast)
  show "forwarded a0 a'" if "forwardLid v a = Some a'"
    using that f forwarded_bits [OF f, of "insert kAssertionLidStateModifier (state a)"
        kAssertionLidStateModifier "insert kAssertionModLidState (mods a)" kAssertionModLidState]
      forwarded_bits [OF f, of "state a - {kAssertionLidStateModifier}"
        kAssertionLidStateModifier "insert kAssertionModLidState (mods a)" kAssertionModLidState]
    by (simp add: forwardLid_def split: cf.split_asm if_split_asm; blast)
  show "forwarded a0 a'" if "forwardSilent v a = Some a'"
    using that f forwarded_bits [OF f, of "insert kAssertionExitSilentRunningMode (state a)"
        kAssertionExitSilentRunningMode "insert kAssertionModSilentRunning (mods a)"
        kAssertionModSilentRunning]
    by (simp add: forwardSilent_def split: cf.split_asm if_split_asm; blast)
qed

lemma forwarded_limitedPower:
  assumes "forwardLimitedPower T v (a, n) = Some (a', n')" and f: "forwarded a0 a"
  shows "forwarded a0 a'"
  using assms forwarded_bits [OF f, of "insert kAssertionStateValidOnBatt (state a)"
      kAssertionStateValidOnBatt "insert kAssertionModPowerConstraint (mods a)"
      kAssertionModPowerConstraint]
    forwarded_bits [OF f, of "state a - {kAssertionStateValidOnBatt}"
      kAssertionStateValidOnBatt "insert kAssertionModPowerConstraint (mods a)"
      kAssertionModPowerConstraint]
  by (simp add: forwardLimitedPower_def split: cf.split_asm if_split_asm; blast)

lemma forwarded_addMod:
  "m \<notin> {kAssertionModLevel, kAssertionModTimer} \<Longrightarrow> forwarded a0 a \<Longrightarrow> forwarded a0 (addMod m a)"
  by (auto simp: forwarded_def fixedPart_def unlessLevel_def addMod_def)

lemma forwarded_prop_set:
  "k \<noteq> kIOPMAssertionTypeKey \<Longrightarrow> forwarded a0 a \<Longrightarrow> forwarded a0 (prop_set k v a)"
  by (auto simp: forwarded_def fixedPart_def unlessLevel_def type_of_props_def)

lemma forwardKey_cases:
  assumes "forwardKey T now k v (a, n) = Some (a', n')"
  obtains "forwardLevel v a = Some a'" | "forwardTimeout T now v a = Some a'"
    | "forwardLid v a = Some a'" | "forwardSilent v a = Some a'"
    | "forwardLimitedPower T v (a, n) = Some (a', n')"
    | m where "m \<notin> {kAssertionModLevel, kAssertionModTimer}" "a' = addMod m a"
    | "a' = a"
  using assms by (cases k) (auto simp: forwardKey_def split: cf.splits)

lemma forwarded_key:
  assumes "forwardKey T now k v (a, n) = Some (a', n')" and f: "forwarded a0 a"
  shows "forwarded a0 a'" and "k \<noteq> kIOPMAssertionTypeKey"
proof -
  show "forwarded a0 a'"
    using assms(1)
    by (rule forwardKey_cases)
      (use f forwarded_parts [OF f] forwarded_limitedPower [OF _ f] forwarded_addMod [OF _ f] in blast)+
  show "k \<noteq> kIOPMAssertionTypeKey" using assms(1) by (auto simp: forwardKey_def)
qed

lemma forwarded_step: "forwarded a0 (fst an) \<Longrightarrow> forwarded a0 (fst (forwardPropertiesToAssertion T now kv an))"
  by (cases an) (auto simp: forwardPropertiesToAssertion_def split: option.split
      intro: forwarded_prop_set dest: forwarded_key)

lemma forwarded_fold:
  "forwarded a0 (fst (fold (forwardPropertiesToAssertion T now) kvs (a0\<lparr>mods := {}\<rparr>, n)))"
proof (rule fold_invariant [where P = "\<lambda>an. forwarded a0 (fst an)"])
  show "forwarded a0 (fst (a0\<lparr>mods := {}\<rparr>, n))"
    by (simp add: forwarded_def fixedPart_def unlessLevel_def)
qed (rule forwarded_step)

section \<open>The table after a change of properties\<close>

lemma core_applyProperties:
  assumes "gAssertionsArray s i = Some a0"
  obtains a where "forwarded a0 a" "core (applyProperties i kvs s) = c_upd i (\<lambda>_. acore a) (core s)"
    "gAssertionsArray (applyProperties i kvs s) i = Some a"
proof -
  let ?T = "gAssertionTypes s (kassert a0)"
  obtain a n where an: "fold (forwardPropertiesToAssertion ?T (currTime s)) kvs
      (a0\<lparr>mods := {}\<rparr>, validOnBattCount ?T) = (a, n)" by fastforce
  have f: "forwarded a0 a"
    using forwarded_fold [of a0 ?T "currTime s" kvs "validOnBattCount ?T"] an by simp
  let ?s = "upd_type (kassert a0) (\<lambda>T. T\<lparr>validOnBattCount := n\<rparr>) s"
  have ap: "applyProperties i kvs s = upd_asn i (\<lambda>_. a) ?s"
    using assms an by (simp add: applyProperties_def Let_def asn_def)
  have "core (applyProperties i kvs s) = c_upd i (\<lambda>_. acore a) (core ?s)"
    unfolding ap by (rule core_eqI) (auto simp: upd_asn_def core_def fun_eq_iff map_option_case split: option.split)
  moreover have "core ?s = core s" by (rule core_upd_type) simp
  moreover have "gAssertionsArray (applyProperties i kvs s) i = Some a"
    using assms unfolding ap by (simp add: upd_asn_def upd_type_def)
  ultimately show ?thesis using f that by simp
qed


definition foreign_floats :: "pid \<Rightarrow> nat set \<Rightarrow> core \<Rightarrow> bool" where
  "foreign_floats p F c \<longleftrightarrow> (\<forall>j \<in> F. \<exists>q. owner c j = Some q \<and> q \<noteq> p)"

lemma keeps_owner: "keeps {} P c c' \<Longrightarrow> owner c j = Some q \<Longrightarrow> owner c' j = Some q"
  using keepsD(3) [of "{}" P c c' j] by auto

lemma foreign_floats_keeps: "foreign_floats p F c \<Longrightarrow> keeps {} P c c' \<Longrightarrow> foreign_floats p F c'"
  unfolding foreign_floats_def by (meson keeps_owner)

lemma foreign_not_floating: "foreign_floats p F c \<Longrightarrow> owner c i = Some p \<Longrightarrow> i \<notin> F"
  unfolding foreign_floats_def by fastforce

lemma foreign_floats_empty [simp]: "foreign_floats p {} c"
  by (simp add: foreign_floats_def)

lemma all_live_foreign: "foreign_floats p F c \<Longrightarrow> all_live F c"
  unfolding foreign_floats_def all_live_def by (auto simp: owner_def)

lemma keeps_replace:
  assumes "c_asn c i = Some a" "c_pinfo a' = c_pinfo a" "c_pinfo a \<in> P"
  shows "keeps X P c (c_upd i (\<lambda>_. a') (c_unlink i c))"
  using assms by (auto simp: keeps_def owner_def where_is_def)

text \<open>
  An assertion of the table whose record has been replaced by \<open>b\<close> and which has left its
  list, ready to be linked again.
\<close>

definition lifted :: "nat set \<Rightarrow> pid set \<Rightarrow> nat \<Rightarrow> acore \<Rightarrow> core \<Rightarrow> core \<Rightarrow> bool" where
  "lifted F P i b c c' \<longleftrightarrow>
     wf (insert i F) c' \<and> c_asn c' i = Some b \<and> well_typed c' b \<and> keeps {} P c c' \<and>
     c_pinfo b \<in> P \<and> i \<notin> F"

lemma liftedI:
  assumes "wf F c" "c_asn c i = Some a" "i \<notin> F" "c_kassert b = c_kassert a" "c_id b = c_id a"
    "c_pinfo b = c_pinfo a" "c_type b = c_type a" "c_uid b" "c_pinfo a \<in> P"
  shows "lifted F P i b c (c_upd i (\<lambda>_. b) (c_unlink i c))"
proof -
  have "well_typed c a" using wfD(5) [OF assms(1)] assms(2,3) by (simp add: wf_types_def)
  then have "well_typed c b" using assms(7,8) by (simp add: well_typed_def)
  then show ?thesis
    using wf_unlink_replace [OF assms(1,2,4,5)] keeps_replace [OF assms(2,6,9)] assms(2,3,6,9)
    by (simp add: lifted_def well_typed_def)
qed

lemma lifted_owner: "lifted F P i b c c' \<Longrightarrow> owner c' i = Some (c_pinfo b)"
  by (simp add: lifted_def owner_def)

lemma lifted_insert:
  assumes "lifted F P i b c c'" "c_kassert b = t"
  shows "wf F (c_insert_inactive i t c') \<and> keeps {} P c (c_insert_inactive i t c')"
    and "wf F (c_insert_active i t c') \<and> keeps {} P c (c_insert_active i t c')"
    and "\<not> c_inactive b \<Longrightarrow> wf F (c_insert_timed i t c') \<and> keeps {} P c (c_insert_timed i t c')"
    and "\<not> c_inactive b \<Longrightarrow> \<not> c_timed b \<Longrightarrow>
      wf F (c_push_suspended i t c') \<and> keeps {} P c (c_push_suspended i t c')"
proof -
  have l: "wf (insert i F) c'" "c_asn c' i = Some b" "well_typed c' b" "keeps {} P c c'"
    "c_pinfo b \<in> P" and F: "insert i F - {i} = F"
    using assms(1) by (auto simp: lifted_def)
  note k = keeps_trans [OF l(4) keeps_insert(1) [OF lifted_owner [OF assms(1)] l(5)]]
    keeps_trans [OF l(4) keeps_insert(2) [OF lifted_owner [OF assms(1)] l(5)]]
    keeps_trans [OF l(4) keeps_insert(3) [OF lifted_owner [OF assms(1)] l(5)]]
    keeps_trans [OF l(4) keeps_insert(4) [OF lifted_owner [OF assms(1)] l(5)]]
  show "wf F (c_insert_inactive i t c') \<and> keeps {} P c (c_insert_inactive i t c')"
    using wf_insert_inactive [OF l(1) insertI1 l(2) assms(2) l(3)] k F by simp
  show "wf F (c_insert_active i t c') \<and> keeps {} P c (c_insert_active i t c')"
    using wf_insert_active [OF l(1) insertI1 l(2) assms(2) l(3)] k F by simp
  show "wf F (c_insert_timed i t c') \<and> keeps {} P c (c_insert_timed i t c')" if "\<not> c_inactive b"
    using wf_insert_timed [OF l(1) insertI1 l(2) assms(2) l(3) that] k F by simp
  show "wf F (c_push_suspended i t c') \<and> keeps {} P c (c_push_suspended i t c')"
    if "\<not> c_inactive b" "\<not> c_timed b"
    using wf_push_suspended [OF l(1) insertI1 l(2) assms(2) l(3) that(2,1)] k F by simp
qed

text \<open>Raising an assertion again: the type and the unique identifier are there, so it succeeds.\<close>

lemma raise_succeeds:
  assumes "c_asn (core s) i = Some b" "well_typed (core s) b"
  shows "fst (raiseAssertion i s) = kIOReturnSuccess"
proof -
  obtain a where a: "gAssertionsArray s i = Some a" "b = acore a"
    using assms(1) by (auto simp: core_sel)
  obtain n t where n: "type_of_props (props a) = Some n" "gUserAssertionTypesDict s n = Some t"
    and uid: "props a kIOPMAssertionGlobalUniqueIDKey \<noteq> None"
    using assms(2) a(2) by (auto simp: well_typed_def acore_def core_sel)
  have idx: "getAssertionTypeIndex s (props (asn s i) kIOPMAssertionTypeKey) = Some t"
    using n a(1) by (auto simp: getAssertionTypeIndex_def type_of_props_def asn_def
        split: option.splits cf.splits cfstr.splits)
  have "props (asn (upd_asn i (\<lambda>a. a\<lparr>kassert := t\<rparr>) s) i) kIOPMAssertionGlobalUniqueIDKey \<noteq> None"
    using uid a(1) by (simp add: asn_def upd_asn_def)
  then have "raiseUniqueId i t (upd_asn i (\<lambda>a. a\<lparr>kassert := t\<rparr>) s) \<noteq> None"
    by (auto simp: raiseUniqueId_def Let_def split: option.split cf.split)
  then show ?thesis using idx by (auto simp: raiseAssertion_def Let_def)
qed

lemma lifted_raise:
  assumes "lifted F P i b c (core s)" "\<not> c_inactive b"
  shows "wf F (core (snd (raiseAssertion i s))) \<and> keeps {} P c (core (snd (raiseAssertion i s)))"
proof -
  obtain r s' where r: "raiseAssertion i s = (r, s')" by (cases "raiseAssertion i s")
  have l: "wf (insert i F) (core s)" "c_asn (core s) i = Some b" "well_typed (core s) b"
    "keeps {} P c (core s)" "c_pinfo b \<in> P" "i \<notin> F"
    using assms(1) by (auto simp: lifted_def)
  have "r = kIOReturnSuccess" using raise_succeeds [OF l(2,3)] r by simp
  then have "wf F (core s') \<and> keeps {} {c_pinfo b} (core s) (core s')"
    using wf_raiseAssertion [OF l(1) insertI1 l(2) assms(2) r] l(6) by simp
  then show ?thesis
    using keeps_trans [OF l(4), of "core s'"] keeps_mono [of "{}" "{c_pinfo b}" "core s" "core s'" "{}" P]
      l(5) r by auto
qed

section \<open>The contract of the display-off delay\<close>

text \<open>
  \<open>ddt\<close> keeps the table well formed as long as no assertion of the daemon itself is in the
  middle of a move, and touches assertions of the daemon only.
\<close>

locale display_delay =
  fixes ddt :: "pm \<Rightarrow> pm"
  assumes ddt_wf: "wf F (core s) \<Longrightarrow> foreign_floats (getpid (env s)) F (core s) \<Longrightarrow> wf F (core (ddt s))"
    and ddt_keeps: "wf F (core s) \<Longrightarrow> foreign_floats (getpid (env s)) F (core s) \<Longrightarrow>
      keeps {} {getpid (env s)} (core s) (core (ddt s))"

lemma core_setPowerConstraint [core_simps]: "core (setPowerConstraint i t s) = core s"
  by (simp add: setPowerConstraint_def Let_def core_simps)

lemma core_setLidState [core_simps]: "core (setLidState i t s) = core s"
  by (simp add: setLidState_def core_simps)

text \<open>The three removals on an assertion whose record has just been replaced.\<close>

lemma removals_lifted:
  assumes wf: "wf F (core s)" and a0: "gAssertionsArray s i = Some a0" and i: "i \<notin> F"
    and f: "forwarded a0 a" and s1: "core s1 = c_upd i (\<lambda>_. acore a) (core s)" and P: "pinfo a0 \<in> P"
  shows "lifted F P i ((acore a)\<lparr>c_timed := False\<rparr>) (core s) (core (removeTimedAssertion i t u v s1))"
    "lifted F P i (acore a) (core s) (core (removeActiveAssertion i t v s1))"
    "lifted F P i ((acore a)\<lparr>c_inactive := False\<rparr>) (core s) (core (removeInactiveAssertion i t s1))"
proof -
  have c: "c_asn (core s) i = Some (acore a0)" using a0 by (simp add: core_sel)
  have "c_uid (acore a0)" using wfD(5) [OF wf] c i by (auto simp: wf_types_def well_typed_def)
  then have b: "c_kassert (acore a) = c_kassert (acore a0)" "c_id (acore a) = c_id (acore a0)"
    "c_pinfo (acore a) = c_pinfo (acore a0)" "c_type (acore a) = c_type (acore a0)" "c_uid (acore a)"
    "c_pinfo (acore a0) \<in> P"
    using f P by (simp_all add: forwarded_def fixedPart_def acore_def)
  show "lifted F P i ((acore a)\<lparr>c_timed := False\<rparr>) (core s) (core (removeTimedAssertion i t u v s1))"
    "lifted F P i (acore a) (core s) (core (removeActiveAssertion i t v s1))"
    "lifted F P i ((acore a)\<lparr>c_inactive := False\<rparr>) (core s) (core (removeInactiveAssertion i t s1))"
    using liftedI [OF wf c i, of _ P] b by (simp_all add: core_simps s1 c_unlink_upd_commute)
qed

context display_delay
begin

lemma ddt_if:
  assumes "wf F (core s)" "foreign_floats (getpid (env s)) F (core s)"
  shows "wf F (core (if b then ddt s else s)) \<and>
    keeps {} {getpid (env s)} (core s) (core (if b then ddt s else s))"
  using ddt_wf [OF assms] ddt_keeps [OF assms] assms by simp

lemma setLevel_ok:
  assumes wf: "wf F (core s)" and a0: "gAssertionsArray s i = Some a0"
    and ff: "foreign_floats (pinfo a0) F (core s)" "foreign_floats (getpid (env s)) F (core s)"
    and f: "forwarded a0 a" and s1: "core s1 = c_upd i (\<lambda>_. acore a) (core s)"
    and P: "{pinfo a0, getpid (env s)} \<subseteq> P"
  shows "wf F (core (setLevel ddt i (kassert a0) old s1)) \<and>
    keeps {} P (core s) (core (setLevel ddt i (kassert a0) old s1))"
proof -
  let ?t = "kassert a0"
  have kt: "kassert a = ?t" using f by (simp add: forwarded_def fixedPart_def)
  have "owner (core s) i = Some (pinfo a0)" using a0 by (simp add: owner_def core_sel acore_def)
  then have i: "i \<notin> F" using foreign_not_floating [OF ff(1)] by blast
  have Pa: "pinfo a0 \<in> P" using P by simp
  note l = removals_lifted [OF wf a0 i f s1 Pa, where t = ?t]
  show ?thesis
  proof (cases "kAssertionStateInactive \<in> state (asn s1 i)")
    case True
    let ?r = "if kAssertionStateTimed \<in> old then removeTimedAssertion i ?t True True s1
      else removeActiveAssertion i ?t True s1"
    let ?s2 = "insertInactiveAssertion i ?t ?r"
    have s2: "wf F (core ?s2)" "keeps {} P (core s) (core ?s2)"
      using lifted_insert(1) [OF l(1), of ?t True True] lifted_insert(1) [OF l(2), of ?t True] kt
      by (simp_all add: core_simps acore_def)
    have e: "env ?s2 = env s" using keepsD(2) [OF s2(2)] by (simp add: core_sel)
    have d: "wf F (core (if b then ddt ?s2 else ?s2)) \<and>
        keeps {} {getpid (env s)} (core ?s2) (core (if b then ddt ?s2 else ?s2))" for b
      using ddt_if [OF s2(1)] foreign_floats_keeps [OF ff(2) s2(2)] e by simp
    have "keeps {} P (core ?s2) (core (if b then ddt ?s2 else ?s2))" for b
      using keeps_mono [OF conjunct2 [OF d [of b]]] P by simp
    then have "wf F (core (if b then ddt ?s2 else ?s2)) \<and>
        keeps {} P (core s) (core (if b then ddt ?s2 else ?s2))" for b
      using d [of b] keeps_trans [OF s2(2)] by blast
    then show ?thesis using True by (simp add: setLevel_def Let_def core_simps)
  next
    case False
    have c: "core (upd_asn i (\<lambda>a. prop_remove kIOPMAssertionCreateDateKey
        (prop_remove kIOPMAssertionTimedOutDateKey a)) s') = core s'" for s'
      by (rule core_upd_asn_same) (simp add: acore_def type_of_props_def)
    let ?s' = "upd_asn i (\<lambda>a. prop_remove kIOPMAssertionCreateDateKey
        (prop_remove kIOPMAssertionTimedOutDateKey a)) (removeInactiveAssertion i ?t s1)"
    have "lifted F P i ((acore a)\<lparr>c_inactive := False\<rparr>) (core s) (core ?s')"
      unfolding c by (rule l(3))
    from lifted_raise [OF this] show ?thesis
      using False by (simp add: setLevel_def Let_def core_emit)
  qed
qed

end

lemma setTimer_ok:
  assumes wf: "wf F (core s)" and a0: "gAssertionsArray s i = Some a0" and i: "i \<notin> F"
    and f: "forwarded a0 a" and s1: "core s1 = c_upd i (\<lambda>_. acore a) (core s)"
    and P: "pinfo a0 \<in> P" and act: "kAssertionStateInactive \<notin> state a"
  shows "wf F (core (setTimer i (kassert a0) old s1)) \<and>
    keeps {} P (core s) (core (setTimer i (kassert a0) old s1))"
proof -
  let ?t = "kassert a0"
  let ?r = "if kAssertionStateTimed \<in> old then removeTimedAssertion i ?t True False s1
      else removeActiveAssertion i ?t False s1"
  let ?b = "if kAssertionStateTimed \<in> old then (acore a)\<lparr>c_timed := False\<rparr> else acore a"
  let ?s2 = "upd_asn i (\<lambda>a. prop_set kIOPMAssertionCreateDateKey
      (CFDate (CFAbsoluteTimeGetCurrent (env s1))) (a\<lparr>createTime := currTime s1\<rparr>)) ?r"
  have kt: "kassert a = ?t" using f by (simp add: forwarded_def fixedPart_def)
  have "core ?s2 = core ?r" by (rule core_upd_asn_same) (simp add: acore_def type_of_props_def)
  then have l: "lifted F P i ?b (core s) (core ?s2)"
    using removals_lifted [OF wf a0 i f s1 P, where t = ?t] by simp
  have b: "c_kassert ?b = ?t" "\<not> c_inactive ?b" using kt act by (simp_all add: acore_def)
  have ins: "wf F (core (insertTimedAssertion i ?t True False ?s2)) \<and>
      keeps {} P (core s) (core (insertTimedAssertion i ?t True False ?s2))"
    "wf F (core (insertActiveAssertion i ?t False ?s2)) \<and>
      keeps {} P (core s) (core (insertActiveAssertion i ?t False ?s2))"
    using lifted_insert(2) [OF l b(1)] lifted_insert(3) [OF l b] by (simp_all only: core_simps)
  have st: "core (setTimer i ?t old s1) =
      core (if timeout (asn ?s2 i) \<noteq> 0 then insertTimedAssertion i ?t True False ?s2
            else insertActiveAssertion i ?t False ?s2)"
    unfolding setTimer_def Let_def
    by (simp only: core_callHandler if_distrib [of core] core_emit if_cancel)
  show ?thesis unfolding st using ins by simp
qed

lemma setOthers_ok:
  assumes wf: "wf F (core s)" and a0: "gAssertionsArray s i = Some a0" and i: "i \<notin> F"
    and f: "forwarded a0 a" and s1: "core s1 = c_upd i (\<lambda>_. acore a) (core s)"
    and P: "pinfo a0 \<in> P" and act: "kAssertionStateInactive \<notin> state a"
    and lv: "kAssertionModLevel \<notin> mods a"
  shows "wf F (core (setOthers i (kassert a0) old (mods a) s1)) \<and>
    keeps {} P (core s) (core (setOthers i (kassert a0) old (mods a) s1))"
proof -
  have "core (setOthers i (kassert a0) old (mods a) s1) =
      core (if kAssertionModTimer \<in> mods a then setTimer i (kassert a0) old s1 else s1)"
    by (simp add: setOthers_def Let_def core_simps)
  moreover have "core s1 = core s" if "kAssertionModTimer \<notin> mods a"
  proof -
    have "c_asn (core s) i = Some (acore a0)" using a0 by (simp add: core_sel)
    then have "c_uid (acore a0)" using wfD(5) [OF wf] i by (auto simp: wf_types_def well_typed_def)
    then have "acore a = acore a0"
      using f lv that by (simp add: forwarded_def fixedPart_def unlessLevel_def acore_def)
    then show ?thesis unfolding s1 using a0
      by (intro core_eqI) (auto simp: core_sel fun_eq_iff)
  qed
  ultimately show ?thesis
    using setTimer_ok [OF assms(1-7)] wf by (cases "kAssertionModTimer \<in> mods a") simp_all
qed

section \<open>doSetProperties keeps the table\<close>

lemma lookup_Some:
  assumes "lookupAssertion s p aid = (r, Some i)"
  shows "r = kIOReturnSuccess" "i = INDEX_FROM_ID aid" "i < kMaxAssertions"
    "\<exists>a. gAssertionsArray s i = Some a \<and> pinfo a = p"
  using assms by (auto simp: lookupAssertion_def Let_def split: if_splits option.splits)

context display_delay
begin

lemma doSetProperties_with_ok:
  assumes wf: "wf F (core s)" and ff: "foreign_floats p F (core s)"
    and self: "foreign_floats (getpid (env s)) F (core s)"
    and r: "doSetProperties_with ddt p aid kvs s = (r, s')"
  shows "wf F (core s') \<and> keeps {} {p, getpid (env s)} (core s) (core s')"
proof (cases "s' = s")
  case True
  then show ?thesis using wf by simp
next
  case changed: False
  then obtain r' i where lk: "lookupAssertion s p aid = (r', Some i)"
    using r by (auto simp: doSetProperties_with_def split: prod.splits option.splits)
  from lookup_Some(4) [OF lk] obtain a0 where a0: "gAssertionsArray s i = Some a0" "pinfo a0 = p"
    by blast
  obtain a where a: "forwarded a0 a" "core (applyProperties i kvs s) = c_upd i (\<lambda>_. acore a) (core s)"
    "gAssertionsArray (applyProperties i kvs s) i = Some a"
    using core_applyProperties [OF a0(1)] .
  let ?s1 = "applyProperties i kvs s"
  let ?s2 = "if kAssertionModName \<in> mods a then emit (LogAssertionEvent kANameChangeLog i) ?s1 else ?s1"
  have s2: "core ?s2 = c_upd i (\<lambda>_. acore a) (core s)" using a(2) by (simp add: core_emit)
  have x: "asn s i = a0" "asn ?s1 i = a" "asn ?s2 i = a"
    using a0(1) a(3) by (simp_all add: asn_def emit_def)
  have s': "s' = (if kAssertionModLevel \<in> mods a then
        notifyAnyChange (setLevel ddt i (kassert a0) (state a0) ?s2)
      else if kAssertionStateInactive \<in> state a then ?s2
      else notifyAnyChange (setOthers i (kassert a0) (state a0) (mods a) ?s2))"
    using r lk changed x by (auto simp: doSetProperties_with_def Let_def split: if_split_asm)
  let ?P = "{p, getpid (env s)}"
  have "owner (core s) i = Some p" using a0 by (simp add: owner_def core_sel acore_def)
  then have i: "i \<notin> F" using foreign_not_floating [OF ff] by blast
  have P: "pinfo a0 \<in> ?P" "{pinfo a0, getpid (env s)} \<subseteq> ?P" using a0 by auto
  have lv: "wf F (core (setLevel ddt i (kassert a0) (state a0) ?s2)) \<and>
      keeps {} ?P (core s) (core (setLevel ddt i (kassert a0) (state a0) ?s2))"
    by (rule setLevel_ok [OF wf a0(1) _ self a(1) s2 P(2)]) (use ff a0 in simp)
  show ?thesis
  proof (cases "kAssertionModLevel \<in> mods a")
    case True
    then show ?thesis using lv by (simp add: s' core_notify)
  next
    case nl: False
    show ?thesis
    proof (cases "kAssertionStateInactive \<in> state a")
      case True
      have c: "c_asn (core s) i = Some (acore a0)" using a0 by (simp add: core_sel)
      then have "c_uid (acore a0)" using wfD(5) [OF wf] i by (auto simp: wf_types_def well_typed_def)
      then have "acore a = acore a0"
        using a(1) nl True by (auto simp: forwarded_def fixedPart_def unlessLevel_def acore_def)
      then have "core ?s2 = core s"
        unfolding s2 using c by (intro core_eqI) (auto simp: fun_eq_iff)
      then show ?thesis using nl True wf by (simp add: s')
    next
      case False
      then show ?thesis
        using setOthers_ok [OF wf a0(1) i a(1) s2 P(1) False nl] nl by (simp add: s' core_notify)
    qed
  qed
qed

end

interpretation no_delay: display_delay "\<lambda>s. s"
  by unfold_locales simp_all

lemma delayDisplayTurnOff_ok:
  assumes wf: "wf F (core s)" and ff: "foreign_floats (getpid (env s)) F (core s)"
  shows "wf F (core (delayDisplayTurnOff s)) \<and>
    keeps {} {getpid (env s)} (core s) (core (delayDisplayTurnOff s))"
proof (cases "delayDisplayId s = kIOPMNullAssertionID")
  case True
  let ?d = "IOPMAssertionDescriptionCreate kIOPMAssertInternalPreventDisplaySleep
      ''com.apple.powermanagement.delayDisplayOff'' None (Some ''Proxy to delay display off'')
      None (displayOffDelay s) (Some kIOPMAssertionTimeoutActionTurnOff)"
  obtain r aid pr s1 where d: "doCreate (getpid (env s)) ?d s = ((r, aid, pr), s1)"
    by (metis prod.exhaust_sel)
  show ?thesis
    using wf_doCreate [OF wf all_live_foreign [OF ff] d] True d
    by (simp add: delayDisplayTurnOff_def core_globals)
next
  case False
  obtain r s1 where d: "doSetProperties_with (\<lambda>s. s) (getpid (env s)) (delayDisplayId s)
      [(kIOPMAssertionLevelKey, CFNumber (of_int kIOPMAssertionLevelOn)),
       (kIOPMAssertionTimeoutKey, CFNumber (displayOffDelay s))] s = (r, s1)"
    by fastforce
  show ?thesis
    using no_delay.doSetProperties_with_ok [OF wf ff ff d] False d
    by (simp add: delayDisplayTurnOff_def)
qed

interpretation delay: display_delay delayDisplayTurnOff
  by unfold_locales (use delayDisplayTurnOff_ok in blast)+

text \<open>
  The daemon's own assertions never reach the call of the delay, whatever it is: the
  parameter of \<open>delayDisplayTurnOff\<close>'s own call does not matter.
\<close>

lemma setLevel_self:
  assumes a0: "gAssertionsArray s i = Some a0" and o: "pinfo a0 = getpid (env s)"
  shows "setLevel ddt i t old s = setLevel ddt' i t old s"
proof -
  have o0: "owner (core s) i = Some (getpid (env s))"
    using assms by (simp add: owner_def core_sel acore_def)
  let ?s1 = "if kAssertionStateTimed \<in> old then removeTimedAssertion i t True True s
      else removeActiveAssertion i t True s"
  let ?s2 = "insertInactiveAssertion i t ?s1"
  have "owner (core ?s2) i = owner (core s) i \<and> c_env (core ?s2) = c_env (core s)"
    by (simp add: core_simps c_insert_inactive_def)
  then have "pinfo (asn ?s2 i) = getpid (env ?s2)"
    using o0 by (auto simp: owner_def core_sel asn_def acore_def)
  then show ?thesis by (simp add: setLevel_def Let_def)
qed

lemma applyProperties_keeps:
  "env (applyProperties i kvs s) = env s"
  "gAssertionsArray s i = Some a0 \<Longrightarrow>
     \<exists>a. gAssertionsArray (applyProperties i kvs s) i = Some a \<and> pinfo a = pinfo a0"
proof -
  show "env (applyProperties i kvs s) = env s"
    by (simp add: applyProperties_def Let_def split_beta upd_asn_def upd_type_def)
  assume "gAssertionsArray s i = Some a0"
  then obtain a where "forwarded a0 a" "gAssertionsArray (applyProperties i kvs s) i = Some a"
    using core_applyProperties by blast
  then show "\<exists>a. gAssertionsArray (applyProperties i kvs s) i = Some a \<and> pinfo a = pinfo a0"
    by (auto simp: forwarded_def fixedPart_def)
qed

lemma doSetProperties_self:
  "doSetProperties_with ddt (getpid (env s)) aid kvs s = doSetProperties_with ddt' (getpid (env s)) aid kvs s"
proof (cases "lookupAssertion s (getpid (env s)) aid")
  case (Pair r io)
  show ?thesis
  proof (cases io)
    case None
    then show ?thesis using Pair by (simp add: doSetProperties_with_def)
  next
    case (Some i)
    then obtain a0 where a0: "gAssertionsArray s i = Some a0" "pinfo a0 = getpid (env s)"
      using lookup_Some(4) Pair by blast
    obtain a where a: "gAssertionsArray (applyProperties i kvs s) i = Some a" "pinfo a = getpid (env s)"
      using applyProperties_keeps(2) [OF a0(1)] a0(2) by metis
    let ?s1 = "applyProperties i kvs s"
    let ?s2 = "if kAssertionModName \<in> mods (asn ?s1 i)
      then emit (LogAssertionEvent kANameChangeLog i) ?s1 else ?s1"
    have "gAssertionsArray ?s2 i = Some a" "pinfo a = getpid (env ?s2)"
      using a applyProperties_keeps(1) by (simp_all add: emit_def)
    then have e: "setLevel ddt i t old ?s2 = setLevel ddt' i t old ?s2" for t old
      by (rule setLevel_self)
    show ?thesis
      by (simp only: doSetProperties_with_def Let_def Pair Some prod.case option.case e)
  qed
qed

lemma delayDisplayTurnOff_existing:
  "delayDisplayId s \<noteq> kIOPMNullAssertionID \<Longrightarrow>
   delayDisplayTurnOff s = snd (doSetProperties (getpid (env s)) (delayDisplayId s)
     [(kIOPMAssertionLevelKey, CFNumber (of_int kIOPMAssertionLevelOn)),
      (kIOPMAssertionTimeoutKey, CFNumber (displayOffDelay s))] s)"
  using doSetProperties_self [of "\<lambda>s. s" s _ _ delayDisplayTurnOff]
  by (subst delayDisplayTurnOff_def) (simp add: doSetProperties_def)

lemma doSetProperties_ok:
  assumes "wf F (core s)" and "foreign_floats p F (core s)"
    and "foreign_floats (getpid (env s)) F (core s)" and "doSetProperties p aid kvs s = (r, s')"
  shows "wf F (core s') \<and> keeps {} {p, getpid (env s)} (core s) (core s')"
  using delay.doSetProperties_with_ok [OF assms(1-3)] assms(4) by (simp add: doSetProperties_def)

end
