(* ===== verification/AssertionOps.thy ===== *)
theory AssertionOps
  imports AssertionSetProps
begin

unbundle bit_operations_syntax

text \<open>
  The life of an assertion after its creation (PMAssertions.c): release and retain,
  suspension and resumption of a process, expiry of timeouts and of the cap of a type, the
  exit of a process, and the registrations of a process for notifications and statistics.
\<close>

section \<open>Release, suspend, resume one assertion\<close>

definition sendAssertionTimeoutMsg :: "nat \<Rightarrow> pm \<Rightarrow> pm" where
  "sendAssertionTimeoutMsg i s =
     (let a = asn s i; p = pinfo a in
      if \<not> remoteConnection (proc s p) then s
      else case props a kIOPMAsyncClientAssertionIdKey of
             Some (CFNumber _) \<Rightarrow>
               upd_proc p (\<lambda>P. P\<lparr>activeAsyncAssertion := 0\<rparr>)
                 (emit (AssertionTimeoutMsg p (assertionId a)) s)
           | _ \<Rightarrow> s)"

definition releaseUnlink :: "nat \<Rightarrow> pm \<Rightarrow> bool \<times> pm" where
  "releaseUnlink i s =
     (let a = asn s i; t = kassert a in
      if kAssertionStateTimed \<in> state a then (True, removeTimedAssertion i t True True s)
      else if kAssertionStateInactive \<in> state a then (False, removeInactiveAssertion i t s)
      else (True, removeActiveAssertion i t True s))"

definition releaseAssertion :: "nat \<Rightarrow> bool \<Rightarrow> pm \<Rightarrow> pm" where
  "releaseAssertion i runHandler s =
     (let t = kassert (asn s i);
          (wasActive, s1) = releaseUnlink i s;
          s2 = (if wasActive \<and> kassert (asn s1 i) = kPreventDisplaySleepType \<and>
                   pinfo (asn s1 i) \<noteq> getpid (env s1)
                then delayDisplayTurnOff s1 else s1)
      in if runHandler then callHandler t kAssertionOpRelease s2 else s2)"

definition suspendAssertion :: "nat \<Rightarrow> pm \<Rightarrow> pm" where
  "suspendAssertion i s =
     (let a = asn s i;
          s1 = (if timeout a \<noteq> 0 \<and> timeout a > currTime s then
                  upd_asn i (prop_set kPMAssertionTimeoutOnResumeKey
                    (CFNumber (u64_rat (timeout a - currTime s)))) s
                else s);
          s2 = releaseAssertion i False s1
      in emit (LogAssertionEvent kAStateSuspend i)
           (upd_asn i (\<lambda>a. prop_set kIOPMAssertionIsStateSuspendedKey (CFBoolean True)
              (state_set kAssertionStateSuspended a)) s2))"

text \<open>The seconds a resumed assertion still has, 0 if it was not timed.\<close>

definition timeRemaining :: "assertion \<Rightarrow> rat" where
  "timeRemaining a = (case props a kPMAssertionTimeoutOnResumeKey of Some (CFNumber r) \<Rightarrow> r | _ \<Rightarrow> 0)"

definition resumeActive :: "nat \<Rightarrow> kerAssertionType \<Rightarrow> pm \<Rightarrow> pm" where
  "resumeActive i t s =
     (let r = timeRemaining (asn s i);
          s1 = (case props (asn s i) kPMAssertionTimeoutOnResumeKey of
                  Some (CFNumber _) \<Rightarrow> upd_asn i (prop_remove kPMAssertionTimeoutOnResumeKey) s
                | _ \<Rightarrow> s)
      in emit (LogAssertionEvent kAStateResume i)
           (if r \<noteq> 0 then
              insertTimedAssertion i t True False
                (upd_asn i (\<lambda>a. a\<lparr>timeout := to_u64 r + currTime s\<rparr>) s1)
            else insertActiveAssertion i t False s1))"

definition resumeAssertion :: "nat \<Rightarrow> pm \<Rightarrow> pm" where
  "resumeAssertion i s =
     (let s1 = upd_asn i (\<lambda>a. prop_set kIOPMAssertionIsStateSuspendedKey (CFBoolean False)
                 (state_clear {kAssertionStateSuspended} a)) s;
          t = kassert (asn s1 i)
      in case props (asn s1 i) kIOPMAssertionLevelKey of
           Some (CFNumber r) \<Rightarrow>
             if trunc r = kIOPMAssertionLevelOff then insertInactiveAssertion i t s1
             else resumeActive i t s1
         | _ \<Rightarrow> resumeActive i t s1)"

definition handleAssertionDrop :: "nat \<Rightarrow> pm \<Rightarrow> pm" where
  "handleAssertionDrop i s =
     (let s1 = releaseAssertion i True s;
          p = pinfo (asn s1 i);
          s2 = (if activeAsyncAssertion (proc s1 p) \<noteq> 0
                then upd_proc p (\<lambda>P. P\<lparr>activeAsyncAssertion := 0\<rparr>) s1 else s1);
          s3 = (if remoteConnection (proc s2 p) then sendAssertionTimeoutMsg i s2 else s2);
          t = kassert (asn s3 i)
      in notifyAnyChange (emit (LogAssertionEvent kASystemTimeoutLog i)
           (insertInactiveAssertion i t (removeActiveAssertion i t True s3))))"

section \<open>Retain and release on behalf of a client\<close>

text \<open>The results are the return code and \<open>*retainCnt\<close> (\<open>None\<close> when it is not written).\<close>

definition doRetain :: "pid \<Rightarrow> u32 \<Rightarrow> pm \<Rightarrow> (IOReturn \<times> u32 option) \<times> pm" where
  "doRetain p aid s =
     (case lookupAssertion s p aid of
        (ret, None) \<Rightarrow> ((ret, None), s)
      | (_, Some i) \<Rightarrow>
          let s1 = upd_asn i (\<lambda>a. a\<lparr>retainCnt := retainCnt a + 1\<rparr>) s
          in ((kIOReturnSuccess, Some (retainCnt (asn s1 i))), notifyAnyChange s1))"

text \<open>The last release: the assertion leaves its list and its memory is freed.\<close>

definition releaseLast :: "nat \<Rightarrow> pm \<Rightarrow> pm" where
  "releaseLast i s =
     (let s1 = releaseAssertion i True s;
          p = pinfo (asn s1 i);
          s2 = (if activeAsyncAssertion (proc s1 p) \<noteq> 0
                then upd_proc p (\<lambda>P. P\<lparr>activeAsyncAssertion := 0\<rparr>) s1 else s1)
      in notifyAnyChange (releaseAssertionMemory i kAReleaseLog s2))"

definition doRelease :: "pid \<Rightarrow> u32 \<Rightarrow> pm \<Rightarrow> (IOReturn \<times> u32 option) \<times> pm" where
  "doRelease p aid s =
     (case lookupAssertion s p aid of
        (ret, None) \<Rightarrow> ((ret, None), s)
      | (_, Some i) \<Rightarrow>
          let s1 = (if retainCnt (asn s i) \<noteq> 0
                    then upd_asn i (\<lambda>a. a\<lparr>retainCnt := retainCnt a - 1\<rparr>) s else s);
              n = retainCnt (asn s1 i)
          in ((kIOReturnSuccess, Some n), if n \<noteq> 0 then s1 else releaseLast i s1))"

definition copyAssertionForID :: "pid \<Rightarrow> u32 \<Rightarrow> pm \<Rightarrow> IOReturn \<times> props_t option" where
  "copyAssertionForID p aid s =
     (case lookupAssertion s p aid of
        (_, None) \<Rightarrow> (kIOReturnNotFound, None)
      | (_, Some i) \<Rightarrow> (kIOReturnSuccess, Some (props (asn s i))))"

section \<open>Registrations of a process\<close>

datatype notifyReq = kIOPMNotifyRegister | kIOPMNotifyDeRegister

text \<open>
  The flag of the process and the global counter a registration name stands for, read and
  written.
\<close>

fun notifyFlag :: "notification \<Rightarrow> ProcessInfo \<Rightarrow> bool" where
  "notifyFlag kIOPMAssertionsAnyChangedNotifyString P = anychange P"
| "notifyFlag kIOPMAssertionsChangedNotifyString P = aggchange P"
| "notifyFlag kIOPMAssertionTimedOutNotifyString P = timeoutchange P"
| "notifyFlag _ P = False"

fun setNotifyFlag :: "notification \<Rightarrow> bool \<Rightarrow> ProcessInfo \<Rightarrow> ProcessInfo" where
  "setNotifyFlag kIOPMAssertionsAnyChangedNotifyString b P = P\<lparr>anychange := b\<rparr>"
| "setNotifyFlag kIOPMAssertionsChangedNotifyString b P = P\<lparr>aggchange := b\<rparr>"
| "setNotifyFlag kIOPMAssertionTimedOutNotifyString b P = P\<lparr>timeoutchange := b\<rparr>"
| "setNotifyFlag _ b P = P"

fun addNotifyCount :: "notification \<Rightarrow> u32 \<Rightarrow> pm \<Rightarrow> pm" where
  "addNotifyCount kIOPMAssertionsAnyChangedNotifyString n s = s\<lparr>gAnyChange := gAnyChange s + n\<rparr>"
| "addNotifyCount kIOPMAssertionsChangedNotifyString n s = s\<lparr>gAggChange := gAggChange s + n\<rparr>"
| "addNotifyCount kIOPMAssertionTimedOutNotifyString n s = s\<lparr>gTimeoutChange := gTimeoutChange s + n\<rparr>"
| "addNotifyCount _ n s = s"

definition knownNotification :: "notification \<Rightarrow> bool" where
  "knownNotification nm \<longleftrightarrow>
     nm = kIOPMAssertionsAnyChangedNotifyString \<or> nm = kIOPMAssertionsChangedNotifyString \<or>
     nm = kIOPMAssertionTimedOutNotifyString"

text \<open>\<open>processInfoRetain\<close>, else \<open>processInfoCreate\<close>: whether there is a \<open>ProcessInfo\<close>.\<close>

definition retainOrCreate :: "pid \<Rightarrow> pm \<Rightarrow> bool \<times> pm" where
  "retainOrCreate p s =
     (if processInfoGet s p \<noteq> None then (True, processInfoRetain p s)
      else case processInfoCreate p s of (r, s1) \<Rightarrow> (r \<noteq> None, s1))"

definition do_assertion_notify :: "pid \<Rightarrow> notification \<Rightarrow> notifyReq \<Rightarrow> pm \<Rightarrow> IOReturn \<times> pm" where
  "do_assertion_notify p nm req s =
     (case req of
        kIOPMNotifyRegister \<Rightarrow>
          (case retainOrCreate p s of
             (False, s1) \<Rightarrow> (kIOReturnNoMemory, s1)
           | (True, s1) \<Rightarrow>
               let rc = (if knownNotification nm then kIOReturnSuccess else kIOReturnBadArgument)
               in if knownNotification nm \<and> \<not> notifyFlag nm (proc s1 p) then
                    (rc, addNotifyCount nm 1 (upd_proc p (setNotifyFlag nm True) s1))
                  else (rc, processInfoRelease p s1))
      | kIOPMNotifyDeRegister \<Rightarrow>
          if processInfoGet s p = None then (kIOReturnBadArgument, s)
          else if \<not> knownNotification nm then (kIOReturnBadArgument, s)
          else if notifyFlag nm (proc s p) then
            (kIOReturnSuccess,
             processInfoRelease p (addNotifyCount nm (- 1) (upd_proc p (setNotifyFlag nm False) s)))
          else (kIOReturnSuccess, s))"

text \<open>The processes of \<open>gProcessDict\<close> (the order of the enumeration does not matter).\<close>

definition procsOf :: "pm \<Rightarrow> pid list" where
  "procsOf s = sorted_list_of_set (dom (gProcessDict s))"

definition releaseStatsBufForDeadProcs :: "pm \<Rightarrow> pm" where
  "releaseStatsBufForDeadProcs s =
     (let s0 = (if gAggCleanupDispatch s then emit ArmAggCleanupTimer s else s) in
      if \<not> calloc_ok (env s0) then s0
      else fold (\<lambda>p s. if proc_exited (proc s p) then releaseStatsBuf p s else s) (procsOf s0) s0)"

text \<open>The assertions of the types with statistics, in the order the loops visit them.\<close>

definition forStatsTypes :: "listSelectType \<Rightarrow> (nat \<Rightarrow> pm \<Rightarrow> pm) \<Rightarrow> pm \<Rightarrow> pm" where
  "forStatsTypes sel f s =
     fold (\<lambda>t s. if effect_has_stats (effectIdx (gAssertionTypes s t))
                 then applyToAssertionsSync t sel f s else s) all_types s"

definition startActivityAggregate :: "pid \<Rightarrow> pm \<Rightarrow> pm" where
  "startActivityAggregate p s =
     (case retainOrCreate p s of
        (False, s1) \<Rightarrow> s1
      | (True, s1) \<Rightarrow>
          if aggactivity (proc s1 p) then processInfoRelease p s1
          else
            let s2 = s1\<lparr>gActivityAggCnt := gActivityAggCnt s1 + 1\<rparr> in
            if gActivityAggCnt s1 \<noteq> 0 then upd_proc p (\<lambda>P. P\<lparr>aggactivity := True\<rparr>) s2
            else if \<not> calloc_ok (env s2) then processInfoRelease p s2
            else
              let s3 = fold allocStatsBuf (procsOf s2) s2;
                  s4 = forStatsTypes kSelectActive (\<lambda>i. updateAppStats i kAssertionOpRaise) s3;
                  s5 = (if \<not> gAggCleanupDispatch s4
                        then emit ArmAggCleanupTimer (s4\<lparr>gAggCleanupDispatch := True\<rparr>) else s4)
              in upd_proc p (\<lambda>P. P\<lparr>aggactivity := True\<rparr>) s5)"

definition stopActivityAggregate :: "pid \<Rightarrow> pm \<Rightarrow> pm" where
  "stopActivityAggregate p s =
     (if processInfoGet s p = None \<or> \<not> aggactivity (proc s p) then s
      else
        let s1 = s\<lparr>gActivityAggCnt := gActivityAggCnt s - 1\<rparr> in
        if gActivityAggCnt s1 = 0 \<and> \<not> calloc_ok (env s1) then s1
        else
          let s2 = (if gActivityAggCnt s1 = 0 then
                      let s' = forStatsTypes kSelectAll
                                 (\<lambda>i. upd_asn i (state_clear {kAssertionStateAddsToProcStats}))
                                 (fold releaseStatsBuf (procsOf s1) s1)
                      in if gAggCleanupDispatch s'
                         then dispatch_async AggCleanupCancelHandlerTask (emit CancelAggCleanupTimer s')
                         else s'
                    else s1)
          in processInfoRelease p (upd_proc p (\<lambda>P. P\<lparr>aggactivity := False\<rparr>) s2))"

definition setAssertionActivityAggregate :: "pid \<Rightarrow> bool \<Rightarrow> pm \<Rightarrow> pm" where
  "setAssertionActivityAggregate p v s =
     (if v then startActivityAggregate p s
      else if gActivityAggCnt s \<noteq> 0 then stopActivityAggregate p s else s)"

section \<open>Exit of a process\<close>

text \<open>One assertion of the walk: the local list of released assertions, most recent first.\<close>

definition exitStep :: "pid \<Rightarrow> nat \<Rightarrow> nat list \<times> pm \<Rightarrow> nat list \<times> pm" where
  "exitStep deadPID i ls =
     (case ls of (released, s) \<Rightarrow>
        if pinfo (asn s i) = deadPID then (i # released, releaseAssertion i False s)
        else (released, s))"

definition exitType :: "pid \<Rightarrow> kerAssertionType \<Rightarrow> pm \<Rightarrow> pm" where
  "exitType deadPID t s =
     (case fold (exitStep deadPID) (selected kSelectAll (tlists (gAssertionTypes s t))) ([], s) of
        (released, s1) \<Rightarrow>
          fold (\<lambda>i. releaseAssertionMemory i kAClientDeathLog) released
            (callHandler t kAssertionOpRelease s1))"

definition exitProcessInfo :: "pid \<Rightarrow> pm \<Rightarrow> pm" where
  "exitProcessInfo deadPID s =
     (if processInfoGet s deadPID = None then s
      else
        let s1 = upd_proc deadPID (\<lambda>P. P\<lparr>proc_exited := True\<rparr>) s
        in if remoteConnection (proc s1 deadPID)
           then upd_proc deadPID (\<lambda>P. P\<lparr>remoteConnection := False\<rparr>) (emit (XpcRelease deadPID) s1)
           else s1)"

definition exitRegistrations :: "pid \<Rightarrow> pm \<Rightarrow> pm" where
  "exitRegistrations deadPID s =
     (let dereg = (\<lambda>nm s. snd (do_assertion_notify deadPID nm kIOPMNotifyDeRegister s))
      in setAssertionActivityAggregate deadPID False
           (dereg kIOPMAssertionsChangedNotifyString
             (dereg kIOPMAssertionTimedOutNotifyString
               (dereg kIOPMAssertionsAnyChangedNotifyString s))))"

definition HandleProcessExit :: "pid \<Rightarrow> pm \<Rightarrow> pm" where
  "HandleProcessExit deadPID s =
     notifyAnyChange (fold (exitType deadPID) all_types
       (exitRegistrations deadPID (exitProcessInfo deadPID s)))"

definition releaseConnectionAssertions :: "pid \<Rightarrow> pm \<Rightarrow> pm" where
  "releaseConnectionAssertions deadPID s =
     (if processInfoGet s deadPID \<noteq> None \<and> remoteConnection (proc s deadPID)
      then HandleProcessExit deadPID s else s)"

section \<open>Suspension and resumption of a process\<close>

definition concerns :: "pid \<Rightarrow> assertion \<Rightarrow> bool" where
  "concerns p a \<longleftrightarrow> pinfo a = p \<or> causingPid a = p"

definition suspendStep :: "pid \<Rightarrow> nat \<Rightarrow> pm \<Rightarrow> pm" where
  "suspendStep p i s =
     (if concerns p (asn s i) then
        upd_lists (kassert (asn s i)) (\<lambda>l. l\<lparr>suspended := i # suspended l\<rparr>) (suspendAssertion i s)
      else s)"

definition suspendType :: "pid \<Rightarrow> kerAssertionType \<Rightarrow> pm \<Rightarrow> pm" where
  "suspendType p t s =
     callHandler t kAssertionOpEval (applyToAssertionsSync t kSelectAllButSuspended (suspendStep p) s)"

definition handleAssertionSuspend :: "pid \<Rightarrow> pm \<Rightarrow> pm" where
  "handleAssertionSuspend p s =
     (if processInfoGet s p = None \<or> isSuspended (proc s p) then s
      else notifyAnyChange (upd_proc p (\<lambda>P. P\<lparr>isSuspended := True\<rparr>)
             (fold (suspendType p) all_types s)))"

definition resumeStep :: "pid \<Rightarrow> nat \<Rightarrow> pm \<Rightarrow> pm" where
  "resumeStep p i s =
     (if concerns p (asn s i) then resumeAssertion i (LIST_REMOVE i s) else s)"

definition resumeType :: "pid \<Rightarrow> kerAssertionType \<Rightarrow> pm \<Rightarrow> pm" where
  "resumeType p t s =
     callHandler t kAssertionOpEval (applyToAssertionsSync t kSelectSuspended (resumeStep p) s)"

definition handleAssertionResume :: "pid \<Rightarrow> pm \<Rightarrow> pm" where
  "handleAssertionResume p s =
     (if processInfoGet s p = None \<or> \<not> isSuspended (proc s p) then s
      else notifyAnyChange (upd_proc p (\<lambda>P. P\<lparr>isSuspended := False\<rparr>)
             (fold (resumeType p) all_types s)))"

datatype processState = kIOPMAssertionProcessStateSuspend | kIOPMAssertionProcessStateResume

text \<open>\<open>entitled\<close>: the peer holds \<open>kIOPMAssertionSuspendResumeEntitlement\<close>.\<close>

definition processSetAssertionState :: "bool \<Rightarrow> pid \<Rightarrow> processState \<Rightarrow> pm \<Rightarrow> pm" where
  "processSetAssertionState entitled p st s =
     (if \<not> entitled then s
      else if st = kIOPMAssertionProcessStateSuspend then handleAssertionSuspend p s
      else handleAssertionResume p s)"

section \<open>Effects on the abstract table\<close>

lemma core_sendAssertionTimeoutMsg [core_simps]: "core (sendAssertionTimeoutMsg i s) = core s"
  by (simp add: sendAssertionTimeoutMsg_def Let_def core_simps split: option.split cf.split)

lemma core_addNotifyCount [core_simps]: "core (addNotifyCount nm n s) = core s"
  by (cases nm) (simp_all add: core_simps)

lemma core_retainOrCreate: "core (snd (retainOrCreate p s)) = core s"
  by (auto simp: retainOrCreate_def core_simps split: prod.split dest: core_processInfoCreate)

lemma core_retainOrCreate': "retainOrCreate p s = (b, s') \<Longrightarrow> core s' = core s"
  using core_retainOrCreate [of p s] by simp

lemma core_do_assertion_notify [core_simps]: "core (snd (do_assertion_notify p nm req s)) = core s"
proof -
  obtain b s1 where r: "retainOrCreate p s = (b, s1)" by (cases "retainOrCreate p s")
  show ?thesis
    using core_retainOrCreate' [OF r]
    by (cases req; cases b) (simp_all add: do_assertion_notify_def r Let_def core_addNotifyCount
        core_upd_proc core_processInfo)
qed

lemma core_fold_same: "(\<And>x s. core (f x s) = core s) \<Longrightarrow> core (fold f xs s) = core s"
  by (rule fold_view_same)

lemma core_forStatsTypes:
  assumes "\<And>i s. core (f i s) = core s"
  shows "core (forStatsTypes sel f s) = core s"
  unfolding forStatsTypes_def
  by (rule core_fold_same) (simp add: applyToAssertionsSync_def core_fold_same [OF assms])

lemma core_clearProcStats:
  "core (upd_asn i (state_clear {kAssertionStateAddsToProcStats}) s) = core s"
  by (rule core_upd_asn_same) (simp add: core_simps)

lemma core_startActivityAggregate [core_simps]: "core (startActivityAggregate p s) = core s"
proof -
  obtain b s1 where r: "retainOrCreate p s = (b, s1)" by (cases "retainOrCreate p s")
  have f: "core (fold allocStatsBuf ps s') = core s'" for ps s'
    by (rule core_fold_same) (rule core_stats)
  have g: "core (forStatsTypes kSelectActive (\<lambda>i. updateAppStats i kAssertionOpRaise) s') = core s'" for s'
    by (rule core_forStatsTypes) (rule core_updateAppStats)
  show ?thesis
    using core_retainOrCreate' [OF r]
    unfolding startActivityAggregate_def r prod.case Let_def
    by (cases b) (simp_all only: bool.case if_distrib [of core] core_simps f g if_cancel)
qed

lemma core_stopActivityAggregate [core_simps]: "core (stopActivityAggregate p s) = core s"
proof -
  have f: "core (fold releaseStatsBuf ps s') = core s'" for ps s'
    by (rule core_fold_same) (rule core_stats)
  have g: "core (forStatsTypes kSelectAll (\<lambda>i. upd_asn i (state_clear {kAssertionStateAddsToProcStats})) s')
      = core s'" for s'
    by (rule core_forStatsTypes) (rule core_clearProcStats)
  show ?thesis
    unfolding stopActivityAggregate_def Let_def
    by (simp only: if_distrib [of core] core_simps f g if_cancel)
qed

lemma core_registrations [core_simps]:
  "core (setAssertionActivityAggregate p v s) = core s"
  "core (exitProcessInfo p s) = core s" "core (exitRegistrations p s) = core s"
  by (simp_all add: setAssertionActivityAggregate_def exitProcessInfo_def exitRegistrations_def
      Let_def core_simps)

text \<open>Releasing: the assertion leaves its list.\<close>

lemma wf_well_typed: "wf F c \<Longrightarrow> c_asn c i = Some a \<Longrightarrow> i \<notin> F \<Longrightarrow> well_typed c a"
  using wfD(5) [of F c] by (simp add: wf_types_def)

lemma acore_sel [simp]:
  "c_kassert (acore a) = kassert a" "c_timed (acore a) = (kAssertionStateTimed \<in> state a)"
  "c_inactive (acore a) = (kAssertionStateInactive \<in> state a)" "c_timeout (acore a) = timeout a"
  "c_id (acore a) = assertionId a" "c_pinfo (acore a) = pinfo a" "c_retain (acore a) = retainCnt a"
  by (simp_all add: acore_def)

lemma core_retainCnt [core_simps]:
  "core (upd_asn i (\<lambda>a. a\<lparr>retainCnt := n\<rparr>) s) = c_upd i (\<lambda>a. a\<lparr>c_retain := n\<rparr>) (core s)"
  by (rule core_upd_asn) (simp add: core_simps)

lemma c_free_upd [simp]: "c_free i (c_upd i f c) = c_free i c"
  by (rule core_eqI) (auto simp: fun_eq_iff)

lemma core_asn: "c_asn (core s) i = Some a \<Longrightarrow> acore (asn s i) = a"
  by (auto simp: core_sel asn_def)

lemma wf_list_bits:
  assumes "wf F c" "c_asn c i = Some a"
  shows "i \<in> set (activeTimed (c_lists c t)) \<Longrightarrow> c_timed a \<and> \<not> c_inactive a"
    "i \<in> set (active (c_lists c t)) \<Longrightarrow> \<not> c_timed a \<and> \<not> c_inactive a"
    "i \<in> set (inactive (c_lists c t)) \<Longrightarrow> \<not> c_timed a \<and> c_inactive a"
    "i \<in> set (suspended (c_lists c t)) \<Longrightarrow> \<not> c_timed a \<and> \<not> c_inactive a"
  using wfD(2) [OF assms(1)] assms(2) unfolding wf_bits_def cbits_def by fastforce+

lemma wf_bits_of:
  assumes "wf F c" "c_asn c i = Some a" "i \<notin> F"
  shows "\<not> (c_timed a \<and> c_inactive a)"
proof -
  have "i \<in> set (linked (c_lists c (c_kassert a)))"
    using wf_linked_iff [OF assms(1,2)] assms(3) by blast
  then show ?thesis
    using wf_list_bits [OF assms(1,2)] by auto
qed

lemma releaseUnlink_lifted:
  assumes wf: "wf F (core s)" and a: "c_asn (core s) i = Some a" and i: "i \<notin> F"
    and P: "c_pinfo a \<in> P"
  shows "lifted F P i (a\<lparr>c_timed := False, c_inactive := False\<rparr>) (core s) (core (snd (releaseUnlink i s)))"
proof -
  let ?b = "a\<lparr>c_timed := False, c_inactive := False\<rparr>"
  obtain a0 where a0: "gAssertionsArray s i = Some a0" "a = acore a0"
    using a by (auto simp: core_sel)
  have bits: "(kAssertionStateTimed \<in> state (asn s i)) = c_timed a"
    "(kAssertionStateInactive \<in> state (asn s i)) = c_inactive a"
    using a0 by (simp_all add: asn_def acore_def)
  have ty: "well_typed (core s) a" using wf_well_typed [OF wf a i] .
  have c: "core (snd (releaseUnlink i s)) = c_upd i (\<lambda>_. ?b) (c_unlink i (core s))"
    unfolding releaseUnlink_def Let_def bits using wf_bits_of [OF wf a i] a
    by (auto simp: core_simps intro!: core_eqI split: if_splits)
  show ?thesis
    unfolding c by (rule liftedI [OF wf a i _ _ _ _ _ P]) (use ty in \<open>simp_all add: well_typed_def\<close>)
qed

lemma lifted_delay:
  assumes l: "lifted F P i b c (core s)" and ff: "foreign_floats (getpid (env s)) F c"
    and f: "c_pinfo b \<noteq> getpid (env s)" and P: "getpid (env s) \<in> P"
  shows "lifted F P i b c (core (delayDisplayTurnOff s))"
proof -
  note d = l [unfolded lifted_def]
  have "foreign_floats (getpid (env s)) (insert i F) (core s)"
    using foreign_floats_keeps [OF ff] d f lifted_owner [OF l] unfolding foreign_floats_def by auto
  then have o: "wf (insert i F) (core (delayDisplayTurnOff s))"
    "keeps {} {getpid (env s)} (core s) (core (delayDisplayTurnOff s))"
    using delayDisplayTurnOff_ok d by blast+
  have k: "keeps {} P (core s) (core (delayDisplayTurnOff s))"
    using keeps_mono [OF o(2), of "{}" P] P by simp
  have "c_asn (core (delayDisplayTurnOff s)) i = Some b"
    by (rule keepsD(4) [OF o(2)]) (use d f in auto)
  moreover have "well_typed (core (delayDisplayTurnOff s)) b"
    using d keepsD(1) [OF o(2)] by (simp add: well_typed_def)
  ultimately show ?thesis
    using o(1) d keeps_trans [OF _ k] unfolding lifted_def by blast
qed

lemma releaseAssertion_lifted:
  assumes wf: "wf F (core s)" and a: "c_asn (core s) i = Some a" and i: "i \<notin> F"
    and ff: "foreign_floats (getpid (env s)) F (core s)"
    and P: "c_pinfo a \<in> P" "getpid (env s) \<in> P"
  shows "lifted F P i (a\<lparr>c_timed := False, c_inactive := False\<rparr>) (core s) (core (releaseAssertion i h s))"
proof -
  let ?b = "a\<lparr>c_timed := False, c_inactive := False\<rparr>"
  obtain w s1 where r: "releaseUnlink i s = (w, s1)" by (cases "releaseUnlink i s")
  have l: "lifted F P i ?b (core s) (core s1)"
    using releaseUnlink_lifted [OF wf a i P(1)] r by simp
  then have e: "env s1 = env s" using keepsD(2) [of "{}" P "core s" "core s1"]
    by (simp add: lifted_def core_sel)
  have "acore (asn s1 i) = ?b" by (rule core_asn) (use l in \<open>simp add: lifted_def\<close>)
  then have p: "pinfo (asn s1 i) = c_pinfo ?b" by (metis acore_sel(6))
  let ?go = "w \<and> kassert (asn s1 i) = kPreventDisplaySleepType \<and> pinfo (asn s1 i) \<noteq> getpid (env s1)"
  have "core (releaseAssertion i h s) = core (if ?go then delayDisplayTurnOff s1 else s1)"
    by (simp add: releaseAssertion_def Let_def r core_simps)
  then show ?thesis
    using l lifted_delay [OF l] ff P(2) p e by (cases ?go) auto
qed

lemma core_releaseMemory:
  assumes "wf F (core s)" "c_asn (core s) i = Some a"
  shows "core (releaseAssertionMemory i l s) = c_free i (core s)"
proof -
  have i: "i < kMaxAssertions" "c_id a = ID_FROM_INDEX i"
    using wfD(4) [OF assms(1)] assms(2) by (auto simp: wf_ids_def)
  obtain a0 where a0: "gAssertionsArray s i = Some a0" "a = acore a0"
    using assms(2) by (auto simp: core_sel)
  then have ix: "INDEX_FROM_ID (assertionId (asn s i)) = i"
    using i by (simp add: asn_def acore_def)
  show ?thesis
    using i(1) a0 by (simp add: releaseAssertionMemory_def Let_def ix core_simps core_free split: option.split)
qed

lemma lifted_free:
  assumes l: "lifted F P i b c (core s)"
  shows "wf F (core (releaseAssertionMemory i act s)) \<and>
    keeps {i} P c (core (releaseAssertionMemory i act s)) \<and>
    c_asn (core (releaseAssertionMemory i act s)) i = None"
proof -
  note d = l [unfolded lifted_def]
  have c: "core (releaseAssertionMemory i act s) = c_free i (core s)"
    using core_releaseMemory d by blast
  have "keeps {i} P (core s) (c_free i (core s))"
    by (rule keeps_free [OF lifted_owner [OF l]]) (use d in auto)
  moreover have "keeps {i} P c (core s)" using keeps_mono [of "{}" P c "core s" "{i}" P] d by simp
  moreover have "wf F (c_free i (core s))" using wf_free [of "insert i F" "core s" i] d by simp
  ultimately show ?thesis unfolding c using keeps_trans by auto
qed

end
