(* ===== verification/AssertionLife.thy ===== *)
theory AssertionLife
  imports AssertionOps
begin

unbundle bit_operations_syntax

text \<open>
  Every operation of AssertionOps keeps the assertion table well formed, and what it does to
  the assertions of the table: the last release frees exactly one, the exit of a process
  frees exactly its own, suspension and resumption move exactly those of the process.
\<close>

section \<open>Retain and release\<close>

lemma keeps_widen: "keeps {} P c c' \<Longrightarrow> P \<subseteq> Q \<Longrightarrow> keeps X Q c c'"
  by (rule keeps_mono) auto

text \<open>The reference count may change on a list: no clause of the invariant reads it.\<close>

definition recount :: "nat \<Rightarrow> (u32 \<Rightarrow> u32) \<Rightarrow> core \<Rightarrow> core" where
  "recount i f = c_upd i (\<lambda>a. a\<lparr>c_retain := f (c_retain a)\<rparr>)"

lemma core_recount:
  "core (upd_asn i (\<lambda>a. a\<lparr>retainCnt := f (retainCnt a)\<rparr>) s) = recount i f (core s)"
  unfolding recount_def by (rule core_upd_asn) (simp add: core_simps)

lemma wf_recount:
  assumes "wf F c"
  shows "wf F (recount i f c)"
proof -
  have b: "cbits (recount i f c) = cbits c" "ctimeout (recount i f c) = ctimeout c"
    by (auto simp: fun_eq_iff cbits_def ctimeout_def recount_def split: option.split)
  have "(\<exists>a. c_asn (recount i f c) j = Some a \<and> c_kassert a = t) \<longleftrightarrow>
      (\<exists>a. c_asn c j = Some a \<and> c_kassert a = t)" for j t
    by (cases "c_asn c i") (auto simp: recount_def)
  moreover have "c_lists (recount i f c) = c_lists c" by (simp add: recount_def)
  ultimately have "wf_links F (recount i f c)"
    using assms by (simp add: wf_def wf_links_def del: set_linked) metis
  moreover have "wf_bits (recount i f c)" "wf_sorted (recount i f c)"
    using assms by (simp_all add: wf_def wf_bits_def wf_sorted_def b) (simp_all add: recount_def)
  moreover have "wf_ids (recount i f c)"
    using assms by (auto simp: wf_def wf_ids_def recount_def split: if_splits)
  moreover have "wf_types F (recount i f c)"
    using assms by (auto simp: wf_def wf_types_def well_typed_def recount_def split: if_splits)
  ultimately show ?thesis by (simp add: wf_def)
qed

lemma keeps_recount: "owner c i = Some p \<Longrightarrow> p \<in> P \<Longrightarrow> keeps X P c (recount i f c)"
  unfolding recount_def by (rule keeps_upd) simp_all

lemma env_recount: "c_env (recount i f c) = c_env c"
  by (simp add: recount_def)

lemma lookup_owner: "lookupAssertion s p aid = (kIOReturnSuccess, Some i) \<Longrightarrow> owner (core s) i = Some p"
  using lookup_Some(4) by (fastforce simp: owner_def core_sel)

lemma doRetain_ok:
  assumes wf: "wf {} (core s)" and r: "doRetain p aid s = (rn, s')"
  shows "wf {} (core s') \<and> keeps {} {p} (core s) (core s')"
proof (cases "snd (lookupAssertion s p aid)")
  case None
  then have "s' = s" using r by (simp add: doRetain_def split: prod.splits)
  then show ?thesis using wf by simp
next
  case (Some i)
  then have lk: "lookupAssertion s p aid = (kIOReturnSuccess, Some i)"
    using lookup_Some(1) by (metis prod.collapse)
  have "core s' = recount i (\<lambda>n. n + 1) (core s)"
    using r by (auto simp: doRetain_def lk Let_def core_simps simp flip: core_recount)
  then show ?thesis
    using wf_recount [OF wf] keeps_recount [OF lookup_owner [OF lk], of "{p}"] by simp
qed

lemma releaseLast_ok:
  assumes wf: "wf F (core s)" and a: "c_asn (core s) i = Some a" and i: "i \<notin> F"
    and ff: "foreign_floats (getpid (env s)) F (core s)"
    and P: "c_pinfo a \<in> P" "getpid (env s) \<in> P"
  shows "wf F (core (releaseLast i s)) \<and> keeps {i} P (core s) (core (releaseLast i s)) \<and>
    c_asn (core (releaseLast i s)) i = None"
proof -
  let ?s1 = "releaseAssertion i True s"
  let ?s2 = "if activeAsyncAssertion (proc ?s1 (pinfo (asn ?s1 i))) \<noteq> 0
    then upd_proc (pinfo (asn ?s1 i)) (\<lambda>P. P\<lparr>activeAsyncAssertion := 0\<rparr>) ?s1 else ?s1"
  have "core ?s2 = core ?s1" by (simp add: core_simps)
  then have l: "lifted F P i (a\<lparr>c_timed := False, c_inactive := False\<rparr>) (core s) (core ?s2)"
    using releaseAssertion_lifted [OF wf a i ff P, of True] by simp
  show ?thesis
    using lifted_free [OF l, of kAReleaseLog] by (simp add: releaseLast_def Let_def core_simps)
qed

text \<open>The outcome of \<open>doRelease\<close>.\<close>

lemma word_gt_1_iff: "(m::u32) > 1 \<longleftrightarrow> m \<noteq> 0 \<and> m \<noteq> 1"
proof -
  have "m > 1 \<longleftrightarrow> unat m > 1" by (simp add: word_less_nat_alt)
  also have "\<dots> \<longleftrightarrow> unat m \<noteq> 0 \<and> unat m \<noteq> 1" by auto
  finally show ?thesis by (simp add: word_unat_eq_iff)
qed

lemma doRelease_cases:
  assumes "doRelease p aid s = ((r, n), s')"
  obtains i where "lookupAssertion s p aid = (kIOReturnSuccess, Some i)" "r = kIOReturnSuccess"
      "n = Some (retainCnt (asn s i) - 1)" "retainCnt (asn s i) > 1"
      "s' = upd_asn i (\<lambda>a. a\<lparr>retainCnt := retainCnt a - 1\<rparr>) s"
  | i where "lookupAssertion s p aid = (kIOReturnSuccess, Some i)" "r = kIOReturnSuccess"
      "n = Some 0" "retainCnt (asn s i) \<le> 1"
      "s' = releaseLast i (if retainCnt (asn s i) \<noteq> 0
         then upd_asn i (\<lambda>a. a\<lparr>retainCnt := retainCnt a - 1\<rparr>) s else s)"
  | "snd (lookupAssertion s p aid) = None" "r = fst (lookupAssertion s p aid)" "n = None" "s' = s"
proof (cases "lookupAssertion s p aid")
  case (Pair r0 io)
  show ?thesis
  proof (cases io)
    case None
    then have "((r, n), s') = ((r0, None), s)"
      using assms by (simp only: doRelease_def Pair prod.case option.case)
    then show ?thesis by (intro that(3)) (simp_all add: Pair None)
  next
    case (Some i)
    let ?m = "retainCnt (asn s i)"
    have lk: "lookupAssertion s p aid = (kIOReturnSuccess, Some i)"
      using Pair Some lookup_Some(1) by simp
    have live: "gAssertionsArray s i \<noteq> None" using lookup_Some(4) [OF lk] by auto
    then have dec: "retainCnt (asn (upd_asn i (\<lambda>a. a\<lparr>retainCnt := retainCnt a - 1\<rparr>) s) i) = ?m - 1"
      by (auto simp: asn_def upd_asn_def)
    have one: "?m > 1 \<longleftrightarrow> ?m \<noteq> 0 \<and> ?m - 1 \<noteq> 0"
      by (simp add: word_gt_1_iff)
    let ?s1 = "if ?m \<noteq> 0 then upd_asn i (\<lambda>a. a\<lparr>retainCnt := retainCnt a - 1\<rparr>) s else s"
    let ?n = "retainCnt (asn ?s1 i)"
    have d: "((r, n), s') = ((kIOReturnSuccess, Some ?n), if ?n \<noteq> 0 then ?s1 else releaseLast i ?s1)"
      unfolding assms [symmetric] by (simp only: doRelease_def lk prod.case option.case Let_def)
    have n: "?n = (if ?m \<noteq> 0 then ?m - 1 else 0)" using dec by simp
    show ?thesis
    proof (cases "?m > 1")
      case True
      then have m: "?m \<noteq> 0" "?m - 1 \<noteq> 0" using one by simp_all
      then have "?n = ?m - 1" "?n \<noteq> 0" using n by simp_all
      then have "r = kIOReturnSuccess" "n = Some (?m - 1)" "s' = ?s1" using d by simp_all
      moreover have "?s1 = upd_asn i (\<lambda>a. a\<lparr>retainCnt := retainCnt a - 1\<rparr>) s" using m(1) by (rule if_P)
      ultimately show ?thesis by (intro that(1) [OF lk _ _ True]) simp_all
    next
      case False
      then have "?n = 0" using one n by auto
      then have "r = kIOReturnSuccess" "n = Some 0" "s' = releaseLast i ?s1" using d by simp_all
      moreover have "?m \<le> 1" using False by (rule leI)
      ultimately show ?thesis by (intro that(2) [OF lk])
    qed
  qed
qed

lemma doRelease_ok:
  assumes wf: "wf {} (core s)" and r: "doRelease p aid s = ((r, n), s')"
  shows "wf {} (core s') \<and> keeps {INDEX_FROM_ID aid} {p, getpid (env s)} (core s) (core s')"
  using r
proof (cases rule: doRelease_cases)
  case (1 i)
  then have "core s' = recount i (\<lambda>n. n - 1) (core s)" by (simp flip: core_recount)
  then show ?thesis
    using wf_recount [OF wf] keeps_recount [OF lookup_owner [OF 1(1)], of "{p, getpid (env s)}"] by simp
next
  case (2 i)
  define s0 where "s0 = (if retainCnt (asn s i) \<noteq> 0
    then upd_asn i (\<lambda>a. a\<lparr>retainCnt := retainCnt a - 1\<rparr>) s else s)"
  let ?P = "{p, getpid (env s)}"
  have c: "core s0 = core s \<or> core s0 = recount i (\<lambda>n. n - 1) (core s)"
    by (simp add: s0_def flip: core_recount)
  have e: "env s0 = env s" by (simp add: s0_def upd_asn_def)
  have w0: "wf {} (core s0)" using c wf wf_recount by metis
  have k0: "keeps {i} ?P (core s) (core s0)"
    using c keeps_recount [OF lookup_owner [OF 2(1)], of ?P] by auto
  have s': "s' = releaseLast i s0" using 2(5) by (simp add: s0_def)
  have "owner (core s0) i = Some p"
    using lookup_owner [OF 2(1)] c by (auto simp: recount_def)
  then obtain a where a: "c_asn (core s0) i = Some a" "c_pinfo a = p" by (auto simp: owner_def)
  from releaseLast_ok [OF w0 a(1), of ?P] have
    "wf {} (core s') \<and> keeps {i} ?P (core s0) (core s')"
    using a(2) by (simp add: e s' foreign_floats_def)
  then show ?thesis using keeps_trans [OF k0] lookup_Some(2) [OF 2(1)] by simp
next
  case 3
  then show ?thesis using wf by simp
qed

section \<open>Exit of a process\<close>

text \<open>\<open>dl p c t\<close>: the assertions of process \<open>p\<close> linked under type \<open>t\<close>.\<close>

definition dl :: "pid \<Rightarrow> core \<Rightarrow> kerAssertionType \<Rightarrow> nat set" where
  "dl p c t = {j \<in> set (linked (c_lists c t)). owner c j = Some p}"

lemma where_is_linked: "where_is j l = where_is j l' \<Longrightarrow> j \<in> set (linked l) \<longleftrightarrow> j \<in> set (linked l')"
  by (auto simp: where_is_def)

lemma dl_keeps:
  assumes "keeps X P c c'" "p \<notin> P"
  shows "dl p c' t = dl p c t"
proof -
  have o: "owner c' j = Some p \<longleftrightarrow> owner c j = Some p" for j
  proof
    assume "owner c' j = Some p"
    then show "owner c j = Some p" using keepsD(3) [OF assms(1), of j] assms(2) by auto
  next
    assume "owner c j = Some p"
    then show "owner c' j = Some p"
      using keepsD(4) [OF assms(1), of j] assms(2) by (auto simp: owner_def)
  qed
  have "j \<in> set (linked (c_lists c' t)) \<longleftrightarrow> j \<in> set (linked (c_lists c t))" if "owner c j = Some p" for j
    using where_is_linked [OF keepsD(5) [OF assms(1), of j _ t]] that assms(2)
    by (auto simp: owner_def simp del: set_linked)
  then show ?thesis using o by (auto simp: dl_def simp del: set_linked)
qed

lemma releaseUnlink_lists:
  "c_lists (core (snd (releaseUnlink i s))) = (\<lambda>t. remove_from_lists i (c_lists (core s) t))"
  by (simp add: releaseUnlink_def Let_def core_simps)

lemma releaseUnlink_owner: "owner (core (snd (releaseUnlink i s))) = owner (core s)"
  by (simp add: releaseUnlink_def Let_def core_simps)

lemma releaseAssertion_dl:
  assumes wf: "wf F (core s)" and a: "c_asn (core s) i = Some a" and i: "i \<notin> F"
    and ff: "foreign_floats (getpid (env s)) F (core s)" and p: "p \<noteq> getpid (env s)"
  shows "dl p (core (releaseAssertion i h s)) t = dl p (core s) t - {i}"
proof -
  obtain w s1 where r: "releaseUnlink i s = (w, s1)" by (cases "releaseUnlink i s")
  let ?P = "{c_pinfo a}"
  let ?b = "a\<lparr>c_timed := False, c_inactive := False\<rparr>"
  have l: "lifted F ?P i ?b (core s) (core s1)"
    using releaseUnlink_lifted [OF wf a i, of ?P] r by simp
  then have e: "env s1 = env s" using keepsD(2) [of "{}" ?P "core s" "core s1"]
    by (simp add: lifted_def core_sel)
  have "acore (asn s1 i) = ?b" by (rule core_asn) (use l in \<open>simp add: lifted_def\<close>)
  then have p1: "pinfo (asn s1 i) = c_pinfo a"
    by (metis acore_sel(6) acore.select_convs(6) acore.surjective acore.update_convs(2,3))
  have d1: "dl p (core s1) t = dl p (core s) t - {i}"
    using releaseUnlink_lists [of i s] releaseUnlink_owner [of i s] r
    by (auto simp: dl_def simp del: set_linked)
  let ?go = "w \<and> kassert (asn s1 i) = kPreventDisplaySleepType \<and> pinfo (asn s1 i) \<noteq> getpid (env s1)"
  have c: "core (releaseAssertion i h s) = core (if ?go then delayDisplayTurnOff s1 else s1)"
    by (simp add: releaseAssertion_def Let_def r core_simps)
  show ?thesis
  proof (cases ?go)
    case True
    have "foreign_floats (getpid (env s1)) (insert i F) (core s1)"
      using foreign_floats_keeps [OF ff, of ?P "core s1"] l True p1 lifted_owner [OF l] e
      unfolding foreign_floats_def lifted_def by auto
    then have "keeps {} {getpid (env s1)} (core s1) (core (delayDisplayTurnOff s1))"
      using delayDisplayTurnOff_ok l unfolding lifted_def by blast
    then show ?thesis using dl_keeps p e d1 True c by auto
  next
    case False
    then show ?thesis using c d1 by auto
  qed
qed

text \<open>The walk over one type: the released assertions float, all of them the process's own.\<close>

definition exitInv :: "pid \<Rightarrow> core \<Rightarrow> nat list \<times> pm \<Rightarrow> bool" where
  "exitInv p c ls \<longleftrightarrow>
     (case ls of (L, s) \<Rightarrow>
        wf (set L) (core s) \<and> distinct L \<and> (\<forall>j \<in> set L. owner c j = Some p) \<and>
        keeps {} {p, getpid (c_env c)} c (core s) \<and>
        (\<forall>u. dl p (core s) u = dl p c u - set L))"

lemma keeps_env: "keeps X P (core s) (core s') \<Longrightarrow> env s' = env s"
  using keepsD(2) [of X P "core s" "core s'"] by (simp add: core_sel)

lemma exitStep_inv:
  assumes inv: "exitInv p c (L, s)" and p: "p \<noteq> getpid (c_env c)"
    and i: "owner c i \<noteq> None" "i \<notin> set L"
  shows "exitInv p c (exitStep p i (L, s)) \<and>
    fst (exitStep p i (L, s)) = (if owner c i = Some p then i # L else L)"
proof -
  have wf: "wf (set L) (core s)" and k: "keeps {} {p, getpid (c_env c)} c (core s)"
    and L: "\<forall>j \<in> set L. owner c j = Some p" and d: "\<forall>u. dl p (core s) u = dl p c u - set L"
    using inv by (auto simp: exitInv_def)
  have e: "env s = c_env c" using keepsD(2) [OF k] by (simp add: core_sel)
  obtain q where q: "owner c i = Some q" using i(1) by blast
  then have "owner (core s) i = Some q" using keeps_owner [OF k] by blast
  then obtain a where a: "c_asn (core s) i = Some a" "c_pinfo a = q" by (auto simp: owner_def)
  have pi: "pinfo (asn s i) = q" using core_asn [OF a(1)] a(2) by (metis acore_sel(6))
  show ?thesis
  proof (cases "q = p")
    case False
    then show ?thesis using inv pi q by (simp add: exitStep_def)
  next
    case True
    have ff: "foreign_floats (getpid (env s)) (set L) (core s)"
      using L p keeps_owner [OF k] e by (auto simp: foreign_floats_def)
    let ?P = "{p, getpid (c_env c)}"
    have l: "lifted (set L) ?P i (a\<lparr>c_timed := False, c_inactive := False\<rparr>) (core s)
        (core (releaseAssertion i False s))"
      using releaseAssertion_lifted [OF wf a(1) i(2) ff, of ?P False] a(2) True e by simp
    have d': "dl p (core (releaseAssertion i False s)) u = dl p (core s) u - {i}" for u
      using releaseAssertion_dl [OF wf a(1) i(2) ff] p e by simp
    have "exitInv p c (i # L, releaseAssertion i False s)"
      using inv l L q True i(2) d d' keeps_trans [OF k, of "core (releaseAssertion i False s)"]
      by (auto simp: exitInv_def lifted_def)
    then show ?thesis using pi q True by (simp add: exitStep_def)
  qed
qed

lemma exitStep_fold:
  assumes "exitInv p c (L, s)" and "p \<noteq> getpid (c_env c)" and "distinct xs"
    and "\<forall>i \<in> set xs. owner c i \<noteq> None \<and> i \<notin> set L"
  shows "exitInv p c (fold (exitStep p) xs (L, s)) \<and>
    set (fst (fold (exitStep p) xs (L, s))) = set L \<union> {i \<in> set xs. owner c i = Some p}"
  using assms
proof (induction xs arbitrary: L s)
  case Nil
  then show ?case by simp
next
  case (Cons i xs)
  obtain L' s' where st: "exitStep p i (L, s) = (L', s')" by (cases "exitStep p i (L, s)")
  have one: "exitInv p c (L', s')" "L' = (if owner c i = Some p then i # L else L)"
    using exitStep_inv [OF Cons.prems(1,2), of i] Cons.prems(4) st by auto
  have "\<forall>j \<in> set xs. owner c j \<noteq> None \<and> j \<notin> set L'"
    using Cons.prems(3,4) one(2) by auto
  from Cons.IH [OF one(1) Cons.prems(2) _ this] show ?case
    using Cons.prems(3) one(2) st by auto
qed

text \<open>Freeing the released assertions.\<close>

lemma freeAll:
  assumes "wf (set L) (core s)" and "distinct L" and "\<forall>j \<in> set L. owner (core s) j = Some p"
    and "p \<in> P"
  shows "wf {} (core (fold (\<lambda>i. releaseAssertionMemory i act) L s)) \<and>
    keeps UNIV P (core s) (core (fold (\<lambda>i. releaseAssertionMemory i act) L s)) \<and>
    (\<forall>u. dl p (core (fold (\<lambda>i. releaseAssertionMemory i act) L s)) u \<subseteq> dl p (core s) u)"
  using assms
proof (induction L arbitrary: s)
  case Nil
  then show ?case by simp
next
  case (Cons i L)
  let ?s = "releaseAssertionMemory i act s"
  have o: "owner (core s) i = Some p" using Cons.prems(3) by simp
  then obtain a where a: "c_asn (core s) i = Some a" by (auto simp: owner_def)
  have c: "core ?s = c_free i (core s)" by (rule core_releaseMemory [OF Cons.prems(1) a])
  have w: "wf (set L) (core ?s)"
    using wf_free [OF Cons.prems(1), of i] Cons.prems(2) by (simp add: c insert_Diff_if)
  have k: "keeps UNIV P (core s) (core ?s)"
    unfolding c by (rule keeps_free [OF o Cons.prems(4)]) simp
  have d: "dl p (core ?s) u \<subseteq> dl p (core s) u" for u
    by (auto simp: c dl_def simp del: set_linked)
  have "\<forall>j \<in> set L. owner (core ?s) j = Some p"
    using Cons.prems(2,3) by (auto simp: c)
  with Cons.IH [OF w _ this Cons.prems(4)] Cons.prems(2)
  have "wf {} (core (fold (\<lambda>i. releaseAssertionMemory i act) L ?s)) \<and>
    keeps UNIV P (core ?s) (core (fold (\<lambda>i. releaseAssertionMemory i act) L ?s)) \<and>
    (\<forall>u. dl p (core (fold (\<lambda>i. releaseAssertionMemory i act) L ?s)) u \<subseteq> dl p (core ?s) u)"
    by simp
  then show ?case using keeps_trans [OF k] d by fastforce
qed

lemma wf_selected:
  assumes "wf {} c"
  shows "distinct (selected sel (c_lists c t))"
    and "i \<in> set (selected sel (c_lists c t)) \<Longrightarrow> \<exists>a. c_asn c i = Some a \<and> c_kassert a = t"
proof -
  have d: "distinct (linked (c_lists c t))" using wfD(1) [OF assms] by (simp add: wf_links_def)
  show "distinct (selected sel (c_lists c t))"
    using d by (cases sel) (auto simp: linked_def)
  have "set (selected sel (c_lists c t)) \<subseteq> set (linked (c_lists c t))" by (cases sel) auto
  then show "i \<in> set (selected sel (c_lists c t)) \<Longrightarrow> \<exists>a. c_asn c i = Some a \<and> c_kassert a = t"
    using wf_linked_live [OF assms] by blast
qed

lemma wf_selected_owner:
  "wf {} c \<Longrightarrow> \<forall>i \<in> set (selected sel (c_lists c t)). owner c i \<noteq> None"
  using wf_selected(2) [of c _ sel t] unfolding owner_def by fastforce

lemma core_lists: "tlists (gAssertionTypes s t) = c_lists (core s) t"
  by (simp add: core_sel)

lemma exitType_ok:
  assumes wf: "wf {} (core s)" and p: "p \<noteq> getpid (env s)"
  shows "wf {} (core (exitType p t s)) \<and>
    keeps UNIV {p, getpid (env s)} (core s) (core (exitType p t s)) \<and>
    dl p (core (exitType p t s)) t = {} \<and>
    (\<forall>u. dl p (core (exitType p t s)) u \<subseteq> dl p (core s) u)"
proof -
  let ?xs = "selected kSelectAll (tlists (gAssertionTypes s t))"
  let ?P = "{p, getpid (env s)}"
  obtain L s1 where f: "fold (exitStep p) ?xs ([], s) = (L, s1)" by fastforce
  have e: "c_env (core s) = env s" by (simp add: core_sel)
  have "exitInv p (core s) ([], s)" using wf by (simp add: exitInv_def)
  moreover have "distinct ?xs" "\<forall>i \<in> set ?xs. owner (core s) i \<noteq> None \<and> i \<notin> set []"
    using wf_selected(1) [OF wf] wf_selected_owner [OF wf]
    by (simp_all add: core_lists del: selected.simps)
  ultimately have inv: "exitInv p (core s) (L, s1)"
    and L: "set L = {i \<in> set ?xs. owner (core s) i = Some p}"
    using exitStep_fold [of p "core s" "[]" s ?xs] p f e by auto
  have "set ?xs = set (linked (c_lists (core s) t))" by (auto simp: core_lists)
  then have z: "dl p (core s1) t = {}"
    using inv L by (auto simp: exitInv_def dl_def simp del: set_linked)
  let ?s2 = "callHandler t kAssertionOpRelease s1"
  have c2: "core ?s2 = core s1" by (rule core_callHandler)
  have k1: "keeps {} ?P (core s) (core s1)" using inv e by (simp add: exitInv_def)
  have "\<forall>j \<in> set L. owner (core ?s2) j = Some p"
    using inv keeps_owner [OF k1] c2 by (simp add: exitInv_def)
  then have fr: "wf {} (core (exitType p t s)) \<and> keeps UNIV ?P (core s1) (core (exitType p t s)) \<and>
    (\<forall>u. dl p (core (exitType p t s)) u \<subseteq> dl p (core s1) u)"
    using freeAll [of L ?s2 p ?P kAClientDeathLog] inv c2 f
    by (simp add: exitInv_def exitType_def)
  moreover have "dl p (core s1) u \<subseteq> dl p (core s) u" for u
    using inv by (auto simp: exitInv_def)
  ultimately show ?thesis
    using z keeps_trans [OF keeps_widen [OF k1, of ?P UNIV]] by blast
qed

lemma exitTypes_ok:
  assumes "wf {} (core s)" and "p \<noteq> getpid (env s)"
  shows "wf {} (core (fold (exitType p) ts s)) \<and>
    keeps UNIV {p, getpid (env s)} (core s) (core (fold (exitType p) ts s)) \<and>
    (\<forall>u. dl p (core (fold (exitType p) ts s)) u \<subseteq> dl p (core s) u) \<and>
    (\<forall>t \<in> set ts. dl p (core (fold (exitType p) ts s)) t = {})"
  using assms
proof (induction ts arbitrary: s)
  case Nil
  then show ?case by simp
next
  case (Cons t ts)
  note one = exitType_ok [OF Cons.prems, of t]
  have e: "env (exitType p t s) = env s" using keeps_env one by blast
  have "p \<noteq> getpid (env (exitType p t s))" using Cons.prems(2) e by simp
  note ih = Cons.IH [OF conjunct1 [OF one] this, unfolded e]
  have k: "keeps UNIV {p, getpid (env s)} (core s) (core (fold (exitType p) ts (exitType p t s)))"
    by (rule keeps_trans [of _ _ _ "core (exitType p t s)"]) (use one ih in auto)
  show ?case using one ih k by fastforce
qed

text \<open>
  The exit of a process other than the daemon: every assertion of the process is freed, the
  table stays well formed, and assertions of third processes are not touched.
\<close>

lemma HandleProcessExit_ok:
  assumes wf: "wf {} (core s)" and p: "p \<noteq> getpid (env s)"
  shows "wf {} (core (HandleProcessExit p s))"
    and "keeps UNIV {p, getpid (env s)} (core s) (core (HandleProcessExit p s))"
    and "owner (core (HandleProcessExit p s)) j \<noteq> Some p"
proof -
  let ?s1 = "exitRegistrations p (exitProcessInfo p s)"
  have c: "core ?s1 = core s" by (simp add: core_simps)
  have e: "env ?s1 = env s" using keeps_env [of "{}" "{}" s ?s1] c by simp
  have h: "core (HandleProcessExit p s) = core (fold (exitType p) all_types ?s1)"
    by (simp add: HandleProcessExit_def core_notify)
  note all = exitTypes_ok [of ?s1 p all_types, unfolded c e, OF wf p]
  show w: "wf {} (core (HandleProcessExit p s))"
    and "keeps UNIV {p, getpid (env s)} (core s) (core (HandleProcessExit p s))"
    using all by (simp_all add: h)
  show "owner (core (HandleProcessExit p s)) j \<noteq> Some p"
  proof
    assume o: "owner (core (HandleProcessExit p s)) j = Some p"
    from wf_all_linked [OF w this] obtain t
      where "j \<in> set (linked (c_lists (core (HandleProcessExit p s)) t))" by blast
    then have "j \<in> dl p (core (HandleProcessExit p s)) t" using o by (simp add: dl_def)
    then show False using all by (simp add: h)
  qed
qed

section \<open>Suspension of a process\<close>

lemma core_props_state:
  assumes "b \<noteq> kAssertionStateTimed" "b \<noteq> kAssertionStateInactive"
  shows "core (upd_asn i (\<lambda>a. a\<lparr>state := insert b (state a),
      props := (props a)(kIOPMAssertionIsStateSuspendedKey \<mapsto> v)\<rparr>) s) = core s"
    "core (upd_asn i (\<lambda>a. a\<lparr>state := state a - {b},
      props := (props a)(kIOPMAssertionIsStateSuspendedKey \<mapsto> v)\<rparr>) s) = core s"
  using assms by (intro core_upd_asn_same; simp add: acore_def type_of_props_def; blast)+

lemma suspendAssertion_lifted:
  assumes wf: "wf F (core s)" and a: "c_asn (core s) i = Some a" and i: "i \<notin> F"
    and ff: "foreign_floats (getpid (env s)) F (core s)"
    and P: "c_pinfo a \<in> P" "getpid (env s) \<in> P"
  shows "lifted F P i (a\<lparr>c_timed := False, c_inactive := False\<rparr>) (core s) (core (suspendAssertion i s))"
proof -
  define s1 where "s1 = (if timeout (asn s i) \<noteq> 0 \<and> timeout (asn s i) > currTime s then
      upd_asn i (prop_set kPMAssertionTimeoutOnResumeKey
        (CFNumber (u64_rat (timeout (asn s i) - currTime s)))) s else s)"
  have c: "core s1 = core s" by (simp add: s1_def core_upd_asn_same core_simps)
  have e: "env s1 = env s" by (simp add: s1_def upd_asn_def)
  have "core (suspendAssertion i s) = core (releaseAssertion i False s1)"
    unfolding suspendAssertion_def Let_def s1_def [symmetric]
    by (simp add: core_emit core_props_state)
  then show ?thesis
    using releaseAssertion_lifted [of F s1 i a P False] wf a i ff P by (simp add: c e)
qed

text \<open>
  One step moves the assertion to the suspended list of its type; the other assertions of
  processes other than the daemon stay where they are.
\<close>

lemma suspendStep_ok:
  assumes wf: "wf {} (core s)" and a: "c_asn (core s) i = Some a"
  shows "wf {} (core (suspendStep p i s)) \<and>
    keeps {} {c_pinfo a, getpid (env s)} (core s) (core (suspendStep p i s))"
proof (cases "concerns p (asn s i)")
  case False
  then show ?thesis using wf by (simp add: suspendStep_def)
next
  case True
  let ?P = "{c_pinfo a, getpid (env s)}"
  let ?b = "a\<lparr>c_timed := False, c_inactive := False\<rparr>"
  have t: "kassert (asn s i) = c_kassert a" using core_asn [OF a] by (metis acore_sel(1))
  have l: "lifted {} ?P i ?b (core s) (core (suspendAssertion i s))"
    by (rule suspendAssertion_lifted [OF wf a]) simp_all
  have "core (suspendStep p i s) = c_push_suspended i (c_kassert a) (core (suspendAssertion i s))"
    using True by (simp add: suspendStep_def t core_upd_lists c_push_suspended_def)
  then show ?thesis using lifted_insert(4) [OF l, of "c_kassert a"] by simp
qed

lemma fold_suspendStep_ok:
  assumes "wf {} (core s)" and "\<forall>i \<in> set xs. owner (core s) i \<noteq> None"
  shows "wf {} (core (fold (suspendStep p) xs s)) \<and>
    keeps {} UNIV (core s) (core (fold (suspendStep p) xs s))"
  using assms
proof (induction xs arbitrary: s)
  case Nil
  then show ?case by simp
next
  case (Cons i xs)
  obtain a where a: "c_asn (core s) i = Some a" using Cons.prems(2) by (auto simp: owner_def)
  note one = suspendStep_ok [OF Cons.prems(1) a, of p]
  then have k: "keeps {} UNIV (core s) (core (suspendStep p i s))" using keeps_widen by blast
  have "\<forall>j \<in> set xs. owner (core (suspendStep p i s)) j \<noteq> None"
    using Cons.prems(2) keeps_owner [OF k] by fastforce
  from Cons.IH [OF conjunct1 [OF one] this] show ?case using keeps_trans [OF k] by simp
qed

lemma suspendType_ok:
  assumes "wf {} (core s)"
  shows "wf {} (core (suspendType p t s)) \<and> keeps {} UNIV (core s) (core (suspendType p t s))"
  using fold_suspendStep_ok [OF assms wf_selected_owner [OF assms]]
  by (simp only: suspendType_def applyToAssertionsSync_def core_callHandler core_lists)

lemma fold_types_ok:
  assumes "\<And>t s. wf {} (core s) \<Longrightarrow> wf {} (core (f t s)) \<and> keeps X UNIV (core s) (core (f t s))"
    and "wf {} (core s)"
  shows "wf {} (core (fold f ts s)) \<and> keeps X UNIV (core s) (core (fold f ts s))"
  using assms(2)
proof (induction ts arbitrary: s)
  case Nil
  then show ?case by simp
next
  case (Cons t ts)
  then show ?case using assms(1) [OF Cons.prems, of t] keeps_trans by (simp, blast)
qed

lemma handleAssertionSuspend_ok:
  assumes "wf {} (core s)"
  shows "wf {} (core (handleAssertionSuspend p s)) \<and>
    keeps {} UNIV (core s) (core (handleAssertionSuspend p s))"
  using fold_types_ok [of "suspendType p" "{}" s all_types, OF suspendType_ok assms] assms
  by (simp add: handleAssertionSuspend_def core_simps)

section \<open>Resumption of a process\<close>

text \<open>A floating assertion with both bits clear is linked again; nothing else changes.\<close>

lemma core_timeout:
  "core (upd_asn i (\<lambda>a. a\<lparr>timeout := n\<rparr>) s) = c_upd i (\<lambda>a. a\<lparr>c_timeout := n\<rparr>) (core s)"
  by (rule core_upd_asn) (simp add: acore_def)

lemma core_resume:
  "\<exists>n. core (resumeAssertion i s) \<in> {c_insert_inactive i (kassert (asn s i)) (core s),
     c_insert_active i (kassert (asn s i)) (core s),
     c_insert_timed i (kassert (asn s i)) (c_upd i (\<lambda>a. a\<lparr>c_timeout := n\<rparr>) (core s))}"
proof -
  let ?t = "kassert (asn s i)"
  define s1 where "s1 = upd_asn i (\<lambda>a. prop_set kIOPMAssertionIsStateSuspendedKey (CFBoolean False)
      (state_clear {kAssertionStateSuspended} a)) s"
  have c: "core s1 = core s" by (simp add: s1_def core_props_state)
  have t: "kassert (asn s1 i) = ?t"
    by (simp add: s1_def asn_def upd_asn_def split: option.split)
  have r: "core (upd_asn i (prop_remove kPMAssertionTimeoutOnResumeKey) s') = core s'" for s'
    by (rule core_upd_asn_same) (simp add: core_simps)
  have "\<exists>n. core (resumeActive i ?t s1) \<in> {c_insert_active i ?t (core s1),
      c_insert_timed i ?t (c_upd i (\<lambda>a. a\<lparr>c_timeout := n\<rparr>) (core s1))}"
    by (rule exI [of _ "to_u64 (timeRemaining (asn s1 i)) + currTime s1"])
      (simp add: resumeActive_def Let_def core_simps core_timeout r split: option.split cf.split)
  moreover have "core (insertInactiveAssertion i ?t s1) = c_insert_inactive i ?t (core s1)"
    by (rule core_insertInactive)
  moreover have "resumeAssertion i s \<in> {insertInactiveAssertion i ?t s1, resumeActive i ?t s1}"
    unfolding resumeAssertion_def Let_def s1_def [symmetric] t
    by (simp split: option.split cf.split)
  ultimately show ?thesis unfolding c by auto
qed

lemma resumeStep_ok:
  assumes wf: "wf {} (core s)" and a: "c_asn (core s) i = Some a"
    and b: "\<not> c_timed a" "\<not> c_inactive a"
  shows "wf {} (core (resumeStep p i s)) \<and>
    keeps {} {c_pinfo a} (core s) (core (resumeStep p i s)) \<and>
    (\<forall>j. j \<noteq> i \<longrightarrow> c_asn (core (resumeStep p i s)) j = c_asn (core s) j)"
proof (cases "concerns p (asn s i)")
  case False
  then show ?thesis using wf by (simp add: resumeStep_def)
next
  case True
  let ?s = "LIST_REMOVE i s" and ?t = "c_kassert a" and ?P = "{c_pinfo a}"
  have c: "core ?s = c_unlink i (core s)" by (rule core_LIST_REMOVE)
  have ty: "well_typed (core s) a" using wf_well_typed [OF wf a] by simp
  have c': "core ?s = c_upd i (\<lambda>_. a) (c_unlink i (core s))"
    unfolding c using a by (intro core_eqI) auto
  have l: "lifted {} ?P i a (core s) (core ?s)"
    unfolding c' by (rule liftedI [OF wf a]) (use ty in \<open>simp_all add: well_typed_def\<close>)
  have t: "kassert (asn ?s i) = ?t"
    using core_asn [of ?s i a] a by (metis acore_sel(1) c c_sel(9))
  have lt: "lifted {} ?P i (a\<lparr>c_timeout := n\<rparr>) (core s) (c_upd i (\<lambda>a. a\<lparr>c_timeout := n\<rparr>) (core ?s))" for n
  proof -
    have "c_upd i (\<lambda>a. a\<lparr>c_timeout := n\<rparr>) (core ?s) = c_upd i (\<lambda>_. a\<lparr>c_timeout := n\<rparr>) (c_unlink i (core s))"
      unfolding c using a by (intro core_eqI) auto
    then show ?thesis
      using liftedI [OF wf a, of "a\<lparr>c_timeout := n\<rparr>" ?P] ty by (simp add: well_typed_def)
  qed
  obtain n where n: "core (resumeAssertion i ?s) \<in> {c_insert_inactive i ?t (core ?s),
     c_insert_active i ?t (core ?s), c_insert_timed i ?t (c_upd i (\<lambda>a. a\<lparr>c_timeout := n\<rparr>) (core ?s))}"
    using core_resume [of i ?s] t by auto
  have ok: "wf {} (core (resumeAssertion i ?s)) \<and> keeps {} ?P (core s) (core (resumeAssertion i ?s))"
    using n lifted_insert(1,2) [OF l refl] lifted_insert(3) [OF lt [of n], of ?t] b by auto
  have "c_asn (core (resumeAssertion i ?s)) j = c_asn (core s) j" if "j \<noteq> i" for j
    using n that by (auto simp: c c_insert_inactive_def c_insert_active_def c_insert_timed_def)
  then show ?thesis using ok True by (simp add: resumeStep_def)
qed

lemma fold_resumeStep_ok:
  assumes "wf {} (core s)" and "distinct xs"
    and "\<forall>i \<in> set xs. \<exists>a. c_asn (core s) i = Some a \<and> \<not> c_timed a \<and> \<not> c_inactive a"
  shows "wf {} (core (fold (resumeStep p) xs s)) \<and>
    keeps {} UNIV (core s) (core (fold (resumeStep p) xs s))"
  using assms
proof (induction xs arbitrary: s)
  case Nil
  then show ?case by simp
next
  case (Cons i xs)
  obtain a where a: "c_asn (core s) i = Some a" "\<not> c_timed a" "\<not> c_inactive a"
    using Cons.prems(3) by auto
  note one = resumeStep_ok [OF Cons.prems(1) a, of p]
  then have k: "keeps {} UNIV (core s) (core (resumeStep p i s))" using keeps_widen by blast
  have "\<forall>j \<in> set xs. c_asn (core (resumeStep p i s)) j = c_asn (core s) j"
    using one Cons.prems(2) by auto
  then have "\<forall>j \<in> set xs. \<exists>a. c_asn (core (resumeStep p i s)) j = Some a \<and> \<not> c_timed a \<and> \<not> c_inactive a"
    using Cons.prems(3) by simp
  from Cons.IH [OF conjunct1 [OF one] _ this] Cons.prems(2) show ?case
    using keeps_trans [OF k] by simp
qed

lemma resumeType_ok:
  assumes wf: "wf {} (core s)"
  shows "wf {} (core (resumeType p t s)) \<and> keeps {} UNIV (core s) (core (resumeType p t s))"
proof -
  let ?xs = "selected kSelectSuspended (c_lists (core s) t)"
  have "\<exists>a. c_asn (core s) i = Some a \<and> \<not> c_timed a \<and> \<not> c_inactive a" if "i \<in> set ?xs" for i
    using that wfD(2) [OF wf] by (fastforce simp: wf_bits_def cbits_def)
  then show ?thesis
    using fold_resumeStep_ok [OF wf wf_selected(1) [OF wf, of kSelectSuspended t], of p]
    by (simp only: resumeType_def applyToAssertionsSync_def core_callHandler core_lists) blast
qed

lemma handleAssertionResume_ok:
  assumes "wf {} (core s)"
  shows "wf {} (core (handleAssertionResume p s)) \<and>
    keeps {} UNIV (core s) (core (handleAssertionResume p s))"
  using fold_types_ok [of "resumeType p" "{}" s all_types, OF resumeType_ok assms] assms
  by (simp add: handleAssertionResume_def core_simps)

end
