(* ===== verification/AssertionTimeout.thy ===== *)
theory AssertionTimeout
  imports AssertionLife
begin

unbundle bit_operations_syntax

text \<open>
  Expiry (PMAssertions.c): the timeout handler of a type, the global time cap of a type, and
  the re-evaluation of timeouts when the display-sleep, idle-sleep or sleep-service settings
  change.
\<close>

section \<open>The timeout of a type\<close>

text \<open>The accounting both expiry loops do on an assertion they have unlinked.\<close>

definition expireUpdates :: "nat \<Rightarrow> pm \<Rightarrow> pm" where
  "expireUpdates i s =
     updateSystemQualifiers i kAssertionOpRelease (stopProcTimer i (schedEnableAppSleep i
       (updateAppStats i kAssertionOpRelease s)))"

definition timeoutActionIs :: "timeoutAction \<Rightarrow> assertion \<Rightarrow> bool" where
  "timeoutActionIs act a \<longleftrightarrow> props a kIOPMAssertionTimeoutActionKey = Some (CFString (TimeoutAction act))"

definition releasesOnTimeout :: "assertion \<Rightarrow> bool" where
  "releasesOnTimeout a \<longleftrightarrow>
     timeoutActionIs kIOPMAssertionTimeoutActionRelease a \<or>
     props a kIOPMAsyncClientAssertionIdKey \<noteq> None"

text \<open>The body of the loop of \<open>handleAssertionTimeout\<close> on its first assertion \<open>i\<close>.\<close>

definition timeoutUnlink :: "kerAssertionType \<Rightarrow> nat \<Rightarrow> pm \<Rightarrow> pm" where
  "timeoutUnlink t i s =
     upd_asn i (prop_set kIOPMAssertionTimedOutDateKey (CFDate (CFAbsoluteTimeGetCurrent (env s))))
       (expireUpdates i (uncountValidOnBatt i t
         (upd_asn i (state_clear {kAssertionStateTimed}) (LIST_REMOVE i s))))"

definition timeoutProxy :: "pm \<Rightarrow> nat \<Rightarrow> bool" where
  "timeoutProxy s i \<longleftrightarrow>
     kassert (asn s i) = kPreventDisplaySleepType \<and> pinfo (asn s i) \<noteq> getpid (env s)"

definition timeoutOne :: "kerAssertionType \<Rightarrow> nat \<Rightarrow> pm \<Rightarrow> pm" where
  "timeoutOne t i s =
     (let s1 = timeoutUnlink t i s;
          s2 = (if remoteConnection (proc s1 (pinfo (asn s1 i))) then sendAssertionTimeoutMsg i s1 else s1)
      in if releasesOnTimeout (asn s2 i) then releaseAssertionMemory i kATimeoutLog s2
         else
           let s3 = insertInactiveAssertion i t
                      (upd_asn i (state_set kAssertionSkipLogging) (emit (LogAssertionEvent kATimeoutLog i) s2))
           in if timeoutActionIs kIOPMAssertionTimeoutActionKillProcess (asn s3 i)
              then emit (KillTerm (pinfo (asn s3 i))) s3 else s3)"

section \<open>The loop terminates\<close>

lemma core_expireUpdates [core_simps]: "core (expireUpdates i s) = core s"
  by (simp add: expireUpdates_def core_simps)

lemma core_timeoutUnlink:
  "core (timeoutUnlink t i s) = c_upd i (\<lambda>a. a\<lparr>c_timed := False\<rparr>) (c_unlink i (core s))"
proof -
  have p: "core (upd_asn i (prop_set kIOPMAssertionTimedOutDateKey v) s') = core s'" for v s'
    by (rule core_upd_asn_same) (simp add: core_simps)
  have "core (upd_asn i (state_clear {kAssertionStateTimed}) s') =
      c_upd i (\<lambda>a. a\<lparr>c_timed := False\<rparr>) (core s')" for s'
    by (rule core_upd_asn) (simp add: acore_def)
  then show ?thesis by (simp add: timeoutUnlink_def p core_simps)
qed

lemma core_releaseMemory_lists: "c_lists (core (releaseAssertionMemory i l s)) = c_lists (core s)"
  by (simp add: releaseAssertionMemory_def Let_def core_simps core_free split: option.split)

lemma core_timeoutOne:
  "\<exists>s2. core s2 = core (timeoutUnlink t i s) \<and> env s2 = env s \<and>
     (core (timeoutOne t i s) = core (releaseAssertionMemory i kATimeoutLog s2) \<and> releasesOnTimeout (asn s2 i) \<or>
      core (timeoutOne t i s) = c_insert_inactive i t (core s2) \<and> \<not> releasesOnTimeout (asn s2 i))"
proof -
  let ?s1 = "timeoutUnlink t i s"
  let ?s2 = "if remoteConnection (proc ?s1 (pinfo (asn ?s1 i))) then sendAssertionTimeoutMsg i ?s1 else ?s1"
  have u: "core (upd_asn i (state_set kAssertionSkipLogging) s') = core s'" for s'
    by (rule core_upd_asn_same) (simp add: core_simps)
  have c: "core ?s2 = core ?s1" by (simp add: core_simps)
  have "env ?s1 = env s" using core_timeoutUnlink [of t i s] by (metis core_sel(4) c_sel(4,11))
  moreover have "env ?s2 = env ?s1" using c by (metis core_sel(4))
  ultimately have e: "env ?s2 = env s" by simp
  show ?thesis
    by (rule exI [of _ ?s2]) (simp add: c e timeoutOne_def Let_def core_simps u)
qed

lemma activeTimed_timeoutOne:
  "activeTimed (tlists (gAssertionTypes (timeoutOne t i s) u)) =
   removeAll i (activeTimed (tlists (gAssertionTypes s u)))"
proof -
  obtain s2 where "core s2 = core (timeoutUnlink t i s)"
    "core (timeoutOne t i s) = core (releaseAssertionMemory i kATimeoutLog s2) \<or>
     core (timeoutOne t i s) = c_insert_inactive i t (core s2)"
    using core_timeoutOne [of t i s] by blast
  then show ?thesis
    unfolding core_lists
    by (auto simp: core_releaseMemory_lists core_timeoutUnlink c_insert_inactive_def)
qed

text \<open>
  The \<open>while\<close> loop: it counts the assertions it has timed out and remembers whether one of
  them was a client's display assertion.
\<close>

function timeoutLoop :: "kerAssertionType \<Rightarrow> u64 \<Rightarrow> nat \<times> bool \<times> pm \<Rightarrow> nat \<times> bool \<times> pm" where
  "timeoutLoop t now (n, proxy, s) =
     (case activeTimed (tlists (gAssertionTypes s t)) of
        [] \<Rightarrow> (n, proxy, s)
      | i # _ \<Rightarrow>
          if timeout (asn s i) > now then (n, proxy, s)
          else timeoutLoop t now (n + 1, proxy \<or> timeoutProxy s i, timeoutOne t i s))"
  by pat_completeness auto
termination
proof (relation "measure (\<lambda>(t, now, n, proxy, s). length (activeTimed (tlists (gAssertionTypes s t))))")
  fix t :: kerAssertionType and now :: u64 and n :: nat and proxy :: bool and s :: pm and i xs
  assume l: "activeTimed (tlists (gAssertionTypes s t)) = i # xs"
  have "length (removeAll i xs) \<le> length xs" by (rule length_removeAll_less_eq)
  then show "((t, now, n + 1, proxy \<or> timeoutProxy s i, timeoutOne t i s), t, now, n, proxy, s)
      \<in> measure (\<lambda>(t, now, n, proxy, s). length (activeTimed (tlists (gAssertionTypes s t))))"
    by (simp add: activeTimed_timeoutOne l le_imp_less_Suc)
qed simp

declare timeoutLoop.simps [simp del]

definition handleAssertionTimeout :: "kerAssertionType \<Rightarrow> pm \<Rightarrow> pm" where
  "handleAssertionTimeout t s =
     (case timeoutLoop t (currTime s) (0, False, s) of
        (n, proxy, s1) \<Rightarrow>
          if n = 0 then s1
          else
            let s2 = resetAssertionTimer t s1;
                s3 = (if proxy then delayDisplayTurnOff s2 else s2);
                s4 = callHandler t kAssertionOpRelease s3
            in notifyAnyChange (notifyTimeoutChange (emit LogASLAssertionsAggregate s4)))"

section \<open>The time cap of a globally timed type\<close>

definition capActive :: "kerAssertionType \<Rightarrow> nat \<Rightarrow> pm \<Rightarrow> pm" where
  "capActive t i s =
     emit (Mt2RecordAssertionEvent kAssertionOpGlobalTimeout i) (emit (LogAssertionEvent kACapExpiryLog i)
       (upd_type t (\<lambda>T. T\<lparr>forceTimedoutCnt := forceTimedoutCnt T + 1\<rparr>)
         (insertInactiveAssertion i t (removeActiveAssertion i t True s))))"

definition capTimed :: "kerAssertionType \<Rightarrow> nat \<Rightarrow> pm \<Rightarrow> pm" where
  "capTimed t i s =
     emit (Mt2RecordAssertionEvent kAssertionOpGlobalTimeout i) (emit (LogAssertionEvent kACapExpiryLog i)
       (upd_type t (\<lambda>T. T\<lparr>forceTimedoutCnt := forceTimedoutCnt T + 1\<rparr>)
         (insertInactiveAssertion i t (expireUpdates i
           (upd_asn i (state_clear {kAssertionStateTimed}) (LIST_REMOVE i s))))))"

lemma core_forceTimedout: "core (upd_type t (\<lambda>T. T\<lparr>forceTimedoutCnt := f T\<rparr>) s) = core s"
  by (rule core_upd_type) simp

lemma core_capActive: "core (capActive t i s) = c_insert_inactive i t (c_unlink i (core s))"
  by (simp add: capActive_def core_simps core_forceTimedout)

lemma core_capTimed:
  "core (capTimed t i s) =
     c_insert_inactive i t (c_upd i (\<lambda>a. a\<lparr>c_timed := False\<rparr>) (c_unlink i (core s)))"
proof -
  have "core (upd_asn i (state_clear {kAssertionStateTimed}) s') =
      c_upd i (\<lambda>a. a\<lparr>c_timed := False\<rparr>) (core s')" for s'
    by (rule core_upd_asn) (simp add: acore_def)
  then show ?thesis by (simp add: capTimed_def core_simps core_forceTimedout)
qed

function capActiveLoop :: "kerAssertionType \<Rightarrow> pm \<Rightarrow> pm" where
  "capActiveLoop t s =
     (case active (tlists (gAssertionTypes s t)) of
        [] \<Rightarrow> s | i # _ \<Rightarrow> capActiveLoop t (capActive t i s))"
  by pat_completeness auto
termination
proof (relation "measure (\<lambda>(t, s). length (active (tlists (gAssertionTypes s t))))")
  fix t :: kerAssertionType and s :: pm and i xs
  assume l: "active (tlists (gAssertionTypes s t)) = i # xs"
  have "length (removeAll i xs) \<le> length xs" by (rule length_removeAll_less_eq)
  then show "((t, capActive t i s), t, s) \<in> measure (\<lambda>(t, s). length (active (tlists (gAssertionTypes s t))))"
    using l by (simp add: core_lists core_capActive c_insert_inactive_def le_imp_less_Suc)
qed simp

function capTimedLoop :: "kerAssertionType \<Rightarrow> pm \<Rightarrow> pm" where
  "capTimedLoop t s =
     (case activeTimed (tlists (gAssertionTypes s t)) of
        [] \<Rightarrow> s | i # _ \<Rightarrow> capTimedLoop t (capTimed t i s))"
  by pat_completeness auto
termination
proof (relation "measure (\<lambda>(t, s). length (activeTimed (tlists (gAssertionTypes s t))))")
  fix t :: kerAssertionType and s :: pm and i xs
  assume l: "activeTimed (tlists (gAssertionTypes s t)) = i # xs"
  have "length (removeAll i xs) \<le> length xs" by (rule length_removeAll_less_eq)
  then show "((t, capTimed t i s), t, s) \<in> measure (\<lambda>(t, s). length (activeTimed (tlists (gAssertionTypes s t))))"
    using l by (simp add: core_lists core_capTimed c_insert_inactive_def le_imp_less_Suc)
qed simp

declare capActiveLoop.simps [simp del] capTimedLoop.simps [simp del]

definition enforceAssertionTypeTimeCap :: "kerAssertionType \<Rightarrow> pm \<Rightarrow> pm" where
  "enforceAssertionTypeTimeCap t s =
     (if kAssertionTypeGloballyTimed \<notin> flags (gAssertionTypes s t) then s
      else
        let s1 = capTimedLoop t (capActiveLoop t (upd_type t (\<lambda>T. T\<lparr>forceTimedoutCnt := 0\<rparr>) s));
            s2 = callHandler t kAssertionOpRelease (resetAssertionTimer t s1);
            s3 = (if forceTimedoutCnt (gAssertionTypes s2 t) = 0
                  then emit (LogSleepServiceTerminated 0) s2 else s2)
        in emit LogASLAssertionsAggregate s3)"

definition setSleepServicesTimeCap :: "u32 \<Rightarrow> pm \<Rightarrow> pm" where
  "setSleepServicesTimeCap timeoutInMS s =
     (let t = kPushServiceTaskType in
      if timeoutInMS = 0 \<and> globalTimeout (gAssertionTypes s t) = 0 then s
      else
        let s1 = resetGlobalTimer t (ucast (timeoutInMS div 1000)) s
        in if timeoutInMS = 0 then dispatch_async (EnforceAssertionTypeTimeCapTask t) s1 else s1)"

section \<open>What a timeout does\<close>

text \<open>Nothing but assertion \<open>i\<close> has changed or moved.\<close>

definition only_at :: "nat set \<Rightarrow> core \<Rightarrow> core \<Rightarrow> bool" where
  "only_at I c c' \<longleftrightarrow>
     c_dict c' = c_dict c \<and> c_env c' = c_env c \<and>
     c_conf c' = c_conf c \<and> c_effects c' = c_effects c \<and>
     (\<forall>j. j \<notin> I \<longrightarrow> c_asn c' j = c_asn c j \<and> (\<forall>t. where_is j (c_lists c' t) = where_is j (c_lists c t)))"

lemma only_at_refl [simp]: "only_at I c c"
  by (simp add: only_at_def)

lemma only_at_trans: "only_at I c c' \<Longrightarrow> only_at I c' c'' \<Longrightarrow> only_at I c c''"
  by (simp add: only_at_def)

lemma only_at_mono: "only_at I c c' \<Longrightarrow> I \<subseteq> J \<Longrightarrow> only_at J c c'"
  unfolding only_at_def by blast

lemma only_at_ops:
  "i \<in> I \<Longrightarrow> only_at I c (c_upd i f c)" "i \<in> I \<Longrightarrow> only_at I c (c_unlink i c)"
  "i \<in> I \<Longrightarrow> only_at I c (c_free i c)"
  "i \<in> I \<Longrightarrow> only_at I c (c_insert_inactive i t c)" "i \<in> I \<Longrightarrow> only_at I c (c_insert_active i t c)"
  "i \<in> I \<Longrightarrow> only_at I c (c_insert_timed i t c)" "i \<in> I \<Longrightarrow> only_at I c (c_push_suspended i t c)"
  by (auto simp: only_at_def where_is_def c_insert_inactive_def c_insert_active_def
      c_insert_timed_def c_push_suspended_def)

lemma only_at_timeout:
  "only_at I c c' \<Longrightarrow> j \<notin> I \<Longrightarrow> ctimeout c' j = ctimeout c j"
  by (simp add: only_at_def ctimeout_def)

lemma timeoutOne_ok:
  assumes wf: "wf {} (core s)" and a: "c_asn (core s) i = Some a" and i: "i \<in> set (activeTimed (c_lists (core s) t))"
  shows "wf {} (core (timeoutOne t i s)) \<and> only_at {i} (core s) (core (timeoutOne t i s)) \<and>
    keeps {i} {c_pinfo a} (core s) (core (timeoutOne t i s)) \<and>
    (c_asn (core (timeoutOne t i s)) i = None \<or> i \<in> set (inactive (c_lists (core (timeoutOne t i s)) t)))"
proof -
  obtain s2 where s2: "core s2 = core (timeoutUnlink t i s)"
    and r: "core (timeoutOne t i s) = core (releaseAssertionMemory i kATimeoutLog s2) \<or>
      core (timeoutOne t i s) = c_insert_inactive i t (core s2)"
    using core_timeoutOne [of t i s] by blast
  let ?b = "a\<lparr>c_timed := False\<rparr>" and ?P = "{c_pinfo a}"
  have c2: "core s2 = c_upd i (\<lambda>_. ?b) (c_unlink i (core s))"
    unfolding s2 core_timeoutUnlink using a by (intro core_eqI) auto
  have kt: "c_kassert a = t"
    using wf_linked_iff [OF wf a, of t] i by simp
  have l: "lifted {} ?P i ?b (core s) (core s2)"
    unfolding c2 using wf_well_typed [OF wf a]
    by (intro liftedI [OF wf a]) (simp_all add: well_typed_def)
  have o2: "only_at {i} (core s) (core s2)"
    unfolding c2 by (rule only_at_trans) (rule only_at_ops, simp)+
  from r show ?thesis
  proof
    assume f: "core (timeoutOne t i s) = core (releaseAssertionMemory i kATimeoutLog s2)"
    have w2: "wf (insert i {}) (core s2)" and a2: "c_asn (core s2) i = Some ?b"
      using l by (simp_all add: lifted_def)
    have "core (releaseAssertionMemory i kATimeoutLog s2) = c_free i (core s2)"
      by (rule core_releaseMemory [OF w2 a2])
    then show ?thesis
      using lifted_free [OF l, of kATimeoutLog] only_at_trans [OF o2 only_at_ops(3)] f by simp
  next
    assume f: "core (timeoutOne t i s) = c_insert_inactive i t (core s2)"
    have "wf {} (core (timeoutOne t i s))" "keeps {} ?P (core s) (core (timeoutOne t i s))"
      using lifted_insert(1) [OF l, of t] kt by (simp_all add: f)
    moreover have "only_at {i} (core s) (core (timeoutOne t i s))"
      unfolding f by (rule only_at_trans [OF o2 only_at_ops(4)]) simp
    moreover have "i \<in> set (inactive (c_lists (core (timeoutOne t i s)) t))"
      by (simp add: f c_insert_inactive_def)
    ultimately show ?thesis using keeps_widen by blast
  qed
qed

definition expired :: "u64 \<Rightarrow> core \<Rightarrow> kerAssertionType \<Rightarrow> nat list" where
  "expired now c t = filter (\<lambda>j. \<not> ctimeout c j > now) (activeTimed (c_lists c t))"

text \<open>
  The loop takes exactly the expired assertions off the timed list, each into the inactive
  list or into freed memory, and touches nothing else.
\<close>

definition timedOut :: "kerAssertionType \<Rightarrow> u64 \<Rightarrow> core \<Rightarrow> core \<Rightarrow> bool" where
  "timedOut t now c c' \<longleftrightarrow>
     wf {} c' \<and> only_at (set (expired now c t)) c c' \<and> keeps (set (expired now c t)) UNIV c c' \<and>
     activeTimed (c_lists c' t) = filter (\<lambda>j. ctimeout c j > now) (activeTimed (c_lists c t)) \<and>
     (\<forall>j \<in> set (expired now c t). c_asn c' j = None \<or> j \<in> set (inactive (c_lists c' t)))"

lemma sorted_head_filter:
  assumes "sorted (map k (i # xs))" "k i > now"
  shows "filter (\<lambda>j. k j > now) (i # xs) = i # xs" "filter (\<lambda>j. \<not> k j > now) (i # xs) = []"
proof -
  have "k j > now" if "j \<in> set xs" for j using assms that by auto
  then show "filter (\<lambda>j. k j > now) (i # xs) = i # xs" "filter (\<lambda>j. \<not> k j > now) (i # xs) = []"
    using assms(2) by (auto simp: filter_id_conv filter_empty_conv)
qed

lemma timeoutLoop_ok:
  assumes "wf {} (core s)" and "timeoutLoop t now (n, proxy, s) = (n', proxy', s')"
  shows "timedOut t now (core s) (core s') \<and> n' = n + length (expired now (core s) t)"
  using assms
proof (induction t now "(n, proxy, s)" arbitrary: n proxy s rule: timeoutLoop.induct)
  case (1 t now n proxy s)
  note wf = 1(2)
  have srt: "sorted (map (ctimeout (core s)) (activeTimed (c_lists (core s) t)))"
    using wfD(3) [OF wf] by (simp add: wf_sorted_def)
  show ?case
  proof (cases "activeTimed (tlists (gAssertionTypes s t))")
    case Nil
    then show ?thesis using 1(3) wf
      by (simp add: timeoutLoop.simps [of t now n] timedOut_def expired_def core_lists)
  next
    case (Cons i xs)
    then have l: "activeTimed (c_lists (core s) t) = i # xs" by (simp add: core_lists)
    show ?thesis
    proof (cases "timeout (asn s i) > now")
      case True
      then have h: "ctimeout (core s) i > now" by (simp add: timeout_asn)
      have e: "expired now (core s) t = []" "filter (\<lambda>j. ctimeout (core s) j > now) (i # xs) = i # xs"
        using sorted_head_filter [OF srt [unfolded l] h] by (simp_all only: expired_def l)
      have "(n', proxy', s') = (n, proxy, s)"
        using 1(3) Cons True by (simp add: timeoutLoop.simps [of t now n])
      then show ?thesis using e wf l by (simp add: timedOut_def)
    next
      case False
      let ?s1 = "timeoutOne t i s"
      have nh: "\<not> ctimeout (core s) i > now" using False by (simp add: timeout_asn)
      have di: "i \<notin> set xs"
        using wfD(1) [OF wf] l unfolding wf_links_def
        by (metis distinct.simps(2) distinct_append linked_def)
      obtain a where a: "c_asn (core s) i = Some a"
        using wf_linked_live [OF wf, of i t] l by auto
      have "i \<in> set (activeTimed (c_lists (core s) t))" by (simp add: l)
      note one = timeoutOne_ok [OF wf a this]
      then have o1: "only_at {i} (core s) (core ?s1)" by blast
      have l1: "activeTimed (c_lists (core ?s1) t) = xs"
        using activeTimed_timeoutOne [of t i s t] l di by (simp add: core_lists)
      have tm: "ctimeout (core ?s1) j = ctimeout (core s) j" if "j \<in> set xs" for j
        using only_at_timeout [OF o1, of j] that di by auto
      then have f: "filter (\<lambda>j. ctimeout (core ?s1) j > now) xs = filter (\<lambda>j. ctimeout (core s) j > now) xs"
        "filter (\<lambda>j. \<not> ctimeout (core ?s1) j > now) xs = filter (\<lambda>j. \<not> ctimeout (core s) j > now) xs"
        by (auto intro: filter_cong)
      have ex: "expired now (core s) t = i # expired now (core ?s1) t"
        using nh by (simp add: expired_def l l1 f(2))
      have "timeoutLoop t now (n + 1, proxy \<or> timeoutProxy s i, ?s1) = (n', proxy', s')"
        using 1(3) Cons False by (simp add: timeoutLoop.simps [of t now n])
      from 1(1) [OF Cons False conjunct1 [OF one] this]
      have ih: "timedOut t now (core ?s1) (core s')" "n' = n + 1 + length (expired now (core ?s1) t)"
        by simp_all
      let ?X = "set (expired now (core s) t)"
      have X: "set (expired now (core ?s1) t) \<subseteq> ?X" "i \<in> ?X" using ex by auto
      have oX: "only_at ?X (core s) (core s')"
        using only_at_trans [OF only_at_mono [OF o1] only_at_mono [OF _ X(1)]] ih(1) X(2)
        unfolding timedOut_def by blast
      have kX: "keeps ?X UNIV (core s) (core s')"
        using keeps_trans [OF keeps_mono keeps_mono [OF _ X(1)]] one ih(1) X(2)
        unfolding timedOut_def by blast
      have iX: "i \<notin> set (expired now (core ?s1) t)" using di by (simp add: expired_def l1)
      have "c_asn (core s') i = c_asn (core ?s1) i"
        and "where_is i (c_lists (core s') t) = where_is i (c_lists (core ?s1) t)"
        using ih(1) iX unfolding timedOut_def only_at_def by blast+
      then have "c_asn (core s') i = None \<or> i \<in> set (inactive (c_lists (core s') t))"
        using one by (simp add: where_is_def)
      then show ?thesis
        using ih oX kX nh unfolding timedOut_def ex l l1 f by simp
    qed
  qed
qed


lemma handleAssertionTimeout_ok:
  fixes s :: pm and t :: kerAssertionType
  assumes wf: "wf {} (core s)"
  defines "self \<equiv> getpid (env s)" and "c' \<equiv> core (handleAssertionTimeout t s)"
  shows "wf {} c'"
    and "j \<in> set (expired (currTime s) (core s) t) \<Longrightarrow> owner (core s) j \<noteq> Some self \<Longrightarrow>
      owner c' j \<noteq> owner (core s) j \<or> j \<in> set (inactive (c_lists c' t))"
    and "j \<notin> set (expired (currTime s) (core s) t) \<Longrightarrow> owner (core s) j = Some p \<Longrightarrow> p \<noteq> self \<Longrightarrow>
      c_asn c' j = c_asn (core s) j \<and> where_is j (c_lists c' u) = where_is j (c_lists (core s) u)"
proof -
  let ?X = "set (expired (currTime s) (core s) t)"
  obtain n proxy s1 where lp: "timeoutLoop t (currTime s) (0, False, s) = (n, proxy, s1)"
    by (metis prod.exhaust)
  have t1: "timedOut t (currTime s) (core s) (core s1)"
    using timeoutLoop_ok [OF wf lp] by blast
  then have w1: "wf {} (core s1)" and o1: "only_at ?X (core s) (core s1)"
    and e1: "env s1 = env s"
    unfolding timedOut_def only_at_def by (simp_all add: core_sel)
  let ?s2 = "resetAssertionTimer t s1"
  have c2: "core ?s2 = core s1" by (simp add: core_simps)
  then have e2: "getpid (env ?s2) = self" using e1 by (metis core_sel(4) self_def)
  have d: "wf {} (core (delayDisplayTurnOff ?s2)) \<and> keeps {} {self} (core s1) (core (delayDisplayTurnOff ?s2))"
    using delayDisplayTurnOff_ok [of "{}" ?s2] w1 c2 e2 by simp
  have c': "c' = core s1 \<or> c' = core (delayDisplayTurnOff ?s2)"
    unfolding c'_def handleAssertionTimeout_def lp by (simp add: Let_def core_simps)
  then show w: "wf {} c'" using w1 d by blast
  have k: "keeps {} {self} (core s1) c'" using c' d by auto
  have same: "c_asn c' j = c_asn (core s1) j \<and> where_is j (c_lists c' u) = where_is j (c_lists (core s1) u)"
    if o: "owner (core s1) j = Some p" and f: "p \<noteq> self" for j p u
  proof -
    obtain b where b: "c_asn (core s1) j = Some b" "c_pinfo b = p"
      using o by (auto simp: owner_def)
    then show ?thesis using keepsD(4,5) [OF k b(1)] f by simp
  qed
  show "owner c' j \<noteq> owner (core s) j \<or> j \<in> set (inactive (c_lists c' t))"
    if j: "j \<in> ?X" "owner (core s) j \<noteq> Some self"
  proof (cases "c_asn (core s1) j")
    case None
    have "owner (core s) j \<noteq> None"
      using j(1) wf_linked_live [OF wf, of j t] by (auto simp: expired_def owner_def)
    moreover have "owner c' j = None \<or> owner c' j = Some self"
      using keepsD(3) [OF k, of j] None by (cases "owner c' j") (auto simp: owner_def)
    ultimately show ?thesis using j(2) by auto
  next
    case (Some b)
    then have i: "j \<in> set (inactive (c_lists (core s1) t))" using t1 j(1) by (auto simp: timedOut_def)
    have "keeps ?X UNIV (core s) (core s1)" using t1 by (simp add: timedOut_def)
    show ?thesis
    proof (cases "c_pinfo b = self")
      case False
      then show ?thesis using same [of j "c_pinfo b" t] i Some by (simp add: owner_def where_is_def)
    next
      case True
      have "owner c' j = Some self" using keeps_owner [OF k] Some True by (simp add: owner_def)
      then show ?thesis using j(2) by auto
    qed
  qed
  show "c_asn c' j = c_asn (core s) j \<and> where_is j (c_lists c' u) = where_is j (c_lists (core s) u)"
    if "j \<notin> ?X" "owner (core s) j = Some p" "p \<noteq> self"
  proof -
    have "c_asn (core s1) j = c_asn (core s) j"
      "where_is j (c_lists (core s1) u) = where_is j (c_lists (core s) u)"
      using o1 that(1) by (simp_all add: only_at_def)
    then show ?thesis using same [of j p u] that(2,3) by (simp add: owner_def)
  qed
qed

section \<open>What the time cap does\<close>

lemma cap_ok:
  assumes wf: "wf {} (core s)" and a: "c_asn (core s) i = Some a" and t: "c_kassert a = t"
  shows "wf {} (core (capActive t i s))" "wf {} (core (capTimed t i s))"
proof -
  let ?P = "{c_pinfo a}"
  have ty: "c_uid a" using wf_well_typed [OF wf a] by (simp add: well_typed_def)
  have l: "lifted {} ?P i (a\<lparr>c_timed := False\<rparr>) (core s) (c_upd i (\<lambda>_. a\<lparr>c_timed := False\<rparr>) (c_unlink i (core s)))"
    "lifted {} ?P i a (core s) (c_upd i (\<lambda>_. a) (c_unlink i (core s)))"
    by (rule liftedI [OF wf a]; simp add: ty)+
  have e: "c_upd i (\<lambda>a. a\<lparr>c_timed := False\<rparr>) (c_unlink i (core s))
      = c_upd i (\<lambda>_. a\<lparr>c_timed := False\<rparr>) (c_unlink i (core s))"
    "c_unlink i (core s) = c_upd i (\<lambda>_. a) (c_unlink i (core s))"
    using a by (intro core_eqI; auto)+
  show "wf {} (core (capActive t i s))"
    unfolding core_capActive using lifted_insert(1) [OF l(2), of t] t e(2) by simp
  show "wf {} (core (capTimed t i s))"
    unfolding core_capTimed e(1) using lifted_insert(1) [OF l(1), of t] t by simp
qed

lemma capActiveLoop_ok:
  "wf {} (core s) \<Longrightarrow> wf {} (core (capActiveLoop t s)) \<and> active (c_lists (core (capActiveLoop t s)) t) = []"
proof (induction t s rule: capActiveLoop.induct)
  case (1 t s)
  show ?case
  proof (cases "active (tlists (gAssertionTypes s t))")
    case Nil
    then show ?thesis using 1(2) by (simp add: capActiveLoop.simps [of t s] core_lists)
  next
    case (Cons i xs)
    then obtain a where a: "c_asn (core s) i = Some a" "c_kassert a = t"
      using wf_linked_live [OF 1(2), of i t] by (auto simp: core_lists)
    show ?thesis
      using 1(1) [OF Cons cap_ok(1) [OF 1(2) a]] Cons by (simp add: capActiveLoop.simps [of t s])
  qed
qed

lemma capTimedLoop_ok:
  "wf {} (core s) \<Longrightarrow> active (c_lists (core s) t) = [] \<Longrightarrow>
   wf {} (core (capTimedLoop t s)) \<and> activeTimed (c_lists (core (capTimedLoop t s)) t) = [] \<and>
   active (c_lists (core (capTimedLoop t s)) t) = []"
proof (induction t s rule: capTimedLoop.induct)
  case (1 t s)
  show ?case
  proof (cases "activeTimed (tlists (gAssertionTypes s t))")
    case Nil
    then show ?thesis using 1(2,3) by (simp add: capTimedLoop.simps [of t s] core_lists)
  next
    case (Cons i xs)
    then obtain a where a: "c_asn (core s) i = Some a" "c_kassert a = t"
      using wf_linked_live [OF 1(2), of i t] by (auto simp: core_lists)
    have "active (c_lists (core (capTimed t i s)) t) = []"
      using 1(3) by (simp add: core_capTimed c_insert_inactive_def)
    then show ?thesis
      using 1(1) [OF Cons cap_ok(2) [OF 1(2) a]] Cons by (simp add: capTimedLoop.simps [of t s])
  qed
qed

text \<open>The cap leaves no assertion of a globally timed type active.\<close>

lemma enforceAssertionTypeTimeCap_ok:
  assumes "wf {} (core s)"
  shows "wf {} (core (enforceAssertionTypeTimeCap t s))"
    and "kAssertionTypeGloballyTimed \<in> flags (gAssertionTypes s t) \<Longrightarrow>
      \<not> checkForEntriesByType (enforceAssertionTypeTimeCap t s) t"
proof -
  let ?s0 = "upd_type t (\<lambda>T. T\<lparr>forceTimedoutCnt := 0\<rparr>) s"
  have c0: "core ?s0 = core s" by (rule core_upd_type) simp
  let ?s1 = "capTimedLoop t (capActiveLoop t ?s0)"
  have s1: "wf {} (core ?s1) \<and> activeTimed (c_lists (core ?s1) t) = [] \<and> active (c_lists (core ?s1) t) = []"
    using capTimedLoop_ok capActiveLoop_ok [of ?s0 t] assms c0 by simp
  have e: "core (enforceAssertionTypeTimeCap t s) =
      (if kAssertionTypeGloballyTimed \<in> flags (gAssertionTypes s t) then core ?s1 else core s)"
    by (simp add: enforceAssertionTypeTimeCap_def Let_def core_simps)
  show "wf {} (core (enforceAssertionTypeTimeCap t s))" using e s1 assms by simp
  show "\<not> checkForEntriesByType (enforceAssertionTypeTimeCap t s) t"
    if "kAssertionTypeGloballyTimed \<in> flags (gAssertionTypes s t)"
    using e s1 that by (simp add: checkForEntriesByType_def core_lists)
qed

lemma core_setSleepServicesTimeCap [core_simps]: "core (setSleepServicesTimeCap n s) = core s"
  by (simp add: setSleepServicesTimeCap_def Let_def core_simps)

end
