(* ===== verification/AssertionConfig.thy ===== *)
theory AssertionConfig
  imports AssertionTimeout
begin

unbundle bit_operations_syntax

text \<open>
  The configuration of the assertion types and its changes at run time (PMAssertions.c):
  \<open>configAssertionType\<close>, disabling and enabling a type, the start of the engine, and the
  re-evaluation when the power source, the display or the sleep timers change.
\<close>

section \<open>The switch over the types\<close>

text \<open>The names a type is entered under in \<open>gUserAssertionTypesDict\<close>, with their target.\<close>

definition sleepServiceWindow :: "env \<Rightarrow> bool" where
  "sleepServiceWindow E \<longleftrightarrow> isA_SleepSrvcWake E \<and> SS_allowed E"

fun configNames :: "env \<Rightarrow> kerAssertionType \<Rightarrow> (typeName \<times> kerAssertionType) list" where
  "configNames E kHighPerfType = [(kIOPMAssertionTypeNeedsCPU, kHighPerfType)]"
| "configNames E kPreventIdleType =
     [(kIOPMAssertionTypePreventUserIdleSystemSleep, kPreventIdleType),
      (kIOPMAssertionTypeNoIdleSleep, kPreventIdleType)]"
| "configNames E kDisableInflowType = [(kIOPMAssertionTypeDisableInflow, kDisableInflowType)]"
| "configNames E kInhibitChargeType = [(kIOPMAssertionTypeInhibitCharging, kInhibitChargeType)]"
| "configNames E kDisableWarningsType =
     [(kIOPMAssertionTypeDisableLowBatteryWarnings, kDisableWarningsType)]"
| "configNames E kPreventDisplaySleepType =
     [(kIOPMAssertionTypePreventUserIdleDisplaySleep, kPreventDisplaySleepType),
      (kIOPMAssertionTypeNoDisplaySleep, kPreventDisplaySleepType)]"
| "configNames E kEnableIdleType = [(kIOPMAssertionTypeEnableIdleSleep, kEnableIdleType)]"
| "configNames E kPreventSleepType =
     [(kIOPMAssertionTypePreventSystemSleep, kPreventSleepType),
      (kIOPMAssertionTypeDenySystemSleep, kPreventSleepType)]"
| "configNames E kSRPreventSleepType =
     [(kIOPMAssertInternalPreventSleep, kSRPreventSleepType),
      (kIOPMAssertMaintenanceActivity, kSRPreventSleepType)]"
| "configNames E kPreventDiskSleepType = [(kIOPMAssertPreventDiskIdle, kPreventDiskSleepType)]"
| "configNames E kExternalMediaType =
     [(kIOPMAssertionTypeExternalMedia, kExternalMediaType),
      (kIOPMAssertionTypePreventStandby, kExternalMediaType)]"
| "configNames E kDeclareUserActivityType = [(kIOPMAssertionUserIsActive, kDeclareUserActivityType)]"
| "configNames E kDeclareSystemActivityType =
     [(kIOPMAssertionTypeSystemIsActive, kDeclareSystemActivityType)]"
| "configNames E kPushServiceTaskType =
     [(kIOPMAssertionTypeApplePushServiceTask,
       if sleepServiceWindow E then kPushServiceTaskType else kBackgroundTaskType)]"
| "configNames E kBackgroundTaskType = [(kIOPMAssertionTypeBackgroundTask, kBackgroundTaskType)]"
| "configNames E kTicklessDisplayWakeType = [(kIOPMAssertDisplayWake, kTicklessDisplayWakeType)]"
| "configNames E kIntPreventDisplaySleepType =
     [(kIOPMAssertInternalPreventDisplaySleep, kIntPreventDisplaySleepType),
      (kIOPMAssertRequiresDisplayAudio, kIntPreventDisplaySleepType)]"
| "configNames E kNetworkAccessType = [(kIOPMAssertNetworkClientActive, kNetworkAccessType)]"
| "configNames E kInteractivePushServiceType =
     [(kIOPMAssertInteractivePushServiceTask,
       if \<not> tcpKeepAliveActive E \<and> sleepServiceWindow E then kPushServiceTaskType
       else kInteractivePushServiceType)]"
| "configNames E kReservePwrPreventIdleType = [(kIOPMAssertAwakeReservePower, kPreventIdleType)]"
| "configNames E kSoftwareUpdateType = [(kIOPMAssertionTypeSoftwareUpdateTask, kSoftwareUpdateType)]"

fun configEffect :: "env \<Rightarrow> kerAssertionType \<Rightarrow> kerAssertionEffect" where
  "configEffect E kHighPerfType = kHighPerfEffect"
| "configEffect E kPreventIdleType = kPrevIdleSlpEffect"
| "configEffect E kDisableInflowType = kDisableInflowEffect"
| "configEffect E kInhibitChargeType = kInhibitChargeEffect"
| "configEffect E kDisableWarningsType = kDisableWarningsEffect"
| "configEffect E kPreventDisplaySleepType = kPrevDisplaySlpEffect"
| "configEffect E kEnableIdleType = kEnableIdleEffect"
| "configEffect E kPreventSleepType = kPrevDemandSlpEffect"
| "configEffect E kSRPreventSleepType = kPrevDemandSlpEffect"
| "configEffect E kPreventDiskSleepType = kPreventDiskSleepEffect"
| "configEffect E kExternalMediaType = kExternalMediaEffect"
| "configEffect E kDeclareUserActivityType = kPrevDisplaySlpEffect"
| "configEffect E kDeclareSystemActivityType = kPrevIdleSlpEffect"
| "configEffect E kPushServiceTaskType =
     (if sleepServiceWindow E then kPrevDemandSlpEffect else kNoEffect)"
| "configEffect E kBackgroundTaskType =
     (if DWBT_enabled E then kPrevDemandSlpEffect else kPrevIdleSlpEffect)"
| "configEffect E kTicklessDisplayWakeType = kTicklessDisplayWakeEffect"
| "configEffect E kIntPreventDisplaySleepType = kPrevDisplaySlpEffect"
| "configEffect E kNetworkAccessType =
     (if getPowerSource E = kACPowered then kPrevDemandSlpEffect else kPrevIdleSlpEffect)"
| "configEffect E kInteractivePushServiceType =
     (if tcpKeepAliveActive E then kPrevDemandSlpEffect
      else if sleepServiceWindow E then kNoEffect else kPrevIdleSlpEffect)"
| "configEffect E kReservePwrPreventIdleType = kPrevIdleSlpEffect"
| "configEffect E kSoftwareUpdateType = kPrevDemandSlpEffect"

text \<open>The handler the switch sets; \<open>None\<close> leaves the one in place.\<close>

fun configHandler :: "env \<Rightarrow> kerAssertionType \<Rightarrow> assertionHandler option" where
  "configHandler E kBackgroundTaskType =
     Some (if DWBT_enabled E then setKernelAssertions_h else modifySettings_h)"
| "configHandler E kNetworkAccessType =
     Some (if getPowerSource E = kACPowered then setKernelAssertions_h else modifySettings_h)"
| "configHandler E kInteractivePushServiceType =
     (if tcpKeepAliveActive E then Some setKernelAssertions_h
      else if sleepServiceWindow E then None else Some modifySettings_h)"
| "configHandler E kEnableIdleType = Some enableIdleHandler_h"
| "configHandler E kTicklessDisplayWakeType = Some displayWakeHandler_h"
| "configHandler E t =
     Some (if t \<in> {kHighPerfType, kPreventIdleType, kPreventDiskSleepType,
                    kDeclareSystemActivityType, kReservePwrPreventIdleType} then modifySettings_h
           else if t \<in> {kDisableInflowType, kInhibitChargeType, kDisableWarningsType}
           then handleBatteryAssertions_h
           else setKernelAssertions_h)"

fun configFlags :: "env \<Rightarrow> kerAssertionType \<Rightarrow> typeFlag set \<Rightarrow> typeFlag set" where
  "configFlags E kPreventIdleType fl = insert kAssertionTypePreventAppSleep fl"
| "configFlags E kPreventDisplaySleepType fl =
     fl \<union> {kAssertionTypePreventAppSleep, kAssertionTypeLogOnCreate}"
| "configFlags E kPreventSleepType fl =
     fl \<union> {kAssertionTypeNotValidOnBatt, kAssertionTypePreventAppSleep, kAssertionTypeLogOnCreate}"
| "configFlags E kSRPreventSleepType fl =
     fl \<union> {kAssertionTypeNotValidOnBatt, kAssertionTypePreventAppSleep, kAssertionTypeLogOnCreate}"
| "configFlags E kExternalMediaType fl = insert kAssertionTypeLogOnCreate fl"
| "configFlags E kDeclareUserActivityType fl =
     fl \<union> {kAssertionTypePreventAppSleep, kAssertionTypeLogOnCreate}"
| "configFlags E kDeclareSystemActivityType fl =
     fl \<union> {kAssertionTypePreventAppSleep, kAssertionTypeLogOnCreate}"
| "configFlags E kPushServiceTaskType fl =
     fl \<union> {kAssertionTypeGloballyTimed, kAssertionTypePreventAppSleep}"
| "configFlags E kBackgroundTaskType fl =
     (let fl' = fl \<union> {kAssertionTypeNotValidOnBatt, kAssertionTypePreventAppSleep}
      in if DWBT_enabled E then fl' - {kAssertionTypeLogOnCreate} else fl')"
| "configFlags E kTicklessDisplayWakeType fl =
     fl \<union> {kAssertionTypePreventAppSleep, kAssertionTypeLogOnCreate}"
| "configFlags E kIntPreventDisplaySleepType fl = insert kAssertionTypeLogOnCreate fl"
| "configFlags E kNetworkAccessType fl =
     fl \<union> {kAssertionTypePreventAppSleep, kAssertionTypeLogOnCreate}"
| "configFlags E kInteractivePushServiceType fl =
     (if tcpKeepAliveActive E then {kAssertionTypePreventAppSleep, kAssertionTypeAutoTimed}
      else if sleepServiceWindow E then fl
      else {kAssertionTypeNotValidOnBatt, kAssertionTypePreventAppSleep, kAssertionTypeAutoTimed})"
| "configFlags E kReservePwrPreventIdleType fl = insert kAssertionTypePreventAppSleep fl"
| "configFlags E kSoftwareUpdateType fl = insert kAssertionTypeLogOnCreate fl"
| "configFlags E t fl = fl"

fun configEntitlement :: "kerAssertionType \<Rightarrow> entitlementName option" where
  "configEntitlement kTicklessDisplayWakeType = Some kIOPMDarkWakeControlEntitlement"
| "configEntitlement kInteractivePushServiceType = Some kIOPMInteractivePushEntitlement"
| "configEntitlement kReservePwrPreventIdleType = Some kIOPMReservePwrCtrlEntitlement"
| "configEntitlement kSoftwareUpdateType = Some kIOPMAssertionTypeSoftwareUpdateEntitlement"
| "configEntitlement _ = None"

text \<open>
  The disable count of \<open>kBackgroundTaskType\<close>, which the switch itself raises and drops, with
  \<open>prevBTdisable\<close>.
\<close>

definition decrease :: "u32 \<Rightarrow> u32" where
  "decrease n = (if n \<noteq> 0 then n - 1 else n)"

definition configDisable :: "env \<Rightarrow> kerAssertionType \<Rightarrow> u32 \<times> bool \<Rightarrow> u32 \<times> bool" where
  "configDisable E t db =
     (let (n, prev) = db in
      if t \<noteq> kBackgroundTaskType then (n, prev)
      else if DWBT_enabled E then
        if \<not> isA_BTMtnceWake E then (if \<not> prev then (n + 1, True) else (n, prev))
        else (if prev then (decrease n, False) else (n, prev))
      else (if prev then (decrease n, prev) else (n, prev)))"

text \<open>\<open>autoTimeout\<close> is set for interactive push assertions outside the alias case.\<close>

definition configAutoTimeout :: "env \<Rightarrow> kerAssertionType \<Rightarrow> u64 \<Rightarrow> u64" where
  "configAutoTimeout E t old =
     (if t = kInteractivePushServiceType \<and> (tcpKeepAliveActive E \<or> \<not> sleepServiceWindow E)
      then getCurrentSleepServiceCapTimeout E div 1000 else old)"

definition configStruct :: "env \<Rightarrow> kerAssertionType \<Rightarrow> bool \<Rightarrow> assertionType \<Rightarrow> assertionType" where
  "configStruct E t prev T =
     T\<lparr>flags := configFlags E t (flags T),
       handler := (case configHandler E t of Some h \<Rightarrow> Some h | None \<Rightarrow> handler T),
       entitlement := (case configEntitlement t of Some e \<Rightarrow> Some e | None \<Rightarrow> entitlement T),
       disableCnt := fst (configDisable E t (disableCnt T, prev)),
       autoTimeout := configAutoTimeout E t (autoTimeout T)\<rparr>"

definition configSwitch :: "kerAssertionType \<Rightarrow> pm \<Rightarrow> pm" where
  "configSwitch t s =
     (let E = env s; n = disableCnt (gAssertionTypes s t) in
      (upd_type t (configStruct E t (prevBTdisable s)) s)
        \<lparr>gUserAssertionTypesDict := gUserAssertionTypesDict s ++ map_of (configNames E t),
         prevBTdisable := snd (configDisable E t (n, prevBTdisable s))\<rparr>)"

section \<open>Configuring a type\<close>

definition insertEffect :: "kerAssertionType \<Rightarrow> kerAssertionEffect \<Rightarrow> pm \<Rightarrow> pm" where
  "insertEffect t e s =
     (upd_type t (\<lambda>T. T\<lparr>effectIdx := e\<rparr>) s)
       \<lparr>gAssertionEffects := (gAssertionEffects s)(e := t # gAssertionEffects s e)\<rparr>"

definition removeEffect :: "kerAssertionType \<Rightarrow> pm \<Rightarrow> pm" where
  "removeEffect t s = s\<lparr>gAssertionEffects := (\<lambda>e. removeAll t (gAssertionEffects s e))\<rparr>"

text \<open>
  Moving a type to another effect or handler: the old handler runs while the type is on no
  effect list, then the new one.  (A type without a handler has no such call; the code would
  call a null pointer there.)
\<close>

definition moveType ::
    "kerAssertionType \<Rightarrow> assertionHandler option \<Rightarrow> kerAssertionEffect \<Rightarrow> kerAssertionEffect \<Rightarrow> pm \<Rightarrow> pm" where
  "moveType t oldHandler prevEffect newEffect s =
     (let fl = flags (gAssertionTypes s t);
          s1 = removeEffect t s;
          s2 = (case oldHandler of Some h \<Rightarrow> run_handler h t kAssertionOpEval s1 | None \<Rightarrow> s1);
          s3 = upd_type t (\<lambda>T. T\<lparr>flags := fl\<rparr>) s2;
          restat = (\<lambda>op s. if gActivityAggCnt s \<noteq> 0 \<and> prevEffect \<noteq> newEffect
                            then applyToAssertionsSync t kSelectActive (\<lambda>i. updateAppStats i op) s else s);
          s4 = insertEffect t newEffect (restat kAssertionOpRelease s3);
          s5 = (if newEffect \<noteq> kNoEffect then callHandler t kAssertionOpEval s4 else s4)
      in restat kAssertionOpRaise s5)"

definition configAssertionType :: "kerAssertionType \<Rightarrow> bool \<Rightarrow> pm \<Rightarrow> pm" where
  "configAssertionType t initialConfig s =
     (let T = gAssertionTypes s t;
          oldHandler = (if initialConfig then None else handler T);
          oldFlags = (if initialConfig then {} else flags T);
          prevEffect = (if initialConfig then kNoEffect else effectIdx T);
          s1 = configSwitch t s;
          T1 = gAssertionTypes s1 t;
          newEffect = (if disableCnt T1 \<noteq> 0 then kNoEffect else configEffect (env s) t)
      in if initialConfig then insertEffect t newEffect s1
         else if oldHandler \<noteq> handler T1 \<or> prevEffect \<noteq> newEffect then
           moveType t oldHandler prevEffect newEffect s1
         else if oldFlags \<noteq> flags T1 then callHandler t kAssertionOpEval s1
         else s1)"

definition disableAssertionType :: "kerAssertionType \<Rightarrow> pm \<Rightarrow> pm" where
  "disableAssertionType t s =
     configAssertionType t False (upd_type t (\<lambda>T. T\<lparr>disableCnt := disableCnt T + 1\<rparr>) s)"

definition enableAssertionType :: "kerAssertionType \<Rightarrow> pm \<Rightarrow> pm" where
  "enableAssertionType t s =
     configAssertionType t False (upd_type t (\<lambda>T. T\<lparr>disableCnt := decrease (disableCnt T)\<rparr>) s)"

section \<open>The start of the engine\<close>

definition configAssertionEffect :: "kerAssertionEffect \<Rightarrow> pm \<Rightarrow> pm" where
  "configAssertionEffect e s = s\<lparr>gAssertionEffects := (gAssertionEffects s)(e := [])\<rparr>"

definition all_effects :: "kerAssertionEffect list" where
  "all_effects = [kNoEffect, kPrevIdleSlpEffect, kPrevDemandSlpEffect, kPrevDisplaySlpEffect,
     kExternalMediaEffect, kPreventDiskSleepEffect, kTicklessDisplayWakeEffect, kEnableIdleEffect,
     kHighPerfEffect, kDisableInflowEffect, kInhibitChargeEffect, kDisableWarningsEffect,
     kNoRealPowerSourcesDebugEffect]"

text \<open>The globals as the program is loaded, with the environment \<open>E\<close>.\<close>

definition loaded :: "env \<Rightarrow> pm" where
  "loaded E =
     \<lparr>gAssertionsArray = Map.empty, gNextAssertionIdx = 0,
      gAssertionTypes = (\<lambda>_. zero_assertionType), gAssertionEffects = (\<lambda>_. []),
      gUserAssertionTypesDict = Map.empty, gProcessDict = Map.empty, gProcessSeq = 0,
      gProcAssertionLimits = None, gDefaultLimits = (0, 0), aggregate_assertions = 0,
      kerAssertionBits = {}, gSysQualifier = zero_sysQualifier, gActivityAggCnt = 0,
      gAggCleanupDispatch = False, gAnyChange = 0, gAggChange = 0, gTimeoutChange = 0,
      gDisplaySleepTimer = 0, gIdleSleepTimer = 0, gPrevClamshellSleepState = 0, lastTickle_ts = 0,
      delayDisplayId = kIOPMNullAssertionID, gSystemAssertionTimeoutEnabled = False,
      gSystemAssertionTimerActive = False, gSystemAssertionTimer = False,
      gSystemAssertionTimeoutList = None, kPMSystemAssertionTimeoutValue = 600,
      prevBTdisable = False, prevPwrSrc = None, displayAsleepPrevious = False,
      env = E, mainq = [], trace = []\<rparr>"

definition PMAssertions_prime :: "pm \<Rightarrow> pm" where
  "PMAssertions_prime s =
     (let s1 = s\<lparr>gAssertionsArray := Map.empty, gProcessDict := Map.empty,
                 gUserAssertionTypesDict := Map.empty\<rparr>;
          s2 = fold configAssertionEffect all_effects s1;
          s3 = fold (\<lambda>t. configAssertionType t True) all_types s2;
          s4 = s3\<lparr>gDisplaySleepTimer := (case getDisplaySleepTimer (env s3) of Some n \<Rightarrow> n
                                         | None \<Rightarrow> gDisplaySleepTimer s3),
                  gIdleSleepTimer := getIdleSleepTimer (env s3)\<rparr>;
          s5 = setClamshellSleepState (sendUserAssertionsToKernel {} s4)
      in setAggregateLevel kEnableIdleType True s5)"

section \<open>Re-evaluation of timeouts\<close>

text \<open>
  The walk \<open>evalAllUserActivityAssertions\<close> and \<open>evalAllNetworkAccessAssertions\<close> share:
  assertions whose timeout is the system timer are taken off the timed list, their timeout is
  moved by \<open>change\<close> (not before now), and they are put back; without a timer they become
  plain active assertions.
\<close>

definition retimeStep :: "kerAssertionType \<Rightarrow> bool \<Rightarrow> u64 \<Rightarrow> nat \<Rightarrow> nat list \<times> pm \<Rightarrow> nat list \<times> pm" where
  "retimeStep t timerOn change i ls =
     (case ls of (moved, s) \<Rightarrow>
        if kAssertionTimeoutIsSystemTimer \<notin> state (asn s i) then (moved, s)
        else if timerOn then
          (i # moved,
           upd_asn i (\<lambda>a. a\<lparr>timeout := (if timeout a + change < currTime s then currTime s
                                         else timeout a + change)\<rparr>) (LIST_REMOVE i s))
        else
          (moved,
           insertActiveAssertion i t True (upd_asn i (\<lambda>a. a\<lparr>timeout := 0\<rparr>)
             (removeTimedAssertion i t False True s))))"

definition retimeActive :: "kerAssertionType \<Rightarrow> u64 \<Rightarrow> nat \<Rightarrow> pm \<Rightarrow> pm" where
  "retimeActive t newTimeout i s =
     (if kAssertionTimeoutIsSystemTimer \<notin> state (asn s i) then s
      else insertTimedAssertion i t False True (removeActiveAssertion i t True
             (upd_asn i (\<lambda>a. a\<lparr>timeout := newTimeout\<rparr>) s)))"

definition retimeType :: "kerAssertionType \<Rightarrow> bool \<Rightarrow> u64 \<Rightarrow> u64 \<Rightarrow> pm \<Rightarrow> pm" where
  "retimeType t timerOn change newTimeout s =
     (case fold (retimeStep t timerOn change) (activeTimed (tlists (gAssertionTypes s t))) ([], s) of
        (moved, s1) \<Rightarrow>
          let s2 = fold (\<lambda>i. insertByTimeout i t) moved s1;
              s3 = (if timerOn
                    then fold (retimeActive t newTimeout) (active (tlists (gAssertionTypes s2 t))) s2
                    else s2)
          in notifyAnyChange (notifyTimeoutChange
               (callHandler t kAssertionOpRelease (updateAssertionTimer t s3))))"

text \<open>
  \<open>changeInSecs\<close> is an \<open>int\<close> computed from 32-bit unsigned minutes and sign-extended when it
  is added to the 64-bit timeout.
\<close>

definition evalAllUserActivityAssertions :: "u32 \<Rightarrow> pm \<Rightarrow> pm" where
  "evalAllUserActivityAssertions dispSlpTimer s =
     (if gDisplaySleepTimer s = dispSlpTimer then s
      else
        retimeType kDeclareUserActivityType (dispSlpTimer \<noteq> 0)
          (scast ((dispSlpTimer - gDisplaySleepTimer s) * 60))
          (currTime s + ucast (dispSlpTimer * 60))
          (s\<lparr>gDisplaySleepTimer := dispSlpTimer\<rparr>))"

definition evalAllNetworkAccessAssertions :: "pm \<Rightarrow> pm" where
  "evalAllNetworkAccessAssertions s =
     (let idle = getIdleSleepTimer (env s);
          change = (idle - gIdleSleepTimer s) * 60;
          s1 = s\<lparr>gIdleSleepTimer := idle\<rparr>
      in if change = 0 then s1
         else retimeType kNetworkAccessType (idle \<noteq> 0) change (currTime s + idle * 60) s1)"

definition clipTimeout :: "u64 \<Rightarrow> u64 \<Rightarrow> nat \<Rightarrow> pm \<Rightarrow> pm" where
  "clipTimeout autoTmo newTimeout i s =
     (if timeout (asn s i) > newTimeout then
        upd_asn i (\<lambda>a. prop_set kIOPMAssertionTimeoutUpdateTimeKey (CFDate (CFAbsoluteTimeGetCurrent (env s)))
          (prop_set kIOPMAssertionTimeoutTimeLeftKey (CFNumber (u64_rat autoTmo)) (a\<lparr>timeout := newTimeout\<rparr>))) s
      else s)"

definition evalAllInteractivePushAssertions :: "pm \<Rightarrow> pm" where
  "evalAllInteractivePushAssertions s =
     (let t = kInteractivePushServiceType;
          autoTmo = autoTimeout (gAssertionTypes s t)
      in notifyAnyChange (notifyTimeoutChange (updateAssertionTimer t
           (applyToAssertionsSync t kSelectActive (clipTimeout autoTmo (autoTmo + currTime s)) s))))"

section \<open>Power source and display changes\<close>

definition psChangeStep :: "kerAssertionType \<Rightarrow> nat \<Rightarrow> pm \<Rightarrow> pm" where
  "psChangeStep t i s =
     (let nb = (kAssertionTypeNotValidOnBatt \<in> flags (gAssertionTypes s t)) in
      if getPowerSource (env s) = kBatteryPowered then
        InternalStartProcTimer i
          (if kAssertionStateValidOnBatt \<notin> state (asn s i) \<and> nb
           then updateAppStats i kAssertionOpRelease s else s)
      else stopProcTimer i (if nb then updateAppStats i kAssertionOpRaise s else s))"

text \<open>The sampling timer of the per-process aggregates, which is set here too, is not modelled.\<close>

definition evaluateForPSChange :: "pm \<Rightarrow> pm" where
  "evaluateForPSChange s =
     (let pwrSrc = getPowerSource (env s) in
      if prevPwrSrc s = Some pwrSrc then s
      else
        let s1 = fold (\<lambda>t. callHandler t kAssertionOpEval) all_types (s\<lparr>prevPwrSrc := Some pwrSrc\<rparr>);
            s2 = configAssertionType kInteractivePushServiceType False
                   (configAssertionType kNetworkAccessType False
                     (configAssertionType kBackgroundTaskType False s1));
            s3 = emit CancelPowerNapStates (evalAllInteractivePushAssertions s2);
            s4 = fold (\<lambda>t. applyToAssertionsSync t kSelectActive (psChangeStep t)) all_types s3;
            s5 = emit LogASLAssertionsAggregate s4
        in if pwrSrc = kBatteryPowered then startSystemAssertionTimer 0 s5
           else cancelSystemAssertionTimer s5)"

definition evaluateProcTimerOnDisplayStateChange :: "bool \<Rightarrow> pm \<Rightarrow> pm" where
  "evaluateProcTimerOnDisplayStateChange displayAsleepOnTrigger s =
     (let cur = isDisplayAsleep (env s) in
      if cur = displayAsleepPrevious s then s
      else
        let s1 = s\<lparr>displayAsleepPrevious := cur\<rparr> in
        if cur then fold (\<lambda>t. applyToAssertionsSync t kSelectActive InternalStartProcTimer) all_types s1
        else if \<not> displayAsleepOnTrigger then
          fold (\<lambda>t. applyToAssertionsSync t kSelectActive stopProcTimer) all_types s1
        else s1)"

end
