(* ===== verification/AssertionConfigLemmas.thy ===== *)
theory AssertionConfigLemmas
  imports AssertionConfig
begin

unbundle bit_operations_syntax

text \<open>
  What configuration keeps and establishes: it leaves the assertion table alone, every type
  stays on exactly one effect list, the one of its effect, and a disabled type has none.
\<close>

section \<open>The table under configuration\<close>

definition same_table :: "core \<Rightarrow> core \<Rightarrow> bool" where
  "same_table c c' \<longleftrightarrow>
     c_lists c' = c_lists c \<and> c_asn c' = c_asn c \<and> c_next c' = c_next c \<and> c_env c' = c_env c \<and>
     dom (c_dict c) \<subseteq> dom (c_dict c')"

lemma same_table_refl [simp]: "same_table c c"
  by (simp add: same_table_def)

lemma same_table_trans: "same_table c c' \<Longrightarrow> same_table c' c'' \<Longrightarrow> same_table c c''"
  by (auto simp: same_table_def)

lemma wf_same_table:
  assumes "wf F c" "same_table c c'"
  shows "wf F c'"
proof -
  have l: "c_lists c' = c_lists c" "c_asn c' = c_asn c" "c_next c' = c_next c"
    and d: "dom (c_dict c) \<subseteq> dom (c_dict c')"
    using assms(2) by (auto simp: same_table_def)
  have t: "ctimeout c' = ctimeout c" by (simp add: ctimeout_def fun_eq_iff l)
  have "well_typed c' a" if "well_typed c a" for a
    using that d unfolding well_typed_def by blast
  then show ?thesis
    using assms(1) unfolding wf_def wf_links_def wf_bits_def wf_sorted_def wf_ids_def wf_types_def
      cbits_def t l by blast
qed

lemma same_table_upd_type:
  "(\<And>T. tlists (f T) = tlists T) \<Longrightarrow> same_table (core s) (core (upd_type t f s))"
  by (auto simp: same_table_def upd_type_def core_def fun_eq_iff)

lemma same_table_globals:
  "same_table (core s) (core (s\<lparr>gAssertionEffects := x\<rparr>))"
  "same_table (core s) (core (s\<lparr>prevBTdisable := y\<rparr>))"
  "same_table (core s) (core (s\<lparr>gUserAssertionTypesDict := gUserAssertionTypesDict s ++ m\<rparr>))"
  by (auto simp: same_table_def core_def)

lemma same_table_configSwitch: "same_table (core s) (core (configSwitch t s))"
proof -
  have "same_table (core s) (core (upd_type t (configStruct (env s) t (prevBTdisable s)) s))"
    by (rule same_table_upd_type) (simp add: configStruct_def)
  then show ?thesis
    by (auto simp: configSwitch_def Let_def same_table_def core_def upd_type_def)
qed

lemma same_table_insertEffect: "same_table (core s) (core (insertEffect t e s))"
  unfolding insertEffect_def
  by (rule same_table_trans [OF same_table_upd_type [of "\<lambda>T. T\<lparr>effectIdx := e\<rparr>" s t]])
    (simp_all add: same_table_def core_def)

lemma same_table_removeEffect: "same_table (core s) (core (removeEffect t s))"
  unfolding removeEffect_def by (rule same_table_globals)

lemma core_applySync:
  "(\<And>i s. core (f i s) = core s) \<Longrightarrow> core (applyToAssertionsSync t sel f s) = core s"
  unfolding applyToAssertionsSync_def by (rule core_fold_same)

text \<open>The parts of \<open>moveType\<close> up to and after the new effect.\<close>

definition restat ::
    "kerAssertionType \<Rightarrow> kerAssertionEffect \<Rightarrow> kerAssertionEffect \<Rightarrow> assertionOps \<Rightarrow> pm \<Rightarrow> pm" where
  "restat t prevEffect newEffect op s =
     (if gActivityAggCnt s \<noteq> 0 \<and> prevEffect \<noteq> newEffect
      then applyToAssertionsSync t kSelectActive (\<lambda>i. updateAppStats i op) s else s)"

lemma core_restat [core_simps]: "core (restat t e e' op s) = core s"
  by (simp add: restat_def core_applySync core_simps)

definition moveOut :: "kerAssertionType \<Rightarrow> assertionHandler option \<Rightarrow> pm \<Rightarrow> pm" where
  "moveOut t oldHandler s =
     (case oldHandler of Some h \<Rightarrow> run_handler h t kAssertionOpEval (removeEffect t s)
      | None \<Rightarrow> removeEffect t s)"

lemma core_moveOut: "core (moveOut t oh s) = core (removeEffect t s)"
  by (simp add: moveOut_def core_simps split: option.split)

lemma tconf_flags_same: "flags T = fl \<Longrightarrow> tconf (T\<lparr>flags := fl\<rparr>) = tconf T"
  by (simp add: tconf_def)

lemma core_restore_flags:
  "flags (gAssertionTypes s t) = fl \<Longrightarrow> core (upd_type t (\<lambda>T. T\<lparr>flags := fl\<rparr>) s) = core s"
  by (rule core_eqI) (auto simp: upd_type_def core_def fun_eq_iff tconf_def)

lemma flags_conf: "flags (gAssertionTypes s t) = fst (c_conf (core s) t)"
  by (simp add: core_sel tconf_def)

lemma core_moveType:
  "core (moveType t oh pe ne s) = core (insertEffect t ne (removeEffect t s))"
proof -
  let ?s2 = "moveOut t oh s"
  have c2: "core ?s2 = core (removeEffect t s)" by (rule core_moveOut)
  have "flags (gAssertionTypes ?s2 t) = flags (gAssertionTypes s t)"
    unfolding flags_conf c2 by (simp add: removeEffect_def core_def)
  then have c3: "core (upd_type t (\<lambda>T. T\<lparr>flags := flags (gAssertionTypes s t)\<rparr>) ?s2) = core (removeEffect t s)"
    using core_restore_flags c2 by metis
  have ins: "core (insertEffect t ne u) = core (insertEffect t ne v)" if "core u = core v" for u v
  proof -
    have e: "gAssertionEffects u = gAssertionEffects v" "gAssertionsArray u = gAssertionsArray u"
      "\<And>t. tlists (gAssertionTypes u t) = tlists (gAssertionTypes v t)"
      "\<And>t. tconf (gAssertionTypes u t) = tconf (gAssertionTypes v t)"
      using that by (metis core_sel(7), simp, metis core_sel(1), metis core_sel(6))
    have m: "c_asn (core u) = c_asn (core v)" "c_dict (core u) = c_dict (core v)"
      "c_env (core u) = c_env (core v)" "c_next (core u) = c_next (core v)"
      using that by simp_all
    show ?thesis
      using e m by (intro core_eqI)
        (auto simp: insertEffect_def core_def upd_type_def fun_eq_iff tconf_def)
  qed
  let ?s3 = "upd_type t (\<lambda>T. T\<lparr>flags := flags (gAssertionTypes s t)\<rparr>) ?s2"
  have "moveType t oh pe ne s =
      restat t pe ne kAssertionOpRaise
        (if ne \<noteq> kNoEffect then callHandler t kAssertionOpEval (insertEffect t ne (restat t pe ne kAssertionOpRelease ?s3))
         else insertEffect t ne (restat t pe ne kAssertionOpRelease ?s3))"
    unfolding moveType_def Let_def moveOut_def restat_def by (rule refl)
  then have "core (moveType t oh pe ne s) = core (insertEffect t ne (restat t pe ne kAssertionOpRelease ?s3))"
    by (simp add: core_simps)
  also have "\<dots> = core (insertEffect t ne (removeEffect t s))"
    by (rule ins) (simp add: core_simps c3)
  finally show ?thesis .
qed

text \<open>The table after a configuration.\<close>

lemma core_config_cases:
  "core (configAssertionType t ini s) \<in>
     {core (insertEffect t (if disableCnt (gAssertionTypes (configSwitch t s) t) \<noteq> 0 then kNoEffect
                            else configEffect (env s) t) (configSwitch t s)),
      core (insertEffect t (if disableCnt (gAssertionTypes (configSwitch t s) t) \<noteq> 0 then kNoEffect
                            else configEffect (env s) t) (removeEffect t (configSwitch t s))),
      core (configSwitch t s)}"
  unfolding configAssertionType_def Let_def
  by (simp add: core_moveType core_simps del: insert_iff) simp

lemma same_table_config: "same_table (core s) (core (configAssertionType t ini s))"
proof -
  have i: "same_table (core s) (core (insertEffect t e (configSwitch t s)))"
    and j: "same_table (core s) (core (insertEffect t e (removeEffect t (configSwitch t s))))" for e
    using same_table_trans [OF same_table_configSwitch same_table_insertEffect]
      same_table_trans [OF same_table_configSwitch
        same_table_trans [OF same_table_removeEffect same_table_insertEffect]] by blast+
  show ?thesis
    using core_config_cases [of t ini s] i j same_table_configSwitch [of s t]
    by (metis empty_iff insert_iff)
qed

lemma wf_configAssertionType: "wf F (core s) \<Longrightarrow> wf F (core (configAssertionType t ini s))"
  by (rule wf_same_table [OF _ same_table_config])

lemma wf_disableAssertionType: "wf F (core s) \<Longrightarrow> wf F (core (disableAssertionType t s))"
  unfolding disableAssertionType_def
  by (rule wf_configAssertionType, rule wf_same_table [OF _ same_table_upd_type]) simp_all

lemma wf_enableAssertionType: "wf F (core s) \<Longrightarrow> wf F (core (enableAssertionType t s))"
  unfolding enableAssertionType_def
  by (rule wf_configAssertionType, rule wf_same_table [OF _ same_table_upd_type]) simp_all

section \<open>Effect lists\<close>

text \<open>Every type is on exactly one effect list, once: the list of its effect.\<close>

definition wf_effects :: "pm \<Rightarrow> bool" where
  "wf_effects s \<longleftrightarrow>
     (\<forall>e t. count_list (gAssertionEffects s e) t = (if effectIdx (gAssertionTypes s t) = e then 1 else 0))"

lemma wf_effects_core: "core s = core s' \<Longrightarrow> wf_effects s = wf_effects s'"
proof -
  assume c: "core s = core s'"
  have "gAssertionEffects s = gAssertionEffects s'" using c by (metis core_sel(7))
  moreover have "effectIdx (gAssertionTypes s t) = effectIdx (gAssertionTypes s' t)" for t
    using c by (metis core_sel(6) tconf_def prod.inject)
  ultimately show ?thesis by (simp add: wf_effects_def)
qed

lemma count_list_removeAll: "count_list (removeAll x xs) y = (if x = y then 0 else count_list xs y)"
  by (induction xs) auto

lemma wf_effects_move:
  assumes "wf_effects s"
  shows "wf_effects (insertEffect t e (removeEffect t s))"
  using assms by (auto simp: wf_effects_def insertEffect_def removeEffect_def upd_type_def
      count_list_removeAll)

lemma configSwitch_effects:
  "gAssertionEffects (configSwitch t s) = gAssertionEffects s"
  "effectIdx (gAssertionTypes (configSwitch t s) u) = effectIdx (gAssertionTypes s u)"
  "env (configSwitch t s) = env s"
  by (simp_all add: configSwitch_def Let_def upd_type_def configStruct_def)

lemma wf_effects_configSwitch: "wf_effects s \<Longrightarrow> wf_effects (configSwitch t s)"
  by (simp add: wf_effects_def configSwitch_effects)

lemma core_config_run:
  assumes "effectIdx (gAssertionTypes s t) = e"
  defines "ne \<equiv> if disableCnt (gAssertionTypes (configSwitch t s) t) \<noteq> 0 then kNoEffect
    else configEffect (env s) t"
  shows "core (configAssertionType t False s) = core (insertEffect t ne (removeEffect t (configSwitch t s))) \<or>
    core (configAssertionType t False s) = core (configSwitch t s) \<and> e = ne"
  using assms unfolding configAssertionType_def Let_def ne_def
  by (auto simp: core_moveType core_simps)

lemma wf_effects_config:
  assumes "wf_effects s"
  shows "wf_effects (configAssertionType t False s)"
  using core_config_run [OF refl, where s = s and t = t] wf_effects_configSwitch [OF assms, of t]
    wf_effects_move [OF wf_effects_configSwitch [OF assms, of t]] wf_effects_core by blast

text \<open>The effect of a type after its configuration.\<close>

lemma effectIdx_core: "core s = core s' \<Longrightarrow> effectIdx (gAssertionTypes s t) = effectIdx (gAssertionTypes s' t)"
  by (metis core_sel(6) tconf_def prod.inject)

lemma effectIdx_insert: "effectIdx (gAssertionTypes (insertEffect t e s) t) = e"
  by (simp add: insertEffect_def upd_type_def)

lemma effectIdx_config:
  "effectIdx (gAssertionTypes (configAssertionType t False s) t) =
     (if disableCnt (gAssertionTypes (configSwitch t s) t) \<noteq> 0 then kNoEffect else configEffect (env s) t)"
proof -
  let ?n = "if disableCnt (gAssertionTypes (configSwitch t s) t) \<noteq> 0 then kNoEffect
    else configEffect (env s) t"
  consider "core (configAssertionType t False s) = core (insertEffect t ?n (removeEffect t (configSwitch t s)))"
    | "core (configAssertionType t False s) = core (configSwitch t s)"
      "effectIdx (gAssertionTypes s t) = ?n"
    using core_config_run [OF refl, where s = s and t = t] by blast
  then show ?thesis
  proof cases
    case 1
    from effectIdx_core [OF this, of t] show ?thesis by (simp only: effectIdx_insert)
  next
    case 2
    from effectIdx_core [OF 2(1), of t] show ?thesis by (simp only: configSwitch_effects(2) 2(2))
  qed
qed

section \<open>Disabled types\<close>

lemma disableCnt_configSwitch:
  "t \<noteq> kBackgroundTaskType \<Longrightarrow>
   disableCnt (gAssertionTypes (configSwitch t s) t) = disableCnt (gAssertionTypes s t)"
  by (simp add: configSwitch_def Let_def upd_type_def configStruct_def configDisable_def)

lemma no_effect_no_actives:
  "effectIdx (gAssertionTypes s t) = kNoEffect \<Longrightarrow> checkForActives s t w = (False, False)"
  by (simp add: checkForActives_def)

lemma wf_effects_not_in:
  assumes "wf_effects s" "effectIdx (gAssertionTypes s t) \<noteq> e"
  shows "t \<notin> set (gAssertionEffects s e)"
  using assms by (metis wf_effects_def count_notin count_list_0_iff)

lemma wf_effects_in:
  assumes "wf_effects s"
  shows "t \<in> set (gAssertionEffects s e) \<longleftrightarrow> effectIdx (gAssertionTypes s t) = e"
  using assms by (metis wf_effects_def count_list_0_iff zero_neq_one)

text \<open>An effect has active assertions iff one of its types has.\<close>

lemma effectLoop_iff: "effectLoop s ts \<longleftrightarrow> (\<exists>t \<in> set ts. typeActive s t)"
  by (induction ts) auto

lemma checkForActivesByEffect_iff:
  assumes "wf_effects s" "e \<noteq> kNoEffect"
  shows "checkForActivesByEffect s e \<longleftrightarrow> (\<exists>t. effectIdx (gAssertionTypes s t) = e \<and> typeActive s t)"
  using assms wf_effects_in [OF assms(1)] by (auto simp: checkForActivesByEffect_def effectLoop_iff)

lemma activesLoop_iff:
  "fst (activesLoop s t w ts ea) \<longleftrightarrow> ea \<or> (\<exists>u \<in> set ts. typeActive s u)"
  "w \<Longrightarrow> snd (activesLoop s t w ts ea) \<longleftrightarrow> t \<in> set ts \<and> typeActive s t"
  by (induction ts arbitrary: ea) (auto simp: Let_def)

lemma checkForActives_iff:
  assumes "wf_effects s" and "effectIdx (gAssertionTypes s t) = e" "e \<noteq> kNoEffect"
  shows "checkForActives s t True = (checkForActivesByEffect s e, typeActive s t)"
    and "fst (checkForActives s t False) = checkForActivesByEffect s e"
proof -
  have f: "fst (checkForActives s t w) = checkForActivesByEffect s e" for w
    using assms(2,3) by (simp add: checkForActives_def checkForActivesByEffect_def effectLoop_iff
        activesLoop_iff(1) Let_def)
  have "snd (checkForActives s t True) = typeActive s t"
    using assms wf_effects_in [OF assms(1)] by (simp add: checkForActives_def activesLoop_iff(2) Let_def)
  with f show "checkForActives s t True = (checkForActivesByEffect s e, typeActive s t)"
    by (metis prod.collapse)
  show "fst (checkForActives s t False) = checkForActivesByEffect s e" by (rule f)
qed

section \<open>The start\<close>

lemma insertEffect_fresh:
  "gAssertionEffects (insertEffect t e s) =
     (gAssertionEffects s)(e := t # gAssertionEffects s e)"
  "effectIdx (gAssertionTypes (insertEffect t e s) u) = (if u = t then e else effectIdx (gAssertionTypes s u))"
  by (simp_all add: insertEffect_def upd_type_def)

lemma config_initial:
  "\<exists>e. gAssertionEffects (configAssertionType t True s) = (gAssertionEffects s)(e := t # gAssertionEffects s e) \<and>
     (\<forall>u. effectIdx (gAssertionTypes (configAssertionType t True s) u) =
        (if u = t then e else effectIdx (gAssertionTypes s u)))"
  by (auto simp: configAssertionType_def Let_def insertEffect_fresh configSwitch_effects)

text \<open>The types of \<open>ts\<close> are on the list of their effect, the others on none.\<close>

definition entered :: "kerAssertionType set \<Rightarrow> pm \<Rightarrow> bool" where
  "entered D s \<longleftrightarrow>
     (\<forall>e t. count_list (gAssertionEffects s e) t =
        (if t \<in> D \<and> effectIdx (gAssertionTypes s t) = e then 1 else 0))"

lemma entered_config:
  assumes "entered D s" "t \<notin> D"
  shows "entered (insert t D) (configAssertionType t True s)"
proof -
  obtain e where e: "gAssertionEffects (configAssertionType t True s) =
      (gAssertionEffects s)(e := t # gAssertionEffects s e)"
    "\<And>u. effectIdx (gAssertionTypes (configAssertionType t True s) u) =
        (if u = t then e else effectIdx (gAssertionTypes s u))"
    using config_initial [of t s] by blast
  show ?thesis using assms unfolding entered_def e by auto
qed

lemma entered_fold:
  "entered D s \<Longrightarrow> distinct ts \<Longrightarrow> set ts \<inter> D = {} \<Longrightarrow>
   entered (set ts \<union> D) (fold (\<lambda>t. configAssertionType t True) ts s)"
proof (induction ts arbitrary: D s)
  case Nil
  then show ?case by simp
next
  case (Cons t ts)
  have "entered (insert t D) (configAssertionType t True s)"
    using entered_config Cons.prems by auto
  from Cons.IH [OF this] Cons.prems show ?case by auto
qed

lemma fold_configEffect:
  "fold configAssertionEffect es s =
     s\<lparr>gAssertionEffects := (\<lambda>e. if e \<in> set es then [] else gAssertionEffects s e)\<rparr>"
  by (induction es arbitrary: s) (auto simp: configAssertionEffect_def fun_eq_iff)

lemma in_all_effects [simp]: "e \<in> set all_effects"
  by (cases e) (simp_all add: all_effects_def)

lemma fold_same_table:
  "same_table (core s) (core (fold (\<lambda>t. configAssertionType t True) ts s))"
  by (induction ts arbitrary: s) (auto intro: same_table_trans [OF same_table_config])

lemma wf_empty:
  assumes "\<And>t. c_lists c t = empty_lists" "c_asn c = Map.empty" "c_next c = 0"
  shows "wf {} c"
  using assms by (simp add: wf_def wf_links_def wf_bits_def wf_sorted_def wf_ids_def wf_types_def
      linked_def empty_lists_def kMaxAssertions_def)

lemma core_prime:
  "core (PMAssertions_prime s) = core (fold (\<lambda>t. configAssertionType t True) all_types
     (s\<lparr>gAssertionsArray := Map.empty, gProcessDict := Map.empty,
        gUserAssertionTypesDict := Map.empty, gAssertionEffects := (\<lambda>_. [])\<rparr>))"
  by (simp add: PMAssertions_prime_def Let_def core_simps fold_configEffect)

text \<open>After the start the table is empty and well formed and every type has its effect list.\<close>

lemma prime_wf: "wf {} (core (PMAssertions_prime (loaded E)))"
  unfolding core_prime
  by (rule wf_same_table [OF wf_empty fold_same_table])
    (simp_all add: loaded_def core_def zero_assertionType_def)

lemma prime_wf_effects: "wf_effects (PMAssertions_prime (loaded E))"
proof -
  let ?s0 = "(loaded E)\<lparr>gAssertionsArray := Map.empty, gProcessDict := Map.empty,
        gUserAssertionTypesDict := Map.empty, gAssertionEffects := (\<lambda>_. [])\<rparr>"
  have "entered {} ?s0" by (simp add: entered_def)
  from entered_fold [OF this, of all_types]
  have "wf_effects (fold (\<lambda>t. configAssertionType t True) all_types ?s0)"
    by (simp add: wf_effects_def entered_def)
  then show ?thesis using wf_effects_core [OF core_prime] by blast
qed

end
