(* ===== verification/AssertionRetime.thy ===== *)
theory AssertionRetime
  imports AssertionConfigLemmas
begin

unbundle bit_operations_syntax

text \<open>
  The re-evaluations keep the table: moving the timeouts of a type takes assertions off the
  timed list and puts them back in order, clipping timeouts keeps the order, and a change of
  the power source or of the display touches no list at all but that one.
\<close>

section \<open>Moving the timeouts of a type\<close>

definition timedIn :: "kerAssertionType \<Rightarrow> core \<Rightarrow> nat \<Rightarrow> bool" where
  "timedIn t c i \<longleftrightarrow> (\<exists>a. c_asn c i = Some a \<and> c_kassert a = t \<and> c_timed a \<and> \<not> c_inactive a \<and>
     well_typed c a)"

lemma timedIn_only_at: "only_at I c c' \<Longrightarrow> j \<notin> I \<Longrightarrow> timedIn t c' j = timedIn t c j"
  by (simp add: only_at_def timedIn_def well_typed_def)

lemma core_set_timeout:
  "gAssertionsArray s i = Some a \<Longrightarrow>
   core (upd_asn i (\<lambda>a. a\<lparr>timeout := f a\<rparr>) s) = c_upd i (\<lambda>b. b\<lparr>c_timeout := f a\<rparr>) (core s)"
  by (rule core_eqI) (auto simp: upd_asn_def core_def fun_eq_iff acore_def)

lemma c_insert_timed_again:
  assumes "c_asn c i = Some a" "c_timed a"
  shows "c_lists_upd t (\<lambda>l. l\<lparr>activeTimed := insert_by (ctimeout c) i (activeTimed l)\<rparr>) c = c_insert_timed i t c"
  using assms by (intro core_eqI) (auto simp: c_insert_timed_def fun_eq_iff)

lemma retimeStep_ok:
  assumes wf: "wf (set m) (core s)" and i: "i \<notin> set m" and tm: "timedIn t (core s) i"
    and st: "retimeStep t on ch i (m, s) = (m', s')"
  shows "wf (set m') (core s') \<and> only_at {i} (core s) (core s') \<and>
    (m' = m \<or> m' = i # m \<and> timedIn t (core s') i)"
proof (cases "kAssertionTimeoutIsSystemTimer \<in> state (asn s i)")
  case False
  then show ?thesis using st wf by (auto simp: retimeStep_def)
next
  case sys: True
  obtain a where a: "c_asn (core s) i = Some a" "c_kassert a = t" "c_timed a" "\<not> c_inactive a"
    "well_typed (core s) a"
    using tm by (auto simp: timedIn_def)
  have uid: "c_uid a" using a(5) by (simp add: well_typed_def)
  show ?thesis
  proof (cases on)
    case True
    obtain a0 where a0: "gAssertionsArray (LIST_REMOVE i s) i = Some a0"
      using a(1) by (auto simp: core_sel LIST_REMOVE_def)
    let ?f = "\<lambda>a. if timeout a + ch < currTime s then currTime s else timeout a + ch"
    have m': "m' = i # m" and s': "s' = upd_asn i (\<lambda>a. a\<lparr>timeout := ?f a\<rparr>) (LIST_REMOVE i s)"
      using st sys True by (auto simp: retimeStep_def)
    have c: "core s' = c_upd i (\<lambda>b. b\<lparr>c_timeout := ?f a0\<rparr>) (c_unlink i (core s))"
      unfolding s' core_set_timeout [OF a0] core_LIST_REMOVE by (rule refl)
    have "wf (insert i (set m)) (core s')"
      unfolding c by (rule wf_unlink_upd [OF wf]) (simp add: keeps_identity_def)
    moreover have "only_at {i} (core s) (core s')"
      unfolding c by (rule only_at_trans [OF only_at_ops(2) only_at_ops(1)]) simp_all
    moreover have "timedIn t (core s') i" using a by (simp add: c timedIn_def well_typed_def)
    ultimately show ?thesis using m' by simp
  next
    case False
    let ?r = "removeTimedAssertion i t False True s"
    have m': "m' = m" and s': "s' = insertActiveAssertion i t True (upd_asn i (\<lambda>a. a\<lparr>timeout := 0\<rparr>) ?r)"
      using st sys False by (auto simp: retimeStep_def)
    let ?b = "a\<lparr>c_timed := False, c_timeout := 0\<rparr>"
    have c1: "core (upd_asn i (\<lambda>a. a\<lparr>timeout := 0\<rparr>) ?r) = c_upd i (\<lambda>_. ?b) (c_unlink i (core s))"
      using a(1) by (intro core_eqI) (auto simp: core_timeout core_simps)
    have l: "lifted (set m) UNIV i ?b (core s) (core (upd_asn i (\<lambda>a. a\<lparr>timeout := 0\<rparr>) ?r))"
      unfolding c1 by (rule liftedI [OF wf a(1) i]) (simp_all add: uid)
    have "wf (set m) (core s')"
      unfolding s' core_insertActive using lifted_insert(2) [OF l, of t] a(2) by simp
    moreover have "only_at {i} (core s) (core s')"
      unfolding s' core_insertActive c1
      by (rule only_at_trans [OF only_at_trans [OF only_at_ops(2) only_at_ops(1)] only_at_ops(5)]) simp_all
    ultimately show ?thesis using m' by simp
  qed
qed

lemma retimeSteps_ok:
  assumes "wf (set m) (core s)" and "distinct m" and "distinct xs" and "set xs \<inter> set m = {}"
    and "\<forall>i \<in> set xs \<union> set m. timedIn t (core s) i"
    and "fold (retimeStep t on ch) xs (m, s) = (m', s')"
  shows "wf (set m') (core s') \<and> distinct m' \<and> (\<forall>i \<in> set m'. timedIn t (core s') i)"
  using assms
proof (induction xs arbitrary: m s)
  case Nil
  then show ?case by simp
next
  case (Cons i xs)
  obtain m1 s1 where st: "retimeStep t on ch i (m, s) = (m1, s1)" by (cases "retimeStep t on ch i (m, s)")
  have i: "i \<notin> set m" "timedIn t (core s) i" using Cons.prems(4,5) by auto
  note one = retimeStep_ok [OF Cons.prems(1) i st]
  then have o: "only_at {i} (core s) (core s1)" and m1: "m1 = m \<or> m1 = i # m \<and> timedIn t (core s1) i"
    by auto
  have tm: "timedIn t (core s1) j" if "j \<in> set xs \<union> set m1" for j
  proof (cases "j = i")
    case True
    then show ?thesis using that m1 i(1) Cons.prems(3) by auto
  next
    case False
    then show ?thesis
      using timedIn_only_at [OF o, of j t] that m1 Cons.prems(5) by auto
  qed
  show ?case
  proof (rule Cons.IH)
    show "wf (set m1) (core s1)" using one by blast
    show "distinct m1" using m1 i(1) Cons.prems(2) by auto
    show "distinct xs" using Cons.prems(3) by simp
    show "set xs \<inter> set m1 = {}" using m1 Cons.prems(3,4) by auto
    show "\<forall>i \<in> set xs \<union> set m1. timedIn t (core s1) i" using tm by blast
    show "fold (retimeStep t on ch) xs (m1, s1) = (m', s')" using Cons.prems(6) st by simp
  qed
qed

lemma reinsert_ok:
  assumes "wf (set m) (core s)" and "distinct m" and "\<forall>i \<in> set m. timedIn t (core s) i"
  shows "wf {} (core (fold (\<lambda>i. insertByTimeout i t) m s))"
  using assms
proof (induction m arbitrary: s)
  case Nil
  then show ?case by simp
next
  case (Cons i m)
  obtain a where a: "c_asn (core s) i = Some a" "c_kassert a = t" "c_timed a" "\<not> c_inactive a"
    "well_typed (core s) a"
    using Cons.prems(3) by (auto simp: timedIn_def)
  let ?s1 = "insertByTimeout i t s"
  have c: "core ?s1 = c_insert_timed i t (core s)"
    unfolding core_insertByTimeout by (rule c_insert_timed_again [OF a(1,3)])
  have "wf (set m) (core ?s1)"
    unfolding c using wf_insert_timed [OF Cons.prems(1) _ a(1,2,5,4)] Cons.prems(2)
    by (simp add: insert_Diff_if)
  moreover have o: "only_at {i} (core s) (core ?s1)" unfolding c by (rule only_at_ops) simp
  have "\<forall>j \<in> set m. timedIn t (core ?s1) j"
  proof
    fix j assume "j \<in> set m"
    then have "j \<notin> {i}" "timedIn t (core s) j" using Cons.prems(2,3) by auto
    then show "timedIn t (core ?s1) j" using timedIn_only_at [OF o] by blast
  qed
  ultimately show ?case using Cons.IH Cons.prems(2) by simp
qed

lemma retimeActive_ok:
  assumes wf: "wf {} (core s)" and a: "c_asn (core s) i = Some a" "c_kassert a = t"
    "\<not> c_timed a" "\<not> c_inactive a"
  shows "wf {} (core (retimeActive t nt i s)) \<and> only_at {i} (core s) (core (retimeActive t nt i s))"
proof (cases "kAssertionTimeoutIsSystemTimer \<in> state (asn s i)")
  case False
  then show ?thesis using wf by (simp add: retimeActive_def)
next
  case True
  let ?r = "removeActiveAssertion i t True (upd_asn i (\<lambda>a. a\<lparr>timeout := nt\<rparr>) s)"
  let ?b = "a\<lparr>c_timeout := nt\<rparr>"
  have uid: "c_uid a" using wf_well_typed [OF wf a(1)] by (simp add: well_typed_def)
  have c: "core ?r = c_upd i (\<lambda>_. ?b) (c_unlink i (core s))"
    using a(1) by (intro core_eqI) (auto simp: core_timeout core_simps)
  have l: "lifted {} UNIV i ?b (core s) (core ?r)"
    unfolding c by (rule liftedI [OF wf a(1)]) (simp_all add: uid)
  have r: "core (retimeActive t nt i s) = c_insert_timed i t (core ?r)"
    using True by (simp add: retimeActive_def core_insertTimed)
  have "wf {} (core (retimeActive t nt i s))"
    unfolding r using lifted_insert(3) [OF l, of t] a by simp
  moreover have "only_at {i} (core s) (core (retimeActive t nt i s))"
    unfolding r c
    by (rule only_at_trans [OF only_at_trans [OF only_at_ops(2) only_at_ops(1)] only_at_ops(6)]) simp_all
  ultimately show ?thesis by blast
qed

lemma retimeActives_ok:
  assumes "wf {} (core s)" and "distinct xs"
    and "\<forall>i \<in> set xs. \<exists>a. c_asn (core s) i = Some a \<and> c_kassert a = t \<and> \<not> c_timed a \<and> \<not> c_inactive a"
  shows "wf {} (core (fold (retimeActive t nt) xs s))"
  using assms
proof (induction xs arbitrary: s)
  case Nil
  then show ?case by simp
next
  case (Cons i xs)
  obtain a where a: "c_asn (core s) i = Some a" "c_kassert a = t" "\<not> c_timed a" "\<not> c_inactive a"
    using Cons.prems(3) by auto
  note one = retimeActive_ok [OF Cons.prems(1) a, of nt]
  have "\<forall>j \<in> set xs. c_asn (core (retimeActive t nt i s)) j = c_asn (core s) j"
    using one Cons.prems(2) unfolding only_at_def by auto
  then show ?case using Cons.IH one Cons.prems(2,3) by simp
qed

lemma wf_list_members:
  assumes wf: "wf {} c"
  shows "i \<in> set (activeTimed (c_lists c t)) \<Longrightarrow> timedIn t c i"
    and "i \<in> set (active (c_lists c t)) \<Longrightarrow>
      \<exists>a. c_asn c i = Some a \<and> c_kassert a = t \<and> \<not> c_timed a \<and> \<not> c_inactive a"
    and "distinct (activeTimed (c_lists c t))" "distinct (active (c_lists c t))"
proof -
  have d: "distinct (linked (c_lists c t))" using wfD(1) [OF wf] by (simp add: wf_links_def)
  then show "distinct (activeTimed (c_lists c t))" "distinct (active (c_lists c t))"
    by (simp_all add: linked_def)
  show "timedIn t c i" if i: "i \<in> set (activeTimed (c_lists c t))"
  proof -
    obtain a where a: "c_asn c i = Some a" "c_kassert a = t" using wf_linked_live [OF wf, of i t] i by auto
    then show ?thesis
      using wf_list_bits(1) [OF wf a(1) i] wf_well_typed [OF wf a(1)] by (auto simp: timedIn_def)
  qed
  show "\<exists>a. c_asn c i = Some a \<and> c_kassert a = t \<and> \<not> c_timed a \<and> \<not> c_inactive a"
    if i: "i \<in> set (active (c_lists c t))"
  proof -
    obtain a where a: "c_asn c i = Some a" "c_kassert a = t" using wf_linked_live [OF wf, of i t] i by auto
    then show ?thesis using wf_list_bits(2) [OF wf a(1) i] by auto
  qed
qed

lemma retimeType_ok:
  assumes wf: "wf {} (core s)"
  shows "wf {} (core (retimeType t on ch nt s))"
proof -
  obtain m s1 where f: "fold (retimeStep t on ch) (activeTimed (tlists (gAssertionTypes s t))) ([], s) = (m, s1)"
    by fastforce
  have 1: "wf (set m) (core s1) \<and> distinct m \<and> (\<forall>i \<in> set m. timedIn t (core s1) i)"
    by (rule retimeSteps_ok [OF _ _ _ _ _ f])
      (use wf wf_list_members(1,3) [OF wf] in \<open>simp_all add: core_lists\<close>)
  let ?s2 = "fold (\<lambda>i. insertByTimeout i t) m s1"
  have 2: "wf {} (core ?s2)" using reinsert_ok 1 by blast
  have 3: "wf {} (core (fold (retimeActive t nt) (active (tlists (gAssertionTypes ?s2 t))) ?s2))"
    by (rule retimeActives_ok [OF 2]) (use wf_list_members(2,4) [OF 2] in \<open>simp_all add: core_lists\<close>)
  show ?thesis using 2 3 by (simp add: retimeType_def f Let_def core_simps)
qed

lemma evalAllUserActivityAssertions_ok:
  "wf {} (core s) \<Longrightarrow> wf {} (core (evalAllUserActivityAssertions n s))"
  by (simp add: evalAllUserActivityAssertions_def retimeType_ok core_globals)

lemma evalAllNetworkAccessAssertions_ok:
  "wf {} (core s) \<Longrightarrow> wf {} (core (evalAllNetworkAccessAssertions s))"
  by (simp add: evalAllNetworkAccessAssertions_def Let_def retimeType_ok core_globals)

section \<open>Clipping timeouts\<close>

text \<open>Taking the minimum with one bound on every timeout of a sorted list keeps it sorted.\<close>

definition clipped :: "u64 \<Rightarrow> nat set \<Rightarrow> core \<Rightarrow> core \<Rightarrow> bool" where
  "clipped b I c c' \<longleftrightarrow>
     c_lists c' = c_lists c \<and> c_dict c' = c_dict c \<and> c_env c' = c_env c \<and> c_next c' = c_next c \<and>
     c_conf c' = c_conf c \<and> c_effects c' = c_effects c \<and>
     c_asn c' = (\<lambda>i. if i \<in> I then map_option (\<lambda>a. a\<lparr>c_timeout := min (c_timeout a) b\<rparr>) (c_asn c i) else c_asn c i)"

lemma core_clipTimeout:
  "core (clipTimeout n b i s) = c_upd i (\<lambda>a. a\<lparr>c_timeout := min (c_timeout a) b\<rparr>) (core s)"
proof (cases "timeout (asn s i) > b")
  case True
  have "core (upd_asn i (\<lambda>a. prop_set kIOPMAssertionTimeoutUpdateTimeKey v
      (prop_set kIOPMAssertionTimeoutTimeLeftKey w (a\<lparr>timeout := b\<rparr>))) s) =
      c_upd i (\<lambda>a. a\<lparr>c_timeout := b\<rparr>) (core s)" for v w
    by (rule core_upd_asn) (simp add: acore_def type_of_props_def)
  then have "core (clipTimeout n b i s) = c_upd i (\<lambda>a. a\<lparr>c_timeout := b\<rparr>) (core s)"
    using True by (simp add: clipTimeout_def)
  also have "\<dots> = c_upd i (\<lambda>a. a\<lparr>c_timeout := min (c_timeout a) b\<rparr>) (core s)"
    using True by (intro core_eqI)
      (auto simp: fun_eq_iff core_sel asn_def min_def map_option_case split: option.split)
  finally show ?thesis .
next
  case False
  then show ?thesis
    by (intro core_eqI)
      (auto simp: clipTimeout_def fun_eq_iff core_sel asn_def min_def map_option_case split: option.split)
qed

lemma clipped_fold: "clipped b (set xs) (core s) (core (fold (clipTimeout n b) xs s))"
proof (induction xs arbitrary: s)
  case Nil
  then show ?case by (simp add: clipped_def)
next
  case (Cons i xs)
  show ?case using Cons [of "clipTimeout n b i s"]
    by (auto simp: clipped_def core_clipTimeout fun_eq_iff option.map_comp comp_def
        map_option_case split: option.split)
qed

lemma sorted_map_min: "sorted (map k xs) \<Longrightarrow> sorted (map (\<lambda>x. min (k x) (b::'a::linorder)) xs)"
  by (induction xs) (auto simp: min_le_iff_disj)

lemma wf_clipped:
  assumes wf: "wf {} c" and cl: "clipped b (set (selected kSelectActive (c_lists c t0))) c c'"
  shows "wf {} c'"
proof -
  let ?I = "set (selected kSelectActive (c_lists c t0))"
  have l: "c_lists c' = c_lists c" "c_dict c' = c_dict c" "c_next c' = c_next c"
    and a: "c_asn c' = (\<lambda>i. if i \<in> ?I then map_option (\<lambda>a. a\<lparr>c_timeout := min (c_timeout a) b\<rparr>) (c_asn c i)
      else c_asn c i)"
    using cl unfolding clipped_def by auto
  have ex: "(\<exists>x. c_asn c' i = Some x \<and> c_kassert x = t) \<longleftrightarrow> (\<exists>x. c_asn c i = Some x \<and> c_kassert x = t)" for i t
    by (auto simp: a simp del: selected.simps)
  then have links: "wf_links {} c'"
    using wfD(1) [OF wf] unfolding wf_links_def l by (metis empty_iff)
  have "cbits c' i p q \<longleftrightarrow> cbits c i p q" for i p q
    by (auto simp: cbits_def a simp del: selected.simps)
  then have bits: "wf_bits c'"
    using wfD(2) [OF wf] by (simp add: wf_bits_def l)
  have same: "ctimeout c' i = ctimeout c i" if "i \<in> set (activeTimed (c_lists c t))" "t \<noteq> t0" for i t
  proof -
    have "i \<notin> ?I"
      using that wf_linked_live [OF wf, of i t] wf_linked_live [OF wf, of i t0] by auto
    then show ?thesis by (simp add: ctimeout_def a del: selected.simps)
  qed
  have min: "ctimeout c' i = min (ctimeout c i) b" if "i \<in> set (activeTimed (c_lists c t0))" for i
    using that wf_linked_live [OF wf, of i t0] by (auto simp: ctimeout_def a)
  have "sorted (map (ctimeout c') (activeTimed (c_lists c t)))" for t
  proof (cases "t = t0")
    case True
    have "map (ctimeout c') (activeTimed (c_lists c t0)) = map (\<lambda>i. min (ctimeout c i) b) (activeTimed (c_lists c t0))"
      using min by (intro map_cong refl) blast
    moreover have "sorted (map (ctimeout c) (activeTimed (c_lists c t0)))"
      using wfD(3) [OF wf] by (simp add: wf_sorted_def)
    ultimately show ?thesis
      using sorted_map_min [of "ctimeout c" "activeTimed (c_lists c t0)" b] True by metis
  next
    case False
    then have "map (ctimeout c') (activeTimed (c_lists c t)) = map (ctimeout c) (activeTimed (c_lists c t))"
      using same by (intro map_cong refl) blast
    moreover have "sorted (map (ctimeout c) (activeTimed (c_lists c t)))"
      using wfD(3) [OF wf] by (simp add: wf_sorted_def)
    ultimately show ?thesis by (simp only:)
  qed
  then have "wf_sorted c'" by (simp add: wf_sorted_def l)
  moreover have "wf_ids c'"
    using wfD(4) [OF wf] unfolding wf_ids_def l a by (auto simp del: selected.simps split: if_splits)
  moreover have "wf_types {} c'"
    using wfD(5) [OF wf] unfolding wf_types_def well_typed_def l a
    by (auto simp del: selected.simps split: if_splits)
  ultimately show ?thesis using links bits by (simp add: wf_def)
qed

lemma evalAllInteractivePushAssertions_ok:
  assumes wf: "wf {} (core s)"
  shows "wf {} (core (evalAllInteractivePushAssertions s))"
proof -
  let ?t = kInteractivePushServiceType
  let ?n = "autoTimeout (gAssertionTypes s ?t)"
  have "core (evalAllInteractivePushAssertions s) =
      core (fold (clipTimeout ?n (?n + currTime s)) (selected kSelectActive (c_lists (core s) ?t)) s)"
    by (simp add: evalAllInteractivePushAssertions_def Let_def core_simps applyToAssertionsSync_def core_lists)
  then show ?thesis using wf_clipped [OF wf clipped_fold] by simp
qed

section \<open>Power source and display changes\<close>

lemma core_psChangeStep [core_simps]: "core (psChangeStep t i s) = core s"
  by (simp add: psChangeStep_def Let_def core_simps)

lemma evaluateForPSChange_ok:
  assumes wf: "wf {} (core s)"
  shows "wf {} (core (evaluateForPSChange s))"
proof -
  let ?s0 = "s\<lparr>prevPwrSrc := Some (getPowerSource (env s))\<rparr>"
  let ?s1 = "fold (\<lambda>t. callHandler t kAssertionOpEval) all_types ?s0"
  have c1: "core ?s1 = core s" by (simp add: core_fold_same core_callHandler core_globals)
  let ?s2 = "configAssertionType kInteractivePushServiceType False
      (configAssertionType kNetworkAccessType False (configAssertionType kBackgroundTaskType False ?s1))"
  have "wf {} (core ?s2)" using wf c1 by (simp add: wf_configAssertionType)
  then have w3: "wf {} (core (evalAllInteractivePushAssertions ?s2))"
    by (rule evalAllInteractivePushAssertions_ok)
  have f: "core (fold (\<lambda>t. applyToAssertionsSync t kSelectActive (psChangeStep t)) all_types u) = core u" for u
    by (rule core_fold_same, rule core_applySync) (rule core_psChangeStep)
  have "core (evaluateForPSChange s) =
      (if prevPwrSrc s = Some (getPowerSource (env s)) then core s
       else core (evalAllInteractivePushAssertions ?s2))"
    unfolding evaluateForPSChange_def Let_def
    by (simp only: if_distrib [of core] core_systemTimer core_emit f if_cancel)
  then show ?thesis using wf w3 by presburger
qed

lemma core_evaluateProcTimer [core_simps]:
  "core (evaluateProcTimerOnDisplayStateChange b s) = core s"
proof -
  have f: "core (fold (\<lambda>t. applyToAssertionsSync t kSelectActive InternalStartProcTimer) all_types u) = core u"
    "core (fold (\<lambda>t. applyToAssertionsSync t kSelectActive stopProcTimer) all_types u) = core u" for u
    by (rule core_fold_same, rule core_applySync, rule core_procTimers)+
  show ?thesis by (simp add: evaluateProcTimerOnDisplayStateChange_def Let_def core_simps f)
qed

end
