(* ===== verification/AssertionClient.thy ===== *)
theory AssertionClient
  imports AssertionRetime "HOL-Library.AList"
begin

unbundle bit_operations_syntax

text \<open>
  The client interface of the assertion engine (PMAssertions.c): the entitlement checks, the
  MIG and XPC request handlers, the entry points other parts of the daemon call, the copying
  of assertions, and the system assertion timer.

  A request carries the audit token of its sender, of which the engine reads the pid, the
  entitlements, whether the user is root or an administrator, and whether the process is
  RunningBoard: the record \<open>caller\<close>.  A serialised property list is the dictionary it decodes
  to, as an association list in the order \<open>CFDictionaryApplyFunction\<close> visits it, or \<open>None\<close>
  when it does not decode to a dictionary.
\<close>

record caller =
  callerPID :: pid
  auditTokenHasEntitlement :: "entitlementName \<Rightarrow> bool"
  callerIsRoot :: bool
  callerIsAdmin :: bool
  auditTokenIsRunningboardd :: bool

section \<open>Permissions\<close>

definition propertiesDictRequiresRoot :: "props_t \<Rightarrow> bool" where
  "propertiesDictRequiresRoot p \<longleftrightarrow>
     p kIOPMInflowDisableAssertion \<noteq> None \<or> p kIOPMChargeInhibitAssertion \<noteq> None"

definition asks :: "props_t \<Rightarrow> propKey \<Rightarrow> bool" where
  "asks p k \<longleftrightarrow> p k = Some (CFBoolean True)"

definition callerIsEntitledToAssertion :: "caller \<Rightarrow> props_t \<Rightarrow> pm \<Rightarrow> bool" where
  "callerIsEntitledToAssertion c p s =
     (let ent = auditTokenHasEntitlement c;
          typeOk = (case getAssertionTypeIndex s (p kIOPMAssertionTypeKey) of
                      None \<Rightarrow> True
                    | Some t \<Rightarrow> (case entitlement (gAssertionTypes s t) of None \<Rightarrow> True | Some e \<Rightarrow> ent e))
      in if \<not> typeOk then False
         else if asks p kIOPMAssertionAppliesToLimitedPowerKey \<and> \<not> ent kIOPMAssertOnBatteryEntitlement
         then False
         else if asks p kIOPMAssertionAppliesOnLidClose \<and> \<not> ent kIOPMAssertOnLidCloseEntitlement
         then False
         else if asks p kIOPMAssertionProcessingHotPlug \<and> \<not> ent kIOPMDisplayServiceEntitlement
         then False
         else True)"

section \<open>App Nap answers\<close>

text \<open>The process whose pending flags are answered, with the pid App Nap knows it by.\<close>

definition appSleepTarget :: "pid \<Rightarrow> u32 \<Rightarrow> pm \<Rightarrow> pid \<times> pid" where
  "appSleepTarget p aid s =
     (case snd (lookupAssertion s p aid) of
        None \<Rightarrow> (p, p)
      | Some i \<Rightarrow>
          if causingPid (asn s i) \<noteq> 0 then
            (case causingPinfo (asn s i) of Some q \<Rightarrow> (causingPid (asn s i), q) | None \<Rightarrow> (p, p))
          else (p, p))"

text \<open>
  The results are \<open>*disableAppSleep\<close> and \<open>*enableAppSleep\<close>; \<open>dis\<close> and \<open>en\<close> say which of the two
  out-parameters the caller passes.
\<close>

definition updateAppSleepStates ::
    "pid option \<Rightarrow> bool \<Rightarrow> bool \<Rightarrow> u32 \<Rightarrow> pm \<Rightarrow> (bool \<times> bool) \<times> pm" where
  "updateAppSleepStates pinf dis en aid s =
     (case pinf of
        None \<Rightarrow> ((False, False), s)
      | Some p \<Rightarrow>
          let (app, q) = appSleepTarget p aid s;
              nap = appnap_enabled_for_pid (env s) app;
              d = (dis \<and> disableAS_pend (proc s q));
              s1 = (if d then upd_proc q (\<lambda>P. P\<lparr>disableAS_pend := False\<rparr>) s else s);
              s2 = (if d \<and> nap then emit (AppNapState app True) s1 else s1);
              e = (en \<and> enableAS_pend (proc s2 q));
              s3 = (if e then upd_proc q (\<lambda>P. P\<lparr>enableAS_pend := False\<rparr>) s2 else s2);
              s4 = (if e \<and> nap then emit (AppNapState app False) s3 else s3)
          in ((d \<and> \<not> nap, e \<and> \<not> nap), s4))"

section \<open>MIG requests\<close>

text \<open>The answer of \<open>_io_pm_assertion_create\<close>: return code, identifier, \<open>*disableAppSleep\<close>.\<close>

definition io_pm_assertion_create ::
    "caller \<Rightarrow> (propKey \<times> cf) list option \<Rightarrow> pm \<Rightarrow> (IOReturn \<times> u32 \<times> bool) \<times> pm" where
  "io_pm_assertion_create c plist s =
     (case plist of
        None \<Rightarrow> ((kIOReturnBadArgument, 0, False), s)
      | Some kvs \<Rightarrow>
          let p = map_of kvs in
          if \<not> callerIsEntitledToAssertion c p s then ((kIOReturnNotPrivileged, 0, False), s)
          else if propertiesDictRequiresRoot p \<and> \<not> (callerIsRoot c \<or> callerIsAdmin c)
          then ((kIOReturnNotPrivileged, 0, False), s)
          else
            let p1 = (if auditTokenIsRunningboardd c
                      then p(kPMAssertionIsRunningboardd \<mapsto> CFBoolean True) else p)
            in case doCreate (callerPID c) p1 s of
                 ((r, aid, pinf), s1) \<Rightarrow>
                   if r = kIOReturnSuccess \<and> pinf \<noteq> None then
                     (case updateAppSleepStates pinf True False aid s1 of
                        ((d, _), s2) \<Rightarrow> ((r, aid, d), s2))
                   else ((r, aid, False), s1))"

text \<open>The answers of the other two: return code (and retain count), the two App Nap answers.\<close>

definition io_pm_assertion_set_properties ::
    "caller \<Rightarrow> u32 \<Rightarrow> (propKey \<times> cf) list option \<Rightarrow> pm \<Rightarrow> (IOReturn \<times> bool \<times> bool) \<times> pm" where
  "io_pm_assertion_set_properties c aid plist s =
     (case plist of
        None \<Rightarrow> ((kIOReturnBadArgument, False, False), s)
      | Some kvs \<Rightarrow>
          if \<not> callerIsEntitledToAssertion c (map_of kvs) s
          then ((kIOReturnNotPrivileged, False, False), s)
          else
            case doSetProperties (callerPID c) aid kvs s of
              (r, s1) \<Rightarrow>
                if r = kIOReturnSuccess then
                  (case updateAppSleepStates (processInfoGet s1 (callerPID c)) True True aid s1 of
                     (de, s2) \<Rightarrow> ((r, de), s2))
                else ((r, False, False), s1))"

datatype retainAction = kIOPMAssertionMIGDoRetain | kIOPMAssertionMIGDoRelease

definition io_pm_assertion_retain_release ::
    "caller \<Rightarrow> u32 \<Rightarrow> retainAction \<Rightarrow> pm \<Rightarrow> (IOReturn \<times> u32 \<times> bool \<times> bool) \<times> pm" where
  "io_pm_assertion_retain_release c aid action s =
     (case (if action = kIOPMAssertionMIGDoRetain then doRetain (callerPID c) aid s
            else doRelease (callerPID c) aid s) of
        ((r, cnt), s1) \<Rightarrow>
          let n = (case cnt of Some m \<Rightarrow> m | None \<Rightarrow> 0) in
          if r = kIOReturnSuccess then
            (case updateAppSleepStates (processInfoGet s1 (callerPID c)) True True aid s1 of
               (de, s2) \<Rightarrow> ((r, n, de), s2))
          else ((r, n, False, False), s1))"

datatype typeControl = kIOPMDisableAssertionType | kIOPMEnableAssertionType | OtherTypeControl

text \<open>The type name is empty (or not a string) when \<open>nm\<close> is \<open>None\<close>.\<close>

definition io_pm_ctl_assertion_type :: "caller \<Rightarrow> cfstr option \<Rightarrow> typeControl \<Rightarrow> pm \<Rightarrow> IOReturn \<times> pm" where
  "io_pm_ctl_assertion_type c nm op s =
     (if \<not> callerIsRoot c then (kIOReturnNotPrivileged, s)
      else case nm of
        None \<Rightarrow> (kIOReturnError, s)
      | Some x \<Rightarrow>
          (case getAssertionTypeIndex s (Some (CFString x)) of
             None \<Rightarrow> (kIOReturnBadArgument, s)
           | Some t \<Rightarrow>
               (case op of
                  kIOPMDisableAssertionType \<Rightarrow> (kIOReturnSuccess, disableAssertionType t s)
                | kIOPMEnableAssertionType \<Rightarrow> (kIOReturnSuccess, enableAssertionType t s)
                | OtherTypeControl \<Rightarrow> (kIOReturnBadArgument, s))))"

text \<open>\<open>req\<close> is \<open>None\<close> for a request type that is neither registration nor its withdrawal.\<close>

definition io_pm_assertion_notify :: "caller \<Rightarrow> notification \<Rightarrow> notifyReq option \<Rightarrow> pm \<Rightarrow> IOReturn \<times> pm" where
  "io_pm_assertion_notify c nm req s =
     (if \<not> (callerIsRoot c \<or> callerIsAdmin c) then (kIOReturnNotPrivileged, s)
      else case req of
        None \<Rightarrow> (kIOReturnNoMemory, s)
      | Some r \<Rightarrow> do_assertion_notify (callerPID c) nm r s)"

text \<open>\<open>gSAAssertionBehaviorFlags\<close> is passed in and out: nothing else reads or writes it.\<close>

definition kIOPMSystemActivityAssertionEnabled :: u32 where
  "kIOPMSystemActivityAssertionEnabled = 1"

definition io_pm_change_sa_assertion_behavior :: "caller \<Rightarrow> u32 \<Rightarrow> u32 \<Rightarrow> (IOReturn \<times> u32) \<times> u32" where
  "io_pm_change_sa_assertion_behavior c newFlags saFlags =
     (if \<not> callerIsRoot c then ((kIOReturnNotPrivileged, 0), saFlags)
      else ((kIOReturnSuccess, saFlags), newFlags))"

text \<open>
  \<open>revertible\<close> is the kernel's answer to the idle-sleep revert request; the result is the
  return code, the identifier and whether sleep was reverted.
\<close>

definition io_pm_declare_system_active ::
    "caller \<Rightarrow> u32 \<Rightarrow> bool \<Rightarrow> (propKey \<times> cf) list option \<Rightarrow> pm \<Rightarrow> (IOReturn \<times> u32 \<times> bool) \<times> pm" where
  "io_pm_declare_system_active c saFlags revertible plist s =
     (case plist of
        None \<Rightarrow> ((kIOReturnBadArgument, 0, False), s)
      | Some kvs \<Rightarrow>
          if \<not> callerIsEntitledToAssertion c (map_of kvs) s then ((kIOReturnNotPrivileged, 0, False), s)
          else
            let legacy = (saFlags \<noteq> kIOPMSystemActivityAssertionEnabled);
                ty = (if legacy then kIOPMAssertionTypePreventUserIdleSystemSleep
                      else kIOPMAssertionTypeSystemIsActive)
            in case doCreate (callerPID c) ((map_of kvs)(kIOPMAssertionTypeKey \<mapsto> CFString (TypeName ty))) s of
                 ((r, aid, _), s1) \<Rightarrow> ((r, aid, \<not> legacy \<and> revertible), s1))"

text \<open>
  The two declarations that extend an earlier assertion share their shape: the assertion the
  caller names is extended when it is its own and of the type in question, else a new one is
  created whose timeout follows the system timer.
\<close>

definition declareAgain :: "caller \<Rightarrow> u32 \<Rightarrow> kerAssertionType \<Rightarrow> pm \<Rightarrow> nat option" where
  "declareAgain c aid t s =
     (if aid = kIOPMNullAssertionID then None
      else case lookupAssertion s (callerPID c) aid of
             (_, None) \<Rightarrow> None
           | (_, Some i) \<Rightarrow> if kassert (asn s i) \<noteq> t then None else Some i)"

definition markSystemTimer :: "pid \<Rightarrow> u32 \<Rightarrow> pm \<Rightarrow> pm" where
  "markSystemTimer p aid s =
     (case snd (lookupAssertion s p aid) of
        None \<Rightarrow> s
      | Some i \<Rightarrow> upd_asn i (state_set kAssertionTimeoutIsSystemTimer) s)"

definition declareOrExtend ::
    "caller \<Rightarrow> u32 \<Rightarrow> kerAssertionType \<Rightarrow> typeName \<Rightarrow> (propKey \<times> cf) list \<Rightarrow> pm \<Rightarrow>
     (IOReturn \<times> u32) \<times> pm" where
  "declareOrExtend c aid t nm kvs s =
     (case declareAgain c aid t s of
        Some i \<Rightarrow>
          (case doSetProperties (callerPID c) aid kvs
                  (upd_asn i (prop_set kIOPMAssertionLevelKey (CFNumber (of_int kIOPMAssertionLevelOn))) s) of
             (r, s1) \<Rightarrow> ((r, aid), s1))
      | None \<Rightarrow>
          (case doCreate (callerPID c) ((map_of kvs)(kIOPMAssertionTypeKey \<mapsto> CFString (TypeName nm))) s of
             ((r, a, _), s1) \<Rightarrow>
               ((r, a), if r = kIOReturnSuccess then markSystemTimer (callerPID c) a s1 else s1)))"

definition declareActive ::
    "caller \<Rightarrow> u32 \<Rightarrow> kerAssertionType \<Rightarrow> typeName \<Rightarrow> (propKey \<times> cf) list \<Rightarrow> pm \<Rightarrow>
     (IOReturn \<times> u32 \<times> bool) \<times> pm" where
  "declareActive c aid t nm kvs s =
     (case declareOrExtend c aid t nm kvs s of
        ((r, aid'), s1) \<Rightarrow>
          if r = kIOReturnSuccess then
            (case updateAppSleepStates (processInfoGet s1 (callerPID c)) True False aid' s1 of
               ((d, _), s2) \<Rightarrow> ((r, aid', d), s2))
          else ((r, aid', False), s1))"

definition seconds :: "int \<Rightarrow> cf" where
  "seconds n = CFNumber (of_int n)"

definition io_pm_declare_user_active ::
    "caller \<Rightarrow> u32 \<Rightarrow> (propKey \<times> cf) list option \<Rightarrow> pm \<Rightarrow> (IOReturn \<times> u32 \<times> bool) \<times> pm" where
  "io_pm_declare_user_active c aid plist s =
     (case plist of
        None \<Rightarrow> ((kIOReturnBadArgument, aid, False), s)
      | Some kvs \<Rightarrow>
          if \<not> callerIsEntitledToAssertion c (map_of kvs) s then ((kIOReturnNotPrivileged, aid, False), s)
          else declareActive c aid kDeclareUserActivityType kIOPMAssertionUserIsActive
                 (AList.update kIOPMAssertionTimeoutActionKey
                    (CFString (TimeoutAction kIOPMAssertionTimeoutActionRelease))
                   (AList.update kIOPMAssertionTimeoutKey (seconds (uint (gDisplaySleepTimer s * 60))) kvs)) s)"

definition io_pm_declare_network_client_active ::
    "caller \<Rightarrow> u32 \<Rightarrow> (propKey \<times> cf) list option \<Rightarrow> pm \<Rightarrow> (IOReturn \<times> u32 \<times> bool) \<times> pm" where
  "io_pm_declare_network_client_active c aid plist s =
     (case plist of
        None \<Rightarrow> ((kIOReturnBadArgument, aid, False), s)
      | Some kvs \<Rightarrow>
          if \<not> callerIsEntitledToAssertion c (map_of kvs) s then ((kIOReturnNotPrivileged, aid, False), s)
          else
            let secs = gIdleSleepTimer s * 60 in
            declareActive c aid kNetworkAccessType kIOPMAssertNetworkClientActive
              (if secs \<noteq> 0 then
                 AList.update kIOPMAssertionTimeoutActionKey
                    (CFString (TimeoutAction kIOPMAssertionTimeoutActionRelease))
                   (AList.update kIOPMAssertionTimeoutKey (seconds (uint secs)) kvs)
               else kvs) s)"

text \<open>
  \<open>limits\<close> is the dictionary of limits by process name; the aggregate monitor is the dispatch
  source of \<open>checkProcAggregates\<close>, present or not, passed in and out.  The failure of the
  allocation of the process array returns without a code in the source; the code the client
  sees is then the one the reply was initialised with.
\<close>

definition io_pm_set_exception_limits ::
    "bool \<Rightarrow> (string \<rightharpoonup> u32 option \<times> u32 option) option \<Rightarrow> bool \<Rightarrow> bool \<Rightarrow> IOReturn \<Rightarrow> pm \<Rightarrow>
     (IOReturn \<times> bool) \<times> pm" where
  "io_pm_set_exception_limits entitled limits isEmpty monitor rc0 s =
     (if \<not> entitled then ((kIOReturnNotPrivileged, monitor), s)
      else case limits of
        None \<Rightarrow> ((kIOReturnBadArgument, monitor), s)
      | Some l \<Rightarrow>
          if \<not> calloc_ok (env s) then ((rc0, monitor), s)
          else
            let s1 = s\<lparr>gProcAssertionLimits := Some l\<rparr>;
                s2 = fold setProcessAssertionLimits (procsOf s1) s1
            in if \<not> isEmpty then
                 (if \<not> monitor then
                    ((kIOReturnSuccess, True), setAssertionActivityAggregate (getpid (env s2)) True s2)
                  else ((kIOReturnSuccess, monitor), s2))
               else
                 (if monitor then
                    ((kIOReturnSuccess, monitor), setAssertionActivityAggregate (getpid (env s2)) False s2)
                  else ((kIOReturnSuccess, monitor), s2)))"

section \<open>XPC requests of asynchronous clients\<close>

text \<open>
  The \<open>ProcessInfo\<close> the connection is stored in may be gone: a \<open>doCreate\<close> that fails after it
  made the structure has released it again and still returns the pointer.  The store into the
  freed memory is an event of the trace.
\<close>

definition recordConnection :: "pid \<Rightarrow> pm \<Rightarrow> pm" where
  "recordConnection p s =
     (if gProcessDict s p = None then emit (ProcessInfoUsedAfterFree p) s
      else upd_proc p (\<lambda>P. P\<lparr>remoteConnection := True\<rparr>) s)"

definition asyncAssertionCreate ::
    "caller \<Rightarrow> (propKey \<times> cf) list option \<Rightarrow> pm \<Rightarrow> (IOReturn \<times> u32) \<times> pm" where
  "asyncAssertionCreate c plist s =
     (case plist of
        None \<Rightarrow> ((kIOReturnBadArgument, kIOPMNullAssertionID), s)
      | Some kvs \<Rightarrow>
          let p = map_of kvs in
          if \<not> callerIsEntitledToAssertion c p s then ((kIOReturnNotPrivileged, kIOPMNullAssertionID), s)
          else if propertiesDictRequiresRoot p \<and> \<not> (callerIsRoot c \<or> callerIsAdmin c)
          then ((kIOReturnNotPrivileged, kIOPMNullAssertionID), s)
          else
            case doCreate (callerPID c) p s of
              ((r, aid, pinf), s1) \<Rightarrow>
                ((r, aid), case pinf of Some q \<Rightarrow> recordConnection q s1 | None \<Rightarrow> s1))"

definition asyncAssertionRelease :: "caller \<Rightarrow> u32 \<Rightarrow> bool \<Rightarrow> pm \<Rightarrow> IOReturn \<times> pm" where
  "asyncAssertionRelease c aid coalesced s =
     (let s1 = (case lookupAssertion s (callerPID c) aid of
                  (_, None) \<Rightarrow> s
                | (_, Some i) \<Rightarrow> upd_asn i (prop_set kIOPMAssertionIsCoalescedKey (CFBoolean coalesced)) s)
      in case doRelease (callerPID c) aid s1 of ((r, _), s2) \<Rightarrow> (r, s2))"

definition asyncAssertionProperties ::
    "caller \<Rightarrow> (propKey \<times> cf) list option \<Rightarrow> pm \<Rightarrow> IOReturn \<times> pm" where
  "asyncAssertionProperties c plist s =
     (case plist of
        None \<Rightarrow> (kIOReturnBadArgument, s)
      | Some kvs \<Rightarrow>
          if \<not> callerIsEntitledToAssertion c (map_of kvs) s then (kIOReturnNotPrivileged, s)
          else case map_of kvs kAsyncRemoteAssertionId of
                 Some (CFNumber r) \<Rightarrow> doSetProperties (callerPID c) (of_int (trunc r)) kvs s
               | _ \<Rightarrow> (kIOReturnBadArgument, s))"

definition asyncAssertionInitialConnection :: "pid \<Rightarrow> pm \<Rightarrow> pm" where
  "asyncAssertionInitialConnection p s =
     (case retainOrCreate p s of
        (True, s1) \<Rightarrow> recordConnection p s1
      | (False, s1) \<Rightarrow> s1)"

section \<open>Entry points for other parts of the daemon\<close>

text \<open>The blocks these functions hand to the main queue; \<open>outID\<close> is the variable pointed to.\<close>

datatype internalBlock =
    CreateBlock props_t bool
  | ReleaseBlock
  | EvaluateBlock
  | ProcTimerBlock bool

definition createBlock :: "props_t \<Rightarrow> bool \<Rightarrow> u32 option \<Rightarrow> pm \<Rightarrow> u32 option \<times> pm" where
  "createBlock p st outID s =
     (case outID of
        None \<Rightarrow> (None, snd (doCreate (getpid (env s)) p s))
      | Some v \<Rightarrow>
          if v \<noteq> kIOPMNullAssertionID then (Some v, s)
          else case doCreate (getpid (env s)) p s of
                 ((_, aid, _), s1) \<Rightarrow>
                   (Some aid, if st then markSystemTimer (getpid (env s1)) aid s1 else s1))"

fun runBlock :: "internalBlock \<Rightarrow> u32 option \<Rightarrow> pm \<Rightarrow> u32 option \<times> pm" where
  "runBlock (CreateBlock p st) outID s = createBlock p st outID s"
| "runBlock ReleaseBlock outID s =
     (case outID of
        None \<Rightarrow> (None, s)
      | Some v \<Rightarrow>
          (Some kIOPMNullAssertionID,
           if v \<noteq> kIOPMNullAssertionID then snd (doRelease (getpid (env s)) v s) else s))"
| "runBlock EvaluateBlock outID s = (outID, evaluateForPSChange s)"
| "runBlock (ProcTimerBlock b) outID s = (outID, evaluateProcTimerOnDisplayStateChange b s)"

definition InternalCreateAssertionWithState :: "props_t option \<Rightarrow> bool \<Rightarrow> IOReturn \<times> internalBlock option" where
  "InternalCreateAssertionWithState p st =
     (case p of None \<Rightarrow> (kIOReturnBadArgument, None)
      | Some d \<Rightarrow> (kIOReturnSuccess, Some (CreateBlock d st)))"

definition InternalCreateAssertion :: "props_t option \<Rightarrow> IOReturn \<times> internalBlock option" where
  "InternalCreateAssertion p = InternalCreateAssertionWithState p False"

text \<open>
  \<open>InternalDeclareUserActive\<close>: return code, the caller's variable, the block to run.  (The
  test \<open>outID == kIOPMNullAssertionID\<close> of the source compares the pointer, which is not null
  here, so the lookup is always made.)
\<close>

definition InternalDeclareUserActive :: "string \<Rightarrow> u32 \<Rightarrow> pm \<Rightarrow> (IOReturn \<times> u32 \<times> internalBlock option) \<times> pm" where
  "InternalDeclareUserActive desc outID s =
     (let p = (IOPMAssertionDescriptionCreate kIOPMAssertionUserIsActive desc None None None 0
                 (Some kIOPMAssertionTimeoutActionRelease))
              (kIOPMAssertionTimeoutKey \<mapsto> seconds (uint (gDisplaySleepTimer s * 60)));
          me = getpid (env s);
          fresh = ((kIOReturnSuccess, kIOPMNullAssertionID, Some (CreateBlock p True)), s)
      in case lookupAssertion s me outID of
           (_, None) \<Rightarrow> fresh
         | (_, Some i) \<Rightarrow>
             if kassert (asn s i) \<noteq> kDeclareUserActivityType then fresh
             else
               case doSetProperties me outID
                      [(kIOPMAssertionNameKey, CFString (Str desc)),
                       (kIOPMAssertionLevelKey, CFNumber (of_int kIOPMAssertionLevelOn)),
                       (kIOPMAssertionTypeKey, CFString (TypeName kIOPMAssertionUserIsActive)),
                       (kIOPMAssertionTimeoutActionKey, CFString (TimeoutAction kIOPMAssertionTimeoutActionRelease)),
                       (kIOPMAssertionTimeoutKey, seconds (uint (gDisplaySleepTimer s * 60)))]
                      (upd_asn i (prop_set kIOPMAssertionLevelKey (CFNumber (of_int kIOPMAssertionLevelOn))) s) of
                 (r, s1) \<Rightarrow> ((r, outID, None), s1))"

definition InternalCreateAssertionWithTimeout :: "typeName \<Rightarrow> string \<Rightarrow> int \<Rightarrow> pm \<Rightarrow> (IOReturn \<times> u32) \<times> pm" where
  "InternalCreateAssertionWithTimeout ty nm timerSecs s =
     (case doCreate (getpid (env s))
             (IOPMAssertionDescriptionCreate ty nm None None None (of_int timerSecs)
                (Some kIOPMAssertionTimeoutActionRelease)) s of
        ((_, aid, _), s1) \<Rightarrow> ((kIOReturnSuccess, aid), s1))"

definition localCreateAssertion :: "typeName \<Rightarrow> string \<Rightarrow> pm \<Rightarrow> (IOReturn \<times> u32) \<times> pm" where
  "localCreateAssertion ty nm = InternalCreateAssertionWithTimeout ty nm 0"

definition InternalReleaseAssertionSync :: "u32 \<Rightarrow> pm \<Rightarrow> IOReturn \<times> pm" where
  "InternalReleaseAssertionSync outID s =
     (if outID \<noteq> kIOPMNullAssertionID
      then (case doRelease (getpid (env s)) outID s of ((r, _), s1) \<Rightarrow> (r, s1))
      else (kIOReturnError, s))"

definition InternalSetAssertionTimeout :: "u32 \<Rightarrow> rat \<Rightarrow> pm \<Rightarrow> IOReturn \<times> pm" where
  "InternalSetAssertionTimeout aid tmo s =
     (if aid = 0 then (kIOReturnBadArgument, s)
      else doSetProperties (getpid (env s)) aid [(kIOPMAssertionTimeoutKey, CFNumber tmo)] s)"

definition enableAssertionForLimitedPower :: "pid \<Rightarrow> u32 \<Rightarrow> pm \<Rightarrow> IOReturn \<times> pm" where
  "enableAssertionForLimitedPower p aid s =
     (if aid = 0 then (kIOReturnBadArgument, s)
      else doSetProperties p aid [(kIOPMAssertionAppliesToLimitedPowerKey, CFBoolean True)] s)"

definition DarkWakeHandleNetworkWake :: "pm \<Rightarrow> pm" where
  "DarkWakeHandleNetworkWake s =
     (case InternalCreateAssertionWithTimeout kIOPMAssertInternalPreventSleep
             ''Network wake delay proxy assertion'' 30 s of
        ((r, aid), s1) \<Rightarrow>
          if r \<noteq> kIOReturnSuccess then s1
          else snd (enableAssertionForLimitedPower (getpid (env s1)) aid s1))"

definition createOnBootAssertions :: "int option \<Rightarrow> (IOReturn \<times> internalBlock option) option" where
  "createOnBootAssertions nvramArg =
     (case nvramArg of
        Some v \<Rightarrow>
          if v > 0 then
            Some (InternalCreateAssertion (Some
              ((IOPMAssertionDescriptionCreate kIOPMAssertionTypePreventSystemSleep
                  ''com.apple.powermanagement.fmmdwipe'' None
                  (Some ''Proxy Assertion during FMMD system wipe'') None 120
                  (Some kIOPMAssertionTimeoutActionRelease))
               (kIOPMAssertionAppliesToLimitedPowerKey \<mapsto> CFBoolean True))))
          else None
      | None \<Rightarrow> None)"

text \<open>The setting \<open>kIOPMDarkWakeBackgroundTaskKey\<close>; \<open>last\<close> is the static \<open>lastDWBTSetting\<close>.\<close>

definition PMAssertions_SettingsHaveChanged :: "int \<Rightarrow> int \<Rightarrow> pm \<Rightarrow> int \<times> pm" where
  "PMAssertions_SettingsHaveChanged newDWBT lastDWBT s =
     (if newDWBT = lastDWBT then (lastDWBT, s)
      else (newDWBT, configAssertionType kBackgroundTaskType False s))"

section \<open>Proxy assertions on wake\<close>

datatype wakeType =
    kIOPMRootDomainWakeTypeAlarm
  | kIOPMRootDomainWakeTypeSleepTimer
  | kIOPMRootDomainWakeTypeSleepService
  | kIOPMrootDomainWakeTypeLowBattery
  | kIOPMRootDomainWakeTypeNotification
  | kIOPMRootDomainWakeTypeNetwork
  | kIOPMRootDomainWakeTypeMaintenance
  | OtherWakeType

datatype wakeReason = kIORootDomainWakeReasonDarkPME | kIOPMRootDomainWakeReasonRTC | OtherWakeReason

definition kDeviceEnumerationSkipped :: "wakeType option \<Rightarrow> bool" where
  "kDeviceEnumerationSkipped w \<longleftrightarrow>
     w \<in> Some ` {kIOPMRootDomainWakeTypeAlarm, kIOPMRootDomainWakeTypeSleepTimer,
       kIOPMRootDomainWakeTypeSleepService, kIOPMrootDomainWakeTypeLowBattery,
       kIOPMRootDomainWakeTypeNotification}"

text \<open>
  \<open>registered\<close>: the busy-state notification could be set up.  The result is the assertion that
  \<open>devEnumerationDone\<close> is to release, the identifier in the \<open>devEnumInfo_st\<close>.
\<close>

definition AssertForDeviceEnumeration :: "wakeType option \<Rightarrow> bool \<Rightarrow> pm \<Rightarrow> u32 option \<times> pm" where
  "AssertForDeviceEnumeration w registered s =
     (if kDeviceEnumerationSkipped w then (None, s)
      else case localCreateAssertion kIOPMAssertInternalPreventSleep
                  ''PM configd - Wait for Device enumeration'' s of
        ((r, aid), s1) \<Rightarrow>
          if r \<noteq> kIOReturnSuccess then (None, s1)
          else
            let s2 = snd (enableAssertionForLimitedPower (getpid (env s1)) aid s1) in
            if calloc_ok (env s2) \<and> registered then (Some aid, s2)
            else (None, snd (doRelease (getpid (env s2)) aid s2)))"

definition devEnumerationDone :: "u32 option \<Rightarrow> pm \<Rightarrow> u32 option \<times> pm" where
  "devEnumerationDone d s =
     (case d of
        Some aid \<Rightarrow> if aid \<noteq> 0 then (Some 0, snd (doRelease (getpid (env s)) aid s)) else (d, s)
      | None \<Rightarrow> (None, s))"

definition ProxyAssertions ::
    "bool \<Rightarrow> bool \<Rightarrow> wakeType option \<Rightarrow> wakeReason option \<Rightarrow> bool \<Rightarrow> pm \<Rightarrow> u32 option \<times> pm" where
  "ProxyAssertions didChange darkWakeFromSleep w r registered s =
     (if \<not> didChange \<or> \<not> darkWakeFromSleep then (None, s)
      else if r = Some kIORootDomainWakeReasonDarkPME then
        (if w = Some kIOPMRootDomainWakeTypeNetwork then (None, DarkWakeHandleNetworkWake s)
         else AssertForDeviceEnumeration w registered s)
      else case w of
        Some v \<Rightarrow>
          if v = kIOPMRootDomainWakeTypeNetwork then (None, DarkWakeHandleNetworkWake s)
          else if v = kIOPMRootDomainWakeTypeMaintenance \<and> r = Some kIOPMRootDomainWakeReasonRTC
          then (None, snd (InternalCreateAssertionWithTimeout kIOPMAssertionTypeBackgroundTask
                             ''Powerd - Wait for client BackgroundTask assertions'' 10 s))
          else AssertForDeviceEnumeration w registered s
      | None \<Rightarrow> AssertForDeviceEnumeration w registered s)"

section \<open>Copies for clients\<close>

definition assertion_types_arr :: "kerAssertionType \<Rightarrow> typeName" where
  "assertion_types_arr t = (case t of
      kHighPerfType \<Rightarrow> kIOPMAssertionTypeNeedsCPU
    | kPreventIdleType \<Rightarrow> kIOPMAssertionTypePreventUserIdleSystemSleep
    | kPreventSleepType \<Rightarrow> kIOPMAssertionTypePreventSystemSleep
    | kDisableInflowType \<Rightarrow> kIOPMAssertionTypeDisableInflow
    | kInhibitChargeType \<Rightarrow> kIOPMAssertionTypeInhibitCharging
    | kDisableWarningsType \<Rightarrow> kIOPMAssertionTypeDisableLowBatteryWarnings
    | kPreventDisplaySleepType \<Rightarrow> kIOPMAssertionTypePreventUserIdleDisplaySleep
    | kEnableIdleType \<Rightarrow> kIOPMAssertionTypeEnableIdleSleep
    | kExternalMediaType \<Rightarrow> kIOPMAssertionTypeExternalMedia
    | kDeclareUserActivityType \<Rightarrow> kIOPMAssertionUserIsActive
    | kPushServiceTaskType \<Rightarrow> kIOPMAssertionTypeApplePushServiceTask
    | kBackgroundTaskType \<Rightarrow> kIOPMAssertionTypeBackgroundTask
    | kDeclareSystemActivityType \<Rightarrow> kIOPMAssertionTypeSystemIsActive
    | kSRPreventSleepType \<Rightarrow> kIOPMAssertInternalPreventSleep
    | kTicklessDisplayWakeType \<Rightarrow> kIOPMAssertDisplayWake
    | kPreventDiskSleepType \<Rightarrow> kIOPMAssertPreventDiskIdle
    | kNetworkAccessType \<Rightarrow> kIOPMAssertNetworkClientActive
    | kIntPreventDisplaySleepType \<Rightarrow> kIOPMAssertInternalPreventDisplaySleep
    | kInteractivePushServiceType \<Rightarrow> kIOPMAssertInteractivePushServiceTask
    | kReservePwrPreventIdleType \<Rightarrow> kIOPMAssertAwakeReservePower
    | kSoftwareUpdateType \<Rightarrow> kIOPMAssertionTypeSoftwareUpdateTask)"

text \<open>The levels \<open>copyAggregateValuesDictionary\<close> returns, by type name.\<close>

definition copyAggregateValuesDictionary :: "pm \<Rightarrow> typeName \<rightharpoonup> int" where
  "copyAggregateValuesDictionary s =
     map_of (map (\<lambda>t. (assertion_types_arr t, if getAssertionLevel s t then 1 else 0)) all_types)"

definition trueType :: "nat \<Rightarrow> pm \<Rightarrow> pm" where
  "trueType i s =
     upd_asn i (prop_set kIOPMAssertionTrueTypeKey (CFString (TypeName (assertion_types_arr (kassert (asn s i)))))) s"

text \<open>
  \<open>copyAssertion\<close> stamps the true type into the properties and appends them to the entry of
  the owner; the collected entries are the second component, in order of first appearance.
\<close>

definition copyAssertion ::
    "nat \<Rightarrow> pm \<times> (pid \<times> props_t list) list \<Rightarrow> pm \<times> (pid \<times> props_t list) list" where
  "copyAssertion i sd =
     (let (s, d) = sd; s1 = trueType i s; a = asn s1 i; p = procpid (proc s1 (pinfo a));
          old = (case map_of d p of Some l \<Rightarrow> l | None \<Rightarrow> [])
      in (s1, AList.update p (old @ [props a]) d))"

datatype copyState = kIOPMActiveAssertions | kIOPMInactiveAssertions

definition wanted :: "copyState \<Rightarrow> assertion \<Rightarrow> bool" where
  "wanted st a \<longleftrightarrow> (kAssertionStateInactive \<in> state a) = (st = kIOPMInactiveAssertions)"

definition copyPIDAssertionDictionaryFlattened ::
    "copyState \<Rightarrow> pm \<Rightarrow> (pid \<times> props_t list) list \<times> pm" where
  "copyPIDAssertionDictionaryFlattened st s =
     (let is = concat (map (\<lambda>t. selected kSelectAll (tlists (gAssertionTypes s t)))
                 (filter (\<lambda>t. t \<noteq> kEnableIdleType) all_types))
      in case fold (\<lambda>i sd. if wanted st (asn (fst sd) i) then copyAssertion i sd else sd) is (s, []) of
           (s1, d) \<Rightarrow> (d, s1))"

definition copyAssertionsByType :: "cf option \<Rightarrow> pm \<Rightarrow> props_t list option \<times> pm" where
  "copyAssertionsByType ty s =
     (case getAssertionTypeIndex s ty of
        None \<Rightarrow> (None, s)
      | Some t \<Rightarrow>
          let is = selected kSelectActive (tlists (gAssertionTypes s t));
              s1 = applyToAssertionsSync t kSelectActive trueType s
          in (if is = [] then None else Some (map (\<lambda>i. props (asn s1 i)) is), s1))"

text \<open>
  \<open>_io_pm_assertion_copy_details\<close>: what a request selects, the collection it yields, and the
  reply.  The two lists of scheduled power events belong to the auto-wake scheduler and are
  arguments; \<open>serialises\<close> says that the collection could be serialised.
\<close>

datatype whichData =
    kIOPMAssertionMIGCopyAll
  | kIOPMAssertionMIGCopyInactive
  | kIOPMAssertionMIGCopyOneAssertionProperties
  | kIOPMAssertionMIGCopyStatus
  | kIOPMPowerEventsMIGCopyScheduledEvents
  | kIOPMPowerEventsMIGCopyRepeatEvents
  | kIOPMAssertionMIGCopyByType

datatype collection =
    ByProcess "(pid \<times> props_t list) list"
  | OneAssertion props_t
  | Levels "typeName \<rightharpoonup> int"
  | Assertions "props_t list"
  | PowerEvents "props_t list"

definition collect ::
    "caller \<Rightarrow> u32 \<Rightarrow> whichData \<Rightarrow> cf option \<Rightarrow> props_t list option \<Rightarrow> props_t list option \<Rightarrow> pm \<Rightarrow>
     collection option \<times> pm" where
  "collect c aid w ty scheduled repeating s =
     (case w of
        kIOPMAssertionMIGCopyAll \<Rightarrow>
          (case copyPIDAssertionDictionaryFlattened kIOPMActiveAssertions s of (d, s1) \<Rightarrow> (Some (ByProcess d), s1))
      | kIOPMAssertionMIGCopyInactive \<Rightarrow>
          (case copyPIDAssertionDictionaryFlattened kIOPMInactiveAssertions s of (d, s1) \<Rightarrow> (Some (ByProcess d), s1))
      | kIOPMAssertionMIGCopyOneAssertionProperties \<Rightarrow>
          (map_option OneAssertion (snd (copyAssertionForID (callerPID c) aid s)), s)
      | kIOPMAssertionMIGCopyStatus \<Rightarrow> (Some (Levels (copyAggregateValuesDictionary s)), s)
      | kIOPMPowerEventsMIGCopyScheduledEvents \<Rightarrow> (map_option PowerEvents scheduled, s)
      | kIOPMPowerEventsMIGCopyRepeatEvents \<Rightarrow> (map_option PowerEvents repeating, s)
      | kIOPMAssertionMIGCopyByType \<Rightarrow>
          (case copyAssertionsByType ty s of (d, s1) \<Rightarrow> (map_option Assertions d, s1)))"

definition io_pm_assertion_copy_details ::
    "caller \<Rightarrow> u32 \<Rightarrow> whichData \<Rightarrow> cf option \<Rightarrow> props_t list option \<Rightarrow> props_t list option \<Rightarrow> bool \<Rightarrow> pm \<Rightarrow>
     (IOReturn \<times> collection option) \<times> pm" where
  "io_pm_assertion_copy_details c aid w ty scheduled repeating serialises s =
     (case collect c aid w ty scheduled repeating s of
        (None, s1) \<Rightarrow> ((kIOReturnSuccess, None), s1)
      | (Some d, s1) \<Rightarrow>
          if serialises then ((kIOReturnSuccess, Some d), s1) else ((kIOReturnInternalError, None), s1))"

section \<open>The system assertion timer\<close>

text \<open>
  Whether the timeout list lets an assertion stay: an entry for the process, the process it
  acts for or the framework decides (a limit of 0 allows); without one, a listed category
  allows.  \<open>listed\<close> says whether the category dictionary holds the formatted category.
\<close>

definition limitFor :: "pm \<Rightarrow> assertion \<Rightarrow> int option" where
  "limitFor s a =
     (let lst = (case gSystemAssertionTimeoutList s of Some l \<Rightarrow> l | None \<Rightarrow> Map.empty);
          look = (\<lambda>n. case n of Some x \<Rightarrow> lst x | None \<Rightarrow> None);
          own = look (pname (proc s (pinfo a)));
          causing = look (case causingPinfo a of Some q \<Rightarrow> pname (proc s q) | None \<Rightarrow> None);
          fw = look (case props a kIOPMAssertionFrameworkIDKey of Some (CFString (Str x)) \<Rightarrow> Some x | _ \<Rightarrow> None)
      in case own of Some v \<Rightarrow> Some v | None \<Rightarrow> (case causing of Some v \<Rightarrow> Some v | None \<Rightarrow> fw))"

definition allowedToStay :: "(cf \<Rightarrow> bool) \<Rightarrow> pm \<Rightarrow> assertion \<Rightarrow> bool" where
  "allowedToStay listed s a =
     (case limitFor s a of
        Some v \<Rightarrow> v = 0
      | None \<Rightarrow> (case props a kIOPMAssertionCategoryKey of Some v \<Rightarrow> listed v | None \<Rightarrow> False))"

text \<open>One assertion of the walk, with the seconds after which the timer is armed again.\<close>

definition systemTimerStep :: "(cf \<Rightarrow> bool) \<Rightarrow> nat \<Rightarrow> u64 option \<times> pm \<Rightarrow> u64 option \<times> pm" where
  "systemTimerStep listed i rs =
     (let (rearm, s) = rs; a = asn s i in
      if allowedToStay listed s a then rs
      else
        let age = currTime s - createTime a in
        if age < kPMSystemAssertionTimeoutValue s then
          let left = kPMSystemAssertionTimeoutValue s - age in
          (Some (case rearm of None \<Rightarrow> left | Some r \<Rightarrow> if left > r then left else r), s)
        else (rearm, handleAssertionDrop i s))"

definition systemAssertionTimerFired :: "(cf \<Rightarrow> bool) \<Rightarrow> pm \<Rightarrow> pm" where
  "systemAssertionTimerFired listed s =
     (if \<not> gSystemAssertionTimeoutEnabled s then s
      else
        let s0 = s\<lparr>gSystemAssertionTimerActive := False\<rparr> in
        case fold (systemTimerStep listed)
               (selected kSelectActive (tlists (gAssertionTypes s0 kPreventIdleType))) (None, s0) of
          (None, s1) \<Rightarrow> s1
        | (Some secs, s1) \<Rightarrow> startSystemAssertionTimer secs s1)"

definition updateSystemAssertionTimeout :: "u64 \<Rightarrow> pm \<Rightarrow> pm" where
  "updateSystemAssertionTimeout v s = (if v \<noteq> 0 then s\<lparr>kPMSystemAssertionTimeoutValue := v\<rparr> else s)"

end
