(* ===== verification/AssertionClientLemmas.thy ===== *)
theory AssertionClientLemmas
  imports AssertionClient
begin

unbundle bit_operations_syntax

text \<open>
  The requests of a client keep the assertion table well formed and concern only the
  assertions of the client and of the daemon: \<open>served P s s'\<close>.
\<close>

definition served :: "pid set \<Rightarrow> pm \<Rightarrow> pm \<Rightarrow> bool" where
  "served P s s' \<longleftrightarrow> wf {} (core s') \<and> keeps UNIV P (core s) (core s')"

lemma served_core: "wf {} (core s) \<Longrightarrow> core s' = core s \<Longrightarrow> served P s s'"
  by (simp add: served_def)

lemma served_refl: "wf {} (core s) \<Longrightarrow> served P s s"
  by (simp add: served_def)

lemma served_trans: "served P s s' \<Longrightarrow> served P s' s'' \<Longrightarrow> served P s s''"
  unfolding served_def using keeps_trans by blast

lemma served_wf: "served P s s' \<Longrightarrow> wf {} (core s')"
  by (simp add: served_def)

lemma served_env: "served P s s' \<Longrightarrow> env s' = env s"
  unfolding served_def using keeps_env by blast

lemma served_same: "served P s s' \<Longrightarrow> core s'' = core s' \<Longrightarrow> served P s s''"
  by (simp add: served_def)

lemma served_mono: "served P s s' \<Longrightarrow> P \<subseteq> Q \<Longrightarrow> served Q s s'"
  unfolding served_def using keeps_mono [of UNIV P] by blast

lemma served_step:
  assumes "wf {} (core s') \<and> keeps X P (core s) (core s')" and "P \<subseteq> Q"
  shows "served Q s s'"
  unfolding served_def using assms keeps_mono [of X P "core s" "core s'" UNIV Q] by blast

lemma served_doCreate:
  assumes "wf {} (core s)" and "doCreate p np s = ((r, aid, pr), s')" and "p \<in> P"
  shows "served P s s'"
proof (rule served_step)
  show "wf {} (core s') \<and> keeps {} {p} (core s) (core s')"
    using wf_doCreate [OF assms(1) _ assms(2)] by (simp add: all_live_def)
qed (use assms(3) in simp)

lemma served_doSetProperties:
  assumes "wf {} (core s)" and "doSetProperties p aid kvs s = (r, s')"
    and "p \<in> P" "getpid (env s) \<in> P"
  shows "served P s s'"
  by (rule served_step [OF doSetProperties_ok [OF assms(1) _ _ assms(2)]]) (use assms(3,4) in simp_all)

lemma served_doRelease:
  assumes "wf {} (core s)" and "doRelease p aid s = (rn, s')" and "p \<in> P" "getpid (env s) \<in> P"
  shows "served P s s'"
  by (rule served_step [OF doRelease_ok [OF assms(1), of p aid "fst rn" "snd rn"]])
    (use assms(2-4) in auto)

lemma served_doRetain:
  assumes "wf {} (core s)" and "doRetain p aid s = (rn, s')" and "p \<in> P"
  shows "served P s s'"
  by (rule served_step [OF doRetain_ok [OF assms(1,2)]]) (use assms(3) in simp)

section \<open>Changes that do not touch the table\<close>

lemma core_level [core_simps]:
  "core (upd_asn i (prop_set kIOPMAssertionLevelKey v) s) = core s"
  "core (upd_asn i (prop_set kIOPMAssertionIsCoalescedKey v) s) = core s"
  "core (upd_asn i (prop_set kIOPMAssertionTrueTypeKey v) s) = core s"
  "core (upd_asn i (state_set kAssertionTimeoutIsSystemTimer) s) = core s"
  by (rule core_upd_asn_same, simp add: acore_def type_of_props_def)+

lemma core_updateAppSleepStates: "core (snd (updateAppSleepStates pinf d e aid s)) = core s"
proof (cases pinf)
  case (Some p)
  obtain app q where "appSleepTarget p aid s = (app, q)" by (metis surj_pair)
  then show ?thesis
    unfolding Some updateAppSleepStates_def option.case Let_def
    by (simp only: prod.case snd_conv if_distrib [of core] core_emit core_upd_proc if_cancel)
qed (simp add: updateAppSleepStates_def)

lemma core_updateAppSleepStates' [dest]:
  "updateAppSleepStates pinf d e aid s = (r, s') \<Longrightarrow> core s' = core s"
  using core_updateAppSleepStates [of pinf d e aid s] by simp

lemma core_markSystemTimer [core_simps]: "core (markSystemTimer p aid s) = core s"
  by (simp add: markSystemTimer_def core_simps split: option.split)

lemma core_recordConnection [core_simps]: "core (recordConnection p s) = core s"
  by (simp add: recordConnection_def core_simps)

lemma core_asyncAssertionInitialConnection [core_simps]:
  "core (asyncAssertionInitialConnection p s) = core s"
  using core_retainOrCreate [of p s]
  by (auto simp: asyncAssertionInitialConnection_def core_simps split: prod.split bool.split)

lemma core_trueType [core_simps]: "core (trueType i s) = core s"
  by (simp add: trueType_def core_simps)

lemma core_io_pm_assertion_notify: "core (snd (io_pm_assertion_notify c nm req s)) = core s"
  by (simp add: io_pm_assertion_notify_def core_simps split: option.split)

lemma core_setProcessAssertionLimits_fold: "core (fold setProcessAssertionLimits ps s) = core s"
  by (rule core_fold_same) (simp add: core_simps)

lemma core_io_pm_set_exception_limits:
  "core (snd (io_pm_set_exception_limits ent limits em mon rc s)) = core s"
proof -
  have "core (s\<lparr>gProcAssertionLimits := x\<rparr>) = core s" for x by (simp add: core_def)
  then show ?thesis
    by (cases limits) (simp_all add: io_pm_set_exception_limits_def Let_def core_simps
        core_setProcessAssertionLimits_fold)
qed

section \<open>Requests\<close>

text \<open>A request that ends by answering the App Nap questions.\<close>

lemma answered_core:
  "(case updateAppSleepStates pinf d e aid s of (de, s') \<Rightarrow> (g de, s')) = (r, s'') \<Longrightarrow> core s'' = core s"
  "(case updateAppSleepStates pinf d e aid s of ((d', _), s') \<Rightarrow> (h d', s')) = (r, s'') \<Longrightarrow> core s'' = core s"
  by (auto split: prod.splits)

lemma served_io_pm_assertion_create:
  assumes "wf {} (core s)" and "io_pm_assertion_create c plist s = (r, s')" and "callerPID c \<in> P"
  shows "served P s s'"
proof (cases plist)
  case None
  then show ?thesis using assms served_refl by (simp add: io_pm_assertion_create_def)
next
  case (Some kvs)
  obtain r0 a0 p0 s0 where d: "doCreate (callerPID c) (if auditTokenIsRunningboardd c
      then (map_of kvs)(kPMAssertionIsRunningboardd \<mapsto> CFBoolean True) else map_of kvs) s = ((r0, a0, p0), s0)"
    by (metis surj_pair)
  note v = served_doCreate [OF assms(1) d assms(3)]
  have "s' = s \<or> core s' = core s0"
    using assms(2) unfolding io_pm_assertion_create_def Some option.case Let_def d prod.case
    by (auto split: if_splits dest: answered_core(2))
  then show ?thesis using v served_refl [OF assms(1)] served_same [OF v] by blast
qed

lemma served_io_pm_assertion_set_properties:
  assumes "wf {} (core s)" and "io_pm_assertion_set_properties c aid plist s = (r, s')"
    and "callerPID c \<in> P" "getpid (env s) \<in> P"
  shows "served P s s'"
proof (cases plist)
  case None
  then show ?thesis using assms served_refl by (simp add: io_pm_assertion_set_properties_def)
next
  case (Some kvs)
  obtain r0 s0 where d: "doSetProperties (callerPID c) aid kvs s = (r0, s0)" by (metis surj_pair)
  note v = served_doSetProperties [OF assms(1) d assms(3,4)]
  obtain u0 s1 where u: "updateAppSleepStates (processInfoGet s0 (callerPID c)) True True aid s0 = (u0, s1)"
    by (metis surj_pair)
  have "s' = s \<or> s' = s0 \<or> s' = s1"
    using assms(2) by (auto simp: io_pm_assertion_set_properties_def Some d u split: if_splits)
  then show ?thesis
    using v served_refl [OF assms(1)] served_same [OF v core_updateAppSleepStates' [OF u]] by blast
qed

lemma served_io_pm_assertion_retain_release:
  assumes "wf {} (core s)" and "io_pm_assertion_retain_release c aid act s = (r, s')"
    and "callerPID c \<in> P" "getpid (env s) \<in> P"
  shows "served P s s'"
proof -
  obtain rn s0 where d: "(if act = kIOPMAssertionMIGDoRetain then doRetain (callerPID c) aid s
      else doRelease (callerPID c) aid s) = (rn, s0)" by (metis surj_pair)
  have v: "served P s s0"
    using d served_doRetain [OF assms(1) _ assms(3)] served_doRelease [OF assms(1) _ assms(3,4)]
    by (auto split: if_splits)
  obtain u0 s1 where u: "updateAppSleepStates (processInfoGet s0 (callerPID c)) True True aid s0 = (u0, s1)"
    by (metis surj_pair)
  have "s' = s0 \<or> s' = s1"
    using assms(2) unfolding io_pm_assertion_retain_release_def d
    by (auto simp: Let_def u split: if_splits prod.splits)
  then show ?thesis
    using v served_same [OF v core_updateAppSleepStates' [OF u]] by blast
qed

lemma declareOrExtend_new:
  assumes "declareOrExtend c aid t nm kvs s = (r, s')" and "declareAgain c aid t s = None"
    and "doCreate (callerPID c) ((map_of kvs)(kIOPMAssertionTypeKey \<mapsto> CFString (TypeName nm))) s
      = ((r1, a1, p1), s1)"
  shows "core s' = core s1"
proof -
  have "s' = (if r1 = kIOReturnSuccess then markSystemTimer (callerPID c) a1 s1 else s1)"
    using assms(1) unfolding declareOrExtend_def assms(2,3) option.case prod.case
    by (simp only: prod.inject)
  then show ?thesis by (simp only: if_distrib [of core] core_markSystemTimer if_cancel)
qed

lemma declareOrExtend_again:
  assumes "declareOrExtend c aid t nm kvs s = (r, s')" and "declareAgain c aid t s = Some i"
  obtains s0 r1 where "core s0 = core s" "env s0 = env s" "doSetProperties (callerPID c) aid kvs s0 = (r1, s')"
proof
  let ?s = "upd_asn i (prop_set kIOPMAssertionLevelKey (CFNumber (of_int kIOPMAssertionLevelOn))) s"
  show "core ?s = core s" by (rule core_level(1))
  show "env ?s = env s" by (simp add: upd_asn_def)
  show "doSetProperties (callerPID c) aid kvs ?s = (fst (doSetProperties (callerPID c) aid kvs ?s), s')"
    using assms(1) unfolding declareOrExtend_def assms(2) option.case by (auto split: prod.splits)
qed

lemma served_declareOrExtend:
  assumes wf: "wf {} (core s)" and r: "declareOrExtend c aid t nm kvs s = (r, s')"
    and P: "callerPID c \<in> P" "getpid (env s) \<in> P"
  shows "served P s s'"
proof (cases "declareAgain c aid t s")
  case None
  obtain r1 a1 p1 s1 where d: "doCreate (callerPID c)
      ((map_of kvs)(kIOPMAssertionTypeKey \<mapsto> CFString (TypeName nm))) s = ((r1, a1, p1), s1)"
    by (metis surj_pair)
  show ?thesis
    by (rule served_same [OF served_doCreate [OF wf d P(1)] declareOrExtend_new [OF r None d]])
next
  case (Some i)
  obtain s0 r1 where d: "core s0 = core s" "env s0 = env s"
    "doSetProperties (callerPID c) aid kvs s0 = (r1, s')"
    by (rule declareOrExtend_again [OF r Some])
  have "served P s0 s'"
    using served_doSetProperties [of s0 "callerPID c" aid kvs r1 s' P] wf P d by simp
  then show ?thesis by (rule served_trans [OF served_core [OF wf d(1)]])
qed

lemma served_declareActive:
  assumes wf: "wf {} (core s)" and r: "declareActive c aid t nm kvs s = (r, s')"
    and P: "callerPID c \<in> P" "getpid (env s) \<in> P"
  shows "served P s s'"
proof -
  obtain r0 a0 s0 where d: "declareOrExtend c aid t nm kvs s = ((r0, a0), s0)" by (metis surj_pair)
  note v = served_declareOrExtend [OF wf d P]
  have "core s' = core s0"
    using r unfolding declareActive_def d prod.case
    by (cases "r0 = kIOReturnSuccess") (auto dest: answered_core(2))
  then show ?thesis by (rule served_same [OF v])
qed

lemma served_declare_requests:
  assumes wf: "wf {} (core s)" and P: "callerPID c \<in> P" "getpid (env s) \<in> P"
  shows "io_pm_declare_user_active c aid plist s = (r, s') \<Longrightarrow> served P s s'"
    and "io_pm_declare_network_client_active c aid plist s = (r, s') \<Longrightarrow> served P s s'"
    and "io_pm_declare_system_active c fl rv plist s = (r, s') \<Longrightarrow> served P s s'"
proof -
  note d = served_declareActive [OF wf _ P] and rf = served_refl [OF wf, of P]
  show "served P s s'" if "io_pm_declare_user_active c aid plist s = (r, s')"
    using that rf by (auto simp: io_pm_declare_user_active_def split: option.splits if_splits intro: d)
  show "served P s s'" if "io_pm_declare_network_client_active c aid plist s = (r, s')"
    using that rf unfolding io_pm_declare_network_client_active_def Let_def
    by (cases plist; cases "callerIsEntitledToAssertion c (map_of (the plist)) s") (auto intro: d)
  show "served P s s'" if "io_pm_declare_system_active c fl rv plist s = (r, s')"
    using that rf served_doCreate [OF wf _ P(1)]
    by (auto simp: io_pm_declare_system_active_def Let_def split: option.splits if_splits prod.splits)
qed

section \<open>Requests of asynchronous clients\<close>

lemma served_asyncAssertionCreate:
  assumes "wf {} (core s)" and "asyncAssertionCreate c plist s = (r, s')" and "callerPID c \<in> P"
  shows "served P s s'"
proof (cases plist)
  case None
  then show ?thesis using assms served_refl by (simp add: asyncAssertionCreate_def)
next
  case (Some kvs)
  obtain r0 a0 p0 s0 where d: "doCreate (callerPID c) (map_of kvs) s = ((r0, a0, p0), s0)"
    by (metis surj_pair)
  note v = served_doCreate [OF assms(1) d assms(3)]
  have "s' = s \<or> s' = (case p0 of Some q \<Rightarrow> recordConnection q s0 | None \<Rightarrow> s0)"
    using assms(2) unfolding asyncAssertionCreate_def Some option.case Let_def d prod.case
    by (auto split: if_splits)
  moreover have "core (case p0 of Some q \<Rightarrow> recordConnection q s0 | None \<Rightarrow> s0) = core s0"
    by (simp add: core_recordConnection split: option.split)
  ultimately show ?thesis using served_refl [OF assms(1)] served_same [OF v] by metis
qed

lemma served_asyncAssertionRelease:
  assumes wf: "wf {} (core s)" and r: "asyncAssertionRelease c aid b s = (r, s')"
    and P: "callerPID c \<in> P" "getpid (env s) \<in> P"
  shows "served P s s'"
proof -
  define s1 where "s1 = (case lookupAssertion s (callerPID c) aid of
                  (_, None) \<Rightarrow> s
                | (_, Some i) \<Rightarrow> upd_asn i (prop_set kIOPMAssertionIsCoalescedKey (CFBoolean b)) s)"
  have c: "core s1 = core s"
    by (simp add: s1_def core_level(2) split: prod.split option.split)
  have e: "env s1 = env s" by (simp add: s1_def upd_asn_def split: prod.split option.split)
  obtain rn s2 where d: "doRelease (callerPID c) aid s1 = (rn, s2)" by (metis surj_pair)
  have "s' = s2"
    using r unfolding asyncAssertionRelease_def s1_def [symmetric] Let_def d by (simp split: prod.splits)
  moreover have "served P s1 s2" using served_doRelease [OF _ d P(1)] wf c e P(2) by simp
  ultimately show ?thesis using served_trans [OF served_core [OF wf c]] by blast
qed

lemma served_asyncAssertionProperties:
  assumes wf: "wf {} (core s)" and r: "asyncAssertionProperties c plist s = (r, s')"
    and P: "callerPID c \<in> P" "getpid (env s) \<in> P"
  shows "served P s s'"
  using r served_refl [OF wf] served_doSetProperties [OF wf _ P]
  unfolding asyncAssertionProperties_def
  by (auto split: option.splits if_splits cf.splits)

section \<open>Entry points of the daemon\<close>

lemma served_createBlock:
  assumes wf: "wf {} (core s)" and r: "createBlock p st v s = (v', s')" and P: "getpid (env s) \<in> P"
  shows "served P s s'"
proof -
  obtain r0 a0 p0 s0 where d: "doCreate (getpid (env s)) p s = ((r0, a0, p0), s0)" by (metis surj_pair)
  note sv = served_doCreate [OF wf d P]
  have "core (if st then markSystemTimer q a0 s0 else s0) = core s0" for q
    by (simp only: if_distrib [of core] core_markSystemTimer if_cancel)
  moreover have "s' \<in> {s, s0, if st then markSystemTimer (getpid (env s0)) a0 s0 else s0}"
    using r unfolding createBlock_def d by (auto split: option.splits if_splits)
  ultimately show ?thesis using sv served_refl [OF wf] served_same [OF sv]
    by (metis empty_iff insert_iff)
qed

lemma served_InternalDeclareUserActive:
  assumes wf: "wf {} (core s)" and r: "InternalDeclareUserActive d v s = (r, s')" and P: "getpid (env s) \<in> P"
  shows "served P s s'"
proof (cases "snd (lookupAssertion s (getpid (env s)) v)")
  case None
  then show ?thesis using r served_refl [OF wf]
    by (auto simp: InternalDeclareUserActive_def Let_def split: prod.splits)
next
  case (Some i)
  let ?s = "upd_asn i (prop_set kIOPMAssertionLevelKey (CFNumber (of_int kIOPMAssertionLevelOn))) s"
  obtain ret where l: "lookupAssertion s (getpid (env s)) v = (ret, Some i)"
    using Some by (metis prod.collapse)
  have c: "core ?s = core s" and e: "env ?s = env s"
    by (rule core_level(1), simp add: upd_asn_def)
  have "s' = s \<or> (\<exists>kvs r1. doSetProperties (getpid (env s)) v kvs ?s = (r1, s'))"
    using r unfolding InternalDeclareUserActive_def Let_def l prod.case option.case
    by (auto split: if_splits prod.splits)
  then show ?thesis
  proof
    assume "\<exists>kvs r1. doSetProperties (getpid (env s)) v kvs ?s = (r1, s')"
    then obtain kvs r1 where d: "doSetProperties (getpid (env s)) v kvs ?s = (r1, s')" by blast
    have "served P ?s s'" using served_doSetProperties [OF _ d P] wf c e P by simp
    then show ?thesis by (rule served_trans [OF served_core [OF wf c]])
  qed (simp add: served_refl [OF wf])
qed

lemma served_InternalCreateAssertionWithTimeout:
  assumes "wf {} (core s)" and "InternalCreateAssertionWithTimeout ty nm n s = (r, s')"
    and "getpid (env s) \<in> P"
  shows "served P s s'"
  using assms(2) served_doCreate [OF assms(1) _ assms(3)]
  by (auto simp: InternalCreateAssertionWithTimeout_def split: prod.splits)

lemma served_daemon_calls:
  assumes wf: "wf {} (core s)" and P: "getpid (env s) \<in> P"
  shows "InternalReleaseAssertionSync v s = (r, s') \<Longrightarrow> served P s s'"
    and "InternalSetAssertionTimeout v n s = (r, s') \<Longrightarrow> served P s s'"
    and "p \<in> P \<Longrightarrow> enableAssertionForLimitedPower p v s = (r, s') \<Longrightarrow> served P s s'"
  using served_refl [OF wf] served_doRelease [OF wf _ P P] served_doSetProperties [OF wf _ P P]
    served_doSetProperties [OF wf _ _ P]
  by (auto simp: InternalReleaseAssertionSync_def InternalSetAssertionTimeout_def
      enableAssertionForLimitedPower_def split: if_splits prod.splits)

lemma served_proxy:
  assumes wf: "wf {} (core s)" and r: "InternalCreateAssertionWithTimeout ty nm n s = ((r, aid), s1)"
    and P: "getpid (env s) \<in> P"
  shows "served P s (snd (enableAssertionForLimitedPower (getpid (env s1)) aid s1))"
proof -
  note v = served_InternalCreateAssertionWithTimeout [OF wf r P]
  have e: "env s1 = env s" by (rule served_env [OF v])
  obtain r2 s2 where d: "enableAssertionForLimitedPower (getpid (env s1)) aid s1 = (r2, s2)"
    by (metis surj_pair)
  have "served P s1 s2"
    by (rule served_daemon_calls(3) [OF served_wf [OF v] _ _ d]) (use P e in simp_all)
  then show ?thesis using served_trans [OF v] d by simp
qed

lemma served_DarkWakeHandleNetworkWake:
  assumes wf: "wf {} (core s)" and P: "getpid (env s) \<in> P"
  shows "served P s (DarkWakeHandleNetworkWake s)"
proof -
  obtain r aid s1 where d: "InternalCreateAssertionWithTimeout kIOPMAssertInternalPreventSleep
      ''Network wake delay proxy assertion'' 30 s = ((r, aid), s1)" by (metis surj_pair)
  show ?thesis
    using served_proxy [OF wf d P] served_InternalCreateAssertionWithTimeout [OF wf d P]
    unfolding DarkWakeHandleNetworkWake_def d prod.case by simp
qed

lemma served_AssertForDeviceEnumeration:
  assumes wf: "wf {} (core s)" and P: "getpid (env s) \<in> P"
  shows "served P s (snd (AssertForDeviceEnumeration w ok s))"
proof -
  obtain r aid s1 where d: "InternalCreateAssertionWithTimeout kIOPMAssertInternalPreventSleep
      ''PM configd - Wait for Device enumeration'' 0 s = ((r, aid), s1)" by (metis surj_pair)
  note v1 = served_InternalCreateAssertionWithTimeout [OF wf d P]
  define s2 where "s2 = snd (enableAssertionForLimitedPower (getpid (env s1)) aid s1)"
  have v2: "served P s s2" unfolding s2_def by (rule served_proxy [OF wf d P])
  obtain rn s3 where q: "doRelease (getpid (env s2)) aid s2 = (rn, s3)" by (metis surj_pair)
  have "served P s2 s3"
    by (rule served_doRelease [OF served_wf [OF v2] q]) (use P served_env [OF v2] in simp_all)
  then have "served P s s3" by (rule served_trans [OF v2])
  then show ?thesis
    using v1 v2 served_refl [OF wf]
    unfolding AssertForDeviceEnumeration_def localCreateAssertion_def d prod.case Let_def
      s2_def [symmetric] q by simp
qed

lemma served_devEnumerationDone:
  assumes wf: "wf {} (core s)" and P: "getpid (env s) \<in> P"
  shows "served P s (snd (devEnumerationDone d s))"
  using served_refl [OF wf] served_doRelease [OF wf _ P P]
  by (auto simp: devEnumerationDone_def split: option.split) (metis prod.collapse)

lemma served_ProxyAssertions:
  assumes wf: "wf {} (core s)" and P: "getpid (env s) \<in> P"
  shows "served P s (snd (ProxyAssertions ch dw w r ok s))"
proof -
  have "served P s (snd (InternalCreateAssertionWithTimeout ty nm n s))" for ty nm n
    using served_InternalCreateAssertionWithTimeout [OF wf _ P] by (metis prod.collapse)
  then show ?thesis
    using served_refl [OF wf] served_DarkWakeHandleNetworkWake [OF wf P]
      served_AssertForDeviceEnumeration [OF wf P]
    by (simp add: ProxyAssertions_def split: option.split)
qed

end
