(* ===== verification/AssertionSystemTimer.thy ===== *)
theory AssertionSystemTimer
  imports AssertionClientLemmas
begin

unbundle bit_operations_syntax

text \<open>
  The system assertion timer (\<open>systemAssertionTimerFired\<close> of PMAssertions.c) and the copies
  for clients keep the table well formed; dropping an assertion leaves it in the inactive list
  of its type.
\<close>

lemma lifted_unlink:
  assumes "lifted F P i b c c'"
  shows "c_unlink i c' = c'"
proof (rule core_eqI)
  have n: "i \<notin> set (linked (c_lists c' t))" for t
    using wf_floating_unlinked [of "insert i F" c' i t] assms by (simp add: lifted_def)
  have "remove_from_lists i (c_lists c' t) = c_lists c' t" for t
    using n [of t] by (intro lists.equality) (auto simp: removeAll_id)
  then show "c_lists (c_unlink i c') = c_lists c'" by (simp add: fun_eq_iff)
qed simp_all

lemma handleAssertionDrop_core:
  assumes wf: "wf {} (core s)" and a: "c_asn (core s) i = Some a"
    and P: "c_pinfo a \<in> P" "getpid (env s) \<in> P"
  obtains c' where "lifted {} P i (a\<lparr>c_timed := False, c_inactive := False\<rparr>) (core s) c'"
    "core (handleAssertionDrop i s) = c_insert_inactive i (c_kassert a) c'"
proof
  let ?s1 = "releaseAssertion i True s"
  let ?s2 = "if activeAsyncAssertion (proc ?s1 (pinfo (asn ?s1 i))) \<noteq> 0
    then upd_proc (pinfo (asn ?s1 i)) (\<lambda>P. P\<lparr>activeAsyncAssertion := 0\<rparr>) ?s1 else ?s1"
  let ?s3 = "if remoteConnection (proc ?s2 (pinfo (asn ?s1 i))) then sendAssertionTimeoutMsg i ?s2 else ?s2"
  have c2: "core ?s2 = core ?s1" by (simp add: core_simps)
  have "core (if b then sendAssertionTimeoutMsg i s' else s') = core s'" for b s'
    by (simp only: if_distrib [of core] core_sendAssertionTimeoutMsg if_cancel)
  then have c3: "core ?s3 = core ?s1" using c2 by (rule trans)
  show l: "lifted {} P i (a\<lparr>c_timed := False, c_inactive := False\<rparr>) (core s) (core ?s3)"
    unfolding c3 by (rule releaseAssertion_lifted [OF wf a _ _ P]) simp_all
  then have "c_asn (core ?s3) i = Some (a\<lparr>c_timed := False, c_inactive := False\<rparr>)"
    by (simp add: lifted_def)
  then have "acore (asn ?s3 i) = a\<lparr>c_timed := False, c_inactive := False\<rparr>" by (rule core_asn)
  then have "c_kassert (acore (asn ?s3 i)) = c_kassert a" by simp
  then have t: "kassert (asn ?s3 i) = c_kassert a" by simp
  show "core (handleAssertionDrop i s) = c_insert_inactive i (c_kassert a) (core ?s3)"
    unfolding handleAssertionDrop_def Let_def
    by (simp only: core_notify core_emit core_insertInactive core_removeActive lifted_unlink [OF l] t)
qed

lemma handleAssertionDrop_ok:
  assumes wf: "wf {} (core s)" and a: "c_asn (core s) i = Some a"
  shows "wf {} (core (handleAssertionDrop i s)) \<and>
    keeps {} {c_pinfo a, getpid (env s)} (core s) (core (handleAssertionDrop i s)) \<and>
    i \<in> set (inactive (c_lists (core (handleAssertionDrop i s)) (c_kassert a)))"
proof -
  obtain c' where l: "lifted {} {c_pinfo a, getpid (env s)} i (a\<lparr>c_timed := False, c_inactive := False\<rparr>) (core s) c'"
    "core (handleAssertionDrop i s) = c_insert_inactive i (c_kassert a) c'"
    by (rule handleAssertionDrop_core [OF wf a, of "{c_pinfo a, getpid (env s)}"]) auto
  show ?thesis
    using lifted_insert(1) [OF l(1), of "c_kassert a"] unfolding l(2) by (simp add: c_insert_inactive_def)
qed

lemma systemTimerStep_ok:
  assumes "wf {} (core s)" and "owner (core s) i \<noteq> None"
  shows "served UNIV s (snd (systemTimerStep listed i (r, s))) \<and>
    (\<forall>j. owner (core s) j \<noteq> None \<longrightarrow> owner (core (snd (systemTimerStep listed i (r, s)))) j \<noteq> None)"
proof -
  obtain a where a: "c_asn (core s) i = Some a" using assms(2) by (auto simp: owner_def)
  note d = handleAssertionDrop_ok [OF assms(1) a]
  then have k: "keeps {} UNIV (core s) (core (handleAssertionDrop i s))" using keeps_widen by blast
  have "served UNIV s (handleAssertionDrop i s)" using d served_step [of "handleAssertionDrop i s"] by blast
  moreover have "owner (core s) j \<noteq> None \<Longrightarrow> owner (core (handleAssertionDrop i s)) j \<noteq> None" for j
    using keepsD(3) [OF k, of j] by auto
  ultimately show ?thesis
    using served_refl [OF assms(1)] by (simp add: systemTimerStep_def Let_def)
qed

lemma systemTimerSteps_ok:
  assumes "wf {} (core s)" and "\<forall>i \<in> set xs. owner (core s) i \<noteq> None"
  shows "served UNIV s (snd (fold (systemTimerStep listed) xs (r, s)))"
  using assms
proof (induction xs arbitrary: r s)
  case Nil
  then show ?case by (simp add: served_refl)
next
  case (Cons i xs)
  obtain r' s' where st: "systemTimerStep listed i (r, s) = (r', s')" by (metis surj_pair)
  note one = systemTimerStep_ok [OF Cons.prems(1), of i listed r, unfolded st snd_conv]
  have v: "served UNIV s s'" using one Cons.prems(2) by simp
  have "served UNIV s' (snd (fold (systemTimerStep listed) xs (r', s')))"
    using Cons.IH [OF served_wf [OF v], of r'] one Cons.prems(2) by simp
  then show ?case using served_trans [OF v] by (simp add: st)
qed

lemma served_systemAssertionTimerFired:
  assumes wf: "wf {} (core s)"
  shows "served UNIV s (systemAssertionTimerFired listed s)"
proof -
  let ?s0 = "s\<lparr>gSystemAssertionTimerActive := False\<rparr>"
  let ?is = "selected kSelectActive (tlists (gAssertionTypes ?s0 kPreventIdleType))"
  have c: "core ?s0 = core s" by (simp add: core_def)
  obtain r s1 where f: "fold (systemTimerStep listed) ?is (None, ?s0) = (r, s1)" by (metis surj_pair)
  have o: "\<forall>i \<in> set ?is. owner (core ?s0) i \<noteq> None"
    unfolding core_lists by (rule wf_selected_owner) (simp only: c wf)
  have "served UNIV ?s0 s1"
    using systemTimerSteps_ok [of ?s0 ?is listed None] wf o f c by simp
  then have v: "served UNIV s s1" by (rule served_trans [OF served_core [OF wf c]])
  have "served UNIV s (case r of None \<Rightarrow> s1 | Some n \<Rightarrow> startSystemAssertionTimer n s1)"
    using v served_same [OF v] by (simp add: core_simps split: option.split)
  then show ?thesis
    using served_refl [OF wf] unfolding systemAssertionTimerFired_def Let_def f prod.case
    by (cases "gSystemAssertionTimeoutEnabled s"; cases r) simp_all
qed

section \<open>Copies\<close>

lemma core_copyAssertion: "core (fst (copyAssertion i sd)) = core (fst sd)"
  by (cases sd) (simp add: copyAssertion_def Let_def core_trueType)

lemma core_fold_copy:
  "core (fst (fold (\<lambda>i sd. if wanted st (asn (fst sd) i) then copyAssertion i sd else sd) xs sd)) = core (fst sd)"
  by (induction xs arbitrary: sd) (simp_all add: core_copyAssertion)

lemma core_copies: "core (snd (copyPIDAssertionDictionaryFlattened st s)) = core s"
proof -
  have "\<exists>xs. copyPIDAssertionDictionaryFlattened st s =
      (case fold (\<lambda>i sd. if wanted st (asn (fst sd) i) then copyAssertion i sd else sd) xs (s, [])
       of (s1, d) \<Rightarrow> (d, s1))"
    unfolding copyPIDAssertionDictionaryFlattened_def Let_def by (rule exI, rule refl)
  then obtain xs where x: "copyPIDAssertionDictionaryFlattened st s =
      (case fold (\<lambda>i sd. if wanted st (asn (fst sd) i) then copyAssertion i sd else sd) xs (s, [])
       of (s1, d) \<Rightarrow> (d, s1))" by blast
  show ?thesis
    unfolding x using core_fold_copy [of st xs "(s, [])"]
    by (cases "fold (\<lambda>i sd. if wanted st (asn (fst sd) i) then copyAssertion i sd else sd) xs (s, [])") simp
qed

lemma core_copyAssertionsByType: "core (snd (copyAssertionsByType ty s)) = core s"
  by (simp add: copyAssertionsByType_def Let_def core_applySync core_trueType split: option.split)

lemma core_copy_details: "core (snd (io_pm_assertion_copy_details c aid w ty sc rp ok s)) = core s"
proof -
  have "core (snd (collect c aid w ty sc rp s)) = core s"
    using core_copies core_copyAssertionsByType
    by (cases w) (simp_all add: collect_def split: prod.split, (metis snd_conv)+)
  then show ?thesis
    by (cases "collect c aid w ty sc rp s"; cases "fst (collect c aid w ty sc rp s)")
      (simp_all add: io_pm_assertion_copy_details_def)
qed

end
