(* ===== verification/AssertionExample.thy ===== *)
theory AssertionExample
  imports AssertionRetime
begin

unbundle bit_operations_syntax

text \<open>
  Concrete states at which the theorems about the assertion engine are applied: \<open>boot\<close>, the
  state \<open>PMAssertions_prime\<close> leaves on a machine on external power, and \<open>busy\<close>, the same
  machine while the process 100 holds one timed assertion (index 0) that prevents idle sleep
  and whose timeout has passed.
\<close>

definition env0 :: env where
  "env0 = \<lparr>getMonotonicTime = 1000, CFAbsoluteTimeGetCurrent = 500, getpid = 1,
     getPowerSource = kACPowered, isDisplayAsleep = False, userActiveRootDomain = True,
     isDesktopMode = False, isA_FullWake = True, isA_DarkWakeState = False, isA_SleepState = False,
     isA_NotificationDisplayWake = False, getUserActiveAssertionValid = True,
     getUserActivePostedLevels = 0, isInSilentRunningMode = False, canSustainFullWake = True,
     inFlightDimRequest = False, getRootDomainConnect = True, rootDomainCallOK = True,
     rootDomainWakeTypeNotification = None, getDisplaySleepTimer = Some 10, getIdleSleepTimer = 30,
     isA_SleepSrvcWake = False, SS_allowed = False, DWBT_enabled = True, isA_BTMtnceWake = False,
     tcpKeepAliveActive = True, getCurrentSleepServiceCapTimeout = 180000,
     appnap_enabled_for_pid = (\<lambda>_. True), proc_name = (\<lambda>_. Some ''client''), calloc_ok = True\<rparr>"

definition boot :: pm where
  "boot = PMAssertions_prime (loaded env0)"

definition idle_props :: props_t where
  "idle_props = [kIOPMAssertionTypeKey \<mapsto> CFString (TypeName kIOPMAssertionTypePreventUserIdleSystemSleep),
     kIOPMAssertionGlobalUniqueIDKey \<mapsto> CFNumber 7,
     kIOPMAssertionTimeoutKey \<mapsto> CFNumber 60]"

definition timed_assertion :: assertion where
  "timed_assertion = calloc_assertion\<lparr>props := idle_props, state := {kAssertionStateTimed},
     timeout := 900, kassert := kPreventIdleType, assertionId := ID_FROM_INDEX 0,
     retainCnt := 1, pinfo := 100\<rparr>"

text \<open>The state in which one assertion, at index 0, is all there is.\<close>

definition with_one :: "lists \<Rightarrow> assertion \<Rightarrow> pm" where
  "with_one l a = upd_lists (kassert a) (\<lambda>_. l)
     (boot\<lparr>gAssertionsArray := [0 \<mapsto> a], gNextAssertionIdx := 1,
        gProcessDict := [pinfo a \<mapsto> calloc_ProcessInfo\<lparr>retain_cnt := 1, procpid := pinfo a\<rparr>]\<rparr>)"

definition busy :: pm where
  "busy = with_one (empty_lists\<lparr>activeTimed := [0]\<rparr>) timed_assertion"

lemma boot_wf: "wf {} (core boot)"
  unfolding boot_def by (rule prime_wf)

lemma boot_wf_effects: "wf_effects boot"
  unfolding boot_def by (rule prime_wf_effects)

lemma boot_table:
  "c_lists (core boot) = (\<lambda>_. empty_lists)" "c_asn (core boot) = Map.empty"
  "c_next (core boot) = 0" "c_env (core boot) = env0"
  using fold_same_table [of "(loaded env0)\<lparr>gAssertionsArray := Map.empty, gProcessDict := Map.empty,
        gUserAssertionTypesDict := Map.empty, gAssertionEffects := (\<lambda>_. [])\<rparr>" all_types]
  unfolding boot_def core_prime by (simp_all add: same_table_def core_def loaded_def zero_assertionType_def)

lemma boot_sel:
  "tlists (gAssertionTypes boot t) = empty_lists" "gAssertionsArray boot = Map.empty"
  "gNextAssertionIdx boot = 0" "env boot = env0"
  using boot_table unfolding core_def by (auto simp: fun_eq_iff)

lemma boot_dict:
  "gUserAssertionTypesDict boot kIOPMAssertionTypePreventUserIdleSystemSleep = Some kPreventIdleType"
  by code_simp

lemma with_one_table:
  "c_lists (core (with_one l a)) = (\<lambda>t. if t = kassert a then l else empty_lists)"
  "c_asn (core (with_one l a)) = [0 \<mapsto> acore a]"
  "c_next (core (with_one l a)) = 1" "c_dict (core (with_one l a)) = gUserAssertionTypesDict boot"
  "c_env (core (with_one l a)) = env0"
  by (auto simp: with_one_def core_def upd_lists_def upd_type_def fun_eq_iff boot_sel)

lemma with_one_sel:
  "gAssertionsArray (with_one l a) = [0 \<mapsto> a]" "env (with_one l a) = env0"
  "gProcessDict (with_one l a) = [pinfo a \<mapsto> calloc_ProcessInfo\<lparr>retain_cnt := 1, procpid := pinfo a\<rparr>]"
  "asn (with_one l a) 0 = a"
  by (simp_all add: with_one_def upd_lists_def upd_type_def boot_sel asn_def)

text \<open>It is well formed when the assertion is on the list its state bits say and has a known type.\<close>

definition rightly_listed :: "lists \<Rightarrow> assertion \<Rightarrow> bool" where
  "rightly_listed l a \<longleftrightarrow>
     (if kAssertionStateTimed \<in> state a then l = empty_lists\<lparr>activeTimed := [0]\<rparr> \<and> kAssertionStateInactive \<notin> state a
      else if kAssertionStateInactive \<in> state a then l = empty_lists\<lparr>inactive := [0]\<rparr>
      else l \<in> {empty_lists\<lparr>active := [0]\<rparr>, empty_lists\<lparr>suspended := [0]\<rparr>})"

lemma with_one_wf:
  assumes "rightly_listed l a" and "assertionId a = ID_FROM_INDEX 0"
    and "props a kIOPMAssertionGlobalUniqueIDKey \<noteq> None"
    and "type_of_props (props a) = Some n" and "gUserAssertionTypesDict boot n \<noteq> None"
  shows "wf {} (core (with_one l a))"
  unfolding wf_def
proof (intro conjI)
  note t = with_one_table acore_def empty_lists_def
  have l: "l \<in> {empty_lists\<lparr>activeTimed := [0]\<rparr>, empty_lists\<lparr>inactive := [0]\<rparr>,
      empty_lists\<lparr>active := [0]\<rparr>, empty_lists\<lparr>suspended := [0]\<rparr>}"
    using assms(1) by (auto simp: rightly_listed_def split: if_splits)
  show "wf_links {} (core (with_one l a))" using l by (auto simp: wf_links_def linked_def t)
  show "wf_bits (core (with_one l a))"
    using assms(1) by (auto simp: wf_bits_def cbits_def t rightly_listed_def split: if_splits)
  show "wf_sorted (core (with_one l a))" using l by (auto simp: wf_sorted_def t)
  show "wf_ids (core (with_one l a))" using assms(2) by (simp add: wf_ids_def t kMaxAssertions_def)
  show "wf_types {} (core (with_one l a))"
    using assms(3-5) by (auto simp: wf_types_def well_typed_def t)
qed

lemmas busy_table = with_one_table [of "empty_lists\<lparr>activeTimed := [0]\<rparr>" timed_assertion, folded busy_def]
lemmas busy_sel = with_one_sel [of "empty_lists\<lparr>activeTimed := [0]\<rparr>" timed_assertion, folded busy_def]

lemma busy_wf: "wf {} (core busy)"
  unfolding busy_def
  by (rule with_one_wf [where n = kIOPMAssertionTypePreventUserIdleSystemSleep])
    (simp_all add: rightly_listed_def timed_assertion_def calloc_assertion_def idle_props_def
      type_of_props_def boot_dict)

end
