(* ===== verification/AssertionKernel.thy ===== *)
theory AssertionKernel
  imports AssertionExample
begin

unbundle bit_operations_syntax

text \<open>
  What the handler \<open>setKernelAssertions\<close> of PMAssertions.c does to the assertion bits of the
  kernel: nothing but the last step of the handler touches \<open>kerAssertionBits\<close>, so each of the
  three operations has a closed form.
\<close>

lemma kerBits_frames [frame_simps]:
  "kerAssertionBits (emit e s) = kerAssertionBits s"
  "kerAssertionBits (dispatch_async b s) = kerAssertionBits s"
  "kerAssertionBits (upd_type t f s) = kerAssertionBits s"
  "kerAssertionBits (setAggregateLevel t v s) = kerAssertionBits s"
  by (simp_all add: emit_def dispatch_async_def upd_type_def setAggregateLevel_def)

lemma kerBits_requests [frame_simps]:
  "kerAssertionBits (setClamshellSleepState s) = kerAssertionBits s"
  "kerAssertionBits (sendActivityTickle s) = kerAssertionBits s"
  "kerAssertionBits (sendUserAssertionsToKernel b s) = kerAssertionBits s"
  "kerAssertionBits (notifyAggChange s) = kerAssertionBits s"
  "kerAssertionBits (resetGlobalTimer t n s) = kerAssertionBits s"
  by (simp_all add: setClamshellSleepState_def sendActivityTickle_def sendUserAssertionsToKernel_def
      notifyAggChange_def resetGlobalTimer_def Let_def frame_simps)

lemma kerBits_updateAggregates [frame_simps]:
  "kerAssertionBits (updateAggregates t b s) = kerAssertionBits s"
  by (simp add: updateAggregates_def Let_def frame_simps)

lemma kerBits_commit:
  "kerAssertionBits (commitKernelBit b v s) =
     (if v then insert b (kerAssertionBits s) else kerAssertionBits s - {b})"
  by (simp add: commitKernelBit_def Let_def frame_simps)

lemma kerBits_setKernelAssertions:
  assumes "effectIdx (gAssertionTypes s t) \<noteq> kNoEffect" and "assertBitOf t = Some b"
  defines "a \<equiv> fst (checkForActives s t True)"
  shows "kerAssertionBits (setKernelAssertions t kAssertionOpEval s) =
      (if a then insert b (kerAssertionBits s) else kerAssertionBits s - {b})"
    and "kerAssertionBits (setKernelAssertions t kAssertionOpRaise s) =
      (if a then insert b (kerAssertionBits s) else kerAssertionBits s)"
    and "kerAssertionBits (setKernelAssertions t kAssertionOpRelease s) =
      (if a then kerAssertionBits s else kerAssertionBits s - {b})"
  using assms(1,2)
  by (auto simp: a_def setKernelAssertions_def kernelEval_def kernelRaise_def kernelRelease_def
      Let_def frame_simps kerBits_commit split: prod.split)

end
