(* ===== verification/AssertionMachine.thy ===== *)
theory AssertionMachine
  imports AssertionSystemTimer AssertionKernel
begin

unbundle bit_operations_syntax

text \<open>
  The assertion engine as a state machine: the blocks that wait on the main queue, and one
  step per entry point (client requests, timers, settings and power-source changes, process
  exit).  All entry points run on the main queue, one after the other, so their interleaving
  is a sequence of steps.  The table invariant and the effect partition hold in every
  reachable state.
\<close>

fun run_task :: "task \<Rightarrow> pm \<Rightarrow> pm" where
  "run_task (HandleAssertionTimeoutTask t) s = handleAssertionTimeout t s"
| "run_task CheckRestartPreventersTask s = checkRestartPreventers s"
| "run_task UserActiveHandlePowerAssertionsChangedTask s = emit UserActiveHandlePowerAssertionsChanged s"
| "run_task (StartProcTimerTask p aid) s = startProcTimer p aid s"
| "run_task (DisableAppSleepTask p) s = processInfoRelease p (disableAppSleep p s)"
| "run_task (EnableAppSleepTask p) s = processInfoRelease p (enableAppSleep p s)"
| "run_task (EnforceAssertionTypeTimeCapTask t) s = enforceAssertionTypeTimeCap t s"
| "run_task (GlobalTimerCancelHandlerTask t) s = upd_type t (\<lambda>T. T\<lparr>globalTimer := False\<rparr>) s"
| "run_task SystemAssertionTimerCancelHandlerTask s =
     s\<lparr>gSystemAssertionTimer := False, gSystemAssertionTimerActive := False\<rparr>"
| "run_task AggCleanupCancelHandlerTask s = s\<lparr>gAggCleanupDispatch := False\<rparr>"

text \<open>Requests of a client, by the pid of the sender.\<close>

inductive request :: "pid \<Rightarrow> pm \<Rightarrow> pm \<Rightarrow> bool" where
  create: "io_pm_assertion_create c plist s = (r, s') \<Longrightarrow> request (callerPID c) s s'"
| set_properties: "io_pm_assertion_set_properties c aid plist s = (r, s') \<Longrightarrow> request (callerPID c) s s'"
| retain_release: "io_pm_assertion_retain_release c aid act s = (r, s') \<Longrightarrow> request (callerPID c) s s'"
| notify_request: "io_pm_assertion_notify c nm req s = (r, s') \<Longrightarrow> request (callerPID c) s s'"
| copy_details: "io_pm_assertion_copy_details c aid w ty sc rp ok s = (r, s') \<Longrightarrow> request (callerPID c) s s'"
| system_active: "io_pm_declare_system_active c fl rv plist s = (r, s') \<Longrightarrow> request (callerPID c) s s'"
| user_active: "io_pm_declare_user_active c aid plist s = (r, s') \<Longrightarrow> request (callerPID c) s s'"
| network_active: "io_pm_declare_network_client_active c aid plist s = (r, s') \<Longrightarrow> request (callerPID c) s s'"
| exception_limits: "io_pm_set_exception_limits ent limits em mon rc s = (r, s') \<Longrightarrow> request p s s'"
| async_create: "asyncAssertionCreate c plist s = (r, s') \<Longrightarrow> request (callerPID c) s s'"
| async_release: "asyncAssertionRelease c aid b s = (r, s') \<Longrightarrow> request (callerPID c) s s'"
| async_properties: "asyncAssertionProperties c plist s = (r, s') \<Longrightarrow> request (callerPID c) s s'"
| async_connection: "request p s (asyncAssertionInitialConnection p s)"

text \<open>Calls other parts of the daemon make on its own behalf.\<close>

inductive daemon_call :: "pm \<Rightarrow> pm \<Rightarrow> bool" where
  create_block: "createBlock p st v s = (v', s') \<Longrightarrow> daemon_call s s'"
| release_block: "runBlock ReleaseBlock v s = (v', s') \<Longrightarrow> daemon_call s s'"
| declare_user_active: "InternalDeclareUserActive d v s = (r, s') \<Longrightarrow> daemon_call s s'"
| create_with_timeout: "InternalCreateAssertionWithTimeout ty nm n s = (r, s') \<Longrightarrow> daemon_call s s'"
| release_sync: "InternalReleaseAssertionSync v s = (r, s') \<Longrightarrow> daemon_call s s'"
| set_timeout: "InternalSetAssertionTimeout v tm s = (r, s') \<Longrightarrow> daemon_call s s'"
| wake_proxy: "daemon_call s (snd (ProxyAssertions ch dw w rs ok s))"
| enumeration_done: "daemon_call s (snd (devEnumerationDone d s))"

text \<open>Timers, settings, power-source changes, and the end or suspension of a process.\<close>

inductive event :: "pm \<Rightarrow> pm \<Rightarrow> bool" where
  environment: "event s (s\<lparr>env := E\<rparr>)"
| main_queue: "mainq s = b # q \<Longrightarrow> event s (run_task b (s\<lparr>mainq := q\<rparr>))"
| ctl_type: "event s (snd (io_pm_ctl_assertion_type c nm op s))"
| process_state: "event s (processSetAssertionState ent p st s)"
| process_exit: "p \<noteq> getpid (env s) \<Longrightarrow> event s (HandleProcessExit p s)"
| connection_closed: "p \<noteq> getpid (env s) \<Longrightarrow> event s (releaseConnectionAssertions p s)"
| type_timer: "event s (handleAssertionTimeout t s)"
| global_timer: "event s (enforceAssertionTypeTimeCap t s)"
| time_cap: "event s (setSleepServicesTimeCap n s)"
| proc_timer: "event s (handleProcAssertionTimeout p aid s)"
| cleanup_timer: "event s (releaseStatsBufForDeadProcs s)"
| system_timer: "event s (systemAssertionTimerFired listed s)"
| system_timeout: "event s (updateSystemAssertionTimeout v s)"
| display_timer: "event s (evalAllUserActivityAssertions n s)"
| idle_timer: "event s (evalAllNetworkAccessAssertions s)"
| power_source: "event s (evaluateForPSChange s)"
| display_state: "event s (evaluateProcTimerOnDisplayStateChange d s)"
| settings: "event s (snd (PMAssertions_SettingsHaveChanged n l s))"
| push_dnd: "event s (configAssertionType kInteractivePushServiceType False s)"
| clamshell: "event s (disableClamshellSleepState s)"

inductive step :: "pm \<Rightarrow> pm \<Rightarrow> bool" where
  by_client: "request p s s' \<Longrightarrow> step s s'"
| by_daemon: "daemon_call s s' \<Longrightarrow> step s s'"
| by_event: "event s s' \<Longrightarrow> step s s'"

inductive reachable :: "pm \<Rightarrow> bool" where
  started: "reachable (PMAssertions_prime (loaded E))"
| stepped: "reachable s \<Longrightarrow> step s s' \<Longrightarrow> reachable s'"

inductive_cases stepE: "step s s'"

section \<open>The effect partition depends on the configuration only\<close>

definition same_conf :: "pm \<Rightarrow> pm \<Rightarrow> bool" where
  "same_conf s s' \<longleftrightarrow> c_conf (core s') = c_conf (core s) \<and> c_effects (core s') = c_effects (core s)"

lemma same_conf_trans: "same_conf s s' \<Longrightarrow> same_conf s' s'' \<Longrightarrow> same_conf s s''"
  by (simp add: same_conf_def)

lemma same_conf_core: "core s' = core s \<Longrightarrow> same_conf s s'"
  by (simp add: same_conf_def)

lemma same_conf_keeps: "keeps X P (core s) (core s') \<Longrightarrow> same_conf s s'"
  using keepsD(6,7) unfolding same_conf_def by blast

lemma conf_effectIdx: "effectIdx (gAssertionTypes s t) = fst (snd (c_conf (core s) t))"
  by (simp add: core_def tconf_def)

lemma conf_effects: "gAssertionEffects s = c_effects (core s)"
  by (simp add: core_def)

lemma same_conf_effects: "same_conf s s' \<Longrightarrow> wf_effects s' = wf_effects s"
  unfolding wf_effects_def conf_effectIdx conf_effects same_conf_def by simp

definition pm_inv :: "pm \<Rightarrow> bool" where
  "pm_inv s \<longleftrightarrow> wf {} (core s) \<and> wf_effects s"

lemma pm_inv_core: "pm_inv s \<Longrightarrow> core s' = core s \<Longrightarrow> pm_inv s'"
  by (metis pm_inv_def same_conf_effects same_conf_core)

lemma pm_inv_served: "pm_inv s \<Longrightarrow> served P s s' \<Longrightarrow> pm_inv s'"
  unfolding pm_inv_def served_def using same_conf_effects same_conf_keeps by blast

lemma pm_inv_conf: "pm_inv s \<Longrightarrow> wf {} (core s') \<Longrightarrow> same_conf s s' \<Longrightarrow> pm_inv s'"
  unfolding pm_inv_def using same_conf_effects by blast

lemma pm_inv_config: "pm_inv s \<Longrightarrow> pm_inv (configAssertionType t False s)"
  unfolding pm_inv_def using wf_configAssertionType wf_effects_config by blast

lemma pm_inv_upd_type:
  assumes "pm_inv s" and "\<And>T. tlists (f T) = tlists T" and "\<And>T. effectIdx (f T) = effectIdx T"
  shows "pm_inv (upd_type t f s)"
  using assms wf_same_table [OF _ same_table_upd_type [of f s t]]
  by (simp add: pm_inv_def wf_effects_def upd_type_def)

lemma pm_inv_switches:
  "pm_inv s \<Longrightarrow> pm_inv (disableAssertionType t s)" "pm_inv s \<Longrightarrow> pm_inv (enableAssertionType t s)"
  unfolding disableAssertionType_def enableAssertionType_def
  by (rule pm_inv_config, rule pm_inv_upd_type; simp)+

section \<open>Operations that leave the configuration alone\<close>

lemma conf_timeout:
  assumes wf: "wf {} (core s)"
  shows "same_conf s (handleAssertionTimeout t s)"
proof -
  obtain n proxy s1 where lp: "timeoutLoop t (currTime s) (0, False, s) = (n, proxy, s1)"
    by (metis prod.exhaust)
  have t1: "timedOut t (currTime s) (core s) (core s1)" using timeoutLoop_ok [OF wf lp] by blast
  then have c1: "same_conf s s1" by (simp add: timedOut_def only_at_def same_conf_def)
  let ?s2 = "resetAssertionTimer t s1"
  have c2: "core ?s2 = core s1" by (simp add: core_simps)
  have "keeps {} {getpid (env ?s2)} (core ?s2) (core (delayDisplayTurnOff ?s2))"
    using delayDisplayTurnOff_ok [of "{}" ?s2] t1 c2 by (simp add: timedOut_def)
  then have d: "same_conf s (delayDisplayTurnOff ?s2)"
    using same_conf_keeps same_conf_trans [OF same_conf_trans [OF c1 same_conf_core [OF c2]]] by blast
  have "core (handleAssertionTimeout t s) = core s1 \<or>
      core (handleAssertionTimeout t s) = core (delayDisplayTurnOff ?s2)"
    unfolding handleAssertionTimeout_def lp by (simp add: Let_def core_simps)
  then show ?thesis using c1 d unfolding same_conf_def by metis
qed

lemma conf_c_ops [simp]:
  "c_conf (c_insert_inactive i t c) = c_conf c" "c_effects (c_insert_inactive i t c) = c_effects c"
  "c_conf (c_insert_active i t c) = c_conf c" "c_effects (c_insert_active i t c) = c_effects c"
  "c_conf (c_insert_timed i t c) = c_conf c" "c_effects (c_insert_timed i t c) = c_effects c"
  by (simp_all add: c_insert_inactive_def c_insert_active_def c_insert_timed_def)

lemma conf_capActiveLoop: "same_conf s (capActiveLoop t s)"
proof (induction t s rule: capActiveLoop.induct)
  case (1 t s)
  show ?case
  proof (cases "active (tlists (gAssertionTypes s t))")
    case (Cons i xs)
    have "same_conf s (capActive t i s)" by (simp add: same_conf_def core_capActive)
    then show ?thesis
      using 1 [OF Cons] same_conf_trans by (simp add: capActiveLoop.simps [of t s] Cons)
  qed (simp add: capActiveLoop.simps [of t s] same_conf_def)
qed

lemma conf_capTimedLoop: "same_conf s (capTimedLoop t s)"
proof (induction t s rule: capTimedLoop.induct)
  case (1 t s)
  show ?case
  proof (cases "activeTimed (tlists (gAssertionTypes s t))")
    case (Cons i xs)
    have "same_conf s (capTimed t i s)" by (simp add: same_conf_def core_capTimed)
    then show ?thesis
      using 1 [OF Cons] same_conf_trans by (simp add: capTimedLoop.simps [of t s] Cons)
  qed (simp add: capTimedLoop.simps [of t s] same_conf_def)
qed

lemma conf_timeCap: "same_conf s (enforceAssertionTypeTimeCap t s)"
proof -
  let ?s0 = "upd_type t (\<lambda>T. T\<lparr>forceTimedoutCnt := 0\<rparr>) s"
  have c0: "core ?s0 = core s" by (rule core_upd_type) simp
  have "same_conf s (capTimedLoop t (capActiveLoop t ?s0))"
    by (rule same_conf_trans [OF same_conf_core [OF c0] same_conf_trans [OF conf_capActiveLoop conf_capTimedLoop]])
  then show ?thesis
    by (simp add: same_conf_def enforceAssertionTypeTimeCap_def Let_def core_simps)
qed

lemma conf_fold:
  assumes "\<And>x s. same_conf s (f x s)"
  shows "same_conf s (fold f xs s)"
proof (induction xs arbitrary: s)
  case (Cons x xs)
  show ?case using same_conf_trans [OF assms Cons.IH] by simp
qed (simp add: same_conf_def)

lemma conf_upd_asn: "same_conf s (upd_asn i f s)"
  by (simp add: same_conf_def core_def upd_asn_def)

lemma same_conf_refl [simp]: "same_conf s s"
  by (simp add: same_conf_def)

lemma conf_moves:
  "same_conf s (insertActiveAssertion i t u s)" "same_conf s (removeActiveAssertion i t u s)"
  "same_conf s (insertTimedAssertion i t v u s)" "same_conf s (removeTimedAssertion i t v u s)"
  "same_conf s (insertByTimeout i t s)" "same_conf s (LIST_REMOVE i s)"
  by (simp_all add: same_conf_def core_simps c_unlink_def c_lists_upd_def c_upd_def)

lemma conf_retimeStep: "same_conf (snd ls) (snd (retimeStep t on ch i ls))"
proof (cases ls)
  case (Pair m s)
  have a: "same_conf s (upd_asn i f (LIST_REMOVE i s))" for f
    by (rule same_conf_trans [OF conf_moves(6) conf_upd_asn])
  have b: "same_conf s (insertActiveAssertion i t True (upd_asn i f (removeTimedAssertion i t False True s)))" for f
    by (rule same_conf_trans [OF same_conf_trans [OF conf_moves(4) conf_upd_asn] conf_moves(1)])
  show ?thesis using a b by (simp add: Pair retimeStep_def)
qed

lemma conf_retimeSteps: "same_conf (snd ls) (snd (fold (retimeStep t on ch) xs ls))"
  by (induction xs arbitrary: ls) (simp_all, metis conf_retimeStep same_conf_trans)

lemma conf_retimeActive: "same_conf s (retimeActive t nt i s)"
proof -
  have "same_conf s (insertTimedAssertion i t False True (removeActiveAssertion i t True (upd_asn i f s)))" for f
    by (rule same_conf_trans [OF same_conf_trans [OF conf_upd_asn conf_moves(2)] conf_moves(3)])
  then show ?thesis by (simp add: retimeActive_def)
qed

lemma conf_retimeType: "same_conf s (retimeType t on ch nt s)"
proof -
  obtain m s1 where f: "fold (retimeStep t on ch) (activeTimed (tlists (gAssertionTypes s t))) ([], s) = (m, s1)"
    by (metis surj_pair)
  have c1: "same_conf s s1"
    using conf_retimeSteps [where ls = "([], s)" and t = t and on = on and ch = ch
      and xs = "activeTimed (tlists (gAssertionTypes s t))"] f by simp
  let ?s2 = "fold (\<lambda>i. insertByTimeout i t) m s1"
  have c2: "same_conf s ?s2" by (rule same_conf_trans [OF c1 conf_fold]) (rule conf_moves(5))
  have c3: "same_conf s (fold (retimeActive t nt) xs ?s2)" for xs
    by (rule same_conf_trans [OF c2 conf_fold]) (rule conf_retimeActive)
  show ?thesis
    unfolding retimeType_def f prod.case Let_def
    using c2 c3 by (cases on) (simp_all add: same_conf_def core_simps)
qed

lemma pm_inv_retimes:
  assumes "pm_inv s"
  shows "pm_inv (evalAllUserActivityAssertions n s)" "pm_inv (evalAllNetworkAccessAssertions s)"
proof -
  have g: "core (s\<lparr>gDisplaySleepTimer := n\<rparr>) = core s" "core (s\<lparr>gIdleSleepTimer := m\<rparr>) = core s" for m
    by (simp_all add: core_def)
  have r: "pm_inv (retimeType t on ch nt u)" if "pm_inv u" for t on ch nt u
    using pm_inv_conf [OF that] retimeType_ok conf_retimeType that pm_inv_def by blast
  show "pm_inv (evalAllUserActivityAssertions n s)"
    using r [OF pm_inv_core [OF assms g(1)]] assms by (simp add: evalAllUserActivityAssertions_def)
  show "pm_inv (evalAllNetworkAccessAssertions s)"
    using r [OF pm_inv_core [OF assms g(2)]] pm_inv_core [OF assms g(2)]
    by (simp add: evalAllNetworkAccessAssertions_def Let_def)
qed

lemma pm_inv_interactive:
  assumes "pm_inv s"
  shows "pm_inv (evalAllInteractivePushAssertions s)"
proof (rule pm_inv_conf [OF assms])
  show "wf {} (core (evalAllInteractivePushAssertions s))"
    using assms evalAllInteractivePushAssertions_ok pm_inv_def by blast
  let ?n = "autoTimeout (gAssertionTypes s kInteractivePushServiceType)"
  have "core (evalAllInteractivePushAssertions s) =
      core (fold (clipTimeout ?n (?n + currTime s)) (selected kSelectActive (c_lists (core s) kInteractivePushServiceType)) s)"
    by (simp add: evalAllInteractivePushAssertions_def Let_def core_simps applyToAssertionsSync_def core_lists)
  moreover have "clipped b (set xs) (core s) (core (fold (clipTimeout n b) xs s))" for n b xs
    by (rule clipped_fold)
  ultimately show "same_conf s (evalAllInteractivePushAssertions s)"
    by (metis clipped_def same_conf_def)
qed

lemma pm_inv_PSChange:
  assumes "pm_inv s"
  shows "pm_inv (evaluateForPSChange s)"
proof -
  let ?s0 = "s\<lparr>prevPwrSrc := Some (getPowerSource (env s))\<rparr>"
  let ?s1 = "fold (\<lambda>t. callHandler t kAssertionOpEval) all_types ?s0"
  have c1: "core ?s1 = core s" by (simp add: core_fold_same core_callHandler core_globals)
  let ?s2 = "configAssertionType kInteractivePushServiceType False
      (configAssertionType kNetworkAccessType False (configAssertionType kBackgroundTaskType False ?s1))"
  have i3: "pm_inv (evalAllInteractivePushAssertions ?s2)"
    by (rule pm_inv_interactive, intro pm_inv_config, rule pm_inv_core [OF assms c1])
  have f: "core (fold (\<lambda>t. applyToAssertionsSync t kSelectActive (psChangeStep t)) all_types u) = core u" for u
    by (rule core_fold_same, rule core_applySync) (rule core_psChangeStep)
  have "core (evaluateForPSChange s) =
      (if prevPwrSrc s = Some (getPowerSource (env s)) then core s
       else core (evalAllInteractivePushAssertions ?s2))"
    unfolding evaluateForPSChange_def Let_def
    by (simp only: if_distrib [of core] core_systemTimer core_emit f if_cancel)
  then show ?thesis using pm_inv_core [OF assms] pm_inv_core [OF i3] by presburger
qed

lemma pm_inv_keeps: "pm_inv s \<Longrightarrow> wf {} (core s') \<and> keeps X P (core s) (core s') \<Longrightarrow> pm_inv s'"
  using pm_inv_conf same_conf_keeps by blast

lemma pm_inv_suspension:
  assumes "pm_inv s"
  shows "pm_inv (processSetAssertionState ent p st s)"
  using pm_inv_keeps [OF assms handleAssertionSuspend_ok] pm_inv_keeps [OF assms handleAssertionResume_ok]
    assms by (simp add: processSetAssertionState_def pm_inv_def)

lemma pm_inv_exit:
  assumes "pm_inv s" and "p \<noteq> getpid (env s)"
  shows "pm_inv (HandleProcessExit p s)" "pm_inv (releaseConnectionAssertions p s)"
proof -
  show "pm_inv (HandleProcessExit p s)"
    using pm_inv_keeps [OF assms(1)] HandleProcessExit_ok(1,2) [OF _ assms(2)] assms(1)
    unfolding pm_inv_def by blast
  then show "pm_inv (releaseConnectionAssertions p s)"
    using assms(1) by (simp add: releaseConnectionAssertions_def)
qed

lemma pm_inv_environment: "pm_inv s \<Longrightarrow> pm_inv (s\<lparr>env := E\<rparr>)"
proof -
  assume i: "pm_inv s"
  have c: "core (s\<lparr>env := E\<rparr>) = (core s)\<lparr>c_env := E\<rparr>" by (simp add: core_def)
  have w: "wf {} (c\<lparr>c_env := E\<rparr>) = wf {} c" for c
    by (simp add: wf_def wf_links_def wf_bits_def wf_sorted_def wf_ids_def wf_types_def well_typed_def
        ctimeout_def [abs_def] cbits_def)
  show ?thesis using i by (simp add: pm_inv_def c w wf_effects_def)
qed

section \<open>Steps\<close>

lemma served_quiet: "wf {} (core s) \<Longrightarrow> core (snd rs) = core s \<Longrightarrow> rs = (r, s') \<Longrightarrow> served P s s'"
  using served_core by force

lemma request_served:
  assumes "request p s s'" and "wf {} (core s)"
  shows "served {p, getpid (env s)} s s'"
  using assms
proof (cases rule: request.cases)
  case async_connection
  then show ?thesis using assms(2) served_core [OF assms(2)] by (simp add: core_simps)
qed (use assms(2) in \<open>blast intro: served_io_pm_assertion_create served_io_pm_assertion_set_properties
      served_io_pm_assertion_retain_release served_declare_requests served_asyncAssertionCreate
      served_asyncAssertionRelease served_asyncAssertionProperties
      served_quiet [OF _ core_io_pm_assertion_notify] served_quiet [OF _ core_copy_details]
      served_quiet [OF _ core_io_pm_set_exception_limits]\<close>)+

lemma daemon_call_served:
  assumes "daemon_call s s'" and "wf {} (core s)"
  shows "served {getpid (env s)} s s'"
  using assms
proof (cases rule: daemon_call.cases)
  case (release_block v v')
  show ?thesis
  proof (cases v)
    case (Some a)
    show ?thesis
      using release_block Some served_refl [OF assms(2)] served_doRelease [OF assms(2) prod.collapse [symmetric]]
      by (auto split: if_splits)
  qed (use release_block served_refl [OF assms(2)] in auto)
qed (use assms(2) in \<open>blast intro: served_createBlock served_InternalDeclareUserActive
      served_InternalCreateAssertionWithTimeout served_daemon_calls served_devEnumerationDone
      served_ProxyAssertions\<close>)+

lemma pm_inv_table:
  assumes "pm_inv s"
  shows "pm_inv (handleAssertionTimeout t s)" "pm_inv (enforceAssertionTypeTimeCap t s)"
    "pm_inv (systemAssertionTimerFired listed s)"
proof -
  have wf: "wf {} (core s)" using assms by (simp add: pm_inv_def)
  show "pm_inv (handleAssertionTimeout t s)"
    by (rule pm_inv_conf [OF assms handleAssertionTimeout_ok(1) [OF wf] conf_timeout [OF wf]])
  show "pm_inv (enforceAssertionTypeTimeCap t s)"
    by (rule pm_inv_conf [OF assms enforceAssertionTypeTimeCap_ok(1) [OF wf] conf_timeCap])
  show "pm_inv (systemAssertionTimerFired listed s)"
    by (rule pm_inv_served [OF assms served_systemAssertionTimerFired [OF wf]])
qed

lemma core_releaseStatsBufForDeadProcs [core_simps]: "core (releaseStatsBufForDeadProcs s) = core s"
proof -
  have f: "core (fold (\<lambda>p s. if proc_exited (proc s p) then releaseStatsBuf p s else s) ps u) = core u" for ps u
    by (rule core_fold_same) (simp add: core_simps)
  show ?thesis
    by (simp add: releaseStatsBufForDeadProcs_def Let_def core_simps f)
qed

lemma core_updateSystemAssertionTimeout [core_simps]: "core (updateSystemAssertionTimeout v s) = core s"
  by (simp add: updateSystemAssertionTimeout_def core_def)

lemma core_quiet_events:
  "core (setSleepServicesTimeCap n s) = core s" "core (handleProcAssertionTimeout p aid s) = core s"
  "core (releaseStatsBufForDeadProcs s) = core s" "core (updateSystemAssertionTimeout v s) = core s"
  "core (evaluateProcTimerOnDisplayStateChange d s) = core s" "core (disableClamshellSleepState s) = core s"
  by (simp_all add: core_simps)

lemma pm_inv_ctl: "pm_inv s \<Longrightarrow> pm_inv (snd (io_pm_ctl_assertion_type c nm op s))"
  using pm_inv_switches
  by (cases op) (auto simp: io_pm_ctl_assertion_type_def split: option.split)

lemma pm_inv_settings: "pm_inv s \<Longrightarrow> pm_inv (snd (PMAssertions_SettingsHaveChanged n l s))"
  by (simp add: PMAssertions_SettingsHaveChanged_def pm_inv_config)

lemma core_quiet_tasks:
  "core (checkRestartPreventers s) = core s" "core (emit e s) = core s" "core (startProcTimer p aid s) = core s"
  "core (processInfoRelease p (disableAppSleep p s)) = core s"
  "core (processInfoRelease p (enableAppSleep p s)) = core s"
  "core (s\<lparr>gSystemAssertionTimer := False, gSystemAssertionTimerActive := False\<rparr>) = core s"
  "core (s\<lparr>gAggCleanupDispatch := False\<rparr>) = core s" "core (s\<lparr>mainq := q\<rparr>) = core s"
  "core (upd_type t (\<lambda>T. T\<lparr>globalTimer := False\<rparr>) s) = core s"
  by (simp_all add: core_simps) (simp_all add: core_def upd_type_def fun_eq_iff)

lemma pm_inv_task: "pm_inv s \<Longrightarrow> pm_inv (run_task b s)"
  by (cases b) (simp_all add: pm_inv_table pm_inv_core [OF _ core_quiet_tasks(1)]
      pm_inv_core [OF _ core_quiet_tasks(2)] pm_inv_core [OF _ core_quiet_tasks(3)]
      pm_inv_core [OF _ core_quiet_tasks(4)] pm_inv_core [OF _ core_quiet_tasks(5)]
      pm_inv_core [OF _ core_quiet_tasks(6)] pm_inv_core [OF _ core_quiet_tasks(7)]
      pm_inv_core [OF _ core_quiet_tasks(9)])

lemma pm_inv_event: "event s s' \<Longrightarrow> pm_inv s \<Longrightarrow> pm_inv s'"
proof (induction rule: event.induct)
  case (main_queue s b q)
  then show ?case using pm_inv_task pm_inv_core core_quiet_tasks(8) by blast
qed (simp_all add: pm_inv_environment pm_inv_table pm_inv_retimes pm_inv_PSChange pm_inv_suspension
    pm_inv_exit pm_inv_ctl pm_inv_settings pm_inv_config pm_inv_core [OF _ core_quiet_events(1)]
    pm_inv_core [OF _ core_quiet_events(2)] pm_inv_core [OF _ core_quiet_events(3)]
    pm_inv_core [OF _ core_quiet_events(4)] pm_inv_core [OF _ core_quiet_events(5)]
    pm_inv_core [OF _ core_quiet_events(6)])

lemma pm_inv_step: "step s s' \<Longrightarrow> pm_inv s \<Longrightarrow> pm_inv s'"
  using request_served daemon_call_served pm_inv_event pm_inv_served pm_inv_def
  by (elim stepE) metis+

lemma pm_inv_started: "pm_inv (PMAssertions_prime (loaded E))"
  by (simp add: pm_inv_def prime_wf prime_wf_effects)

lemma pm_inv_reachable: "reachable s \<Longrightarrow> pm_inv s"
  by (induction rule: reachable.induct) (rule pm_inv_started, rule pm_inv_step)

end
