(* ===== verification/AssertionOutcomes.thy ===== *)
theory AssertionOutcomes
  imports AssertionMachine
begin

unbundle bit_operations_syntax

text \<open>
  What the entry points of PMAssertions.c return: specifications of the return codes by the
  state alone, and lemmas that relate the operations to them.  Nothing here models code.
\<close>

section \<open>The return code of a creation\<close>

definition slot_free :: "pm \<Rightarrow> bool" where
  "slot_free s \<longleftrightarrow> (\<exists>j < kMaxAssertions. gAssertionsArray s j = None)"

definition type_accepted :: "pm \<Rightarrow> props_t \<Rightarrow> bool" where
  "type_accepted s np \<longleftrightarrow>
     getAssertionTypeIndex s (np kIOPMAssertionTypeKey) \<noteq> None \<and>
     (np kIOPMAsyncClientAssertionIdKey = None \<or> np kIOPMAssertionGlobalUniqueIDKey \<noteq> None)"

definition createOutcome :: "pid \<Rightarrow> props_t \<Rightarrow> pm \<Rightarrow> IOReturn" where
  "createOutcome p np s =
     (if gProcessDict s p = None \<and> (proc_name (env s) p = None \<or> \<not> calloc_ok (env s)) then kIOReturnNoMemory
      else if isSuspended (proc s p) then kIOReturnInternalError
      else if \<not> slot_free s \<or> \<not> calloc_ok (env s) then kIOReturnNoMemory
      else if type_accepted s np then kIOReturnSuccess
      else kIOReturnBadArgument)"

lemma limits_keep:
  "proc_exited (proc (setProcessAssertionLimits p s) q) = proc_exited (proc s q)"
  "isSuspended (proc (setProcessAssertionLimits p s) q) = isSuspended (proc s q)"
  by (auto simp: setProcessAssertionLimits_def upd_proc_def proc_def split: option.split)

lemma proc_created: "proc (s\<lparr>gProcessSeq := n, gProcessDict := (gProcessDict s)(p \<mapsto> P)\<rparr>) p = P"
  by (simp add: proc_def)

lemma creatorInfo_outcome:
  assumes "creatorInfo p s = (ok, pr, s1)"
  shows "ok \<longleftrightarrow> \<not> (gProcessDict s p = None \<and> (proc_name (env s) p = None \<or> \<not> calloc_ok (env s)))"
    and "ok \<Longrightarrow> isSuspended (proc s1 p) = isSuspended (proc s p)"
proof -
  show "ok \<longleftrightarrow> \<not> (gProcessDict s p = None \<and> (proc_name (env s) p = None \<or> \<not> calloc_ok (env s)))"
    using assms
    by (cases "gProcessDict s p"; cases "proc_name (env s) p")
      (auto simp: creatorInfo_def processInfoGet_def processInfoCreate_def Let_def limits_keep
         proc_created calloc_ProcessInfo_def split: if_splits)
  show "isSuspended (proc s1 p) = isSuspended (proc s p)" if ok
  proof (cases "gProcessDict s p")
    case None
    then have "\<not> isSuspended (proc s p)" by (simp add: proc_def calloc_ProcessInfo_def)
    then show ?thesis
      using assms that None by (cases "proc_name (env s) p")
        (auto simp: creatorInfo_def processInfoGet_def processInfoCreate_def Let_def limits_keep
          proc_created calloc_ProcessInfo_def split: if_splits)
  next
    case (Some P)
    then show ?thesis
      using assms by (auto simp: creatorInfo_def processInfoGet_def processInfoRetain_def upd_proc_def proc_def
          split: if_splits)
  qed
qed

lemma core_slot_free: "core s1 = core s \<Longrightarrow> slot_free s1 = slot_free s"
  unfolding slot_free_def by (metis core_sel(2) option.map_disc_iff)

lemma findIndex_slot:
  assumes "gNextAssertionIdx s < kMaxAssertions"
  shows "gAssertionsArray s (findIndex s) = None \<longleftrightarrow> slot_free s"
  using findIndex_free [OF assms] findIndex_less [OF assms] unfolding slot_free_def by blast

lemma raise_outcome:
  assumes a: "gAssertionsArray s i = Some a" and np: "props a = np"
  shows "fst (raiseAssertion i s) = (if type_accepted s np then kIOReturnSuccess else kIOReturnBadArgument)"
proof -
  have pa: "props (asn s i) = np" using a np by (simp add: asn_def)
  have pu: "props (asn (upd_asn i (\<lambda>a. a\<lparr>kassert := t\<rparr>) s) i) = np" for t
    using a np by (simp add: asn_def upd_asn_def)
  have u: "raiseUniqueId i t (upd_asn i (\<lambda>a. a\<lparr>kassert := t\<rparr>) s) = None \<longleftrightarrow>
      np kIOPMAsyncClientAssertionIdKey \<noteq> None \<and> np kIOPMAssertionGlobalUniqueIDKey = None" for t
    unfolding raiseUniqueId_def Let_def pu by (auto split: option.split cf.split)
  show ?thesis
  proof (cases "getAssertionTypeIndex s (np kIOPMAssertionTypeKey)")
    case (Some t)
    then show ?thesis
      using u [of t] by (cases "raiseUniqueId i t (upd_asn i (\<lambda>a. a\<lparr>kassert := t\<rparr>) s)")
        (auto simp: raiseAssertion_def pa type_accepted_def)
  qed (simp add: raiseAssertion_def pa type_accepted_def)
qed

lemma type_accepted_core: "core s1 = core s \<Longrightarrow> type_accepted s1 np = type_accepted s np"
  unfolding type_accepted_def getAssertionTypeIndex_def by (metis core_sel(3))

lemma type_accepted_enter: "type_accepted (enterAssertion p np i s) np' = type_accepted s np'"
proof -
  have "getAssertionTypeIndex (enterAssertion p np i s) v = getAssertionTypeIndex s v" for v
    by (simp add: getAssertionTypeIndex_def enterAssertion_def split: option.split cf.split cfstr.split)
  then show ?thesis by (simp add: type_accepted_def)
qed

lemma doCreate_code:
  assumes wf: "wf F (core s)"
  shows "fst (fst (doCreate p np s)) = createOutcome p np s"
proof -
  obtain ok pr s1 where c: "creatorInfo p s = (ok, pr, s1)" by (metis surj_pair)
  have s1: "core s1 = core s" by (rule core_creatorInfo [OF c])
  let ?i = "findIndex s1" and ?s2 = "enterAssertion p np (findIndex s1) s1"
  have nx: "gNextAssertionIdx s1 < kMaxAssertions"
    using wfD(4) [OF wf] by (metis s1 core_sel(5) wf_ids_def)
  have slot: "gAssertionsArray s1 ?i = None \<longleftrightarrow> slot_free s"
    using findIndex_slot [OF nx] core_slot_free [OF s1] by simp
  have env: "env s1 = env s" by (rule core_env_eq [OF s1])
  obtain r s3 where r: "raiseAssertion ?i ?s2 = (r, s3)" by (metis surj_pair)
  have ent: "gAssertionsArray ?s2 ?i = Some (newAssertion p np ?i)"
    by (simp add: enterAssertion_def)
  have dict: "type_accepted ?s2 np = type_accepted s np"
    using type_accepted_core [OF s1, of np] type_accepted_enter by simp
  have rr: "r = (if type_accepted s np then kIOReturnSuccess else kIOReturnBadArgument)"
    using raise_outcome [OF ent refl] r dict by (simp add: newAssertion_def)
  show ?thesis
    using creatorInfo_outcome [OF c] slot env rr
    by (auto simp: doCreate_def c r createOutcome_def Let_def split: bool.split)
qed

end
