(* ===== verification/AssertionSuspend.thy ===== *)
theory AssertionSuspend
  imports AssertionTimeout
begin

unbundle bit_operations_syntax

text \<open>
  Suspension and resumption of a process, assertion by assertion: every assertion a process
  owns is parked on the suspended list of its type by \<open>handleAssertionSuspend\<close>, and none is
  left there by \<open>handleAssertionResume\<close>.  \<open>steady J me\<close> is the frame of one visit: assertions
  outside \<open>J\<close> that are not the daemon's own keep their entry and their place on the lists.
\<close>

definition steady :: "nat set \<Rightarrow> pid \<Rightarrow> core \<Rightarrow> core \<Rightarrow> bool" where
  "steady J me c c' \<longleftrightarrow>
     (\<forall>j a. j \<notin> J \<longrightarrow> c_asn c j = Some a \<longrightarrow> c_pinfo a \<noteq> me \<longrightarrow>
        c_asn c' j = Some a \<and> (\<forall>t. where_is j (c_lists c' t) = where_is j (c_lists c t)))"

lemma steady_refl [simp]: "steady J me c c"
  by (simp add: steady_def)

lemma steady_trans: "steady J me c c' \<Longrightarrow> steady J me c' c'' \<Longrightarrow> steady J me c c''"
  unfolding steady_def by metis

lemma steady_mono: "steady J me c c' \<Longrightarrow> J \<subseteq> K \<Longrightarrow> steady K me c c'"
  unfolding steady_def by blast

lemma steady_only_at: "only_at J c c' \<Longrightarrow> steady J me c c'"
  by (simp add: only_at_def steady_def)

lemma steady_keeps: "keeps X {me} c c' \<Longrightarrow> steady J me c c'"
  unfolding steady_def using keepsD(4,5) by (metis singletonD)

lemma steadyD:
  assumes "steady J me c c'" "c_asn c j = Some a" "c_pinfo a \<noteq> me" "j \<notin> J"
  shows "c_asn c' j = Some a" "where_is j (c_lists c' t) = where_is j (c_lists c t)"
  using assms unfolding steady_def by blast+

lemma where_is_suspended: "where_is j l' = where_is j l \<Longrightarrow> j \<in> set (suspended l') \<longleftrightarrow> j \<in> set (suspended l)"
  by (simp add: where_is_def)

lemma releaseUnlink_only_at: "only_at {i} (core s) (core (snd (releaseUnlink i s)))"
proof -
  have u: "only_at {i} c (c_upd i f (c_unlink i c))" for f c
    by (rule only_at_trans [OF only_at_ops(2) only_at_ops(1)]) simp_all
  have "only_at {i} (core s) (c_unlink i (core s))" by (rule only_at_ops(2)) simp
  then show ?thesis using u by (simp add: releaseUnlink_def Let_def core_simps)
qed

lemma releaseAssertion_steady:
  assumes wf: "wf {} (core s)" and a: "c_asn (core s) i = Some a"
  shows "steady {i} (getpid (env s)) (core s) (core (releaseAssertion i h s))"
proof -
  obtain w s1 where r: "releaseUnlink i s = (w, s1)" by (cases "releaseUnlink i s")
  have l: "lifted {} {c_pinfo a} i (a\<lparr>c_timed := False, c_inactive := False\<rparr>) (core s) (core s1)"
    using releaseUnlink_lifted [OF wf a, of "{c_pinfo a}"] r by simp
  then have e: "env s1 = env s"
    using keepsD(2) [of "{}" "{c_pinfo a}" "core s" "core s1"] by (simp add: lifted_def core_sel)
  have s1: "steady {i} (getpid (env s)) (core s) (core s1)"
    using steady_only_at [OF releaseUnlink_only_at [of i s]] r by simp
  let ?go = "w \<and> kassert (asn s1 i) = kPreventDisplaySleepType \<and> pinfo (asn s1 i) \<noteq> getpid (env s1)"
  have c: "core (releaseAssertion i h s) = core (if ?go then delayDisplayTurnOff s1 else s1)"
    by (simp add: releaseAssertion_def Let_def r core_simps)
  show ?thesis
  proof (cases ?go)
    case True
    have ca: "acore (asn s1 i) = a\<lparr>c_timed := False, c_inactive := False\<rparr>"
      by (rule core_asn) (use l in \<open>simp add: lifted_def\<close>)
    then have "c_pinfo a = pinfo (asn s1 i)"
      by (metis acore_sel(6) acore.select_convs(6) acore.surjective acore.update_convs(2,3))
    then have "foreign_floats (getpid (env s1)) {i} (core s1)"
      using lifted_owner [OF l] True unfolding foreign_floats_def by auto
    then have "keeps {} {getpid (env s1)} (core s1) (core (delayDisplayTurnOff s1))"
      using delayDisplayTurnOff_ok [of "{i}" s1] l by (simp add: lifted_def)
    then show ?thesis using steady_trans [OF s1 steady_keeps] True c e by auto
  qed (use c s1 in auto)
qed

lemma suspendAssertion_steady:
  assumes wf: "wf {} (core s)" and a: "c_asn (core s) i = Some a"
  shows "steady {i} (getpid (env s)) (core s) (core (suspendAssertion i s))"
proof -
  define s1 where "s1 = (if timeout (asn s i) \<noteq> 0 \<and> timeout (asn s i) > currTime s then
      upd_asn i (prop_set kPMAssertionTimeoutOnResumeKey
        (CFNumber (u64_rat (timeout (asn s i) - currTime s)))) s else s)"
  have c: "core s1 = core s" by (simp add: s1_def core_upd_asn_same core_simps)
  have e: "env s1 = env s" by (rule core_env_eq [OF c])
  have "core (suspendAssertion i s) = core (releaseAssertion i False s1)"
    unfolding suspendAssertion_def Let_def s1_def [symmetric]
    by (simp add: core_emit core_props_state)
  then show ?thesis using releaseAssertion_steady [of s1 i a False] wf a by (simp add: c e)
qed

lemma concerns_owner: "owner (core s) i = Some p \<Longrightarrow> concerns p (asn s i)"
proof -
  assume "owner (core s) i = Some p"
  then obtain a where "c_asn (core s) i = Some a" "c_pinfo a = p" by (auto simp: owner_def)
  then show ?thesis using core_asn [of s i a] acore_sel(6) by (metis concerns_def)
qed

lemma suspendStep_steady:
  assumes wf: "wf {} (core s)" and a: "c_asn (core s) i = Some a"
  shows "steady {i} (getpid (env s)) (core s) (core (suspendStep p i s))"
    and "c_pinfo a = p \<Longrightarrow> i \<in> set (suspended (c_lists (core (suspendStep p i s)) (c_kassert a))) \<and>
      (\<exists>b. c_asn (core (suspendStep p i s)) i = Some b \<and> c_kassert b = c_kassert a \<and> c_pinfo b = p)"
proof -
  have t: "kassert (asn s i) = c_kassert a" using core_asn [OF a] by (metis acore_sel(1))
  have c: "core (suspendStep p i s) = c_push_suspended i (c_kassert a) (core (suspendAssertion i s))"
    if "concerns p (asn s i)"
    using that by (simp add: suspendStep_def t core_upd_lists c_push_suspended_def)
  have p: "only_at {i} d (c_push_suspended i u d)" for d u
    by (auto simp: only_at_def c_push_suspended_def where_is_def c_lists_upd_def)
  show "steady {i} (getpid (env s)) (core s) (core (suspendStep p i s))"
  proof (cases "concerns p (asn s i)")
    case True
    show ?thesis
      unfolding c [OF True] by (rule steady_trans [OF suspendAssertion_steady [OF wf a] steady_only_at [OF p]])
  qed (simp add: suspendStep_def)
  show "i \<in> set (suspended (c_lists (core (suspendStep p i s)) (c_kassert a))) \<and>
      (\<exists>b. c_asn (core (suspendStep p i s)) i = Some b \<and> c_kassert b = c_kassert a \<and> c_pinfo b = p)"
    if o: "c_pinfo a = p"
  proof -
    have "owner (core s) i = Some p" using a o by (simp add: owner_def)
    note c = c [OF concerns_owner [OF this]]
    have "lifted {} {c_pinfo a, getpid (env s)} i (a\<lparr>c_timed := False, c_inactive := False\<rparr>)
        (core s) (core (suspendAssertion i s))"
      by (rule suspendAssertion_lifted [OF wf a]) simp_all
    then show ?thesis using o by (simp add: c c_push_suspended_def lifted_def)
  qed
qed

text \<open>An assertion of \<open>p\<close> that is parked, or will be because the walk still comes to it.\<close>

definition parked :: "pid \<Rightarrow> kerAssertionType \<Rightarrow> nat \<Rightarrow> core \<Rightarrow> bool" where
  "parked p t j c \<longleftrightarrow> j \<in> set (suspended (c_lists c t)) \<and>
     (\<exists>a. c_asn c j = Some a \<and> c_kassert a = t \<and> c_pinfo a = p)"

lemma parked_steady: "parked p t j c \<Longrightarrow> steady J me c c' \<Longrightarrow> p \<noteq> me \<Longrightarrow> j \<notin> J \<Longrightarrow> parked p t j c'"
  unfolding parked_def steady_def where_is_def by (elim conjE exE) auto

lemma fold_suspendStep_parks:
  assumes "wf {} (core s)" and "distinct xs" and "\<forall>i \<in> set xs. owner (core s) i \<noteq> None"
    and "p \<noteq> getpid (env s)"
  shows "(\<forall>i \<in> set xs. \<forall>a. c_asn (core s) i = Some a \<longrightarrow> c_pinfo a = p \<longrightarrow>
        parked p (c_kassert a) i (core (fold (suspendStep p) xs s))) \<and>
    steady (set xs) (getpid (env s)) (core s) (core (fold (suspendStep p) xs s))"
  using assms
proof (induction xs arbitrary: s)
  case Nil
  then show ?case by simp
next
  case (Cons i xs)
  let ?s = "suspendStep p i s" and ?me = "getpid (env s)"
  obtain b where b: "c_asn (core s) i = Some b" using Cons.prems(3) by (auto simp: owner_def)
  note one = suspendStep_ok [OF Cons.prems(1) b, of p]
  note st = suspendStep_steady(1) [OF Cons.prems(1) b, of p]
  have k: "keeps {} UNIV (core s) (core ?s)" using one keeps_widen by blast
  have e: "env ?s = env s" by (rule keeps_env [OF k])
  have live: "\<forall>j \<in> set xs. owner (core ?s) j \<noteq> None"
    using Cons.prems(3) keeps_owner [OF k] by fastforce
  have IH: "(\<forall>j \<in> set xs. \<forall>a. c_asn (core ?s) j = Some a \<longrightarrow> c_pinfo a = p \<longrightarrow>
        parked p (c_kassert a) j (core (fold (suspendStep p) xs ?s))) \<and>
    steady (set xs) ?me (core ?s) (core (fold (suspendStep p) xs ?s))"
    using Cons.IH [of ?s] one Cons.prems(2,4) live e by simp
  have p: "parked p (c_kassert a) j (core (fold (suspendStep p) (i # xs) s))"
    if j: "j \<in> set (i # xs)" "c_asn (core s) j = Some a" "c_pinfo a = p" for j a
  proof (cases "j = i")
    case True
    then have "parked p (c_kassert a) i (core ?s)"
      using suspendStep_steady(2) [OF Cons.prems(1) b, of p] j b by (auto simp: parked_def)
    then show ?thesis
      using parked_steady IH Cons.prems(2,4) True by (metis distinct.simps(2) fold_simps(2))
  next
    case False
    then have "c_asn (core ?s) j = Some a"
      using steadyD(1) [OF st j(2)] j(3) Cons.prems(4) by auto
    then show ?thesis using IH j False by auto
  qed
  have "steady (set (i # xs)) ?me (core s) (core (fold (suspendStep p) (i # xs) s))"
  proof -
    have "steady (set (i # xs)) ?me (core ?s) (core (fold (suspendStep p) xs ?s))"
      by (rule steady_mono [OF conjunct2 [OF IH]]) auto
    moreover have "steady (set (i # xs)) ?me (core s) (core ?s)" by (rule steady_mono [OF st]) simp
    ultimately show ?thesis using steady_trans by simp
  qed
  then show ?case using p by blast
qed

lemma suspendType_core:
  "core (suspendType p t s) =
     core (fold (suspendStep p) (selected kSelectAllButSuspended (c_lists (core s) t)) s)"
  by (simp only: suspendType_def applyToAssertionsSync_def core_callHandler core_lists)

lemma linked_suspended_once:
  assumes "wf {} c" "j \<in> set (suspended (c_lists c u))"
  shows "j \<notin> set (selected kSelectAllButSuspended (c_lists c t))"
proof (cases "t = u")
  case True
  have "distinct (linked (c_lists c u))" using wfD(1) [OF assms(1)] by (simp add: wf_links_def)
  then show ?thesis using assms(2) True by (auto simp: linked_def)
next
  case False
  obtain a where a: "c_asn c j = Some a" "c_kassert a = u"
    using wf_selected(2) [OF assms(1), of j kSelectSuspended u] assms(2) by auto
  show ?thesis
    using wf_selected(2) [OF assms(1), of j kSelectAllButSuspended t] a False by auto
qed

lemma suspendType_parks:
  assumes wf: "wf {} (core s)" and p: "p \<noteq> getpid (env s)"
  shows "parked p u j (core s) \<Longrightarrow> parked p u j (core (suspendType p t s))"
    and "c_asn (core s) j = Some a \<Longrightarrow> c_pinfo a = p \<Longrightarrow>
      (if c_kassert a = t then parked p t j (core (suspendType p t s))
       else c_asn (core (suspendType p t s)) j = Some a)"
proof -
  let ?xs = "selected kSelectAllButSuspended (c_lists (core s) t)"
  note f = fold_suspendStep_parks [OF wf wf_selected(1) [OF wf] wf_selected_owner [OF wf] p,
      of kSelectAllButSuspended t]
  show old: "parked p u j (core s) \<Longrightarrow> parked p u j (core (suspendType p t s))" for u
    unfolding suspendType_core
    using parked_steady [OF _ conjunct2 [OF f] p] linked_suspended_once [OF wf] by (auto simp: parked_def)
  show "if c_kassert a = t then parked p t j (core (suspendType p t s))
       else c_asn (core (suspendType p t s)) j = Some a"
    if a: "c_asn (core s) j = Some a" "c_pinfo a = p"
  proof (cases "j \<in> set ?xs")
    case True
    then have "c_kassert a = t" using wf_selected(2) [OF wf True] a(1) by simp
    moreover have "parked p (c_kassert a) j (core (suspendType p t s))"
      unfolding suspendType_core using conjunct1 [OF f] True a by blast
    ultimately show ?thesis by simp
  next
    case False
    have st: "c_asn (core (suspendType p t s)) j = Some a"
      unfolding suspendType_core using steadyD(1) [OF conjunct2 [OF f] a(1)] a(2) p False by blast
    have "parked p t j (core (suspendType p t s))" if t: "c_kassert a = t"
    proof (rule old)
      have "j \<in> set (linked (c_lists (core s) t))" using wfD(1) [OF wf] a(1) t by (auto simp: wf_links_def)
      then show "parked p t j (core s)" using False a t by (auto simp: parked_def)
    qed
    then show ?thesis using st by simp
  qed
qed

lemma suspendTypes_park:
  assumes "wf {} (core s)" and "p \<noteq> getpid (env s)"
    and "c_asn (core s) j = Some a" "c_pinfo a = p"
  shows "(if c_kassert a \<in> set ts then parked p (c_kassert a) j (core (fold (suspendType p) ts s))
     else c_asn (core (fold (suspendType p) ts s)) j = Some a)"
proof -
  have stay: "wf {} (core s) \<Longrightarrow> p \<noteq> getpid (env s) \<Longrightarrow> parked p u j (core s) \<Longrightarrow>
      parked p u j (core (fold (suspendType p) ts s))" for u ts s
  proof (induction ts arbitrary: s)
    case (Cons t ts)
    note ok = suspendType_ok [OF Cons.prems(1), of p t]
    have e: "env (suspendType p t s) = env s" by (rule keeps_env [OF conjunct2 [OF ok]])
    show ?case
      using Cons.IH [of "suspendType p t s"] ok e suspendType_parks(1) [OF Cons.prems(1,2,3)] Cons.prems(2)
      by simp
  qed simp
  show ?thesis
    using assms
  proof (induction ts arbitrary: s)
    case (Cons t ts)
    note ok = suspendType_ok [OF Cons.prems(1), of p t]
    have e: "env (suspendType p t s) = env s" by (rule keeps_env [OF conjunct2 [OF ok]])
    note one = suspendType_parks(2) [OF Cons.prems, of t]
    show ?case
    proof (cases "c_kassert a = t")
      case True
      then show ?thesis using stay [of "suspendType p t s"] ok e one Cons.prems(2) by simp
    next
      case False
      then show ?thesis using Cons.IH [of "suspendType p t s"] ok e one Cons.prems(2,4) by simp
    qed
  qed simp
qed

section \<open>Resumption\<close>

lemma only_at_suspended:
  "only_at J c c' \<Longrightarrow> j \<notin> J \<Longrightarrow>
     j \<in> set (suspended (c_lists c' t)) \<longleftrightarrow> j \<in> set (suspended (c_lists c t))"
  unfolding only_at_def using where_is_suspended by blast

lemma core_resumeStep:
  assumes wf: "wf {} (core s)" and a: "c_asn (core s) i = Some a"
  shows "only_at {i} (core s) (core (resumeStep p i s))"
    and "concerns p (asn s i) \<Longrightarrow> i \<notin> set (suspended (c_lists (core (resumeStep p i s)) t))"
    and "set (suspended (c_lists (core (resumeStep p i s)) t)) \<subseteq> set (suspended (c_lists (core s) t))"
proof -
  let ?s = "LIST_REMOVE i s"
  obtain n where n: "core (resumeAssertion i ?s) \<in> {c_insert_inactive i (kassert (asn ?s i)) (core ?s),
     c_insert_active i (kassert (asn ?s i)) (core ?s),
     c_insert_timed i (kassert (asn ?s i)) (c_upd i (\<lambda>a. a\<lparr>c_timeout := n\<rparr>) (core ?s))}"
    using core_resume [of i ?s] by blast
  have u: "only_at {i} (core s) (core ?s)" by (simp add: core_LIST_REMOVE only_at_ops(2))
  have "only_at {i} (core ?s) (core (resumeAssertion i ?s))"
    using n only_at_trans [OF only_at_ops(1) only_at_ops(6)] only_at_ops(4,5) by fastforce
  then have r: "only_at {i} (core s) (core (resumeAssertion i ?s))" by (rule only_at_trans [OF u])
  then show "only_at {i} (core s) (core (resumeStep p i s))" by (simp add: resumeStep_def)
  have "suspended (c_lists (core (resumeAssertion i ?s)) t) = removeAll i (suspended (c_lists (core s) t))"
    using n by (auto simp: core_LIST_REMOVE c_insert_inactive_def c_insert_active_def c_insert_timed_def)
  then show "concerns p (asn s i) \<Longrightarrow> i \<notin> set (suspended (c_lists (core (resumeStep p i s)) t))"
    and "set (suspended (c_lists (core (resumeStep p i s)) t)) \<subseteq> set (suspended (c_lists (core s) t))"
    by (auto simp: resumeStep_def)
qed

lemma fold_resumeStep_frees:
  assumes "wf {} (core s)" and "distinct xs"
    and "\<forall>i \<in> set xs. \<exists>a. c_asn (core s) i = Some a \<and> \<not> c_timed a \<and> \<not> c_inactive a"
  shows "only_at (set xs) (core s) (core (fold (resumeStep p) xs s)) \<and>
    (\<forall>i \<in> set xs. owner (core s) i = Some p \<longrightarrow>
       i \<notin> set (suspended (c_lists (core (fold (resumeStep p) xs s)) t)))"
  using assms
proof (induction xs arbitrary: s)
  case Nil
  then show ?case by simp
next
  case (Cons i xs)
  let ?s = "resumeStep p i s"
  obtain a where a: "c_asn (core s) i = Some a" "\<not> c_timed a" "\<not> c_inactive a"
    using Cons.prems(3) by auto
  note one = resumeStep_ok [OF Cons.prems(1) a, of p]
  note at = core_resumeStep [OF Cons.prems(1) a(1), of p]
  have same: "c_asn (core ?s) j = c_asn (core s) j" if "j \<in> set xs" for j
    using one Cons.prems(2) that by auto
  have pre: "\<forall>j \<in> set xs. \<exists>a. c_asn (core ?s) j = Some a \<and> \<not> c_timed a \<and> \<not> c_inactive a"
    using Cons.prems(3) same by simp
  note IH = Cons.IH [OF conjunct1 [OF one] _ pre]
  have o: "only_at (set xs) (core ?s) (core (fold (resumeStep p) xs ?s))"
    and f: "\<forall>j \<in> set xs. owner (core ?s) j = Some p \<longrightarrow>
      j \<notin> set (suspended (c_lists (core (fold (resumeStep p) xs ?s)) t))"
    using IH Cons.prems(2) by simp_all
  have "only_at (set (i # xs)) (core s) (core (fold (resumeStep p) (i # xs) s))"
  proof -
    have "only_at (set (i # xs)) (core s) (core ?s)" by (rule only_at_mono [OF at(1)]) simp
    moreover have "only_at (set (i # xs)) (core ?s) (core (fold (resumeStep p) xs ?s))"
      by (rule only_at_mono [OF o]) auto
    ultimately show ?thesis using only_at_trans by simp
  qed
  moreover have "j \<notin> set (suspended (c_lists (core (fold (resumeStep p) (i # xs) s)) t))"
    if j: "j \<in> set (i # xs)" "owner (core s) j = Some p" for j
  proof (cases "j = i")
    case True
    have "i \<notin> set (suspended (c_lists (core ?s) t))"
      by (rule at(2)) (rule concerns_owner, use j True in simp)
    then show ?thesis using only_at_suspended [OF o] Cons.prems(2) True by simp
  next
    case False
    then have "owner (core ?s) j = Some p" using j same [of j] by (simp add: owner_def)
    then show ?thesis using f j(1) False by simp
  qed
  ultimately show ?case by blast
qed

lemma resumeType_frees:
  assumes wf: "wf {} (core s)"
  shows "only_at (set (suspended (c_lists (core s) t))) (core s) (core (resumeType p t s))"
    and "owner (core s) j = Some p \<Longrightarrow> j \<notin> set (suspended (c_lists (core (resumeType p t s)) t))"
proof -
  let ?xs = "suspended (c_lists (core s) t)"
  have live: "\<forall>i \<in> set ?xs. \<exists>a. c_asn (core s) i = Some a \<and> \<not> c_timed a \<and> \<not> c_inactive a"
    using wfD(2) [OF wf] by (fastforce simp: wf_bits_def cbits_def)
  have d: "distinct ?xs" using wf_selected(1) [OF wf, of kSelectSuspended t] by simp
  have c: "core (resumeType p t s) = core (fold (resumeStep p) ?xs s)"
    by (simp only: resumeType_def applyToAssertionsSync_def core_callHandler core_lists selected.simps)
  note f = fold_resumeStep_frees [OF wf d live, of p t]
  show o: "only_at (set ?xs) (core s) (core (resumeType p t s))" using f c by simp
  show "j \<notin> set (suspended (c_lists (core (resumeType p t s)) t))" if "owner (core s) j = Some p"
  proof (cases "j \<in> set ?xs")
    case True
    then show ?thesis using f that c by simp
  next
    case False
    then show ?thesis using only_at_suspended [OF o] by simp
  qed
qed

lemma resumeType_shrinks:
  assumes wf: "wf {} (core s)"
  shows "set (suspended (c_lists (core (resumeType p t s)) u)) \<subseteq> set (suspended (c_lists (core s) u))"
proof -
  have "wf {} (core s) \<Longrightarrow> distinct xs \<Longrightarrow>
      \<forall>i \<in> set xs. \<exists>a. c_asn (core s) i = Some a \<and> \<not> c_timed a \<and> \<not> c_inactive a \<Longrightarrow>
      set (suspended (c_lists (core (fold (resumeStep p) xs s)) u)) \<subseteq> set (suspended (c_lists (core s) u))" for xs
  proof (induction xs arbitrary: s)
    case (Cons i xs)
    obtain a where a: "c_asn (core s) i = Some a" "\<not> c_timed a" "\<not> c_inactive a"
      using Cons.prems(3) by auto
    note one = resumeStep_ok [OF Cons.prems(1) a, of p]
    have same: "c_asn (core (resumeStep p i s)) j = c_asn (core s) j" if "j \<in> set xs" for j
      using one Cons.prems(2) that by auto
    have "set (suspended (c_lists (core (fold (resumeStep p) xs (resumeStep p i s))) u))
        \<subseteq> set (suspended (c_lists (core (resumeStep p i s)) u))"
      by (rule Cons.IH) (use one Cons.prems(2,3) same in simp_all)
    then show ?case using core_resumeStep(3) [OF Cons.prems(1) a(1), of p u] by simp
  qed simp
  moreover have "\<forall>i \<in> set (suspended (c_lists (core s) t)).
      \<exists>a. c_asn (core s) i = Some a \<and> \<not> c_timed a \<and> \<not> c_inactive a"
    using wfD(2) [OF wf] by (fastforce simp: wf_bits_def cbits_def)
  moreover have "distinct (suspended (c_lists (core s) t))"
    using wf_selected(1) [OF wf, of kSelectSuspended t] by simp
  ultimately show ?thesis
    using wf by (simp only: resumeType_def applyToAssertionsSync_def core_callHandler core_lists selected.simps)
qed

lemma resumeTypes_free:
  assumes "wf {} (core s)" and "owner (core s) j = Some p"
  shows "\<forall>t \<in> set ts. j \<notin> set (suspended (c_lists (core (fold (resumeType p) ts s)) t))"
proof -
  have stay: "wf {} (core s) \<Longrightarrow> j \<notin> set (suspended (c_lists (core s) u)) \<Longrightarrow> owner (core s) j = Some p \<Longrightarrow>
      j \<notin> set (suspended (c_lists (core (resumeType p t s)) u))" for s :: pm and t u
    using resumeType_shrinks [of s p t u] by blast
  have stays: "wf {} (core s) \<Longrightarrow> j \<notin> set (suspended (c_lists (core s) u)) \<Longrightarrow> owner (core s) j = Some p \<Longrightarrow>
      j \<notin> set (suspended (c_lists (core (fold (resumeType p) ts s)) u))" for s :: pm and ts u
  proof (induction ts arbitrary: s)
    case (Cons t ts)
    note ok = resumeType_ok [OF Cons.prems(1), of p t]
    show ?case
      using Cons.IH [of "resumeType p t s"] ok stay [OF Cons.prems] keeps_owner [OF conjunct2 [OF ok] Cons.prems(3)] by simp
  qed simp
  show ?thesis
    using assms
  proof (induction ts arbitrary: s)
    case (Cons t ts)
    note ok = resumeType_ok [OF Cons.prems(1), of p t]
    have o: "owner (core (resumeType p t s)) j = Some p" using keeps_owner [OF conjunct2 [OF ok] Cons.prems(2)] .
    have "j \<notin> set (suspended (c_lists (core (resumeType p t s)) t))"
      by (rule resumeType_frees(2) [OF Cons.prems])
    from stays [OF conjunct1 [OF ok] this o] Cons.IH [OF conjunct1 [OF ok] o] show ?case by simp
  qed simp
qed

lemma handleAssertionSuspend_parks:
  assumes "wf {} (core s)" and "p \<noteq> getpid (env s)"
    and "processInfoGet s p \<noteq> None" and "\<not> isSuspended (proc s p)"
    and "c_asn (core s) j = Some a" "c_pinfo a = p"
  shows "parked p (c_kassert a) j (core (handleAssertionSuspend p s))"
proof -
  have "parked p (c_kassert a) j (core (fold (suspendType p) all_types s))"
    using suspendTypes_park [OF assms(1,2,5,6), of all_types] by simp
  then show ?thesis using assms(3,4) by (auto simp: handleAssertionSuspend_def core_simps)
qed

lemma handleAssertionResume_frees:
  assumes "wf {} (core s)" and "processInfoGet s p \<noteq> None" and "isSuspended (proc s p)"
    and "owner (core s) j = Some p"
  shows "j \<notin> set (suspended (c_lists (core (handleAssertionResume p s)) t))"
proof -
  show ?thesis
    using resumeTypes_free [OF assms(1,4), of all_types] assms(2,3)
    by (auto simp: handleAssertionResume_def core_simps)
qed

end
