(* ===== verification/AssertionProperties.thy ===== *)
theory AssertionProperties
  imports AssertionOutcomes AssertionSuspend
begin

unbundle bit_operations_syntax

text \<open>
  The properties of the operations of the assertion engine (PMAssertions.c), each with a
  witness at the concrete states of \<open>AssertionExample\<close>.  \<open>others_untouched P s s'\<close> says that
  an operation from \<open>s\<close> to \<open>s'\<close> freed no assertion whose owner is outside \<open>P\<close>, kept each of
  them on its list, and changed none of its type (of the structure and of its property list),
  timed and inactive bits, timeout, identifier, owner and reference count, nor whether it has a
  unique identifier.  It says nothing of the other properties (\<open>copy_details\<close> writes the true
  type into the property lists of every assertion it copies), of the remaining state bits, or
  of the statistics kept for the processes.
\<close>

definition others_untouched :: "pid set \<Rightarrow> pm \<Rightarrow> pm \<Rightarrow> bool" where
  "others_untouched P s s' \<longleftrightarrow>
     (\<forall>j a. gAssertionsArray s j = Some a \<longrightarrow> pinfo a \<notin> P \<longrightarrow>
        c_asn (core s') j = Some (acore a) \<and>
        (\<forall>t. where_is j (c_lists (core s') t) = where_is j (c_lists (core s) t)))"

lemma untouched_keeps: "keeps X P (core s) (core s') \<Longrightarrow> others_untouched P s s'"
  using keepsD(4,5) unfolding others_untouched_def by (fastforce simp: core_sel)

lemma owner_iff: "owner (core s) j = Some p \<longleftrightarrow> (\<exists>a. gAssertionsArray s j = Some a \<and> pinfo a = p)"
  by (auto simp: owner_def core_def acore_def)

definition owns_none :: "pid \<Rightarrow> pm \<Rightarrow> bool" where
  "owns_none p s \<longleftrightarrow> (\<forall>j a. gAssertionsArray s j = Some a \<longrightarrow> pinfo a \<noteq> p)"

lemma owns_none_owner: "owns_none p s \<longleftrightarrow> (\<forall>j. owner (core s) j \<noteq> Some p)"
  by (auto simp: owns_none_def owner_iff)

section \<open>Reachable states\<close>

definition listed_once :: "pm \<Rightarrow> nat \<Rightarrow> assertion \<Rightarrow> bool" where
  "listed_once s i a \<longleftrightarrow>
     (\<forall>t. distinct (linked (tlists (gAssertionTypes s t))) \<and>
        (i \<in> set (linked (tlists (gAssertionTypes s t))) \<longleftrightarrow> t = kassert a)) \<and>
     (kAssertionStateTimed \<in> state a \<longleftrightarrow> i \<in> set (activeTimed (tlists (gAssertionTypes s (kassert a))))) \<and>
     (kAssertionStateInactive \<in> state a \<longleftrightarrow> i \<in> set (inactive (tlists (gAssertionTypes s (kassert a)))))"

lemma wf_linked_type:
  assumes "wf {} c" "c_asn c i = Some b"
  shows "i \<in> set (linked (c_lists c t)) \<longleftrightarrow> t = c_kassert b"
  using wfD(1) [OF assms(1)] assms(2) unfolding wf_links_def by (metis empty_iff option.inject)

lemma wf_id_of:
  assumes "wf {} c" "c_asn c i = Some b"
  shows "i < kMaxAssertions" "c_id b = ID_FROM_INDEX i"
  using wfD(4) [OF assms(1)] assms(2) by (auto simp: wf_ids_def)

lemma wf_listed_once:
  assumes wf: "wf {} (core s)" and a: "gAssertionsArray s i = Some a"
  shows "listed_once s i a"
proof -
  let ?L = "\<lambda>t. tlists (gAssertionTypes s t)"
  have c: "c_asn (core s) i = Some (acore a)" using a by (simp add: core_sel)
  have d: "distinct (linked (?L t))" for t
    using wfD(1) [OF wf] by (simp add: wf_links_def core_sel)
  have m: "i \<in> set (linked (?L t)) \<longleftrightarrow> t = kassert a" for t
    using wf_linked_type [OF wf c, of t] by (simp add: core_sel acore_sel)
  note b = wf_list_bits [OF wf c, of "kassert a", unfolded core_sel acore_sel]
  have "i \<in> set (linked (?L (kassert a)))" using m by simp
  then show ?thesis
    using d m b unfolding listed_once_def set_linked by blast
qed

lemma created_reachable: "\<exists>s i a. reachable s \<and> gAssertionsArray s i = Some a \<and> pinfo a = 1"
proof -
  obtain r aid pr s' where d: "doCreate 1 idle_props boot = ((r, aid, pr), s')" by (metis surj_pair)
  have me: "getpid (env boot) = 1" by (simp add: boot_sel env0_def)
  have "createOutcome 1 idle_props boot = kIOReturnSuccess"
  proof -
    have "slot_free boot" by (auto simp: slot_free_def boot_sel kMaxAssertions_def intro: exI [of _ 0])
    moreover have "gProcessDict boot 1 = None" by code_simp
    moreover have "type_accepted boot idle_props"
      by (simp add: type_accepted_def getAssertionTypeIndex_def idle_props_def boot_dict)
    ultimately show ?thesis
      by (simp add: createOutcome_def proc_def calloc_ProcessInfo_def boot_sel env0_def)
  qed
  then have "r = kIOReturnSuccess" using doCreate_code [OF boot_wf, of 1 idle_props] d by simp
  then obtain i where "createdAt 1 aid boot s' i"
    using wf_doCreate [OF boot_wf _ d] by (auto simp: all_live_def)
  then have "\<exists>a. gAssertionsArray s' i = Some a \<and> pinfo a = 1"
    unfolding createdAt_def using lookup_Some(4) by blast
  moreover have "createBlock idle_props False (Some kIOPMNullAssertionID) boot = (Some aid, s')"
    by (simp add: createBlock_def me d)
  then have "step boot s'" by (rule by_daemon [OF create_block])
  then have "reachable s'" using stepped [OF started] by (simp add: boot_def)
  ultimately show ?thesis by blast
qed

text \<open>
  C1: in every state the engine can reach, from its start by client requests, calls of other
  parts of the daemon, timers and events in any order, each assertion has the identifier of its
  index, is found by its owner under that identifier, and stands exactly once on the lists of
  all types, on the list its state bits say.
\<close>

theorem reachable_consistent:
  assumes "reachable s" and "gAssertionsArray s i = Some a"
  shows "i < kMaxAssertions \<and> assertionId a = ID_FROM_INDEX i \<and>
    lookupAssertion s (pinfo a) (assertionId a) = (kIOReturnSuccess, Some i) \<and> listed_once s i a"
proof -
  have wf: "wf {} (core s)" using pm_inv_reachable [OF assms(1)] by (simp add: pm_inv_def)
  have o: "owner (core s) i = Some (pinfo a)" using assms(2) owner_iff by blast
  have "i < kMaxAssertions" "assertionId a = ID_FROM_INDEX i"
    using wf_id_of [OF wf, of i "acore a"] assms(2) by (simp_all add: core_sel acore_sel)
  then show ?thesis using owner_lookup(1) [OF wf o] wf_listed_once [OF wf assms(2)] by simp
qed

theorem reachable_consistent_witness:
  "\<exists>s i a. reachable s \<and> gAssertionsArray s i = Some a \<and> listed_once s i a"
  using created_reachable reachable_consistent by blast

text \<open>
  C2: in every reachable state the timed list of a type is sorted by deadline, so the head is
  the next assertion to time out, and the effect lists are a partition: a type is on the list
  of its own effect exactly once and on no other.
\<close>

theorem reachable_ordered:
  assumes "reachable s"
  shows "sorted (map (\<lambda>i. timeout (asn s i)) (activeTimed (tlists (gAssertionTypes s t)))) \<and>
    count_list (gAssertionEffects s e) t = (if effectIdx (gAssertionTypes s t) = e then 1 else 0)"
proof -
  have i: "wf {} (core s)" "wf_effects s" using pm_inv_reachable [OF assms] by (simp_all add: pm_inv_def)
  have "sorted (map (ctimeout (core s)) (activeTimed (tlists (gAssertionTypes s t))))"
    using wfD(3) [OF i(1)] by (simp add: wf_sorted_def core_sel)
  then show ?thesis using i(2) by (simp add: wf_effects_def timeout_asn)
qed

theorem reachable_ordered_witness:
  "count_list (gAssertionEffects boot kPrevDemandSlpEffect) kPreventSleepType = 1"
proof -
  have "effectIdx (gAssertionTypes boot kPreventSleepType) = kPrevDemandSlpEffect" by code_simp
  then show ?thesis
    using reachable_ordered [OF started [of env0], of kPreventSleepType kPrevDemandSlpEffect]
    by (simp add: boot_def)
qed



section \<open>Creation and identifiers\<close>

text \<open>
  C4: \<open>doCreate\<close> keeps the table well formed.  On success the returned identifier belongs to a
  slot that was free, and the creator finds its new assertion under it; on failure the
  identifier is the null identifier.  No assertion of another process is freed, moved or
  changed in the fields \<open>others_untouched\<close> names.
\<close>

theorem doCreate_correct:
  assumes "wf {} (core s)" and "doCreate p np s = ((r, aid, pr), s')"
  shows "wf {} (core s') \<and> others_untouched {p} s s' \<and>
    (if r = kIOReturnSuccess
     then \<exists>i < kMaxAssertions. gAssertionsArray s i = None \<and> aid = ID_FROM_INDEX i \<and>
       lookupAssertion s' p aid = (kIOReturnSuccess, Some i)
     else aid = kIOPMNullAssertionID)"
proof -
  have w: "wf {} (core s') \<and> keeps {} {p} (core s) (core s') \<and>
    (if r = kIOReturnSuccess then \<exists>i. createdAt p aid s s' i else aid = kIOPMNullAssertionID)"
    by (rule wf_doCreate [OF assms(1) _ assms(2)]) (simp add: all_live_def)
  then show ?thesis by (auto simp: createdAt_def untouched_keeps split: if_splits)
qed

theorem doCreate_correct_witness:
  "\<exists>r aid pr s'. doCreate 200 idle_props busy = ((r, aid, pr), s') \<and> wf {} (core s') \<and>
     others_untouched {200} busy s'"
proof -
  obtain r aid pr s' where d: "doCreate 200 idle_props busy = ((r, aid, pr), s')"
    by (metis surj_pair)
  then show ?thesis using doCreate_correct [OF busy_wf d] by blast
qed

section \<open>The kernel bits\<close>

text \<open>
  C5: what \<open>setKernelAssertions\<close> does to the kernel assertion bit of a type that has an effect.
  With a well-formed effect partition the handler's view of "active" is that some type with
  the same effect is active; an evaluation makes the bit equal to it, a raise only ever sets
  the bit and a release only ever clears it, and no other bit changes.
\<close>

theorem setKernelAssertions_bit:
  assumes "wf_effects s" and "effectIdx (gAssertionTypes s t) = e" and "e \<noteq> kNoEffect"
    and "assertBitOf t = Some b"
  shows "kerAssertionBits (setKernelAssertions t op s) =
    (let act = \<exists>u. effectIdx (gAssertionTypes s u) = e \<and> typeActive s u in
     if act \<and> op \<noteq> kAssertionOpRelease then insert b (kerAssertionBits s)
     else if \<not> act \<and> op \<noteq> kAssertionOpRaise then kerAssertionBits s - {b}
     else kerAssertionBits s)"
proof -
  have a: "fst (checkForActives s t True) \<longleftrightarrow> (\<exists>u. effectIdx (gAssertionTypes s u) = e \<and> typeActive s u)"
    using checkForActives_iff(1) [OF assms(1-3)] checkForActivesByEffect_iff [OF assms(1,3)] by simp
  have g: "setKernelAssertions t kAssertionOpGlobalTimeout s = setKernelAssertions t kAssertionOpEval s"
    by (cases "checkForActives s t True"; cases "assertBitOf t")
      (simp_all add: setKernelAssertions_def Let_def)
  show ?thesis
    using kerBits_setKernelAssertions [of s t b] assms(2-4) a by (cases op) (auto simp: Let_def g)
qed

theorem setKernelAssertions_bit_witness:
  "kerAssertionBits (setKernelAssertions kPreventSleepType kAssertionOpEval boot) =
    (let act = \<exists>u. effectIdx (gAssertionTypes boot u) = kPrevDemandSlpEffect \<and> typeActive boot u in
     if act \<and> kAssertionOpEval \<noteq> kAssertionOpRelease
     then insert kIOPMDriverAssertionCPUBit (kerAssertionBits boot)
     else if \<not> act \<and> kAssertionOpEval \<noteq> kAssertionOpRaise
     then kerAssertionBits boot - {kIOPMDriverAssertionCPUBit}
     else kerAssertionBits boot)"
proof (rule setKernelAssertions_bit [OF boot_wf_effects])
  show "effectIdx (gAssertionTypes boot kPreventSleepType) = kPrevDemandSlpEffect" by code_simp
qed simp_all

section \<open>Exit of a process\<close>

text \<open>
  C6: \<open>HandleProcessExit\<close> of a process other than the daemon frees every assertion the process
  owns, keeps the table well formed, and touches no assertion of a third process (the daemon's
  own proxy assertion may be refreshed).
\<close>

theorem HandleProcessExit_correct:
  assumes "wf {} (core s)" and "p \<noteq> getpid (env s)"
  shows "wf {} (core (HandleProcessExit p s)) \<and>
    owns_none p (HandleProcessExit p s) \<and>
    others_untouched {p, getpid (env s)} s (HandleProcessExit p s)"
  using HandleProcessExit_ok [OF assms] untouched_keeps owns_none_owner by blast

theorem HandleProcessExit_correct_witness:
  "\<not> owns_none 100 busy \<and> owns_none 100 (HandleProcessExit 100 busy)"
proof -
  have "(100 :: pid) \<noteq> getpid (env busy)" by (simp add: busy_sel env0_def)
  then show ?thesis
    using HandleProcessExit_correct [OF busy_wf] by (auto simp: owns_none_def busy_sel timed_assertion_def)
qed

end
