(* ===== verification/AssertionLifeProperties.thy ===== *)
theory AssertionLifeProperties
  imports AssertionProperties
begin

unbundle bit_operations_syntax

text \<open>
  The properties of the life of an assertion (PMAssertions.c): return codes, reference counts,
  timeouts, suspension and the time cap, each with a witness at \<open>boot\<close> or \<open>busy\<close>.
\<close>

lemma timed_assertion_sel [simp]:
  "kassert timed_assertion = kPreventIdleType" "pinfo timed_assertion = 100"
  "timeout timed_assertion = 900" "retainCnt timed_assertion = 1"
  by (simp_all add: timed_assertion_def)

section \<open>Return codes of a creation\<close>

text \<open>
  C10: the return code of \<open>doCreate\<close> on every branch, errors included, is a function of the
  state: no memory when the creator cannot be given a \<open>ProcessInfo\<close> or no slot of the table is
  free (the search finds any free slot there is), an internal error for a suspended process, a
  bad argument for an unknown type or an asynchronous assertion without its unique identifier,
  success otherwise.
\<close>

theorem doCreate_return_code:
  assumes "wf {} (core s)"
  shows "fst (fst (doCreate p np s)) = createOutcome p np s"
  by (rule doCreate_code [OF assms])

theorem doCreate_return_code_witness:
  "fst (fst (doCreate 200 Map.empty busy)) = kIOReturnBadArgument"
proof -
  have "slot_free busy" unfolding slot_free_def
    by (rule exI [of _ 1]) (simp add: busy_sel kMaxAssertions_def)
  then have "createOutcome 200 Map.empty busy = kIOReturnBadArgument"
    by (simp add: createOutcome_def type_accepted_def getAssertionTypeIndex_def proc_def
        calloc_ProcessInfo_def busy_sel env0_def)
  then show ?thesis using doCreate_return_code [OF busy_wf, of 200 Map.empty] by simp
qed

section \<open>Reference counts\<close>

text \<open>
  C12: a retain followed by a release by the same process gives back the reference count, and
  leaves every assertion and every list as it was: the pair is invisible but for the change
  notification.  (The count is 32 bits wide; it must not be at its maximum or zero.)
\<close>

theorem retain_release_roundtrip:
  assumes "lookupAssertion s p aid = (kIOReturnSuccess, Some i)"
    and "retainCnt (asn s i) \<noteq> - 1" and "retainCnt (asn s i) \<noteq> 0"
    and "doRetain p aid s = ((r, n), s1)" and "doRelease p aid s1 = ((r', n'), s2)"
  shows "r = kIOReturnSuccess \<and> r' = kIOReturnSuccess \<and> n = Some (retainCnt (asn s i) + 1) \<and>
    n' = Some (retainCnt (asn s i)) \<and> gAssertionsArray s2 = gAssertionsArray s \<and>
    gAssertionTypes s2 = gAssertionTypes s"
proof -
  let ?u = "upd_asn i (\<lambda>a. a\<lparr>retainCnt := retainCnt a + 1\<rparr>) s"
  obtain a where a: "gAssertionsArray s i = Some a" "pinfo a = p" "i = INDEX_FROM_ID aid" "i < kMaxAssertions"
    using lookup_Some [OF assms(1)] by blast
  have n: "gAssertionsArray (notifyAnyChange u) = gAssertionsArray u"
    "gAssertionTypes (notifyAnyChange u) = gAssertionTypes u" for u
    by (simp_all add: notifyAnyChange_def emit_def)
  have s1: "r = kIOReturnSuccess" "n = Some (retainCnt (asn ?u i))" "s1 = notifyAnyChange ?u"
    using assms(4) by (simp_all add: doRetain_def assms(1) Let_def)
  have c: "asn ?u i = a\<lparr>retainCnt := retainCnt a + 1\<rparr>" "asn s i = a"
    using a(1) by (simp_all add: asn_def upd_asn_def)
  have g1: "gAssertionsArray s1 = (gAssertionsArray s)(i \<mapsto> a\<lparr>retainCnt := retainCnt a + 1\<rparr>)"
    "gAssertionTypes s1 = gAssertionTypes s"
    using a(1) by (auto simp: s1(3) n upd_asn_def fun_eq_iff)
  have l1: "lookupAssertion s1 p aid = (kIOReturnSuccess, Some i)"
    using a by (simp add: lookupAssertion_def g1)
  have c1: "asn s1 i = a\<lparr>retainCnt := retainCnt a + 1\<rparr>" by (simp add: asn_def g1)
  have nz: "retainCnt a + 1 \<noteq> 0" using assms(2) c(2) by (metis add_diff_cancel_right' diff_0)
  let ?v = "upd_asn i (\<lambda>a. a\<lparr>retainCnt := retainCnt a - 1\<rparr>) s1"
  have c2: "asn ?v i = a" using g1 by (simp add: asn_def upd_asn_def)
  have "r' = kIOReturnSuccess" "n' = Some (retainCnt a)" "s2 = ?v"
    using assms(3,5) c(2) nz by (simp_all add: doRelease_def l1 c1 c2 Let_def split: if_splits)
  moreover have "gAssertionsArray ?v = gAssertionsArray s"
    using a(1) g1 by (auto simp: upd_asn_def fun_eq_iff)
  moreover have "gAssertionTypes ?v = gAssertionTypes s" by (simp add: upd_asn_def g1)
  ultimately show ?thesis using s1(1,2) c by simp
qed

theorem retain_release_roundtrip_witness:
  "\<exists>r n s1 r' n' s2. doRetain 100 (ID_FROM_INDEX 0) busy = ((r, n), s1) \<and>
     doRelease 100 (ID_FROM_INDEX 0) s1 = ((r', n'), s2) \<and> r' = kIOReturnSuccess \<and> n' = Some 1 \<and>
     gAssertionsArray s2 = gAssertionsArray busy"
proof -
  obtain r n s1 where d: "doRetain 100 (ID_FROM_INDEX 0) busy = ((r, n), s1)" by (metis surj_pair)
  obtain r' n' s2 where e: "doRelease 100 (ID_FROM_INDEX 0) s1 = ((r', n'), s2)" by (metis surj_pair)
  have l: "lookupAssertion busy 100 (ID_FROM_INDEX 0) = (kIOReturnSuccess, Some 0)"
    by (simp add: lookupAssertion_def kMaxAssertions_def busy_sel timed_assertion_def)
  have "retainCnt (asn busy 0) = 1" by (simp add: busy_sel timed_assertion_def)
  then show ?thesis using retain_release_roundtrip [OF l _ _ d e] d e by auto
qed

text \<open>
  C11: the release of the last reference frees the assertion: in the state it leaves, the slot
  is empty, the identifier is refused to every process, and the table is well formed with the
  assertions of other processes untouched.  (This is about the state right after the release:
  a later creation may take the slot again and hand out the same identifier.)
\<close>

theorem last_release_frees:
  assumes "wf {} (core s)" and "lookupAssertion s p aid = (kIOReturnSuccess, Some i)"
    and "retainCnt (asn s i) \<le> 1" and "doRelease p aid s = ((r, n), s')"
  shows "r = kIOReturnSuccess \<and> n = Some 0 \<and> gAssertionsArray s' i = None \<and>
    lookupAssertion s' q aid = (kIOReturnBadArgument, None) \<and>
    wf {} (core s') \<and> others_untouched {p, getpid (env s)} s s'"
proof -
  obtain s0 where out: "r = kIOReturnSuccess" "n = Some 0" "s' = releaseLast i s0"
    and s0: "s0 = (if retainCnt (asn s i) \<noteq> 0
      then upd_asn i (\<lambda>a. a\<lparr>retainCnt := retainCnt a - 1\<rparr>) s else s)"
    using assms(2-4) by (auto elim: doRelease_cases)
  have c: "core s0 = core s \<or> core s0 = recount i (\<lambda>n. n - 1) (core s)"
    by (simp add: s0 flip: core_recount)
  then have w: "wf {} (core s0)" using assms(1) wf_recount by metis
  have e: "env s0 = env s" by (simp add: s0 upd_asn_def)
  have "owner (core s0) i = Some p" using c lookup_owner [OF assms(2)] by (auto simp: recount_def)
  then obtain a where a: "c_asn (core s0) i = Some a" "c_pinfo a = p" by (auto simp: owner_def)
  have "c_asn (core s') i = None"
    using releaseLast_ok [OF w a(1), of "{p, getpid (env s)}"] a(2) out(3)
    by (simp add: e foreign_floats_def)
  then have free: "gAssertionsArray s' i = None" by (simp add: core_sel)
  then have "lookupAssertion s' q aid = (kIOReturnBadArgument, None)"
    using lookup_Some(2,3) [OF assms(2)] by (simp add: lookupAssertion_def Let_def)
  then show ?thesis using doRelease_ok [OF assms(1,4)] untouched_keeps out(1,2) free by blast
qed

theorem last_release_frees_witness:
  "\<exists>r n s'. doRelease 100 (ID_FROM_INDEX 0) busy = ((r, n), s') \<and> gAssertionsArray s' 0 = None"
proof -
  obtain r n s' where d: "doRelease 100 (ID_FROM_INDEX 0) busy = ((r, n), s')" by (metis surj_pair)
  have l: "lookupAssertion busy 100 (ID_FROM_INDEX 0) = (kIOReturnSuccess, Some 0)"
    by (simp add: lookupAssertion_def kMaxAssertions_def busy_sel timed_assertion_def)
  have "retainCnt (asn busy 0) \<le> 1" by (simp add: busy_sel timed_assertion_def)
  then show ?thesis using last_release_frees [OF busy_wf l _ d] d by blast
qed

section \<open>Timeouts\<close>

definition stays_put :: "pm \<Rightarrow> pm \<Rightarrow> nat \<Rightarrow> assertion \<Rightarrow> bool" where
  "stays_put s s' j a \<longleftrightarrow>
     c_asn (core s') j = Some (acore a) \<and>
     (\<forall>t. where_is j (tlists (gAssertionTypes s' t)) = where_is j (tlists (gAssertionTypes s t)))"

definition gone :: "pm \<Rightarrow> nat \<Rightarrow> pid \<Rightarrow> bool" where
  "gone s j p \<longleftrightarrow> (case gAssertionsArray s j of None \<Rightarrow> True | Some a \<Rightarrow> pinfo a \<noteq> p)"

lemma gone_owner: "gone s j p \<longleftrightarrow> owner (core s) j \<noteq> Some p"
  by (auto simp: gone_def owner_def core_sel acore_sel split: option.split)

text \<open>
  C7: when the timer of a type fires, exactly the assertions of the type whose deadline has
  come leave the timed list: each is freed or put on the inactive list.  Every other assertion
  of a client keeps its state and its place on the lists.
\<close>

theorem handleAssertionTimeout_exact:
  assumes "wf {} (core s)" and "gAssertionsArray s j = Some a" and "pinfo a \<noteq> getpid (env s)"
  shows "wf {} (core (handleAssertionTimeout t s)) \<and>
    (if j \<in> set (activeTimed (tlists (gAssertionTypes s t))) \<and> timeout a \<le> currTime s
     then gone (handleAssertionTimeout t s) j (pinfo a) \<or>
       j \<in> set (inactive (tlists (gAssertionTypes (handleAssertionTimeout t s) t)))
     else stays_put s (handleAssertionTimeout t s) j a)"
proof -
  note ok = handleAssertionTimeout_ok [OF assms(1), where t = t]
  have o: "owner (core s) j = Some (pinfo a)" using assms(2) owner_iff by blast
  have e: "j \<in> set (expired (currTime s) (core s) t) \<longleftrightarrow>
      j \<in> set (activeTimed (tlists (gAssertionTypes s t))) \<and> timeout a \<le> currTime s"
    using assms(2) by (auto simp: expired_def core_sel ctimeout_core asn_def)
  have c: "c_asn (core s) j = Some (acore a)" using assms(2) by (simp add: core_sel)
  show ?thesis
    using ok(1) ok(2) [of j] ok(3) [of j "pinfo a"] o e assms(3) c
    by (simp add: gone_owner stays_put_def core_lists)
qed

theorem handleAssertionTimeout_exact_witness:
  "let s = handleAssertionTimeout kPreventIdleType busy in
     gone s 0 100 \<or> 0 \<in> set (inactive (tlists (gAssertionTypes s kPreventIdleType)))"
proof -
  have a: "gAssertionsArray busy 0 = Some timed_assertion" by (simp add: busy_sel)
  have p: "pinfo timed_assertion \<noteq> getpid (env busy)" by (simp add: busy_sel timed_assertion_def env0_def)
  have t: "0 \<in> set (activeTimed (tlists (gAssertionTypes busy kPreventIdleType)))"
    by (simp add: core_lists busy_table)
  have m: "timeout timed_assertion \<le> currTime busy" by (simp add: timed_assertion_def busy_sel env0_def)
  have "pinfo timed_assertion = 100" by (simp add: timed_assertion_def)
  then show ?thesis
    using handleAssertionTimeout_exact [OF busy_wf a p, of kPreventIdleType] t m by (simp add: Let_def)
qed

text \<open>
  the loop of \<open>handleAssertionTimeout\<close> ends, counts the assertions it expired, and leaves
  on the timed list those whose deadline is still ahead, in their order.
\<close>

theorem timeoutLoop_exact:
  assumes "wf {} (core s)" and "timeoutLoop t now (0, False, s) = (n, proxy, s')"
  shows "activeTimed (tlists (gAssertionTypes s' t)) =
      filter (\<lambda>j. timeout (asn s j) > now) (activeTimed (tlists (gAssertionTypes s t))) \<and>
    n + length (activeTimed (tlists (gAssertionTypes s' t))) = length (activeTimed (tlists (gAssertionTypes s t)))"
proof -
  have t: "timedOut t now (core s) (core s')" and n: "n = length (expired now (core s) t)"
    using timeoutLoop_ok [OF assms] by simp_all
  have f: "activeTimed (tlists (gAssertionTypes s' t)) =
      filter (\<lambda>j. timeout (asn s j) > now) (activeTimed (tlists (gAssertionTypes s t)))"
    using t by (simp add: timedOut_def core_lists timeout_asn)
  show ?thesis
    using f n sum_length_filter_compl [of "\<lambda>j. timeout (asn s j) > now" "activeTimed (tlists (gAssertionTypes s t))"]
    by (simp add: expired_def core_lists timeout_asn)
qed

theorem timeoutLoop_exact_witness:
  "\<exists>n proxy s'. timeoutLoop kPreventIdleType 1000 (0, False, busy) = (n, proxy, s') \<and> n = 1 \<and>
     activeTimed (tlists (gAssertionTypes s' kPreventIdleType)) = []"
proof -
  obtain n proxy s' where l: "timeoutLoop kPreventIdleType 1000 (0, False, busy) = (n, proxy, s')"
    by (metis surj_pair)
  have "activeTimed (tlists (gAssertionTypes busy kPreventIdleType)) = [0]" "timeout (asn busy 0) = 900"
    by (simp_all add: core_lists busy_table busy_sel timed_assertion_def)
  then show ?thesis using timeoutLoop_exact [OF busy_wf l] l by auto
qed

text \<open>
  C13: when the time cap of a globally timed type expires, no assertion of the type is active
  any more, timed or not, and the table is still well formed.
\<close>

theorem time_cap_empties:
  assumes "wf {} (core s)" and "kAssertionTypeGloballyTimed \<in> flags (gAssertionTypes s t)"
  shows "wf {} (core (enforceAssertionTypeTimeCap t s)) \<and>
    \<not> checkForEntriesByType (enforceAssertionTypeTimeCap t s) t"
  using enforceAssertionTypeTimeCap_ok [OF assms(1)] assms(2) by blast

theorem time_cap_empties_witness:
  "\<not> checkForEntriesByType (enforceAssertionTypeTimeCap kPushServiceTaskType boot) kPushServiceTaskType"
proof -
  have "kAssertionTypeGloballyTimed \<in> flags (gAssertionTypes boot kPushServiceTaskType)" by code_simp
  then show ?thesis using time_cap_empties [OF boot_wf] by blast
qed

section \<open>Suspension\<close>



text \<open>
  C9: after \<open>handleAssertionResume\<close> of a suspended process none of its assertions is left on a
  suspended list.
\<close>

theorem resume_frees_all:
  assumes "wf {} (core s)" and "processInfoGet s p \<noteq> None" and "isSuspended (proc s p)"
    and "gAssertionsArray s j = Some a" and "pinfo a = p"
  shows "wf {} (core (handleAssertionResume p s)) \<and>
    j \<notin> set (suspended (tlists (gAssertionTypes (handleAssertionResume p s) t)))"
proof -
  have "owner (core s) j = Some p" using assms(4,5) owner_iff by blast
  then show ?thesis
    using handleAssertionResume_ok [OF assms(1)] handleAssertionResume_frees [OF assms(1-3)]
    by (simp add: core_lists)
qed

definition asleep :: pm where
  "asleep = upd_proc 100 (\<lambda>P. P\<lparr>isSuspended := True\<rparr>)
     (with_one (empty_lists\<lparr>suspended := [0]\<rparr>) (timed_assertion\<lparr>state := {kAssertionStateSuspended}\<rparr>))"

lemma asleep_core:
  "core asleep = core (with_one (empty_lists\<lparr>suspended := [0]\<rparr>) (timed_assertion\<lparr>state := {kAssertionStateSuspended}\<rparr>))"
  by (simp add: asleep_def core_simps)

lemma asleep_wf: "wf {} (core asleep)"
  unfolding asleep_core
  by (rule with_one_wf [where n = kIOPMAssertionTypePreventUserIdleSystemSleep])
    (simp_all add: rightly_listed_def timed_assertion_def calloc_assertion_def idle_props_def
      type_of_props_def boot_dict)

theorem resume_frees_all_witness:
  "0 \<in> set (suspended (tlists (gAssertionTypes asleep kPreventIdleType))) \<and>
   0 \<notin> set (suspended (tlists (gAssertionTypes (handleAssertionResume 100 asleep) kPreventIdleType)))"
proof -
  have g: "processInfoGet asleep 100 \<noteq> None" "isSuspended (proc asleep 100)"
    by (simp_all add: processInfoGet_def proc_def asleep_def upd_proc_def with_one_sel timed_assertion_def)
  have a: "gAssertionsArray asleep 0 = Some (timed_assertion\<lparr>state := {kAssertionStateSuspended}\<rparr>)"
    "pinfo (timed_assertion\<lparr>state := {kAssertionStateSuspended}\<rparr>) = 100"
    by (simp_all add: asleep_def upd_proc_def with_one_sel timed_assertion_def)
  show ?thesis
    using resume_frees_all [OF asleep_wf g a] by (simp add: core_lists asleep_core with_one_table timed_assertion_def)
qed

section \<open>The system assertion timer\<close>

text \<open>
  an assertion the system timer drops ends, whatever list it was on, on the inactive list
  of its type, still live and owned; the table stays well formed and third processes are not
  touched.
\<close>

theorem handleAssertionDrop_deactivates:
  assumes "wf {} (core s)" and "gAssertionsArray s i = Some a"
  shows "wf {} (core (handleAssertionDrop i s)) \<and>
    where_is i (tlists (gAssertionTypes (handleAssertionDrop i s) (kassert a))) = [False, False, True, False] \<and>
    others_untouched {pinfo a, getpid (env s)} s (handleAssertionDrop i s)"
proof -
  have a: "c_asn (core s) i = Some (acore a)" using assms(2) by (simp add: core_sel)
  note ok = handleAssertionDrop_ok [OF assms(1) a, unfolded acore_sel]
  let ?l = "c_lists (core (handleAssertionDrop i s)) (kassert a)"
  have "distinct (linked ?l)" using wfD(1) [OF conjunct1 [OF ok]] by (simp add: wf_links_def)
  then have "where_is i ?l = [False, False, True, False]" using ok by (auto simp: where_is_def linked_def)
  moreover have "others_untouched {pinfo a, getpid (env s)} s (handleAssertionDrop i s)"
    using ok untouched_keeps by blast
  ultimately show ?thesis using ok by (simp add: core_lists)
qed

theorem handleAssertionDrop_deactivates_witness:
  "where_is 0 (tlists (gAssertionTypes (handleAssertionDrop 0 busy) kPreventIdleType)) =
     [False, False, True, False]"
proof -
  have a: "gAssertionsArray busy 0 = Some timed_assertion" "kassert timed_assertion = kPreventIdleType"
    by (simp_all add: busy_sel timed_assertion_def)
  show ?thesis using handleAssertionDrop_deactivates [OF busy_wf a(1)] a(2) by simp
qed

end
