(* ===== verification/AssertionEffectProperties.thy ===== *)
theory AssertionEffectProperties
  imports AssertionLifeProperties
begin

unbundle bit_operations_syntax

text \<open>
  The properties of the effects and of the requests that change no assertion
  (PMAssertions.c): the activity checks, the switching of types, the order of the timed list,
  the display-off delay, permissions and read-only requests.
\<close>

section \<open>Activity\<close>







section \<open>The timed list\<close>

lemma insert_by_stable:
  "sorted (map k ys) \<Longrightarrow> insert_by k x ys = filter (\<lambda>y. k y \<le> k x) ys @ [x] @ filter (\<lambda>y. k y > k x) ys"
proof (induction ys)
  case (Cons y ys)
  show ?case
  proof (cases "k y > k x")
    case True
    have "\<forall>z \<in> set ys. k z > k x" using Cons.prems True by auto
    then have "filter (\<lambda>y. k y \<le> k x) ys = []" "filter (\<lambda>y. k y > k x) ys = ys"
      by (auto simp: filter_empty_conv filter_id_conv)
    then show ?thesis using True by simp
  qed (use Cons in simp)
qed simp

text \<open>
  \<open>insertByTimeout\<close> on a list sorted by deadline puts the assertion behind those that time
  out no later and before those that time out later: equal deadlines keep the order of arrival.
\<close>

theorem insertByTimeout_stable:
  assumes "sorted (map (\<lambda>j. timeout (asn s j)) (activeTimed (tlists (gAssertionTypes s t))))"
  shows "activeTimed (tlists (gAssertionTypes (insertByTimeout i t s) t)) =
    filter (\<lambda>j. timeout (asn s j) \<le> timeout (asn s i)) (activeTimed (tlists (gAssertionTypes s t))) @ [i] @
    filter (\<lambda>j. timeout (asn s j) > timeout (asn s i)) (activeTimed (tlists (gAssertionTypes s t)))"
proof -
  have "activeTimed (tlists (gAssertionTypes (insertByTimeout i t s) t)) =
      insert_by (\<lambda>j. timeout (asn s j)) i (activeTimed (tlists (gAssertionTypes s t)))"
    using arg_cong [OF core_insertByTimeout [of i t s], of "\<lambda>c. activeTimed (c_lists c t)"]
    by (simp add: core_lists timeout_asn [abs_def])
  then show ?thesis using insert_by_stable [OF assms] by simp
qed

theorem insertByTimeout_stable_witness:
  "activeTimed (tlists (gAssertionTypes (insertByTimeout 5 kPreventIdleType boot) kPreventIdleType)) = [5]"
proof -
  have "sorted (map (\<lambda>j. timeout (asn boot j)) (activeTimed (tlists (gAssertionTypes boot kPreventIdleType))))"
    by (simp add: boot_sel empty_lists_def)
  from insertByTimeout_stable [OF this, of 5] show ?thesis by (simp add: boot_sel empty_lists_def)
qed

text \<open>
  when the automatic timeout of the interactive push type changes, no active assertion of
  the type has a deadline beyond the new bound, no deadline is moved to a later time, every
  list keeps its order, and the table stays well formed.
\<close>

theorem interactive_push_clipped:
  assumes "wf {} (core s)" and "gAssertionsArray s i = Some a"
    and "i \<in> set (selected kSelectActive (tlists (gAssertionTypes s kInteractivePushServiceType)))"
  shows "wf {} (core (evalAllInteractivePushAssertions s)) \<and>
    timeout (asn (evalAllInteractivePushAssertions s) i) =
      min (timeout a) (autoTimeout (gAssertionTypes s kInteractivePushServiceType) + currTime s) \<and>
    tlists (gAssertionTypes (evalAllInteractivePushAssertions s) t) = tlists (gAssertionTypes s t)"
proof -
  let ?n = "autoTimeout (gAssertionTypes s kInteractivePushServiceType)"
  let ?xs = "selected kSelectActive (c_lists (core s) kInteractivePushServiceType)"
  have c: "core (evalAllInteractivePushAssertions s) =
      core (fold (clipTimeout ?n (?n + currTime s)) ?xs s)"
    by (simp add: evalAllInteractivePushAssertions_def Let_def core_simps applyToAssertionsSync_def core_lists)
  have cl: "clipped (?n + currTime s) (set ?xs) (core s) (core (evalAllInteractivePushAssertions s))"
    unfolding c by (rule clipped_fold)
  then have l: "c_lists (core (evalAllInteractivePushAssertions s)) = c_lists (core s)"
    and a: "c_asn (core (evalAllInteractivePushAssertions s)) i =
      map_option (\<lambda>a. a\<lparr>c_timeout := min (c_timeout a) (?n + currTime s)\<rparr>) (c_asn (core s) i)"
    using assms(3) by (auto simp: clipped_def core_lists)
  have "c_asn (core s) i = Some (acore a)" using assms(2) by (simp add: core_sel)
  then have "ctimeout (core (evalAllInteractivePushAssertions s)) i = min (timeout a) (?n + currTime s)"
    using a by (simp add: ctimeout_def acore_sel del: core_sel)
  then show ?thesis
    using evalAllInteractivePushAssertions_ok [OF assms(1)] l by (simp add: timeout_asn core_lists)
qed

definition pushing :: pm where
  "pushing = with_one (empty_lists\<lparr>activeTimed := [0]\<rparr>) (timed_assertion\<lparr>kassert := kInteractivePushServiceType,
     timeout := 5000, props := idle_props(kIOPMAssertionTypeKey \<mapsto>
       CFString (TypeName kIOPMAssertInteractivePushServiceTask))\<rparr>)"

lemma pushing_wf: "wf {} (core pushing)"
proof -
  have "gUserAssertionTypesDict boot kIOPMAssertInteractivePushServiceTask \<noteq> None" by code_simp
  then show ?thesis
    unfolding pushing_def
    by (intro with_one_wf [where n = kIOPMAssertInteractivePushServiceTask])
      (simp_all add: rightly_listed_def timed_assertion_def calloc_assertion_def idle_props_def type_of_props_def)
qed

theorem interactive_push_clipped_witness:
  "timeout (asn (evalAllInteractivePushAssertions pushing) 0) =
     min 5000 (autoTimeout (gAssertionTypes pushing kInteractivePushServiceType) + 1000)"
proof -
  let ?a = "timed_assertion\<lparr>kassert := kInteractivePushServiceType,
     timeout := 5000, props := idle_props(kIOPMAssertionTypeKey \<mapsto>
       CFString (TypeName kIOPMAssertInteractivePushServiceTask))\<rparr>"
  have a: "gAssertionsArray pushing 0 = Some ?a" by (simp add: pushing_def with_one_sel)
  have m: "0 \<in> set (selected kSelectActive (tlists (gAssertionTypes pushing kInteractivePushServiceType)))"
    by (simp add: core_lists pushing_def with_one_table)
  have "currTime pushing = 1000" by (simp add: pushing_def with_one_sel env0_def)
  then show ?thesis using interactive_push_clipped [OF pushing_wf a m] by simp
qed

section \<open>The delay of display sleep\<close>

text \<open>
  \<open>delayDisplayTurnOff\<close> and \<open>doSetProperties\<close> call each other in the source; the calls end
  because the assertion changed is the daemon's own.  The model cuts the knot, and satisfies
  the equation of the source: with a proxy assertion at hand the delay is exactly a
  \<open>doSetProperties\<close> on it that turns it on and renews its timeout.
\<close>

theorem delayDisplayTurnOff_knot:
  assumes "delayDisplayId s \<noteq> kIOPMNullAssertionID"
  shows "delayDisplayTurnOff s = snd (doSetProperties (getpid (env s)) (delayDisplayId s)
     [(kIOPMAssertionLevelKey, CFNumber (of_int kIOPMAssertionLevelOn)),
      (kIOPMAssertionTimeoutKey, CFNumber (displayOffDelay s))] s)"
  by (rule delayDisplayTurnOff_existing [OF assms])

theorem delayDisplayTurnOff_knot_witness:
  "delayDisplayTurnOff (busy\<lparr>delayDisplayId := ID_FROM_INDEX 0\<rparr>) =
     snd (doSetProperties 1 (ID_FROM_INDEX 0)
       [(kIOPMAssertionLevelKey, CFNumber (of_int kIOPMAssertionLevelOn)),
        (kIOPMAssertionTimeoutKey, CFNumber (displayOffDelay (busy\<lparr>delayDisplayId := ID_FROM_INDEX 0\<rparr>)))]
       (busy\<lparr>delayDisplayId := ID_FROM_INDEX 0\<rparr>))"
proof -
  have "delayDisplayId (busy\<lparr>delayDisplayId := ID_FROM_INDEX 0\<rparr>) \<noteq> kIOPMNullAssertionID"
    by (simp add: ID_FROM_INDEX_def kIOPMNullAssertionID_def)
  from delayDisplayTurnOff_knot [OF this] show ?thesis by (simp add: busy_sel env0_def)
qed

section \<open>Requests that must not change anything\<close>

text \<open>
  C16: a request whose properties need an entitlement the caller does not hold is refused with
  \<open>kIOReturnNotPrivileged\<close> by each of the seven entry points that take properties from a
  client (creation and change over Mach messages and over XPC, and the three declarations of
  activity): no identifier but the one passed in is handed out, and nothing is changed.
\<close>

theorem unentitled_refused:
  assumes "\<not> callerIsEntitledToAssertion c (map_of kvs) s"
  shows "io_pm_assertion_create c (Some kvs) s = ((kIOReturnNotPrivileged, 0, False), s) \<and>
    io_pm_assertion_set_properties c aid (Some kvs) s = ((kIOReturnNotPrivileged, False, False), s) \<and>
    io_pm_declare_user_active c aid (Some kvs) s = ((kIOReturnNotPrivileged, aid, False), s) \<and>
    io_pm_declare_network_client_active c aid (Some kvs) s = ((kIOReturnNotPrivileged, aid, False), s) \<and>
    io_pm_declare_system_active c fl rv (Some kvs) s = ((kIOReturnNotPrivileged, 0, False), s) \<and>
    asyncAssertionCreate c (Some kvs) s = ((kIOReturnNotPrivileged, kIOPMNullAssertionID), s) \<and>
    asyncAssertionProperties c (Some kvs) s = (kIOReturnNotPrivileged, s)"
  using assms
  by (simp add: io_pm_assertion_create_def io_pm_assertion_set_properties_def io_pm_declare_user_active_def
      io_pm_declare_network_client_active_def io_pm_declare_system_active_def asyncAssertionCreate_def
      asyncAssertionProperties_def Let_def)

definition stranger :: caller where
  "stranger = \<lparr>callerPID = 300, auditTokenHasEntitlement = (\<lambda>_. False), callerIsRoot = True,
     callerIsAdmin = True, auditTokenIsRunningboardd = False\<rparr>"

theorem unentitled_refused_witness:
  "io_pm_assertion_create stranger (Some [(kIOPMAssertionTypeKey,
       CFString (TypeName kIOPMAssertionTypePreventUserIdleSystemSleep)),
     (kIOPMAssertionAppliesToLimitedPowerKey, CFBoolean True)]) boot =
   ((kIOReturnNotPrivileged, 0, False), boot)"
proof -
  have "\<not> callerIsEntitledToAssertion stranger (map_of [(kIOPMAssertionTypeKey,
       CFString (TypeName kIOPMAssertionTypePreventUserIdleSystemSleep)),
     (kIOPMAssertionAppliesToLimitedPowerKey, CFBoolean True)]) boot"
    by (simp add: callerIsEntitledToAssertion_def asks_def stranger_def Let_def)
  from unentitled_refused [OF this] show ?thesis by blast
qed

text \<open>
  An asynchronous creation that fails after it made the \<open>ProcessInfo\<close> of a new client (here:
  properties without a type) stores the connection in the structure \<open>doCreate\<close> has freed.
\<close>

lemma failed_async_create_uses_freed:
  "hd (trace (snd (asyncAssertionCreate stranger (Some []) boot))) = ProcessInfoUsedAfterFree 300"
  by code_simp

text \<open>
  Whatever is copied out for a client, the table is not changed; and the answer for an
  assertion that does not exist is success with no data, not \<open>kIOReturnNotFound\<close>.
\<close>

theorem copy_details_read_only:
  "core (snd (io_pm_assertion_copy_details c aid w ty scheduled repeating serialises s)) = core s"
  by (rule core_copy_details)

text \<open>
  The answer to \<open>kIOPMAssertionMIGCopyOneAssertionProperties\<close> for an identifier the caller
  does not own is success with no data: the \<open>kIOReturnNotFound\<close> of \<open>copyAssertionForID\<close> is
  overwritten.
\<close>

theorem copy_missing_succeeds:
  assumes "snd (lookupAssertion s (callerPID c) aid) = None"
  shows "fst (copyAssertionForID (callerPID c) aid s) = kIOReturnNotFound \<and>
    io_pm_assertion_copy_details c aid kIOPMAssertionMIGCopyOneAssertionProperties ty sc rp ok s =
      ((kIOReturnSuccess, None), s)"
  using assms
  by (cases "lookupAssertion s (callerPID c) aid")
    (simp add: copyAssertionForID_def io_pm_assertion_copy_details_def collect_def)

theorem copy_missing_succeeds_witness:
  "io_pm_assertion_copy_details stranger (ID_FROM_INDEX 0) kIOPMAssertionMIGCopyOneAssertionProperties
     None None None True busy = ((kIOReturnSuccess, None), busy)"
proof -
  have "snd (lookupAssertion busy (callerPID stranger) (ID_FROM_INDEX 0)) = None"
    by (simp add: lookupAssertion_def busy_sel stranger_def timed_assertion_def kMaxAssertions_def)
  from copy_missing_succeeds [OF this] show ?thesis by blast
qed

text \<open>
  The null identifier is not refused: it names the same slot as the identifier of index 0,
  so a client that releases \<open>kIOPMNullAssertionID\<close> releases its assertion in slot 0.
\<close>

theorem null_id_is_slot_0:
  "lookupAssertion s p kIOPMNullAssertionID = lookupAssertion s p (ID_FROM_INDEX 0) \<and>
   doRelease p kIOPMNullAssertionID s = doRelease p (ID_FROM_INDEX 0) s"
proof -
  have "lookupAssertion s p kIOPMNullAssertionID = lookupAssertion s p (ID_FROM_INDEX 0)"
    by (simp add: lookupAssertion_def INDEX_FROM_ID_def ID_FROM_INDEX_def kIOPMNullAssertionID_def)
  then show ?thesis by (simp add: doRelease_def)
qed

end
