(* ===== verification/RepeatingAutoWake.thy ===== *)
theory RepeatingAutoWake
  imports Prelude "HOL-Library.Signed_Division" "HOL-Library.Monad_Syntax"
begin

unbundle bit_operations_syntax

text \<open>
  Repeating power events (RepeatingAutoWake.c): the next day an event falls on and the event
  with the date filled in.  A result \<open>None\<close> of an operation in the option monad means that the
  call does not return.
\<close>

section \<open>Power events\<close>

datatype title =
    kIOPMAutoSleep
  | kIOPMAutoShutdown
  | kIOPMAutoRestart
  | kIOPMAutoWake
  | kIOPMAutoPowerOn
  | kIOPMAutoWakeOrPowerOn

text \<open>The value under the type key: one of the six names, another string, or no string.\<close>

datatype evType = EvTitle title | EvString string | EvNotString

text \<open>The value under the time key: a date, minutes after midnight (repeating events), or else.\<close>

datatype evTime = CFDateValue rat | CFNumberValue int | OtherValue

text \<open>
  The dictionary of an event.  \<open>ev_app\<close> is \<open>None\<close> when there is no application name (a value that
  is no string is replaced by the name of the caller as a missing one is, and where that has no
  name it is not told apart from a missing one), \<open>ev_leeway\<close>
  and \<open>ev_days\<close> are \<open>None\<close> when the value is not a number; \<open>ev_rest\<close> stands for the keys nothing
  here reads, which still count when two dictionaries are compared.
\<close>

record pevent =
  ev_time :: "evTime option"
  ev_type :: "evType option"
  ev_app :: "string option"
  ev_pid :: "int option"
  ev_leeway :: "int option"
  ev_days :: "int option"
  ev_visible :: bool
  ev_rest :: "(string \<times> string) list"

datatype entry = CFDictionary pevent | NotADictionary

text \<open>
  What the operations read from outside: the time now, its weekday (1 is Sunday), hour and
  minute in the Gregorian calendar, the absolute time of an hour and minute some days ahead,
  the sort of CoreFoundation under \<open>compareEvDates\<close>, whether the preferences file can be opened,
  locked and written, and the names of processes.
\<close>

record awEnv =
  CFAbsoluteTimeNow :: rat
  calendarWeekday :: int
  calendarHour :: int
  calendarMinute :: int
  calendarCompose :: "int \<Rightarrow> int \<Rightarrow> int \<Rightarrow> rat"
  CFArraySortValues :: "entry list \<Rightarrow> entry list"
  SCPreferencesCreated :: bool
  kSCStatusAccessError :: bool
  SCPreferencesLocked :: bool
  SCPreferencesCommitted :: "title \<Rightarrow> bool"
  repeatCommitted :: bool
  processName :: "int \<Rightarrow> string option"

section \<open>Days\<close>

definition is_valid_repeating_dictionary :: "entry option \<Rightarrow> bool" where
  "is_valid_repeating_dictionary v \<longleftrightarrow>
     (case v of
        None \<Rightarrow> True
      | Some NotADictionary \<Rightarrow> False
      | Some (CFDictionary e) \<Rightarrow>
          (case (ev_time e, ev_days e, ev_type e) of
             (Some (CFNumberValue _), Some _, Some (EvTitle _)) \<Rightarrow> True
           | _ \<Rightarrow> False))"

definition getRepeatingDictionaryMinutes :: "pevent \<Rightarrow> int" where
  "getRepeatingDictionaryMinutes e = (case ev_time e of Some (CFNumberValue n) \<Rightarrow> n | _ \<Rightarrow> 0)"

definition getRepeatingDictionaryDayMask :: "pevent \<Rightarrow> int" where
  "getRepeatingDictionaryDayMask e = (case ev_days e of Some n \<Rightarrow> n | None \<Rightarrow> 0)"

text \<open>The empty string, when there is no event or no type, is \<open>EvString ''''\<close>.\<close>

definition getRepeatingDictionaryType :: "pevent option \<Rightarrow> evType" where
  "getRepeatingDictionaryType v =
     (case v of
        None \<Rightarrow> EvString ''''
      | Some e \<Rightarrow>
          (case ev_type e of Some (EvTitle t) \<Rightarrow> EvTitle t | Some (EvString x) \<Rightarrow> EvString x
           | _ \<Rightarrow> EvString ''''))"

definition kAllowScheduleWindowSeconds :: u32 where
  "kAllowScheduleWindowSeconds = 5"

text \<open>The seconds are compared as unsigned 32-bit numbers.\<close>

definition upcomingToday :: "awEnv \<Rightarrow> pevent \<Rightarrow> int \<Rightarrow> bool" where
  "upcomingToday E e today =
     (if \<not> bit (getRepeatingDictionaryDayMask e) (nat (today - 1)) then False
      else
        let secondsToday = (word_of_int (60 * (calendarHour E * 60 + calendarMinute E)) :: u32);
            secondsScheduled = (word_of_int (60 * getRepeatingDictionaryMinutes e) :: u32)
        in secondsScheduled \<ge> secondsToday + kAllowScheduleWindowSeconds)"

text \<open>The loop that walks the week from tomorrow; it does not end on a mask without a day.\<close>

partial_function (option) nextDay :: "int \<Rightarrow> nat \<Rightarrow> nat option" where
  "nextDay dm check = (if bit dm check then Some check else nextDay dm ((check + 1) mod 7))"

definition daysUntil :: "awEnv \<Rightarrow> pevent \<Rightarrow> int \<Rightarrow> int option" where
  "daysUntil E e today =
     (let dm = getRepeatingDictionaryDayMask e in
      if dm = 0 then Some (- 1)
      else if upcomingToday E e today then Some 0
      else do {
        check \<leftarrow> nextDay dm (nat (today mod 7));
        let d = (int check - today + 1 + 7) mod 7 in Some (if d = 0 then 7 else d)
      })"

section \<open>The next occurrence\<close>

definition kIOPMRepeatingAppName :: string where
  "kIOPMRepeatingAppName = ''Repeating''"

definition repeatDict :: "pevent option \<Rightarrow> pevent option \<Rightarrow> title \<Rightarrow> pevent option" where
  "repeatDict powerOff powerOn t =
     (if t \<in> {kIOPMAutoSleep, kIOPMAutoShutdown, kIOPMAutoRestart} then powerOff
      else if t \<in> {kIOPMAutoPowerOn, kIOPMAutoWake} then powerOn
      else None)"

definition cfDayOfWeek :: "awEnv \<Rightarrow> int" where
  "cfDayOfWeek E = (if calendarWeekday E = 1 then 7 else calendarWeekday E - 1)"

definition copyNextRepeatingEvent ::
    "awEnv \<Rightarrow> pevent option \<Rightarrow> pevent option \<Rightarrow> title \<Rightarrow> pevent option option" where
  "copyNextRepeatingEvent E powerOff powerOn t =
     (case repeatDict powerOff powerOn t of
        None \<Rightarrow> Some None
      | Some e \<Rightarrow>
          let ty = getRepeatingDictionaryType (Some e) in
          if ty = EvTitle t \<or>
             ty = EvTitle kIOPMAutoWakeOrPowerOn \<and> t \<in> {kIOPMAutoPowerOn, kIOPMAutoWake}
          then do {
            days \<leftarrow> daysUntil E e (cfDayOfWeek E);
            let m = getRepeatingDictionaryMinutes e;
                tm = calendarCompose E days (m sdiv 60) (m smod 60)
            in Some (Some (e\<lparr>ev_time := Some (CFDateValue tm), ev_app := Some kIOPMRepeatingAppName\<rparr>))
          }
          else Some None)"

section \<open>The walk of the week\<close>

lemma nextDay_found:
  assumes "bit dm ((c + k) mod 7)" and "\<And>j. j < k \<Longrightarrow> \<not> bit dm ((c + j) mod 7)" and "c < 7"
  shows "nextDay dm c = Some ((c + k) mod 7)"
  using assms
proof (induction k arbitrary: c)
  case 0
  then show ?case by (simp add: nextDay.simps)
next
  case (Suc k)
  have "\<not> bit dm c" using Suc.prems(2) [of 0] Suc.prems(3) by simp
  moreover have "nextDay dm ((c + 1) mod 7) = Some (((c + 1) mod 7 + k) mod 7)"
  proof (rule Suc.IH)
    show "bit dm (((c + 1) mod 7 + k) mod 7)" using Suc.prems(1) by (simp add: mod_add_left_eq)
    show "\<not> bit dm (((c + 1) mod 7 + j) mod 7)" if "j < k" for j
      using Suc.prems(2) [of "Suc j"] that by (simp add: mod_add_left_eq)
  qed simp
  ultimately show ?case by (simp add: nextDay.simps [of dm c] mod_add_left_eq)
qed

end
