(* ===== verification/TimedQueue.thy ===== *)
theory TimedQueue
  imports Prelude
begin

text \<open>
  The contract of a queue of things to do that is kept in order of time: the timed list of an
  assertion type and the arrays of scheduled power events are two of them.  \<open>key\<close> is the time,
  \<open>ok\<close> holds of the elements that have one, \<open>ins\<close> is the insertion; what a client of such a queue relies on is proved once, under the two
  laws of the insertion.
\<close>

locale timed_queue =
  fixes ok :: "'a \<Rightarrow> bool" and key :: "'a \<Rightarrow> 'k::linorder" and ins :: "'a \<Rightarrow> 'a list \<Rightarrow> 'a list"
  assumes ins_mset: "mset (ins x q) = add_mset x (mset q)"
    and ins_sorted: "list_all ok (x # q) \<Longrightarrow> sorted (map key q) \<Longrightarrow> sorted (map key (ins x q))"
begin

lemma ins_set: "set (ins x q) = insert x (set q)"
  using arg_cong [OF ins_mset, of set_mset x q] by simp

lemma ins_length: "length (ins x q) = Suc (length q)"
  using arg_cong [OF ins_mset, of size x q] by simp

lemma fill_mset: "mset (fold ins xs q) = mset xs + mset q"
  by (induction xs arbitrary: q) (simp_all add: ins_mset)

lemma ins_ok: "list_all ok (x # q) \<Longrightarrow> list_all ok (ins x q)"
  by (simp add: list.pred_set ins_set)

lemma fill_sorted: "list_all ok (xs @ q) \<Longrightarrow> sorted (map key q) \<Longrightarrow> sorted (map key (fold ins xs q))"
proof (induction xs arbitrary: q)
  case (Cons x xs)
  then have "list_all ok (xs @ ins x q)" using ins_ok [of x q] by simp
  with Cons show ?case by (simp add: ins_sorted)
qed simp

lemma head_least: "sorted (map key (x # q)) \<Longrightarrow> y \<in> set (x # q) \<Longrightarrow> key x \<le> key y"
  by auto

lemma expired_prefix: "sorted (map key q) \<Longrightarrow> dropWhile (\<lambda>x. key x < now) q = filter (\<lambda>x. \<not> key x < now) q"
proof (induction q)
  case (Cons x q)
  show ?case
  proof (cases "key x < now")
    case False
    then have "\<forall>y \<in> set q. \<not> key y < now" using Cons.prems by auto
    then have "filter (\<lambda>x. \<not> key x < now) q = q" by (simp add: filter_id_conv)
    then show ?thesis using False by simp
  qed (use Cons in simp)
qed simp

lemma drop_sorted: "sorted (map key q) \<Longrightarrow> sorted (map key (dropWhile P q))"
  by (induction q) auto

lemma remove_sorted: "sorted (map key (xs @ x # ys)) \<Longrightarrow> sorted (map key (xs @ ys))"
  by (simp add: sorted_append)

end

text \<open>The walk of \<open>insertByTimeout\<close>, for any deadlines.\<close>

interpretation by_deadline: timed_queue "\<lambda>_. True" k "insert_by k" for k :: "'a \<Rightarrow> 'k::linorder"
  by unfold_locales (simp_all add: sorted_insert_by)

end
