(* ===== verification/AutoWake.thy ===== *)
theory AutoWake
  imports RepeatingAutoWake AssertionClient TimedQueue "HOL-Library.Sublist"
begin

unbundle bit_operations_syntax

text \<open>
  Scheduled power events (AutoWakeScheduler.c): the six arrays of events, the timers, the
  requests that schedule and cancel, and the purge of past events.  An operation that computes
  the next event or compares names is in the option monad; \<open>None\<close> means that the call does not
  return: the walk over the days of a repeating event does not end, a callout is handed a null
  event, or \<open>CFEqual\<close> is handed a missing application name.
\<close>

section \<open>State\<close>

text \<open>
  A \<open>PowerEventBehavior\<close>: the array (\<open>None\<close> is the null pointer), the event the timer is armed
  for, and the timer, as the seconds it was armed with.  The callouts and \<open>sharedEvents\<close>, set
  once by \<open>AutoWake_prime\<close>, are cases on the title.
\<close>

record PowerEventBehavior =
  evArray :: "entry list option"
  currentEvent :: "pevent option"
  evTimer :: "rat option"

datatype awEffect =
    ScheduleImmediate "rat option"
  | AskNicelyThenSleepSystem
  | AskNicelyThenShutdownSystem
  | AskNicelyThenRestartSystem
  | UserVisiblePowerEventNotification
  | DispatchAssertion internalBlock
  | CreateIdleSleepAssertion int

record aw =
  behaviors :: "title \<Rightarrow> PowerEventBehavior"
  activeEventCnt :: u32
  wakePurgeAllowed :: bool
  purgePrevent_ts :: rat
  repeatingPowerOff :: "pevent option"
  repeatingPowerOn :: "pevent option"
  disk :: "title \<Rightarrow> entry list"
  awEffects :: "awEffect list"

definition all_titles :: "title list" where
  "all_titles = [kIOPMAutoSleep, kIOPMAutoShutdown, kIOPMAutoRestart, kIOPMAutoWake,
     kIOPMAutoPowerOn, kIOPMAutoWakeOrPowerOn]"

definition upd_behavior :: "title \<Rightarrow> (PowerEventBehavior \<Rightarrow> PowerEventBehavior) \<Rightarrow> aw \<Rightarrow> aw" where
  "upd_behavior b f s = s\<lparr>behaviors := (behaviors s)(b := f (behaviors s b))\<rparr>"

definition awEmit :: "awEffect \<Rightarrow> aw \<Rightarrow> aw" where
  "awEmit e s = s\<lparr>awEffects := awEffects s @ [e]\<rparr>"

definition sharedEvents :: "title \<Rightarrow> bool" where
  "sharedEvents b \<longleftrightarrow> b \<in> {kIOPMAutoWake, kIOPMAutoPowerOn}"

definition kIOPMMaxScheduledEntries :: u32 where
  "kIOPMMaxScheduledEntries = 1000"

section \<open>Dates\<close>

definition evDate :: "pevent \<Rightarrow> rat option" where
  "evDate e = (case ev_time e of Some (CFDateValue d) \<Rightarrow> Some d | _ \<Rightarrow> None)"

datatype CFComparisonResult = kCFCompareLessThan | kCFCompareEqualTo | kCFCompareGreaterThan

definition compareEvDates :: "entry \<Rightarrow> entry \<Rightarrow> CFComparisonResult" where
  "compareEvDates a1 a2 =
     (case a1 of
        NotADictionary \<Rightarrow> kCFCompareGreaterThan
      | CFDictionary e1 \<Rightarrow>
          (case a2 of
             NotADictionary \<Rightarrow> kCFCompareLessThan
           | CFDictionary e2 \<Rightarrow>
               (case evDate e1 of
                  None \<Rightarrow> kCFCompareGreaterThan
                | Some d1 \<Rightarrow>
                    (case evDate e2 of
                       None \<Rightarrow> kCFCompareLessThan
                     | Some d2 \<Rightarrow>
                         if d1 < d2 then kCFCompareLessThan
                         else if d1 = d2 then kCFCompareEqualTo
                         else kCFCompareGreaterThan))))"

definition isEntryValidAndFuturistic :: "awEnv \<Rightarrow> entry \<Rightarrow> bool" where
  "isEntryValidAndFuturistic E v \<longleftrightarrow>
     (case v of
        NotADictionary \<Rightarrow> False
      | CFDictionary e \<Rightarrow> (case evDate e of None \<Rightarrow> False | Some d \<Rightarrow> \<not> d < CFAbsoluteTimeNow E))"

definition getWakeScheduleTime :: "pevent \<Rightarrow> rat" where
  "getWakeScheduleTime e =
     (case evDate e of
        None \<Rightarrow> 0
      | Some d \<Rightarrow>
          let leeway = (case ev_leeway e of Some n \<Rightarrow> n | None \<Rightarrow> 0)
          in d + of_int (if leeway < 0 then 0 else leeway))"

section \<open>Removal\<close>

text \<open>
  \<open>CFEqual\<close> of two application names: a null argument halts the process, which is \<open>None\<close>, as is
  the lookup of the name in an entry that is no dictionary.
\<close>

definition CFEqualNames :: "string option \<Rightarrow> string option \<Rightarrow> bool option" where
  "CFEqualNames a b =
     (case a of
        None \<Rightarrow> None
      | Some x \<Rightarrow> (case b of None \<Rightarrow> None | Some y \<Rightarrow> Some (x = y)))"

definition hasAppName :: "string \<Rightarrow> entry \<Rightarrow> bool option" where
  "hasAppName app v =
     (case v of CFDictionary e \<Rightarrow> CFEqualNames (ev_app e) (Some app) | NotADictionary \<Rightarrow> None)"

text \<open>The walk meets every entry of the array, so one without a name is always met.\<close>

definition removeEventsByAppName :: "title \<Rightarrow> string \<Rightarrow> aw \<Rightarrow> aw option" where
  "removeEventsByAppName b app s =
     (case evArray (behaviors s b) of
        None \<Rightarrow> Some s
      | Some l \<Rightarrow>
          if list_ex (\<lambda>v. hasAppName app v = None) l then None
          else
            let gone = filter (\<lambda>v. hasAppName app v = Some True) l;
                current = currentEvent (behaviors s b)
            in Some ((upd_behavior b (\<lambda>B. B\<lparr>evArray := Some (filter (\<lambda>v. hasAppName app v \<noteq> Some True) l),
                  currentEvent := (if current \<noteq> None \<and> CFDictionary (the current) \<in> set gone
                                   then None else current)\<rparr>) s)
               \<lparr>activeEventCnt := activeEventCnt s - of_nat (length gone)\<rparr>))"

text \<open>The loop of \<open>purgePastEvents\<close>: entries are taken off the front while they are past or bogus.\<close>

fun purgeLoop :: "awEnv \<Rightarrow> entry list \<Rightarrow> u32 \<Rightarrow> entry list \<times> u32" where
  "purgeLoop E [] n = ([], n)"
| "purgeLoop E (v # vs) n =
     (if isEntryValidAndFuturistic E v then (v # vs, n) else purgeLoop E vs (n - 1))"

definition purgePastEvents :: "awEnv \<Rightarrow> title \<Rightarrow> aw \<Rightarrow> aw" where
  "purgePastEvents E b s =
     (if \<not> wakePurgeAllowed s \<and> b = kIOPMAutoWake then s
      else case evArray (behaviors s b) of
        None \<Rightarrow> s
      | Some l \<Rightarrow>
          (case purgeLoop E l (activeEventCnt s) of
             (l', n) \<Rightarrow> (upd_behavior b (\<lambda>B. B\<lparr>evArray := Some l'\<rparr>) s)\<lparr>activeEventCnt := n\<rparr>))"

definition sameAppName :: "pevent \<Rightarrow> pevent \<Rightarrow> bool option" where
  "sameAppName e c = CFEqualNames (ev_app e) (ev_app c)"

text \<open>
  The loop of \<open>removeEvent\<close>: the first entry with the date and the application name of the event,
  with the array without it; the loop stops at the first later date.  \<open>None\<close>: an entry with the
  date is met, and it or the event has no name; \<open>Some None\<close>: there is no such entry.
\<close>

definition keepEntry :: "entry \<Rightarrow> (entry \<times> entry list) option \<Rightarrow> (entry \<times> entry list) option" where
  "keepEntry v = map_option (apsnd ((#) v))"

fun removeLoop :: "pevent \<Rightarrow> entry list \<Rightarrow> (entry \<times> entry list) option option" where
  "removeLoop e [] = Some None"
| "removeLoop e (v # vs) =
     (case compareEvDates (CFDictionary e) v of
        kCFCompareLessThan \<Rightarrow> Some None
      | kCFCompareEqualTo \<Rightarrow>
          (case v of
             CFDictionary c \<Rightarrow>
               do {
                 same \<leftarrow> sameAppName e c;
                 if same then Some (Some (v, vs)) else map_option (keepEntry v) (removeLoop e vs)
               }
           | NotADictionary \<Rightarrow> map_option (keepEntry v) (removeLoop e vs))
      | kCFCompareGreaterThan \<Rightarrow> map_option (keepEntry v) (removeLoop e vs))"

definition forgetCurrent :: "entry \<Rightarrow> aw \<Rightarrow> aw" where
  "forgetCurrent v s =
     s\<lparr>behaviors := (\<lambda>j. if map_option CFDictionary (currentEvent (behaviors s j)) = Some v
                        then (behaviors s j)\<lparr>currentEvent := None\<rparr> else behaviors s j)\<rparr>"

definition notifyIfVisible :: "pevent \<Rightarrow> aw \<Rightarrow> aw" where
  "notifyIfVisible e s = (if ev_visible e then awEmit UserVisiblePowerEventNotification s else s)"

definition takeOut :: "title \<Rightarrow> entry \<Rightarrow> entry list \<Rightarrow> aw \<Rightarrow> aw" where
  "takeOut b v l' s =
     (let s1 = forgetCurrent v s;
          s2 = (case v of CFDictionary c \<Rightarrow> notifyIfVisible c s1 | NotADictionary \<Rightarrow> s1)
      in (upd_behavior b (\<lambda>B. B\<lparr>evArray := Some l'\<rparr>) s2)\<lparr>activeEventCnt := activeEventCnt s2 - 1\<rparr>)"

definition removeEvent :: "title \<Rightarrow> pevent \<Rightarrow> aw \<Rightarrow> (bool \<times> aw) option" where
  "removeEvent b e s =
     (case evArray (behaviors s b) of
        None \<Rightarrow> Some (False, s)
      | Some l \<Rightarrow>
          do {
            found \<leftarrow> removeLoop e l;
            Some (case found of
                    None \<Rightarrow> (False, s)
                  | Some (v, l') \<Rightarrow> (True, takeOut b v l' s))
          })"

section \<open>The next event\<close>

definition copyMergedEventArray :: "awEnv \<Rightarrow> entry list option \<Rightarrow> entry list option \<Rightarrow> entry list option" where
  "copyMergedEventArray E a b =
     (case (a, b) of
        (None, None) \<Rightarrow> None
      | (None, Some y) \<Rightarrow> Some y
      | (Some x, None) \<Rightarrow> Some x
      | (Some x, Some y) \<Rightarrow> Some (CFArraySortValues E (x @ y)))"

definition runtimeQueue :: "awEnv \<Rightarrow> title \<Rightarrow> aw \<Rightarrow> entry list option" where
  "runtimeQueue E b s =
     (if sharedEvents b
      then copyMergedEventArray E (evArray (behaviors s b)) (evArray (behaviors s kIOPMAutoWakeOrPowerOn))
      else evArray (behaviors s b))"

definition firstUpcoming :: "awEnv \<Rightarrow> entry list option \<Rightarrow> pevent option" where
  "firstUpcoming E arr =
     (case arr of
        None \<Rightarrow> None
      | Some l \<Rightarrow>
          (case dropWhile (\<lambda>v. \<not> isEntryValidAndFuturistic E v) l of
             CFDictionary e # _ \<Rightarrow> Some e
           | _ \<Rightarrow> None))"

definition entryOf :: "pevent option \<Rightarrow> entry" where
  "entryOf e = (case e of Some x \<Rightarrow> CFDictionary x | None \<Rightarrow> NotADictionary)"

definition copyEarliestUpcoming :: "awEnv \<Rightarrow> title \<Rightarrow> aw \<Rightarrow> pevent option option" where
  "copyEarliestUpcoming E b s =
     (let result = firstUpcoming E (runtimeQueue E b s) in
      do {
        repeatEvent \<leftarrow> copyNextRepeatingEvent E (repeatingPowerOff s) (repeatingPowerOn s) b;
        Some (case repeatEvent of
                None \<Rightarrow> result
              | Some r \<Rightarrow>
                  if compareEvDates (CFDictionary r) (entryOf result) \<in> {kCFCompareLessThan, kCFCompareEqualTo}
                  then Some r else result)
      })"

text \<open>The bounds of the timer: more than a millisecond, and \<open>INT64_MAX / NSEC_PER_SEC\<close> seconds.\<close>

definition armable :: "rat \<Rightarrow> bool" where
  "armable delta \<longleftrightarrow> delta > 1 / 1000 \<and> delta < of_int ((2 ^ 63 - 1) div 1000000000)"

definition schedulePowerEvent :: "awEnv \<Rightarrow> title \<Rightarrow> aw \<Rightarrow> aw option" where
  "schedulePowerEvent E b s =
     (let s1 = upd_behavior b (\<lambda>B. B\<lparr>evTimer := None\<rparr>) s in
      do {
        upcoming \<leftarrow> copyEarliestUpcoming E b s1;
        Some (case upcoming of
                None \<Rightarrow> (if b = kIOPMAutoPowerOn then awEmit (ScheduleImmediate None) s1 else s1)
              | Some e \<Rightarrow>
                  let s2 = (if b = kIOPMAutoPowerOn then awEmit (ScheduleImmediate (evDate e)) s1 else s1);
                      s3 = upd_behavior b (\<lambda>B. B\<lparr>currentEvent := Some e\<rparr>) s2
                  in (case evDate e of
                        None \<Rightarrow> s3
                      | Some d \<Rightarrow>
                          let delta = d - CFAbsoluteTimeNow E in
                          if armable delta then upd_behavior b (\<lambda>B. B\<lparr>evTimer := Some delta\<rparr>) s3 else s3))
      })"

text \<open>The re-scheduling after a change of the events of a title.\<close>

definition schedulePowerEventTitle :: "awEnv \<Rightarrow> title \<Rightarrow> aw \<Rightarrow> aw option" where
  "schedulePowerEventTitle E t s =
     (if t = kIOPMAutoWakeOrPowerOn then do {
        s1 \<leftarrow> schedulePowerEvent E kIOPMAutoWake s;
        schedulePowerEvent E kIOPMAutoPowerOn s1
      }
      else schedulePowerEvent E t s)"

definition schedulePowerEventType :: "awEnv \<Rightarrow> evType \<Rightarrow> aw \<Rightarrow> aw option" where
  "schedulePowerEventType E ty s = (case ty of EvTitle t \<Rightarrow> schedulePowerEventTitle E t s | _ \<Rightarrow> Some s)"

end
