(* ===== verification/AutoWakeRequests.thy ===== *)
theory AutoWakeRequests
  imports AutoWake
begin

unbundle bit_operations_syntax

text \<open>
  The operations of AutoWakeScheduler.c and RepeatingAutoWake.c that other parts call: the
  start, sleep and wake notifications, timers, the requests of clients and the queries.
\<close>

section \<open>Timers\<close>

definition wakeTimerExpiredCallout :: "pevent option \<Rightarrow> aw \<Rightarrow> aw option" where
  "wakeTimerExpiredCallout v s =
     (case v of
        None \<Rightarrow> None
      | Some e \<Rightarrow>
          let alarm = (case ev_app e of Some a \<Rightarrow> sublist ''com.apple.alarm'' a | None \<Rightarrow> False);
              d = (if alarm then
                     IOPMAssertionDescriptionCreate kIOPMAssertInternalPreventSleep
                       ''com.apple.powermanagement.wakeschedule'' None
                       (Some ''Waking device for scheduled wake'') None 5
                       (Some kIOPMAssertionTimeoutActionRelease)
                   else
                     IOPMAssertionDescriptionCreate kIOPMAssertionUserIsActive
                       ''com.apple.powermanagement.wakeschedule'' None
                       (Some ''Waking screen for scheduled system wake'') None 2
                       (Some kIOPMAssertionTimeoutActionRelease))
          in (case InternalCreateAssertion (Some d) of
                (_, Some blk) \<Rightarrow> Some (awEmit (DispatchAssertion blk) s)
              | (_, None) \<Rightarrow> Some s))"

definition minEventLeeway :: rat where
  "minEventLeeway = 5"

definition sleepTimerExpiredCallout :: "awEnv \<Rightarrow> pevent option \<Rightarrow> aw \<Rightarrow> aw option" where
  "sleepTimerExpiredCallout E v s =
     (case v of
        None \<Rightarrow> None
      | Some e \<Rightarrow>
          (case evDate e of
             None \<Rightarrow> None
           | Some d \<Rightarrow>
               Some (if d + minEventLeeway < CFAbsoluteTimeNow E then s else awEmit AskNicelyThenSleepSystem s)))"

definition timerExpirationCallout :: "awEnv \<Rightarrow> title \<Rightarrow> pevent option \<Rightarrow> aw \<Rightarrow> aw option" where
  "timerExpirationCallout E b v s =
     (case b of
        kIOPMAutoWake \<Rightarrow> wakeTimerExpiredCallout v s
      | kIOPMAutoSleep \<Rightarrow> sleepTimerExpiredCallout E v s
      | kIOPMAutoShutdown \<Rightarrow> Some (awEmit AskNicelyThenShutdownSystem s)
      | kIOPMAutoRestart \<Rightarrow> Some (awEmit AskNicelyThenRestartSystem s)
      | _ \<Rightarrow> Some s)"

definition handleTimerExpiration :: "awEnv \<Rightarrow> title \<Rightarrow> aw \<Rightarrow> aw option" where
  "handleTimerExpiration E b s =
     (let s1 = upd_behavior b (\<lambda>B. B\<lparr>evTimer := None\<rparr>) s in
      do {
        s2 \<leftarrow> timerExpirationCallout E b (currentEvent (behaviors s1 b)) s1;
        schedulePowerEvent E b (upd_behavior b (\<lambda>B. B\<lparr>currentEvent := None\<rparr>) s2)
      })"

section \<open>Start, sleep and wake\<close>

fun overTitles :: "(title \<Rightarrow> aw \<Rightarrow> aw option) \<Rightarrow> title list \<Rightarrow> aw \<Rightarrow> aw option" where
  "overTitles f [] s = Some s"
| "overTitles f (b # bs) s = do { s1 \<leftarrow> f b s; overTitles f bs s1 }"

definition copyScheduledPowerChangeArrays :: "awEnv \<Rightarrow> aw \<Rightarrow> aw" where
  "copyScheduledPowerChangeArrays E s =
     (if \<not> SCPreferencesCreated E then s
      else s\<lparr>behaviors := (\<lambda>b. (behaviors s b)\<lparr>evArray := (if disk s b = [] then None else Some (disk s b))\<rparr>),
             activeEventCnt := of_nat (sum_list (map (\<lambda>b. length (disk s b)) all_titles))\<rparr>)"

text \<open>\<open>off\<close> and \<open>on\<close> are the repeating events of the preferences file.\<close>

definition copyScheduledRepeatPowerEvents :: "awEnv \<Rightarrow> pevent option \<Rightarrow> pevent option \<Rightarrow> aw \<Rightarrow> aw" where
  "copyScheduledRepeatPowerEvents E off on s =
     (if \<not> SCPreferencesCreated E then s
      else s\<lparr>repeatingPowerOff := (case off of Some e \<Rightarrow> Some e | None \<Rightarrow> repeatingPowerOff s),
             repeatingPowerOn := (case on of Some e \<Rightarrow> Some e | None \<Rightarrow> repeatingPowerOn s)\<rparr>)"

definition primeTitle :: "awEnv \<Rightarrow> title \<Rightarrow> aw \<Rightarrow> aw option" where
  "primeTitle E b s =
     do {
       s1 \<leftarrow> removeEventsByAppName b kIOPMRepeatingAppName (purgePastEvents E b s);
       if b \<noteq> kIOPMAutoWakeOrPowerOn then schedulePowerEvent E b s1 else Some s1
     }"

definition AutoWake_prime :: "awEnv \<Rightarrow> pevent option \<Rightarrow> pevent option \<Rightarrow> aw \<Rightarrow> aw option" where
  "AutoWake_prime E off on s =
     (let s1 = s\<lparr>behaviors := (\<lambda>_. \<lparr>evArray = None, currentEvent = None, evTimer = None\<rparr>)\<rparr>;
          s2 = copyScheduledRepeatPowerEvents E off on (copyScheduledPowerChangeArrays E s1)
      in overTitles (primeTitle E) all_titles s2)"

text \<open>The statics at the start of the process; \<open>d\<close> is the preferences file.\<close>

definition awLoaded :: "(title \<Rightarrow> entry list) \<Rightarrow> aw" where
  "awLoaded d = \<lparr>behaviors = (\<lambda>_. \<lparr>evArray = None, currentEvent = None, evTimer = None\<rparr>),
     activeEventCnt = 0, wakePurgeAllowed = True, purgePrevent_ts = 0, repeatingPowerOff = None,
     repeatingPowerOn = None, disk = d, awEffects = []\<rparr>"

datatype capabilityChange = SystemDidWake | SystemWillSleep | OtherCapabilityChange

definition wakeTitle :: "awEnv \<Rightarrow> title \<Rightarrow> aw \<Rightarrow> aw option" where
  "wakeTitle E b s =
     (let s1 = purgePastEvents E b s
      in if b \<noteq> kIOPMAutoWakeOrPowerOn then schedulePowerEvent E b s1 else Some s1)"

definition AutoWakeCapabilitiesNotification :: "awEnv \<Rightarrow> capabilityChange \<Rightarrow> aw \<Rightarrow> aw option" where
  "AutoWakeCapabilitiesNotification E c s =
     (case c of
        SystemDidWake \<Rightarrow> overTitles (wakeTitle E) all_titles s
      | SystemWillSleep \<Rightarrow> schedulePowerEvent E kIOPMAutoWake s
      | OtherCapabilityChange \<Rightarrow> Some s)"

definition AutoWakeCalendarChange :: "awEnv \<Rightarrow> aw \<Rightarrow> aw option" where
  "AutoWakeCalendarChange E s =
     overTitles (\<lambda>b s. if b \<noteq> kIOPMAutoWakeOrPowerOn then schedulePowerEvent E b s else Some s) all_titles s"

section \<open>The preferences file\<close>

text \<open>The result of \<open>createSCSession\<close>, from the effective user of the request.\<close>

definition createSCSession :: "awEnv \<Rightarrow> int \<Rightarrow> bool \<Rightarrow> IOReturn" where
  "createSCSession E euid lock =
     (if euid \<noteq> 0 then kIOReturnNotPrivileged
      else if \<not> SCPreferencesCreated E then
        (if kSCStatusAccessError E then kIOReturnNotPrivileged else kIOReturnError)
      else if lock \<and> \<not> SCPreferencesLocked E then kIOReturnError
      else kIOReturnSuccess)"

text \<open>
  \<open>updateToDisk\<close>: the value of the title is set and the change committed, or the file stays as
  it is (a null array cannot be set).
\<close>

definition updateToDisk :: "awEnv \<Rightarrow> title \<Rightarrow> aw \<Rightarrow> IOReturn \<times> aw" where
  "updateToDisk E t s =
     (case evArray (behaviors s t) of
        None \<Rightarrow> (kIOReturnError, s)
      | Some l \<Rightarrow>
          if SCPreferencesCommitted E t then (kIOReturnSuccess, s\<lparr>disk := (disk s)(t := l)\<rparr>)
          else (kIOReturnError, s))"

section \<open>Requests\<close>

definition addEvent :: "awEnv \<Rightarrow> title \<Rightarrow> pevent \<Rightarrow> aw \<Rightarrow> aw" where
  "addEvent E b e s =
     (case evArray (behaviors s b) of
        Some _ \<Rightarrow>
          let s1 = purgePastEvents E b s;
              l = (case evArray (behaviors s1 b) of Some l \<Rightarrow> l | None \<Rightarrow> [])
          in (upd_behavior b (\<lambda>B. B\<lparr>evArray := Some (CFArraySortValues E (l @ [CFDictionary e]))\<rparr>) s1)
               \<lparr>activeEventCnt := activeEventCnt s1 + 1\<rparr>
      | None \<Rightarrow>
          (upd_behavior b (\<lambda>B. B\<lparr>evArray := Some [CFDictionary e]\<rparr>) s)
            \<lparr>activeEventCnt := activeEventCnt s + 1\<rparr>)"

fun removeAllLoop :: "awEnv \<Rightarrow> title list \<Rightarrow> aw \<Rightarrow> (IOReturn \<times> aw) option" where
  "removeAllLoop E [] s = Some (kIOReturnSuccess, s\<lparr>activeEventCnt := 0\<rparr>)"
| "removeAllLoop E (b # bs) s =
     (case evArray (behaviors s b) of
        None \<Rightarrow> removeAllLoop E bs s
      | Some _ \<Rightarrow>
          (case updateToDisk E b (upd_behavior b (\<lambda>B. B\<lparr>currentEvent := None, evArray := Some []\<rparr>) s) of
             (r, s1) \<Rightarrow>
               if r \<noteq> kIOReturnSuccess then Some (kIOReturnError, s1)
               else do {
                 s2 \<leftarrow> schedulePowerEventTitle E b (upd_behavior b (\<lambda>B. B\<lparr>evArray := None\<rparr>) s1);
                 removeAllLoop E bs s2
               }))"

definition removeAllEvents :: "awEnv \<Rightarrow> int \<Rightarrow> aw \<Rightarrow> (IOReturn \<times> aw) option" where
  "removeAllEvents E euid s =
     (let r = createSCSession E euid True in
      if r \<noteq> kIOReturnSuccess then Some (r, s) else removeAllLoop E all_titles s)"

datatype powerEventAction =
    kIOPMScheduleEvent
  | kIOPMCancelScheduledEvent
  | kIOPMCancelAllScheduledEvents
  | OtherPowerEventAction

text \<open>
  The sender of a request: its user and pid, and whether it holds the wake-request
  entitlement, which stands in for root.
\<close>

record awCaller =
  callerEUID :: int
  callerProc :: int
  wakeRequestEntitled :: bool

definition tagEvent :: "awEnv \<Rightarrow> awCaller \<Rightarrow> pevent \<Rightarrow> pevent" where
  "tagEvent E c e =
     (let e1 = (if ev_app e = None \<or> ev_app e = Some '''' then
                  (case processName E (callerProc c) of Some n \<Rightarrow> e\<lparr>ev_app := Some n\<rparr> | None \<Rightarrow> e)
                else e)
      in e1\<lparr>ev_pid := Some (callerProc c)\<rparr>)"

definition scheduleOrCancel :: "awEnv \<Rightarrow> powerEventAction \<Rightarrow> title \<Rightarrow> pevent \<Rightarrow> aw \<Rightarrow> (IOReturn \<times> aw) option" where
  "scheduleOrCancel E action t e s =
     (case action of
        kIOPMScheduleEvent \<Rightarrow>
          (case updateToDisk E t (addEvent E t e s) of
             (r, s1) \<Rightarrow>
               if r \<noteq> kIOReturnSuccess then map_option (\<lambda>fs. (r, snd fs)) (removeEvent t e s1)
               else map_option (Pair kIOReturnSuccess) (schedulePowerEventTitle E t (notifyIfVisible e s1)))
      | kIOPMCancelScheduledEvent \<Rightarrow>
          (case removeEvent t e s of
             None \<Rightarrow> None
           | Some (found, s1) \<Rightarrow>
               if \<not> found then Some (kIOReturnNotFound, s1)
               else map_option (Pair kIOReturnSuccess)
                      (schedulePowerEventTitle E t (snd (updateToDisk E t s1))))
      | _ \<Rightarrow> map_option (Pair kIOReturnSuccess) (schedulePowerEventTitle E t s))"

text \<open>\<open>package\<close> is the dictionary the request decodes to, if it does.\<close>

definition io_pm_schedule_power_event ::
    "awEnv \<Rightarrow> awCaller \<Rightarrow> pevent option \<Rightarrow> powerEventAction \<Rightarrow> aw \<Rightarrow> (IOReturn \<times> aw) option" where
  "io_pm_schedule_power_event E c package action s =
     (if activeEventCnt s \<ge> kIOPMMaxScheduledEntries then Some (kIOReturnNoSpace, s)
      else if action = kIOPMCancelAllScheduledEvents then removeAllEvents E (callerEUID c) s
      else case package of
        None \<Rightarrow> Some (kIOReturnBadArgument, s)
      | Some e0 \<Rightarrow>
          let e = tagEvent E c e0 in
          (case ev_type e of
             Some (EvTitle t) \<Rightarrow>
               let r = createSCSession E (if wakeRequestEntitled c then 0 else callerEUID c) True in
               if r \<noteq> kIOReturnSuccess then Some (r, s)
               else scheduleOrCancel E action t e s
           | _ \<Rightarrow> Some (kIOReturnBadArgument, s)))"

text \<open>Requests for repeating events; \<open>off\<close> and \<open>on\<close> are the two values of the package.\<close>

definition updateRepeatEventsOnDisk :: "awEnv \<Rightarrow> IOReturn" where
  "updateRepeatEventsOnDisk E = (if repeatCommitted E then kIOReturnSuccess else kIOReturnError)"

definition io_pm_schedule_repeat_event ::
    "awEnv \<Rightarrow> awCaller \<Rightarrow> (pevent option \<times> pevent option) option \<Rightarrow> aw \<Rightarrow> (IOReturn \<times> aw) option" where
  "io_pm_schedule_repeat_event E c package s =
     (case package of
        None \<Rightarrow> Some (kIOReturnBadArgument, s)
      | Some (off, on) \<Rightarrow>
          if \<not> is_valid_repeating_dictionary (map_option CFDictionary off) \<or>
             \<not> is_valid_repeating_dictionary (map_option CFDictionary on)
          then Some (kIOReturnBadArgument, s)
          else
            let r = createSCSession E (callerEUID c) True;
                prevOff = getRepeatingDictionaryType (repeatingPowerOff s);
                prevOn = getRepeatingDictionaryType (repeatingPowerOn s);
                newOff = getRepeatingDictionaryType off;
                newOn = getRepeatingDictionaryType on;
                s1 = s\<lparr>repeatingPowerOff := off, repeatingPowerOn := on\<rparr>;
                w = updateRepeatEventsOnDisk E
            in if r \<noteq> kIOReturnSuccess then Some (r, s)
               else if w \<noteq> kIOReturnSuccess then Some (w, s1)
               else do {
                 s2 \<leftarrow> schedulePowerEventType E prevOff s1;
                 s3 \<leftarrow> schedulePowerEventType E prevOn s2;
                 s4 \<leftarrow> (if prevOff \<noteq> newOff then schedulePowerEventType E newOff s3 else Some s3);
                 s5 \<leftarrow> (if prevOn \<noteq> newOn then schedulePowerEventType E newOn s4 else Some s4);
                 Some (kIOReturnSuccess, s5)
               })"

definition io_pm_cancel_repeat_events :: "awEnv \<Rightarrow> awCaller \<Rightarrow> aw \<Rightarrow> (IOReturn \<times> aw) option" where
  "io_pm_cancel_repeat_events E c s =
     (let r = createSCSession E (callerEUID c) True;
          off = getRepeatingDictionaryType (repeatingPowerOff s);
          on = getRepeatingDictionaryType (repeatingPowerOn s);
          s1 = s\<lparr>repeatingPowerOff := None, repeatingPowerOn := None\<rparr>;
          w = updateRepeatEventsOnDisk E
      in if r \<noteq> kIOReturnSuccess then Some (r, s)
         else if w \<noteq> kIOReturnSuccess then Some (w, s1)
         else do {
           s2 \<leftarrow> schedulePowerEventType E off s1;
           s3 \<leftarrow> schedulePowerEventType E on s2;
           Some (kIOReturnSuccess, s3)
         })"

section \<open>Queries\<close>

definition copyScheduledPowerEvents :: "aw \<Rightarrow> entry list" where
  "copyScheduledPowerEvents s =
     concat (map (\<lambda>b. case evArray (behaviors s b) of Some l \<Rightarrow> l | None \<Rightarrow> []) all_titles)"

definition copyRepeatPowerEvents :: "aw \<Rightarrow> pevent option \<times> pevent option" where
  "copyRepeatPowerEvents s = (repeatingPowerOn s, repeatingPowerOff s)"

text \<open>The loop of \<open>copyEarliestEvent\<close>: the earliest schedule time that is not past.\<close>

definition earliestStep :: "awEnv \<Rightarrow> entry \<Rightarrow> pevent option \<times> rat \<Rightarrow> pevent option \<times> rat" where
  "earliestStep E v et =
     (case v of
        NotADictionary \<Rightarrow> et
      | CFDictionary e \<Rightarrow>
          let w = getWakeScheduleTime e in
          if w = 0 \<or> w < CFAbsoluteTimeNow E then et
          else if snd et = 0 \<or> w < snd et then (Some e, w) else et)"

definition copyEarliestEvent :: "awEnv \<Rightarrow> title \<Rightarrow> aw \<Rightarrow> pevent option option" where
  "copyEarliestEvent E b s =
     (let l = (case runtimeQueue E b s of Some l \<Rightarrow> l | None \<Rightarrow> []);
          et = fold (earliestStep E) l (None, 0)
      in do {
        repeatEvent \<leftarrow> copyNextRepeatingEvent E (repeatingPowerOff s) (repeatingPowerOn s) b;
        Some (case repeatEvent of
                None \<Rightarrow> fst et
              | Some r \<Rightarrow>
                  let w = getWakeScheduleTime r in
                  if w \<noteq> 0 \<and> (snd et = 0 \<or> w < snd et) then Some r else fst et)
      })"

definition copyEarliestShutdownRestartEvent :: "awEnv \<Rightarrow> aw \<Rightarrow> pevent option option" where
  "copyEarliestShutdownRestartEvent E s =
     do {
       shut \<leftarrow> copyEarliestEvent E kIOPMAutoShutdown s;
       restart \<leftarrow> copyEarliestEvent E kIOPMAutoRestart s;
       Some (case (shut, restart) of
               (Some a, Some b) \<Rightarrow>
                 if getWakeScheduleTime a < getWakeScheduleTime b then Some a else Some b
             | (Some a, None) \<Rightarrow> Some a
             | (None, r) \<Rightarrow> r)
     }"

definition copyEarliestRequestAutoWakeEvent :: "awEnv \<Rightarrow> aw \<Rightarrow> pevent option option" where
  "copyEarliestRequestAutoWakeEvent E s = copyEarliestEvent E kIOPMAutoWake s"

definition getEarliestRequestAutoWake :: "awEnv \<Rightarrow> aw \<Rightarrow> rat option" where
  "getEarliestRequestAutoWake E s =
     map_option (\<lambda>v. case v of Some e \<Rightarrow> getWakeScheduleTime e | None \<Rightarrow> 0)
       (copyEarliestRequestAutoWakeEvent E s)"

section \<open>Pending wake requests\<close>

datatype pendingOption = CHECK_UPCOMING | CHECK_EXPIRED | PREVENT_PURGING | ALLOW_PURGING

definition minSleepDuration :: rat where
  "minSleepDuration = 60"

text \<open>The loop: the first schedule time at or after the lower bound decides.\<close>

fun pendingLoop :: "rat \<Rightarrow> rat \<Rightarrow> entry list \<Rightarrow> rat option" where
  "pendingLoop lower upper [] = None"
| "pendingLoop lower upper (v # vs) =
     (case v of
        NotADictionary \<Rightarrow> pendingLoop lower upper vs
      | CFDictionary e \<Rightarrow>
          let w = getWakeScheduleTime e in
          if w = 0 \<or> w < lower then pendingLoop lower upper vs
          else if w > upper then None else Some w)"

definition checkPendingWakeReqs :: "awEnv \<Rightarrow> pendingOption set \<Rightarrow> aw \<Rightarrow> bool \<times> aw" where
  "checkPendingWakeReqs E opts s =
     (let now = CFAbsoluteTimeNow E;
          s1 = (if PREVENT_PURGING \<in> opts
                then (purgePastEvents E kIOPMAutoWake s)\<lparr>wakePurgeAllowed := False, purgePrevent_ts := now\<rparr>
                else s);
          upper = (if CHECK_UPCOMING \<in> opts then now + minSleepDuration else now);
          lower = (if CHECK_EXPIRED \<in> opts \<and> purgePrevent_ts s1 \<noteq> 0 then purgePrevent_ts s1 else now);
          found = (if upper \<noteq> lower then
                     pendingLoop lower upper
                       (case evArray (behaviors s1 kIOPMAutoWake) of Some l \<Rightarrow> l | None \<Rightarrow> [])
                   else None);
          s2 = (case found of
                  Some w \<Rightarrow> awEmit (CreateIdleSleepAssertion (if w - now > 1 then \<lceil>w - now\<rceil> else 1)) s1
                | None \<Rightarrow> s1);
          s3 = (if ALLOW_PURGING \<in> opts
                then purgePastEvents E kIOPMAutoWake (s2\<lparr>wakePurgeAllowed := True, purgePrevent_ts := 0\<rparr>)
                else s2)
      in (found \<noteq> None, s3))"

end
