(* ===== verification/AutoWakeLemmas.thy ===== *)
theory AutoWakeLemmas
  imports AutoWakeRequests
begin

unbundle bit_operations_syntax

text \<open>
  The arrays of power events as timed queues: the contract of the sort, and what each operation
  of AutoWakeScheduler.c does to the arrays, to the count of the entries and to the timers.
\<close>

section \<open>Dated entries\<close>

definition dated :: "entry \<Rightarrow> bool" where
  "dated v \<longleftrightarrow> (case v of CFDictionary e \<Rightarrow> evDate e \<noteq> None | NotADictionary \<Rightarrow> False)"

definition evKey :: "entry \<Rightarrow> rat" where
  "evKey v = (case v of
     CFDictionary e \<Rightarrow> (case evDate e of Some d \<Rightarrow> d | None \<Rightarrow> 0)
   | NotADictionary \<Rightarrow> 0)"

lemma datedE:
  assumes "dated v"
  obtains e d where "v = CFDictionary e" and "evDate e = Some d" and "evKey v = d"
  using assms by (auto simp: dated_def evKey_def split: entry.splits)

lemma compareEvDates_dated:
  assumes "dated v" and "dated w"
  shows "compareEvDates v w = (if evKey v < evKey w then kCFCompareLessThan
    else if evKey v = evKey w then kCFCompareEqualTo else kCFCompareGreaterThan)"
proof -
  obtain e d e' d' where "v = CFDictionary e" "evDate e = Some d" "evKey v = d"
    "w = CFDictionary e'" "evDate e' = Some d'" "evKey w = d'"
    using assms by (metis datedE)
  then show ?thesis by (simp add: compareEvDates_def)
qed

lemma isEntryValidAndFuturistic_dated:
  "dated v \<Longrightarrow> isEntryValidAndFuturistic E v \<longleftrightarrow> \<not> evKey v < CFAbsoluteTimeNow E"
  by (elim datedE) (simp add: isEntryValidAndFuturistic_def)

section \<open>The sort\<close>

text \<open>
  What \<open>CFArraySortValues\<close> promises: a permutation, in the order of the comparison when the
  comparison is consistent, as it is on entries with dates.
\<close>

locale event_sort =
  fixes srt :: "entry list \<Rightarrow> entry list"
  assumes sort_perm: "mset (srt l) = mset l"
    and sort_order: "list_all dated l \<Longrightarrow>
      sorted_wrt (\<lambda>v w. compareEvDates v w \<noteq> kCFCompareGreaterThan) (srt l)"
begin

lemma sort_set: "set (srt l) = set l"
  using arg_cong [OF sort_perm, of set_mset l] by simp

lemma sort_dated: "list_all dated (srt l) = list_all dated l"
  by (simp add: list.pred_set sort_set)

lemma sort_sorted:
  assumes "list_all dated l"
  shows "sorted (map evKey (srt l))"
proof -
  have d: "dated v" if "v \<in> set (srt l)" for v
    using that assms by (simp add: sort_set list.pred_set)
  have "sorted_wrt (\<lambda>v w. evKey v \<le> evKey w) (srt l)"
    using sort_order [OF assms]
    by (rule sorted_wrt_mono_rel [rotated])
      (use d in \<open>auto simp: compareEvDates_dated split: if_splits\<close>)
  then show ?thesis by (simp add: sorted_wrt_map)
qed

end

sublocale event_sort \<subseteq> timed_queue dated evKey "\<lambda>v q. srt (q @ [v])"
proof unfold_locales
  show "mset (srt (q @ [v])) = add_mset v (mset q)" for v q
    by (simp add: sort_perm)
  show "sorted (map evKey (srt (q @ [v])))" if "list_all dated (v # q)" for v q
    using that by (intro sort_sorted) simp
qed

context event_sort
begin

lemma insert_length: "length (srt (q @ [v])) = Suc (length q)"
  by (rule ins_length)

lemma insert_set: "set (srt (q @ [v])) = insert v (set q)"
  by (rule ins_set)

lemma insert_order: "list_all dated (v # q) \<Longrightarrow> sorted (map evKey q) \<Longrightarrow> sorted (map evKey (srt (q @ [v])))"
  by (rule ins_sorted)

lemma insert_dated: "list_all dated (v # q) \<Longrightarrow> list_all dated (srt (q @ [v]))"
  by (rule ins_ok)

end

definition sortsByDate :: "awEnv \<Rightarrow> bool" where
  "sortsByDate E \<longleftrightarrow> event_sort (CFArraySortValues E)"

text \<open>A stable sort by date keeps the promise.\<close>

lemma sort_key_order:
  assumes "list_all dated l"
  shows "sorted_wrt (\<lambda>v w. compareEvDates v w \<noteq> kCFCompareGreaterThan) (sort_key evKey l)"
proof -
  have "sorted_wrt (\<lambda>v w. evKey v \<le> evKey w) (sort_key evKey l)"
    using sorted_sort_key [of evKey l] by (simp add: sorted_wrt_map)
  then show ?thesis
    by (rule sorted_wrt_mono_rel [rotated])
      (use assms in \<open>auto simp: list.pred_set compareEvDates_dated\<close>)
qed

interpretation by_date: event_sort "sort_key evKey"
  by unfold_locales (simp_all add: sort_key_order)

section \<open>The arrays\<close>

definition arrays :: "aw \<Rightarrow> title \<Rightarrow> entry list option" where
  "arrays s b = evArray (behaviors s b)"

definition entries :: "entry list option \<Rightarrow> entry list" where
  "entries a = (case a of Some l \<Rightarrow> l | None \<Rightarrow> [])"

definition inOrder :: "entry list option \<Rightarrow> bool" where
  "inOrder a \<longleftrightarrow> list_all dated (entries a) \<and> sorted (map evKey (entries a))"

definition arraysInOrder :: "aw \<Rightarrow> bool" where
  "arraysInOrder s \<longleftrightarrow> list_all (\<lambda>b. inOrder (arrays s b)) all_titles"

definition totalEntries :: "aw \<Rightarrow> nat" where
  "totalEntries s = sum_list (map (\<lambda>b. length (entries (arrays s b))) all_titles)"

definition countExact :: "aw \<Rightarrow> bool" where
  "countExact s \<longleftrightarrow> activeEventCnt s = of_nat (totalEntries s)"

lemma all_titles_UNIV [simp]: "set all_titles = UNIV"
proof -
  have "b \<in> set all_titles" for b by (cases b) (simp_all add: all_titles_def)
  then show ?thesis by blast
qed

lemma arraysInOrder_iff: "arraysInOrder s \<longleftrightarrow> (\<forall>b. inOrder (arrays s b))"
  by (simp add: arraysInOrder_def list_all_iff)

lemma entries_simps [simp]: "entries None = []" "entries (Some l) = l"
  by (simp_all add: entries_def)

lemma upd_behavior_simps [simp]:
  "behaviors (upd_behavior b f s) = (behaviors s)(b := f (behaviors s b))"
  "activeEventCnt (upd_behavior b f s) = activeEventCnt s"
  "wakePurgeAllowed (upd_behavior b f s) = wakePurgeAllowed s"
  "purgePrevent_ts (upd_behavior b f s) = purgePrevent_ts s"
  "repeatingPowerOff (upd_behavior b f s) = repeatingPowerOff s"
  "repeatingPowerOn (upd_behavior b f s) = repeatingPowerOn s"
  "disk (upd_behavior b f s) = disk s"
  "awEffects (upd_behavior b f s) = awEffects s"
  by (simp_all add: upd_behavior_def)

lemma awEmit_simps [simp]:
  "behaviors (awEmit x s) = behaviors s"
  "activeEventCnt (awEmit x s) = activeEventCnt s"
  "wakePurgeAllowed (awEmit x s) = wakePurgeAllowed s"
  "purgePrevent_ts (awEmit x s) = purgePrevent_ts s"
  "repeatingPowerOff (awEmit x s) = repeatingPowerOff s"
  "repeatingPowerOn (awEmit x s) = repeatingPowerOn s"
  "disk (awEmit x s) = disk s"
  by (simp_all add: awEmit_def)

text \<open>The number of entries after the array of one title has changed.\<close>

lemma totalEntries_update:
  assumes "arrays s' = (arrays s)(b := a)"
  shows "totalEntries s' + length (entries (arrays s b)) = totalEntries s + length (entries a)"
  using assms by (cases b) (simp_all add: totalEntries_def all_titles_def)

lemma totalEntries_cong: "arrays s' = arrays s \<Longrightarrow> totalEntries s' = totalEntries s"
  by (simp add: totalEntries_def)

lemma countExact_update:
  assumes "countExact s" and "arrays s' = (arrays s)(b := a)"
    and "activeEventCnt s' + of_nat (length (entries (arrays s b)))
       = activeEventCnt s + of_nat (length (entries a))"
  shows "countExact s'"
proof -
  have "(of_nat (totalEntries s') :: u32) + of_nat (length (entries (arrays s b)))
      = of_nat (totalEntries s) + of_nat (length (entries a))"
    using arg_cong [OF totalEntries_update [OF assms(2)], of "of_nat :: nat \<Rightarrow> u32"] by simp
  then show ?thesis using assms(1,3) unfolding countExact_def by (metis add_right_cancel)
qed

lemma arraysInOrder_update:
  "arraysInOrder s \<Longrightarrow> arrays s' = (arrays s)(b := a) \<Longrightarrow> inOrder a \<Longrightarrow> arraysInOrder s'"
  by (simp add: arraysInOrder_iff)

section \<open>The purge\<close>

lemma purgeLoop_eq:
  "purgeLoop E l n = (dropWhile (\<lambda>v. \<not> isEntryValidAndFuturistic E v) l,
     n - of_nat (length (takeWhile (\<lambda>v. \<not> isEntryValidAndFuturistic E v) l)))"
  by (induction l arbitrary: n) simp_all

definition purged :: "awEnv \<Rightarrow> entry list \<Rightarrow> entry list" where
  "purged E l = dropWhile (\<lambda>v. \<not> isEntryValidAndFuturistic E v) l"

lemma purged_filter:
  assumes "inOrder (Some l)"
  shows "purged E l = filter (isEntryValidAndFuturistic E) l"
proof -
  have d: "dated v" if "v \<in> set l" for v using assms that by (simp add: inOrder_def list_all_iff)
  have "purged E l = dropWhile (\<lambda>v. evKey v < CFAbsoluteTimeNow E) l"
    unfolding purged_def by (rule dropWhile_cong) (simp_all add: d isEntryValidAndFuturistic_dated)
  also have "\<dots> = filter (\<lambda>v. \<not> evKey v < CFAbsoluteTimeNow E) l"
    using assms by (intro by_date.expired_prefix) (simp add: inOrder_def)
  also have "\<dots> = filter (isEntryValidAndFuturistic E) l"
    by (rule filter_cong) (simp_all add: d isEntryValidAndFuturistic_dated)
  finally show ?thesis .
qed

lemma purged_inOrder: "inOrder (Some l) \<Longrightarrow> inOrder (Some (purged E l))"
  by (simp add: purged_filter) (simp add: inOrder_def list_all_iff sorted_filter)

lemma purgePastEvents_arrays:
  "arrays (purgePastEvents E b s) = (arrays s)(b :=
     (if \<not> wakePurgeAllowed s \<and> b = kIOPMAutoWake then arrays s b
      else map_option (purged E) (arrays s b)))"
  by (auto simp: purgePastEvents_def arrays_def purgeLoop_eq purged_def fun_eq_iff
      split: option.splits)

lemma length_takeWhile_dropWhile:
  "length (takeWhile P l) + length (dropWhile P l) = length l"
  by (metis length_append takeWhile_dropWhile_id)

lemma purgePastEvents_count: "countExact s \<Longrightarrow> countExact (purgePastEvents E b s)"
proof (erule countExact_update [OF _ purgePastEvents_arrays])
  have "(of_nat (length (takeWhile P l)) :: u32) + of_nat (length (dropWhile P l)) = of_nat (length l)"
    for P and l :: "entry list"
    by (metis length_takeWhile_dropWhile of_nat_add)
  then show "activeEventCnt (purgePastEvents E b s) + of_nat (length (entries (arrays s b))) =
    activeEventCnt s + of_nat (length (entries
      (if \<not> wakePurgeAllowed s \<and> b = kIOPMAutoWake then arrays s b else map_option (purged E) (arrays s b))))"
    by (auto simp: purgePastEvents_def purgeLoop_eq purged_def arrays_def algebra_simps
        split: option.split)
qed

lemma purgePastEvents_order:
  assumes "arraysInOrder s"
  shows "arraysInOrder (purgePastEvents E b s)"
proof (rule arraysInOrder_update [OF assms purgePastEvents_arrays])
  have "inOrder (arrays s b)" using assms by (simp add: arraysInOrder_iff)
  then show "inOrder (if \<not> wakePurgeAllowed s \<and> b = kIOPMAutoWake then arrays s b
    else map_option (purged E) (arrays s b))"
    by (cases "arrays s b") (auto simp: purged_inOrder)
qed

section \<open>Events come and go\<close>

definition inserted :: "awEnv \<Rightarrow> pevent \<Rightarrow> entry list option \<Rightarrow> entry list" where
  "inserted E e a =
     (case a of None \<Rightarrow> [CFDictionary e] | Some l \<Rightarrow> CFArraySortValues E (l @ [CFDictionary e]))"

lemma addEvent_arrays:
  "arrays (addEvent E b e s) = (arrays s)(b := Some (inserted E e
     (if arrays s b = None then None else arrays (purgePastEvents E b s) b)))"
  by (auto simp: addEvent_def arrays_def inserted_def purgePastEvents_def purgeLoop_eq fun_eq_iff
      split: option.splits)

lemma inserted_length: "sortsByDate E \<Longrightarrow> length (inserted E e a) = Suc (length (entries a))"
  by (cases a) (simp_all add: inserted_def sortsByDate_def event_sort.insert_length)

lemma inserted_set: "sortsByDate E \<Longrightarrow> set (inserted E e a) = insert (CFDictionary e) (set (entries a))"
  by (cases a) (simp_all add: inserted_def sortsByDate_def event_sort.insert_set)

lemma inserted_inOrder:
  assumes "sortsByDate E" and "inOrder a" and "evDate e \<noteq> None"
  shows "inOrder (Some (inserted E e a))"
proof (cases a)
  case (Some l)
  then have "list_all dated (CFDictionary e # l)" "sorted (map evKey l)"
    using assms(2,3) by (simp_all add: inOrder_def dated_def)
  with Some assms(1) show ?thesis
    by (simp add: inOrder_def inserted_def sortsByDate_def event_sort.insert_order event_sort.insert_dated)
qed (use assms in \<open>simp add: inOrder_def inserted_def dated_def\<close>)

lemma addEvent_order:
  assumes "sortsByDate E" and "arraysInOrder s" and "evDate e \<noteq> None"
  shows "arraysInOrder (addEvent E b e s)"
proof (rule arraysInOrder_update [OF assms(2) addEvent_arrays], rule inserted_inOrder [OF assms(1) _ assms(3)])
  show "inOrder (if arrays s b = None then None else arrays (purgePastEvents E b s) b)"
    using purgePastEvents_order [OF assms(2), of E b] by (auto simp: arraysInOrder_iff inOrder_def)
qed

lemma addEvent_via_purge:
  assumes "arrays s b \<noteq> None"
  shows "arrays (addEvent E b e s) = (arrays (purgePastEvents E b s))(b :=
      Some (inserted E e (arrays (purgePastEvents E b s) b)))"
    and "activeEventCnt (addEvent E b e s) = activeEventCnt (purgePastEvents E b s) + 1"
  using assms
  by (auto simp: addEvent_def arrays_def inserted_def purgePastEvents_def purgeLoop_eq fun_eq_iff
      split: option.splits)

lemma addEvent_count:
  assumes "sortsByDate E" and "countExact s"
  shows "countExact (addEvent E b e s)"
proof (cases "arrays s b")
  case None
  have "activeEventCnt (addEvent E b e s) = activeEventCnt s + 1"
    using None by (simp add: addEvent_def arrays_def)
  with None show ?thesis
    by (intro countExact_update [OF assms(2) addEvent_arrays])
      (simp add: inserted_length [OF assms(1)])
next
  case (Some l)
  then have a: "arrays s b \<noteq> None" by simp
  show ?thesis
    by (rule countExact_update [OF purgePastEvents_count [OF assms(2)] addEvent_via_purge(1) [OF a]])
      (simp add: addEvent_via_purge(2) [OF a] inserted_length [OF assms(1)])
qed

text \<open>The removal takes one entry out of the array of the title, or changes nothing.\<close>

lemma keepEntry_Some: "keepEntry w f = Some (v, l') \<longleftrightarrow> (\<exists>k. f = Some (v, k) \<and> l' = w # k)"
  by (cases f) (auto simp: keepEntry_def)

lemma removeLoop_split:
  "removeLoop e l = Some (Some (v, l')) \<Longrightarrow> \<exists>xs ys. l = xs @ v # ys \<and> l' = xs @ ys"
proof (induction l arbitrary: l')
  case (Cons w ws)
  show ?case
  proof (cases "v = w \<and> l' = ws")
    case True
    then have "w # ws = [] @ v # ws \<and> l' = [] @ ws" by simp
    then show ?thesis by blast
  next
    case False
    then obtain k where "removeLoop e ws = Some (Some (v, k))" and k: "l' = w # k"
      using Cons.prems
      by (auto simp: keepEntry_Some bind_eq_Some_conv
          split: CFComparisonResult.splits entry.splits if_splits)
    then obtain xs ys where "ws = xs @ v # ys" "k = xs @ ys" using Cons.IH by blast
    then have "w # ws = (w # xs) @ v # ys \<and> l' = (w # xs) @ ys" using k by simp
    then show ?thesis by blast
  qed
qed simp

text \<open>Among entries with names the search for a named event returns.\<close>

definition named :: "entry \<Rightarrow> bool" where
  "named v \<longleftrightarrow> (case v of CFDictionary e \<Rightarrow> ev_app e \<noteq> None | NotADictionary \<Rightarrow> False)"

lemma sameAppName_named: "sameAppName e c = None \<longleftrightarrow> ev_app e = None \<or> ev_app c = None"
  by (auto simp: sameAppName_def CFEqualNames_def split: option.split)

lemma hasAppName_named: "hasAppName app v = None \<longleftrightarrow> \<not> named v"
  by (auto simp: hasAppName_def CFEqualNames_def named_def split: option.split entry.split)

lemma removeLoop_named: "list_all named l \<Longrightarrow> ev_app e \<noteq> None \<Longrightarrow> removeLoop e l \<noteq> None"
proof (induction l)
  case (Cons v vs)
  then obtain c where c: "v = CFDictionary c" "ev_app c \<noteq> None" by (cases v) (auto simp: named_def)
  have "sameAppName e c \<noteq> None" using c(2) Cons.prems(2) by (simp add: sameAppName_named)
  then show ?case using Cons c(1) by (auto split: CFComparisonResult.split)
qed simp

lemma removeEvent_returns:
  assumes "list_all named (entries (arrays s b))" and "ev_app e \<noteq> None"
  shows "removeEvent b e s \<noteq> None"
  using removeLoop_named [OF assms] by (cases "arrays s b") (auto simp: removeEvent_def arrays_def)

lemma forgetCurrent_arrays [simp]: "arrays (forgetCurrent v s) = arrays s"
  by (simp add: forgetCurrent_def arrays_def fun_eq_iff)

lemma awEmit_arrays [simp]: "arrays (awEmit x s) = arrays s"
  by (simp add: arrays_def fun_eq_iff)

lemma notifyIfVisible_arrays [simp]: "arrays (notifyIfVisible e s) = arrays s"
  by (simp add: notifyIfVisible_def)

lemma takeOut_fields:
  "arrays (takeOut b v l' s) = (arrays s)(b := Some l')"
  "activeEventCnt (takeOut b v l' s) = activeEventCnt s - 1"
  "repeatingPowerOff (takeOut b v l' s) = repeatingPowerOff s"
  "repeatingPowerOn (takeOut b v l' s) = repeatingPowerOn s"
  "evTimer (behaviors (takeOut b v l' s) j) = evTimer (behaviors s j)"
  "currentEvent (behaviors (takeOut b v l' s) j) =
     (if map_option CFDictionary (currentEvent (behaviors s j)) = Some v then None
      else currentEvent (behaviors s j))"
  by (auto simp: takeOut_def Let_def arrays_def fun_eq_iff forgetCurrent_def notifyIfVisible_def
      split: entry.split)

lemma removeEvent_cases:
  assumes "removeEvent b e s = Some (found, s')"
  obtains "\<not> found" and "s' = s"
  | v xs ys where "found" and "arrays s b = Some (xs @ v # ys)" and "s' = takeOut b v (xs @ ys) s"
proof (cases "evArray (behaviors s b)")
  case None
  then show ?thesis using assms that(1) by (simp add: removeEvent_def)
next
  case (Some l)
  then obtain r where r: "removeLoop e l = Some r"
    "(found, s') = (case r of None \<Rightarrow> (False, s) | Some (v, l') \<Rightarrow> (True, takeOut b v l' s))"
    using assms by (auto simp: removeEvent_def bind_eq_Some_conv)
  show ?thesis
  proof (cases r)
    case None
    then show ?thesis using r(2) that(1) by simp
  next
    case (Some p)
    obtain v l' where p: "p = (v, l')" by (cases p)
    obtain xs ys where "l = xs @ v # ys" "l' = xs @ ys"
      using removeLoop_split r(1) Some p by blast
    then show ?thesis
      using that(2) [of xs v ys] r(2) Some p \<open>evArray (behaviors s b) = Some l\<close> by (simp add: arrays_def)
  qed
qed

lemma removeEvent_order:
  assumes "arraysInOrder s" and "removeEvent b e s = Some (found, s')"
  shows "arraysInOrder s'"
  using assms(2)
proof (cases rule: removeEvent_cases)
  case (2 v xs ys)
  have "inOrder (Some (xs @ v # ys))" using assms(1) 2(2) by (metis arraysInOrder_iff)
  then have "inOrder (Some (xs @ ys))"
    using by_date.remove_sorted [of xs v ys] by (simp add: inOrder_def)
  with assms(1) show ?thesis unfolding 2(3) by (rule arraysInOrder_update [OF _ takeOut_fields(1)])
qed (use assms(1) in simp)

lemma removeEvent_count:
  assumes "countExact s" and "removeEvent b e s = Some (found, s')"
  shows "countExact s'"
  using assms(2)
proof (cases rule: removeEvent_cases)
  case (2 v xs ys)
  show ?thesis
    unfolding 2(3) by (rule countExact_update [OF assms(1) takeOut_fields(1)]) (simp add: 2(2) takeOut_fields(2))
qed (use assms(1) in simp)

end
