(* ===== verification/AutoWakeMachine.thy ===== *)
theory AutoWakeMachine
  imports AutoWakeLemmas
begin

unbundle bit_operations_syntax

text \<open>
  The scheduler of power events as a state machine: one step per entry point, and the invariant
  of its reachable states.  The arrays are sorted and typed, the count of the entries is exact,
  and an armed timer has an event with a date, so that no callout is handed a null event.
\<close>

section \<open>Scheduling\<close>

definition alarm :: "awEnv \<Rightarrow> pevent \<Rightarrow> rat option" where
  "alarm E e = (case evDate e of
     None \<Rightarrow> None
   | Some d \<Rightarrow> if armable (d - CFAbsoluteTimeNow E) then Some (d - CFAbsoluteTimeNow E) else None)"

definition scheduled :: "awEnv \<Rightarrow> pevent option \<Rightarrow> PowerEventBehavior \<Rightarrow> PowerEventBehavior" where
  "scheduled E u B = (case u of
     None \<Rightarrow> B\<lparr>evTimer := None\<rparr>
   | Some e \<Rightarrow> B\<lparr>currentEvent := Some e, evTimer := alarm E e\<rparr>)"

lemma copyEarliestUpcoming_cong:
  assumes "arrays s' = arrays s" and "repeatingPowerOff s' = repeatingPowerOff s"
    and "repeatingPowerOn s' = repeatingPowerOn s"
  shows "copyEarliestUpcoming E b s' = copyEarliestUpcoming E b s"
proof -
  have "evArray (behaviors s' j) = evArray (behaviors s j)" for j
    using fun_cong [OF assms(1), of j] by (simp add: arrays_def)
  then have "runtimeQueue E b s' = runtimeQueue E b s" by (simp add: runtimeQueue_def)
  with assms(2,3) show ?thesis by (simp add: copyEarliestUpcoming_def)
qed

lemma schedulePowerEvent_cases:
  assumes "schedulePowerEvent E b s = Some s'"
  obtains u where "copyEarliestUpcoming E b s = Some u"
    and "behaviors s' = (behaviors s)(b := scheduled E u (behaviors s b))"
    and "activeEventCnt s' = activeEventCnt s"
    and "repeatingPowerOff s' = repeatingPowerOff s" and "repeatingPowerOn s' = repeatingPowerOn s"
    and "arrays s' = arrays s" and "wakePurgeAllowed s' = wakePurgeAllowed s"
proof -
  let ?s1 = "upd_behavior b (\<lambda>B. B\<lparr>evTimer := None\<rparr>) s"
  have a: "arrays ?s1 = arrays s" by (simp add: arrays_def fun_eq_iff)
  have c: "copyEarliestUpcoming E b ?s1 = copyEarliestUpcoming E b s"
    by (rule copyEarliestUpcoming_cong) (simp_all add: a)
  obtain u where u: "copyEarliestUpcoming E b s = Some u"
    using assms by (cases "copyEarliestUpcoming E b s") (simp_all add: schedulePowerEvent_def c)
  have "behaviors s' = (behaviors s)(b := scheduled E u (behaviors s b)) \<and>
     activeEventCnt s' = activeEventCnt s \<and> repeatingPowerOff s' = repeatingPowerOff s \<and>
     repeatingPowerOn s' = repeatingPowerOn s \<and> wakePurgeAllowed s' = wakePurgeAllowed s"
  proof (cases u)
    case None
    then show ?thesis
      using assms by (auto simp: schedulePowerEvent_def Let_def c u scheduled_def fun_eq_iff split: if_splits)
  next
    case (Some e)
    then show ?thesis
      using assms
      by (auto simp: schedulePowerEvent_def Let_def c u scheduled_def alarm_def fun_eq_iff
          split: option.splits if_splits)
  qed
  moreover from this have "arrays s' = arrays s"
    by (auto simp: arrays_def fun_eq_iff scheduled_def split: option.splits)
  ultimately show ?thesis using that u by blast
qed

text \<open>The operations in the option monad keep what their parts keep.\<close>

lemma schedulePowerEventTitle_rule:
  assumes "schedulePowerEventTitle E t s = Some s'" and "I s"
    and "\<And>b s s'. schedulePowerEvent E b s = Some s' \<Longrightarrow> b \<noteq> kIOPMAutoWakeOrPowerOn \<Longrightarrow> I s \<Longrightarrow> I s'"
  shows "I s'"
  using assms by (auto simp: schedulePowerEventTitle_def split: if_splits bind_splits)

lemma schedulePowerEventType_rule:
  assumes "schedulePowerEventType E ty s = Some s'" and "I s"
    and "\<And>b s s'. schedulePowerEvent E b s = Some s' \<Longrightarrow> b \<noteq> kIOPMAutoWakeOrPowerOn \<Longrightarrow> I s \<Longrightarrow> I s'"
  shows "I s'"
  using assms schedulePowerEventTitle_rule [of E _ s s' I]
  by (auto simp: schedulePowerEventType_def split: evType.splits)

lemma overTitles_rule:
  assumes "overTitles f bs s = Some s'" and "I s"
    and "\<And>b s s'. f b s = Some s' \<Longrightarrow> I s \<Longrightarrow> I s'"
  shows "I s'"
  using assms(1,2)
proof (induction bs arbitrary: s)
  case (Cons b bs)
  then obtain s1 where s1: "f b s = Some s1" "overTitles f bs s1 = Some s'"
    by (auto simp: bind_eq_Some_conv)
  have "I s1" using s1(1) Cons.prems(2) by (rule assms(3))
  with s1(2) show ?case by (rule Cons.IH)
qed simp

lemma schedulePowerEvent_order: "schedulePowerEvent E b s = Some s' \<Longrightarrow> arraysInOrder s \<Longrightarrow> arraysInOrder s'"
  by (elim schedulePowerEvent_cases) (simp add: arraysInOrder_def)

lemma schedulePowerEvent_count: "schedulePowerEvent E b s = Some s' \<Longrightarrow> countExact s \<Longrightarrow> countExact s'"
  by (elim schedulePowerEvent_cases) (metis countExact_def totalEntries_cong)

section \<open>Slots\<close>

text \<open>
  The entries of an array have the type of its title and an application name; the event a timer is armed for has it as
  well, or is one that may wake or power on.
\<close>

definition typedEntry :: "title \<Rightarrow> entry \<Rightarrow> bool" where
  "typedEntry b v \<longleftrightarrow>
     (case v of
        CFDictionary e \<Rightarrow> ev_type e = Some (EvTitle b) \<and> ev_app e \<noteq> None
      | NotADictionary \<Rightarrow> False)"

lemma typedEntry_named: "list_all (typedEntry b) l \<Longrightarrow> list_all named l"
  by (auto simp: list_all_iff typedEntry_def named_def split: entry.splits)

definition typedArrays :: "aw \<Rightarrow> bool" where
  "typedArrays s \<longleftrightarrow> list_all (\<lambda>b. list_all (typedEntry b) (entries (arrays s b))) all_titles"

definition eventOf :: "title \<Rightarrow> pevent \<Rightarrow> bool" where
  "eventOf b e \<longleftrightarrow> ev_type e = Some (EvTitle b) \<or>
     sharedEvents b \<and> ev_type e = Some (EvTitle kIOPMAutoWakeOrPowerOn)"

definition typedCurrent :: "aw \<Rightarrow> bool" where
  "typedCurrent s \<longleftrightarrow> list_all (\<lambda>b. case currentEvent (behaviors s b) of
     Some e \<Rightarrow> eventOf b e | None \<Rightarrow> True) all_titles"

definition timerHasEvent :: "PowerEventBehavior \<Rightarrow> bool" where
  "timerHasEvent B \<longleftrightarrow> (evTimer B \<noteq> None \<longrightarrow> (case currentEvent B of
     Some e \<Rightarrow> evDate e \<noteq> None | None \<Rightarrow> False))"

definition timersHaveEvents :: "aw \<Rightarrow> bool" where
  "timersHaveEvents s \<longleftrightarrow> list_all (\<lambda>b. timerHasEvent (behaviors s b)) all_titles"

text \<open>The day mask of a repeating event is zero or has one of the days of the week.\<close>

definition walkable :: "pevent option \<Rightarrow> bool" where
  "walkable v \<longleftrightarrow> (case v of
     None \<Rightarrow> True
   | Some e \<Rightarrow> getRepeatingDictionaryDayMask e = 0 \<or>
               list_ex (\<lambda>d. bit (getRepeatingDictionaryDayMask e) d) [0..<7])"

lemma typedArrays_iff: "typedArrays s \<longleftrightarrow> (\<forall>b. list_all (typedEntry b) (entries (arrays s b)))"
  by (simp add: typedArrays_def list_all_iff [of _ all_titles])

lemma typedArrays_update:
  "typedArrays s \<Longrightarrow> arrays s' = (arrays s)(b := a) \<Longrightarrow> list_all (typedEntry b) (entries a) \<Longrightarrow> typedArrays s'"
  by (simp add: typedArrays_iff)

lemma typedCurrent_iff: "typedCurrent s \<longleftrightarrow> (\<forall>b e. currentEvent (behaviors s b) = Some e \<longrightarrow> eventOf b e)"
  by (auto simp: typedCurrent_def list_all_iff split: option.splits)

lemma timersHaveEvents_iff: "timersHaveEvents s \<longleftrightarrow> (\<forall>b. timerHasEvent (behaviors s b))"
  by (simp add: timersHaveEvents_def list_all_iff)

text \<open>The next event of a title is one of its runtime queue or the next repeating one.\<close>

lemma firstUpcoming_mem: "firstUpcoming E a = Some e \<Longrightarrow> CFDictionary e \<in> set (entries a)"
  by (auto simp: firstUpcoming_def split: option.splits list.splits entry.splits
      dest!: arg_cong [of "dropWhile _ _" _ set] dest: set_dropWhileD)

lemma copyMergedEventArray_set:
  "sortsByDate E \<Longrightarrow> set (entries (copyMergedEventArray E a b)) = set (entries a) \<union> set (entries b)"
  by (cases a; cases b) (simp_all add: copyMergedEventArray_def sortsByDate_def event_sort.sort_set)

lemma runtimeQueue_typed:
  assumes "sortsByDate E" and "typedArrays s" and "CFDictionary e \<in> set (entries (runtimeQueue E b s))"
  shows "eventOf b e"
proof -
  have t: "ev_type c = Some (EvTitle j)" if "CFDictionary c \<in> set (entries (arrays s j))" for c j
    using assms(2) that by (fastforce simp: typedArrays_iff list_all_iff typedEntry_def)
  show ?thesis
    using assms(3) t
    by (auto simp: runtimeQueue_def copyMergedEventArray_set [OF assms(1)] eventOf_def arrays_def
        split: if_splits)
qed

lemma copyNextRepeatingEvent_typed:
  assumes "copyNextRepeatingEvent E off on b = Some (Some e)"
  shows "eventOf b e \<and> evDate e \<noteq> None"
  using assms
  by (auto simp: copyNextRepeatingEvent_def Let_def bind_eq_Some_conv getRepeatingDictionaryType_def
      eventOf_def sharedEvents_def evDate_def split: option.splits if_splits evType.splits)

lemma copyEarliestUpcoming_typed:
  assumes "sortsByDate E" and "typedArrays s" and "copyEarliestUpcoming E b s = Some (Some e)"
  shows "eventOf b e"
proof -
  have "CFDictionary e \<in> set (entries (runtimeQueue E b s)) \<or>
    copyNextRepeatingEvent E (repeatingPowerOff s) (repeatingPowerOn s) b = Some (Some e)"
    using assms(3)
    by (auto simp: copyEarliestUpcoming_def Let_def bind_eq_Some_conv dest: firstUpcoming_mem
        split: option.splits if_splits)
  then show ?thesis
    using runtimeQueue_typed [OF assms(1,2)] copyNextRepeatingEvent_typed by blast
qed

lemma timerHasEvent_scheduled: "timerHasEvent (scheduled E u B)"
  by (simp add: timerHasEvent_def scheduled_def alarm_def split: option.split)

text \<open>
  \<open>slotsExcept X\<close>: the timers of the titles outside \<open>X\<close> have their events; the title whose events
  are servedBy by two others has no timer.
\<close>

definition slotsExcept :: "title set \<Rightarrow> aw \<Rightarrow> bool" where
  "slotsExcept X s \<longleftrightarrow> 
    typedArrays s \<and> typedCurrent s \<and> evTimer (behaviors s kIOPMAutoWakeOrPowerOn) = None \<and>
    list_all (\<lambda>b. b \<in> X \<or> timerHasEvent (behaviors s b)) all_titles"

lemma slotsExcept_iff: "slotsExcept X s \<longleftrightarrow>
    typedArrays s \<and> typedCurrent s \<and> evTimer (behaviors s kIOPMAutoWakeOrPowerOn) = None \<and>
    (\<forall>b. b \<in> X \<or> timerHasEvent (behaviors s b))"
  by (simp add: slotsExcept_def list_all_iff)

lemma schedulePowerEvent_slots:
  assumes "sortsByDate E" and "b \<noteq> kIOPMAutoWakeOrPowerOn" and "schedulePowerEvent E b s = Some s'"
    and "slotsExcept X s"
  shows "slotsExcept (X - {b}) s'"
  using assms(3)
proof (cases rule: schedulePowerEvent_cases)
  case (1 u)
  have "eventOf b e" if "u = Some e" for e
    using copyEarliestUpcoming_typed [OF assms(1), of s b e] 1(1) that assms(4) by (simp add: slotsExcept_def)
  then have "typedCurrent s'"
    using assms(4) unfolding slotsExcept_iff typedCurrent_iff 1(2)
    by (auto simp: scheduled_def split: option.splits if_splits)
  moreover have "typedArrays s'"
    using assms(4) 1(6) by (simp add: slotsExcept_iff typedArrays_iff)
  moreover have "j \<in> X - {b} \<or> timerHasEvent (behaviors s' j)" for j
    using assms(4) by (auto simp: slotsExcept_iff 1(2) timerHasEvent_scheduled)
  ultimately show ?thesis using assms(2,4) 1(2) by (simp add: slotsExcept_iff)
qed

lemma schedulePowerEvent_slots_keep:
  "schedulePowerEvent E b s = Some s' \<Longrightarrow> b \<noteq> kIOPMAutoWakeOrPowerOn \<Longrightarrow> sortsByDate E \<Longrightarrow>
   slotsExcept {} s \<Longrightarrow> slotsExcept {} s'"
  using schedulePowerEvent_slots [of E b s s' "{}"] by simp

text \<open>The titles that are scheduled again after a change to the events of a title.\<close>

definition servedBy :: "title \<Rightarrow> title set" where
  "servedBy t = (if t = kIOPMAutoWakeOrPowerOn then {kIOPMAutoWake, kIOPMAutoPowerOn} else {t})"

lemma schedulePowerEventTitle_slots:
  assumes "sortsByDate E" and "schedulePowerEventTitle E t s = Some s'" and "slotsExcept (servedBy t) s"
  shows "slotsExcept {} s'"
proof (cases "t = kIOPMAutoWakeOrPowerOn")
  case True
  then obtain s1 where s1: "schedulePowerEvent E kIOPMAutoWake s = Some s1"
      "schedulePowerEvent E kIOPMAutoPowerOn s1 = Some s'"
    using assms(2) by (auto simp: schedulePowerEventTitle_def bind_eq_Some_conv)
  show ?thesis
    using schedulePowerEvent_slots [OF assms(1) _ s1(2) schedulePowerEvent_slots [OF assms(1) _ s1(1) assms(3)]]
    by (simp add: servedBy_def True)
next
  case False
  then have "schedulePowerEvent E t s = Some s'" using assms(2) by (simp add: schedulePowerEventTitle_def)
  from schedulePowerEvent_slots [OF assms(1) False this assms(3)] False show ?thesis
    by (simp add: servedBy_def)
qed

lemma eventOf_servedBy:
  "ev_type e = Some (EvTitle t) \<Longrightarrow> eventOf b e \<Longrightarrow> b \<noteq> kIOPMAutoWakeOrPowerOn \<Longrightarrow> b \<in> servedBy t"
  by (auto simp: eventOf_def servedBy_def sharedEvents_def)

section \<open>What changes only the arrays\<close>

lemma slots_update:
  assumes "slotsExcept X s" and "arrays s' = (arrays s)(b := a)" and "list_all (typedEntry b) (entries a)"
    and "\<And>j. currentEvent (behaviors s' j) = currentEvent (behaviors s j)"
    and "\<And>j. evTimer (behaviors s' j) = evTimer (behaviors s j)"
  shows "slotsExcept X s'"
proof -
  have "typedArrays s'" using assms(1) typedArrays_update [OF _ assms(2,3)] by (simp add: slotsExcept_def)
  with assms show ?thesis by (simp add: slotsExcept_iff typedCurrent_iff timerHasEvent_def)
qed

lemma purgePastEvents_fields:
  "currentEvent (behaviors (purgePastEvents E b s) j) = currentEvent (behaviors s j)"
  "evTimer (behaviors (purgePastEvents E b s) j) = evTimer (behaviors s j)"
  "repeatingPowerOff (purgePastEvents E b s) = repeatingPowerOff s"
  "repeatingPowerOn (purgePastEvents E b s) = repeatingPowerOn s"
  by (auto simp: purgePastEvents_def purgeLoop_eq split: option.splits)

lemma purgePastEvents_slots:
  assumes "slotsExcept X s"
  shows "slotsExcept X (purgePastEvents E b s)"
proof (rule slots_update [OF assms purgePastEvents_arrays _ purgePastEvents_fields(1,2)])
  have "list_all (typedEntry b) (entries (arrays s b))"
    using assms by (simp add: slotsExcept_def typedArrays_iff)
  then show "list_all (typedEntry b) (entries
      (if \<not> wakePurgeAllowed s \<and> b = kIOPMAutoWake then arrays s b else map_option (purged E) (arrays s b)))"
    by (cases "arrays s b") (auto simp: list_all_iff purged_def dest: set_dropWhileD)
qed

lemma addEvent_fields:
  "currentEvent (behaviors (addEvent E b e s) j) = currentEvent (behaviors s j)"
  "evTimer (behaviors (addEvent E b e s) j) = evTimer (behaviors s j)"
  "repeatingPowerOff (addEvent E b e s) = repeatingPowerOff s"
  "repeatingPowerOn (addEvent E b e s) = repeatingPowerOn s"
  by (auto simp: addEvent_def Let_def purgePastEvents_fields split: option.splits)

lemma addEvent_slots:
  assumes "sortsByDate E" and "slotsExcept X s" and "ev_type e = Some (EvTitle b)" and "ev_app e \<noteq> None"
  shows "slotsExcept X (addEvent E b e s)"
proof (rule slots_update [OF assms(2) addEvent_arrays _ addEvent_fields(1,2)])
  have "list_all (typedEntry b) (entries (arrays s' b))" if "slotsExcept X s'" for s'
    using that by (simp add: slotsExcept_def typedArrays_iff)
  from this [OF assms(2)] this [OF purgePastEvents_slots [OF assms(2)]] assms(3,4)
  show "list_all (typedEntry b) (entries (Some (inserted E e
      (if arrays s b = None then None else arrays (purgePastEvents E b s) b))))"
    by (auto simp: list_all_iff inserted_set [OF assms(1)] typedEntry_def)
qed

end
