(* ===== verification/AutoWakeReach.thy ===== *)
theory AutoWakeReach
  imports AutoWakeMachine
begin

unbundle bit_operations_syntax

text \<open>
  The entry points of the scheduler as steps, and the invariant of the reachable states.
\<close>

section \<open>Steps\<close>

datatype awCall =
    AwTimerFired title
  | AwCapabilities capabilityChange
  | AwCalendarChange
  | AwSchedule awCaller "pevent option" powerEventAction
  | AwScheduleRepeat awCaller "(pevent option \<times> pevent option) option"
  | AwCancelRepeat awCaller
  | AwCheckPending "pendingOption set"

fun awStep :: "awEnv \<Rightarrow> awCall \<Rightarrow> aw \<Rightarrow> aw option" where
  "awStep E (AwTimerFired b) s = handleTimerExpiration E b s"
| "awStep E (AwCapabilities c) s = AutoWakeCapabilitiesNotification E c s"
| "awStep E AwCalendarChange s = AutoWakeCalendarChange E s"
| "awStep E (AwSchedule c package action) s = map_option snd (io_pm_schedule_power_event E c package action s)"
| "awStep E (AwScheduleRepeat c package) s = map_option snd (io_pm_schedule_repeat_event E c package s)"
| "awStep E (AwCancelRepeat c) s = map_option snd (io_pm_cancel_repeat_events E c s)"
| "awStep E (AwCheckPending opts) s = Some (snd (checkPendingWakeReqs E opts s))"

text \<open>A timer fires only when it is armed.\<close>

fun awEnabled :: "awCall \<Rightarrow> aw \<Rightarrow> bool" where
  "awEnabled (AwTimerFired b) s = (evTimer (behaviors s b) \<noteq> None)"
| "awEnabled _ s = True"

text \<open>
  Orderly calls: the preferences file can be written, the sort keeps its promise, an event to
  schedule has a date (the client library stores one), an event of a request has an application
  name (of its own or, with \<open>proc_name\<close>, that of the caller), and a repeating event has a day
  mask that the walk over the week can leave.
\<close>

fun orderlyCall :: "awEnv \<Rightarrow> awCall \<Rightarrow> bool" where
  "orderlyCall E (AwSchedule c package action) =
     (case package of
        Some e \<Rightarrow> (action = kIOPMScheduleEvent \<longrightarrow> evDate e \<noteq> None) \<and> ev_app (tagEvent E c e) \<noteq> None
      | None \<Rightarrow> True)"
| "orderlyCall E (AwScheduleRepeat c package) =
     (case package of Some (off, on) \<Rightarrow> walkable off \<and> walkable on | None \<Rightarrow> True)"
| "orderlyCall E _ = True"

definition orderly :: "awEnv \<Rightarrow> awCall \<Rightarrow> bool" where
  "orderly E c \<longleftrightarrow> sortsByDate E \<and> (\<forall>t. SCPreferencesCommitted E t) \<and> orderlyCall E c"

text \<open>
  The saved file, as its own warning asks: sorted by date, each array of events of its own type,
  all of them with a name.
\<close>

definition savedInOrder :: "(title \<Rightarrow> entry list) \<Rightarrow> bool" where
  "savedInOrder d \<longleftrightarrow>
     list_all (\<lambda>b. inOrder (Some (d b)) \<and> list_all (typedEntry b) (d b)) all_titles"

inductive awReachable :: "aw \<Rightarrow> bool" where
  primed: "sortsByDate E \<Longrightarrow> savedInOrder d \<Longrightarrow> walkable off \<Longrightarrow> walkable on \<Longrightarrow>
    AutoWake_prime E off on (awLoaded d) = Some s \<Longrightarrow> awReachable s"
| called: "awReachable s \<Longrightarrow> orderly E c \<Longrightarrow> awEnabled c s \<Longrightarrow> awStep E c s = Some s' \<Longrightarrow> awReachable s'"

section \<open>The invariant\<close>

definition daysWalkable :: "aw \<Rightarrow> bool" where
  "daysWalkable s \<longleftrightarrow> walkable (repeatingPowerOff s) \<and> walkable (repeatingPowerOn s)"

text \<open>\<open>awGood X\<close>: all of the invariant but the timers of the titles in \<open>X\<close>, which are armed anew next.\<close>

definition awGood :: "title set \<Rightarrow> aw \<Rightarrow> bool" where
  "awGood X s \<longleftrightarrow> arraysInOrder s \<and> slotsExcept X s \<and> daysWalkable s"

definition awInv :: "aw \<Rightarrow> bool" where
  "awInv s \<longleftrightarrow> awGood {} s \<and> countExact s"

lemma schedulePowerEvent_days: "schedulePowerEvent E b s = Some s' \<Longrightarrow> daysWalkable s \<Longrightarrow> daysWalkable s'"
  by (elim schedulePowerEvent_cases) (simp add: daysWalkable_def)

lemma schedulePowerEvent_good:
  "schedulePowerEvent E b s = Some s' \<Longrightarrow> b \<noteq> kIOPMAutoWakeOrPowerOn \<Longrightarrow> sortsByDate E \<Longrightarrow>
   awGood X s \<Longrightarrow> awGood (X - {b}) s'"
  by (simp add: awGood_def schedulePowerEvent_slots schedulePowerEvent_days schedulePowerEvent_order)

lemma schedulePowerEvent_inv:
  "schedulePowerEvent E b s = Some s' \<Longrightarrow> b \<noteq> kIOPMAutoWakeOrPowerOn \<Longrightarrow> sortsByDate E \<Longrightarrow> awInv s \<Longrightarrow> awInv s'"
  using schedulePowerEvent_good [of E b s s' "{}"] by (simp add: awInv_def schedulePowerEvent_count)

lemma schedulePowerEventTitle_good:
  assumes "schedulePowerEventTitle E t s = Some s'" and "sortsByDate E" and "awGood (servedBy t) s"
  shows "awGood {} s'"
proof -
  have "arraysInOrder s' \<and> daysWalkable s'"
    by (rule schedulePowerEventTitle_rule [OF assms(1)])
      (use assms(3) in \<open>auto simp: awGood_def schedulePowerEvent_order schedulePowerEvent_days\<close>)
  with schedulePowerEventTitle_slots [OF assms(2,1)] assms(3) show ?thesis by (simp add: awGood_def)
qed

lemma schedulePowerEventTitle_count:
  "schedulePowerEventTitle E t s = Some s' \<Longrightarrow> countExact s \<Longrightarrow> countExact s'"
  by (erule schedulePowerEventTitle_rule) (auto intro: schedulePowerEvent_count)

lemma purgePastEvents_good: "awGood X s \<Longrightarrow> awGood X (purgePastEvents E b s)"
  by (simp add: awGood_def purgePastEvents_order purgePastEvents_slots daysWalkable_def purgePastEvents_fields)

lemma purgePastEvents_inv: "awInv s \<Longrightarrow> awInv (purgePastEvents E b s)"
  by (simp add: awInv_def purgePastEvents_good purgePastEvents_count)

text \<open>The invariant depends on the arrays, the timers, the count and the repeating events only.\<close>

lemma awInv_cong:
  assumes "awInv s" and "behaviors s' = behaviors s" and "activeEventCnt s' = activeEventCnt s"
    and "repeatingPowerOff s' = repeatingPowerOff s" and "repeatingPowerOn s' = repeatingPowerOn s"
  shows "awInv s'"
proof -
  have "arrays s' = arrays s" using assms(2) by (simp add: arrays_def fun_eq_iff)
  with assms show ?thesis
    by (simp add: awInv_def awGood_def arraysInOrder_def slotsExcept_def typedArrays_def typedCurrent_def
        daysWalkable_def countExact_def totalEntries_def)
qed

lemma awEmit_inv: "awInv s \<Longrightarrow> awInv (awEmit x s)"
  by (erule awInv_cong) simp_all

section \<open>Removal\<close>

lemma awGood_widen: "awGood {} s \<Longrightarrow> awGood X s"
  by (simp add: awGood_def slotsExcept_iff)

lemma removeEvent_good:
  assumes "awGood {} s" and "removeEvent t e s = Some (found, s')"
  shows "awGood (servedBy t) s'"
  using assms(2)
proof (cases rule: removeEvent_cases)
  case (2 v xs ys)
  have typed: "list_all (typedEntry t) (xs @ v # ys)"
    using assms(1) 2(2) by (metis awGood_def slotsExcept_def typedArrays_iff entries_simps(2))
  then obtain c where c: "v = CFDictionary c" "ev_type c = Some (EvTitle t)"
    by (auto simp: typedEntry_def split: entry.splits)
  have cur: "currentEvent (behaviors s' j) =
      (if currentEvent (behaviors s j) = Some c then None else currentEvent (behaviors s j))" for j
    by (simp add: 2(3) takeOut_fields c(1) map_option_case split: option.split)
  have tm: "evTimer (behaviors s' j) = evTimer (behaviors s j)" for j
    by (simp add: 2(3) takeOut_fields)
  have "typedArrays s'"
    unfolding 2(3) by (rule typedArrays_update [OF _ takeOut_fields(1)])
      (use typed assms(1) in \<open>simp_all add: awGood_def slotsExcept_def\<close>)
  moreover have "typedCurrent s'"
    using assms(1) by (simp add: awGood_def slotsExcept_def typedCurrent_iff cur)
  moreover have "j \<in> servedBy t \<or> timerHasEvent (behaviors s' j)" for j
  proof (cases "currentEvent (behaviors s j) = Some c")
    case True
    then have "eventOf j c" using assms(1) by (simp add: awGood_def slotsExcept_iff typedCurrent_iff)
    then have "j = kIOPMAutoWakeOrPowerOn \<or> j \<in> servedBy t" using eventOf_servedBy c(2) by blast
    then show ?thesis using assms(1) by (auto simp: awGood_def slotsExcept_iff timerHasEvent_def tm)
  next
    case False
    then show ?thesis
      using assms(1) by (auto simp: awGood_def slotsExcept_iff timerHasEvent_def tm cur)
  qed
  ultimately have "slotsExcept (servedBy t) s'"
    using assms(1) by (simp add: awGood_def slotsExcept_iff tm)
  moreover have "arraysInOrder s'"
    using removeEvent_order [OF _ assms(2)] assms(1) by (simp add: awGood_def)
  moreover have "daysWalkable s'"
    using assms(1) by (simp add: awGood_def daysWalkable_def 2(3) takeOut_fields)
  ultimately show ?thesis by (simp add: awGood_def)
qed (use assms(1) awGood_widen in simp)

section \<open>Each step\<close>

lemma updateToDisk_cong:
  "behaviors (snd (updateToDisk E t s)) = behaviors s"
  "activeEventCnt (snd (updateToDisk E t s)) = activeEventCnt s"
  "repeatingPowerOff (snd (updateToDisk E t s)) = repeatingPowerOff s"
  "repeatingPowerOn (snd (updateToDisk E t s)) = repeatingPowerOn s"
  by (auto simp: updateToDisk_def split: option.splits)

lemma updateToDisk_arrays: "arrays (snd (updateToDisk E t s)) = arrays s"
  by (simp add: arrays_def fun_eq_iff updateToDisk_cong)

lemma updateToDisk_count: "countExact (snd (updateToDisk E t s)) = countExact s"
  by (simp add: countExact_def updateToDisk_cong totalEntries_def updateToDisk_arrays)

lemma awGood_cong:
  assumes "awGood X s" and "behaviors s' = behaviors s"
    and "repeatingPowerOff s' = repeatingPowerOff s" and "repeatingPowerOn s' = repeatingPowerOn s"
  shows "awGood X s'"
proof -
  have "arrays s' = arrays s" using assms(2) by (simp add: arrays_def fun_eq_iff)
  with assms show ?thesis
    by (simp add: awGood_def arraysInOrder_def slotsExcept_def typedArrays_def typedCurrent_def daysWalkable_def)
qed

lemma addEvent_inv:
  assumes "sortsByDate E" and "awInv s" and "evDate e \<noteq> None" and "ev_type e = Some (EvTitle t)"
    and "ev_app e \<noteq> None"
  shows "awInv (addEvent E t e s)"
  using assms addEvent_order [of E s e t] addEvent_slots [of E "{}" s e t] addEvent_count [of E s t e]
  by (simp add: awInv_def awGood_def daysWalkable_def addEvent_fields)

lemma notifyIfVisible_inv: "awInv s \<Longrightarrow> awInv (notifyIfVisible e s)"
  by (simp add: notifyIfVisible_def awEmit_inv)

lemma schedulePowerEventTitle_inv:
  "schedulePowerEventTitle E t s = Some s' \<Longrightarrow> sortsByDate E \<Longrightarrow> awInv s \<Longrightarrow> awInv s'"
  by (erule schedulePowerEventTitle_rule) (auto intro: schedulePowerEvent_inv)

lemma schedulePowerEventType_inv:
  "schedulePowerEventType E ty s = Some s' \<Longrightarrow> sortsByDate E \<Longrightarrow> awInv s \<Longrightarrow> awInv s'"
  by (erule schedulePowerEventType_rule) (auto intro: schedulePowerEvent_inv)

lemma addEvent_array: "evArray (behaviors (addEvent E t e s) t) \<noteq> None"
  by (auto simp: addEvent_def Let_def split: option.split)

lemma updateToDisk_committed:
  "SCPreferencesCommitted E t \<Longrightarrow> evArray (behaviors s t) \<noteq> None \<Longrightarrow> fst (updateToDisk E t s) = kIOReturnSuccess"
  by (auto simp: updateToDisk_def)

lemma scheduleEvent_inv:
  assumes "scheduleOrCancel E kIOPMScheduleEvent t e s = Some (r, s')" and "sortsByDate E"
    and "SCPreferencesCommitted E t" and "awInv s" and "evDate e \<noteq> None" and "ev_type e = Some (EvTitle t)"
    and "ev_app e \<noteq> None"
  shows "awInv s'"
proof -
  obtain r1 s1 where u: "updateToDisk E t (addEvent E t e s) = (r1, s1)" by (metis surj_pair)
  have r1: "r1 = kIOReturnSuccess"
    using updateToDisk_committed [OF assms(3) addEvent_array [of E t e s]] by (simp add: u)
  have sch: "schedulePowerEventTitle E t (notifyIfVisible e s1) = Some s'"
    using assms(1) by (simp add: scheduleOrCancel_def u r1)
  have "awInv (addEvent E t e s)" using assms(2,4-7) by (rule addEvent_inv)
  then have "awInv s1"
    by (rule awInv_cong) (use updateToDisk_cong [of E t "addEvent E t e s"] in \<open>simp_all add: u\<close>)
  then show ?thesis
    by (rule schedulePowerEventTitle_inv [OF sch assms(2) notifyIfVisible_inv])
qed

lemma cancelEvent_inv:
  assumes "scheduleOrCancel E kIOPMCancelScheduledEvent t e s = Some (r, s')" and "sortsByDate E"
    and "awInv s"
  shows "awInv s'"
proof -
  obtain found s1 where u: "removeEvent t e s = Some (found, s1)"
    using assms(1) by (auto simp: scheduleOrCancel_def split: option.splits)
  show ?thesis
  proof (cases found)
    case True
    then have sch: "schedulePowerEventTitle E t (snd (updateToDisk E t s1)) = Some s'"
      using assms(1) by (simp add: scheduleOrCancel_def u)
    have "awGood (servedBy t) s1" using removeEvent_good [OF _ u] assms(3) by (simp add: awInv_def)
    then have "awGood (servedBy t) (snd (updateToDisk E t s1))"
      by (rule awGood_cong) (simp_all add: updateToDisk_cong)
    then have "awGood {} s'" by (rule schedulePowerEventTitle_good [OF sch assms(2)])
    moreover have "countExact (snd (updateToDisk E t s1))"
      using removeEvent_count [OF _ u] assms(3) by (simp add: awInv_def updateToDisk_count)
    then have "countExact s'" by (rule schedulePowerEventTitle_count [OF sch])
    ultimately show ?thesis by (simp add: awInv_def)
  next
    case False
    then have "s' = s1" using assms(1) by (simp add: scheduleOrCancel_def u)
    moreover have "s1 = s" using False by (cases rule: removeEvent_cases [OF u]) simp_all
    ultimately show ?thesis using assms(3) by simp
  qed
qed

lemma scheduleOrCancel_inv:
  assumes "scheduleOrCancel E action t e s = Some (r, s')" and "sortsByDate E" and "SCPreferencesCommitted E t"
    and "awInv s" and "action = kIOPMScheduleEvent \<Longrightarrow> evDate e \<noteq> None" and "ev_type e = Some (EvTitle t)"
    and "ev_app e \<noteq> None"
  shows "awInv s'"
proof (cases action)
  case kIOPMScheduleEvent
  then show ?thesis using scheduleEvent_inv [of E t e s r s'] assms by simp
next
  case kIOPMCancelScheduledEvent
  then show ?thesis using assms(1,2,4) cancelEvent_inv by blast
next
  case kIOPMCancelAllScheduledEvents
  then have "schedulePowerEventTitle E t s = Some s'" using assms(1) by (simp add: scheduleOrCancel_def)
  then show ?thesis using assms(2,4) by (rule schedulePowerEventTitle_inv)
next
  case OtherPowerEventAction
  then have "schedulePowerEventTitle E t s = Some s'" using assms(1) by (simp add: scheduleOrCancel_def)
  then show ?thesis using assms(2,4) by (rule schedulePowerEventTitle_inv)
qed

text \<open>The removal of everything: each array is emptied, saved, dropped, and its title scheduled again.\<close>

definition emptied :: "title \<Rightarrow> aw \<Rightarrow> aw" where
  "emptied b s = upd_behavior b (\<lambda>B. B\<lparr>currentEvent := None, evArray := None\<rparr>) s"

lemma emptied_good:
  assumes "awGood {} s"
  shows "awGood (servedBy b) (emptied b s)"
proof -
  have a: "arrays (emptied b s) = (arrays s)(b := None)"
    by (auto simp: emptied_def arrays_def fun_eq_iff)
  have "arraysInOrder (emptied b s)"
    using assms a by (elim arraysInOrder_update [rotated]) (simp_all add: inOrder_def awGood_def)
  moreover have "typedArrays (emptied b s)"
    using assms a by (elim typedArrays_update [rotated]) (simp_all add: awGood_def slotsExcept_def)
  moreover have "typedCurrent (emptied b s)"
    using assms by (auto simp: awGood_def slotsExcept_def typedCurrent_iff emptied_def)
  moreover have "j \<in> servedBy b \<or> timerHasEvent (behaviors (emptied b s) j)" for j
    using assms by (auto simp: awGood_def slotsExcept_iff emptied_def servedBy_def timerHasEvent_def)
  ultimately show ?thesis
    using assms by (simp add: awGood_def slotsExcept_iff emptied_def daysWalkable_def)
qed

lemma removeAllLoop_good:
  assumes "removeAllLoop E bs s = Some (r, s')" and "sortsByDate E" and "\<And>t. SCPreferencesCommitted E t"
    and "awGood {} s"
  shows "awGood {} s' \<and> r = kIOReturnSuccess \<and> activeEventCnt s' = 0 \<and>
    (\<forall>b. arrays s' b = (if b \<in> set bs then None else arrays s b))"
  using assms(1,4)
proof (induction bs arbitrary: s)
  case Nil
  then have s': "s' = s\<lparr>activeEventCnt := 0\<rparr>" "r = kIOReturnSuccess" by simp_all
  have "awGood {} s'" by (rule awGood_cong [OF Nil.prems(2)]) (simp_all add: s')
  then show ?case by (simp add: s' arrays_def)
next
  case (Cons b bs)
  show ?case
  proof (cases "evArray (behaviors s b)")
    case None
    then show ?thesis using Cons by (auto simp: arrays_def)
  next
    case (Some l)
    let ?s0 = "upd_behavior b (\<lambda>B. B\<lparr>currentEvent := None, evArray := Some []\<rparr>) s"
    obtain s1 where u: "updateToDisk E b ?s0 = (kIOReturnSuccess, s1)"
      and s1: "s1 = ?s0\<lparr>disk := (disk ?s0)(b := [])\<rparr>"
      using assms(3) [of b] by (simp add: updateToDisk_def)
    let ?s2 = "upd_behavior b (\<lambda>B. B\<lparr>evArray := None\<rparr>) s1"
    obtain s2 where s2: "schedulePowerEventTitle E b ?s2 = Some s2" "removeAllLoop E bs s2 = Some (r, s')"
      using Cons.prems(1) Some u by (auto simp: bind_eq_Some_conv)
    have "awGood (servedBy b) ?s2"
      by (rule awGood_cong [OF emptied_good [OF Cons.prems(2), of b]])
        (simp_all add: s1 emptied_def fun_eq_iff)
    then have g: "awGood {} s2" using s2(1) assms(2) by (intro schedulePowerEventTitle_good)
    have "arrays s2 = arrays ?s2"
      by (rule schedulePowerEventTitle_rule [OF s2(1)]) (auto elim: schedulePowerEvent_cases)
    then have "arrays s2 = (arrays s)(b := None)"
      by (simp add: s1 arrays_def fun_eq_iff)
    with Cons.IH [OF s2(2) g] show ?thesis by simp
  qed
qed

lemma removeAllEvents_inv:
  assumes "removeAllEvents E euid s = Some (r, s')" and "sortsByDate E" and "\<And>t. SCPreferencesCommitted E t"
    and "awInv s"
  shows "awInv s'"
proof (cases "createSCSession E euid True = kIOReturnSuccess")
  case True
  then have "removeAllLoop E all_titles s = Some (r, s')"
    using assms(1) by (simp add: removeAllEvents_def)
  from removeAllLoop_good [OF this assms(2,3)] assms(4)
  have "awGood {} s'" "activeEventCnt s' = 0" "\<And>b. arrays s' b = None" by (simp_all add: awInv_def)
  then show ?thesis by (simp add: awInv_def countExact_def totalEntries_def all_titles_def)
qed (use assms in \<open>simp add: removeAllEvents_def\<close>)

lemma tagEvent_simps [simp]: "ev_type (tagEvent E c e) = ev_type e" "evDate (tagEvent E c e) = evDate e"
  by (auto simp: tagEvent_def Let_def evDate_def split: option.split)

lemma io_pm_schedule_power_event_inv:
  assumes "io_pm_schedule_power_event E c package action s = Some (r, s')"
    and "orderly E (AwSchedule c package action)" and "awInv s"
  shows "awInv s'"
proof -
  have E: "sortsByDate E" "\<And>t. SCPreferencesCommitted E t" using assms(2) by (simp_all add: orderly_def)
  consider "s' = s"
    | "removeAllEvents E (callerEUID c) s = Some (r, s')"
    | e t where "package = Some e" "ev_type (tagEvent E c e) = Some (EvTitle t)"
        "scheduleOrCancel E action t (tagEvent E c e) s = Some (r, s')"
    using assms(1)
    by (auto simp: io_pm_schedule_power_event_def Let_def split: if_splits option.splits evType.splits)
  then show ?thesis
  proof cases
    case 2
    then show ?thesis using E assms(3) by (rule removeAllEvents_inv)
  next
    case 3
    show ?thesis
    proof (rule scheduleOrCancel_inv [OF 3(3) E assms(3) _ 3(2)])
      show "ev_app (tagEvent E c e) \<noteq> None" using assms(2) 3(1) by (simp add: orderly_def)
    next
      assume "action = kIOPMScheduleEvent"
      then show "evDate (tagEvent E c e) \<noteq> None" using assms(2) 3(1) by (simp add: orderly_def)
    qed
  qed (use assms(3) in simp)
qed

lemma repeating_inv:
  assumes "awInv s" and "walkable off" and "walkable on"
  shows "awInv (s\<lparr>repeatingPowerOff := off, repeatingPowerOn := on\<rparr>)"
proof -
  have "arrays (s\<lparr>repeatingPowerOff := off, repeatingPowerOn := on\<rparr>) = arrays s"
    by (simp add: arrays_def fun_eq_iff)
  with assms show ?thesis
    by (simp add: awInv_def awGood_def arraysInOrder_def slotsExcept_def typedArrays_def typedCurrent_def
        daysWalkable_def countExact_def totalEntries_def)
qed

lemma io_pm_schedule_repeat_event_inv:
  assumes "io_pm_schedule_repeat_event E c package s = Some (r, s')"
    and "orderly E (AwScheduleRepeat c package)" and "awInv s"
  shows "awInv s'"
proof (cases package)
  case (Some p)
  obtain off on where p: "p = (off, on)" by (cases p)
  have E: "sortsByDate E" and w: "walkable off" "walkable on"
    using assms(2) by (simp_all add: orderly_def Some p)
  note i = repeating_inv [OF assms(3) w]
  note step = schedulePowerEventType_inv [OF _ E]
  show ?thesis
    using assms(1) i step assms(3)
    by (auto simp: io_pm_schedule_repeat_event_def Some p Let_def bind_eq_Some_conv split: if_splits)
qed (use assms in \<open>simp add: io_pm_schedule_repeat_event_def\<close>)

lemma io_pm_cancel_repeat_events_inv:
  assumes "io_pm_cancel_repeat_events E c s = Some (r, s')" and "sortsByDate E" and "awInv s"
  shows "awInv s'"
proof -
  have w: "walkable None" by (simp add: walkable_def)
  note i = repeating_inv [OF assms(3) w w]
  note step = schedulePowerEventType_inv [OF _ assms(2)]
  show ?thesis
    using assms(1) i step assms(3)
    by (auto simp: io_pm_cancel_repeat_events_def Let_def bind_eq_Some_conv split: if_splits)
qed

lemma timerExpirationCallout_fields:
  assumes "timerExpirationCallout E b v s = Some s'"
  shows "behaviors s' = behaviors s" and "activeEventCnt s' = activeEventCnt s"
    and "repeatingPowerOff s' = repeatingPowerOff s" and "repeatingPowerOn s' = repeatingPowerOn s"
  using assms
  by (auto simp: timerExpirationCallout_def wakeTimerExpiredCallout_def sleepTimerExpiredCallout_def Let_def
      split: title.splits option.splits prod.splits if_splits)

definition disarmed :: "title \<Rightarrow> aw \<Rightarrow> aw" where
  "disarmed b s = upd_behavior b (\<lambda>B. B\<lparr>currentEvent := None, evTimer := None\<rparr>) s"

lemma disarmed_inv:
  assumes "awInv s"
  shows "awInv (disarmed b s)"
proof -
  have "arrays (disarmed b s) = arrays s" by (simp add: disarmed_def arrays_def fun_eq_iff)
  with assms show ?thesis
    by (simp add: awInv_def awGood_def arraysInOrder_def slotsExcept_iff typedArrays_def typedCurrent_iff
        daysWalkable_def countExact_def totalEntries_def)
      (simp add: disarmed_def timerHasEvent_def)
qed

lemma handleTimerExpiration_inv:
  assumes "handleTimerExpiration E b s = Some s'" and "sortsByDate E" and "awInv s"
    and "evTimer (behaviors s b) \<noteq> None"
  shows "awInv s'"
proof -
  have b: "b \<noteq> kIOPMAutoWakeOrPowerOn"
    using assms(3,4) by (auto simp: awInv_def awGood_def slotsExcept_def)
  let ?s1 = "upd_behavior b (\<lambda>B. B\<lparr>evTimer := None\<rparr>) s"
  obtain s2 where s2: "timerExpirationCallout E b (currentEvent (behaviors ?s1 b)) ?s1 = Some s2"
      "schedulePowerEvent E b (upd_behavior b (\<lambda>B. B\<lparr>currentEvent := None\<rparr>) s2) = Some s'"
    using assms(1) by (auto simp: handleTimerExpiration_def Let_def bind_eq_Some_conv)
  have "awInv (upd_behavior b (\<lambda>B. B\<lparr>currentEvent := None\<rparr>) s2)"
    by (rule awInv_cong [OF disarmed_inv [OF assms(3), of b]])
      (simp_all add: timerExpirationCallout_fields [OF s2(1)] disarmed_def fun_eq_iff)
  then show ?thesis by (rule schedulePowerEvent_inv [OF s2(2) b assms(2)])
qed

lemma wakeTitle_inv: "wakeTitle E b s = Some s' \<Longrightarrow> sortsByDate E \<Longrightarrow> awInv s \<Longrightarrow> awInv s'"
  by (auto simp: wakeTitle_def Let_def purgePastEvents_inv split: if_splits intro: schedulePowerEvent_inv)

lemma AutoWakeCapabilitiesNotification_inv:
  assumes "AutoWakeCapabilitiesNotification E c s = Some s'" and "sortsByDate E" and "awInv s"
  shows "awInv s'"
proof (cases c)
  case SystemDidWake
  then have "overTitles (wakeTitle E) all_titles s = Some s'"
    using assms(1) by (simp add: AutoWakeCapabilitiesNotification_def)
  then show ?thesis using assms(3) by (rule overTitles_rule) (rule wakeTitle_inv [OF _ assms(2)])
next
  case SystemWillSleep
  then have "schedulePowerEvent E kIOPMAutoWake s = Some s'"
    using assms(1) by (simp add: AutoWakeCapabilitiesNotification_def)
  then show ?thesis using assms(2,3) by (auto intro: schedulePowerEvent_inv)
qed (use assms in \<open>simp add: AutoWakeCapabilitiesNotification_def\<close>)

lemma AutoWakeCalendarChange_inv:
  assumes "AutoWakeCalendarChange E s = Some s'" and "sortsByDate E" and "awInv s"
  shows "awInv s'"
  using assms(1,3) unfolding AutoWakeCalendarChange_def
proof (rule overTitles_rule)
  fix b s s'
  assume "(if b \<noteq> kIOPMAutoWakeOrPowerOn then schedulePowerEvent E b s else Some s) = Some s'" "awInv s"
  then show "awInv s'" using assms(2) by (auto split: if_splits intro: schedulePowerEvent_inv)
qed

lemma checkPendingWakeReqs_inv:
  assumes "awInv s"
  shows "awInv (snd (checkPendingWakeReqs E opts s))"
proof -
  have a: "awInv (s'\<lparr>wakePurgeAllowed := x, purgePrevent_ts := y\<rparr>)" if "awInv s'" for s' x y
    using that by (rule awInv_cong) simp_all
  show ?thesis
    using assms unfolding checkPendingWakeReqs_def Let_def
    by (auto simp: a purgePastEvents_inv awEmit_inv split: option.split)
qed

lemma awStep_inv:
  assumes "awStep E c s = Some s'" and "orderly E c" and "awEnabled c s" and "awInv s"
  shows "awInv s'"
proof -
  have E: "sortsByDate E" using assms(2) by (simp add: orderly_def)
  show ?thesis
  proof (cases c)
    case (AwTimerFired b)
    then show ?thesis using assms E by (auto intro: handleTimerExpiration_inv)
  next
    case (AwCapabilities ch)
    then show ?thesis using assms E by (auto intro: AutoWakeCapabilitiesNotification_inv)
  next
    case AwCalendarChange
    then show ?thesis using assms E by (auto intro: AutoWakeCalendarChange_inv)
  next
    case (AwSchedule cl package action)
    then show ?thesis using assms by (auto intro: io_pm_schedule_power_event_inv)
  next
    case (AwScheduleRepeat cl package)
    then show ?thesis using assms by (auto intro: io_pm_schedule_repeat_event_inv)
  next
    case (AwCancelRepeat cl)
    then show ?thesis using assms E by (auto intro: io_pm_cancel_repeat_events_inv)
  next
    case (AwCheckPending opts)
    then show ?thesis using assms checkPendingWakeReqs_inv by auto
  qed
qed
section \<open>The start\<close>

lemma removeEventsByAppName_arrays:
  "removeEventsByAppName b app s = Some s' \<Longrightarrow>
     arrays s' = (arrays s)(b := map_option (filter (\<lambda>v. hasAppName app v \<noteq> Some True)) (arrays s b))"
  by (auto simp: removeEventsByAppName_def arrays_def Let_def fun_eq_iff split: option.splits if_splits)

lemma removeEventsByAppName_returns:
  "list_all named (entries (arrays s b)) \<Longrightarrow> removeEventsByAppName b app s \<noteq> None"
  by (auto simp: removeEventsByAppName_def arrays_def Let_def hasAppName_named list_ex_iff list_all_iff
      split: option.splits)

lemma removeEventsByAppName_fields:
  assumes "removeEventsByAppName b app s = Some s'"
  shows "evTimer (behaviors s' j) = evTimer (behaviors s j)"
  "currentEvent (behaviors s' j) \<in>
     (if j = b then {None, currentEvent (behaviors s j)} else {currentEvent (behaviors s j)})"
  "repeatingPowerOff s' = repeatingPowerOff s"
  "repeatingPowerOn s' = repeatingPowerOn s"
  using assms by (auto simp: removeEventsByAppName_def Let_def split: option.splits if_splits)

lemma removeEventsByAppName_inv:
  assumes "awInv s" and r: "removeEventsByAppName b app s = Some s'"
  shows "countExact s'" and "awGood {b} s'"
    and "b = kIOPMAutoWakeOrPowerOn \<Longrightarrow> awInv s'"
proof -
  have len: "(of_nat (length (filter P l)) :: u32) + of_nat (length (filter (\<lambda>v. \<not> P v) l)) = of_nat (length l)"
    for P and l :: "entry list"
    using sum_length_filter_compl [of P l] by (metis of_nat_add)
  show c: "countExact s'"
  proof (rule countExact_update [OF _ removeEventsByAppName_arrays [OF r]])
    show "countExact s" using assms(1) by (simp add: awInv_def)
    show "activeEventCnt s' + of_nat (length (entries (arrays s b))) = activeEventCnt s +
      of_nat (length (entries (map_option (filter (\<lambda>v. hasAppName app v \<noteq> Some True)) (arrays s b))))"
      using len [of "\<lambda>v. hasAppName app v = Some True"] r
      by (cases "arrays s b")
        (auto simp: removeEventsByAppName_def arrays_def Let_def algebra_simps split: if_splits)
  qed
  have g: "awGood {} s" using assms(1) by (simp add: awInv_def)
  have "arraysInOrder s'"
  proof (rule arraysInOrder_update [OF _ removeEventsByAppName_arrays [OF r]])
    have "inOrder (arrays s b)" using g by (simp add: awGood_def arraysInOrder_iff)
    then show "inOrder (map_option (filter (\<lambda>v. hasAppName app v \<noteq> Some True)) (arrays s b))"
      by (cases "arrays s b") (simp_all add: inOrder_def list_all_iff sorted_filter)
  qed (use g in \<open>simp add: awGood_def\<close>)
  moreover have "typedArrays s'"
  proof (rule typedArrays_update [OF _ removeEventsByAppName_arrays [OF r]])
    have "list_all (typedEntry b) (entries (arrays s b))"
      using g by (simp add: awGood_def slotsExcept_iff typedArrays_iff)
    then show "list_all (typedEntry b) (entries (map_option (filter (\<lambda>v. hasAppName app v \<noteq> Some True)) (arrays s b)))"
      by (cases "arrays s b") (simp_all add: list_all_iff)
  qed (use g in \<open>simp add: awGood_def slotsExcept_iff\<close>)
  moreover have "typedCurrent s'"
    unfolding typedCurrent_iff
  proof (intro allI impI)
    fix j e
    assume "currentEvent (behaviors s' j) = Some e"
    then have "currentEvent (behaviors s j) = Some e"
      using removeEventsByAppName_fields(2) [OF r, of j] by (simp split: if_splits)
    then show "eventOf j e" using g by (simp add: awGood_def slotsExcept_iff typedCurrent_iff)
  qed
  moreover have "j = b \<or> timerHasEvent (behaviors s' j)" for j
  proof (cases "j = b")
    case False
    then have "currentEvent (behaviors s' j) = currentEvent (behaviors s j)"
      using removeEventsByAppName_fields(2) [OF r, of j] by simp
    then show ?thesis
      using g by (simp add: awGood_def slotsExcept_iff timerHasEvent_def removeEventsByAppName_fields(1) [OF r])
  qed simp
  ultimately show g': "awGood {b} s'"
    using g by (simp add: awGood_def slotsExcept_iff removeEventsByAppName_fields(1,3,4) [OF r] daysWalkable_def)
  show "awInv s'" if "b = kIOPMAutoWakeOrPowerOn"
  proof -
    have "timerHasEvent (behaviors s' b)" using g' that by (simp add: awGood_def slotsExcept_iff timerHasEvent_def)
    then have "awGood {} s'" using g' by (auto simp: awGood_def slotsExcept_iff)
    with c show ?thesis by (simp add: awInv_def)
  qed
qed

lemma primeTitle_inv:
  assumes "primeTitle E b s = Some s'" and "sortsByDate E" and "awInv s"
  shows "awInv s'"
proof -
  obtain s1 where s1: "removeEventsByAppName b kIOPMRepeatingAppName (purgePastEvents E b s) = Some s1"
    and rest: "(if b \<noteq> kIOPMAutoWakeOrPowerOn then schedulePowerEvent E b s1 else Some s1) = Some s'"
    using assms(1) by (auto simp: primeTitle_def bind_eq_Some_conv)
  note i = removeEventsByAppName_inv [OF purgePastEvents_inv [OF assms(3)] s1]
  show ?thesis
  proof (cases "b = kIOPMAutoWakeOrPowerOn")
    case True
    then show ?thesis using i(3) rest by simp
  next
    case False
    then have sch: "schedulePowerEvent E b s1 = Some s'" using rest by simp
    show ?thesis
      using schedulePowerEvent_good [OF sch False assms(2) i(2)] schedulePowerEvent_count [OF sch i(1)]
      by (simp add: awInv_def)
  qed
qed

lemma awInv_named: "awInv s \<Longrightarrow> list_all named (entries (arrays s b))"
  using typedEntry_named [of b "entries (arrays s b)"]
  by (simp add: awInv_def awGood_def slotsExcept_def typedArrays_iff)

lemma loaded_inv:
  assumes "savedInOrder d" and "walkable off" and "walkable on"
  shows "awInv (copyScheduledRepeatPowerEvents E off on (copyScheduledPowerChangeArrays E (awLoaded d)))"
    (is "awInv ?s")
proof -
  have a: "arrays ?s b = (if SCPreferencesCreated E \<and> d b \<noteq> [] then Some (d b) else None)" for b
    by (simp add: copyScheduledRepeatPowerEvents_def copyScheduledPowerChangeArrays_def awLoaded_def arrays_def)
  have e: "entries (arrays ?s b) = (if SCPreferencesCreated E then d b else [])" for b
    by (simp add: a)
  have slot: "currentEvent (behaviors ?s b) = None" "evTimer (behaviors ?s b) = None" for b
    by (simp_all add: copyScheduledRepeatPowerEvents_def copyScheduledPowerChangeArrays_def awLoaded_def)
  have "daysWalkable ?s"
    using assms(2,3)
    by (auto simp: daysWalkable_def copyScheduledRepeatPowerEvents_def copyScheduledPowerChangeArrays_def
        awLoaded_def walkable_def split: option.splits)
  moreover have "countExact ?s"
    unfolding countExact_def totalEntries_def e
    by (simp add: copyScheduledRepeatPowerEvents_def copyScheduledPowerChangeArrays_def awLoaded_def all_titles_def)
  moreover have "inOrder (arrays ?s b)" "list_all (typedEntry b) (entries (arrays ?s b))" for b
    using assms(1) by (simp_all add: savedInOrder_def list_all_iff [of _ all_titles] inOrder_def e)
  ultimately show ?thesis
    by (simp add: awInv_def awGood_def arraysInOrder_iff slotsExcept_iff typedArrays_iff typedCurrent_iff
        timerHasEvent_def slot)
qed

lemma AutoWake_prime_inv:
  assumes "AutoWake_prime E off on (awLoaded d) = Some s" and "sortsByDate E" and "savedInOrder d"
    and "walkable off" and "walkable on"
  shows "awInv s"
proof -
  have l: "(awLoaded d)\<lparr>behaviors := (\<lambda>_. \<lparr>evArray = None, currentEvent = None, evTimer = None\<rparr>)\<rparr> = awLoaded d"
    by (simp add: awLoaded_def)
  have "overTitles (primeTitle E) all_titles
      (copyScheduledRepeatPowerEvents E off on (copyScheduledPowerChangeArrays E (awLoaded d))) = Some s"
    using assms(1) by (simp add: AutoWake_prime_def Let_def l)
  then show ?thesis
    using loaded_inv [OF assms(3-5)] by (rule overTitles_rule) (rule primeTitle_inv [OF _ assms(2)])
qed

theorem awReachable_inv: "awReachable s \<Longrightarrow> awInv s"
  by (induction rule: awReachable.induct) (auto intro: AutoWake_prime_inv awStep_inv)

end
