(* ===== verification/AutoWakeDays.thy ===== *)
theory AutoWakeDays
  imports AutoWakeReach
begin

unbundle bit_operations_syntax

text \<open>
  The walk over the days of a repeating event against a search of the next seven days, and from
  it: every orderly call in a reachable state of the scheduler returns.
\<close>

section \<open>The next day\<close>

lemma nextDay_sound:
  assumes "nextDay dm c = Some y"
  shows "c < 7 \<longrightarrow> y < 7 \<and> bit dm y"
proof (rule nextDay.raw_induct [where P = "\<lambda>dm c y. c < 7 \<longrightarrow> y < 7 \<and> bit dm y", OF _ assms])
  fix walk dm check y
  assume "\<And>dm check y. walk dm check = Some y \<Longrightarrow> check < 7 \<longrightarrow> y < 7 \<and> bit dm y"
    and "(if bit dm check then Some check else walk dm ((check + 1) mod 7)) = Some y"
  then show "check < 7 \<longrightarrow> y < 7 \<and> bit dm y" by (auto split: if_splits)
qed

definition dayAfter :: "int \<Rightarrow> nat \<Rightarrow> nat option" where
  "dayAfter dm c = find (\<lambda>k. bit dm ((c + k) mod 7)) [0..<7]"

lemma find_upt_Some:
  "find P [0..<n] = Some k \<longleftrightarrow> k < n \<and> P k \<and> (\<forall>j<k. \<not> P j)"
  by (auto simp: find_Some_iff)

lemma nextDay_search:
  assumes "c < 7"
  shows "nextDay dm c = map_option (\<lambda>k. (c + k) mod 7) (dayAfter dm c)"
proof (cases "dayAfter dm c")
  case (Some k)
  then have "bit dm ((c + k) mod 7)" "\<And>j. j < k \<Longrightarrow> \<not> bit dm ((c + j) mod 7)"
    by (simp_all add: dayAfter_def find_upt_Some)
  then show ?thesis using nextDay_found assms Some by simp
next
  case None
  have no: "\<not> bit dm y" if "y < 7" for y
  proof -
    have "(c + (y + 7 - c) mod 7) mod 7 = y"
      using that assms by (simp add: mod_add_right_eq)
    moreover have "(y + 7 - c) mod 7 \<in> set [0..<7]" by simp
    ultimately show ?thesis using None unfolding dayAfter_def find_None_iff by metis
  qed
  have "nextDay dm c = None"
    using nextDay_sound [of dm c] no assms by (cases "nextDay dm c") auto
  then show ?thesis by (simp add: None)
qed

text \<open>The days until the event, from the search of the next seven days.\<close>

definition daysAhead :: "int \<Rightarrow> int \<Rightarrow> int option" where
  "daysAhead dm today = map_option int (find (\<lambda>d. bit dm (nat ((today - 1 + int d) mod 7))) [1..<8])"

lemma daysAhead_dayAfter:
  assumes "1 \<le> today"
  shows "daysAhead dm today = map_option (\<lambda>k. int k + 1) (dayAfter dm (nat (today mod 7)))"
proof -
  have eq: "nat ((today + int k) mod 7) = (k + nat (today mod 7)) mod 7" for k
  proof -
    have "int ((k + nat (today mod 7)) mod 7) = (today + int k) mod 7"
      by (simp add: zmod_int mod_add_right_eq add.commute)
    then show ?thesis by (metis nat_int)
  qed
  have "[1..<8] = map Suc [0..<7]" by (simp add: map_Suc_upt)
  then have "find P [1..<8] = map_option Suc (find (P \<circ> Suc) [0..<7])" for P
    by (simp add: upt_rec)
  then show ?thesis
    by (simp add: daysAhead_def dayAfter_def comp_def eq option.map_comp add.commute)
qed

lemma daysUntil_ahead:
  assumes "1 \<le> today"
  shows "daysUntil E e today =
    (if getRepeatingDictionaryDayMask e = 0 then Some (- 1)
     else if upcomingToday E e today then Some 0
     else daysAhead (getRepeatingDictionaryDayMask e) today)"
proof -
  let ?c = "nat (today mod 7)"
  have c: "?c < 7" by simp
  have d: "(let d = (int ((?c + k) mod 7) - today + 1 + 7) mod 7 in if d = 0 then 7 else d) = int k + 1"
    if "k < 7" for k
  proof -
    have i: "int ((?c + k) mod 7) = (today + int k) mod 7"
      by (simp add: zmod_int mod_add_left_eq)
    have "((today + int k) mod 7 - today + 1 + 7) mod 7 = (int k + 1) mod 7"
      using mod_add_left_eq [of "today + int k" 7 "8 - today"] mod_add_self2 [of "int k + 1" 7]
      by (simp add: algebra_simps)
    then have "(int ((?c + k) mod 7) - today + 1 + 7) mod 7 = (int k + 1) mod 7" by (simp only: i)
    moreover have "(int k + 1) mod 7 = (if k = 6 then 0 else int k + 1)" using that by auto
    ultimately show ?thesis by (simp add: Let_def)
  qed
  let ?dm = "getRepeatingDictionaryDayMask e"
  have "nextDay ?dm ?c \<bind> (\<lambda>check. let d = (int check - today + 1 + 7) mod 7 in Some (if d = 0 then 7 else d))
      = daysAhead ?dm today"
  proof (cases "dayAfter ?dm ?c")
    case (Some k)
    then have "k < 7" by (simp add: dayAfter_def find_upt_Some)
    from d [OF this] show ?thesis
      by (simp only: nextDay_search [OF c] daysAhead_dayAfter [OF assms] Some option.map bind.bind_lunit Let_def)
  qed (simp add: nextDay_search [OF c] daysAhead_dayAfter [OF assms])
  then show ?thesis by (simp only: daysUntil_def Let_def)
qed

lemma dayAfter_exists:
  assumes "list_ex (\<lambda>d. bit dm d) [0..<7]" and "c < 7"
  shows "dayAfter dm c \<noteq> None"
proof -
  obtain d where d: "d < 7" "bit dm d" using assms(1) by (auto simp: list_ex_iff)
  have "(c + (d + 7 - c) mod 7) mod 7 = d" using d assms(2) by (simp add: mod_add_right_eq)
  moreover have "(d + 7 - c) mod 7 \<in> set [0..<7]" by simp
  ultimately show ?thesis using d(2) unfolding dayAfter_def find_None_iff by metis
qed

lemma daysUntil_returns:
  assumes "walkable (Some e)"
  shows "daysUntil E e today \<noteq> None"
proof (cases "getRepeatingDictionaryDayMask e = 0 \<or> upcomingToday E e today")
  case False
  then have "list_ex (\<lambda>d. bit (getRepeatingDictionaryDayMask e) d) [0..<7]"
    using assms by (simp add: walkable_def)
  then have "dayAfter (getRepeatingDictionaryDayMask e) (nat (today mod 7)) \<noteq> None"
    by (rule dayAfter_exists) simp
  then show ?thesis using False by (auto simp: daysUntil_def nextDay_search Let_def)
qed (auto simp: daysUntil_def Let_def)

section \<open>Every orderly call returns\<close>

lemma copyEarliestUpcoming_returns:
  assumes "daysWalkable s"
  shows "copyEarliestUpcoming E b s \<noteq> None"
proof -
  have w: "walkable (repeatDict (repeatingPowerOff s) (repeatingPowerOn s) b)"
    using assms by (auto simp: daysWalkable_def repeatDict_def walkable_def)
  have "copyNextRepeatingEvent E (repeatingPowerOff s) (repeatingPowerOn s) b \<noteq> None"
  proof (cases "repeatDict (repeatingPowerOff s) (repeatingPowerOn s) b")
    case (Some e)
    then obtain days where "daysUntil E e (cfDayOfWeek E) = Some days"
      using w daysUntil_returns by (metis option.exhaust)
    with Some show ?thesis by (simp add: copyNextRepeatingEvent_def Let_def)
  qed (simp add: copyNextRepeatingEvent_def)
  then show ?thesis by (auto simp: copyEarliestUpcoming_def Let_def)
qed

lemma schedulePowerEvent_returns:
  assumes "daysWalkable s"
  obtains s' where "schedulePowerEvent E b s = Some s'" and "daysWalkable s'"
proof -
  let ?s1 = "upd_behavior b (\<lambda>B. B\<lparr>evTimer := None\<rparr>) s"
  have "daysWalkable ?s1" using assms by (simp add: daysWalkable_def)
  then have "copyEarliestUpcoming E b ?s1 \<noteq> None" by (rule copyEarliestUpcoming_returns)
  then have "schedulePowerEvent E b s \<noteq> None" by (auto simp: schedulePowerEvent_def Let_def)
  with assms schedulePowerEvent_days that show ?thesis by blast
qed

lemma schedulePowerEventTitle_returns:
  assumes "daysWalkable s"
  obtains s' where "schedulePowerEventTitle E t s = Some s'" and "daysWalkable s'"
proof -
  obtain s1 where s1: "schedulePowerEvent E kIOPMAutoWake s = Some s1" "daysWalkable s1"
    using schedulePowerEvent_returns [OF assms] .
  obtain s2 where s2: "schedulePowerEvent E kIOPMAutoPowerOn s1 = Some s2" "daysWalkable s2"
    using schedulePowerEvent_returns [OF s1(2)] .
  obtain s3 where s3: "schedulePowerEvent E t s = Some s3" "daysWalkable s3"
    using schedulePowerEvent_returns [OF assms] .
  show ?thesis
    using that [of s2] that [of s3] s1 s2 s3
    by (cases "t = kIOPMAutoWakeOrPowerOn") (simp_all add: schedulePowerEventTitle_def)
qed

lemma schedulePowerEventType_returns:
  assumes "daysWalkable s"
  obtains s' where "schedulePowerEventType E ty s = Some s'" and "daysWalkable s'"
proof (cases ty)
  case (EvTitle t)
  obtain s' where "schedulePowerEventTitle E t s = Some s'" "daysWalkable s'"
    using schedulePowerEventTitle_returns [OF assms] .
  then show ?thesis using that EvTitle by (simp add: schedulePowerEventType_def)
qed (use that assms in \<open>simp_all add: schedulePowerEventType_def\<close>)

lemma overTitles_returns:
  assumes "\<And>b s. daysWalkable s \<Longrightarrow> \<exists>s'. f b s = Some s' \<and> daysWalkable s'" and "daysWalkable s"
  shows "overTitles f bs s \<noteq> None"
  using assms(2)
proof (induction bs arbitrary: s)
  case (Cons b bs)
  obtain s' where "f b s = Some s'" "daysWalkable s'" using assms(1) Cons.prems by blast
  then show ?case using Cons.IH by simp
qed simp

lemma timerExpirationCallout_returns:
  "evDate e \<noteq> None \<Longrightarrow> timerExpirationCallout E b (Some e) s \<noteq> None"
  by (auto simp: timerExpirationCallout_def wakeTimerExpiredCallout_def sleepTimerExpiredCallout_def Let_def
      split: title.split option.split prod.split)

lemma handleTimerExpiration_returns:
  assumes "awInv s" and "evTimer (behaviors s b) \<noteq> None"
  shows "handleTimerExpiration E b s \<noteq> None"
proof -
  let ?s1 = "upd_behavior b (\<lambda>B. B\<lparr>evTimer := None\<rparr>) s"
  have "timerHasEvent (behaviors s b)" using assms(1) by (auto simp: awInv_def awGood_def slotsExcept_iff)
  then obtain e where e: "currentEvent (behaviors s b) = Some e" "evDate e \<noteq> None"
    using assms(2) by (auto simp: timerHasEvent_def split: option.splits)
  obtain s2 where s2: "timerExpirationCallout E b (Some e) ?s1 = Some s2"
    using timerExpirationCallout_returns [OF e(2), of E b ?s1] by auto
  have "daysWalkable (upd_behavior b (\<lambda>B. B\<lparr>currentEvent := None\<rparr>) s2)"
    using assms(1) timerExpirationCallout_fields [OF s2] by (simp add: daysWalkable_def awInv_def awGood_def)
  then obtain s3 where "schedulePowerEvent E b (upd_behavior b (\<lambda>B. B\<lparr>currentEvent := None\<rparr>) s2) = Some s3"
    by (rule schedulePowerEvent_returns)
  then show ?thesis by (simp add: handleTimerExpiration_def Let_def e(1) s2)
qed

lemma daysWalkable_cong:
  "daysWalkable s \<Longrightarrow> repeatingPowerOff s' = repeatingPowerOff s \<Longrightarrow> repeatingPowerOn s' = repeatingPowerOn s \<Longrightarrow>
   daysWalkable s'"
  by (simp add: daysWalkable_def)

lemma removeAllLoop_returns: "daysWalkable s \<Longrightarrow> removeAllLoop E bs s \<noteq> None"
proof (induction bs arbitrary: s)
  case (Cons b bs)
  show ?case
  proof (cases "evArray (behaviors s b)")
    case (Some l)
    let ?s0 = "upd_behavior b (\<lambda>B. B\<lparr>currentEvent := None, evArray := Some []\<rparr>) s"
    obtain r s1 where u: "updateToDisk E b ?s0 = (r, s1)" by (metis surj_pair)
    have "daysWalkable (upd_behavior b (\<lambda>B. B\<lparr>evArray := None\<rparr>) s1)"
      using updateToDisk_cong [of E b ?s0] Cons.prems by (simp add: u daysWalkable_def)
    then obtain s2 where "schedulePowerEventTitle E b (upd_behavior b (\<lambda>B. B\<lparr>evArray := None\<rparr>) s1) = Some s2"
        "daysWalkable s2"
      by (rule schedulePowerEventTitle_returns)
    then show ?thesis using Cons.IH by (simp add: Some u)
  qed (use Cons in simp)
qed simp

lemma removeEvent_days: "daysWalkable s \<Longrightarrow> removeEvent t e s = Some (found, s') \<Longrightarrow> daysWalkable s'"
  by (erule removeEvent_cases) (simp_all add: daysWalkable_def takeOut_fields)

lemma scheduleEvent_returns:
  assumes "daysWalkable s" and "SCPreferencesCommitted E t"
  shows "scheduleOrCancel E kIOPMScheduleEvent t e s \<noteq> None"
proof -
  obtain r s1 where u: "updateToDisk E t (addEvent E t e s) = (r, s1)" by (metis surj_pair)
  have r: "r = kIOReturnSuccess"
    using updateToDisk_committed [OF assms(2) addEvent_array [of E t e s]] by (simp add: u)
  have "daysWalkable (notifyIfVisible e s1)"
    using updateToDisk_cong [of E t "addEvent E t e s"] assms(1)
    by (simp add: u daysWalkable_def notifyIfVisible_def addEvent_fields)
  then obtain s2 where "schedulePowerEventTitle E t (notifyIfVisible e s1) = Some s2"
    by (rule schedulePowerEventTitle_returns)
  then show ?thesis by (simp add: scheduleOrCancel_def u r)
qed

lemma cancelEvent_returns:
  assumes "daysWalkable s" and "removeEvent t e s \<noteq> None"
  shows "scheduleOrCancel E kIOPMCancelScheduledEvent t e s \<noteq> None"
proof -
  obtain found s1 where u: "removeEvent t e s = Some (found, s1)" using assms(2) by auto
  have "daysWalkable (snd (updateToDisk E t s1))"
    using removeEvent_days [OF assms(1) u] by (simp add: daysWalkable_def updateToDisk_cong)
  then obtain s2 where "schedulePowerEventTitle E t (snd (updateToDisk E t s1)) = Some s2"
    by (rule schedulePowerEventTitle_returns)
  then show ?thesis by (simp add: scheduleOrCancel_def u)
qed

lemma scheduleOrCancel_returns:
  assumes "awInv s" and "SCPreferencesCommitted E t" and "ev_app e \<noteq> None"
  shows "scheduleOrCancel E action t e s \<noteq> None"
proof -
  have d: "daysWalkable s" using assms(1) by (simp add: awInv_def awGood_def)
  obtain s2 where s2: "schedulePowerEventTitle E t s = Some s2" using d by (rule schedulePowerEventTitle_returns)
  show ?thesis
  proof (cases action)
    case kIOPMScheduleEvent
    then show ?thesis using scheduleEvent_returns [OF d assms(2)] by simp
  next
    case kIOPMCancelScheduledEvent
    then show ?thesis
      using cancelEvent_returns [OF d removeEvent_returns [OF awInv_named [OF assms(1)] assms(3)]] by simp
  qed (simp_all add: scheduleOrCancel_def s2)
qed

lemma io_pm_schedule_power_event_returns:
  assumes "awInv s" and "orderly E (AwSchedule c package action)"
  shows "io_pm_schedule_power_event E c package action s \<noteq> None"
proof -
  have "removeAllLoop E all_titles s \<noteq> None"
    using assms(1) removeAllLoop_returns by (simp add: awInv_def awGood_def)
  moreover have "scheduleOrCancel E action t (tagEvent E c e) s \<noteq> None" if "package = Some e" for e t
    using scheduleOrCancel_returns [OF assms(1)] assms(2) that by (simp add: orderly_def)
  ultimately show ?thesis
    by (auto simp: io_pm_schedule_power_event_def removeAllEvents_def Let_def split: option.split evType.split)
qed

lemma io_pm_schedule_repeat_event_returns:
  assumes "orderlyCall E (AwScheduleRepeat c package)"
  shows "io_pm_schedule_repeat_event E c package s \<noteq> None"
proof (cases package)
  case (Some p)
  obtain off on where p: "p = (off, on)" by (cases p)
  let ?s1 = "s\<lparr>repeatingPowerOff := off, repeatingPowerOn := on\<rparr>"
  have "daysWalkable ?s1" using assms by (simp add: Some p daysWalkable_def)
  then obtain s2 where s2: "schedulePowerEventType E (getRepeatingDictionaryType (repeatingPowerOff s)) ?s1 = Some s2"
      "daysWalkable s2" by (rule schedulePowerEventType_returns)
  obtain s3 where s3: "schedulePowerEventType E (getRepeatingDictionaryType (repeatingPowerOn s)) s2 = Some s3"
      "daysWalkable s3" using s2(2) by (rule schedulePowerEventType_returns)
  obtain s4 where s4: "(if getRepeatingDictionaryType (repeatingPowerOff s) \<noteq> getRepeatingDictionaryType off
      then schedulePowerEventType E (getRepeatingDictionaryType off) s3 else Some s3) = Some s4" "daysWalkable s4"
    using s3(2) schedulePowerEventType_returns by (metis (full_types))
  obtain s5 where s5: "(if getRepeatingDictionaryType (repeatingPowerOn s) \<noteq> getRepeatingDictionaryType on
      then schedulePowerEventType E (getRepeatingDictionaryType on) s4 else Some s4) = Some s5"
    using s4(2) schedulePowerEventType_returns by (metis (full_types))
  show ?thesis
    by (simp add: io_pm_schedule_repeat_event_def Some p Let_def s2(1) s3(1) s4(1) s5)
qed (simp add: io_pm_schedule_repeat_event_def)

lemma io_pm_cancel_repeat_events_returns: "io_pm_cancel_repeat_events E c s \<noteq> None"
proof -
  let ?s1 = "s\<lparr>repeatingPowerOff := None, repeatingPowerOn := None\<rparr>"
  have "daysWalkable ?s1" by (simp add: daysWalkable_def walkable_def)
  then obtain s2 where s2: "schedulePowerEventType E (getRepeatingDictionaryType (repeatingPowerOff s)) ?s1 = Some s2"
      "daysWalkable s2" by (rule schedulePowerEventType_returns)
  obtain s3 where s3: "schedulePowerEventType E (getRepeatingDictionaryType (repeatingPowerOn s)) s2 = Some s3"
    using s2(2) by (rule schedulePowerEventType_returns)
  show ?thesis by (simp add: io_pm_cancel_repeat_events_def Let_def s2(1) s3)
qed

lemma schedulePowerEvent_total:
  "daysWalkable s \<Longrightarrow> \<exists>s'. schedulePowerEvent E b s = Some s' \<and> daysWalkable s'"
  by (rule schedulePowerEvent_returns) blast+

lemma wakeTitle_total: "daysWalkable s \<Longrightarrow> \<exists>s'. wakeTitle E b s = Some s' \<and> daysWalkable s'"
  using schedulePowerEvent_total [of "purgePastEvents E b s" E b]
  by (simp add: wakeTitle_def Let_def daysWalkable_def purgePastEvents_fields)

theorem awStep_returns:
  assumes "awInv s" and "orderly E c" and "awEnabled c s"
  shows "awStep E c s \<noteq> None"
proof -
  have d: "daysWalkable s" using assms(1) by (simp add: awInv_def awGood_def)
  show ?thesis
  proof (cases c)
    case (AwTimerFired b)
    then show ?thesis using handleTimerExpiration_returns assms(1,3) by simp
  next
    case (AwCapabilities ch)
    have "overTitles (wakeTitle E) all_titles s \<noteq> None"
      using wakeTitle_total d by (rule overTitles_returns)
    moreover have "schedulePowerEvent E kIOPMAutoWake s \<noteq> None"
      using schedulePowerEvent_total [OF d, of E kIOPMAutoWake] by auto
    ultimately show ?thesis
      by (cases ch) (simp_all add: AwCapabilities AutoWakeCapabilitiesNotification_def)
  next
    case AwCalendarChange
    have "\<exists>s'. (if b \<noteq> kIOPMAutoWakeOrPowerOn then schedulePowerEvent E b s else Some s) = Some s' \<and> daysWalkable s'"
      if "daysWalkable s" for b s using schedulePowerEvent_total that by simp
    from overTitles_returns [OF this d] show ?thesis by (simp add: AwCalendarChange AutoWakeCalendarChange_def)
  next
    case (AwSchedule cl package action)
    then show ?thesis using io_pm_schedule_power_event_returns [OF assms(1)] assms(2) by simp
  next
    case (AwScheduleRepeat cl package)
    then show ?thesis using io_pm_schedule_repeat_event_returns [of E cl package] assms(2) by (simp add: orderly_def)
  next
    case (AwCancelRepeat cl)
    then show ?thesis using io_pm_cancel_repeat_events_returns by simp
  qed simp
qed

text \<open>The start returns as well, when the saved file is in order.\<close>

lemma primeTitle_returns:
  assumes "awInv s"
  shows "primeTitle E b s \<noteq> None"
proof -
  let ?s = "purgePastEvents E b s"
  have i: "awInv ?s" by (rule purgePastEvents_inv [OF assms])
  obtain s1 where s1: "removeEventsByAppName b kIOPMRepeatingAppName ?s = Some s1"
    using removeEventsByAppName_returns [OF awInv_named [OF i]] by blast
  have "daysWalkable s1" using removeEventsByAppName_inv(2) [OF i s1] by (simp add: awGood_def)
  from schedulePowerEvent_total [OF this, of E b] show ?thesis by (auto simp: primeTitle_def s1)
qed

lemma AutoWake_prime_returns:
  assumes "sortsByDate E" and "savedInOrder d" and "walkable off" and "walkable on"
  shows "AutoWake_prime E off on (awLoaded d) \<noteq> None"
proof -
  let ?s = "copyScheduledRepeatPowerEvents E off on (copyScheduledPowerChangeArrays E (awLoaded d))"
  have l: "(awLoaded d)\<lparr>behaviors := (\<lambda>_. \<lparr>evArray = None, currentEvent = None, evTimer = None\<rparr>)\<rparr> = awLoaded d"
    by (simp add: awLoaded_def)
  have "overTitles (primeTitle E) bs s \<noteq> None" if "awInv s" for bs s
    using that
  proof (induction bs arbitrary: s)
    case (Cons b bs)
    obtain s1 where s1: "primeTitle E b s = Some s1" using primeTitle_returns [OF Cons.prems] by blast
    show ?case using Cons.IH [OF primeTitle_inv [OF s1 assms(1) Cons.prems]] by (simp add: s1)
  qed simp
  from this [OF loaded_inv [OF assms(2-4)]] show ?thesis by (simp add: AutoWake_prime_def Let_def l)
qed

end
