(* ===== verification/AutoWakeNext.thy ===== *)
theory AutoWakeNext
  imports AutoWakeDays
begin

unbundle bit_operations_syntax

text \<open>
  The next event of a title, as the least of its candidates, and a request to schedule an event
  followed by the request to cancel it.
\<close>

section \<open>The next event is the least candidate\<close>

text \<open>The events a title serves: its own and the shared ones.\<close>

definition servedEvents :: "title \<Rightarrow> aw \<Rightarrow> entry list" where
  "servedEvents b s = entries (arrays s b) @
     (if sharedEvents b then entries (arrays s kIOPMAutoWakeOrPowerOn) else [])"

definition candidates :: "awEnv \<Rightarrow> pevent option \<Rightarrow> title \<Rightarrow> aw \<Rightarrow> entry list" where
  "candidates E r b s = filter (isEntryValidAndFuturistic E) (servedEvents b s) @
     (case r of Some e \<Rightarrow> [CFDictionary e] | None \<Rightarrow> [])"

definition leastOf :: "pevent option \<Rightarrow> entry list \<Rightarrow> bool" where
  "leastOf u vs \<longleftrightarrow> (case u of
     None \<Rightarrow> vs = []
   | Some e \<Rightarrow> CFDictionary e \<in> set vs \<and> list_all (\<lambda>v. evKey (CFDictionary e) \<le> evKey v) vs)"

lemma runtimeQueue_set:
  "sortsByDate E \<Longrightarrow> set (entries (runtimeQueue E b s)) = set (servedEvents b s)"
  by (simp add: runtimeQueue_def servedEvents_def copyMergedEventArray_set arrays_def)

lemma copyMergedEventArray_inOrder:
  assumes "sortsByDate E" and "inOrder a" and "inOrder b"
  shows "inOrder (copyMergedEventArray E a b)"
  using assms
  by (cases a; cases b)
    (simp_all add: copyMergedEventArray_def inOrder_def sortsByDate_def event_sort.sort_sorted
      event_sort.sort_dated)

lemma runtimeQueue_inOrder:
  assumes "sortsByDate E" and "arraysInOrder s"
  shows "inOrder (runtimeQueue E b s)"
proof -
  have o: "inOrder (evArray (behaviors s j))" for j
    using assms(2) by (simp add: arraysInOrder_iff arrays_def)
  then show ?thesis by (simp add: runtimeQueue_def copyMergedEventArray_inOrder [OF assms(1) o o])
qed

lemma firstUpcoming_least:
  assumes "inOrder a"
  shows "leastOf (firstUpcoming E a) (filter (isEntryValidAndFuturistic E) (entries a))"
proof (cases a)
  case (Some l)
  let ?q = "filter (isEntryValidAndFuturistic E) l"
  have q: "dropWhile (\<lambda>v. \<not> isEntryValidAndFuturistic E v) l = ?q"
    using purged_filter assms Some by (simp add: purged_def)
  show ?thesis
  proof (cases ?q)
    case (Cons v vs)
    then have "v \<in> set ?q" by simp
    then obtain e where v: "v = CFDictionary e"
      by (auto simp: isEntryValidAndFuturistic_def split: entry.splits)
    have "sorted (map evKey (v # vs))"
      using assms Some Cons sorted_filter [of evKey l] by (metis inOrder_def entries_simps(2))
    then show ?thesis by (simp add: Some firstUpcoming_def q Cons v leastOf_def list_all_iff)
  qed (simp add: Some firstUpcoming_def q leastOf_def)
qed (simp add: firstUpcoming_def leastOf_def)

lemma leastOf_cong: "set vs = set ws \<Longrightarrow> leastOf u vs \<Longrightarrow> leastOf u ws"
  by (auto simp: leastOf_def list_all_iff split: option.splits)

lemma leastOf_repeat:
  assumes "leastOf u vs" and "list_all dated vs" and "evDate r \<noteq> None"
  shows "leastOf
    (if compareEvDates (CFDictionary r) (entryOf u) \<in> {kCFCompareLessThan, kCFCompareEqualTo} then Some r else u)
    (vs @ [CFDictionary r])"
proof (cases u)
  case None
  then show ?thesis using assms(1,3) by (auto simp: leastOf_def entryOf_def compareEvDates_def split: option.splits)
next
  case (Some e)
  then have "dated (CFDictionary e)" "dated (CFDictionary r)"
    using assms by (auto simp: leastOf_def list_all_iff dated_def)
  then show ?thesis
    using assms(1) Some by (auto simp: compareEvDates_dated entryOf_def leastOf_def list_all_iff)
qed

lemma upcoming_dated: "isEntryValidAndFuturistic E v \<Longrightarrow> dated v"
  by (auto simp: isEntryValidAndFuturistic_def dated_def split: entry.splits option.splits)

lemma copyEarliestUpcoming_least:
  assumes "sortsByDate E" and "arraysInOrder s"
    and "copyNextRepeatingEvent E (repeatingPowerOff s) (repeatingPowerOn s) b = Some r"
  shows "\<exists>u. copyEarliestUpcoming E b s = Some u \<and> leastOf u (candidates E r b s)"
proof -
  let ?u = "firstUpcoming E (runtimeQueue E b s)"
  let ?vs = "filter (isEntryValidAndFuturistic E) (servedEvents b s)"
  have "leastOf ?u (filter (isEntryValidAndFuturistic E) (entries (runtimeQueue E b s)))"
    by (rule firstUpcoming_least [OF runtimeQueue_inOrder [OF assms(1,2)]])
  then have u: "leastOf ?u ?vs"
    by (rule leastOf_cong [rotated]) (simp add: runtimeQueue_set [OF assms(1)])
  have d: "list_all dated ?vs" by (auto simp: list_all_iff intro: upcoming_dated)
  show ?thesis
  proof (cases r)
    case None
    then show ?thesis using u by (simp add: copyEarliestUpcoming_def Let_def assms(3) candidates_def)
  next
    case (Some e)
    then have "evDate e \<noteq> None" using copyNextRepeatingEvent_typed assms(3) by blast
    from leastOf_repeat [OF u d this] Some show ?thesis
      by (simp add: copyEarliestUpcoming_def Let_def assms(3) candidates_def)
  qed
qed

section \<open>An event scheduled and cancelled\<close>

lemma removeLoop_only:
  assumes "sorted (map evKey l)" and "list_all dated l" and "evDate e \<noteq> None" and "ev_app e \<noteq> None"
    and "mset l = add_mset (CFDictionary e) (mset q)" and "\<And>v. v \<in> set q \<Longrightarrow> evKey v \<noteq> evKey (CFDictionary e)"
  shows "\<exists>l'. removeLoop e l = Some (Some (CFDictionary e, l')) \<and> mset l' = mset q"
  using assms(1,2,5,6)
proof (induction l arbitrary: q)
  case (Cons v vs)
  have de: "dated (CFDictionary e)" using assms(3) by (simp add: dated_def)
  have dv: "dated v" using Cons.prems(2) by simp
  show ?case
  proof (cases "v = CFDictionary e")
    case True
    then show ?thesis
      using Cons.prems(3) assms(4) by (auto simp: compareEvDates_dated [OF de de] sameAppName_def CFEqualNames_def)
  next
    case False
    then have vq: "v \<in> set q" using Cons.prems(3) by (metis insert_iff list.set_intros(1) set_mset_add_mset_insert set_mset_mset)
    then obtain q1 q2 where q: "q = q1 @ v # q2" by (metis split_list)
    have vs: "mset vs = add_mset (CFDictionary e) (mset (q1 @ q2))" using Cons.prems(3) q by auto
    then have "CFDictionary e \<in> set vs" by (metis set_mset_mset union_single_eq_member)
    then have "evKey v \<le> evKey (CFDictionary e)" using Cons.prems(1) by simp
    then have lt: "evKey v < evKey (CFDictionary e)" using Cons.prems(4) [OF vq] by simp
    have "\<exists>l'. removeLoop e vs = Some (Some (CFDictionary e, l')) \<and> mset l' = mset (q1 @ q2)"
      using Cons.prems vs q by (intro Cons.IH) simp_all
    then obtain l' where "removeLoop e vs = Some (Some (CFDictionary e, l'))" "mset l' = mset (q1 @ q2)" by blast
    with lt show ?thesis by (simp add: compareEvDates_dated [OF de dv] q keepEntry_def)
  qed
qed simp

lemma request_allowed:
  assumes "io_pm_schedule_power_event E c (Some e) action s = Some (kIOReturnSuccess, s')"
    and "action \<noteq> kIOPMCancelAllScheduledEvents" and "ev_type e = Some (EvTitle t)"
  shows "scheduleOrCancel E action t (tagEvent E c e) s = Some (kIOReturnSuccess, s')"
  using assms
  by (auto simp: io_pm_schedule_power_event_def Let_def split: if_splits option.splits)

lemma schedulePowerEventTitle_arrays:
  "schedulePowerEventTitle E t s = Some s' \<Longrightarrow> arrays s' = arrays s"
  by (erule schedulePowerEventTitle_rule) (auto elim: schedulePowerEvent_cases)

lemma scheduleEvent_arrays:
  assumes "scheduleOrCancel E kIOPMScheduleEvent t e s = Some (kIOReturnSuccess, s')"
  shows "arrays s' = arrays (addEvent E t e s)"
proof -
  obtain r1 s1 where u: "updateToDisk E t (addEvent E t e s) = (r1, s1)" by (metis surj_pair)
  have "r1 = kIOReturnSuccess" using assms by (auto simp: scheduleOrCancel_def u split: if_splits)
  then have "schedulePowerEventTitle E t (notifyIfVisible e s1) = Some s'"
    using assms by (auto simp: scheduleOrCancel_def u)
  then show ?thesis
    using schedulePowerEventTitle_arrays updateToDisk_arrays [of E t "addEvent E t e s"] by (fastforce simp: u)
qed

lemma scheduleEvent_days:
  assumes "scheduleOrCancel E kIOPMScheduleEvent t e s = Some (kIOReturnSuccess, s')" and "daysWalkable s"
  shows "daysWalkable s'"
proof -
  obtain r1 s1 where u: "updateToDisk E t (addEvent E t e s) = (r1, s1)" by (metis surj_pair)
  have "r1 = kIOReturnSuccess" using assms(1) by (auto simp: scheduleOrCancel_def u split: if_splits)
  then have sch: "schedulePowerEventTitle E t (notifyIfVisible e s1) = Some s'"
    using assms(1) by (auto simp: scheduleOrCancel_def u)
  have "daysWalkable (notifyIfVisible e s1)"
    using updateToDisk_cong(3,4) [of E t "addEvent E t e s"] assms(2)
    by (simp add: u notifyIfVisible_def daysWalkable_def addEvent_fields)
  then show ?thesis by (rule schedulePowerEventTitle_rule [OF sch]) (rule schedulePowerEvent_days)
qed

lemma removeEvent_found:
  assumes "arrays s t = Some l" and "removeLoop e l = Some (Some (v, l'))"
  shows "removeEvent t e s = Some (True, takeOut t v l' s)"
  using assms by (simp add: removeEvent_def arrays_def)

lemma cancelEvent_arrays:
  assumes "scheduleOrCancel E kIOPMCancelScheduledEvent t e s = Some (r, s')"
    and "arrays s t = Some l" and "removeLoop e l = Some (Some (v, l'))"
  shows "r = kIOReturnSuccess \<and> arrays s' = (arrays s)(t := Some l')"
proof -
  let ?s1 = "takeOut t v l' s"
  have "schedulePowerEventTitle E t (snd (updateToDisk E t ?s1)) = Some s'" "r = kIOReturnSuccess"
    using assms(1) removeEvent_found [OF assms(2,3)] by (auto simp: scheduleOrCancel_def)
  then show ?thesis
    using schedulePowerEventTitle_arrays updateToDisk_arrays [of E t ?s1] takeOut_fields(1) by fastforce
qed

lemma tagEvent_same:
  "callerProc c' = callerProc c \<Longrightarrow> tagEvent E c' e = tagEvent E c e"
  by (simp add: tagEvent_def)

text \<open>What the array of the title holds after the purge that precedes an insertion.\<close>

definition kept :: "awEnv \<Rightarrow> title \<Rightarrow> aw \<Rightarrow> entry list" where
  "kept E t s = entries (arrays (purgePastEvents E t s) t)"

lemma addEvent_kept:
  assumes "sortsByDate E"
  shows "\<exists>l. arrays (addEvent E t e s) = (arrays s)(t := Some l) \<and>
    mset l = add_mset (CFDictionary e) (mset (kept E t s))"
proof (cases "arrays s t")
  case None
  then have "kept E t s = []" by (auto simp: kept_def purgePastEvents_arrays)
  then show ?thesis by (auto simp: addEvent_arrays None inserted_def)
next
  case (Some l)
  then have "arrays (purgePastEvents E t s) t \<noteq> None" by (auto simp: purgePastEvents_arrays)
  then obtain q where q: "arrays (purgePastEvents E t s) t = Some q" by blast
  have "mset (CFArraySortValues E (q @ [CFDictionary e])) = add_mset (CFDictionary e) (mset q)"
    using assms by (simp add: sortsByDate_def event_sort.sort_perm)
  then show ?thesis by (auto simp: addEvent_arrays Some q inserted_def kept_def)
qed

definition noneAt :: "pevent \<Rightarrow> entry list \<Rightarrow> bool" where
  "noneAt e l \<longleftrightarrow> list_all (\<lambda>v. evKey v \<noteq> evKey (CFDictionary e)) l"

lemma schedule_then_cancel:
  assumes E: "sortsByDate E" and s: "arraysInOrder s" "daysWalkable s"
    and e: "ev_type e = Some (EvTitle t)" "evDate e \<noteq> None" "ev_app (tagEvent E c e) \<noteq> None"
    and alone: "noneAt e (kept E t s)"
    and scheduled: "io_pm_schedule_power_event E c (Some e) kIOPMScheduleEvent s = Some (kIOReturnSuccess, s1)"
    and room: "activeEventCnt s1 < kIOPMMaxScheduledEntries"
  shows "\<exists>s2 l. io_pm_schedule_power_event E c (Some e) kIOPMCancelScheduledEvent s1 = Some (kIOReturnSuccess, s2) \<and>
    arrays s2 = (arrays s)(t := Some l) \<and> mset l = mset (kept E t s)"
proof -
  let ?e = "tagEvent E c e"
  have sc: "scheduleOrCancel E kIOPMScheduleEvent t ?e s = Some (kIOReturnSuccess, s1)"
    using request_allowed [OF scheduled _ e(1)] by simp
  have session: "createSCSession E (if wakeRequestEntitled c then 0 else callerEUID c) True = kIOReturnSuccess"
    using scheduled e(1) by (auto simp: io_pm_schedule_power_event_def Let_def split: if_splits)
  have date: "evKey (CFDictionary ?e) = evKey (CFDictionary e)" by (simp add: evKey_def)
  obtain l where l: "arrays s1 = (arrays s)(t := Some l)" "mset l = add_mset (CFDictionary ?e) (mset (kept E t s))"
    using addEvent_kept [OF E, of t ?e s] scheduleEvent_arrays [OF sc] by auto
  have "arraysInOrder s1"
    using addEvent_order [OF E s(1), of ?e t] e(2) scheduleEvent_arrays [OF sc] by (simp add: arraysInOrder_iff)
  then have "inOrder (Some l)" using l(1) by (metis arraysInOrder_iff fun_upd_same)
  then obtain l' where l': "removeLoop ?e l = Some (Some (CFDictionary ?e, l'))" "mset l' = mset (kept E t s)"
    using removeLoop_only [OF _ _ _ e(3) l(2)] alone e(2) date
    by (auto simp: inOrder_def noneAt_def list_all_iff)
  have "daysWalkable s1"
    using sc s(2) by (rule scheduleEvent_days)
  then obtain r s2 where c2: "scheduleOrCancel E kIOPMCancelScheduledEvent t ?e s1 = Some (r, s2)"
    using cancelEvent_returns removeEvent_found [OF _ l'(1), of s1 t] l(1) by fastforce
  have "r = kIOReturnSuccess \<and> arrays s2 = (arrays s1)(t := Some l')"
    by (rule cancelEvent_arrays [OF c2 _ l'(1)]) (simp add: l(1))
  moreover have "io_pm_schedule_power_event E c (Some e) kIOPMCancelScheduledEvent s1 = Some (r, s2)"
    using session e(1) c2 linorder_not_le [THEN iffD2, OF room]
    by (simp add: io_pm_schedule_power_event_def Let_def)
  ultimately show ?thesis using l(1) l'(2) by auto
qed

end
