(* ===== verification/AutoWakeProperties.thy ===== *)
theory AutoWakeProperties
  imports AutoWakeNext
begin

unbundle bit_operations_syntax

text \<open>
  Properties of the scheduler of power events, each with its witness, and what the model shows
  of its failures.
\<close>

section \<open>An example\<close>

text \<open>Noon of a Monday; the sort is a stable sort by date; the preferences can be written.\<close>

definition noon :: awEnv where
  "noon = \<lparr>CFAbsoluteTimeNow = 1000, calendarWeekday = 2, calendarHour = 12, calendarMinute = 0,
     calendarCompose = (\<lambda>d h m. of_int (86400 * d + 3600 * h + 60 * m)), CFArraySortValues = sort_key evKey,
     SCPreferencesCreated = True, kSCStatusAccessError = False, SCPreferencesLocked = True,
     SCPreferencesCommitted = (\<lambda>_. True), repeatCommitted = True, processName = (\<lambda>_. Some ''shutdownd'')\<rparr>"

definition wakeAt :: "rat \<Rightarrow> string \<Rightarrow> pevent" where
  "wakeAt d app = \<lparr>ev_time = Some (CFDateValue d), ev_type = Some (EvTitle kIOPMAutoWake), ev_app = Some app,
     ev_pid = None, ev_leeway = None, ev_days = None, ev_visible = False, ev_rest = []\<rparr>"

definition root :: awCaller where
  "root = \<lparr>callerEUID = 0, callerProc = 7, wakeRequestEntitled = False\<rparr>"

definition saved :: "title \<Rightarrow> entry list" where
  "saved b = (if b = kIOPMAutoWake then [CFDictionary (wakeAt 500 ''a''), CFDictionary (wakeAt 1500 ''b'')] else [])"

definition primed :: aw where
  "primed = the (AutoWake_prime noon None None (awLoaded saved))"

lemma noon_sorts: "sortsByDate noon"
  unfolding sortsByDate_def noon_def by (simp add: by_date.event_sort_axioms)

lemma noon_orderly: "orderlyCall noon c \<Longrightarrow> orderly noon c"
  by (simp add: orderly_def noon_sorts) (simp add: noon_def)

lemma primed_Some: "AutoWake_prime noon None None (awLoaded saved) \<noteq> None"
  by code_simp

lemma primed_reachable: "awReachable primed"
proof (rule awReachable.primed)
  show "sortsByDate noon" by (rule noon_sorts)
  show "savedInOrder saved"
    by (simp add: savedInOrder_def all_titles_def saved_def inOrder_def dated_def evDate_def evKey_def
        typedEntry_def wakeAt_def)
  show "AutoWake_prime noon None None (awLoaded saved) = Some primed"
    using primed_Some by (auto simp: primed_def)
qed (simp_all add: walkable_def)

section \<open>The reachable states\<close>

text \<open>
  C17: in every state the scheduler of power events reaches from a saved file in order by orderly
  calls, the array of each title has only entries with dates, sorted by date; the count of active
  events is the number of entries; and a timer that is armed has a current event with a date.
  Orderly means: the preferences file can always be written, the sort keeps its promise, an event
  to schedule has a date, the event of a request has an application name, and the day masks of
  repeating events have a day of the week or are zero; the saved file is sorted, with dated and
  named events of the type of their array and such day masks.  Without this the statement fails:
  \<open>failed_write_strands_timer\<close> below.
\<close>

theorem power_events_consistent:
  assumes "awReachable s"
  shows "arraysInOrder s \<and> countExact s \<and> timersHaveEvents s"
  using awReachable_inv [OF assms] by (simp add: awInv_def awGood_def slotsExcept_iff timersHaveEvents_iff)

theorem power_events_consistent_witness:
  "arraysInOrder primed \<and> countExact primed \<and> timersHaveEvents primed"
  using power_events_consistent [OF primed_reachable] .

text \<open>
  C18: in such a state every orderly call (in the sense of C17) returns, and the scheduler stays in
  such a state: no walk over the days of a repeating event runs forever, no callout of a timer is
  handed a null event and no comparison is handed a missing application name.  Of calls that are
  not orderly this says nothing; \<open>accepted_mask_hangs\<close>, \<open>failed_write_strands_timer\<close> and
  \<open>nameless_request_crashes\<close> below show three that do not return.
\<close>

theorem power_events_responsive:
  assumes "awReachable s" and "orderly E c" and "awEnabled c s"
  shows "\<exists>s'. awStep E c s = Some s' \<and> awReachable s'"
proof -
  obtain s' where "awStep E c s = Some s'"
    using awStep_returns [OF awReachable_inv [OF assms(1)] assms(2,3)] by auto
  then show ?thesis using assms by (auto intro: awReachable.called)
qed

theorem power_events_responsive_witness:
  "\<exists>s'. awStep noon (AwTimerFired kIOPMAutoWake) primed = Some s' \<and> awReachable s'"
proof -
  have "awEnabled (AwTimerFired kIOPMAutoWake) primed" unfolding primed_def by code_simp
  then show ?thesis
    using power_events_responsive [OF primed_reachable noon_orderly [of "AwTimerFired kIOPMAutoWake"]] by simp
qed

section \<open>The next event\<close>

text \<open>
  C19: the days until a repeating event: -1 when its day mask is empty, 0 when it is still to
  come today, and otherwise the first of the next seven days that is in the mask; the walk of
  the code runs forever exactly when none of the seven is.
\<close>

theorem daysUntil_reference:
  assumes "1 \<le> today"
  shows "daysUntil E e today =
    (if getRepeatingDictionaryDayMask e = 0 then Some (- 1)
     else if upcomingToday E e today then Some 0
     else map_option int
       (find (\<lambda>d. bit (getRepeatingDictionaryDayMask e) (nat ((today - 1 + int d) mod 7))) [1..<8]))"
  using daysUntil_ahead [OF assms] by (simp only: daysAhead_def)

definition onDays :: "int \<Rightarrow> pevent" where
  "onDays dm = (wakeAt 0 ''x'')\<lparr>ev_time := Some (CFNumberValue 600), ev_days := Some dm\<rparr>"

theorem daysUntil_reference_witness: "daysUntil noon (onDays 2) 2 = Some 7"
proof -
  have "getRepeatingDictionaryDayMask (onDays 2) = 2"
    by (simp add: onDays_def wakeAt_def getRepeatingDictionaryDayMask_def)
  moreover have "\<not> upcomingToday noon (onDays 2) 2" by code_simp
  moreover have "find (\<lambda>d. bit (2::int) (nat ((2 - 1 + int d) mod 7))) [1..<8] = Some 7" by code_simp
  ultimately show ?thesis using daysUntil_reference [of 2 noon "onDays 2"] by simp
qed

definition setFor :: "awEnv \<Rightarrow> PowerEventBehavior \<Rightarrow> entry list \<Rightarrow> bool" where
  "setFor E B vs \<longleftrightarrow> (if vs = [] then evTimer B = None
     else case currentEvent B of
       None \<Rightarrow> False
     | Some e \<Rightarrow> leastOf (Some e) vs \<and> evTimer B = alarm E e)"

text \<open>
  C20: after \<open>schedulePowerEvent\<close> the title is set for the least of its candidates: the events to
  come of its own array and of the shared one, and the next repeating event.  The timer has the
  time that is left, if that is in range, and without a candidate there is no timer.
\<close>

theorem schedulePowerEvent_least:
  assumes "sortsByDate E" and "arraysInOrder s"
    and "copyNextRepeatingEvent E (repeatingPowerOff s) (repeatingPowerOn s) b = Some r"
  shows "\<exists>s'. schedulePowerEvent E b s = Some s' \<and> setFor E (behaviors s' b) (candidates E r b s)"
proof -
  let ?s1 = "upd_behavior b (\<lambda>B. B\<lparr>evTimer := None\<rparr>) s"
  obtain u where u: "copyEarliestUpcoming E b s = Some u" "leastOf u (candidates E r b s)"
    using copyEarliestUpcoming_least [OF assms] by blast
  have "copyEarliestUpcoming E b ?s1 = copyEarliestUpcoming E b s"
    by (rule copyEarliestUpcoming_cong) (simp_all add: arrays_def fun_eq_iff)
  then obtain s' where s': "schedulePowerEvent E b s = Some s'"
    using u(1) by (simp add: schedulePowerEvent_def Let_def)
  then show ?thesis
  proof (cases rule: schedulePowerEvent_cases)
    case (1 w)
    then have "behaviors s' b = scheduled E u (behaviors s b)" using u(1) by simp
    then have "setFor E (behaviors s' b) (candidates E r b s)"
      using u(2) by (auto simp: setFor_def scheduled_def leastOf_def split: option.splits)
    with s' show ?thesis by blast
  qed
qed

theorem schedulePowerEvent_least_witness:
  "\<exists>s'. schedulePowerEvent noon kIOPMAutoWake primed = Some s' \<and>
     setFor noon (behaviors s' kIOPMAutoWake) (candidates noon None kIOPMAutoWake primed)"
proof (rule schedulePowerEvent_least [OF noon_sorts])
  show "arraysInOrder primed" using awReachable_inv [OF primed_reachable] by (simp add: awInv_def awGood_def)
  show "copyNextRepeatingEvent noon (repeatingPowerOff primed) (repeatingPowerOn primed) kIOPMAutoWake = Some None"
    unfolding primed_def by code_simp
qed

text \<open>
  the purge of past events takes exactly the entries out of the array of the title that are
  past, keeps the order of the others, and leaves the other arrays; nothing is purged from the
  wake events while their purge is not allowed.
\<close>

theorem purgePastEvents_exact:
  assumes "arraysInOrder s"
  shows "arrays (purgePastEvents E b s) = (if \<not> wakePurgeAllowed s \<and> b = kIOPMAutoWake then arrays s
    else (arrays s)(b := map_option (filter (isEntryValidAndFuturistic E)) (arrays s b)))"
proof (cases "arrays s b")
  case (Some l)
  then have "inOrder (Some l)" using assms by (metis arraysInOrder_iff)
  then show ?thesis using Some by (auto simp: purgePastEvents_arrays purged_filter fun_eq_iff)
qed (auto simp: purgePastEvents_arrays fun_eq_iff)

theorem purgePastEvents_exact_witness:
  "arrays (purgePastEvents (noon\<lparr>CFAbsoluteTimeNow := 2000\<rparr>) kIOPMAutoWake primed) kIOPMAutoWake = Some []"
proof -
  have p: "arraysInOrder primed" using awReachable_inv [OF primed_reachable] by (simp add: awInv_def awGood_def)
  have "wakePurgeAllowed primed" unfolding primed_def by code_simp
  moreover have "arrays primed kIOPMAutoWake = Some [CFDictionary (wakeAt 1500 ''b'')]"
    unfolding primed_def by code_simp
  moreover have "\<not> isEntryValidAndFuturistic (noon\<lparr>CFAbsoluteTimeNow := 2000\<rparr>) (CFDictionary (wakeAt 1500 ''b''))"
    by (simp add: isEntryValidAndFuturistic_def evDate_def wakeAt_def)
  ultimately show ?thesis
    using purgePastEvents_exact [OF p, of "noon\<lparr>CFAbsoluteTimeNow := 2000\<rparr>" kIOPMAutoWake] by simp
qed

section \<open>Requests\<close>

text \<open>
  C21: an event with a date and an application name (its own or the caller's) that is scheduled
  with success and then cancelled by the same caller leaves the arrays as the purge of past events
  would have left them, up to the order of entries with equal dates, and the cancellation
  succeeds: provided that no other event of the title has the same date (the cancellation takes
  the first event with the date and the name, which may be an older one), that the arrays are in
  order, and that the table of events is not full afterwards.
\<close>

theorem schedule_cancel_roundtrip:
  assumes "sortsByDate E" and "arraysInOrder s" and "daysWalkable s"
    and "ev_type e = Some (EvTitle t)" and "evDate e \<noteq> None" and "ev_app (tagEvent E c e) \<noteq> None"
    and "noneAt e (kept E t s)"
    and "io_pm_schedule_power_event E c (Some e) kIOPMScheduleEvent s = Some (kIOReturnSuccess, s1)"
    and "activeEventCnt s1 < kIOPMMaxScheduledEntries"
  shows "\<exists>s2 l. io_pm_schedule_power_event E c (Some e) kIOPMCancelScheduledEvent s1 = Some (kIOReturnSuccess, s2) \<and>
    arrays s2 = (arrays s)(t := Some l) \<and> mset l = mset (kept E t s)"
  using assms by (rule schedule_then_cancel)

definition added :: aw where
  "added = snd (the (io_pm_schedule_power_event noon root (Some (wakeAt 3000 ''c'')) kIOPMScheduleEvent primed))"

theorem schedule_cancel_roundtrip_witness:
  "\<exists>s2 l. io_pm_schedule_power_event noon root (Some (wakeAt 3000 ''c'')) kIOPMCancelScheduledEvent added =
       Some (kIOReturnSuccess, s2) \<and>
     arrays s2 = (arrays primed)(kIOPMAutoWake := Some l) \<and> mset l = mset (kept noon kIOPMAutoWake primed)"
proof (rule schedule_cancel_roundtrip [OF noon_sorts])
  have i: "awInv primed" using awReachable_inv [OF primed_reachable] .
  then show "arraysInOrder primed" "daysWalkable primed" by (simp_all add: awInv_def awGood_def)
  show "ev_type (wakeAt 3000 ''c'') = Some (EvTitle kIOPMAutoWake)" "evDate (wakeAt 3000 ''c'') \<noteq> None"
    by (simp_all add: wakeAt_def evDate_def)
  show "ev_app (tagEvent noon root (wakeAt 3000 ''c'')) \<noteq> None" by code_simp
  show "noneAt (wakeAt 3000 ''c'') (kept noon kIOPMAutoWake primed)" unfolding primed_def by code_simp
  have "map_option fst (io_pm_schedule_power_event noon root (Some (wakeAt 3000 ''c'')) kIOPMScheduleEvent primed)
      = Some kIOReturnSuccess"
    unfolding primed_def by code_simp
  then show "io_pm_schedule_power_event noon root (Some (wakeAt 3000 ''c'')) kIOPMScheduleEvent primed =
      Some (kIOReturnSuccess, added)"
    by (auto simp: added_def)
  show "activeEventCnt added < kIOPMMaxScheduledEntries" unfolding added_def primed_def by code_simp
qed

definition refused :: "(IOReturn \<times> aw) option \<Rightarrow> aw \<Rightarrow> bool" where
  "refused out s \<longleftrightarrow> (case out of None \<Rightarrow> False | Some (r, s') \<Rightarrow> r \<noteq> kIOReturnSuccess \<and> s' = s)"

text \<open>
  A caller that is not root and does not hold the wake-request entitlement changes nothing:
  no request to schedule, cancel or repeat events succeeds, and the state stays as it is.
\<close>

theorem unprivileged_refused:
  assumes "callerEUID c \<noteq> 0" and "\<not> wakeRequestEntitled c"
  shows "refused (io_pm_schedule_power_event E c package action s) s \<and>
    refused (io_pm_schedule_repeat_event E c package' s) s \<and>
    refused (io_pm_cancel_repeat_events E c s) s"
  using assms
  by (auto simp: refused_def io_pm_schedule_power_event_def removeAllEvents_def createSCSession_def
      io_pm_schedule_repeat_event_def io_pm_cancel_repeat_events_def Let_def
      split: option.split evType.split)

theorem unprivileged_refused_witness:
  "refused (io_pm_schedule_power_event noon (root\<lparr>callerEUID := 501\<rparr>) None kIOPMCancelAllScheduledEvents primed) primed"
  using unprivileged_refused [of "root\<lparr>callerEUID := 501\<rparr>" noon None kIOPMCancelAllScheduledEvents primed]
  by (simp add: root_def)

section \<open>What goes wrong\<close>

text \<open>A repeating event whose day mask has only an eighth bit is accepted, and its walk never ends.\<close>

lemma accepted_mask_hangs:
  "is_valid_repeating_dictionary (Some (CFDictionary (onDays 128))) \<and> daysUntil noon (onDays 128) 1 = None"
proof -
  have "is_valid_repeating_dictionary (Some (CFDictionary (onDays 128)))" by code_simp
  moreover have "getRepeatingDictionaryDayMask (onDays 128) = 128"
    by (simp add: onDays_def wakeAt_def getRepeatingDictionaryDayMask_def)
  moreover have "\<not> upcomingToday noon (onDays 128) 1" by code_simp
  moreover have "daysAhead 128 1 = None" by code_simp
  ultimately show ?thesis by (simp add: daysUntil_ahead)
qed

text \<open>With an empty day mask the event falls on yesterday; it hides the next event and no timer is armed.\<close>

lemma empty_mask_hides_events:
  "map_option (\<lambda>s. evTimer (behaviors s kIOPMAutoWake))
     (schedulePowerEvent noon kIOPMAutoWake (primed\<lparr>repeatingPowerOn := Some (onDays 0)\<rparr>)) = Some None \<and>
   map_option (\<lambda>s. evTimer (behaviors s kIOPMAutoWake)) (schedulePowerEvent noon kIOPMAutoWake primed) = Some (Some 500)"
proof -
  have "map_option (\<lambda>s. evTimer (behaviors s kIOPMAutoWake))
     (schedulePowerEvent noon kIOPMAutoWake (primed\<lparr>repeatingPowerOn := Some (onDays 0)\<rparr>)) = Some None"
    unfolding primed_def by code_simp
  moreover have "map_option (\<lambda>s. evTimer (behaviors s kIOPMAutoWake)) (schedulePowerEvent noon kIOPMAutoWake primed) = Some (Some 500)"
    unfolding primed_def by code_simp
  ultimately show ?thesis ..
qed

text \<open>The entitlement that stands in for root when one event is cancelled does not when all are.\<close>

lemma entitled_cancel_all_refused:
  assumes "callerEUID c \<noteq> 0" and "activeEventCnt s < kIOPMMaxScheduledEntries"
  shows "io_pm_schedule_power_event E c package kIOPMCancelAllScheduledEvents s = Some (kIOReturnNotPrivileged, s)"
  using assms linorder_not_le [THEN iffD2, OF assms(2)]
  by (simp add: io_pm_schedule_power_event_def removeAllEvents_def createSCSession_def)

text \<open>
  When \<open>proc_name\<close> finds no name for the caller, an event without a name stays without one.  The
  request to cancel it crashes in \<open>CFEqual\<close> if an event has its date; scheduled and saved, it
  crashes the start of the daemon, which compares the names of all saved events.
\<close>

definition anonymous :: awEnv where
  "anonymous = noon\<lparr>processName := (\<lambda>_. None)\<rparr>"

lemma nameless_request_crashes:
  "io_pm_schedule_power_event anonymous root (Some ((wakeAt 1500 ''b'')\<lparr>ev_app := None\<rparr>))
     kIOPMCancelScheduledEvent primed = None"
  unfolding primed_def anonymous_def by code_simp

lemma nameless_saved_crashes:
  "(case io_pm_schedule_power_event anonymous root (Some ((wakeAt 3000 [])\<lparr>ev_app := None\<rparr>))
      kIOPMScheduleEvent primed of
    Some (r, s) \<Rightarrow> r = kIOReturnSuccess \<and> AutoWake_prime noon None None (awLoaded (disk s)) = None
  | None \<Rightarrow> False)"
  unfolding primed_def anonymous_def by code_simp

text \<open>A full table refuses the requests that would make room in it.\<close>

lemma full_table_refuses_cancel:
  "activeEventCnt s \<ge> kIOPMMaxScheduledEntries \<Longrightarrow>
   io_pm_schedule_power_event E c package kIOPMCancelScheduledEvent s = Some (kIOReturnNoSpace, s) \<and>
   io_pm_schedule_power_event E c package kIOPMCancelAllScheduledEvents s = Some (kIOReturnNoSpace, s)"
  by (simp add: io_pm_schedule_power_event_def)

text \<open>
  When the preferences cannot be written, the event just added is taken back by date and name.
  An older event with both is found first: the timer stays armed without its event, and its
  callout is handed a null one.
\<close>

lemma failed_write_strands_timer:
  "(case io_pm_schedule_power_event (noon\<lparr>SCPreferencesCommitted := (\<lambda>_. False)\<rparr>) root (Some (wakeAt 1500 ''b''))
      kIOPMScheduleEvent primed of
    Some (r, s) \<Rightarrow> r = kIOReturnError \<and> awEnabled (AwTimerFired kIOPMAutoWake) s \<and>
      handleTimerExpiration noon kIOPMAutoWake s = None
  | None \<Rightarrow> False)"
  unfolding primed_def by code_simp

end
