(* ===== verification/SystemLoad.thy ===== *)
theory SystemLoad
  imports AssertionHandlers TimedQueue "HOL-Library.Signed_Division"
begin

unbundle bit_operations_syntax

text \<open>
  System load and user activity (SystemLoad.c): the load level that is published, the activity
  levels of the user, the clients that want to know when the user is idle, and the two timers.
  The assertion engine it asks for its active types is the model of PMAssertions.c.
\<close>

section \<open>Levels\<close>

text \<open>The levels of the load advisory, the worst one first.\<close>

datatype loadLevel =
    kIOSystemLoadAdvisoryLevelBad
  | kIOSystemLoadAdvisoryLevelOK
  | kIOSystemLoadAdvisoryLevelGreat

fun loadRank :: "loadLevel \<Rightarrow> nat" where
  "loadRank kIOSystemLoadAdvisoryLevelBad = 1"
| "loadRank kIOSystemLoadAdvisoryLevelOK = 2"
| "loadRank kIOSystemLoadAdvisoryLevelGreat = 3"

instantiation loadLevel :: linorder
begin

definition less_eq_loadLevel :: "loadLevel \<Rightarrow> loadLevel \<Rightarrow> bool" where
  "a \<le> b \<longleftrightarrow> loadRank a \<le> loadRank b"

definition less_loadLevel :: "loadLevel \<Rightarrow> loadLevel \<Rightarrow> bool" where
  "a < b \<longleftrightarrow> loadRank a < loadRank b"

instance
proof
  fix a b :: loadLevel
  show "a \<le> b \<Longrightarrow> b \<le> a \<Longrightarrow> a = b"
    by (cases a; cases b) (simp_all add: less_eq_loadLevel_def)
qed (auto simp: less_eq_loadLevel_def less_loadLevel_def)

end

definition minOfThree :: "loadLevel \<Rightarrow> loadLevel \<Rightarrow> loadLevel \<Rightarrow> loadLevel" where
  "minOfThree a b c =
     (let result = a;
          result = (if b < result then b else result)
      in if c < result then c else result)"

text \<open>
  The activity levels are bits of a word; a set of them stands for the word.  \<open>None\<close> stands for
  the values that are no combination of them, which force the next update to post.
\<close>

datatype activityLevel =
    kIOPMUserPresentActive
  | kIOPMUserPresentPassive
  | kIOPMUserPresentPassiveWithDisplay
  | kIOPMUserPresentPassiveWithoutDisplay
  | kIOPMUserAbsentWithDisplay
  | kIOPMUserRemoteClientActive
  | kIOPMUserNotificationActive

type_synonym levels = "activityLevel set"

datatype pressureLevel =
    kOSThermalPressureLevelNominal
  | kOSThermalPressureLevelModerate
  | OtherThermalPressureLevel

datatype thermalWarning = kIOPMThermalWarningLevelNormal | kIOPMThermalLevelUnknown | OtherThermalLevel

section \<open>State\<close>

record clientInfo =
  connection :: nat
  idleTimeout :: u32
  clientLevels :: "levels option"

record userActiveStruct =
  presentActive :: bool
  userActive :: bool
  loggedIn :: bool
  rootDomain :: bool
  sessionUserActivity :: bool
  sessionActivityLevels :: levels
  sleepFromUserWakeTime :: rat
  postedLevels :: "levels option"
  clientList :: "clientInfo list"
  hidIdleTimeout :: u32
  lastHid_ts :: u64
  lastAssertion_ts :: u64
  hidActive :: bool
  assertionActivityValid :: bool

text \<open>A dispatch timer that is resumed on its first use: the seconds it was last set for, if it runs.\<close>

type_synonym evalTimer = "u64 option"

datatype assertionPolicy = kIOPMAssertionPolicyDisplayOff | kIOPMAssertionPolicyNone

datatype slEffect =
    PostUserActivityLevels levels
  | StartSystemAssertionTimer
  | CancelSystemAssertionTimer
  | EvaluatePerfMode
  | SendActivityLevels nat levels
  | SetUserActivityState int
  | PostUserActivity
  | PublishSystemLoad loadLevel loadLevel loadLevel loadLevel
  | PostSystemLoadAdvisory
  | UnclampSilentRunning
  | CancelNotificationDisplayWake
  | CancelPowerNapStates
  | CancelDarkWakeCapabilitiesTimer
  | EnableTCPKeepAlive
  | EvaluateADS
  | SetVMDarkwakeMode bool
  | EvaluateAdaptiveStandby
  | SetHIDIdleNotificationTime u32
  | SendUpdateAssertionPolicy assertionPolicy
  | InternalEvaluateProcTimerOnDisplayStateChange bool
  | LogAssertionCount bool

record sysload =
  gUserActive :: userActiveStruct
  onACPower :: bool
  onBatteryPower :: bool
  batteryBelowThreshold :: bool
  coresConstrained :: bool
  forcedIdle :: bool
  plimitBelowThreshold :: bool
  thermalWarningLevel :: bool
  displayIsOff :: bool
  displaySleepEnabled :: bool
  gDominoIsOn :: bool
  gOnenessMode :: bool
  thermalState :: thermalWarning
  thermalPressureLevel :: pressureLevel
  tpl_supported :: bool
  lastSystemLoad :: "(loadLevel \<times> loadLevel \<times> loadLevel \<times> loadLevel) option"
  lastDisplaySleep :: bool
  lastDWBT :: "bool option"
  maxCPUCount :: int
  hidIdleEval :: evalTimer
  assertionEval :: evalTimer
  slEffects :: "slEffect list"

text \<open>
  What the operations read from outside: the time in seconds, the assertion engine, the kind of
  wake and the settings (the Objective-C part of the daemon), the constants of the user activity
  notification, and the default timeout of user activity.
\<close>

record slEnv =
  continuousTime :: u64
  absoluteTime :: rat
  engine :: pm
  NotificationDisplayWake :: bool
  DarkWakeState :: bool
  BTMtnceWake :: bool
  DWBT_enabled :: bool
  kIOUserIsActive :: int
  kIOUserIsIdle :: int
  kIOPMDefaultUserActivityTimeout :: u32

definition upd_user :: "(userActiveStruct \<Rightarrow> userActiveStruct) \<Rightarrow> sysload \<Rightarrow> sysload" where
  "upd_user f s = s\<lparr>gUserActive := f (gUserActive s)\<rparr>"

definition slEmit :: "slEffect \<Rightarrow> sysload \<Rightarrow> sysload" where
  "slEmit e s = s\<lparr>slEffects := slEffects s @ [e]\<rparr>"

section \<open>The load advisory\<close>

definition batteryLevelOf :: "sysload \<Rightarrow> loadLevel" where
  "batteryLevelOf s =
     (if onACPower s then kIOSystemLoadAdvisoryLevelGreat
      else if \<not> batteryBelowThreshold s then kIOSystemLoadAdvisoryLevelOK
      else kIOSystemLoadAdvisoryLevelBad)"

definition powerLevelOf :: "sysload \<Rightarrow> loadLevel" where
  "powerLevelOf s =
     (if \<not> tpl_supported s then
        (let l = (if plimitBelowThreshold s then kIOSystemLoadAdvisoryLevelOK else kIOSystemLoadAdvisoryLevelGreat)
         in if coresConstrained s \<or> forcedIdle s \<or> thermalWarningLevel s then kIOSystemLoadAdvisoryLevelBad else l)
      else
        (case thermalPressureLevel s of
           kOSThermalPressureLevelNominal \<Rightarrow> kIOSystemLoadAdvisoryLevelGreat
         | kOSThermalPressureLevelModerate \<Rightarrow> kIOSystemLoadAdvisoryLevelOK
         | OtherThermalPressureLevel \<Rightarrow> kIOSystemLoadAdvisoryLevelBad))"

definition userLevelOf :: "slEnv \<Rightarrow> sysload \<Rightarrow> loadLevel" where
  "userLevelOf E s =
     (if loggedIn (gUserActive s) then
        (if displayIsOff s then
           (if DWBT_enabled E then
              (if BTMtnceWake E then kIOSystemLoadAdvisoryLevelGreat else kIOSystemLoadAdvisoryLevelOK)
            else kIOSystemLoadAdvisoryLevelGreat)
         else kIOSystemLoadAdvisoryLevelOK)
      else kIOSystemLoadAdvisoryLevelGreat)"

text \<open>The word that is compared and stored has a byte for each of the four levels.\<close>

definition shareTheSystemLoad :: "slEnv \<Rightarrow> bool \<Rightarrow> sysload \<Rightarrow> sysload" where
  "shareTheSystemLoad E shouldNotify s =
     (let batteryLevel = batteryLevelOf s;
          powerLevel = powerLevelOf s;
          userLevel = userLevelOf E s;
          combinedLevel = minOfThree userLevel batteryLevel powerLevel;
          theseSystemLoad = (combinedLevel, userLevel, batteryLevel, powerLevel)
      in if Some theseSystemLoad \<noteq> lastSystemLoad s then
           let s1 = slEmit (PublishSystemLoad combinedLevel userLevel batteryLevel powerLevel)
                      (s\<lparr>lastSystemLoad := Some theseSystemLoad\<rparr>)
           in if shouldNotify then slEmit PostSystemLoadAdvisory s1 else s1
         else s)"

section \<open>User activity\<close>

definition getUserInactiveDuration :: "slEnv \<Rightarrow> sysload \<Rightarrow> u32" where
  "getUserInactiveDuration E s =
     (let U = gUserActive s;
          now = continuousTime E;
          hidInactivityDuration =
            (if rootDomain U then (if hidActive U then 0 else now - lastHid_ts U) else - 1);
          assertionInactivityDuration =
            (if assertionActivityValid U then now - lastAssertion_ts U else - 1)
      in if hidInactivityDuration < assertionInactivityDuration then ucast hidInactivityDuration
         else ucast assertionInactivityDuration)"

definition passiveLevels :: "slEnv \<Rightarrow> sysload \<Rightarrow> levels" where
  "passiveLevels E s =
     (let displayAssertionsExist = checkForActivesByType (engine E) kPreventDisplaySleepType;
          audioAssertionsExist = checkForAudioType (engine E);
          cameraAssertionExist = checkForCameraType (engine E)
      in if \<not> displayIsOff s \<and> \<not> NotificationDisplayWake E then
           (if audioAssertionsExist \<or> displayAssertionsExist \<or> cameraAssertionExist
            then {kIOPMUserPresentPassive, kIOPMUserPresentPassiveWithDisplay}
            else if \<not> displaySleepEnabled s then {kIOPMUserAbsentWithDisplay} else {})
         else if cameraAssertionExist then {kIOPMUserPresentPassive, kIOPMUserPresentPassiveWithDisplay}
         else if audioAssertionsExist \<and> \<not> DarkWakeState E
         then {kIOPMUserPresentPassive, kIOPMUserPresentPassiveWithoutDisplay}
         else {})"

definition globalLevels :: "slEnv \<Rightarrow> sysload \<Rightarrow> levels" where
  "globalLevels E s =
     (let levels = (if \<not> displayIsOff s \<and> userActive (gUserActive s) then {kIOPMUserPresentActive}
                    else if gOnenessMode s then {kIOPMUserPresentActive}
                    else passiveLevels E s);
          levels = (if checkForActivesByType (engine E) kNetworkAccessType
                    then insert kIOPMUserRemoteClientActive levels else levels)
      in if checkForActivesByType (engine E) kTicklessDisplayWakeType
         then insert kIOPMUserNotificationActive levels else levels)"

definition postLevels :: "slEnv \<Rightarrow> levels \<Rightarrow> sysload \<Rightarrow> sysload" where
  "postLevels E levels s =
     (if postedLevels (gUserActive s) \<noteq> Some levels then
        let s1 = slEmit (PostUserActivityLevels levels) s;
            s2 = upd_user (\<lambda>U. U\<lparr>postedLevels := Some levels,
                   sessionActivityLevels := sessionActivityLevels U \<union> levels\<rparr>) s1;
            s3 = slEmit (if levels = {} then StartSystemAssertionTimer else CancelSystemAssertionTimer) s2
        in slEmit EvaluatePerfMode s3
      else s)"

text \<open>The levels of one client, and the loop over the clients with the next timeout.\<close>

definition levelsFor :: "bool \<Rightarrow> u32 \<Rightarrow> levels \<Rightarrow> levels \<Rightarrow> clientInfo \<Rightarrow> levels" where
  "levelsFor displayOff idleFor posted passive c =
     (if \<not> displayOff \<and> idleFor < idleTimeout c
      then insert kIOPMUserPresentActive
             (posted - {kIOPMUserPresentActive} - {kIOPMUserPresentPassive,
                kIOPMUserPresentPassiveWithDisplay, kIOPMUserPresentPassiveWithoutDisplay})
      else passive)"

fun clientLoop :: "bool \<Rightarrow> u32 \<Rightarrow> levels \<Rightarrow> levels \<Rightarrow> clientInfo list \<Rightarrow> u32 \<Rightarrow>
    clientInfo list \<times> u32 \<times> slEffect list" where
  "clientLoop off idleFor posted passive [] next = ([], next, [])"
| "clientLoop off idleFor posted passive (c # cs) next =
     (let levels = levelsFor off idleFor posted passive c;
          next1 = (if idleFor \<noteq> 0 \<and> idleFor < idleTimeout c then (if next = 0 then idleTimeout c else next)
                   else next);
          sent = (if clientLevels c \<noteq> Some levels then [SendActivityLevels (connection c) levels] else []);
          (cs', next2, es) = clientLoop off idleFor posted passive cs next1
      in (c\<lparr>clientLevels := Some levels\<rparr> # cs', next2, sent @ es))"

definition updateUserActivityLevels :: "slEnv \<Rightarrow> sysload \<Rightarrow> u32 \<times> sysload" where
  "updateUserActivityLevels E s =
     (let passive = passiveLevels E s;
          s1 = postLevels E (globalLevels E s) s;
          idleFor = getUserInactiveDuration E s1;
          posted = (case postedLevels (gUserActive s1) of Some l \<Rightarrow> l | None \<Rightarrow> {});
          (cs, next, es) = clientLoop (displayIsOff s1) idleFor posted passive (clientList (gUserActive s1)) 0
      in (next, (upd_user (\<lambda>U. U\<lparr>clientList := cs\<rparr>) s1)\<lparr>slEffects := slEffects s1 @ es\<rparr>))"

text \<open>\<open>activity\<close> is one of two constants of the notification; \<open>presentActive\<close> is compared with it as a number.\<close>

definition updateUserActivityState :: "slEnv \<Rightarrow> int \<Rightarrow> sysload \<Rightarrow> sysload" where
  "updateUserActivityState E activity s =
     (if activity \<noteq> of_bool (presentActive (gUserActive s)) then
        let s1 = slEmit (SetUserActivityState (if activity \<noteq> 0 then kIOUserIsActive E else kIOUserIsIdle E)) s;
            s2 = slEmit PostUserActivity s1
        in snd (updateUserActivityLevels E (upd_user (\<lambda>U. U\<lparr>presentActive := activity \<noteq> 0\<rparr>) s2))
      else s)"

definition evaluateHidIdleNotification :: "slEnv \<Rightarrow> sysload \<Rightarrow> sysload" where
  "evaluateHidIdleNotification E s =
     (let idleFor = getUserInactiveDuration E s;
          idle = (displayIsOff s \<or> idleFor \<ge> kIOPMDefaultUserActivityTimeout E);
          s1 = updateUserActivityState E (if idle then kIOUserIsIdle E else kIOUserIsActive E)
                 (upd_user (\<lambda>U. U\<lparr>userActive := \<not> idle\<rparr>) s);
          legacy = (if idle then 0 else kIOPMDefaultUserActivityTimeout E);
          (next, s2) = updateUserActivityLevels E s1
      in if next \<noteq> 0 \<or> legacy \<noteq> 0 then
           let next1 = (if next = 0 \<or> legacy \<noteq> 0 \<and> next > legacy then legacy else next)
           in if idleFor > next1 then s2 else s2\<lparr>hidIdleEval := Some (ucast (next1 - idleFor))\<rparr>
         else s2\<lparr>hidIdleEval := None\<rparr>)"

definition userActiveHandlePowerAssertionsChanged :: "slEnv \<Rightarrow> sysload \<Rightarrow> sysload" where
  "userActiveHandlePowerAssertionsChanged E s = snd (updateUserActivityLevels E s)"

definition setAssertionIdleNotificationTimer :: "slEnv \<Rightarrow> sysload \<Rightarrow> sysload" where
  "setAssertionIdleNotificationTimer E s =
     (let U = gUserActive s;
          since = continuousTime E - lastAssertion_ts U
      in if lastAssertion_ts U = 0 then s
         else if ucast (hidIdleTimeout U) > since
         then s\<lparr>assertionEval := Some (ucast (hidIdleTimeout U) - since)\<rparr>
         else s)"

definition SystemLoadUserActiveAssertions :: "slEnv \<Rightarrow> bool \<Rightarrow> sysload \<Rightarrow> sysload" where
  "SystemLoadUserActiveAssertions E isActive s =
     evaluateHidIdleNotification E
       (if isActive
        then upd_user (\<lambda>U. U\<lparr>assertionActivityValid := True\<rparr>)
               (setAssertionIdleNotificationTimer E
                 (upd_user (\<lambda>U. U\<lparr>lastAssertion_ts := continuousTime E\<rparr>) s))
        else s)"

definition userActiveHandleRootDomainActivity :: "slEnv \<Rightarrow> bool \<Rightarrow> sysload \<Rightarrow> sysload" where
  "userActiveHandleRootDomainActivity E isActive s =
     (if isActive = rootDomain (gUserActive s) then s
      else
        let s1 = (if isActive then
                    SystemLoadUserActiveAssertions E True
                      (upd_user (\<lambda>U. U\<lparr>sessionUserActivity := True, rootDomain := True\<rparr>)
                        (fold slEmit [UnclampSilentRunning, CancelNotificationDisplayWake, CancelPowerNapStates,
                           CancelDarkWakeCapabilitiesTimer, EnableTCPKeepAlive] s))
                  else upd_user (\<lambda>U. U\<lparr>rootDomain := False\<rparr>) s);
            s2 = (if sessionActivityLevels (gUserActive s1) = {} then slEmit EvaluateADS s1 else s1)
        in slEmit EvaluateAdaptiveStandby (slEmit (SetVMDarkwakeMode False) s2))"

definition userActiveHandleSleep :: "slEnv \<Rightarrow> sysload \<Rightarrow> sysload" where
  "userActiveHandleSleep E s =
     upd_user (\<lambda>U. U\<lparr>rootDomain := False\<rparr>)
       (if rootDomain (gUserActive s)
        then upd_user (\<lambda>U. U\<lparr>sleepFromUserWakeTime := absoluteTime E\<rparr>) s else s)"

definition resetSessionUserActivity :: "sysload \<Rightarrow> sysload" where
  "resetSessionUserActivity s = upd_user (\<lambda>U. U\<lparr>sessionUserActivity := False, sessionActivityLevels := {}\<rparr>) s"

definition getSessionUserActivity :: "sysload \<Rightarrow> bool \<times> levels" where
  "getSessionUserActivity s = (sessionUserActivity (gUserActive s), sessionActivityLevels (gUserActive s))"

definition getTimeSinceLastTickle :: "slEnv \<Rightarrow> sysload \<Rightarrow> u32" where
  "getTimeSinceLastTickle E s =
     (let currTime = continuousTime E; ts = lastAssertion_ts (gUserActive s)
      in if currTime > ts then ucast (currTime - ts) else 0)"

section \<open>Clients\<close>

definition kMinIdleTimeout :: u32 where
  "kMinIdleTimeout = 5"

definition insertClient :: "slEnv \<Rightarrow> clientInfo \<Rightarrow> sysload \<Rightarrow> sysload" where
  "insertClient E c0 s =
     (let c1 = (if idleTimeout c0 < kMinIdleTimeout then c0\<lparr>idleTimeout := kMinIdleTimeout\<rparr> else c0);
          s1 = (if idleTimeout c1 < hidIdleTimeout (gUserActive s)
                then setAssertionIdleNotificationTimer E
                       (slEmit (SetHIDIdleNotificationTime (idleTimeout c1))
                         (upd_user (\<lambda>U. U\<lparr>hidIdleTimeout := idleTimeout c1\<rparr>) s))
                else s);
          c = c1\<lparr>clientLevels := None\<rparr>
      in evaluateHidIdleNotification E
           (upd_user (\<lambda>U. U\<lparr>clientList := insert_by idleTimeout c (clientList U)\<rparr>) s1))"

text \<open>The timeout of a message is a 64-bit number, cut to 32 bits.\<close>

definition registerUserActivityClient :: "slEnv \<Rightarrow> nat \<Rightarrow> u64 \<Rightarrow> bool \<Rightarrow> sysload \<Rightarrow> sysload" where
  "registerUserActivityClient E conn timeoutKey callocOk s =
     (if \<not> callocOk then s
      else insertClient E \<lparr>connection = conn, idleTimeout = ucast timeoutKey, clientLevels = Some {}\<rparr> s)"

fun removeClient :: "nat \<Rightarrow> clientInfo list \<Rightarrow> (clientInfo \<times> clientInfo list) option" where
  "removeClient conn [] = None"
| "removeClient conn (c # cs) =
     (if connection c = conn then Some (c, cs) else map_option (apsnd ((#) c)) (removeClient conn cs))"

definition deRegisterUserActivityClient :: "nat \<Rightarrow> sysload \<Rightarrow> sysload" where
  "deRegisterUserActivityClient conn s =
     (case removeClient conn (clientList (gUserActive s)) of
        None \<Rightarrow> s
      | Some (_, cs) \<Rightarrow> upd_user (\<lambda>U. U\<lparr>clientList := cs\<rparr>) s)"

definition updateUserActivityTimeout :: "slEnv \<Rightarrow> nat \<Rightarrow> u64 \<Rightarrow> sysload \<Rightarrow> sysload" where
  "updateUserActivityTimeout E conn timeoutKey s =
     (case removeClient conn (clientList (gUserActive s)) of
        None \<Rightarrow> s
      | Some (c, cs) \<Rightarrow>
          insertClient E (c\<lparr>idleTimeout := ucast timeoutKey\<rparr>) (upd_user (\<lambda>U. U\<lparr>clientList := cs\<rparr>) s))"

section \<open>Changes around the daemon\<close>

text \<open>\<open>activity\<close> is the state of the HID system and \<open>tickle\<close> its last activity in seconds.\<close>

definition hidPropertyCallback :: "slEnv \<Rightarrow> int \<Rightarrow> u64 \<Rightarrow> sysload \<Rightarrow> sysload" where
  "hidPropertyCallback E activity tickle s =
     (let ts = (if activity = 1 then continuousTime E else if activity = 0 then tickle else 0)
      in evaluateHidIdleNotification E
           (upd_user (\<lambda>U. U\<lparr>hidActive := (activity = 1), lastHid_ts := ts\<rparr>) s))"

definition SystemLoadDisplayPowerStateHasChanged :: "slEnv \<Rightarrow> bool \<Rightarrow> sysload \<Rightarrow> sysload" where
  "SystemLoadDisplayPowerStateHasChanged E off s =
     (if displayIsOff s = off then s
      else
        let s1 = s\<lparr>displayIsOff := off\<rparr>;
            s2 = (if off then
                    slEmit (SendUpdateAssertionPolicy kIOPMAssertionPolicyDisplayOff)
                      (userActiveHandleRootDomainActivity E False
                        (upd_user (\<lambda>U. U\<lparr>assertionActivityValid := False\<rparr>) s1))
                  else
                    slEmit (SendUpdateAssertionPolicy kIOPMAssertionPolicyNone)
                      (if \<not> NotificationDisplayWake E then userActiveHandleRootDomainActivity E True s1 else s1));
            s3 = evaluateHidIdleNotification E (shareTheSystemLoad E True s2)
        in slEmit (LogAssertionCount off) (slEmit (InternalEvaluateProcTimerOnDisplayStateChange off) s3))"

definition SystemLoadDominoStateHasChanged :: "slEnv \<Rightarrow> bool \<Rightarrow> sysload \<Rightarrow> sysload" where
  "SystemLoadDominoStateHasChanged E domino s =
     (let s1 = evaluateHidIdleNotification E (s\<lparr>gDominoIsOn := domino\<rparr>)
      in slEmit (InternalEvaluateProcTimerOnDisplayStateChange (\<not> gDominoIsOn s1)) s1)"

definition updateDominoState :: "slEnv \<Rightarrow> bool \<Rightarrow> bool \<Rightarrow> sysload \<Rightarrow> sysload" where
  "updateDominoState E entitled domino s = (if \<not> entitled then s else SystemLoadDominoStateHasChanged E domino s)"

definition SystemLoadOnenessStateHasChanged :: "slEnv \<Rightarrow> bool \<Rightarrow> sysload \<Rightarrow> sysload" where
  "SystemLoadOnenessStateHasChanged E oneness s = evaluateHidIdleNotification E (s\<lparr>gOnenessMode := oneness\<rparr>)"

definition updateOnenessState :: "slEnv \<Rightarrow> bool \<Rightarrow> bool \<Rightarrow> sysload \<Rightarrow> sysload" where
  "updateOnenessState E entitled oneness s = (if \<not> entitled then s else SystemLoadOnenessStateHasChanged E oneness s)"

text \<open>The live settings, if there are any: the display sleep timer and the background-task setting.\<close>

definition SystemLoadPrefsHaveChanged :: "slEnv \<Rightarrow> (int option \<times> bool option) option \<Rightarrow> sysload \<Rightarrow> sysload" where
  "SystemLoadPrefsHaveChanged E live s =
     (case live of
        None \<Rightarrow> s
      | Some (displaySleep, dwbt) \<Rightarrow>
          let s1 = (case displaySleep of Some n \<Rightarrow> s\<lparr>displaySleepEnabled := (n \<noteq> 0)\<rparr> | None \<Rightarrow> s);
              n1 = (displaySleep \<noteq> None \<and> displaySleepEnabled s1 \<noteq> lastDisplaySleep s1);
              s2 = (if n1 then s1\<lparr>lastDisplaySleep := displaySleepEnabled s1\<rparr> else s1);
              n2 = (dwbt \<noteq> None \<and> lastDWBT s2 \<noteq> dwbt);
              s3 = (if n2 then s2\<lparr>lastDWBT := dwbt\<rparr> else s2)
          in if n1 \<or> n2 then shareTheSystemLoad E True s3 else s3)"

record IOPMBattery =
  externalConnected :: bool
  currentCap :: int
  maxCap :: int

text \<open>The three flags of \<open>SystemLoadBatteriesHaveChanged\<close>, which a block sets on the main queue.\<close>

definition kBatThreshold :: int where
  "kBatThreshold = 40"

definition batterySummary :: "IOPMBattery list \<Rightarrow> bool \<times> bool \<times> bool" where
  "batterySummary bs =
     (if bs = [] then (True, False, False)
      else
        let ac = list_ex externalConnected bs;
            sumCurrent = sum_list (map currentCap bs);
            sumMax = sum_list (map maxCap bs)
        in (ac, \<not> ac, sumMax \<noteq> 0 \<and> kBatThreshold > (100 * sumCurrent) sdiv sumMax))"

definition SystemLoadBatteriesHaveChanged :: "slEnv \<Rightarrow> IOPMBattery list \<Rightarrow> sysload \<Rightarrow> sysload" where
  "SystemLoadBatteriesHaveChanged E bs s =
     (case batterySummary bs of
        (ac, batt, below) \<Rightarrow>
          shareTheSystemLoad E True
            (s\<lparr>onACPower := ac, onBatteryPower := batt, batteryBelowThreshold := below\<rparr>))"

text \<open>The CPU power dictionary: the speed limit, the number of processors and the run time, each if present.\<close>

record cpuPower =
  ProcessorSpeed :: "int option"
  ProcessorCount :: "int option"
  SchedulerTime :: "int option"

text \<open>
  \<open>ncpu\<close> is the answer of the system for the number of processors, \<open>warning\<close> that for the thermal
  level, \<open>copied\<close> the CPU power status that is fetched when none is passed.
\<close>

definition SystemLoadCPUPowerHasChanged ::
    "slEnv \<Rightarrow> cpuPower option \<Rightarrow> int option \<Rightarrow> thermalWarning option \<Rightarrow> cpuPower option \<Rightarrow> sysload \<Rightarrow> sysload" where
  "SystemLoadCPUPowerHasChanged E newCPU ncpu warning copied s =
     (let s1 = (if maxCPUCount s = 0 then s\<lparr>maxCPUCount := (case ncpu of Some n \<Rightarrow> n | None \<Rightarrow> 0)\<rparr> else s);
          s2 = (case warning of Some w \<Rightarrow> s1\<lparr>thermalState := w\<rparr> | None \<Rightarrow> s1);
          s3 = s2\<lparr>thermalWarningLevel := (warning \<noteq> None \<and> thermalState s2 = OtherThermalLevel),
                  coresConstrained := False, forcedIdle := False, plimitBelowThreshold := False\<rparr>
      in case (case newCPU of Some d \<Rightarrow> Some d | None \<Rightarrow> copied) of
           None \<Rightarrow> s3
         | Some d \<Rightarrow>
             let plimit = (case ProcessorSpeed d of Some n \<Rightarrow> n | None \<Rightarrow> 100);
                 cpuCount = (case ProcessorCount d of Some n \<Rightarrow> n | None \<Rightarrow> maxCPUCount s3);
                 runnableTime = (case SchedulerTime d of Some n \<Rightarrow> n | None \<Rightarrow> 100)
             in shareTheSystemLoad E True
                  (s3\<lparr>plimitBelowThreshold := (50 \<ge> plimit), coresConstrained := (maxCPUCount s3 > cpuCount),
                      forcedIdle := (100 \<noteq> runnableTime)\<rparr>))"

definition SystemLoadUserStateHasChanged :: "slEnv \<Rightarrow> bool \<Rightarrow> sysload \<Rightarrow> sysload" where
  "SystemLoadUserStateHasChanged E consoleUser s =
     shareTheSystemLoad E True (upd_user (\<lambda>U. U\<lparr>loggedIn := consoleUser\<rparr>) s)"

definition SystemLoadSystemPowerStateHasChanged :: "slEnv \<Rightarrow> sysload \<Rightarrow> sysload" where
  "SystemLoadSystemPowerStateHasChanged E s = shareTheSystemLoad E True s"

text \<open>The block of the thermal-pressure notification.\<close>

definition thermalPressureChanged :: "slEnv \<Rightarrow> pressureLevel \<Rightarrow> sysload \<Rightarrow> sysload" where
  "thermalPressureChanged E l s =
     shareTheSystemLoad E True (s\<lparr>thermalPressureLevel := l, tpl_supported := True\<rparr>)"

section \<open>The start\<close>

definition zeroUser :: userActiveStruct where
  "zeroUser = \<lparr>presentActive = False, userActive = False, loggedIn = False, rootDomain = False,
     sessionUserActivity = False, sessionActivityLevels = {}, sleepFromUserWakeTime = 0, postedLevels = Some {},
     clientList = [], hidIdleTimeout = 0, lastHid_ts = 0, lastAssertion_ts = 0, hidActive = False,
     assertionActivityValid = False\<rparr>"

definition slLoaded :: sysload where
  "slLoaded = \<lparr>gUserActive = zeroUser, onACPower = False, onBatteryPower = False, batteryBelowThreshold = False,
     coresConstrained = False, forcedIdle = False, plimitBelowThreshold = False, thermalWarningLevel = False,
     displayIsOff = False, displaySleepEnabled = False, gDominoIsOn = False, gOnenessMode = False,
     thermalState = kIOPMThermalWarningLevelNormal, thermalPressureLevel = kOSThermalPressureLevelNominal,
     tpl_supported = False, lastSystemLoad = None, lastDisplaySleep = False, lastDWBT = None, maxCPUCount = 0,
     hidIdleEval = None, assertionEval = None, slEffects = []\<rparr>"

definition userActive_prime :: "slEnv \<Rightarrow> sysload \<Rightarrow> sysload" where
  "userActive_prime E s =
     userActiveHandleRootDomainActivity E True (s\<lparr>gUserActive := zeroUser\<lparr>postedLevels := None\<rparr>\<rparr>)"

text \<open>What the start reads: batteries, settings, console user, processors and the display.\<close>

record slBoot =
  bootBatteries :: "IOPMBattery list"
  bootSettings :: "(int option \<times> bool option) option"
  bootUser :: bool
  bootCPUs :: "int option"
  bootWarning :: "thermalWarning option"
  bootCPUPower :: "cpuPower option"
  displayAsleep :: bool

definition SystemLoad_prime :: "slEnv \<Rightarrow> slBoot \<Rightarrow> sysload \<Rightarrow> sysload" where
  "SystemLoad_prime E B s =
     (let s1 = slEmit (SetUserActivityState (kIOUserIsActive E)) (userActive_prime E s);
          s2 = SystemLoadPrefsHaveChanged E (bootSettings B) s1;
          s3 = SystemLoadUserStateHasChanged E (bootUser B) s2;
          s4 = SystemLoadCPUPowerHasChanged E None (bootCPUs B) (bootWarning B) (bootCPUPower B) s3;
          s5 = upd_user (\<lambda>U. U\<lparr>hidIdleTimeout := kIOPMDefaultUserActivityTimeout E, lastHid_ts := continuousTime E,
                 hidActive := True, lastAssertion_ts := 0, assertionActivityValid := False\<rparr>) s4;
          s6 = s5\<lparr>displayIsOff := displayAsleep B\<rparr>
      in SystemLoadBatteriesHaveChanged E (bootBatteries B) s6)"

end
