(* ===== verification/SystemLoadLemmas.thy ===== *)
theory SystemLoadLemmas
  imports SystemLoad
begin

unbundle bit_operations_syntax

text \<open>
  What the operations of SystemLoad.c do to the levels, the clients and the timers; the step
  relation of their callers and the invariant of the client list.
\<close>

section \<open>Fields\<close>

lemma slEmit_simps [simp]:
  "gUserActive (slEmit e s) = gUserActive s" "displayIsOff (slEmit e s) = displayIsOff s"
  "gOnenessMode (slEmit e s) = gOnenessMode s" "displaySleepEnabled (slEmit e s) = displaySleepEnabled s"
  "lastSystemLoad (slEmit e s) = lastSystemLoad s" "hidIdleEval (slEmit e s) = hidIdleEval s"
  "assertionEval (slEmit e s) = assertionEval s" "slEffects (slEmit e s) = slEffects s @ [e]"
  by (simp_all add: slEmit_def)

lemma upd_user_simps [simp]:
  "gUserActive (upd_user f s) = f (gUserActive s)" "displayIsOff (upd_user f s) = displayIsOff s"
  "gOnenessMode (upd_user f s) = gOnenessMode s" "displaySleepEnabled (upd_user f s) = displaySleepEnabled s"
  "lastSystemLoad (upd_user f s) = lastSystemLoad s" "hidIdleEval (upd_user f s) = hidIdleEval s"
  "assertionEval (upd_user f s) = assertionEval s" "slEffects (upd_user f s) = slEffects s"
  by (simp_all add: upd_user_def)

section \<open>The load advisory\<close>

lemma minOfThree_min: "minOfThree a b c = min a (min b c)"
  by (auto simp: minOfThree_def Let_def min_def)

definition systemLoad :: "slEnv \<Rightarrow> sysload \<Rightarrow> loadLevel \<times> loadLevel \<times> loadLevel \<times> loadLevel" where
  "systemLoad E s =
     (min (userLevelOf E s) (min (batteryLevelOf s) (powerLevelOf s)),
      userLevelOf E s, batteryLevelOf s, powerLevelOf s)"

lemma shareTheSystemLoad_eq:
  "shareTheSystemLoad E n s =
     (if lastSystemLoad s = Some (systemLoad E s) then s
      else s\<lparr>lastSystemLoad := Some (systemLoad E s),
             slEffects := slEffects s @ (case systemLoad E s of (c, u, b, p) \<Rightarrow> [PublishSystemLoad c u b p])
                            @ (if n then [PostSystemLoadAdvisory] else [])\<rparr>)"
  by (auto simp: shareTheSystemLoad_def Let_def systemLoad_def minOfThree_min slEmit_def)

lemma shareTheSystemLoad_user [simp]: "gUserActive (shareTheSystemLoad E n s) = gUserActive s"
  by (simp add: shareTheSystemLoad_eq)

section \<open>The clients\<close>

definition timeoutsOf :: "clientInfo list \<Rightarrow> u32 list" where
  "timeoutsOf cs = map idleTimeout cs"

lemma clientLoop_Cons:
  assumes "r = clientLoop off i posted passive cs
    (if i \<noteq> 0 \<and> i < idleTimeout c then (if n = 0 then idleTimeout c else n) else n)"
  shows "clientLoop off i posted passive (c # cs) n =
    (c\<lparr>clientLevels := Some (levelsFor off i posted passive c)\<rparr> # fst r, fst (snd r),
     (if clientLevels c \<noteq> Some (levelsFor off i posted passive c)
      then [SendActivityLevels (connection c) (levelsFor off i posted passive c)] else []) @ snd (snd r))"
proof -
  obtain a b d where "r = (a, b, d)" by (metis surj_pair)
  then show ?thesis using assms unfolding clientLoop.simps Let_def by simp
qed

lemma clientLoop_clients:
  "fst (clientLoop off i posted passive cs n) =
     map (\<lambda>c. c\<lparr>clientLevels := Some (levelsFor off i posted passive c)\<rparr>) cs"
  by (induction cs arbitrary: n) (simp_all add: clientLoop_Cons [OF refl] del: clientLoop.simps(2))

lemma clientLoop_sent:
  "snd (snd (clientLoop off i posted passive cs n)) =
     map (\<lambda>c. SendActivityLevels (connection c) (levelsFor off i posted passive c))
       (filter (\<lambda>c. clientLevels c \<noteq> Some (levelsFor off i posted passive c)) cs)"
  by (induction cs arbitrary: n) (simp_all add: clientLoop_Cons [OF refl] del: clientLoop.simps(2))

text \<open>The first timeout that is still to come, and 0 if there is none.\<close>

definition nextTimeout :: "u32 \<Rightarrow> clientInfo list \<Rightarrow> u32" where
  "nextTimeout i cs = (if i = 0 then 0
     else case filter (\<lambda>t. i < t) (timeoutsOf cs) of [] \<Rightarrow> 0 | t # _ \<Rightarrow> t)"

lemma clientLoop_next:
  "fst (snd (clientLoop off i posted passive cs n)) = (if n = 0 then nextTimeout i cs else n)"
proof (induction cs arbitrary: n)
  case (Cons c cs)
  have nz: "i < idleTimeout c \<Longrightarrow> idleTimeout c \<noteq> 0" by (metis word_not_simps(1))
  show ?case
    unfolding clientLoop_Cons [OF refl] fst_conv snd_conv Cons.IH using nz by (auto simp: nextTimeout_def timeoutsOf_def)
qed (simp add: nextTimeout_def timeoutsOf_def)

lemma postLevels_user:
  "gUserActive (postLevels E l s) = (gUserActive s)\<lparr>postedLevels := Some l,
     sessionActivityLevels := (if postedLevels (gUserActive s) = Some l then sessionActivityLevels (gUserActive s)
                               else sessionActivityLevels (gUserActive s) \<union> l)\<rparr>"
  by (simp add: postLevels_def Let_def)

lemma postLevels_simps [simp]:
  "displayIsOff (postLevels E l s) = displayIsOff s"
  "hidIdleEval (postLevels E l s) = hidIdleEval s"
  "assertionEval (postLevels E l s) = assertionEval s"
  by (simp_all add: postLevels_def Let_def)

lemma getUserInactiveDuration_cong:
  assumes "rootDomain (gUserActive s') = rootDomain (gUserActive s)"
    and "hidActive (gUserActive s') = hidActive (gUserActive s)"
    and "lastHid_ts (gUserActive s') = lastHid_ts (gUserActive s)"
    and "lastAssertion_ts (gUserActive s') = lastAssertion_ts (gUserActive s)"
    and "assertionActivityValid (gUserActive s') = assertionActivityValid (gUserActive s)"
  shows "getUserInactiveDuration E s' = getUserInactiveDuration E s"
  using assms by (simp add: getUserInactiveDuration_def Let_def)

lemma inactive_postLevels [simp]:
  "getUserInactiveDuration E (postLevels E l s) = getUserInactiveDuration E s"
  by (rule getUserInactiveDuration_cong) (simp_all add: postLevels_user)

text \<open>The levels for a client, from the levels of the whole system.\<close>

definition clientLevelsNow :: "slEnv \<Rightarrow> sysload \<Rightarrow> clientInfo \<Rightarrow> levels" where
  "clientLevelsNow E s c =
     levelsFor (displayIsOff s) (getUserInactiveDuration E s) (globalLevels E s) (passiveLevels E s) c"

lemma updateUserActivityLevels_eq:
  assumes "r = clientLoop (displayIsOff s) (getUserInactiveDuration E s) (globalLevels E s) (passiveLevels E s)
    (clientList (gUserActive s)) 0"
  shows "updateUserActivityLevels E s = (fst (snd r),
    (upd_user (\<lambda>U. U\<lparr>clientList := fst r\<rparr>) (postLevels E (globalLevels E s) s))
      \<lparr>slEffects := slEffects (postLevels E (globalLevels E s) s) @ snd (snd r)\<rparr>)"
proof -
  obtain a b d where "r = (a, b, d)" by (metis surj_pair)
  then show ?thesis using assms unfolding updateUserActivityLevels_def Let_def by (simp add: postLevels_user)
qed

lemma updateUserActivityLevels_user:
  "gUserActive (snd (updateUserActivityLevels E s)) =
     (gUserActive (postLevels E (globalLevels E s) s))
       \<lparr>clientList := map (\<lambda>c. c\<lparr>clientLevels := Some (clientLevelsNow E s c)\<rparr>) (clientList (gUserActive s))\<rparr>"
  by (simp add: updateUserActivityLevels_eq [OF refl] clientLoop_clients clientLevelsNow_def)

lemma updateUserActivityLevels_next:
  "fst (updateUserActivityLevels E s) = nextTimeout (getUserInactiveDuration E s) (clientList (gUserActive s))"
  by (simp add: updateUserActivityLevels_eq [OF refl] clientLoop_next)

lemma updateUserActivityLevels_effects:
  "slEffects (snd (updateUserActivityLevels E s)) = slEffects (postLevels E (globalLevels E s) s) @
     map (\<lambda>c. SendActivityLevels (connection c) (clientLevelsNow E s c))
       (filter (\<lambda>c. clientLevels c \<noteq> Some (clientLevelsNow E s c)) (clientList (gUserActive s)))"
  by (simp add: updateUserActivityLevels_eq [OF refl] clientLoop_sent clientLevelsNow_def)

lemma updateUserActivityLevels_simps [simp]:
  "displayIsOff (snd (updateUserActivityLevels E s)) = displayIsOff s"
  "hidIdleEval (snd (updateUserActivityLevels E s)) = hidIdleEval s"
  by (simp_all add: updateUserActivityLevels_eq [OF refl])

section \<open>The idle timer\<close>

text \<open>What the time of inactivity and the timers depend on.\<close>

definition idleView :: "sysload \<Rightarrow> (bool \<times> bool \<times> u64 \<times> u64 \<times> bool) \<times> u32 list \<times> u32 \<times> bool" where
  "idleView s = (let U = gUserActive s in
     ((rootDomain U, hidActive U, lastHid_ts U, lastAssertion_ts U, assertionActivityValid U),
      timeoutsOf (clientList U), hidIdleTimeout U, displayIsOff s))"

lemma idleView_inactive: "idleView s' = idleView s \<Longrightarrow> getUserInactiveDuration E s' = getUserInactiveDuration E s"
  by (rule getUserInactiveDuration_cong) (simp_all add: idleView_def Let_def)

lemma idleView_updateUserActivityLevels [simp]: "idleView (snd (updateUserActivityLevels E s)) = idleView s"
  by (simp add: idleView_def Let_def updateUserActivityLevels_user postLevels_user timeoutsOf_def comp_def)

lemma idleView_slEmit [simp]: "idleView (slEmit e s) = idleView s"
  by (simp add: idleView_def)

lemma idleView_user:
  assumes "\<And>U. (rootDomain (f U), hidActive (f U), lastHid_ts (f U), lastAssertion_ts (f U), assertionActivityValid (f U))
      = (rootDomain U, hidActive U, lastHid_ts U, lastAssertion_ts U, assertionActivityValid U)"
    and "\<And>U. clientList (f U) = clientList U" and "\<And>U. hidIdleTimeout (f U) = hidIdleTimeout U"
  shows "idleView (upd_user f s) = idleView s"
  using assms by (simp add: idleView_def Let_def)

lemma idleView_updateUserActivityState [simp]: "idleView (updateUserActivityState E a s) = idleView s"
  by (simp add: updateUserActivityState_def Let_def idleView_user)

lemma hidIdleEval_updateUserActivityState [simp]: "hidIdleEval (updateUserActivityState E a s) = hidIdleEval s"
  by (simp add: updateUserActivityState_def Let_def)

text \<open>The timeouts that are still to come: of the clients, and the default one while the user is active.\<close>

definition awaited :: "slEnv \<Rightarrow> sysload \<Rightarrow> u32 list" where
  "awaited E s = (let i = getUserInactiveDuration E s in
     (if i = 0 then [] else filter (\<lambda>t. i < t) (timeoutsOf (clientList (gUserActive s)))) @
     (if displayIsOff s \<or> i \<ge> kIOPMDefaultUserActivityTimeout E then [] else [kIOPMDefaultUserActivityTimeout E]))"

lemma nextTimeout_filter:
  "nextTimeout i cs = (case (if i = 0 then [] else filter (\<lambda>t. i < t) (timeoutsOf cs)) of [] \<Rightarrow> 0 | t # _ \<Rightarrow> t)"
  by (simp add: nextTimeout_def)

lemma head_or_least:
  fixes i :: u32
  assumes "sorted q" and "list_all (\<lambda>t. i < t) (q @ d)" and "d = [] \<or> d = [x]"
    and n: "n = (case q of [] \<Rightarrow> 0 | t # _ \<Rightarrow> t)" and l: "l = (if d = [] then 0 else x)"
  shows "(n \<noteq> 0 \<or> l \<noteq> 0) = (q @ d \<noteq> [])"
    and "q @ d \<noteq> [] \<Longrightarrow> (if n = 0 \<or> l \<noteq> 0 \<and> n > l then l else n) = Min (set (q @ d))"
    and "q @ d \<noteq> [] \<Longrightarrow> i < Min (set (q @ d))"
proof -
  have pos: "t \<noteq> 0" if "t \<in> set (q @ d)" for t
    using that assms(2) by (metis list.pred_set word_not_simps(1))
  have hd: "n = hd q" "n \<noteq> 0" "Min (set q) = n" if ne: "q \<noteq> []"
  proof -
    from ne obtain t ts where q: "q = t # ts" by (cases q) auto
    show "n = hd q" "n \<noteq> 0" using pos [of t] by (simp_all add: n q)
    show "Min (set q) = n" using assms(1) by (intro Min_eqI) (auto simp: n q)
  qed
  have x: "x \<noteq> 0" "l = x" if "d \<noteq> []" using that pos [of x] assms(3) by (auto simp: l)
  show "(n \<noteq> 0 \<or> l \<noteq> 0) = (q @ d \<noteq> [])"
    using hd(2) x by (cases "q = []"; cases "d = []") (auto simp: n l)
  show "i < Min (set (q @ d))" if "q @ d \<noteq> []" using that assms(2) by (auto simp: list.pred_set)
  show "(if n = 0 \<or> l \<noteq> 0 \<and> n > l then l else n) = Min (set (q @ d))" if "q @ d \<noteq> []"
  proof (cases "q = []")
    case True
    then show ?thesis using that assms(3) by (auto simp: n l)
  next
    case False
    show ?thesis
    proof (cases "d = []")
      case True
      then show ?thesis using hd [OF False] by (simp add: l)
    next
      case d: False
      then have "set (q @ d) = insert x (set q)" using assms(3) by auto
      then have "Min (set (q @ d)) = min x n" using False hd(3) [OF False] by (simp add: Min_insert)
      then show ?thesis using hd(2) [OF False] x [OF d] by (auto simp: min_def)
    qed
  qed
qed

lemma evaluateHidIdleNotification_timer:
  assumes "sorted (timeoutsOf (clientList (gUserActive s)))"
  shows "hidIdleEval (evaluateHidIdleNotification E s) =
    (if awaited E s = [] then None
     else Some (ucast (Min (set (awaited E s)) - getUserInactiveDuration E s)))"
proof -
  let ?i = "getUserInactiveDuration E s"
  define idle where "idle = (displayIsOff s \<or> ?i \<ge> kIOPMDefaultUserActivityTimeout E)"
  define s1 where "s1 = updateUserActivityState E (if idle then kIOUserIsIdle E else kIOUserIsActive E)
    (upd_user (\<lambda>U. U\<lparr>userActive := \<not> idle\<rparr>) s)"
  define l where "l = (if idle then 0 else kIOPMDefaultUserActivityTimeout E)"
  define n where "n = fst (updateUserActivityLevels E s1)"
  let ?q = "if ?i = 0 then [] else filter (\<lambda>t. ?i < t) (timeoutsOf (clientList (gUserActive s)))"
  let ?d = "if idle then [] else [kIOPMDefaultUserActivityTimeout E]"
  have v: "idleView s1 = idleView s" by (simp add: s1_def idleView_user)
  then have t: "timeoutsOf (clientList (gUserActive s1)) = timeoutsOf (clientList (gUserActive s))"
    and off: "displayIsOff s1 = displayIsOff s"
    by (simp_all add: idleView_def Let_def)
  have n_eq: "n = (case ?q of [] \<Rightarrow> 0 | t # _ \<Rightarrow> t)"
    by (simp only: n_def updateUserActivityLevels_next nextTimeout_filter idleView_inactive [OF v] t)
  have a: "awaited E s = ?q @ ?d" by (simp add: awaited_def idle_def Let_def)
  have srt: "sorted ?q" using assms by (simp add: sorted_wrt_filter)
  have gt: "list_all (\<lambda>t. ?i < t) (?q @ ?d)" by (auto simp: list.pred_set idle_def not_le)
  note h = head_or_least [OF srt gt _ n_eq, of "kIOPMDefaultUserActivityTimeout E" l, folded a]
  have h1: "(n \<noteq> 0 \<or> l \<noteq> 0) = (awaited E s \<noteq> [])" by (rule h(1)) (simp_all add: l_def)
  have h2: "(if n = 0 \<or> l \<noteq> 0 \<and> n > l then l else n) = Min (set (awaited E s))" if "awaited E s \<noteq> []"
    by (rule h(2)) (simp_all add: l_def that)
  have h3: "?i < Min (set (awaited E s))" if "awaited E s \<noteq> []" by (rule h(3)) (simp_all add: l_def that)
  obtain s2 where u: "updateUserActivityLevels E s1 = (n, s2)" by (metis n_def prod.collapse)
  have "hidIdleEval s2 = hidIdleEval s1" using updateUserActivityLevels_simps(2) [of E s1] by (simp add: u)
  then have s2: "hidIdleEval s2 = hidIdleEval s" by (simp add: s1_def)
  have "evaluateHidIdleNotification E s =
     (if n \<noteq> 0 \<or> l \<noteq> 0 then
        (if ?i > (if n = 0 \<or> l \<noteq> 0 \<and> n > l then l else n) then s2
         else s2\<lparr>hidIdleEval := Some (ucast ((if n = 0 \<or> l \<noteq> 0 \<and> n > l then l else n) - ?i))\<rparr>)
      else s2\<lparr>hidIdleEval := None\<rparr>)"
    unfolding evaluateHidIdleNotification_def Let_def idle_def [symmetric] s1_def [symmetric] l_def [symmetric]
      u prod.case ..
  then have "hidIdleEval (evaluateHidIdleNotification E s) =
     (if n \<noteq> 0 \<or> l \<noteq> 0 then
        (if ?i > (if n = 0 \<or> l \<noteq> 0 \<and> n > l then l else n) then hidIdleEval s
         else Some (ucast ((if n = 0 \<or> l \<noteq> 0 \<and> n > l then l else n) - ?i)))
      else None)"
    by (simp add: s2)
  then show ?thesis
  proof (cases "awaited E s = []")
    case False
    then have "\<not> ?i > Min (set (awaited E s))" using h3 by (metis less_asym)
    with False show ?thesis
      using \<open>hidIdleEval (evaluateHidIdleNotification E s) = _\<close> h1 by (simp only: h2 [OF False] if_True if_False not_False_eq_True)
  next
    case True
    then have "n = 0" "l = 0" using h1 by auto
    with True show ?thesis using \<open>hidIdleEval (evaluateHidIdleNotification E s) = _\<close> by simp
  qed
qed

section \<open>The client list\<close>

definition clientsInOrder :: "sysload \<Rightarrow> bool" where
  "clientsInOrder s \<longleftrightarrow> (let U = gUserActive s in
     sorted (timeoutsOf (clientList U)) \<and>
     list_all (\<lambda>t. kMinIdleTimeout \<le> t \<and> hidIdleTimeout U \<le> t) (timeoutsOf (clientList U)))"

lemma clientsInOrder_view: "idleView s' = idleView s \<Longrightarrow> clientsInOrder s' = clientsInOrder s"
  by (simp add: idleView_def clientsInOrder_def Let_def)

definition clientView :: "sysload \<Rightarrow> u32 list \<times> u32" where
  "clientView s = (timeoutsOf (clientList (gUserActive s)), hidIdleTimeout (gUserActive s))"

lemma clientView_order: "clientView s' = clientView s \<Longrightarrow> clientsInOrder s' = clientsInOrder s"
  by (simp add: clientView_def clientsInOrder_def Let_def)

lemma clientView_idleView: "idleView s' = idleView s \<Longrightarrow> clientView s' = clientView s"
  by (simp add: clientView_def idleView_def Let_def)

lemma clientView_simps [simp]:
  "clientView (slEmit e s) = clientView s"
  "clientView (shareTheSystemLoad E n s) = clientView s"
  by (simp_all add: clientView_def)

lemma clientView_updateUserActivityLevels [simp]:
  "clientView (snd (updateUserActivityLevels E s)) = clientView s"
  by (rule clientView_idleView) simp

lemma clientView_updateUserActivityState [simp]: "clientView (updateUserActivityState E a s) = clientView s"
  by (rule clientView_idleView) simp

lemma clientView_user:
  assumes "\<And>U. clientList (f U) = clientList U" and "\<And>U. hidIdleTimeout (f U) = hidIdleTimeout U"
  shows "clientView (upd_user f s) = clientView s"
  using assms by (simp add: clientView_def)

lemma clientView_update_timer [simp]:
  "clientView (s\<lparr>hidIdleEval := t\<rparr>) = clientView s" "clientView (s\<lparr>assertionEval := t\<rparr>) = clientView s"
  by (simp_all add: clientView_def)

lemma clientView_evaluateHidIdleNotification [simp]: "clientView (evaluateHidIdleNotification E s) = clientView s"
proof -
  define s1 where "s1 = updateUserActivityState E
    (if displayIsOff s \<or> getUserInactiveDuration E s \<ge> kIOPMDefaultUserActivityTimeout E then kIOUserIsIdle E
     else kIOUserIsActive E)
    (upd_user (\<lambda>U. U\<lparr>userActive := \<not> (displayIsOff s \<or>
       getUserInactiveDuration E s \<ge> kIOPMDefaultUserActivityTimeout E)\<rparr>) s)"
  obtain n s2 where u: "updateUserActivityLevels E s1 = (n, s2)" by (metis surj_pair)
  have "clientView s2 = clientView s1" using clientView_updateUserActivityLevels [of E s1] by (simp add: u)
  also have "\<dots> = clientView s" by (simp add: s1_def clientView_user)
  finally show ?thesis
    unfolding evaluateHidIdleNotification_def Let_def s1_def [symmetric] u prod.case by auto
qed

lemma clientView_setAssertionIdleNotificationTimer [simp]:
  "clientView (setAssertionIdleNotificationTimer E s) = clientView s"
  by (simp add: setAssertionIdleNotificationTimer_def Let_def)

lemma clientView_SystemLoadUserActiveAssertions [simp]:
  "clientView (SystemLoadUserActiveAssertions E a s) = clientView s"
  by (simp add: SystemLoadUserActiveAssertions_def clientView_user)

lemma clientView_userActiveHandleRootDomainActivity [simp]:
  "clientView (userActiveHandleRootDomainActivity E a s) = clientView s"
  by (simp add: userActiveHandleRootDomainActivity_def Let_def clientView_user)

lemma clientView_display: "clientView (s\<lparr>displayIsOff := b\<rparr>) = clientView s"
  by (simp add: clientView_def)

lemma clientView_SystemLoadDisplayPowerStateHasChanged [simp]:
  "clientView (SystemLoadDisplayPowerStateHasChanged E off s) = clientView s"
  by (simp add: SystemLoadDisplayPowerStateHasChanged_def Let_def clientView_user clientView_display)

text \<open>The interface of the deadline queues, on the list of clients.\<close>

lemmas client_queue = by_deadline.ins_sorted [where k = idleTimeout]

lemma insertClient_order:
  assumes "clientsInOrder s"
  shows "clientsInOrder (insertClient E c s)"
proof -
  define c1 where "c1 = (if idleTimeout c < kMinIdleTimeout then c\<lparr>idleTimeout := kMinIdleTimeout\<rparr> else c)"
  define s1 where "s1 = (if idleTimeout c1 < hidIdleTimeout (gUserActive s)
    then setAssertionIdleNotificationTimer E (slEmit (SetHIDIdleNotificationTime (idleTimeout c1))
           (upd_user (\<lambda>U. U\<lparr>hidIdleTimeout := idleTimeout c1\<rparr>) s)) else s)"
  let ?q = "clientList (gUserActive s1)"
  have c1: "kMinIdleTimeout \<le> idleTimeout c1" by (simp add: c1_def not_less)
  have v: "clientView s1 = (timeoutsOf (clientList (gUserActive s)), min (idleTimeout c1) (hidIdleTimeout (gUserActive s)))"
    unfolding s1_def by (auto simp: min_def) (simp_all add: clientView_def)
  have "sorted (map idleTimeout ?q)"
    using assms v by (simp add: clientsInOrder_def clientView_def timeoutsOf_def Let_def)
  then have "sorted (map idleTimeout (insert_by idleTimeout (c1\<lparr>clientLevels := None\<rparr>) ?q))"
    by (intro client_queue) (simp_all add: list.pred_True)
  moreover have "list_all (\<lambda>t. kMinIdleTimeout \<le> t \<and> hidIdleTimeout (gUserActive s1) \<le> t)
      (timeoutsOf (insert_by idleTimeout (c1\<lparr>clientLevels := None\<rparr>) ?q))"
  proof -
    have m: "timeoutsOf ?q = timeoutsOf (clientList (gUserActive s))"
      and h: "hidIdleTimeout (gUserActive s1) = min (idleTimeout c1) (hidIdleTimeout (gUserActive s))"
      using v by (simp_all add: clientView_def)
    have "list_all (\<lambda>t. kMinIdleTimeout \<le> t \<and> hidIdleTimeout (gUserActive s1) \<le> t) (timeoutsOf ?q)"
      using assms unfolding m h by (auto simp: clientsInOrder_def Let_def list.pred_set min.coboundedI2)
    then show ?thesis using c1 h by (simp add: timeoutsOf_def list.pred_set)
  qed
  ultimately have "clientsInOrder (upd_user (\<lambda>U. U\<lparr>clientList :=
      insert_by idleTimeout (c1\<lparr>clientLevels := None\<rparr>) (clientList U)\<rparr>) s1)"
    by (simp add: clientsInOrder_def Let_def timeoutsOf_def)
  then show ?thesis
    unfolding insertClient_def Let_def c1_def [symmetric] s1_def [symmetric]
    by (subst clientView_order [OF clientView_evaluateHidIdleNotification])
qed

lemma removeClient_split:
  "removeClient conn cs = Some (c, cs') \<Longrightarrow> \<exists>xs ys. cs = xs @ c # ys \<and> cs' = xs @ ys \<and> connection c = conn"
proof (induction cs arbitrary: cs')
  case (Cons d ds)
  show ?case
  proof (cases "connection d = conn")
    case True
    then have "d # ds = [] @ c # ds \<and> cs' = [] @ ds \<and> connection c = conn" using Cons.prems by simp
    then show ?thesis by blast
  next
    case False
    then obtain k where k: "removeClient conn ds = Some (c, k)" "cs' = d # k" using Cons.prems by auto
    then obtain xs ys where "ds = xs @ c # ys" "k = xs @ ys" "connection c = conn" using Cons.IH by blast
    then have "d # ds = (d # xs) @ c # ys \<and> cs' = (d # xs) @ ys \<and> connection c = conn" using k by simp
    then show ?thesis by blast
  qed
qed simp

lemma clientsInOrder_remove:
  assumes "clientsInOrder s" and "removeClient conn (clientList (gUserActive s)) = Some (c, cs)"
  shows "clientsInOrder (upd_user (\<lambda>U. U\<lparr>clientList := cs\<rparr>) s)"
proof -
  obtain xs ys where "clientList (gUserActive s) = xs @ c # ys" "cs = xs @ ys"
    using removeClient_split [OF assms(2)] by blast
  then show ?thesis
    using assms(1) by_deadline.remove_sorted [of idleTimeout xs c ys]
    by (simp add: clientsInOrder_def Let_def timeoutsOf_def)
qed

section \<open>Steps\<close>

text \<open>The calls of the rest of the daemon and of its clients, after the start.\<close>

inductive slStep :: "sysload \<Rightarrow> sysload \<Rightarrow> bool" where
  assertions_changed: "slStep s (userActiveHandlePowerAssertionsChanged E s)"
| user_assertions: "slStep s (SystemLoadUserActiveAssertions E a s)"
| root_domain: "slStep s (userActiveHandleRootDomainActivity E a s)"
| system_sleep: "slStep s (userActiveHandleSleep E s)"
| session_reset: "slStep s (resetSessionUserActivity s)"
| hid_timer: "slStep s (evaluateHidIdleNotification E s)"
| hid_property: "slStep s (hidPropertyCallback E activity tickle s)"
| client_registers: "slStep s (registerUserActivityClient E conn t ok s)"
| client_leaves: "slStep s (deRegisterUserActivityClient conn s)"
| client_updates: "slStep s (updateUserActivityTimeout E conn t s)"
| display: "slStep s (SystemLoadDisplayPowerStateHasChanged E off s)"
| domino: "slStep s (updateDominoState E ent d s)"
| oneness: "slStep s (updateOnenessState E ent d s)"
| settings: "slStep s (SystemLoadPrefsHaveChanged E live s)"
| batteries: "slStep s (SystemLoadBatteriesHaveChanged E bs s)"
| cpu_power: "slStep s (SystemLoadCPUPowerHasChanged E d ncpu w copied s)"
| console_user: "slStep s (SystemLoadUserStateHasChanged E u s)"
| power_state: "slStep s (SystemLoadSystemPowerStateHasChanged E s)"
| thermal_pressure: "slStep s (thermalPressureChanged E l s)"

inductive slReachable :: "sysload \<Rightarrow> bool" where
  sl_started: "slReachable (SystemLoad_prime E B slLoaded)"
| sl_stepped: "slReachable s \<Longrightarrow> slStep s s' \<Longrightarrow> slReachable s'"

lemma clientView_SystemLoadPrefsHaveChanged [simp]: "clientView (SystemLoadPrefsHaveChanged E live s) = clientView s"
  by (simp add: SystemLoadPrefsHaveChanged_def Let_def split: option.split) (simp add: clientView_def)

lemma clientView_SystemLoadCPUPowerHasChanged [simp]:
  "clientView (SystemLoadCPUPowerHasChanged E d ncpu w copied s) = clientView s"
  by (simp add: SystemLoadCPUPowerHasChanged_def Let_def split: option.split) (simp add: clientView_def)

lemma clientView_SystemLoadBatteriesHaveChanged [simp]:
  "clientView (SystemLoadBatteriesHaveChanged E bs s) = clientView s"
  by (simp add: SystemLoadBatteriesHaveChanged_def split: prod.split) (simp add: clientView_def)

lemma clientView_SystemLoadUserStateHasChanged [simp]:
  "clientView (SystemLoadUserStateHasChanged E u s) = clientView s"
  by (simp add: SystemLoadUserStateHasChanged_def clientView_user)

lemma clientView_fields:
  "clientView (s\<lparr>gDominoIsOn := b\<rparr>) = clientView s" "clientView (s\<lparr>gOnenessMode := b\<rparr>) = clientView s"
  "clientView (s\<lparr>thermalPressureLevel := l, tpl_supported := b\<rparr>) = clientView s"
  by (simp_all add: clientView_def)

lemma slStep_order:
  assumes "slStep s s'" and "clientsInOrder s"
  shows "clientsInOrder s'"
  using assms
proof cases
  case (client_registers E conn t ok)
  then show ?thesis using assms(2) by (simp add: registerUserActivityClient_def insertClient_order)
next
  case (client_leaves conn)
  then show ?thesis
    using assms(2) clientsInOrder_remove by (auto simp: deRegisterUserActivityClient_def split: option.split)
next
  case (client_updates E conn t)
  then show ?thesis
    using assms(2) insertClient_order [OF clientsInOrder_remove]
    by (auto simp: updateUserActivityTimeout_def split: option.split)
qed (rule clientView_order [THEN iffD2, OF _ assms(2)],
    simp add: userActiveHandlePowerAssertionsChanged_def clientView_user userActiveHandleSleep_def
      resetSessionUserActivity_def hidPropertyCallback_def updateDominoState_def updateOnenessState_def
      SystemLoadDominoStateHasChanged_def SystemLoadOnenessStateHasChanged_def clientView_fields Let_def
      SystemLoadSystemPowerStateHasChanged_def thermalPressureChanged_def)+

lemma prime_order: "clientsInOrder (SystemLoad_prime E B slLoaded)"
proof -
  have up: "clientView (userActive_prime E slLoaded) = ([], 0)"
    by (simp add: userActive_prime_def) (simp add: clientView_def zeroUser_def timeoutsOf_def)
  define s4 where "s4 = SystemLoadCPUPowerHasChanged E None (bootCPUs B) (bootWarning B) (bootCPUPower B)
    (SystemLoadUserStateHasChanged E (bootUser B) (SystemLoadPrefsHaveChanged E (bootSettings B)
      (slEmit (SetUserActivityState (kIOUserIsActive E)) (userActive_prime E slLoaded))))"
  have "clientView s4 = ([], 0)" by (simp add: s4_def up)
  then have "clientList (gUserActive s4) = []" by (simp add: clientView_def timeoutsOf_def)
  then have "clientsInOrder ((upd_user (\<lambda>U. U\<lparr>hidIdleTimeout := kIOPMDefaultUserActivityTimeout E,
      lastHid_ts := continuousTime E, hidActive := True, lastAssertion_ts := 0,
      assertionActivityValid := False\<rparr>) s4)\<lparr>displayIsOff := displayAsleep B\<rparr>)"
    by (simp add: clientsInOrder_def Let_def timeoutsOf_def)
  then show ?thesis
    unfolding SystemLoad_prime_def Let_def s4_def [symmetric]
    by (subst clientView_order [OF clientView_SystemLoadBatteriesHaveChanged])
qed

lemma slReachable_order: "slReachable s \<Longrightarrow> clientsInOrder s"
  by (induction rule: slReachable.induct) (auto intro: prime_order slStep_order)

section \<open>What the load depends on\<close>

definition loadView :: "sysload \<Rightarrow> sysload \<times> bool" where
  "loadView s = (s\<lparr>gUserActive := zeroUser, hidIdleEval := None, assertionEval := None, slEffects := []\<rparr>,
     loggedIn (gUserActive s))"

lemma loadView_load:
  assumes "loadView s' = loadView s"
  shows "systemLoad E s' = systemLoad E s" and "lastSystemLoad s' = lastSystemLoad s" and "displayIsOff s' = displayIsOff s"
proof -
  let ?strip = "\<lambda>s :: sysload. s\<lparr>gUserActive := zeroUser, hidIdleEval := None, assertionEval := None, slEffects := []\<rparr>"
  have e: "?strip s' = ?strip s" and l: "loggedIn (gUserActive s') = loggedIn (gUserActive s)"
    using assms by (simp_all add: loadView_def)
  have b: "batteryLevelOf (?strip s) = batteryLevelOf s" "powerLevelOf (?strip s) = powerLevelOf s"
    "displayIsOff (?strip s) = displayIsOff s" "lastSystemLoad (?strip s) = lastSystemLoad s" for s :: sysload
    by (simp_all add: batteryLevelOf_def powerLevelOf_def Let_def cong: pressureLevel.case_cong)
  show d: "displayIsOff s' = displayIsOff s" by (metis b(3) e)
  show "lastSystemLoad s' = lastSystemLoad s" by (metis b(4) e)
  have "batteryLevelOf s' = batteryLevelOf s" by (metis b(1) e)
  moreover have "powerLevelOf s' = powerLevelOf s" by (metis b(2) e)
  ultimately show "systemLoad E s' = systemLoad E s" using l d by (simp add: systemLoad_def userLevelOf_def)
qed

lemma loadView_slEmit [simp]: "loadView (slEmit e s) = loadView s"
  by (simp add: loadView_def slEmit_def)

lemma loadView_user: "(\<And>U. loggedIn (f U) = loggedIn U) \<Longrightarrow> loadView (upd_user f s) = loadView s"
  by (simp add: loadView_def upd_user_def)

lemma loadView_timers [simp]:
  "loadView (s\<lparr>hidIdleEval := t\<rparr>) = loadView s" "loadView (s\<lparr>assertionEval := t\<rparr>) = loadView s"
  "loadView (s\<lparr>slEffects := es\<rparr>) = loadView s"
  by (simp_all add: loadView_def)

lemma loadView_postLevels [simp]: "loadView (postLevels E l s) = loadView s"
  by (simp add: postLevels_def Let_def loadView_user)

lemma loadView_updateUserActivityLevels [simp]: "loadView (snd (updateUserActivityLevels E s)) = loadView s"
  by (simp add: updateUserActivityLevels_eq [OF refl] loadView_user)

lemma loadView_updateUserActivityState [simp]: "loadView (updateUserActivityState E a s) = loadView s"
  by (simp add: updateUserActivityState_def Let_def loadView_user)

lemma loadView_evaluateHidIdleNotification [simp]: "loadView (evaluateHidIdleNotification E s) = loadView s"
proof -
  define s1 where "s1 = updateUserActivityState E
    (if displayIsOff s \<or> getUserInactiveDuration E s \<ge> kIOPMDefaultUserActivityTimeout E then kIOUserIsIdle E
     else kIOUserIsActive E)
    (upd_user (\<lambda>U. U\<lparr>userActive := \<not> (displayIsOff s \<or>
       getUserInactiveDuration E s \<ge> kIOPMDefaultUserActivityTimeout E)\<rparr>) s)"
  obtain n s2 where u: "updateUserActivityLevels E s1 = (n, s2)" by (metis surj_pair)
  have "loadView s2 = loadView s1" using loadView_updateUserActivityLevels [of E s1] by (simp add: u)
  also have "\<dots> = loadView s" by (simp add: s1_def loadView_user)
  finally show ?thesis
    unfolding evaluateHidIdleNotification_def Let_def s1_def [symmetric] u prod.case by auto
qed

lemma systemLoad_update:
  "systemLoad E (s\<lparr>lastSystemLoad := x, slEffects := es\<rparr>) = systemLoad E s"
proof -
  let ?s = "s\<lparr>lastSystemLoad := x, slEffects := es\<rparr>"
  have "userLevelOf E ?s = userLevelOf E s" by (simp add: userLevelOf_def)
  moreover have "batteryLevelOf ?s = batteryLevelOf s" by (simp add: batteryLevelOf_def)
  moreover have "powerLevelOf ?s = powerLevelOf s" by (simp add: powerLevelOf_def Let_def)
  ultimately show ?thesis by (simp only: systemLoad_def)
qed

lemma share_published:
  "lastSystemLoad (shareTheSystemLoad E n s) = Some (systemLoad E (shareTheSystemLoad E n s))"
proof (cases "lastSystemLoad s = Some (systemLoad E s)")
  case False
  then have "shareTheSystemLoad E n s = s\<lparr>lastSystemLoad := Some (systemLoad E s),
      slEffects := slEffects s @ (case systemLoad E s of (c, u, b, p) \<Rightarrow> [PublishSystemLoad c u b p])
        @ (if n then [PostSystemLoadAdvisory] else [])\<rparr>"
    by (simp only: shareTheSystemLoad_eq if_False)
  moreover from this have "lastSystemLoad (shareTheSystemLoad E n s) = Some (systemLoad E s)" by simp
  ultimately show ?thesis by (simp only: systemLoad_update)
qed (simp add: shareTheSystemLoad_eq)

lemma display_published:
  assumes "off \<noteq> displayIsOff s"
  shows "lastSystemLoad (SystemLoadDisplayPowerStateHasChanged E off s) =
    Some (systemLoad E (SystemLoadDisplayPowerStateHasChanged E off s))"
proof -
  obtain s2 where s': "SystemLoadDisplayPowerStateHasChanged E off s =
      slEmit (LogAssertionCount off) (slEmit (InternalEvaluateProcTimerOnDisplayStateChange off)
        (evaluateHidIdleNotification E (shareTheSystemLoad E True s2)))"
    using assms unfolding SystemLoadDisplayPowerStateHasChanged_def Let_def by metis
  have "loadView (SystemLoadDisplayPowerStateHasChanged E off s) = loadView (shareTheSystemLoad E True s2)"
    by (simp add: s')
  from loadView_load(1,2) [OF this] share_published [of E True s2] show ?thesis by simp
qed

end
