(* ===== verification/SystemLoadProperties.thy ===== *)
theory SystemLoadProperties
  imports SystemLoadLemmas AssertionExample
begin

unbundle bit_operations_syntax

text \<open>Properties of the system load and of user activity, each with its witness.\<close>

section \<open>An example\<close>

definition desk :: slEnv where
  "desk = \<lparr>continuousTime = 1000, absoluteTime = 0, engine = boot, NotificationDisplayWake = False,
     DarkWakeState = False, BTMtnceWake = False, DWBT_enabled = False, kIOUserIsActive = 1, kIOUserIsIdle = 0,
     kIOPMDefaultUserActivityTimeout = 300\<rparr>"

definition deskBoot :: slBoot where
  "deskBoot = \<lparr>bootBatteries = [], bootSettings = Some (Some 10, Some True), bootUser = True, bootCPUs = Some 8,
     bootWarning = None, bootCPUPower = None, displayAsleep = False\<rparr>"

definition started :: sysload where
  "started = SystemLoad_prime desk deskBoot slLoaded"

text \<open>Two clients, of a minute and of ten, and a HID system that has been idle for 100 seconds.\<close>

definition watched :: sysload where
  "watched = hidPropertyCallback desk 0 900
     (registerUserActivityClient desk 2 600 True (registerUserActivityClient desk 1 60 True started))"

lemma started_reachable: "slReachable started"
  unfolding started_def by (rule sl_started)

lemma watched_reachable: "slReachable watched"
  unfolding watched_def
  by (intro sl_stepped [OF _ hid_property] sl_stepped [OF _ client_registers] started_reachable)

section \<open>The load advisory\<close>

text \<open>
  a change of the batteries, of the console user, of the thermal pressure or of the display
  is published: the last load that was published is the load of the new state, whose combined
  level is the worst of the levels of user, battery and power.
\<close>

theorem load_published:
  "lastSystemLoad (SystemLoadBatteriesHaveChanged E bs s) = Some (systemLoad E (SystemLoadBatteriesHaveChanged E bs s)) \<and>
   lastSystemLoad (SystemLoadUserStateHasChanged E u s) = Some (systemLoad E (SystemLoadUserStateHasChanged E u s)) \<and>
   lastSystemLoad (thermalPressureChanged E l s) = Some (systemLoad E (thermalPressureChanged E l s)) \<and>
   lastSystemLoad (SystemLoadDisplayPowerStateHasChanged E (\<not> displayIsOff s) s) =
     Some (systemLoad E (SystemLoadDisplayPowerStateHasChanged E (\<not> displayIsOff s) s))"
  by (simp add: SystemLoadBatteriesHaveChanged_def SystemLoadUserStateHasChanged_def thermalPressureChanged_def
      share_published display_published split: prod.split)

section \<open>User activity\<close>

text \<open>
  After \<open>updateUserActivityLevels\<close> the posted levels are the levels of the assertions, the
  display and the user; every client has its own levels for its timeout; and exactly the clients
  whose levels changed are sent a message, in the order of the list.
\<close>

theorem activity_levels_posted:
  "postedLevels (gUserActive (snd (updateUserActivityLevels E s))) = Some (globalLevels E s) \<and>
   clientList (gUserActive (snd (updateUserActivityLevels E s))) =
     map (\<lambda>c. c\<lparr>clientLevels := Some (clientLevelsNow E s c)\<rparr>) (clientList (gUserActive s)) \<and>
   slEffects (snd (updateUserActivityLevels E s)) = slEffects (postLevels E (globalLevels E s) s) @
     map (\<lambda>c. SendActivityLevels (connection c) (clientLevelsNow E s c))
       (filter (\<lambda>c. clientLevels c \<noteq> Some (clientLevelsNow E s c)) (clientList (gUserActive s)))"
  by (simp add: updateUserActivityLevels_user updateUserActivityLevels_effects postLevels_user)

definition passiveBits :: levels where
  "passiveBits = {kIOPMUserPresentPassive, kIOPMUserPresentPassiveWithDisplay, kIOPMUserPresentPassiveWithoutDisplay}"

definition activeXorPassive :: "levels \<Rightarrow> bool" where
  "activeXorPassive l \<longleftrightarrow> \<not> (kIOPMUserPresentActive \<in> l \<and> l \<inter> passiveBits \<noteq> {})"

text \<open>
  the user is never reported as active and as passive at once, neither to the whole system
  nor to a client.
\<close>

theorem active_or_passive:
  "activeXorPassive (globalLevels E s) \<and> activeXorPassive (clientLevelsNow E s c)"
  by (auto simp: activeXorPassive_def globalLevels_def passiveLevels_def clientLevelsNow_def levelsFor_def
      passiveBits_def Let_def split: if_splits)

section \<open>Clients and timers\<close>

text \<open>
  C22: in every reachable state the clients are in the order of their timeouts, none has a
  timeout below the least one that is allowed, and the HID system is asked for a notification no
  later than the first client wants it.
\<close>

theorem clients_in_order:
  assumes "slReachable s"
  shows "sorted (map idleTimeout (clientList (gUserActive s))) \<and>
    list_all (\<lambda>c. kMinIdleTimeout \<le> idleTimeout c \<and> hidIdleTimeout (gUserActive s) \<le> idleTimeout c)
      (clientList (gUserActive s))"
  using slReachable_order [OF assms] by (simp add: clientsInOrder_def Let_def timeoutsOf_def list.pred_set)

definition inOrderFrom :: "u32 \<Rightarrow> clientInfo list \<Rightarrow> bool" where
  "inOrderFrom t cs \<longleftrightarrow> sorted (map idleTimeout cs) \<and> list_all (\<lambda>c. kMinIdleTimeout \<le> idleTimeout c \<and> t \<le> idleTimeout c) cs"

theorem clients_in_order_witness:
  "inOrderFrom (hidIdleTimeout (gUserActive watched)) (clientList (gUserActive watched))"
  using clients_in_order [OF watched_reachable] by (simp add: inOrderFrom_def)

text \<open>
  C23: in a reachable state the re-evaluation of idleness arms its timer for the least timeout
  that is still to come, of a client or the default one while the user is active, less the time
  the user has been inactive, which is shorter; without such a timeout the timer is stopped.
\<close>

theorem idle_timer_least:
  assumes "slReachable s"
  shows "hidIdleEval (evaluateHidIdleNotification E s) =
    (if awaited E s = [] then None
     else Some (ucast (Min (set (awaited E s)) - getUserInactiveDuration E s))) \<and>
    list_all (\<lambda>t. getUserInactiveDuration E s < t) (awaited E s)"
proof -
  have "sorted (timeoutsOf (clientList (gUserActive s)))"
    using slReachable_order [OF assms] by (simp add: clientsInOrder_def Let_def)
  then have "hidIdleEval (evaluateHidIdleNotification E s) =
      (if awaited E s = [] then None
       else Some (ucast (Min (set (awaited E s)) - getUserInactiveDuration E s)))"
    by (rule evaluateHidIdleNotification_timer)
  moreover have "list_all (\<lambda>t. getUserInactiveDuration E s < t) (awaited E s)"
    by (auto simp: awaited_def Let_def list.pred_set not_le word_neq_0_conv)
  ultimately show ?thesis by blast
qed

theorem idle_timer_least_witness: "hidIdleEval (evaluateHidIdleNotification desk watched) = Some 200"
proof -
  have "awaited desk watched = [600, 300]" by code_simp
  moreover have "getUserInactiveDuration desk watched = 100" by code_simp
  ultimately show ?thesis using idle_timer_least [OF watched_reachable, of desk] by simp
qed

section \<open>What goes wrong\<close>

text \<open>
  With the display always on and an idle time between the default timeout and that of a client,
  the client is told that the user is present and active and, at once, absent.
\<close>

lemma active_and_absent:
  "{kIOPMUserPresentActive, kIOPMUserAbsentWithDisplay} \<subseteq>
     clientLevelsNow (desk\<lparr>continuousTime := 1300\<rparr>) (evaluateHidIdleNotification (desk\<lparr>continuousTime := 1300\<rparr>)
       (SystemLoadPrefsHaveChanged desk (Some (Some 0, None)) watched))
       \<lparr>connection = 2, idleTimeout = 600, clientLevels = None\<rparr>"
  by code_simp

text \<open>A client for which the user is idle is not told of remote clients and of notifications.\<close>

lemma idle_client_not_told:
  assumes "displayIsOff s \<or> idleTimeout c \<le> getUserInactiveDuration E s"
  shows "clientLevelsNow E s c \<inter> {kIOPMUserRemoteClientActive, kIOPMUserNotificationActive} = {}"
  using assms
  by (auto simp: clientLevelsNow_def levelsFor_def passiveLevels_def Let_def not_less split: if_splits)

text \<open>When the CPU power status cannot be copied, the flags are cleared but no load is published.\<close>

lemma cpu_status_unpublished:
  "lastSystemLoad (SystemLoadCPUPowerHasChanged E None n w None s) = lastSystemLoad s \<and>
   \<not> coresConstrained (SystemLoadCPUPowerHasChanged E None n w None s)"
  by (simp add: SystemLoadCPUPowerHasChanged_def Let_def split: option.split)

end
