(* ===== verification/UPSLowPower.thy ===== *)
theory UPSLowPower
  imports Prelude "HOL-Library.Signed_Division" "HOL-Library.Monad_Syntax"
begin

text \<open>
  Emergency shutdown on UPS power (UPSLowPower.c): the thresholds, the re-evaluation on a change
  of the power sources, and the shutdown.  An operation in the option monad is \<open>None\<close> when it
  reads through the null pointer of thresholds that could not be allocated.
\<close>

section \<open>State\<close>

text \<open>A threshold: whether it is enabled, and its value.\<close>

type_synonym halt = "bool \<times> int"

record threshold_struct =
  haltafter :: halt
  haltremain :: halt
  haltpercent :: halt

datatype upsCommand = kIOPSCommandStartupDelayKey | kIOPSCommandDelayedRemovePowerKey

datatype upsEffect =
    SendUPSCommand upsCommand int
  | ExecUPSShutdown "string list"
  | CopyUPSWarning
  | CancelUPSAlert

record ups =
  thresh :: "threshold_struct option"
  switchedToUPSPowerTime :: rat
  lastOnExternal :: bool
  upsAlert :: bool
  alreadyShuttingDown :: bool
  reEvaluations :: "rat list"
  upsEffects :: "upsEffect list"

datatype upsPower = kIOPSBatteryPowerValue | OtherPowerValue

text \<open>The dictionary of the active UPS, each value if it is there with the right type.\<close>

record upsDict =
  kIOPSPowerSourceID :: "int option"
  kIOPSIsPresent :: "bool option"
  kIOPSPowerSourceState :: "upsPower option"
  kIOPSCurrentCapacity :: "int option"
  kIOPSMaxCapacity :: "int option"
  kIOPSTimeToEmpty :: "int option"

text \<open>
  What is read from outside: the time, the active UPS, the internal battery (known to IOKit or to
  the battery code), the restart setting, the UPS server with the capabilities of the UPS and the
  answers to its commands, the claim of another application, and what the conversion of an
  infinite or undefined double to an int gives.
\<close>

record upsEnv =
  upsNow :: rat
  activeUPS :: "upsDict option"
  builtInBattery :: bool
  activeBattery :: bool
  activeSettings :: "int option option"
  upsServerRunning :: bool
  upsCapabilities :: "upsCommand set option"
  upsCommandSucceeds :: "upsCommand \<Rightarrow> bool"
  managementClaimed :: bool
  haveUserNotification :: bool
  intOfOverZero :: "int \<Rightarrow> int"

definition upsEmit :: "upsEffect \<Rightarrow> ups \<Rightarrow> ups" where
  "upsEmit e s = s\<lparr>upsEffects := upsEffects s @ [e]\<rparr>"

definition truncated :: "rat \<Rightarrow> int" where
  "truncated x = (if x < 0 then \<lceil>x\<rceil> else \<lfloor>x\<rfloor>)"

section \<open>Thresholds\<close>

text \<open>A dictionary of the preferences: the value of the enabled key is the true boolean or not.\<close>

record upsLevel =
  shutdownLevelEnabled :: bool
  shutdownLevelValue :: "int option"

definition threshEnabled :: "upsLevel \<Rightarrow> bool" where
  "threshEnabled d = shutdownLevelEnabled d"

definition threshValue :: "upsLevel \<Rightarrow> int" where
  "threshValue d = (case shutdownLevelValue d of Some n \<Rightarrow> n | None \<Rightarrow> 0)"

record upsLevels =
  kIOUPSShutdownAtLevel :: "upsLevel option"
  kIOUPSShutdownAfterMinutesOn :: "upsLevel option"
  kIOUPSShutdownAtMinutesLeft :: "upsLevel option"

definition haltFrom :: "upsLevel option \<Rightarrow> halt \<Rightarrow> halt" where
  "haltFrom d h = (case d of Some l \<Rightarrow> (threshEnabled l, threshValue l) | None \<Rightarrow> h)"

definition getUPSShutdownThresholdsFromDisk :: "upsLevels option \<Rightarrow> threshold_struct \<Rightarrow> threshold_struct" where
  "getUPSShutdownThresholdsFromDisk happytown t =
     (let t1 = t\<lparr>haltafter := (False, snd (haltafter t)), haltremain := (False, snd (haltremain t)),
                 haltpercent := (False, snd (haltpercent t))\<rparr>
      in case happytown of
           None \<Rightarrow> t1
         | Some p \<Rightarrow>
             t1\<lparr>haltpercent := haltFrom (kIOUPSShutdownAtLevel p) (haltpercent t1),
                haltafter := haltFrom (kIOUPSShutdownAfterMinutesOn p) (haltafter t1),
                haltremain := haltFrom (kIOUPSShutdownAtMinutesLeft p) (haltremain t1)\<rparr>)"

text \<open>\<open>garbage\<close> is what the allocated memory holds, if it could be allocated.\<close>

definition UPSLowPower_prime :: "threshold_struct option \<Rightarrow> upsLevels option \<Rightarrow> ups \<Rightarrow> ups" where
  "UPSLowPower_prime garbage happytown s =
     s\<lparr>thresh := map_option (getUPSShutdownThresholdsFromDisk happytown) garbage\<rparr>"

definition UPSLowPowerPrefsHaveChanged :: "upsLevels option \<Rightarrow> ups \<Rightarrow> ups" where
  "UPSLowPowerPrefsHaveChanged happytown s =
     s\<lparr>thresh := map_option (getUPSShutdownThresholdsFromDisk happytown) (thresh s)\<rparr>"

definition upsLoaded :: ups where
  "upsLoaded = \<lparr>thresh = None, switchedToUPSPowerTime = 0, lastOnExternal = True, upsAlert = False,
     alreadyShuttingDown = False, reEvaluations = [], upsEffects = []\<rparr>"

section \<open>The shutdown\<close>

definition delayedRemovePowerMinutes :: int where
  "delayedRemovePowerMinutes = 3"

definition delayBeforeStartupMinutes :: int where
  "delayBeforeStartupMinutes = 4"

definition upsSupports :: "upsEnv \<Rightarrow> upsCommand \<Rightarrow> bool" where
  "upsSupports E c =
     (if \<not> upsServerRunning E then False
      else case upsCapabilities E of None \<Rightarrow> False | Some caps \<Rightarrow> c \<in> caps)"

text \<open>The command is sent when the server is there; the result is whether it succeeded.\<close>

definition upsCommand :: "upsEnv \<Rightarrow> upsCommand \<Rightarrow> int \<Rightarrow> ups \<Rightarrow> bool \<times> ups" where
  "upsCommand E c arg s =
     (if \<not> upsServerRunning E then (False, s)
      else (upsCommandSucceeds E c, upsEmit (SendUPSCommand c arg) s))"

definition askForRestart :: "upsEnv \<Rightarrow> ups \<Rightarrow> ups" where
  "askForRestart E s =
     (if upsSupports E kIOPSCommandDelayedRemovePowerKey then
        (case upsCommand E kIOPSCommandStartupDelayKey delayBeforeStartupMinutes s of
           (ok, s1) \<Rightarrow>
             if \<not> ok then s1
             else snd (upsCommand E kIOPSCommandDelayedRemovePowerKey delayedRemovePowerMinutes s1))
      else s)"

definition doPowerEmergencyShutdown :: "upsEnv \<Rightarrow> ups \<Rightarrow> ups" where
  "doPowerEmergencyShutdown E s =
     (if alreadyShuttingDown s then s
      else
        let s1 = s\<lparr>alreadyShuttingDown := True\<rparr>;
            upsRestart = (case activeSettings E of
                            Some (Some restart_setting) \<Rightarrow> restart_setting \<noteq> 0
                          | _ \<Rightarrow> False);
            s2 = (if upsRestart then askForRestart E s1 else s1)
        in upsEmit (ExecUPSShutdown (if upsRestart then [''WaitForUPS''] else [])) s2)"

section \<open>The change of a power source\<close>

text \<open>The pointer to the dynamic store is null, so the claim is never looked up.\<close>

definition weManageUPSPower :: "upsEnv \<Rightarrow> bool" where
  "weManageUPSPower E = (let ds_ref = False in if ds_ref \<and> managementClaimed E then False else True)"

definition clearAlert :: "upsEnv \<Rightarrow> ups \<Rightarrow> ups" where
  "clearAlert E s =
     (if haveUserNotification E \<and> upsAlert s then (upsEmit CancelUPSAlert s)\<lparr>upsAlert := False\<rparr> else s)"

definition showAlert :: "upsEnv \<Rightarrow> ups \<Rightarrow> ups" where
  "showAlert E s =
     (if haveUserNotification E \<and> \<not> upsAlert s then (upsEmit CopyUPSWarning s)\<lparr>upsAlert := True\<rparr> else s)"

text \<open>
  The times are seconds of a clock; a difference is cut to a whole number (the conversion to an
  \<open>int\<close> is exact below 2^31 seconds, that is for 68 years).
\<close>

definition reEvaluatePowerSourcesLater :: "upsEnv \<Rightarrow> int \<Rightarrow> ups \<Rightarrow> ups" where
  "reEvaluatePowerSourcesLater E seconds s = s\<lparr>reEvaluations := reEvaluations s @ [upsNow E + of_int seconds]\<rparr>"

definition secondsSpentOnUPSPower :: "upsEnv \<Rightarrow> ups \<Rightarrow> int" where
  "secondsSpentOnUPSPower E s = truncated (upsNow E - switchedToUPSPowerTime s)"

definition minutesSpentOnUPSPower :: "upsEnv \<Rightarrow> ups \<Rightarrow> int" where
  "minutesSpentOnUPSPower E s = truncated ((upsNow E - switchedToUPSPowerTime s) / 60)"

definition percentRemaining :: "upsEnv \<Rightarrow> upsDict \<Rightarrow> int option" where
  "percentRemaining E u =
     (case (kIOPSCurrentCapacity u, kIOPSMaxCapacity u) of
        (Some t1, Some t2) \<Rightarrow> Some (if t2 = 0 then intOfOverZero E t1 else (100 * t1) sdiv t2)
      | _ \<Rightarrow> None)"

text \<open>
  The seconds after which the time on UPS power is looked at again are an \<open>int\<close>; beyond 35791394
  minutes the expression overflows, which is written here as the wrap-around to 32 bits.
\<close>

definition haltSeconds :: "int \<Rightarrow> int" where
  "haltSeconds minutes = sint (word_of_int (5 + 60 * minutes) :: 32 word)"

text \<open>The first re-evaluation on battery power starts the clock.\<close>

definition switchToBattery :: "upsEnv \<Rightarrow> ups \<Rightarrow> ups option" where
  "switchToBattery E s =
     (if lastOnExternal s then do {
        t \<leftarrow> thresh s;
        let s1 = s\<lparr>switchedToUPSPowerTime := upsNow E\<rparr>;
            s2 = (if fst (haltafter t) then reEvaluatePowerSourcesLater E (haltSeconds (snd (haltafter t))) s1 else s1)
        in Some (showAlert E s2)
      }
      else Some s)"

text \<open>A value that is compared with a threshold, if there is one.\<close>

definition haltIf :: "upsEnv \<Rightarrow> (threshold_struct \<Rightarrow> halt) \<Rightarrow> int option \<Rightarrow> ups \<Rightarrow> ups option" where
  "haltIf E h v s =
     (case v of
        None \<Rightarrow> Some s
      | Some n \<Rightarrow> do {
          t \<leftarrow> thresh s;
          Some (if fst (h t) \<and> n \<le> snd (h t) then doPowerEmergencyShutdown E s else s)
        })"

definition checkThresholds :: "upsEnv \<Rightarrow> upsDict \<Rightarrow> ups \<Rightarrow> ups option" where
  "checkThresholds E u s =
     do {
       s1 \<leftarrow> haltIf E haltpercent (percentRemaining E u) s;
       s2 \<leftarrow> haltIf E haltremain (kIOPSTimeToEmpty u) s1;
       t \<leftarrow> thresh s2;
       Some (if fst (haltafter t) \<and> minutesSpentOnUPSPower E s2 \<ge> snd (haltafter t)
             then doPowerEmergencyShutdown E s2 else s2)
     }"

definition UPSLowPowerPSChange_sync :: "upsEnv \<Rightarrow> ups \<Rightarrow> ups option" where
  "UPSLowPowerPSChange_sync E s =
     (if \<not> weManageUPSPower E then Some (s\<lparr>lastOnExternal := True\<rparr>)
      else case activeUPS E of
        None \<Rightarrow> Some ((clearAlert E s)\<lparr>lastOnExternal := True\<rparr>)
      | Some u \<Rightarrow>
          if kIOPSPowerSourceID u = None then Some (s\<lparr>lastOnExternal := True\<rparr>)
          else if kIOPSIsPresent u \<noteq> Some True then Some ((clearAlert E s)\<lparr>lastOnExternal := True\<rparr>)
          else if kIOPSPowerSourceState u \<noteq> Some kIOPSBatteryPowerValue
          then Some ((clearAlert E s)\<lparr>lastOnExternal := True\<rparr>)
          else do {
            s1 \<leftarrow> switchToBattery E s;
            s2 \<leftarrow> (if builtInBattery E \<or> activeBattery E then Some s1
                  else if secondsSpentOnUPSPower E s1 < 10 then Some (reEvaluatePowerSourcesLater E 10 s1)
                  else checkThresholds E u s1);
            Some (s2\<lparr>lastOnExternal := False\<rparr>)
          })"

end
