(* ===== verification/UPSProperties.thy ===== *)
theory UPSProperties
  imports UPSLowPower
begin

text \<open>Properties of the emergency shutdown on UPS power, each with its witness.\<close>

section \<open>Lemmas\<close>

lemma haltSeconds_exact:
  assumes "0 \<le> X" and "X \<le> 35791394"
  shows "haltSeconds X = 5 + 60 * X"
  unfolding haltSeconds_def
  by (rule signed_take_bit_int_eq_self [THEN trans [OF sint_sbintrunc']]) (use assms in simp_all)

lemma truncated_mono: "x \<le> y \<Longrightarrow> truncated x \<le> truncated y"
  by (auto simp: truncated_def floor_mono ceiling_mono) (meson ceiling_le_zero dual_order.trans less_imp_le not_less zero_le_floor)

text \<open>What the operations that notify and re-evaluate leave alone.\<close>

definition shutdowns :: "ups \<Rightarrow> nat" where
  "shutdowns s = length (filter (\<lambda>e. case e of ExecUPSShutdown _ \<Rightarrow> True | _ \<Rightarrow> False) (upsEffects s))"

definition shutView :: "ups \<Rightarrow> threshold_struct option \<times> bool \<times> nat" where
  "shutView s = (thresh s, alreadyShuttingDown s, shutdowns s)"

lemma shutView_simps [simp]:
  "shutView (clearAlert E s) = shutView s" "shutView (showAlert E s) = shutView s"
  "shutView (reEvaluatePowerSourcesLater E n s) = shutView s"
  "shutView (s\<lparr>lastOnExternal := b\<rparr>) = shutView s"
  "shutView (s\<lparr>switchedToUPSPowerTime := x\<rparr>) = shutView s"
  by (simp_all add: shutView_def shutdowns_def clearAlert_def showAlert_def reEvaluatePowerSourcesLater_def upsEmit_def)

lemma upsCommand_view: "shutView (snd (upsCommand E c n s)) = shutView s"
  by (simp add: upsCommand_def shutView_def shutdowns_def upsEmit_def)

lemma askForRestart_view: "shutView (askForRestart E s) = shutView s"
  using upsCommand_view by (auto simp: askForRestart_def split: prod.split) (metis snd_conv upsCommand_view)+

lemma doPowerEmergencyShutdown_view:
  "shutView (doPowerEmergencyShutdown E s) =
     (thresh s, True, if alreadyShuttingDown s then shutdowns s else Suc (shutdowns s))"
proof (cases "alreadyShuttingDown s")
  case False
  let ?s1 = "s\<lparr>alreadyShuttingDown := True\<rparr>"
  have e: "shutView (upsEmit (ExecUPSShutdown a) s') =
      (case shutView s' of (t, b, n) \<Rightarrow> (t, b, Suc n))" for a s'
    by (simp add: shutView_def shutdowns_def upsEmit_def)
  have "shutView (if b then askForRestart E ?s1 else ?s1) = (thresh s, True, shutdowns s)" for b
    by (simp add: askForRestart_view) (simp add: shutView_def shutdowns_def)
  with False show ?thesis by (simp add: doPowerEmergencyShutdown_def Let_def e)
qed (simp add: doPowerEmergencyShutdown_def shutView_def)

definition haltReached :: "(threshold_struct \<Rightarrow> halt) \<Rightarrow> int option \<Rightarrow> threshold_struct \<Rightarrow> bool" where
  "haltReached h v t = (fst (h t) \<and> (case v of Some n \<Rightarrow> n \<le> snd (h t) | None \<Rightarrow> False))"

definition shutIf :: "bool \<Rightarrow> threshold_struct option \<times> bool \<times> nat \<Rightarrow> threshold_struct option \<times> bool \<times> nat" where
  "shutIf c w = (case w of (t, b, n) \<Rightarrow> (t, b \<or> c, if c \<and> \<not> b then Suc n else n))"

lemma shutIf_or: "shutIf d (shutIf c w) = shutIf (c \<or> d) w"
  by (auto simp: shutIf_def split: prod.split)

lemma shutView_shutdown:
  "shutView (if c then doPowerEmergencyShutdown E s else s) = shutIf c (shutView s)"
  by (auto simp: doPowerEmergencyShutdown_view shutIf_def) (simp_all add: shutView_def)

lemma doPowerEmergencyShutdown_time [simp]:
  "switchedToUPSPowerTime (doPowerEmergencyShutdown E s) = switchedToUPSPowerTime s"
  by (simp add: doPowerEmergencyShutdown_def askForRestart_def upsCommand_def Let_def upsEmit_def split: prod.split)

lemma doPowerEmergencyShutdown_thresh [simp]: "thresh (doPowerEmergencyShutdown E s) = thresh s"
  using doPowerEmergencyShutdown_view [of E s] by (simp add: shutView_def)

lemma haltIf_view:
  assumes "thresh s = Some t"
  obtains s' where "haltIf E h v s = Some s'" and "shutView s' = shutIf (haltReached h v t) (shutView s)"
    and "thresh s' = Some t" and "switchedToUPSPowerTime s' = switchedToUPSPowerTime s"
proof (cases v)
  case None
  then show ?thesis using that [of s] assms by (simp add: haltIf_def haltReached_def shutIf_def split: prod.split)
next
  case (Some n)
  let ?s' = "if fst (h t) \<and> n \<le> snd (h t) then doPowerEmergencyShutdown E s else s"
  have "shutView ?s' = shutIf (haltReached h v t) (shutView s)"
    by (simp only: shutView_shutdown haltReached_def Some option.case)
  then show ?thesis using that [of ?s'] assms by (simp add: haltIf_def Some)
qed

text \<open>Whether a threshold is reached, for a UPS that has been on battery power since \<open>since\<close>.\<close>

definition thresholdReached :: "upsEnv \<Rightarrow> upsDict \<Rightarrow> rat \<Rightarrow> threshold_struct \<Rightarrow> bool" where
  "thresholdReached E u since t \<longleftrightarrow>
     haltReached haltpercent (percentRemaining E u) t \<or> haltReached haltremain (kIOPSTimeToEmpty u) t \<or>
     fst (haltafter t) \<and> truncated ((upsNow E - since) / 60) \<ge> snd (haltafter t)"

lemma checkThresholds_view:
  assumes "thresh s = Some t"
  obtains s' where "checkThresholds E u s = Some s'"
    and "shutView s' = shutIf (thresholdReached E u (switchedToUPSPowerTime s) t) (shutView s)"
    and "thresh s' = Some t"
proof -
  obtain s1 where s1: "haltIf E haltpercent (percentRemaining E u) s = Some s1"
      "shutView s1 = shutIf (haltReached haltpercent (percentRemaining E u) t) (shutView s)"
      "thresh s1 = Some t" "switchedToUPSPowerTime s1 = switchedToUPSPowerTime s"
    using haltIf_view [OF assms] .
  obtain s2 where s2: "haltIf E haltremain (kIOPSTimeToEmpty u) s1 = Some s2"
      "shutView s2 = shutIf (haltReached haltremain (kIOPSTimeToEmpty u) t) (shutView s1)"
      "thresh s2 = Some t" "switchedToUPSPowerTime s2 = switchedToUPSPowerTime s1"
    using haltIf_view [OF s1(3)] .
  let ?c = "fst (haltafter t) \<and> minutesSpentOnUPSPower E s2 \<ge> snd (haltafter t)"
  let ?s3 = "if ?c then doPowerEmergencyShutdown E s2 else s2"
  have "checkThresholds E u s = Some ?s3" by (simp add: checkThresholds_def s1(1) s2(1) s2(3))
  moreover have "shutView ?s3 = shutIf (thresholdReached E u (switchedToUPSPowerTime s) t) (shutView s)"
    by (simp only: shutView_shutdown s2(2) s1(2) shutIf_or thresholdReached_def minutesSpentOnUPSPower_def s2(4) s1(4)
        disj_assoc)
  moreover have "thresh ?s3 = Some t" by (simp add: s2(3))
  ultimately show ?thesis by (rule that)
qed

lemma switchToBattery_view:
  assumes "thresh s = Some t"
  obtains s' where "switchToBattery E s = Some s'" and "shutView s' = shutView s" and "thresh s' = Some t"
    and "switchedToUPSPowerTime s' = (if lastOnExternal s then upsNow E else switchedToUPSPowerTime s)"
    and "lastOnExternal s \<Longrightarrow> fst (haltafter t) \<Longrightarrow>
      upsNow E + of_int (haltSeconds (snd (haltafter t))) \<in> set (reEvaluations s')"
proof (cases "lastOnExternal s")
  case True
  let ?s1 = "s\<lparr>switchedToUPSPowerTime := upsNow E\<rparr>"
  let ?s2 = "if fst (haltafter t) then reEvaluatePowerSourcesLater E (haltSeconds (snd (haltafter t))) ?s1 else ?s1"
  show ?thesis
  proof (rule that)
    show "switchToBattery E s = Some (showAlert E ?s2)" by (simp add: switchToBattery_def True assms Let_def)
    show "shutView (showAlert E ?s2) = shutView s" by simp
  qed (simp_all add: showAlert_def upsEmit_def reEvaluatePowerSourcesLater_def assms True)
qed (use that [of s] assms in \<open>simp add: switchToBattery_def\<close>)

section \<open>When the machine is shut down\<close>

text \<open>A UPS that is present, has an identifier and runs on its battery.\<close>

definition onUPSBattery :: "upsEnv \<Rightarrow> bool" where
  "onUPSBattery E \<longleftrightarrow> (case activeUPS E of
     None \<Rightarrow> False
   | Some u \<Rightarrow> kIOPSPowerSourceID u \<noteq> None \<and> kIOPSIsPresent u = Some True \<and>
       kIOPSPowerSourceState u = Some kIOPSBatteryPowerValue)"

definition noInternalBattery :: "upsEnv \<Rightarrow> bool" where
  "noInternalBattery E \<longleftrightarrow> \<not> builtInBattery E \<and> \<not> activeBattery E"

definition emergency :: "upsEnv \<Rightarrow> ups \<Rightarrow> threshold_struct \<Rightarrow> bool" where
  "emergency E s t \<longleftrightarrow> onUPSBattery E \<and> \<not> lastOnExternal s \<and> noInternalBattery E \<and>
     10 \<le> secondsSpentOnUPSPower E s \<and>
     (case activeUPS E of Some u \<Rightarrow> thresholdReached E u (switchedToUPSPowerTime s) t | None \<Rightarrow> False)"

definition outage :: upsDict where
  "outage = \<lparr>kIOPSPowerSourceID = Some 1, kIOPSIsPresent = Some True,
     kIOPSPowerSourceState = Some kIOPSBatteryPowerValue, kIOPSCurrentCapacity = Some 20,
     kIOPSMaxCapacity = Some 80, kIOPSTimeToEmpty = Some 30\<rparr>"

definition outageAt :: "rat \<Rightarrow> upsEnv" where
  "outageAt n = \<lparr>upsNow = n, activeUPS = Some outage, builtInBattery = False, activeBattery = False,
     activeSettings = Some (Some 1), upsServerRunning = True,
     upsCapabilities = Some {kIOPSCommandDelayedRemovePowerKey}, upsCommandSucceeds = (\<lambda>_. True),
     managementClaimed = False, haveUserNotification = True, intOfOverZero = (\<lambda>_. 0)\<rparr>"

text \<open>Shut down after two minutes, or at a fifth of the capacity.\<close>

definition twoMinutes :: threshold_struct where
  "twoMinutes = \<lparr>haltafter = (True, 2), haltremain = (False, 0), haltpercent = (True, 20)\<rparr>"

definition ready :: ups where
  "ready = upsLoaded\<lparr>thresh := Some twoMinutes\<rparr>"

lemma sync_exact:
  assumes "thresh s = Some t"
  shows "\<exists>s'. UPSLowPowerPSChange_sync E s = Some s' \<and> shutView s' = shutIf (emergency E s t) (shutView s)"
proof (cases "onUPSBattery E")
  case False
  then have "\<exists>s'. UPSLowPowerPSChange_sync E s = Some s' \<and> shutView s' = shutView s"
    by (auto simp: UPSLowPowerPSChange_sync_def weManageUPSPower_def onUPSBattery_def split: option.split)
  with False show ?thesis by (auto simp: emergency_def shutIf_def split: prod.splits)
next
  case True
  then obtain u where u: "activeUPS E = Some u" "kIOPSPowerSourceID u \<noteq> None" "kIOPSIsPresent u = Some True"
      "kIOPSPowerSourceState u = Some kIOPSBatteryPowerValue"
    by (auto simp: onUPSBattery_def split: option.splits)
  obtain s1 where s1: "switchToBattery E s = Some s1" "shutView s1 = shutView s" "thresh s1 = Some t"
      "switchedToUPSPowerTime s1 = (if lastOnExternal s then upsNow E else switchedToUPSPowerTime s)"
    using switchToBattery_view [OF assms] by metis
  obtain s2 where s2: "checkThresholds E u s1 = Some s2"
      "shutView s2 = shutIf (thresholdReached E u (switchedToUPSPowerTime s1) t) (shutView s1)"
    using checkThresholds_view [OF s1(3)] by metis
  have sec: "secondsSpentOnUPSPower E s1 = (if lastOnExternal s then 0 else secondsSpentOnUPSPower E s)"
    by (simp add: secondsSpentOnUPSPower_def s1(4) truncated_def)
  let ?s3 = "if builtInBattery E \<or> activeBattery E then s1
    else if secondsSpentOnUPSPower E s1 < 10 then reEvaluatePowerSourcesLater E 10 s1 else s2"
  have "UPSLowPowerPSChange_sync E s = Some (?s3\<lparr>lastOnExternal := False\<rparr>)"
    using u by (auto simp: UPSLowPowerPSChange_sync_def weManageUPSPower_def s1(1) s2(1))
  moreover have "shutView (?s3\<lparr>lastOnExternal := False\<rparr>) = shutIf (emergency E s t) (shutView s)"
    using True by (auto simp: s1(2,4) s2(2) sec emergency_def noInternalBattery_def u(1) shutIf_def split: prod.splits)
  ultimately show ?thesis by blast
qed

lemma switched_to_battery:
  assumes "thresh s = Some t" and "lastOnExternal s" and "onUPSBattery E"
  shows "\<exists>s1. UPSLowPowerPSChange_sync E s = Some s1 \<and> thresh s1 = Some t \<and> \<not> lastOnExternal s1 \<and>
    switchedToUPSPowerTime s1 = upsNow E \<and>
    (fst (haltafter t) \<longrightarrow> upsNow E + of_int (haltSeconds (snd (haltafter t))) \<in> set (reEvaluations s1))"
proof -
  obtain u where u: "activeUPS E = Some u" "kIOPSPowerSourceID u \<noteq> None" "kIOPSIsPresent u = Some True"
      "kIOPSPowerSourceState u = Some kIOPSBatteryPowerValue"
    using assms(3) by (auto simp: onUPSBattery_def split: option.splits)
  obtain s1 where s1: "switchToBattery E s = Some s1" "thresh s1 = Some t" "switchedToUPSPowerTime s1 = upsNow E"
      "fst (haltafter t) \<Longrightarrow> upsNow E + of_int (haltSeconds (snd (haltafter t))) \<in> set (reEvaluations s1)"
    using switchToBattery_view [OF assms(1), of E] assms(2) by metis
  have "secondsSpentOnUPSPower E s1 = 0" by (simp add: secondsSpentOnUPSPower_def s1(3) truncated_def)
  then have "UPSLowPowerPSChange_sync E s = Some ((if builtInBattery E \<or> activeBattery E then s1
      else reEvaluatePowerSourcesLater E 10 s1)\<lparr>lastOnExternal := False\<rparr>)"
    using u by (auto simp: UPSLowPowerPSChange_sync_def weManageUPSPower_def s1(1))
  then show ?thesis using s1(2-4) by (auto simp: reEvaluatePowerSourcesLater_def)
qed

text \<open>
  C24: with its thresholds in memory, and when no other application has claimed the management of
  UPS shutdowns, a re-evaluation of the power sources always returns, keeps the thresholds, and
  starts the shutdown exactly in an emergency: the UPS is present and on battery power and was so
  at the last evaluation, for ten seconds at least, there is no internal battery, and a threshold
  is reached.  (With a claim the code does the same, against the comment that it exits at once:
  \<open>claim_ignored\<close> below.)
\<close>

theorem ups_shutdown_exact:
  assumes "thresh s = Some t" and "\<not> managementClaimed E"
  shows "\<exists>s'. UPSLowPowerPSChange_sync E s = Some s' \<and> thresh s' = Some t \<and>
    alreadyShuttingDown s' = (alreadyShuttingDown s \<or> emergency E s t)"
  using sync_exact [OF assms(1), of E] assms(1) by (auto simp: shutView_def shutIf_def)

theorem ups_shutdown_exact_witness:
  "\<exists>s'. UPSLowPowerPSChange_sync (outageAt 200) (ready\<lparr>lastOnExternal := False, switchedToUPSPowerTime := 80\<rparr>) = Some s' \<and>
     alreadyShuttingDown s'"
proof -
  have "emergency (outageAt 200) (ready\<lparr>lastOnExternal := False, switchedToUPSPowerTime := 80\<rparr>) twoMinutes"
    by code_simp
  then show ?thesis
    using ups_shutdown_exact [of "ready\<lparr>lastOnExternal := False, switchedToUPSPowerTime := 80\<rparr>" twoMinutes "outageAt 200"]
    by (auto simp: ready_def outageAt_def)
qed

section \<open>At most one shutdown\<close>

inductive upsReachable :: "ups \<Rightarrow> bool" where
  ups_started: "upsReachable (UPSLowPower_prime garbage happytown upsLoaded)"
| ups_settings: "upsReachable s \<Longrightarrow> upsReachable (UPSLowPowerPrefsHaveChanged happytown s)"
| ups_changed: "upsReachable s \<Longrightarrow> UPSLowPowerPSChange_sync E s = Some s' \<Longrightarrow> upsReachable s'"

lemma shutIf_once:
  "shutView s' = shutIf c (shutView s) \<Longrightarrow> shutdowns s = of_bool (alreadyShuttingDown s) \<Longrightarrow>
   shutdowns s' = of_bool (alreadyShuttingDown s')"
  by (auto simp: shutView_def shutIf_def split: if_splits)

lemma checkThresholds_null: "thresh s = None \<Longrightarrow> checkThresholds E u s = None"
  by (auto simp: checkThresholds_def haltIf_def split: option.split bind_split)

lemma null_thresholds_view:
  assumes "thresh s = None" and "UPSLowPowerPSChange_sync E s = Some s'"
  shows "shutView s' = shutView s"
proof -
  have n: "switchToBattery E s = (if lastOnExternal s then None else Some s)"
    by (simp add: switchToBattery_def assms(1))
  show ?thesis
    using assms(2)
    by (auto simp: UPSLowPowerPSChange_sync_def weManageUPSPower_def n checkThresholds_null [OF assms(1)]
        split: option.splits if_splits)
qed

lemma sync_view:
  assumes "UPSLowPowerPSChange_sync E s = Some s'"
  shows "\<exists>c. shutView s' = shutIf c (shutView s)"
proof (cases "thresh s")
  case None
  then have "shutView s' = shutIf False (shutView s)"
    using null_thresholds_view assms by (simp add: shutIf_def split: prod.split)
  then show ?thesis by blast
next
  case (Some t)
  then show ?thesis using sync_exact [OF Some, of E] assms by auto
qed

text \<open>
  C25: however the power sources and the preferences change, the shutdown is executed at most
  once, and exactly when the daemon has noted that it is shutting down.
\<close>

theorem ups_shut_down_once:
  assumes "upsReachable s"
  shows "shutdowns s = of_bool (alreadyShuttingDown s)"
  using assms
proof induction
  case (ups_started garbage happytown)
  then show ?case by (simp add: UPSLowPower_prime_def upsLoaded_def shutdowns_def)
next
  case (ups_settings s happytown)
  then show ?case by (simp add: UPSLowPowerPrefsHaveChanged_def shutdowns_def)
next
  case (ups_changed s E s')
  then show ?case using sync_view shutIf_once by blast
qed

text \<open>An outage of three minutes, evaluated when it starts and when the timer fires.\<close>

definition outageSettings :: upsLevels where
  "outageSettings = \<lparr>kIOUPSShutdownAtLevel = None,
     kIOUPSShutdownAfterMinutesOn = Some \<lparr>shutdownLevelEnabled = True, shutdownLevelValue = Some 2\<rparr>,
     kIOUPSShutdownAtMinutesLeft = None\<rparr>"

definition primed :: ups where
  "primed = UPSLowPower_prime (Some twoMinutes) (Some outageSettings) upsLoaded"

definition interrupted :: ups where
  "interrupted = the (UPSLowPowerPSChange_sync (outageAt 100) primed)"

definition halted :: ups where
  "halted = the (UPSLowPowerPSChange_sync (outageAt 225) interrupted)"

theorem ups_shut_down_once_witness: "shutdowns halted = 1"
proof -
  have "upsReachable primed" unfolding primed_def by (rule ups_started)
  moreover have "UPSLowPowerPSChange_sync (outageAt 100) primed \<noteq> None" by code_simp
  ultimately have "upsReachable interrupted"
    unfolding interrupted_def by (metis option.exhaust_sel ups_changed)
  moreover have "UPSLowPowerPSChange_sync (outageAt 225) interrupted \<noteq> None" by code_simp
  ultimately have "upsReachable halted"
    unfolding halted_def by (metis option.exhaust_sel ups_changed)
  moreover have "alreadyShuttingDown halted" by code_simp
  ultimately show ?thesis using ups_shut_down_once [of halted] by simp
qed

section \<open>The timer that enforces the time on UPS power\<close>

text \<open>
  C26: when the UPS goes on battery and the machine is to be halted after a number of minutes on
  UPS power (1 to 35791394: five seconds more must fit an \<open>int\<close>), a re-evaluation is set for five
  seconds after these minutes; and if the UPS is still on battery then and there is no internal
  battery, it starts the shutdown.  Both for the case that no other application has claimed the
  management of UPS shutdowns.
\<close>

theorem ups_halts_after:
  assumes "thresh s = Some t" and "haltafter t = (True, X)" and "1 \<le> X" and "X \<le> 35791394"
    and "\<not> managementClaimed E" and "\<not> managementClaimed E'" and "lastOnExternal s"
    and "onUPSBattery E" and "onUPSBattery E'" and "noInternalBattery E'"
    and "upsNow E' = upsNow E + of_int (5 + 60 * X)"
  shows "\<exists>s1 s2. UPSLowPowerPSChange_sync E s = Some s1 \<and> upsNow E' \<in> set (reEvaluations s1) \<and>
    UPSLowPowerPSChange_sync E' s1 = Some s2 \<and> alreadyShuttingDown s2"
proof -
  obtain s1 where s1: "UPSLowPowerPSChange_sync E s = Some s1" "thresh s1 = Some t" "\<not> lastOnExternal s1"
      "switchedToUPSPowerTime s1 = upsNow E" "upsNow E + of_int (5 + 60 * X) \<in> set (reEvaluations s1)"
    using switched_to_battery [OF assms(1,7,8)] assms(2) haltSeconds_exact [of X] assms(3,4) by auto
  have d: "upsNow E' - upsNow E = of_int (5 + 60 * X)" using assms(11) by simp
  have sec: "secondsSpentOnUPSPower E' s1 = 5 + 60 * X"
    using assms(3) by (simp only: secondsSpentOnUPSPower_def s1(4) d truncated_def floor_of_int) simp
  have "of_int X \<le> (upsNow E' - upsNow E) / 60" by (simp add: d)
  then have "truncated (of_int X) \<le> truncated ((upsNow E' - upsNow E) / 60)" by (rule truncated_mono)
  then have m: "X \<le> truncated ((upsNow E' - upsNow E) / 60)" by (simp add: truncated_def split: if_splits)
  have "emergency E' s1 t"
    using assms(2,3,9,10) sec s1(3) m
    by (auto simp: emergency_def thresholdReached_def s1(4) onUPSBattery_def split: option.splits)
  then show ?thesis using sync_exact [OF s1(2), of E'] s1(1,5) assms(11) by (auto simp: shutView_def shutIf_def)
qed

theorem ups_halts_after_witness:
  "\<exists>s1 s2. UPSLowPowerPSChange_sync (outageAt 100) ready = Some s1 \<and> 225 \<in> set (reEvaluations s1) \<and>
    UPSLowPowerPSChange_sync (outageAt 225) s1 = Some s2 \<and> alreadyShuttingDown s2"
proof -
  have "onUPSBattery (outageAt n)" "noInternalBattery (outageAt n)" "upsNow (outageAt n) = n" for n
    by (simp_all add: onUPSBattery_def noInternalBattery_def outageAt_def outage_def)
  moreover have "\<not> managementClaimed (outageAt n)" for n by (simp add: outageAt_def)
  moreover have "lastOnExternal ready" by (simp add: ready_def upsLoaded_def)
  ultimately show ?thesis
    using ups_halts_after [of ready twoMinutes 2 "outageAt 100" "outageAt 225"]
    by (simp add: ready_def twoMinutes_def)
qed

section \<open>What goes wrong\<close>

text \<open>
  The claim of another application is never looked up: it does not change the outcome, so that an
  emergency shuts the machine down although another application manages UPS shutdowns.
\<close>

lemma claim_ignored:
  "UPSLowPowerPSChange_sync (E\<lparr>managementClaimed := b\<rparr>) s = UPSLowPowerPSChange_sync E s"
proof -
  let ?E = "E\<lparr>managementClaimed := b\<rparr>"
  have v: "reEvaluatePowerSourcesLater ?E = reEvaluatePowerSourcesLater E" "showAlert ?E = showAlert E"
    "clearAlert ?E = clearAlert E" "secondsSpentOnUPSPower ?E = secondsSpentOnUPSPower E"
    "minutesSpentOnUPSPower ?E = minutesSpentOnUPSPower E" "percentRemaining ?E = percentRemaining E"
    "upsCommand ?E = upsCommand E" "upsSupports ?E = upsSupports E"
    by (simp_all add: fun_eq_iff reEvaluatePowerSourcesLater_def showAlert_def clearAlert_def
        secondsSpentOnUPSPower_def minutesSpentOnUPSPower_def percentRemaining_def upsCommand_def upsSupports_def
        split: option.split)
  have a: "askForRestart ?E = askForRestart E" by (rule ext) (simp only: askForRestart_def v)
  have "activeSettings ?E = activeSettings E" by simp
  then have d: "doPowerEmergencyShutdown ?E = doPowerEmergencyShutdown E"
    by (intro ext) (simp only: doPowerEmergencyShutdown_def a)
  have h: "haltIf ?E = haltIf E" by (intro ext) (simp only: haltIf_def d)
  have "checkThresholds ?E = checkThresholds E" by (intro ext) (simp only: checkThresholds_def h d v)
  moreover have "switchToBattery ?E = switchToBattery E"
    by (intro ext) (simp only: switchToBattery_def v, simp)
  moreover have "activeUPS ?E = activeUPS E" "builtInBattery ?E = builtInBattery E"
    "activeBattery ?E = activeBattery E" by simp_all
  ultimately show ?thesis
    by (simp only: UPSLowPowerPSChange_sync_def weManageUPSPower_def v Let_def simp_thms if_False)
qed

lemma claimed_shut_down:
  "map_option alreadyShuttingDown (UPSLowPowerPSChange_sync (outageAt 200 \<lparr>managementClaimed := True\<rparr>)
     (ready\<lparr>lastOnExternal := False, switchedToUPSPowerTime := 80\<rparr>)) = Some True"
  by code_simp

text \<open>One minute more than fits, and the re-evaluation is set for a time long past.\<close>

lemma minutes_overflow: "haltSeconds 35791394 = 2147483645 \<and> haltSeconds 35791395 = - 2147483591"
  by code_simp

text \<open>
  After a command that fails, or for a UPS that cannot remove the power, the shutdown still
  waits for the UPS, which will not remove the power.
\<close>

lemma failed_command_waits:
  assumes "\<not> alreadyShuttingDown s" and "activeSettings E = Some (Some n)" and "n \<noteq> 0"
  shows "ExecUPSShutdown [''WaitForUPS''] \<in> set (upsEffects (doPowerEmergencyShutdown E s))"
  using assms by (simp add: doPowerEmergencyShutdown_def upsEmit_def Let_def)

text \<open>Without memory for the thresholds the first evaluation on battery power reads a null pointer.\<close>

lemma null_thresholds_crash:
  assumes "thresh s = None" and "lastOnExternal s" and "onUPSBattery E"
  shows "UPSLowPowerPSChange_sync E s = None"
  using assms
  by (auto simp: UPSLowPowerPSChange_sync_def weManageUPSPower_def switchToBattery_def onUPSBattery_def
      split: option.splits)

end
