(* ===== verification/SmbusHandler.thy ===== *)
theory SmbusHandler
  imports Prelude
begin

unbundle bit_operations_syntax

text \<open>
  Transactions with the battery on the SMBus (SmbusHandler.cpp): submission, the completion with
  its retries, transactions of user clients, exclusive access and the commands to the charger.
  The bus controller is a parameter: whether it takes a transaction, and its answers.
\<close>

section \<open>Transactions\<close>

datatype IOSMBusStatus =
    kIOSMBusStatusOK
  | kIOSMBusStatusUnknownFailure
  | kIOSMBusStatusDeviceAddressNotAcknowledged
  | kIOSMBusStatusDeviceError
  | kIOSMBusStatusDeviceCommandAccessDenied
  | kIOSMBusStatusUnknownHostError
  | kIOSMBusStatusTimeout
  | kIOSMBusStatusBusy
  | kIOSMBusStatusDeviceAccessDenied
  | kIOSMBusStatusHostUnsupportedProtocol
  | kIOSMBusStatusPECError

datatype IOSMBusProtocol =
    kIOSMBusProtocolWriteWord
  | kIOSMBusProtocolReadWord
  | kIOSMBusProtocolWriteBlock
  | kIOSMBusProtocolReadBlock
  | kIOSMBusProtocolWriteByte
  | kIOSMBusProtocolReadByte
  | kIOSMBusProtocolSendByte

datatype ASBMgrOpType =
    kASBMSMBUSReadWord
  | kASBMSMBUSWriteWord
  | kASBMSMBUSReadBlock
  | kASBMSMBUSWriteBlock
  | kASBMSMBUSReadByte
  | kASBMSMBUSWriteByte
  | kASBMSMBUSSendByte
  | kASBMSMBUSExtendedReadWord
  | kASBMSMCReadBytes
  | kASBMSMCReadBool
  | kASBMSMCReadDictionary
  | kASBMInvalidOp

text \<open>The protocol is \<open>None\<close> where the structure has been cleared.\<close>

record IOSMBusTransaction =
  tx_address :: u8
  tx_command :: u8
  tx_protocol :: "IOSMBusProtocol option"
  tx_usesPEC :: bool
  tx_sendData :: "u8 list"
  tx_sendDataCount :: u32
  tx_status :: IOSMBusStatus
  tx_receiveData :: "u8 list"
  tx_receiveDataCount :: nat

record ASBMgrRequest =
  req_opType :: ASBMgrOpType
  req_address :: u8
  req_command :: u8
  req_outData :: "u8 list"
  req_fullyDischarged :: bool

definition byteAt :: "u8 list \<Rightarrow> nat \<Rightarrow> u8" where
  "byteAt xs i = (if i < length xs then xs ! i else 0)"

definition MAX_SMBUS_DATA_SIZE :: nat where
  "MAX_SMBUS_DATA_SIZE = 32"

definition noTransaction :: IOSMBusTransaction where
  "noTransaction = \<lparr>tx_address = 0, tx_command = 0, tx_protocol = None, tx_usesPEC = False,
     tx_sendData = replicate MAX_SMBUS_DATA_SIZE 0, tx_sendDataCount = 0, tx_status = kIOSMBusStatusOK,
     tx_receiveData = replicate MAX_SMBUS_DATA_SIZE 0, tx_receiveDataCount = 0\<rparr>"

text \<open>Device addresses and commands.\<close>

definition kSMBusAppleDoublerAddr :: u8 where "kSMBusAppleDoublerAddr = 0xd"
definition kSMBusBatteryAddr :: u8 where "kSMBusBatteryAddr = 0xb"
definition kSMBusManagerAddr :: u8 where "kSMBusManagerAddr = 0xa"
definition kSMBusChargerAddr :: u8 where "kSMBusChargerAddr = 0x9"
definition kMStateContCmd :: u8 where "kMStateContCmd = 0x02"
definition kMCalibrateBit :: u8 where "kMCalibrateBit = 0x40"
definition kBManufacturerAccessCmd :: u8 where "kBManufacturerAccessCmd = 0x00"
definition kBRemainingCapacityCmd :: u8 where "kBRemainingCapacityCmd = 0x0f"
definition kBFullChargeCapacityCmd :: u8 where "kBFullChargeCapacityCmd = 0x10"
definition kBChargingCurrentCmd :: u8 where "kBChargingCurrentCmd = 0x14"
definition kBDesignCapacityCmd :: u8 where "kBDesignCapacityCmd = 0x18"
definition kBExtendedPFStatusCmd :: u8 where "kBExtendedPFStatusCmd = 0x53"
definition kBExtendedOperationStatusCmd :: u8 where "kBExtendedOperationStatusCmd = 0x54"

section \<open>State\<close>

datatype busEffect =
    SubmitTransaction IOSMBusTransaction u32
  | SubmitExternal IOSMBusTransaction
  | BusDelay nat
  | BusPanic
  | AcpiWrite u64
  | SetUpdatesBlocked bool

text \<open>The last three flags are those of the manager that \<open>isTransactionAllowed\<close> asks for.\<close>

record smbus =
  fRetryAttempts :: nat
  fFullyDischargedReq :: bool
  fTransaction :: IOSMBusTransaction
  fOpType :: ASBMgrOpType
  fCmdCount :: u32
  fMgrSystemSleeping :: bool
  fExclusiveUserClient :: bool
  fInacessible :: bool
  busEffects :: "busEffect list"

text \<open>
  What the bus and the embedded controller do: the result of a submission; for the attempts of a
  blocking transaction the result and the transaction when it has completed; the results of the
  reads of the embedded controller and of the write.
\<close>

record busEnv =
  submitResult :: "IOSMBusTransaction \<Rightarrow> IOReturn"
  blockingResult :: "nat \<Rightarrow> IOSMBusTransaction \<Rightarrow> IOReturn"
  blockingAnswer :: "nat \<Rightarrow> IOSMBusTransaction \<Rightarrow> IOSMBusTransaction"
  acpiProvider :: bool
  acpiRead :: "nat \<Rightarrow> IOReturn \<times> u64"
  acpiWriteResult :: "u64 \<Rightarrow> IOReturn"

definition busEmit :: "busEffect \<Rightarrow> 'a smbus_scheme \<Rightarrow> 'a smbus_scheme" where
  "busEmit e s = s\<lparr>busEffects := busEffects s @ [e]\<rparr>"

section \<open>Retries\<close>

definition kRetryAttempts :: nat where
  "kRetryAttempts = 5"

definition retryDelaysTable :: "nat list" where
  "retryDelaysTable = [1, 10, 100, 1000, 1000]"

definition microSecDelayTable :: "nat list" where
  "microSecDelayTable = [10, 100, 1000, 10000, 250000]"

definition statusNeedsRetry :: "IOSMBusStatus \<Rightarrow> bool" where
  "statusNeedsRetry err \<longleftrightarrow> err \<in>
     {kIOSMBusStatusDeviceAddressNotAcknowledged, kIOSMBusStatusDeviceCommandAccessDenied,
      kIOSMBusStatusDeviceAccessDenied, kIOSMBusStatusUnknownHostError, kIOSMBusStatusUnknownFailure,
      kIOSMBusStatusDeviceError, kIOSMBusStatusTimeout, kIOSMBusStatusBusy}"

definition statusNonRecoverable :: "IOSMBusStatus \<Rightarrow> bool" where
  "statusNonRecoverable err \<longleftrightarrow> err \<in> {kIOSMBusStatusHostUnsupportedProtocol, kIOSMBusStatusPECError}"

definition smbusInitialize :: "'a smbus_scheme \<Rightarrow> 'a smbus_scheme" where
  "smbusInitialize s = s\<lparr>fRetryAttempts := 0\<rparr>"

text \<open>A capacity of zero that cannot be.\<close>

definition absurdValue :: "bool \<Rightarrow> IOSMBusTransaction \<Rightarrow> bool" where
  "absurdValue discharged t \<longleftrightarrow>
     (tx_command t = kBFullChargeCapacityCmd \<or> tx_command t = kBDesignCapacityCmd \<or>
      tx_command t = kBRemainingCapacityCmd \<and> \<not> discharged) \<and>
     byteAt (tx_receiveData t) 1 = 0 \<and> byteAt (tx_receiveData t) 0 = 0"

definition requiresRetryGetMicroSec ::
    "IOSMBusTransaction option \<Rightarrow> 'a smbus_scheme \<Rightarrow> nat \<times> 'a smbus_scheme" where
  "requiresRetryGetMicroSec transaction s =
     (case transaction of
        None \<Rightarrow> (0, s)
      | Some t \<Rightarrow>
          if \<not> statusNeedsRetry (tx_status t) \<and> statusNonRecoverable (tx_status t)
          then (0, s\<lparr>fRetryAttempts := 0\<rparr>)
          else
            let s1 = (if tx_status t = kIOSMBusStatusOK \<and> fRetryAttempts s \<noteq> 0
                      then s\<lparr>fRetryAttempts := 0\<rparr> else s);
                needsRetry = (statusNeedsRetry (tx_status t) \<or>
                              tx_status t = kIOSMBusStatusOK \<and> absurdValue (fFullyDischargedReq s) t)
            in if needsRetry \<and> fRetryAttempts s1 = kRetryAttempts then (0, s1\<lparr>fRetryAttempts := 0\<rparr>)
               else if needsRetry \<and> fRetryAttempts s1 < kRetryAttempts
               then (microSecDelayTable ! fRetryAttempts s1, s1\<lparr>fRetryAttempts := fRetryAttempts s1 + 1\<rparr>)
               else (0, s1))"

definition isTransactionAllowed :: "'a smbus_scheme \<Rightarrow> IOReturn" where
  "isTransactionAllowed s =
     (if fMgrSystemSleeping s then kIOReturnOffline
      else if fExclusiveUserClient s then kIOReturnExclusiveAccess
      else if fInacessible s then kIOReturnNoDevice
      else kIOReturnSuccess)"

section \<open>Submission and completion\<close>

text \<open>The transaction is handed to the controller under a new command count.\<close>

definition submitCurrent :: "busEnv \<Rightarrow> 'a smbus_scheme \<Rightarrow> IOReturn \<times> 'a smbus_scheme" where
  "submitCurrent E s =
     (let s1 = s\<lparr>fCmdCount := fCmdCount s + 1\<rparr>
      in (submitResult E (fTransaction s1), busEmit (SubmitTransaction (fTransaction s1) (fCmdCount s1)) s1))"

text \<open>The arguments of the completion call: result, byte count and data (null or not).\<close>

type_synonym busDone = "IOReturn \<times> nat \<times> u8 list option"

text \<open>
  The result is the call of \<open>fCompletion\<close>, the last thing the function does where it makes it.
  \<open>transaction\<close>, unless it is null, points to \<open>fTransaction\<close>.
\<close>

definition smbusCompletion ::
    "busEnv \<Rightarrow> u32 \<Rightarrow> bool \<Rightarrow> 'a smbus_scheme \<Rightarrow> busDone option \<times> 'a smbus_scheme" where
  "smbusCompletion E cmdCount transaction s =
     (if \<not> transaction then (None, s)
      else if cmdCount \<noteq> fCmdCount s then (None, s)
      else if isTransactionAllowed s \<noteq> kIOReturnSuccess then (Some (isTransactionAllowed s, 0, None), s)
      else
        let t = fTransaction s; (delay_for, s1) = requiresRetryGetMicroSec (Some t) s in
        if delay_for \<noteq> 0 then
          let (ret, s2) = submitCurrent E (busEmit (BusDelay delay_for) s1) in
          if ret \<noteq> kIOReturnSuccess
          then (Some (kIOReturnIOError, 0, None), s2\<lparr>fRetryAttempts := 0\<rparr>)
          else (None, s2)
        else if tx_status t \<noteq> kIOSMBusStatusOK then
          (Some (kIOReturnIOError, tx_receiveDataCount t, Some (tx_receiveData t)), s1\<lparr>fRetryAttempts := 0\<rparr>)
        else
          case fOpType s1 of
            kASBMSMBUSReadWord \<Rightarrow>
              (Some (kIOReturnSuccess, tx_receiveDataCount t, Some (tx_receiveData t)), s1\<lparr>fRetryAttempts := 0\<rparr>)
          | kASBMSMBUSReadBlock \<Rightarrow>
              (Some (kIOReturnSuccess, tx_receiveDataCount t, Some (tx_receiveData t)), s1\<lparr>fRetryAttempts := 0\<rparr>)
          | kASBMSMBUSExtendedReadWord \<Rightarrow>
              let (ret, s2) = submitCurrent E
                    (s1\<lparr>fTransaction := t\<lparr>tx_protocol := Some kIOSMBusProtocolReadWord\<rparr>,
                        fRetryAttempts := 0, fOpType := kASBMSMBUSReadWord\<rparr>)
              in (if ret \<noteq> kIOReturnSuccess then Some (kIOReturnIOError, 0, None) else None, s2)
          | kASBMSMBUSWriteWord \<Rightarrow> (Some (kIOReturnSuccess, 0, None), s1)
          | _ \<Rightarrow> (None, busEmit BusPanic s1))"

text \<open>The transaction of a request, unless its type or command is refused.\<close>

definition requestTransaction :: "ASBMgrRequest \<Rightarrow> IOReturn \<times> IOSMBusTransaction" where
  "requestTransaction req =
     (let t = noTransaction\<lparr>tx_address := req_address req, tx_command := req_command req\<rparr> in
      case req_opType req of
        kASBMSMBUSReadWord \<Rightarrow> (kIOReturnSuccess, t\<lparr>tx_protocol := Some kIOSMBusProtocolReadWord\<rparr>)
      | kASBMSMBUSExtendedReadWord \<Rightarrow>
          let t1 = t\<lparr>tx_protocol := Some kIOSMBusProtocolWriteWord,
                     tx_sendData := (tx_sendData t)[0 := req_command req, 1 := 0], tx_sendDataCount := 2\<rparr>
          in if req_command req = kBExtendedPFStatusCmd \<or> req_command req = kBExtendedOperationStatusCmd
             then (kIOReturnSuccess, t1\<lparr>tx_command := kBManufacturerAccessCmd\<rparr>)
             else (kIOReturnBadArgument, t1)
      | kASBMSMBUSReadBlock \<Rightarrow> (kIOReturnSuccess, t\<lparr>tx_protocol := Some kIOSMBusProtocolReadBlock\<rparr>)
      | kASBMSMBUSWriteWord \<Rightarrow>
          (kIOReturnSuccess, t\<lparr>tx_protocol := Some kIOSMBusProtocolWriteWord, tx_sendDataCount := 2,
             tx_sendData := (tx_sendData t)[0 := byteAt (req_outData req) 0, 1 := byteAt (req_outData req) 1]\<rparr>)
      | _ \<Rightarrow> (kIOReturnInvalid, t))"

definition smbusPerformTransaction ::
    "busEnv \<Rightarrow> ASBMgrRequest \<Rightarrow> 'a smbus_scheme \<Rightarrow> IOReturn \<times> 'a smbus_scheme" where
  "smbusPerformTransaction E req s =
     (if isTransactionAllowed s \<noteq> kIOReturnSuccess then (isTransactionAllowed s, s)
      else
        let (ret, t) = requestTransaction req;
            s1 = s\<lparr>fTransaction := t, fOpType := req_opType req, fFullyDischargedReq := req_fullyDischarged req,
                   fRetryAttempts := 0\<rparr>
        in if ret \<noteq> kIOReturnSuccess then (ret, s1) else submitCurrent E s1)"

section \<open>Transactions of user clients\<close>

definition getErrorCode :: "IOSMBusStatus \<Rightarrow> IOReturn" where
  "getErrorCode status =
     (case status of
        kIOSMBusStatusOK \<Rightarrow> kIOReturnSuccess
      | kIOSMBusStatusUnknownFailure \<Rightarrow> kIOReturnNoDevice
      | kIOSMBusStatusDeviceAddressNotAcknowledged \<Rightarrow> kIOReturnNoDevice
      | kIOSMBusStatusDeviceError \<Rightarrow> kIOReturnNoDevice
      | kIOSMBusStatusDeviceCommandAccessDenied \<Rightarrow> kIOReturnNoDevice
      | kIOSMBusStatusUnknownHostError \<Rightarrow> kIOReturnNoDevice
      | kIOSMBusStatusTimeout \<Rightarrow> kIOReturnTimeout
      | kIOSMBusStatusBusy \<Rightarrow> kIOReturnTimeout
      | kIOSMBusStatusHostUnsupportedProtocol \<Rightarrow> kIOReturnUnsupported
      | _ \<Rightarrow> kIOReturnInternalError)"

datatype EXType =
    kEXReadWord | kEXWriteWord | kEXReadBlock | kEXWriteBlock | kEXReadByte | kEXWriteByte | kEXSendByte | kEXOther

record EXSMBUSInputStruct =
  ex_retry :: bool
  ex_usePEC :: bool
  ex_type :: EXType
  ex_batterySelector :: u8
  ex_address :: u8
  ex_inByteCount :: u8
  ex_inBuf :: "u8 list"

record EXSMBUSOutputStruct =
  ex_status :: IOReturn
  ex_outByteCount :: nat
  ex_outBuf :: "u8 list"

definition externalAddress :: "u8 \<Rightarrow> u8" where
  "externalAddress b =
     (if b \<in> {kSMBusAppleDoublerAddr, kSMBusBatteryAddr, kSMBusManagerAddr, kSMBusChargerAddr} then b
      else if b = 0 then kSMBusBatteryAddr else kSMBusManagerAddr)"

definition externalProtocol :: "EXSMBUSInputStruct \<Rightarrow> (IOSMBusProtocol \<times> u32) option" where
  "externalProtocol i =
     (case ex_type i of
        kEXWriteWord \<Rightarrow> Some (kIOSMBusProtocolWriteWord, 2)
      | kEXReadWord \<Rightarrow> Some (kIOSMBusProtocolReadWord, 0)
      | kEXWriteBlock \<Rightarrow> Some (kIOSMBusProtocolWriteBlock, ucast (ex_inByteCount i) - 1)
      | kEXReadBlock \<Rightarrow> Some (kIOSMBusProtocolReadBlock, 0)
      | kEXWriteByte \<Rightarrow> Some (kIOSMBusProtocolWriteByte, 1)
      | kEXReadByte \<Rightarrow> Some (kIOSMBusProtocolReadByte, 0)
      | kEXSendByte \<Rightarrow> Some (kIOSMBusProtocolSendByte, 0)
      | kEXOther \<Rightarrow> None)"

definition externalTransaction :: "EXSMBUSInputStruct \<Rightarrow> IOSMBusTransaction option" where
  "externalTransaction i =
     (case externalProtocol i of
        None \<Rightarrow> None
      | Some (p, n) \<Rightarrow>
          Some (noTransaction\<lparr>tx_address := externalAddress (ex_batterySelector i), tx_command := ex_address i,
            tx_protocol := Some p, tx_sendDataCount := n, tx_usesPEC := ex_usePEC i,
            tx_sendData := (if p \<in> {kIOSMBusProtocolWriteWord, kIOSMBusProtocolWriteBlock}
                            then map (byteAt (ex_inBuf i)) [0..<MAX_SMBUS_DATA_SIZE]
                            else tx_sendData noTransaction)\<rparr>))"

text \<open>
  The loop over the attempts: the return code and the status that has been written for the client.
\<close>

function externalLoop ::
    "busEnv \<Rightarrow> EXSMBUSInputStruct \<Rightarrow> nat \<Rightarrow> IOReturn option \<Rightarrow> 'a smbus_scheme
     \<Rightarrow> (IOReturn \<times> IOReturn option) \<times> 'a smbus_scheme" where
  "externalLoop E i retryAttempts written s =
     (case externalTransaction i of
        None \<Rightarrow> ((kIOReturnBadArgument, written), s\<lparr>fTransaction := noTransaction\<rparr>)
      | Some t \<Rightarrow>
          let s1 = (if ex_retry i then busEmit (BusDelay (retryDelaysTable ! min retryAttempts (kRetryAttempts - 1)))
                      (s\<lparr>fTransaction := t\<rparr>) else s\<lparr>fTransaction := t\<rparr>);
              s2 = busEmit (SubmitExternal t) s1
          in if blockingResult E retryAttempts t \<noteq> kIOReturnSuccess then ((kIOReturnError, written), s2)
             else
               let t' = blockingAnswer E retryAttempts t;
                   s3 = s2\<lparr>fTransaction := t'\<rparr>;
                   status = getErrorCode (tx_status t')
               in if ex_retry i \<and> status \<noteq> kIOReturnSuccess \<and> retryAttempts + 1 < kRetryAttempts
                  then externalLoop E i (retryAttempts + 1) (Some status) s3
                  else ((kIOReturnSuccess, Some status), s3))"
  by pat_completeness auto
termination by (relation "measure (\<lambda>(E, i, r, w, s). kRetryAttempts - r)") auto

declare externalLoop.simps [simp del]

text \<open>The data of a read that succeeded.\<close>

definition externalOutput :: "IOSMBusTransaction \<Rightarrow> EXSMBUSOutputStruct \<Rightarrow> EXSMBUSOutputStruct" where
  "externalOutput t out =
     (if tx_protocol t \<in> Some ` {kIOSMBusProtocolReadWord, kIOSMBusProtocolReadBlock, kIOSMBusProtocolReadByte} \<and>
         tx_status t = kIOSMBusStatusOK then
        let n = min (tx_receiveDataCount t) MAX_SMBUS_DATA_SIZE
        in out\<lparr>ex_outByteCount := n, ex_outBuf := map (byteAt (tx_receiveData t)) [0..<n] @ drop n (ex_outBuf out)\<rparr>
      else out)"

definition writeStatus :: "IOReturn option \<Rightarrow> EXSMBUSOutputStruct \<Rightarrow> EXSMBUSOutputStruct" where
  "writeStatus st out = (case st of Some x \<Rightarrow> out\<lparr>ex_status := x\<rparr> | None \<Rightarrow> out)"

definition sizeofInput :: nat where
  "sizeofInput = 37"

definition sizeofOutput :: nat where
  "sizeofOutput = 40"

definition smbusExternalTransaction ::
    "busEnv \<Rightarrow> EXSMBUSInputStruct option \<Rightarrow> EXSMBUSOutputStruct option \<Rightarrow> nat \<Rightarrow> nat \<Rightarrow> 'a smbus_scheme
     \<Rightarrow> (IOReturn \<times> EXSMBUSOutputStruct option) \<times> 'a smbus_scheme" where
  "smbusExternalTransaction E inp out inSize outSize s =
     (case (inp, out) of
        (Some i, Some o') \<Rightarrow>
          if inSize < sizeofInput \<or> outSize < sizeofOutput then ((kIOReturnBadArgument, out), s)
          else (case externalLoop E i 0 None s of
                  ((ret, written), s1) \<Rightarrow>
                    ((ret, Some (if ret = kIOReturnSuccess
                                 then externalOutput (fTransaction s1) (writeStatus written o')
                                 else writeStatus written o')), s1))
      | _ \<Rightarrow> ((kIOReturnBadArgument, out), s))"

section \<open>Exclusive access\<close>

definition kWaitExclusiveIntervals :: nat where
  "kWaitExclusiveIntervals = 30"

text \<open>The wait for the acknowledgement, \<open>n\<close> intervals at most: the number of intervals waited.\<close>

fun exclusiveWait :: "busEnv \<Rightarrow> bool \<Rightarrow> nat \<Rightarrow> nat \<Rightarrow> nat" where
  "exclusiveWait E exclusive waitCount 0 = waitCount"
| "exclusiveWait E exclusive waitCount (Suc n) =
     (let (ret, value64) = acpiRead E (waitCount + 1) in
      if ((value64 AND 0x10) = 0x10) = exclusive then waitCount + 1
      else if ret \<noteq> kIOReturnSuccess then waitCount + 1
      else exclusiveWait E exclusive (waitCount + 1) n)"

definition handleExclusiveAccess :: "busEnv \<Rightarrow> bool \<Rightarrow> 'a smbus_scheme \<Rightarrow> 'a smbus_scheme" where
  "handleExclusiveAccess E exclusive s =
     (let s1 = (if \<not> acpiProvider E then s
                else case acpiRead E 0 of
                  (ret, value64) \<Rightarrow>
                    if ret \<noteq> kIOReturnSuccess then s
                    else
                      let v = (if exclusive then value64 OR 1 else value64 AND NOT 1);
                          s2 = busEmit (AcpiWrite v) s
                      in if acpiWriteResult E v \<noteq> kIOReturnSuccess then s2
                         else busEmit (BusDelay (100000 * exclusiveWait E exclusive 0 kWaitExclusiveIntervals)) s2)
      in busEmit (SetUpdatesBlocked exclusive) s1)"

section \<open>Commands to the charger\<close>

text \<open>
  A transaction on the stack is not cleared: \<open>stack\<close> is what its memory holds.  The thread blocks
  until the bus has answered.
\<close>

definition blockingCommand :: "busEnv \<Rightarrow> IOSMBusTransaction \<Rightarrow> 'a smbus_scheme \<Rightarrow> IOReturn \<times> 'a smbus_scheme" where
  "blockingCommand E t s =
     (let s1 = busEmit (SubmitExternal t) s in
      if blockingResult E 0 t = kIOReturnSuccess then (getErrorCode (tx_status (blockingAnswer E 0 t)), s1)
      else (kIOReturnError, s1))"

definition disableInflow ::
    "busEnv \<Rightarrow> IOSMBusTransaction \<Rightarrow> bool \<Rightarrow> 'a smbus_scheme \<Rightarrow> IOReturn \<times> 'a smbus_scheme" where
  "disableInflow E stack level s =
     blockingCommand E (stack\<lparr>tx_address := kSMBusManagerAddr, tx_command := kMStateContCmd,
       tx_protocol := Some kIOSMBusProtocolWriteWord, tx_sendDataCount := 2,
       tx_sendData := (tx_sendData stack)[0 := (if level then kMCalibrateBit else 0)]\<rparr>) s"

definition inhibitCharging ::
    "busEnv \<Rightarrow> IOSMBusTransaction \<Rightarrow> bool \<Rightarrow> 'a smbus_scheme \<Rightarrow> IOReturn \<times> 'a smbus_scheme" where
  "inhibitCharging E stack level s =
     blockingCommand E (stack\<lparr>tx_address := kSMBusChargerAddr, tx_command := kBChargingCurrentCmd,
       tx_protocol := Some kIOSMBusProtocolWriteWord, tx_sendDataCount := 2,
       tx_sendData := (if level then (tx_sendData stack)[0 := 0] else (tx_sendData stack)[0 := 0x70, 1 := 0x17])\<rparr>) s"

end
