(* ===== verification/SmartBattery.thy ===== *)
theory SmartBattery
  imports SmbusHandler "HOL-Library.AList"
begin

unbundle bit_operations_syntax

text \<open>
  The battery and its manager (AppleSmartBattery.cpp, AppleSmartBatteryManager.cpp) as built for
  Macs with an SMBus: the commands, the walk over them that polls the battery, what is done with
  each answer, sleep and wake, insertion and removal, and the operations of the manager.  The
  properties in the registry are those of the power source; what the base class does with them is
  not modelled.
\<close>

section \<open>Properties and commands\<close>

datatype asbKey =
    voltageKey | ManufacturerDataSym | serialKey | OpStatusSym | manufacturerKey | FirmwareSerialNumberSym
  | MaxErrSym | InstantTimeToEmptySym | cycleCountKey | PFStatusSym | DesignCycleCount9CSym | PackReserveSym
  | DeviceNameSym | DesignCapacitySym | externalConnectedKey | externalChargeCapableKey | batteryInstalledKey
  | isChargingKey | currentCapacityKey | maxCapacityKey | timeRemainingKey | amperageKey | adapterInfoKey
  | locationKey | errorConditionKey | batteryInfoKey | FullyChargedSym
  | RawCurrentCapacitySym | RawMaxCapacitySym | InstantAmperageSym | AvgTimeToEmptySym | AvgTimeToFullSym
  | TemperatureSym | kUpdateTime | kBootPathKey | kFullPathKey | kUserVisPathKey
  | kIOPMPSInvalidWakeSecondsKey | kIOPMPSPostChargeWaitSecondsKey | kIOPMPSPostDishargeWaitSecondsKey | OtherKey string

text \<open>The values; a number has the width the code gives it.\<close>

datatype osObject =
    OSNumber int nat
  | OSBoolean bool
  | OSData "u8 list"
  | OSSymbol "u8 list"
  | PermanentFailure
  | LegacyInfo u32 "osObject option list"
  | OSDictionary "(asbKey \<times> osObject) list"

type_synonym osDict = "(asbKey \<times> osObject) list"

record CommandStruct =
  cs_cmd :: u32
  cs_addr :: u8
  cs_opType :: ASBMgrOpType
  cs_sym :: "asbKey option"
  cs_pathBits :: int
  cs_supportDesktops :: bool

definition kUseLastPath :: int where "kUseLastPath = 0"
definition kBoot :: int where "kBoot = 1"
definition kFull :: int where "kFull = 2"
definition kUserVis :: int where "kUserVis = 4"

definition kTransactionRestart :: u32 where "kTransactionRestart = 0"
definition kFinishPolling :: u32 where "kFinishPolling = 0x9999"
definition kInitialPollCountdown :: nat where "kInitialPollCountdown = 5"
definition kIncompleteReadRetryMax :: nat where "kIncompleteReadRetryMax = 10"

definition kBVoltageCmd :: u32 where "kBVoltageCmd = 0x09"
definition kBCurrentCmd :: u32 where "kBCurrentCmd = 0x0a"
definition kBAverageCurrentCmd :: u32 where "kBAverageCurrentCmd = 0x0b"
definition kBTemperatureCmd :: u32 where "kBTemperatureCmd = 0x08"
definition kBMaxErrorCmd :: u32 where "kBMaxErrorCmd = 0x0c"
definition kBRunTimeToEmptyCmd :: u32 where "kBRunTimeToEmptyCmd = 0x11"
definition kBAverageTimeToEmptyCmd :: u32 where "kBAverageTimeToEmptyCmd = 0x12"
definition kBAverageTimeToFullCmd :: u32 where "kBAverageTimeToFullCmd = 0x13"
definition kBBatteryStatusCmd :: u32 where "kBBatteryStatusCmd = 0x16"
definition kBCycleCountCmd :: u32 where "kBCycleCountCmd = 0x17"
definition kBSerialNumberCmd :: u32 where "kBSerialNumberCmd = 0x1c"
definition kBManufactureNameCmd :: u32 where "kBManufactureNameCmd = 0x20"
definition kBDeviceNameCmd :: u32 where "kBDeviceNameCmd = 0x21"
definition kBManufactureDataCmd :: u32 where "kBManufactureDataCmd = 0x23"
definition kBManufacturerInfoCmd :: u32 where "kBManufacturerInfoCmd = 0x70"
definition kBAppleHardwareSerialCmd :: u32 where "kBAppleHardwareSerialCmd = 0x76"
definition kBPackReserveCmd :: u32 where "kBPackReserveCmd = 0x8B"
definition kBDesignCycleCount9CCmd :: u32 where "kBDesignCycleCount9CCmd = 0x9C"
definition kMStateCmd :: u32 where "kMStateCmd = 0x01"

definition kMACPresentBit :: u32 where "kMACPresentBit = 0x0001"
definition kMPowerNotGoodBit :: u32 where "kMPowerNotGoodBit = 0x0002"
definition kMPresentBatt_A_Bit :: u32 where "kMPresentBatt_A_Bit = 0x0001"
definition kMChargingBatt_A_Bit :: u32 where "kMChargingBatt_A_Bit = 0x0010"
definition kBTerminateChargeAlarmBit :: u32 where "kBTerminateChargeAlarmBit = 0x4000"
definition kBTerminateDischargeAlarmBit :: u32 where "kBTerminateDischargeAlarmBit = 0x0800"
definition kBFullyChargedStatusBit :: u32 where "kBFullyChargedStatusBit = 0x0020"
definition kBFullyDischargedStatusBit :: u32 where "kBFullyDischargedStatusBit = 0x0010"

definition command :: "u32 \<Rightarrow> u8 \<Rightarrow> ASBMgrOpType \<Rightarrow> asbKey option \<Rightarrow> int \<Rightarrow> bool \<Rightarrow> CommandStruct" where
  "command c a op key path desktops = \<lparr>cs_cmd = c, cs_addr = a, cs_opType = op, cs_sym = key, cs_pathBits = path,
     cs_supportDesktops = desktops\<rparr>"

text \<open>The table; the number of the first command of the battery is not in the source.\<close>

definition initializeCommands :: "u32 \<Rightarrow> CommandStruct list" where
  "initializeCommands kBatteryDataCmd =
     (let batt = kSMBusBatteryAddr; mgr = kSMBusManagerAddr; word = kASBMSMBUSReadWord; block = kASBMSMBUSReadBlock in
     [command kTransactionRestart 0 kASBMInvalidOp None kUserVis True,
      command kBatteryDataCmd batt kASBMSMCReadDictionary None kUserVis False,
      command kBVoltageCmd batt word (Some voltageKey) kUserVis False,
      command kBCurrentCmd batt word None kUserVis False,
      command kBAverageCurrentCmd batt word None kUserVis False,
      command kBManufactureDataCmd batt block (Some ManufacturerDataSym) kBoot False,
      command kBAppleHardwareSerialCmd batt block (Some serialKey) kBoot False,
      command (ucast kMStateContCmd) mgr word None kUserVis False,
      command kMStateCmd mgr word None kUserVis False,
      command kBBatteryStatusCmd batt word None kUserVis False,
      command (ucast kBExtendedOperationStatusCmd) batt kASBMSMBUSExtendedReadWord (Some OpStatusSym) kFull False,
      command kBManufactureNameCmd batt block (Some manufacturerKey) kBoot False,
      command kBManufacturerInfoCmd batt block None kBoot False,
      command kBSerialNumberCmd batt word (Some FirmwareSerialNumberSym) kBoot False,
      command kBMaxErrorCmd batt word (Some MaxErrSym) kFull False,
      command kBRunTimeToEmptyCmd batt word (Some InstantTimeToEmptySym) kFull False,
      command kBTemperatureCmd batt word None kFull False,
      command kBCycleCountCmd batt word (Some cycleCountKey) kFull False,
      command kBAverageTimeToEmptyCmd batt word None kUserVis False,
      command (ucast kBExtendedPFStatusCmd) batt kASBMSMBUSExtendedReadWord (Some PFStatusSym) kFull False,
      command kBDesignCycleCount9CCmd batt word (Some DesignCycleCount9CSym) kBoot False,
      command kBAverageTimeToFullCmd batt word None kUserVis False,
      command kBPackReserveCmd batt word (Some PackReserveSym) kBoot False,
      command kBDeviceNameCmd batt block (Some DeviceNameSym) kBoot False,
      command (ucast kBRemainingCapacityCmd) batt word None kUserVis False,
      command (ucast kBFullChargeCapacityCmd) batt word None kUserVis False,
      command (ucast kBDesignCapacityCmd) batt word (Some DesignCapacitySym) kBoot False,
      command kFinishPolling 0 kASBMInvalidOp None kUserVis True])"

section \<open>State\<close>

datatype asbEffect =
    UpdateStatus
  | ReceiveACNotification bool
  | AcknowledgeSetPowerState
  | ReadShutdownData
  | MessageFullyDischarged bool

record asb = smbus +
  pollingNow :: bool
  cancelPolling :: bool
  rebootPolling :: bool
  machinePath :: "16 word"
  batteryCellCount :: nat
  fInitialPollCountdown :: nat
  cmdTable :: "CommandStruct list option"
  fPowerServiceToAck :: bool
  fSystemSleeping :: bool
  fPermanentFailure :: bool
  fFullyDischarged :: bool
  fFullyCharged :: bool
  fBatteryPresent :: bool
  fACConnected :: int
  fInstantCurrent :: int
  fInflowDisabled :: bool
  fChargeInhibited :: bool
  fCapacityOverride :: bool
  acAttach_ts :: u64
  settingsChangedSinceUpdate :: bool
  batteryReadAllTimer :: bool
  txnFailures :: nat
  incompleteReadRetries :: nat
  overrideDict :: "osDict option"
  properties :: osDict
  asbmReference :: "CommandStruct option"
  asbmStarted :: bool
  inflowDisabledProperty :: "bool option"
  chargingInhibitedProperty :: "bool option"
  lastAlarm :: u32
  asbEffects :: "asbEffect list"

text \<open>
  What is read from outside, beside the bus: the calendar time in seconds, the uptime and the
  nanoseconds an interval of it lasts, the state of hibernation, and the memory a transaction on
  the stack finds.
\<close>

record asbEnv =
  bus :: busEnv
  calendarSecs :: nat
  uptime :: u64
  nanosecondsOf :: "u64 \<Rightarrow> nat"
  wakesFromHibernate :: bool
  stackMemory :: IOSMBusTransaction

definition asbEmit :: "asbEffect \<Rightarrow> asb \<Rightarrow> asb" where
  "asbEmit e s = s\<lparr>asbEffects := asbEffects s @ [e]\<rparr>"

definition setPSProperty :: "asbKey \<Rightarrow> osObject \<Rightarrow> asb \<Rightarrow> asb" where
  "setPSProperty k v s = s\<lparr>properties := AList.update k v (properties s)\<rparr>"

definition removeProperty :: "asbKey \<Rightarrow> asb \<Rightarrow> asb" where
  "removeProperty k s = s\<lparr>properties := AList.delete k (properties s)\<rparr>"

definition setIntegerProperty :: "asbKey \<Rightarrow> int \<Rightarrow> nat \<Rightarrow> asb \<Rightarrow> asb" where
  "setIntegerProperty k v width s = setPSProperty k (OSNumber v width) s"

definition setBooleanProperty :: "asbKey \<Rightarrow> bool \<Rightarrow> asb \<Rightarrow> asb" where
  "setBooleanProperty k b s = setPSProperty k (OSBoolean b) s"

section \<open>Commands of the manager\<close>

definition disableInflowGated :: "asbEnv \<Rightarrow> bool \<Rightarrow> asb \<Rightarrow> IOReturn \<times> asb" where
  "disableInflowGated E level s =
     (let (ret, s1) = disableInflow (bus E) (stackMemory E) level s
      in (ret, if ret = kIOReturnSuccess then s1\<lparr>inflowDisabledProperty := Some level\<rparr> else s1))"

definition inhibitChargingGated :: "asbEnv \<Rightarrow> bool \<Rightarrow> asb \<Rightarrow> IOReturn \<times> asb" where
  "inhibitChargingGated E level s =
     (let (ret, s1) = inhibitCharging (bus E) (stackMemory E) level s
      in (ret, if ret = kIOReturnSuccess then s1\<lparr>chargingInhibitedProperty := Some level\<rparr> else s1))"

text \<open>The flag of the message says that the inflow has been enabled.\<close>

definition handleFullDischarge :: "asbEnv \<Rightarrow> asb \<Rightarrow> asb" where
  "handleFullDischarge E s =
     (if inflowDisabledProperty s \<noteq> None
      then asbEmit (MessageFullyDischarged True) (snd (disableInflowGated E False s))
      else asbEmit (MessageFullyDischarged False) s)"

definition asbmPerformTransaction :: "asbEnv \<Rightarrow> CommandStruct \<Rightarrow> asb \<Rightarrow> IOReturn \<times> asb" where
  "asbmPerformTransaction E cs s =
     (if cs_opType cs \<in> {kASBMSMBUSReadWord, kASBMSMBUSReadBlock, kASBMSMBUSExtendedReadWord, kASBMSMBUSWriteWord}
      then smbusPerformTransaction (bus E)
             \<lparr>req_opType = cs_opType cs, req_address = cs_addr cs, req_command = ucast (cs_cmd cs),
              req_outData = [], req_fullyDischarged = fFullyDischarged s\<rparr>
             (s\<lparr>asbmReference := Some cs\<rparr>)
      else (kIOReturnInvalid, s))"

section \<open>The end of a poll\<close>

text \<open>The overrides are merged into the properties, dictionaries recursively.\<close>

fun applyOverrideDictTo :: "osDict \<Rightarrow> osDict \<Rightarrow> osDict" where
  "applyOverrideDictTo [] dst = dst"
| "applyOverrideDictTo ((k, OSDictionary tmp) # rest) dst =
     (case map_of dst k of
        Some (OSDictionary d) \<Rightarrow> applyOverrideDictTo rest (AList.update k (OSDictionary (applyOverrideDictTo tmp d)) dst)
      | _ \<Rightarrow> applyOverrideDictTo rest (AList.update k (OSDictionary tmp) dst))"
| "applyOverrideDictTo ((k, v) # rest) dst = applyOverrideDictTo rest (AList.update k v dst)"

definition booleanProperty :: "asbKey \<Rightarrow> asb \<Rightarrow> bool" where
  "booleanProperty k s = (map_of (properties s) k = Some (OSBoolean True))"

text \<open>The flags are \<open>kIOPMACInstalled\<close>, \<open>kIOPMBatteryInstalled\<close> and \<open>kIOPMBatteryCharging\<close>.\<close>

definition rebuildLegacyIOBatteryInfoGated :: "asb \<Rightarrow> asb" where
  "rebuildLegacyIOBatteryInfoGated s =
     setPSProperty batteryInfoKey
       (LegacyInfo ((if booleanProperty externalConnectedKey s then 1 else 0) OR
                    (if booleanProperty batteryInstalledKey s then 4 else 0) OR
                    (if booleanProperty isChargingKey s then 2 else 0))
          (map (map_of (properties s)) [currentCapacityKey, maxCapacityKey, voltageKey, amperageKey, cycleCountKey])) s"

definition pathFinishedKey :: "16 word \<Rightarrow> asbKey option" where
  "pathFinishedKey path =
     (if uint path = kBoot then Some kBootPathKey
      else if uint path = kFull then Some kFullPathKey
      else if uint path = kUserVis then Some kUserVisPathKey
      else None)"

definition markAttached :: "asbEnv \<Rightarrow> asb \<Rightarrow> asb" where
  "markAttached E s =
     (if acAttach_ts s \<noteq> 0 then
        if nanosecondsOf E (uptime E - acAttach_ts s) < 60 * 1000000000
        then s\<lparr>settingsChangedSinceUpdate := True\<rparr> else s\<lparr>acAttach_ts := 0\<rparr>
      else s)"

definition handlePollingFinishedGated :: "asbEnv \<Rightarrow> bool \<Rightarrow> 16 word \<Rightarrow> asb \<Rightarrow> asb" where
  "handlePollingFinishedGated E visitedEntirePath path s =
     (let s0 = s\<lparr>batteryReadAllTimer := False\<rparr> in
      if visitedEntirePath then
        let s1 = (case pathFinishedKey path of
                    Some k \<Rightarrow> setIntegerProperty k (int (calendarSecs E)) 32 s0 | None \<Rightarrow> s0);
            s2 = (if 0 < fInitialPollCountdown s1
                  then s1\<lparr>fInitialPollCountdown := fInitialPollCountdown s1 - 1\<rparr> else s1);
            s3 = setIntegerProperty kUpdateTime (int (calendarSecs E)) 32 s2;
            s4 = markAttached E (rebuildLegacyIOBatteryInfoGated s3);
            s5 = (case overrideDict s4 of
                    Some d \<Rightarrow> s4\<lparr>properties := applyOverrideDictTo d (properties s4)\<rparr> | None \<Rightarrow> s4)
        in asbEmit UpdateStatus s5
      else s0\<lparr>batteryReadAllTimer := True\<rparr>)"

definition acknowledgeSystemSleepWake :: "asb \<Rightarrow> asb" where
  "acknowledgeSystemSleepWake s =
     (if fPowerServiceToAck s
      then (asbEmit AcknowledgeSetPowerState s)\<lparr>fPowerServiceToAck := False, batteryReadAllTimer := False\<rparr>
      else s)"

definition handlePollingFinished :: "asbEnv \<Rightarrow> bool \<Rightarrow> asb \<Rightarrow> asb" where
  "handlePollingFinished E visitedEntirePath s =
     acknowledgeSystemSleepWake
       ((handlePollingFinishedGated E visitedEntirePath (machinePath s) s)\<lparr>pollingNow := False\<rparr>)"

section \<open>The next command\<close>

definition commandForState :: "u32 \<Rightarrow> asb \<Rightarrow> CommandStruct option" where
  "commandForState c s = (case cmdTable s of None \<Rightarrow> None | Some t \<Rightarrow> find (\<lambda>cs. c = cs_cmd cs) t)"

text \<open>Whether a command is read on the path; every command may be read with an SMBus.\<close>

definition onPath :: "asb \<Rightarrow> CommandStruct \<Rightarrow> bool" where
  "onPath s cs \<longleftrightarrow> (batteryCellCount s \<noteq> 0 \<or> cs_supportDesktops cs) \<and> uint (machinePath s) \<le> cs_pathBits cs"

definition nextCommand :: "u32 \<Rightarrow> asb \<Rightarrow> CommandStruct option" where
  "nextCommand c s =
     (case cmdTable s of
        None \<Rightarrow> None
      | Some t \<Rightarrow> find (onPath s) (drop 1 (dropWhile (\<lambda>cs. cs_cmd cs \<noteq> c) t)))"

definition initiateTransaction :: "asbEnv \<Rightarrow> CommandStruct \<Rightarrow> asb \<Rightarrow> asb" where
  "initiateTransaction E cs s =
     (if cs_cmd cs = kFinishPolling then handlePollingFinished E True s
      else snd (asbmPerformTransaction E cs s))"

definition initiateNextTransaction :: "asbEnv \<Rightarrow> u32 \<Rightarrow> asb \<Rightarrow> asb" where
  "initiateNextTransaction E c s =
     (case nextCommand c s of None \<Rightarrow> s | Some cs \<Rightarrow> initiateTransaction E cs s)"

section \<open>The state of an absent battery\<close>

definition clearBatteryStateGated :: "bool \<Rightarrow> asb \<Rightarrow> asb" where
  "clearBatteryStateGated do_update s =
     (let s1 = s\<lparr>fFullyDischarged := False, fFullyCharged := False, fBatteryPresent := False, fACConnected := - 1\<rparr>;
          s2 = setBooleanProperty isChargingKey False (setBooleanProperty batteryInstalledKey False s1);
          s3 = fold (\<lambda>k. setIntegerProperty k 0 32)
                 [currentCapacityKey, maxCapacityKey, timeRemainingKey, amperageKey, voltageKey, cycleCountKey,
                  adapterInfoKey, locationKey] s2;
          s4 = fold removeProperty [manufacturerKey, errorConditionKey, PFStatusSym] s3;
          s5 = rebuildLegacyIOBatteryInfoGated s4
      in if do_update then asbEmit UpdateStatus s5 else s5)"

section \<open>The answer to a command\<close>

definition answerValue :: "nat \<Rightarrow> u8 list \<Rightarrow> u32" where
  "answerValue inCount inData =
     (if inCount = 1 then ucast (byteAt inData 0)
      else if inCount = 2 then push_bit 8 (ucast (byteAt inData 1)) OR ucast (byteAt inData 0)
      else if inCount = 4 \<or> inCount = 8 then
        push_bit 24 (ucast (byteAt inData 3)) OR push_bit 16 (ucast (byteAt inData 2)) OR
        push_bit 8 (ucast (byteAt inData 1)) OR ucast (byteAt inData 0)
      else 0)"

text \<open>The answers that are published as they are; a block is a C string unless it is data.\<close>

definition handleSetItAndForgetIt :: "u32 \<Rightarrow> u32 \<Rightarrow> u8 list \<Rightarrow> nat \<Rightarrow> asb \<Rightarrow> asb option" where
  "handleSetItAndForgetIt c val str32 len s =
     (case commandForState c s of
        None \<Rightarrow> None
      | Some cs \<Rightarrow>
          (case cs_sym cs of
             None \<Rightarrow> None
           | Some k \<Rightarrow>
               (case cs_opType cs of
                  kASBMSMBUSReadWord \<Rightarrow> Some (setIntegerProperty k (sint val) len s)
                | kASBMSMBUSExtendedReadWord \<Rightarrow> Some (setIntegerProperty k (sint val) len s)
                | kASBMSMBUSReadBlock \<Rightarrow>
                    if c = kBManufactureDataCmd then Some (setPSProperty k (OSData (take len str32)) s)
                    else Some (setPSProperty k (OSSymbol (takeWhile (\<lambda>b. b \<noteq> 0) str32)) s)
                | kASBMSMCReadBool \<Rightarrow> Some (setBooleanProperty k (byteAt str32 0 \<noteq> 0) s)
                | kASBMSMCReadDictionary \<Rightarrow> Some s
                | _ \<Rightarrow> None)))"

definition hasBits :: "u32 \<Rightarrow> u32 \<Rightarrow> bool" where
  "hasBits val m \<longleftrightarrow> val AND m \<noteq> 0"

text \<open>\<open>kMStateContCmd\<close>: whether power is connected and may charge.\<close>

definition externalPowerStep :: "asbEnv \<Rightarrow> u32 \<Rightarrow> asb \<Rightarrow> asb" where
  "externalPowerStep E val s =
     (let new_ac_connected = (if \<not> fInflowDisabled s \<and> hasBits val kMACPresentBit then 1 else 0);
          s1 = (if new_ac_connected \<noteq> fACConnected s then
                  asbEmit (ReceiveACNotification (new_ac_connected = 1))
                    (s\<lparr>acAttach_ts := if new_ac_connected = 1 then uptime E else 0\<rparr>)
                else s)
      in setBooleanProperty externalChargeCapableKey (\<not> hasBits val kMPowerNotGoodBit)
           (setBooleanProperty externalConnectedKey (new_ac_connected = 1)
             (s1\<lparr>fACConnected := new_ac_connected\<rparr>)))"

text \<open>\<open>kMStateCmd\<close>: whether the battery is present and charging.\<close>

definition batteryStateStep :: "u32 \<Rightarrow> asb \<Rightarrow> asb" where
  "batteryStateStep val s =
     (let p = hasBits val kMPresentBatt_A_Bit;
          s1 = setBooleanProperty batteryInstalledKey p (s\<lparr>fBatteryPresent := p\<rparr>)
      in setBooleanProperty isChargingKey (if fChargeInhibited s1 then False else hasBits val kMChargingBatt_A_Bit) s1)"

text \<open>\<open>kBBatteryStatusCmd\<close>; the poll is aborted when there is no battery.\<close>

definition batteryStatusStep :: "asbEnv \<Rightarrow> u32 \<Rightarrow> asb \<Rightarrow> IOReturn \<times> asb" where
  "batteryStatusStep E val s =
     (let s1 = s\<lparr>fFullyCharged := hasBits val kBFullyChargedStatusBit\<rparr>;
          s2 = (if hasBits val kBFullyDischargedStatusBit then
                  if \<not> fFullyDischarged s1 then handleFullDischarge E (s1\<lparr>fFullyDischarged := True\<rparr>) else s1
                else s1\<lparr>fFullyDischarged := False\<rparr>);
          alarms = kBTerminateDischargeAlarmBit OR kBTerminateChargeAlarmBit;
          s3 = (if val AND alarms = alarms then
                  setBooleanProperty isChargingKey False (setBooleanProperty batteryInstalledKey True
                    ((setPSProperty errorConditionKey PermanentFailure s2)
                       \<lparr>fPermanentFailure := True, fBatteryPresent := True\<rparr>))
                else s2\<lparr>fPermanentFailure := False\<rparr>);
          s4 = setBooleanProperty FullyChargedSym (fFullyCharged s3) s3
      in if \<not> fBatteryPresent s4 then (kIOReturnAborted, clearBatteryStateGated True s4)
         else (kIOReturnSuccess, s4))"

definition signed16 :: "u32 \<Rightarrow> int" where
  "signed16 val = sint (ucast val :: 16 word)"

text \<open>The other commands, and those that are not expected, which change nothing.\<close>

definition readingStep :: "u32 \<Rightarrow> u32 \<Rightarrow> nat \<Rightarrow> asb \<Rightarrow> asb" where
  "readingStep c val inCount s =
     (if c = ucast kBRemainingCapacityCmd then
        setIntegerProperty RawCurrentCapacitySym (uint val) 2
          (if \<not> fCapacityOverride s then setIntegerProperty currentCapacityKey (uint val) 32 s else s)
      else if c = ucast kBFullChargeCapacityCmd then
        setIntegerProperty RawMaxCapacitySym (uint val) 2
          (if \<not> fCapacityOverride s then setIntegerProperty maxCapacityKey (uint val) 32 s else s)
      else if c = kBCurrentCmd then
        (setIntegerProperty InstantAmperageSym (signed16 val) 4 s)\<lparr>fInstantCurrent := signed16 val\<rparr>
      else if c = kBAverageCurrentCmd then
        let s1 = setIntegerProperty amperageKey (signed16 val) 32 s
        in if val = 0 then setIntegerProperty timeRemainingKey 0 32 s1 else s1
      else if c = kBAverageTimeToEmptyCmd then
        let s1 = setIntegerProperty AvgTimeToEmptySym (uint val) inCount s
        in if fACConnected s = 0 then setIntegerProperty timeRemainingKey (uint val) 32 s1 else s1
      else if c = kBAverageTimeToFullCmd then
        let s1 = setIntegerProperty AvgTimeToFullSym (uint val) inCount s
        in if fACConnected s \<noteq> 0 then setIntegerProperty timeRemainingKey (uint val) 32 s1 else s1
      else if c = kBTemperatureCmd then setIntegerProperty TemperatureSym (uint val) 4 s
      else s)"

definition restartStep :: "asb \<Rightarrow> asb" where
  "restartStep s = s\<lparr>cancelPolling := False, pollingNow := True, txnFailures := 0, batteryReadAllTimer := True\<rparr>"

text \<open>At the exit: too many errors in a row abort the poll.\<close>

definition failureCheck :: "asb \<Rightarrow> IOReturn" where
  "failureCheck s = (if txnFailures s > 5 then kIOReturnAborted else kIOReturnSuccess)"

text \<open>The restart of the walk, or what is done with the answer of the command.\<close>

definition commandStep :: "asbEnv \<Rightarrow> u32 \<Rightarrow> u32 \<Rightarrow> nat \<Rightarrow> asb \<Rightarrow> IOReturn \<times> u32 \<times> asb" where
  "commandStep E c val inCount s =
     (if c = kTransactionRestart \<or> rebootPolling s then
        let s1 = restartStep (s\<lparr>rebootPolling := False\<rparr>) in (failureCheck s1, kTransactionRestart, s1)
      else if c = ucast kMStateContCmd then
        let s1 = externalPowerStep E val s in (failureCheck s1, c, s1)
      else if c = kMStateCmd then
        let s1 = batteryStateStep val s in (failureCheck s1, c, s1)
      else if c = kBBatteryStatusCmd then
        (case batteryStatusStep E val s of
           (ret, s1) \<Rightarrow> (if ret \<noteq> kIOReturnSuccess then ret else failureCheck s1, c, s1))
      else
        let s1 = readingStep c val inCount s in (failureCheck s1, c, s1))"

text \<open>
  The answer of a command, or the start of a poll when there is none: the result, the state of the
  walk from which the next command is sought, and the new state.
\<close>

definition transactionCompletionGated ::
    "asbEnv \<Rightarrow> CommandStruct option \<Rightarrow> IOReturn \<Rightarrow> nat \<Rightarrow> u8 list \<Rightarrow> asb \<Rightarrow> IOReturn \<times> u32 \<times> asb" where
  "transactionCompletionGated E cs status inCount inData s =
     (if fSystemSleeping s then (kIOReturnAborted, kTransactionRestart, s)
      else
        let c = (case cs of Some c \<Rightarrow> cs_cmd c | None \<Rightarrow> kTransactionRestart);
            val = answerValue inCount inData
        in if c = kTransactionRestart then commandStep E c val inCount s
           else if status \<noteq> kIOReturnSuccess then
             let s1 = s\<lparr>txnFailures := txnFailures s + 1\<rparr> in (failureCheck s1, c, s1)
           else
             let s1 = s\<lparr>txnFailures := 0\<rparr> in
             case handleSetItAndForgetIt c val inData inCount s1 of
               Some s2 \<Rightarrow> (failureCheck s2, c, s2)
             | None \<Rightarrow> commandStep E c val inCount s1)"

definition transactionCompletion ::
    "asbEnv \<Rightarrow> CommandStruct option \<Rightarrow> IOReturn \<Rightarrow> nat \<Rightarrow> u8 list \<Rightarrow> asb \<Rightarrow> asb" where
  "transactionCompletion E cs status inCount inData s =
     (if cancelPolling s then handlePollingFinished E False s
      else case transactionCompletionGated E cs status inCount inData s of
        (ret, nextState, s1) \<Rightarrow>
          if ret \<noteq> kIOReturnSuccess then handlePollingFinished E False s1
          else if nextState \<noteq> kFinishPolling then initiateNextTransaction E nextState s1
          else s1)"

text \<open>The bytes that are copied for the battery, and the completion of the bus.\<close>

definition smbusCompletionHandler :: "asbEnv \<Rightarrow> busDone \<Rightarrow> asb \<Rightarrow> asb" where
  "smbusCompletionHandler E d s =
     (case d of (status, byteCount, dataBuf) \<Rightarrow>
        let inData = map (\<lambda>i. if i < byteCount then byteAt (case dataBuf of Some b \<Rightarrow> b | None \<Rightarrow> []) i else 0)
                       [0..<MAX_SMBUS_DATA_SIZE]
        in transactionCompletion E (asbmReference s) status byteCount inData s)"

definition busCompletion :: "asbEnv \<Rightarrow> u32 \<Rightarrow> bool \<Rightarrow> asb \<Rightarrow> asb" where
  "busCompletion E cmdCount transaction s =
     (case smbusCompletion (bus E) cmdCount transaction s of
        (None, s1) \<Rightarrow> s1
      | (Some d, s1) \<Rightarrow> smbusCompletionHandler E d s1)"

end
