(* ===== verification/SmartBatteryOps.thy ===== *)
theory SmartBatteryOps
  imports SmartBattery
begin

unbundle bit_operations_syntax

text \<open>
  The operations that start and stop polls: requests, timeouts, insertion and removal of the
  battery, sleep and wake, the requests of user clients and the start of the two drivers.
\<close>

section \<open>Polls\<close>

text \<open>A serial number that is there and not empty.\<close>

definition haveSerial :: "asb \<Rightarrow> bool" where
  "haveSerial s = (case map_of (properties s) serialKey of Some (OSSymbol n) \<Rightarrow> n \<noteq> [] | _ \<Rightarrow> False)"

definition startPoll :: "asbEnv \<Rightarrow> asb \<Rightarrow> asb" where
  "startPoll E s = transactionCompletion E None kIOReturnSuccess 0 [] s"

definition choosePath :: "int \<Rightarrow> asb \<Rightarrow> asb" where
  "choosePath type s =
     (let s1 = (if pollingNow s \<and> uint (machinePath s) \<le> type then s
                else if type \<noteq> kUseLastPath then s\<lparr>machinePath := word_of_int type\<rparr> else s)
      in if 0 < fInitialPollCountdown s1 \<or> batteryCellCount s1 \<noteq> 0 \<and> \<not> haveSerial s1
         then s1\<lparr>machinePath := word_of_int kBoot\<rparr> else s1)"

definition pollBatteryState :: "asbEnv \<Rightarrow> int \<Rightarrow> asb \<Rightarrow> bool \<times> asb" where
  "pollBatteryState E type s =
     (if fExclusiveUserClient s then (False, s)
      else
        let s1 = choosePath type s in
        if \<not> pollingNow s1 then (True, startPoll E s1) else (True, s1\<lparr>rebootPolling := True\<rparr>))"

text \<open>The timer that watches a poll has fired.\<close>

definition incompleteReadTimeOut :: "asbEnv \<Rightarrow> asb \<Rightarrow> asb" where
  "incompleteReadTimeOut E s =
     (let s1 = handlePollingFinished E False (s\<lparr>batteryReadAllTimer := False\<rparr>) in
      if \<not> fSystemSleeping s1 \<and> 0 < incompleteReadRetries s1
      then snd (pollBatteryState E kUseLastPath (s1\<lparr>incompleteReadRetries := incompleteReadRetries s1 - 1\<rparr>))
      else s1)"

section \<open>Insertion and removal\<close>

definition batteryInserted :: "asbEnv \<Rightarrow> asb \<Rightarrow> asb" where
  "batteryInserted E s =
     snd (pollBatteryState E kBoot
       ((clearBatteryStateGated False s)\<lparr>fInitialPollCountdown := kInitialPollCountdown, rebootPolling := True\<rparr>))"

definition batteryRemoved :: "asb \<Rightarrow> asb" where
  "batteryRemoved s =
     (let s1 = (if pollingNow s then s\<lparr>cancelPolling := True\<rparr> else s)
      in acknowledgeSystemSleepWake (clearBatteryStateGated True (s1\<lparr>batteryReadAllTimer := False\<rparr>)))"

definition handleBatteryInserted :: "asbEnv \<Rightarrow> asb \<Rightarrow> asb" where
  "handleBatteryInserted E s =
     (let s1 = s\<lparr>fInacessible := False\<rparr> in if asbmStarted s1 then batteryInserted E s1 else s1)"

definition handleBatteryRemoved :: "asb \<Rightarrow> asb" where
  "handleBatteryRemoved s =
     (let s1 = s\<lparr>fInacessible := True\<rparr> in if asbmStarted s1 then batteryRemoved s1 else s1)"

text \<open>An alarm of the battery manager, with the data of the message.\<close>

definition asbmMessage :: "asbEnv \<Rightarrow> (bool \<times> u8 \<times> u32) option \<Rightarrow> asb \<Rightarrow> asb" where
  "asbmMessage E alarm s =
     (case alarm of
        None \<Rightarrow> s
      | Some (isSMBusAlarm, fromAddress, w) \<Rightarrow>
          if isSMBusAlarm \<and> fromAddress = kSMBusManagerAddr \<and> asbmStarted s then
            let changed_bits = w XOR lastAlarm s; s1 = s\<lparr>lastAlarm := w\<rparr> in
            if hasBits changed_bits kMPresentBatt_A_Bit then
              if hasBits w kMPresentBatt_A_Bit then handleBatteryInserted E s1 else handleBatteryRemoved s1
            else snd (pollBatteryState E kUseLastPath s1)
          else s)"

section \<open>Sleep and wake\<close>

text \<open>\<open>kIOPMAckImplied\<close> is 0, a delay is in microseconds.\<close>

definition kBatteryReadAllTimeout :: nat where
  "kBatteryReadAllTimeout = 10000"

definition handleSystemSleepWakeGated :: "asbEnv \<Rightarrow> bool \<Rightarrow> bool \<Rightarrow> asb \<Rightarrow> nat \<times> asb" where
  "handleSystemSleepWakeGated E powerService isSystemSleep s =
     (if \<not> powerService \<or> fSystemSleeping s = isSystemSleep then (0, s)
      else
        let s1 = s\<lparr>fPowerServiceToAck := False, fSystemSleeping := isSystemSleep\<rparr>;
            waits = (isSystemSleep \<and> pollingNow s1);
            s2 = (if waits then s1\<lparr>fPowerServiceToAck := True\<rparr> else s1)
        in (if waits then kBatteryReadAllTimeout * 1000 else 0,
            if \<not> isSystemSleep \<and> wakesFromHibernate E then asbEmit ReadShutdownData s2 else s2))"

text \<open>The result of the gated function is dropped.\<close>

definition handleSystemSleepWake :: "asbEnv \<Rightarrow> bool \<Rightarrow> bool \<Rightarrow> asb \<Rightarrow> nat \<times> asb" where
  "handleSystemSleepWake E powerService isSystemSleep s =
     (0, snd (handleSystemSleepWakeGated E powerService isSystemSleep s))"

definition setPowerState :: "asbEnv \<Rightarrow> nat \<Rightarrow> asb \<Rightarrow> nat \<times> asb" where
  "setPowerState E which s = (if asbmStarted s then handleSystemSleepWake E True (which = 0) s else (0, s))"

section \<open>Overrides of the capacity\<close>

definition handleSetOverrideCapacityGated :: "16 word \<Rightarrow> bool \<Rightarrow> asb \<Rightarrow> asb" where
  "handleSetOverrideCapacityGated value sticky s =
     setIntegerProperty currentCapacityKey (uint value) 32 (s\<lparr>fCapacityOverride := sticky\<rparr>)"

definition handleSwitchToTrueCapacityGated :: "asb \<Rightarrow> asb" where
  "handleSwitchToTrueCapacityGated s = s\<lparr>fCapacityOverride := False\<rparr>"

definition switchToTrueCapacity :: "asbEnv \<Rightarrow> asb \<Rightarrow> asb" where
  "switchToTrueCapacity E s =
     (if asbmStarted s then snd (pollBatteryState E kUserVis (handleSwitchToTrueCapacityGated s)) else s)"

section \<open>Exclusive access and requests of user clients\<close>

text \<open>The result is converted to a \<open>bool\<close> both where it is made and where it is returned.\<close>

definition requestPoll :: "asbEnv \<Rightarrow> int \<Rightarrow> asb \<Rightarrow> bool \<times> asb" where
  "requestPoll E type s = (if asbmStarted s then pollBatteryState E type s else (True, s))"

text \<open>\<open>kSBRequestPoll\<close> returns that \<open>bool\<close> as its \<open>IOReturn\<close>, whose success is 0.\<close>

definition externalRequestPoll :: "asbEnv \<Rightarrow> int \<Rightarrow> asb \<Rightarrow> int \<times> asb" where
  "externalRequestPoll E type s = (case requestPoll E type s of (ok, s1) \<Rightarrow> (of_bool ok, s1))"

definition requestExclusiveSMBusAccess :: "asbEnv \<Rightarrow> bool \<Rightarrow> asb \<Rightarrow> bool \<times> asb" where
  "requestExclusiveSMBusAccess E request s =
     (if request \<and> fExclusiveUserClient s then (False, s)
      else
        let s1 = handleExclusiveAccess (bus E) request (s\<lparr>fExclusiveUserClient := request\<rparr>)
        in (True, if \<not> fExclusiveUserClient s1 then snd (requestPoll E kFull s1) else s1))"

text \<open>A user client: whether it is exclusive and whether its task is an administrator.\<close>

record asbClient =
  exclusiveType :: bool
  isAdministrator :: bool

definition userClientStart :: "asbEnv \<Rightarrow> asbClient \<Rightarrow> asb \<Rightarrow> bool \<times> asb" where
  "userClientStart E c s =
     (if \<not> isAdministrator c then (False, s)
      else if exclusiveType c then requestExclusiveSMBusAccess E True s
      else (True, s))"

definition userClientClose :: "asbEnv \<Rightarrow> asbClient \<Rightarrow> asb \<Rightarrow> asb" where
  "userClientClose E c s =
     (if exclusiveType c then snd (requestExclusiveSMBusAccess E False s) else s)"

text \<open>The result is the return code of the call and what is written for the client.\<close>

definition secureInflowDisable :: "asbEnv \<Rightarrow> asbClient \<Rightarrow> int \<Rightarrow> asb \<Rightarrow> IOReturn \<times> asb" where
  "secureInflowDisable E c level s =
     (if level \<noteq> 0 \<and> level \<noteq> 1 then (kIOReturnBadArgument, s)
      else if isAdministrator c then disableInflowGated E (level \<noteq> 0) s
      else (kIOReturnNotPrivileged, s))"

definition secureChargeInhibit :: "asbEnv \<Rightarrow> asbClient \<Rightarrow> int \<Rightarrow> asb \<Rightarrow> IOReturn \<times> asb" where
  "secureChargeInhibit E c level s =
     (if level \<noteq> 0 \<and> level \<noteq> 1 then (kIOReturnBadArgument, s)
      else if isAdministrator c then inhibitChargingGated E (level \<noteq> 0) s
      else (kIOReturnNotPrivileged, s))"

text \<open>\<open>kSBSMBusReadWriteWord\<close>: with an exclusive client attached the others are told that it succeeded.\<close>

definition readWriteWord ::
    "asbEnv \<Rightarrow> asbClient \<Rightarrow> EXSMBUSInputStruct option \<Rightarrow> EXSMBUSOutputStruct option \<Rightarrow> nat \<Rightarrow> nat \<Rightarrow> asb
     \<Rightarrow> (IOReturn \<times> EXSMBUSOutputStruct option) \<times> asb" where
  "readWriteWord E c inp out inSize outSize s =
     (if \<not> exclusiveType c \<and> fExclusiveUserClient s then ((kIOReturnSuccess, out), s)
      else if inp = None \<or> out = None \<or> inSize = 0 \<or> outSize = 0 then ((kIOReturnBadArgument, out), s)
      else smbusExternalTransaction (bus E) inp out inSize outSize s)"

section \<open>The start\<close>

definition kSecondsUntilValidOnWake :: int where "kSecondsUntilValidOnWake = 30"
definition kPostChargeWaitSeconds :: int where "kPostChargeWaitSeconds = 120"
definition kPostDischargeWaitSeconds :: int where "kPostDischargeWaitSeconds = 120"

text \<open>The allocations of the start, the table's apart, succeed.\<close>

definition batteryStart :: "asbEnv \<Rightarrow> u32 \<Rightarrow> bool \<Rightarrow> asb \<Rightarrow> asb" where
  "batteryStart E kBatteryDataCmd tableAllocated s =
     (let s1 = s\<lparr>pollingNow := False, cancelPolling := False, rebootPolling := False, fPermanentFailure := False,
                 fFullyDischarged := False, fFullyCharged := False, fBatteryPresent := True, fACConnected := - 1,
                 fInflowDisabled := False, fSystemSleeping := False, fPowerServiceToAck := False,
                 fCapacityOverride := False, fInitialPollCountdown := kInitialPollCountdown,
                 cmdTable := (if tableAllocated then Some (initializeCommands kBatteryDataCmd) else None)\<rparr>;
          s2 = setIntegerProperty kIOPMPSPostDishargeWaitSecondsKey kPostDischargeWaitSeconds 32
                 (setIntegerProperty kIOPMPSPostChargeWaitSecondsKey kPostChargeWaitSeconds 32
                   (setIntegerProperty kIOPMPSInvalidWakeSecondsKey kSecondsUntilValidOnWake 32 s1))
      in snd (pollBatteryState E kBoot (clearBatteryStateGated False s2)))"

definition asbmStart :: "asbEnv \<Rightarrow> u32 \<Rightarrow> bool \<Rightarrow> asb \<Rightarrow> asb" where
  "asbmStart E kBatteryDataCmd tableAllocated s =
     (batteryStart E kBatteryDataCmd tableAllocated (smbusInitialize s))
       \<lparr>fExclusiveUserClient := False, asbmStarted := True\<rparr>"

text \<open>The state before the start: cleared memory, the static counters and the cells of the battery.\<close>

definition asbLoaded :: "nat \<Rightarrow> osDict option \<Rightarrow> asb" where
  "asbLoaded cells overrides =
     \<lparr>fRetryAttempts = 0, fFullyDischargedReq = False, fTransaction = noTransaction, fOpType = kASBMSMBUSReadWord,
      fCmdCount = 0, fMgrSystemSleeping = False, fExclusiveUserClient = False, fInacessible = False, busEffects = [],
      pollingNow = False, cancelPolling = False, rebootPolling = False, machinePath = 0, batteryCellCount = cells,
      fInitialPollCountdown = 0, cmdTable = None, fPowerServiceToAck = False, fSystemSleeping = False,
      fPermanentFailure = False, fFullyDischarged = False, fFullyCharged = False, fBatteryPresent = False,
      fACConnected = 0, fInstantCurrent = 0, fInflowDisabled = False, fChargeInhibited = False,
      fCapacityOverride = False, acAttach_ts = 0, settingsChangedSinceUpdate = False, batteryReadAllTimer = False,
      txnFailures = 0, incompleteReadRetries = kIncompleteReadRetryMax, overrideDict = overrides, properties = [],
      asbmReference = None, asbmStarted = False, inflowDisabledProperty = None, chargingInhibitedProperty = None,
      lastAlarm = 0, asbEffects = []\<rparr>"

end
