(* ===== verification/SmbusLemmas.thy ===== *)
theory SmbusLemmas
  imports SmbusHandler
begin

text \<open>
  Lemmas on the transactions of the SMBus: how often a transaction is tried again, the attempts
  for user clients, and when nothing is submitted.
\<close>

section \<open>What is sent\<close>

definition submissions :: "'a smbus_scheme \<Rightarrow> nat" where
  "submissions s = length (filter (\<lambda>e. case e of SubmitTransaction _ _ \<Rightarrow> True | _ \<Rightarrow> False) (busEffects s))"

definition externals :: "'a smbus_scheme \<Rightarrow> nat" where
  "externals s = length (filter (\<lambda>e. case e of SubmitExternal _ \<Rightarrow> True | _ \<Rightarrow> False) (busEffects s))"

definition delays :: "'a smbus_scheme \<Rightarrow> nat list" where
  "delays s = [d. BusDelay d \<leftarrow> busEffects s]"

lemma busEmit_counts [simp]:
  "submissions (busEmit e s) = submissions s + (case e of SubmitTransaction _ _ \<Rightarrow> 1 | _ \<Rightarrow> 0)"
  "externals (busEmit e s) = externals s + (case e of SubmitExternal _ \<Rightarrow> 1 | _ \<Rightarrow> 0)"
  "delays (busEmit e s) = delays s @ (case e of BusDelay d \<Rightarrow> [d] | _ \<Rightarrow> [])"
  by (simp_all add: submissions_def externals_def delays_def busEmit_def split: busEffect.split)

lemma counts_other [simp]:
  "submissions (s\<lparr>fTransaction := t\<rparr>) = submissions s" "submissions (s\<lparr>fRetryAttempts := n\<rparr>) = submissions s"
  "submissions (s\<lparr>fOpType := op\<rparr>) = submissions s" "submissions (s\<lparr>fCmdCount := c\<rparr>) = submissions s"
  "delays (s\<lparr>fTransaction := t\<rparr>) = delays s" "delays (s\<lparr>fRetryAttempts := n\<rparr>) = delays s"
  "delays (s\<lparr>fCmdCount := c\<rparr>) = delays s" "externals (s\<lparr>fTransaction := t\<rparr>) = externals s"
  by (simp_all add: submissions_def externals_def delays_def)

section \<open>A transaction that is served by the bus\<close>

record busAnswer =
  ans_status :: IOSMBusStatus
  ans_data :: "u8 list"
  ans_count :: nat

definition answered :: "busAnswer \<Rightarrow> 'a smbus_scheme \<Rightarrow> 'a smbus_scheme" where
  "answered a s = s\<lparr>fTransaction := (fTransaction s)\<lparr>tx_status := ans_status a, tx_receiveData := ans_data a,
     tx_receiveDataCount := ans_count a\<rparr>\<rparr>"

text \<open>The answers are given to the transaction that is submitted last, until it is completed.\<close>

fun serve :: "busEnv \<Rightarrow> busAnswer list \<Rightarrow> 'a smbus_scheme \<Rightarrow> busDone option \<times> 'a smbus_scheme" where
  "serve E [] s = (None, s)"
| "serve E (a # as) s =
     (case smbusCompletion E (fCmdCount s) True (answered a s) of
        (Some d, s1) \<Rightarrow> (Some d, s1)
      | (None, s1) \<Rightarrow> serve E as s1)"

lemma answered_simps [simp]:
  "fCmdCount (answered a s) = fCmdCount s" "fRetryAttempts (answered a s) = fRetryAttempts s"
  "isTransactionAllowed (answered a s) = isTransactionAllowed s"
  "tx_status (fTransaction (answered a s)) = ans_status a"
  "tx_command (fTransaction (answered a s)) = tx_command (fTransaction s)"
  "tx_receiveData (fTransaction (answered a s)) = ans_data a"
  "submissions (answered a s) = submissions s" "delays (answered a s) = delays s"
  by (simp_all add: answered_def isTransactionAllowed_def)

lemma delay_nonzero: "r < kRetryAttempts \<Longrightarrow> microSecDelayTable ! r \<noteq> 0"
proof -
  assume "r < kRetryAttempts"
  then have "microSecDelayTable ! r \<in> set microSecDelayTable"
    by (intro nth_mem) (simp add: kRetryAttempts_def microSecDelayTable_def)
  moreover have "\<forall>d \<in> set microSecDelayTable. d \<noteq> 0" by (simp add: microSecDelayTable_def)
  ultimately show ?thesis by blast
qed

lemma needsRetry_not: "statusNeedsRetry st \<Longrightarrow> st \<noteq> kIOSMBusStatusOK \<and> \<not> statusNonRecoverable st"
  by (auto simp: statusNeedsRetry_def statusNonRecoverable_def)

text \<open>The state after a retry.\<close>

definition retried :: "busAnswer \<Rightarrow> 'a smbus_scheme \<Rightarrow> 'a smbus_scheme" where
  "retried a s =
     (let s1 = (answered a s)\<lparr>fRetryAttempts := fRetryAttempts s + 1\<rparr>
      in snd (submitCurrent undefined (busEmit (BusDelay (microSecDelayTable ! fRetryAttempts s)) s1)))"

lemma retried_simps [simp]:
  "fRetryAttempts (retried a s) = fRetryAttempts s + 1"
  "isTransactionAllowed (retried a s) = isTransactionAllowed s"
  "submissions (retried a s) = submissions s + 1"
  "delays (retried a s) = delays s @ [microSecDelayTable ! fRetryAttempts s]"
  "tx_command (fTransaction (retried a s)) = tx_command (fTransaction s)"
  by (simp_all add: retried_def submitCurrent_def Let_def isTransactionAllowed_def answered_def)
     (simp_all add: busEmit_def submissions_def delays_def)

lemma completion_retries:
  assumes "isTransactionAllowed s = kIOReturnSuccess" and "statusNeedsRetry (ans_status a)"
    and "fRetryAttempts s < kRetryAttempts" and "\<And>t. submitResult E t = kIOReturnSuccess"
  shows "smbusCompletion E (fCmdCount s) True (answered a s) = (None, retried a s)"
proof -
  have r: "requiresRetryGetMicroSec (Some (fTransaction (answered a s))) (answered a s) =
      (microSecDelayTable ! fRetryAttempts s, (answered a s)\<lparr>fRetryAttempts := fRetryAttempts s + 1\<rparr>)"
    using assms(2,3) needsRetry_not [OF assms(2)] by (simp add: requiresRetryGetMicroSec_def)
  have c: "submitCurrent E s' = (kIOReturnSuccess, snd (submitCurrent undefined s'))" for s' :: "'a smbus_scheme"
    by (simp add: submitCurrent_def Let_def assms(4))
  show ?thesis
    using assms(1) delay_nonzero [OF assms(3)]
    by (simp add: smbusCompletion_def r c retried_def Let_def)
qed

lemma completion_gives_up:
  assumes "isTransactionAllowed s = kIOReturnSuccess" and "statusNeedsRetry (ans_status a)"
    and "fRetryAttempts s = kRetryAttempts"
  shows "smbusCompletion E (fCmdCount s) True (answered a s) =
    (Some (kIOReturnIOError, ans_count a, Some (ans_data a)), (answered a s)\<lparr>fRetryAttempts := 0\<rparr>)"
proof -
  have "requiresRetryGetMicroSec (Some (fTransaction (answered a s))) (answered a s) =
      (0, (answered a s)\<lparr>fRetryAttempts := 0\<rparr>)"
    using assms(2,3) needsRetry_not [OF assms(2)] by (simp add: requiresRetryGetMicroSec_def)
  moreover have "ans_status a \<noteq> kIOSMBusStatusOK" using needsRetry_not [OF assms(2)] by simp
  ultimately show ?thesis
    using assms(1) by (simp add: smbusCompletion_def Let_def) (simp add: answered_def)
qed

lemma serve_failing:
  assumes "isTransactionAllowed s = kIOReturnSuccess" and "\<And>t. submitResult E t = kIOReturnSuccess"
    and "list_all (\<lambda>a. statusNeedsRetry (ans_status a)) as" and "fRetryAttempts s \<le> kRetryAttempts"
    and "kRetryAttempts < fRetryAttempts s + length as"
  shows "(\<exists>n d. fst (serve E as s) = Some (kIOReturnIOError, n, d)) \<and>
    submissions (snd (serve E as s)) = submissions s + (kRetryAttempts - fRetryAttempts s) \<and>
    delays (snd (serve E as s)) = delays s @ drop (fRetryAttempts s) microSecDelayTable"
  using assms(1,3-5)
proof (induction as arbitrary: s)
  case (Cons a as)
  show ?case
  proof (cases "fRetryAttempts s = kRetryAttempts")
    case True
    then show ?thesis
      using Cons.prems by (simp add: completion_gives_up microSecDelayTable_def kRetryAttempts_def)
  next
    case False
    then have lt: "fRetryAttempts s < kRetryAttempts" using Cons.prems(3) by simp
    have c: "smbusCompletion E (fCmdCount s) True (answered a s) = (None, retried a s)"
      using Cons.prems lt assms(2) by (intro completion_retries) auto
    have "length microSecDelayTable = kRetryAttempts" by (simp add: microSecDelayTable_def kRetryAttempts_def)
    then have d: "drop (fRetryAttempts s) microSecDelayTable =
        microSecDelayTable ! fRetryAttempts s # drop (Suc (fRetryAttempts s)) microSecDelayTable"
      using lt by (simp add: Cons_nth_drop_Suc)
    show ?thesis
      using Cons.IH [of "retried a s"] Cons.prems lt by (auto simp: c d)
  qed
qed simp

text \<open>A capacity that is always read as zero: the count of retries starts anew with every answer.\<close>

lemma completion_zero:
  assumes "isTransactionAllowed s = kIOReturnSuccess" and "ans_status a = kIOSMBusStatusOK"
    and "byteAt (ans_data a) 0 = 0" and "byteAt (ans_data a) 1 = 0"
    and "tx_command (fTransaction s) = kBFullChargeCapacityCmd" and "\<And>t. submitResult E t = kIOReturnSuccess"
  shows "\<exists>s1. smbusCompletion E (fCmdCount s) True (answered a s) = (None, s1) \<and>
    submissions s1 = submissions s + 1 \<and> isTransactionAllowed s1 = kIOReturnSuccess \<and>
    tx_command (fTransaction s1) = kBFullChargeCapacityCmd"
proof -
  let ?t = "(answered a s)\<lparr>fRetryAttempts := 0\<rparr>"
  have k: "absurdValue b (fTransaction (answered a s))" for b
    using assms(3-5) by (simp add: absurdValue_def)
  have "fRetryAttempts s = 0 \<Longrightarrow> answered a s = ?t" by (simp add: answered_def)
  then have r: "requiresRetryGetMicroSec (Some (fTransaction (answered a s))) (answered a s) = (10, ?t\<lparr>fRetryAttempts := 1\<rparr>)"
    using assms(2) k
    by (auto simp: requiresRetryGetMicroSec_def statusNeedsRetry_def statusNonRecoverable_def kRetryAttempts_def
        microSecDelayTable_def Let_def)
  show ?thesis
    using assms(1,5,6)
    by (simp add: smbusCompletion_def r Let_def submitCurrent_def)
       (simp add: isTransactionAllowed_def busEmit_def answered_def split: if_splits)
qed

lemma zero_capacity_never_given_up:
  assumes "isTransactionAllowed s = kIOReturnSuccess" and "\<And>t. submitResult E t = kIOReturnSuccess"
    and "tx_command (fTransaction s) = kBFullChargeCapacityCmd"
    and "list_all (\<lambda>a. ans_status a = kIOSMBusStatusOK \<and> byteAt (ans_data a) 0 = 0 \<and> byteAt (ans_data a) 1 = 0) as"
  shows "fst (serve E as s) = None \<and> submissions (snd (serve E as s)) = submissions s + length as"
  using assms(1,3,4)
proof (induction as arbitrary: s)
  case (Cons a as)
  obtain s1 where "smbusCompletion E (fCmdCount s) True (answered a s) = (None, s1)"
      "submissions s1 = submissions s + 1" "isTransactionAllowed s1 = kIOReturnSuccess"
      "tx_command (fTransaction s1) = kBFullChargeCapacityCmd"
    using completion_zero [of s a E] Cons.prems assms(2) by auto
  then show ?case using Cons.IH [of s1] Cons.prems by simp
qed simp

section \<open>Attempts for user clients\<close>

lemma getErrorCode_success [simp]: "getErrorCode st = kIOReturnSuccess \<longleftrightarrow> st = kIOSMBusStatusOK"
  by (simp add: getErrorCode_def split: IOSMBusStatus.split)

text \<open>The attempt whose answer goes to the client, from attempt \<open>r\<close> on.\<close>

definition decidingAttempt :: "busEnv \<Rightarrow> EXSMBUSInputStruct \<Rightarrow> IOSMBusTransaction \<Rightarrow> nat \<Rightarrow> nat" where
  "decidingAttempt E i t r =
     (if ex_retry i
      then r + length (takeWhile (\<lambda>k. tx_status (blockingAnswer E k t) \<noteq> kIOSMBusStatusOK) [r..<kRetryAttempts - 1])
      else r)"

lemma upt_step: "Suc r < n \<Longrightarrow> [r..<n - 1] = r # [Suc r..<n - 1]"
  by (rule upt_conv_Cons) arith

lemma externalLoop_exact:
  assumes "externalTransaction i = Some t" and "\<And>k. blockingResult E k t = kIOReturnSuccess"
    and "r < kRetryAttempts"
  shows "fst (externalLoop E i r w s) =
      (kIOReturnSuccess, Some (getErrorCode (tx_status (blockingAnswer E (decidingAttempt E i t r) t)))) \<and>
    fTransaction (snd (externalLoop E i r w s)) = blockingAnswer E (decidingAttempt E i t r) t \<and>
    externals (snd (externalLoop E i r w s)) = externals s + (decidingAttempt E i t r - r) + 1"
  using assms(3)
proof (induction "kRetryAttempts - r" arbitrary: r w s rule: less_induct)
  case less
  let ?s1 = "if ex_retry i then busEmit (BusDelay (retryDelaysTable ! min r (kRetryAttempts - 1)))
                      (s\<lparr>fTransaction := t\<rparr>) else s\<lparr>fTransaction := t\<rparr>"
  let ?s3 = "(busEmit (SubmitExternal t) ?s1)\<lparr>fTransaction := blockingAnswer E r t\<rparr>"
  let ?again = "ex_retry i \<and> tx_status (blockingAnswer E r t) \<noteq> kIOSMBusStatusOK \<and> Suc r < kRetryAttempts"
  have unfold: "externalLoop E i r w s =
      (if ?again then externalLoop E i (Suc r) (Some (getErrorCode (tx_status (blockingAnswer E r t)))) ?s3
       else ((kIOReturnSuccess, Some (getErrorCode (tx_status (blockingAnswer E r t)))), ?s3))"
    by (subst externalLoop.simps) (simp add: assms(1,2) Let_def)
  have n: "externals ?s3 = externals s + 1" by simp
  show ?case
  proof (cases ?again)
    case True
    then have "[r..<kRetryAttempts - 1] = r # [Suc r..<kRetryAttempts - 1]" by (intro upt_step) simp
    then have "decidingAttempt E i t r = decidingAttempt E i t (Suc r)"
      using True by (simp add: decidingAttempt_def)
    moreover have "Suc r \<le> decidingAttempt E i t (Suc r)" by (simp add: decidingAttempt_def)
    moreover have "kRetryAttempts - Suc r < kRetryAttempts - r" using less.prems by arith
    moreover have "Suc r < kRetryAttempts" using True by simp
    ultimately show ?thesis
      using less.hyps [of "Suc r" "Some (getErrorCode (tx_status (blockingAnswer E r t)))" ?s3] True n
      by (simp only: unfold if_True) arith
  next
    case False
    have "decidingAttempt E i t r = r"
    proof (cases "Suc r < kRetryAttempts")
      case True
      then have "[r..<kRetryAttempts - 1] = r # [Suc r..<kRetryAttempts - 1]" by (intro upt_step) simp
      then show ?thesis using False True by (auto simp: decidingAttempt_def)
    next
      case False
      then show ?thesis by (simp add: decidingAttempt_def)
    qed
    then show ?thesis using n by (simp only: unfold if_not_P [OF \<open>\<not> ?again\<close>] fst_conv snd_conv) simp
  qed
qed

lemma decidingAttempt_bound: "decidingAttempt E i t 0 < kRetryAttempts"
proof -
  have "length (takeWhile P [0..<kRetryAttempts - 1]) \<le> length [0..<kRetryAttempts - 1]" for P
    by (rule length_takeWhile_le)
  then have "length (takeWhile P [0..<kRetryAttempts - 1]) < kRetryAttempts" for P
    by (rule le_less_trans) (simp add: kRetryAttempts_def)
  then show ?thesis by (simp add: decidingAttempt_def) (simp add: kRetryAttempts_def)
qed

lemma deciding_success:
  assumes "ex_retry i" and "k < kRetryAttempts" and "tx_status (blockingAnswer E k t) = kIOSMBusStatusOK"
  shows "tx_status (blockingAnswer E (decidingAttempt E i t 0) t) = kIOSMBusStatusOK"
proof -
  let ?P = "\<lambda>k. tx_status (blockingAnswer E k t) \<noteq> kIOSMBusStatusOK"
  let ?l = "[0..<kRetryAttempts - 1]"
  let ?n = "length (takeWhile ?P ?l)"
  have d: "decidingAttempt E i t 0 = ?n" by (simp add: decidingAttempt_def assms(1))
  show ?thesis
  proof (cases "?n < kRetryAttempts - 1")
    case True
    then have "\<not> ?P (?l ! ?n)" by (intro nth_length_takeWhile) simp
    then show ?thesis using True by (simp add: d)
  next
    case False
    then have n: "?n = kRetryAttempts - 1" using length_takeWhile_le [of ?P ?l] by simp
    then have "takeWhile ?P ?l = ?l" using takeWhile_eq_take [of ?P ?l] by simp
    then have "\<forall>j < kRetryAttempts - 1. ?P j" by (simp only: takeWhile_eq_all_conv) simp
    then have "k = kRetryAttempts - 1" using assms(2,3) by (metis One_nat_def Suc_pred less_Suc_eq less_nat_zero_code not_gr_zero)
    then show ?thesis using assms(3) n by (simp add: d)
  qed
qed

section \<open>When nothing is submitted\<close>

lemma completion_not_allowed:
  assumes "isTransactionAllowed s \<noteq> kIOReturnSuccess"
  shows "snd (smbusCompletion E c tr s) = s"
  using assms by (simp add: smbusCompletion_def)

lemma perform_not_allowed:
  assumes "isTransactionAllowed s \<noteq> kIOReturnSuccess"
  shows "smbusPerformTransaction E r s = (isTransactionAllowed s, s)"
  using assms by (simp add: smbusPerformTransaction_def)

end
