(* ===== verification/SmartBatteryLemmas.thy ===== *)
theory SmartBatteryLemmas
  imports SmartBatteryOps SmbusLemmas
begin

text \<open>
  The reachable states of the battery driver, what its operations leave alone, and the state of a
  poll: which operations start, watch, cancel and end it.
\<close>

section \<open>The state of a poll\<close>

type_synonym pollView = "bool \<times> bool \<times> bool \<times> bool \<times> bool"

text \<open>A poll is under way, is cancelled, is watched by the timer; a sleep waits for it; the system sleeps.\<close>

definition pollView :: "asb \<Rightarrow> pollView" where
  "pollView s = (pollingNow s, cancelPolling s, batteryReadAllTimer s, fPowerServiceToAck s, fSystemSleeping s)"

lemma view_other [simp]:
  "pollView (s\<lparr>properties := p\<rparr>) = pollView s" "pollView (s\<lparr>txnFailures := n\<rparr>) = pollView s"
  "pollView (s\<lparr>rebootPolling := b\<rparr>) = pollView s" "pollView (s\<lparr>machinePath := w\<rparr>) = pollView s"
  "pollView (s\<lparr>fInitialPollCountdown := n\<rparr>) = pollView s" "pollView (s\<lparr>asbmReference := r\<rparr>) = pollView s"
  "pollView (s\<lparr>fBatteryPresent := b\<rparr>) = pollView s" "pollView (s\<lparr>fFullyCharged := b\<rparr>) = pollView s"
  "pollView (s\<lparr>fFullyDischarged := b\<rparr>) = pollView s" "pollView (s\<lparr>fPermanentFailure := b\<rparr>) = pollView s"
  "pollView (s\<lparr>fACConnected := i\<rparr>) = pollView s" "pollView (s\<lparr>acAttach_ts := u\<rparr>) = pollView s"
  "pollView (s\<lparr>fInstantCurrent := i\<rparr>) = pollView s" "pollView (s\<lparr>fCapacityOverride := b\<rparr>) = pollView s"
  "pollView (s\<lparr>settingsChangedSinceUpdate := b\<rparr>) = pollView s"
  "pollView (s\<lparr>inflowDisabledProperty := q\<rparr>) = pollView s"
  "pollView (s\<lparr>chargingInhibitedProperty := q\<rparr>) = pollView s"
  "pollView (s\<lparr>fInacessible := b\<rparr>) = pollView s" "pollView (s\<lparr>lastAlarm := v\<rparr>) = pollView s"
  "pollView (s\<lparr>incompleteReadRetries := n\<rparr>) = pollView s" "pollView (s\<lparr>fTransaction := t\<rparr>) = pollView s"
  "pollView (s\<lparr>fExclusiveUserClient := b\<rparr>) = pollView s" "pollView (s\<lparr>fRetryAttempts := n\<rparr>) = pollView s"
  "pollView (s\<lparr>asbmStarted := b\<rparr>) = pollView s" "pollView (s\<lparr>fOpType := op\<rparr>) = pollView s"
  "pollView (s\<lparr>fCmdCount := c\<rparr>) = pollView s" "pollView (s\<lparr>fFullyDischargedReq := b\<rparr>) = pollView s"
  by (simp_all add: pollView_def)

lemma view_emit [simp]: "pollView (asbEmit e s) = pollView s" "pollView (busEmit e' s) = pollView s"
  by (simp_all add: asbEmit_def busEmit_def pollView_def)

lemma view_properties [simp]:
  "pollView (setPSProperty k v s) = pollView s" "pollView (removeProperty k s) = pollView s"
  "pollView (setIntegerProperty k i n s) = pollView s" "pollView (setBooleanProperty k b s) = pollView s"
  "pollView (rebuildLegacyIOBatteryInfoGated s) = pollView s" "pollView (markAttached E s) = pollView s"
  by (simp_all add: setPSProperty_def removeProperty_def setIntegerProperty_def setBooleanProperty_def
      rebuildLegacyIOBatteryInfoGated_def markAttached_def)

lemma view_clear [simp]: "pollView (clearBatteryStateGated b s) = pollView s"
  by (simp add: clearBatteryStateGated_def Let_def)

section \<open>The bus leaves polls alone\<close>

lemma view_submit [simp]: "pollView (snd (submitCurrent E s)) = pollView s"
  by (simp add: submitCurrent_def Let_def)

lemma view_retry [simp]: "pollView (snd (requiresRetryGetMicroSec t s)) = pollView s"
  by (simp add: requiresRetryGetMicroSec_def Let_def split: option.split)

lemma view_smbusCompletion: "pollView (snd (smbusCompletion E c tr s)) = pollView s"
proof -
  let ?r = "requiresRetryGetMicroSec (Some (fTransaction s)) s"
  have "pollView (snd ?r) = pollView s" by simp
  then show ?thesis
    by (cases ?r) (simp add: smbusCompletion_def Let_def submitCurrent_def split: ASBMgrOpType.split)
qed

lemma view_perform [simp]: "pollView (snd (smbusPerformTransaction E r s)) = pollView s"
  by (simp add: smbusPerformTransaction_def Let_def split: prod.split)

lemma view_asbmPerform [simp]: "pollView (snd (asbmPerformTransaction E cs s)) = pollView s"
  by (simp add: asbmPerformTransaction_def)

lemma view_blocking [simp]: "pollView (snd (blockingCommand E t s)) = pollView s"
  by (simp add: blockingCommand_def Let_def)

lemma view_inflow [simp]:
  "pollView (snd (disableInflowGated E l s)) = pollView s" "pollView (snd (inhibitChargingGated E l s)) = pollView s"
  by (auto simp: disableInflowGated_def inhibitChargingGated_def disableInflow_def inhibitCharging_def Let_def
      split: prod.split) (metis snd_conv view_blocking)+

lemma view_discharge [simp]: "pollView (handleFullDischarge E s) = pollView s"
  by (simp add: handleFullDischarge_def)

lemma view_exclusive [simp]: "pollView (handleExclusiveAccess E b s) = pollView s"
  by (simp add: handleExclusiveAccess_def Let_def split: prod.split)

lemma view_external:
  "pollView (snd (externalLoop E i r w s)) = pollView s"
proof (induction "kRetryAttempts - r" arbitrary: r w s rule: less_induct)
  case less
  show ?case
  proof (cases "externalTransaction i")
    case (Some t)
    have "Suc r < kRetryAttempts \<Longrightarrow> pollView (snd (externalLoop E i (Suc r) w' s')) = pollView s'" for w' s'
      by (rule less.hyps) arith
    then show ?thesis by (subst externalLoop.simps) (simp add: Some Let_def)
  qed (simp add: externalLoop.simps)
qed

section \<open>The walk\<close>

text \<open>The end of a poll, whether it has visited its whole path.\<close>

lemma view_finishedGated:
  "pollView (handlePollingFinishedGated E v p s) =
     (pollingNow s, cancelPolling s, \<not> v, fPowerServiceToAck s, fSystemSleeping s)"
  by (simp add: handlePollingFinishedGated_def Let_def split: option.split) (simp add: pollView_def)

lemma view_finished:
  "pollView (handlePollingFinished E v s) =
     (False, cancelPolling s, \<not> v \<and> \<not> fPowerServiceToAck s, False, fSystemSleeping s)"
proof -
  have "pollView ((handlePollingFinishedGated E v (machinePath s) s)\<lparr>pollingNow := False\<rparr>) =
      (False, cancelPolling s, \<not> v, fPowerServiceToAck s, fSystemSleeping s)"
    using view_finishedGated [of E v "machinePath s" s] by (simp add: pollView_def)
  then show ?thesis
    by (auto simp: handlePollingFinished_def acknowledgeSystemSleepWake_def pollView_def asbEmit_def)
qed

lemma view_next:
  "pollView (initiateNextTransaction E c s) = pollView s \<or>
   pollView (initiateNextTransaction E c s) = (False, cancelPolling s, False, False, fSystemSleeping s)"
  by (simp add: initiateNextTransaction_def initiateTransaction_def view_finished split: option.split)

lemma view_forget: "handleSetItAndForgetIt c v d n s = Some s' \<Longrightarrow> pollView s' = pollView s"
  by (auto simp: handleSetItAndForgetIt_def split: option.splits ASBMgrOpType.splits if_splits)

lemma view_steps [simp]:
  "pollView (externalPowerStep E v s) = pollView s" "pollView (batteryStateStep v s) = pollView s"
  "pollView (snd (batteryStatusStep E v s)) = pollView s" "pollView (readingStep c v n s) = pollView s"
  by (simp_all add: externalPowerStep_def batteryStateStep_def batteryStatusStep_def readingStep_def Let_def)

lemma view_restart: "pollView (restartStep s) = (True, False, True, fPowerServiceToAck s, fSystemSleeping s)"
  by (simp add: restartStep_def pollView_def)

text \<open>A step keeps the state of the poll or starts the poll.\<close>

definition pollStarts :: "asb \<Rightarrow> asb \<Rightarrow> bool" where
  "pollStarts s s' \<longleftrightarrow> pollView s' = pollView s \<or>
     pollView s' = (True, False, True, fPowerServiceToAck s, fSystemSleeping s)"

lemma view_commandStep: "pollStarts s (snd (snd (commandStep E c v n s)))"
  by (simp add: commandStep_def pollStarts_def view_restart Let_def split: prod.split)
     (metis snd_conv view_steps(3))

lemma view_gated: "pollStarts s (snd (snd (transactionCompletionGated E cs st n d s)))"
proof -
  have v: "pollStarts s (snd (snd (commandStep E c v n (s\<lparr>txnFailures := k\<rparr>))))" for c v k
    using view_commandStep [of "s\<lparr>txnFailures := k\<rparr>"] by (simp add: pollStarts_def)
  have h: "handleSetItAndForgetIt c x d n (s\<lparr>txnFailures := k\<rparr>) = Some s' \<Longrightarrow> pollView s' = pollView s" for c x s' k
    using view_forget [of c x d n "s\<lparr>txnFailures := k\<rparr>" s'] by simp
  show ?thesis
    using v view_commandStep h
    by (simp add: transactionCompletionGated_def Let_def split: option.split) (simp add: pollStarts_def)
qed

section \<open>Polls are watched\<close>

text \<open>
  A poll that is under way is cancelled or watched by the timer, and a sleep waits only for a poll
  that is under way.
\<close>

definition watched :: "asb \<Rightarrow> bool" where
  "watched s \<longleftrightarrow> (pollingNow s \<longrightarrow> batteryReadAllTimer s \<or> cancelPolling s) \<and>
     (fPowerServiceToAck s \<longrightarrow> pollingNow s \<and> fSystemSleeping s)"

lemma watched_view: "pollView s' = pollView s \<Longrightarrow> watched s' = watched s"
  by (simp add: watched_def pollView_def)

lemma watched_finished: "watched (handlePollingFinished E v s)"
  using view_finished [of E v s] by (simp add: watched_def pollView_def)

lemma watched_starts: "watched s \<Longrightarrow> pollStarts s s' \<Longrightarrow> watched s'"
  by (auto simp: pollStarts_def watched_def pollView_def)

lemma watched_next: "watched s \<Longrightarrow> watched (initiateNextTransaction E c s)"
  using view_next [of E c s] by (auto simp: watched_def pollView_def)

lemma watched_completion:
  assumes "watched s"
  shows "watched (transactionCompletion E cs st n d s)"
proof -
  obtain ret c s1 where g: "transactionCompletionGated E cs st n d s = (ret, c, s1)" by (metis surj_pair)
  then have "watched s1" using watched_starts [OF assms view_gated [of s E cs st n d]] by simp
  then show ?thesis by (simp add: transactionCompletion_def g watched_finished watched_next)
qed

lemma watched_poll:
  assumes "watched s"
  shows "watched (snd (pollBatteryState E t s))"
proof -
  let ?s1 = "choosePath t s"
  have "pollView ?s1 = pollView s" by (simp add: choosePath_def Let_def)
  then have w: "watched ?s1" using assms watched_view by blast
  have "watched (?s1\<lparr>rebootPolling := True\<rparr>)" by (rule iffD2 [OF watched_view w]) simp
  moreover have "watched (startPoll E ?s1)" unfolding startPoll_def by (rule watched_completion [OF w])
  ultimately show ?thesis unfolding pollBatteryState_def Let_def by (auto simp only: assms snd_conv split: if_split)
qed

lemma watched_same:
  "watched (s\<lparr>incompleteReadRetries := n\<rparr>) = watched s" "watched (s\<lparr>fInacessible := b\<rparr>) = watched s"
  "watched (s\<lparr>lastAlarm := v\<rparr>) = watched s" "watched (s\<lparr>fTransaction := t\<rparr>) = watched s"
  "watched (s\<lparr>fExclusiveUserClient := b\<rparr>) = watched s" "watched (s\<lparr>fCapacityOverride := b\<rparr>) = watched s"
  "watched (s\<lparr>asbmStarted := b\<rparr>) = watched s" "watched (handleExclusiveAccess E b s) = watched s"
  by (rule watched_view, simp)+

lemma watched_timeout: "watched (incompleteReadTimeOut E s)"
proof -
  let ?s1 = "handlePollingFinished E False (s\<lparr>batteryReadAllTimer := False\<rparr>)"
  have w: "watched ?s1" by (rule watched_finished)
  have "watched (?s1\<lparr>incompleteReadRetries := n\<rparr>)" for n by (rule iffD2 [OF watched_view w]) simp
  then have "watched (snd (pollBatteryState E kUseLastPath (?s1\<lparr>incompleteReadRetries := n\<rparr>)))" for n
    by (rule watched_poll)
  with w show ?thesis unfolding incompleteReadTimeOut_def Let_def by (auto simp only: split: if_split)
qed

lemma watched_inserted: "watched s \<Longrightarrow> watched (batteryInserted E s)"
  unfolding batteryInserted_def
  by (rule watched_poll) (erule iffD2 [OF watched_view, rotated], simp)

lemma watched_removed: "watched s \<Longrightarrow> watched (batteryRemoved s)"
proof -
  let ?s1 = "(if pollingNow s then s\<lparr>cancelPolling := True\<rparr> else s)\<lparr>batteryReadAllTimer := False\<rparr>"
  have "pollView (clearBatteryStateGated True ?s1) = pollView ?s1" by simp
  then show "watched s \<Longrightarrow> ?thesis"
    by (auto simp: batteryRemoved_def acknowledgeSystemSleepWake_def Let_def watched_def pollView_def asbEmit_def)
qed

lemma watched_message: "watched s \<Longrightarrow> watched (asbmMessage E m s)"
  by (simp add: asbmMessage_def handleBatteryInserted_def handleBatteryRemoved_def Let_def watched_inserted
      watched_removed watched_poll watched_same split: option.split)

lemma watched_sleep: "watched s \<Longrightarrow> watched (snd (handleSystemSleepWake E p z s))"
  by (auto simp: handleSystemSleepWake_def handleSystemSleepWakeGated_def Let_def watched_def asbEmit_def)

lemma watched_exclusive: "watched s \<Longrightarrow> watched (snd (requestExclusiveSMBusAccess E r s))"
  by (simp add: requestExclusiveSMBusAccess_def requestPoll_def Let_def watched_same watched_poll)

lemma watched_answer: "watched s \<Longrightarrow> watched (busCompletion E c tr s)"
proof -
  assume w: "watched s"
  obtain d s1 where c: "smbusCompletion (bus E) c tr s = (d, s1)" by (metis surj_pair)
  then have "pollView s1 = pollView s" using view_smbusCompletion [of "bus E" c tr s] by simp
  then have "watched s1" using w watched_view by blast
  then show ?thesis
    by (simp add: busCompletion_def c smbusCompletionHandler_def watched_completion Let_def split: option.split prod.split)
qed

section \<open>Reachable states\<close>

text \<open>The steps: the answers of the bus, the timer, alarms, sleep and wake, and the requests.\<close>

inductive asbStep :: "asb \<Rightarrow> asb \<Rightarrow> bool" where
  poll_requested: "asbStep s (snd (requestPoll E type s))"
| bus_answered: "SubmitTransaction t0 c \<in> set (busEffects s) \<Longrightarrow>
    asbStep s (busCompletion E c tr (s\<lparr>fTransaction := t\<rparr>))"
| timer_fired: "batteryReadAllTimer s \<Longrightarrow> asbStep s (incompleteReadTimeOut E s)"
| alarm_received: "asbStep s (asbmMessage E alarm s)"
| power_changed: "asbStep s (snd (setPowerState E which s))"
| exclusive_requested: "asbStep s (snd (requestExclusiveSMBusAccess E request s))"
| capacity_set: "asbStep s (handleSetOverrideCapacityGated value sticky s)"
| capacity_true: "asbStep s (switchToTrueCapacity E s)"
| client_transaction: "asbStep s (snd (readWriteWord E c inp out inSize outSize s))"
| inflow_set: "asbStep s (snd (secureInflowDisable E c level s))"
| charging_set: "asbStep s (snd (secureChargeInhibit E c level s))"

inductive asbReachable :: "asb \<Rightarrow> bool" where
  asb_started: "asbReachable (asbmStart E kBatteryDataCmd allocated (asbLoaded cells overrides))"
| asb_stepped: "asbReachable s \<Longrightarrow> asbStep s s' \<Longrightarrow> asbReachable s'"

lemma view_client:
  "pollView (snd (readWriteWord E c inp out n m s)) = pollView s"
  "pollView (snd (secureInflowDisable E c l s)) = pollView s"
  "pollView (snd (secureChargeInhibit E c l s)) = pollView s"
  "pollView (handleSetOverrideCapacityGated v b s) = pollView s"
  using view_external
  by (auto simp: readWriteWord_def smbusExternalTransaction_def secureInflowDisable_def secureChargeInhibit_def
      handleSetOverrideCapacityGated_def split: option.split prod.split) (metis snd_conv)+

lemma watched_step: "asbStep s s' \<Longrightarrow> watched s \<Longrightarrow> watched s'"
  by (induction rule: asbStep.induct)
     (simp_all add: watched_poll watched_answer watched_timeout watched_message watched_sleep watched_exclusive
        watched_same watched_view [OF view_client(1)] watched_view [OF view_client(2)] watched_view [OF view_client(3)]
        watched_view [OF view_client(4)] requestPoll_def setPowerState_def switchToTrueCapacity_def
        handleSwitchToTrueCapacityGated_def)

lemma watched_start: "watched (asbmStart E d b s)"
proof -
  have "watched s1" if "\<not> pollingNow s1" "\<not> fPowerServiceToAck s1" for s1
    using that by (simp add: watched_def)
  moreover have "pollingNow (clearBatteryStateGated False s1) = pollingNow s1"
      "fPowerServiceToAck (clearBatteryStateGated False s1) = fPowerServiceToAck s1" for s1
    using view_clear [of False s1] by (simp_all add: pollView_def)
  moreover have "pollingNow (setIntegerProperty k i n s1) = pollingNow s1"
      "fPowerServiceToAck (setIntegerProperty k i n s1) = fPowerServiceToAck s1" for k i n s1
    by (simp_all add: setIntegerProperty_def setPSProperty_def)
  ultimately show ?thesis
    unfolding asbmStart_def batteryStart_def Let_def watched_same by (intro watched_poll) simp
qed

lemma asbReachable_watched: "asbReachable s \<Longrightarrow> watched s"
  by (induction rule: asbReachable.induct) (auto intro: watched_start watched_step)

end
