(* ===== verification/SmartBatteryProperties.thy ===== *)
theory SmartBatteryProperties
  imports SmartBatteryLemmas
begin

unbundle bit_operations_syntax

text \<open>Properties of the battery driver and its transactions, each with its witness.\<close>

section \<open>What reaches the bus\<close>

text \<open>Whether transactions are allowed, and how many have been submitted for the battery.\<close>

definition busView :: "asb \<Rightarrow> (bool \<times> bool \<times> bool) \<times> nat" where
  "busView s = ((fMgrSystemSleeping s, fExclusiveUserClient s, fInacessible s), submissions s)"

lemma bus_other [simp]:
  "busView (s\<lparr>properties := p\<rparr>) = busView s" "busView (s\<lparr>txnFailures := n\<rparr>) = busView s"
  "busView (s\<lparr>rebootPolling := b\<rparr>) = busView s" "busView (s\<lparr>machinePath := w\<rparr>) = busView s"
  "busView (s\<lparr>fInitialPollCountdown := n\<rparr>) = busView s" "busView (s\<lparr>asbmReference := r\<rparr>) = busView s"
  "busView (s\<lparr>fBatteryPresent := b\<rparr>) = busView s" "busView (s\<lparr>fFullyCharged := b\<rparr>) = busView s"
  "busView (s\<lparr>fFullyDischarged := b\<rparr>) = busView s" "busView (s\<lparr>fPermanentFailure := b\<rparr>) = busView s"
  "busView (s\<lparr>fACConnected := i\<rparr>) = busView s" "busView (s\<lparr>acAttach_ts := u\<rparr>) = busView s"
  "busView (s\<lparr>fInstantCurrent := i\<rparr>) = busView s" "busView (s\<lparr>fCapacityOverride := b\<rparr>) = busView s"
  "busView (s\<lparr>settingsChangedSinceUpdate := b\<rparr>) = busView s" "busView (s\<lparr>pollingNow := b\<rparr>) = busView s"
  "busView (s\<lparr>cancelPolling := b\<rparr>) = busView s" "busView (s\<lparr>batteryReadAllTimer := b\<rparr>) = busView s"
  "busView (s\<lparr>fPowerServiceToAck := b\<rparr>) = busView s" "busView (s\<lparr>fSystemSleeping := b\<rparr>) = busView s"
  "busView (s\<lparr>inflowDisabledProperty := q\<rparr>) = busView s"
  "busView (s\<lparr>chargingInhibitedProperty := q\<rparr>) = busView s" "busView (s\<lparr>lastAlarm := v\<rparr>) = busView s"
  "busView (s\<lparr>incompleteReadRetries := n\<rparr>) = busView s" "busView (s\<lparr>fTransaction := t\<rparr>) = busView s"
  by (simp_all add: busView_def submissions_def)

lemma bus_emit [simp]:
  "busView (asbEmit e s) = busView s" "busView (busEmit (SubmitExternal t) s) = busView s"
  "busView (busEmit (BusDelay n) s) = busView s" "busView (busEmit (AcpiWrite w) s) = busView s"
  "busView (busEmit (SetUpdatesBlocked b) s) = busView s"
  by (simp_all add: asbEmit_def busEmit_def busView_def submissions_def)

lemma bus_properties [simp]:
  "busView (setPSProperty k v s) = busView s" "busView (removeProperty k s) = busView s"
  "busView (setIntegerProperty k i n s) = busView s" "busView (setBooleanProperty k b s) = busView s"
  "busView (rebuildLegacyIOBatteryInfoGated s) = busView s" "busView (markAttached E s) = busView s"
  by (simp_all add: setPSProperty_def removeProperty_def setIntegerProperty_def setBooleanProperty_def
      rebuildLegacyIOBatteryInfoGated_def markAttached_def)

lemma bus_clear [simp]: "busView (clearBatteryStateGated b s) = busView s"
  by (simp add: clearBatteryStateGated_def Let_def)

lemma bus_exclusive: "busView (handleExclusiveAccess E b s) = busView s"
  by (simp add: handleExclusiveAccess_def Let_def split: prod.split)

lemma bus_blocking [simp]: "busView (snd (blockingCommand E t s)) = busView s"
  by (simp add: blockingCommand_def Let_def)

lemma bus_inflow [simp]:
  "busView (snd (disableInflowGated E l s)) = busView s" "busView (snd (inhibitChargingGated E l s)) = busView s"
  by (auto simp: disableInflowGated_def inhibitChargingGated_def disableInflow_def inhibitCharging_def Let_def
      split: prod.split) (metis snd_conv bus_blocking)+

lemma bus_discharge [simp]: "busView (handleFullDischarge E s) = busView s"
  by (simp add: handleFullDischarge_def)

lemma bus_external: "busView (snd (externalLoop E i r w s)) = busView s"
proof (induction "kRetryAttempts - r" arbitrary: r w s rule: less_induct)
  case less
  show ?case
  proof (cases "externalTransaction i")
    case (Some t)
    have "Suc r < kRetryAttempts \<Longrightarrow> busView (snd (externalLoop E i (Suc r) w' s')) = busView s'" for w' s'
      by (rule less.hyps) arith
    then show ?thesis by (subst externalLoop.simps) (simp add: Some Let_def)
  qed (simp add: externalLoop.simps)
qed

lemma bus_steps [simp]:
  "busView (externalPowerStep E v s) = busView s" "busView (batteryStateStep v s) = busView s"
  "busView (snd (batteryStatusStep E v s)) = busView s" "busView (readingStep c v n s) = busView s"
  "busView (restartStep s) = busView s"
  by (simp_all add: externalPowerStep_def batteryStateStep_def batteryStatusStep_def readingStep_def restartStep_def
      Let_def)

lemma bus_finished [simp]: "busView (handlePollingFinished E v s) = busView s"
proof -
  have "busView (handlePollingFinishedGated E v p s) = busView s" for p
    by (simp add: handlePollingFinishedGated_def Let_def split: option.split)
  then show ?thesis by (simp add: handlePollingFinished_def acknowledgeSystemSleepWake_def)
qed

lemma bus_commandStep [simp]: "busView (snd (snd (commandStep E c v n s))) = busView s"
  by (simp add: commandStep_def Let_def split: prod.split) (metis snd_conv bus_steps(3))

lemma bus_forget: "handleSetItAndForgetIt c v d n s = Some s' \<Longrightarrow> busView s' = busView s"
  by (auto simp: handleSetItAndForgetIt_def split: option.splits ASBMgrOpType.splits if_splits)

lemma bus_gated [simp]: "busView (snd (snd (transactionCompletionGated E cs st n d s))) = busView s"
proof -
  have "handleSetItAndForgetIt c x d n (s\<lparr>txnFailures := k\<rparr>) = Some s' \<Longrightarrow> busView s' = busView s" for c x s' k
    using bus_forget [of c x d n "s\<lparr>txnFailures := k\<rparr>" s'] by simp
  then show ?thesis by (simp add: transactionCompletionGated_def Let_def split: option.split)
qed

section \<open>While an exclusive client is attached\<close>

lemma exclusive_perform: "fExclusiveUserClient s \<Longrightarrow> busView (snd (asbmPerformTransaction E cs s)) = busView s"
  by (simp add: asbmPerformTransaction_def perform_not_allowed isTransactionAllowed_def)

lemma exclusive_view: "busView s' = busView s \<Longrightarrow> fExclusiveUserClient s' = fExclusiveUserClient s"
  by (simp add: busView_def)

lemma exclusive_completion:
  assumes "fExclusiveUserClient s"
  shows "busView (transactionCompletion E cs st n d s) = busView s"
proof -
  obtain ret c s1 where g: "transactionCompletionGated E cs st n d s = (ret, c, s1)" by (metis surj_pair)
  then have b: "busView s1 = busView s" using bus_gated [of E cs st n d s] by simp
  then have "busView (initiateNextTransaction E c s1) = busView s1"
    using assms exclusive_view [OF b]
    by (simp add: initiateNextTransaction_def initiateTransaction_def exclusive_perform split: option.split)
  with b show ?thesis by (simp add: transactionCompletion_def g)
qed

lemma exclusive_poll: "fExclusiveUserClient s \<Longrightarrow> snd (pollBatteryState E t s) = s"
  by (simp add: pollBatteryState_def)

lemma exclusive_timeout:
  assumes "fExclusiveUserClient s"
  shows "busView (incompleteReadTimeOut E s) = busView s"
proof -
  let ?s1 = "handlePollingFinished E False (s\<lparr>batteryReadAllTimer := False\<rparr>)"
  have b: "busView ?s1 = busView s" by simp
  then have "fExclusiveUserClient ?s1" using assms exclusive_view by blast
  then have "snd (pollBatteryState E kUseLastPath (?s1\<lparr>incompleteReadRetries := n\<rparr>)) = ?s1\<lparr>incompleteReadRetries := n\<rparr>" for n
    by (intro exclusive_poll) simp
  with b show ?thesis unfolding incompleteReadTimeOut_def Let_def by (simp only: bus_other split: if_split) simp
qed

definition exView :: "asb \<Rightarrow> bool \<times> nat" where
  "exView s = (fExclusiveUserClient s, submissions s)"

lemma ex_bus: "busView s' = busView s \<Longrightarrow> exView s' = exView s"
  by (simp add: busView_def exView_def)

lemma ex_other:
  "exView (s\<lparr>fInacessible := b\<rparr>) = exView s" "exView (s\<lparr>lastAlarm := v\<rparr>) = exView s"
  "exView (s\<lparr>fInitialPollCountdown := n, rebootPolling := b\<rparr>) = exView s"
  by (simp_all add: exView_def submissions_def)

lemma exclusive_inserted:
  assumes "fExclusiveUserClient s"
  shows "exView (batteryInserted E s) = exView s"
proof -
  let ?s1 = "clearBatteryStateGated False s"
  have b: "busView ?s1 = busView s" by simp
  then have "fExclusiveUserClient ?s1" using assms exclusive_view by blast
  then have "batteryInserted E s = ?s1\<lparr>fInitialPollCountdown := kInitialPollCountdown, rebootPolling := True\<rparr>"
    unfolding batteryInserted_def by (intro exclusive_poll) simp
  then show ?thesis using ex_bus [OF b] by (simp only: ex_other)
qed

lemma removed_bus: "busView (batteryRemoved s) = busView s"
  by (simp add: batteryRemoved_def acknowledgeSystemSleepWake_def Let_def)

lemma exclusive_message:
  assumes "fExclusiveUserClient s"
  shows "exView (asbmMessage E m s) = exView s"
proof -
  have i: "exView (handleBatteryInserted E (s\<lparr>lastAlarm := v\<rparr>)) = exView s" for v
    using exclusive_inserted [of "s\<lparr>lastAlarm := v, fInacessible := False\<rparr>" E] assms
    unfolding handleBatteryInserted_def Let_def by (simp only: ex_other split: if_split) simp
  have r: "exView (handleBatteryRemoved (s\<lparr>lastAlarm := v\<rparr>)) = exView s" for v
    unfolding handleBatteryRemoved_def Let_def
    by (simp only: ex_bus [OF removed_bus] ex_other split: if_split) simp
  have p: "exView (snd (pollBatteryState E kUseLastPath (s\<lparr>lastAlarm := v\<rparr>))) = exView s" for v
    using assms by (simp add: exclusive_poll ex_other)
  show ?thesis
    unfolding asbmMessage_def Let_def by (simp only: i r p split: option.split prod.split if_split) simp
qed

lemma exclusive_answer:
  assumes "fExclusiveUserClient s"
  shows "busView (busCompletion E c tr s) = busView s"
proof -
  have n: "isTransactionAllowed s \<noteq> kIOReturnSuccess" using assms by (simp add: isTransactionAllowed_def)
  obtain d where "smbusCompletion (bus E) c tr s = (d, s)"
    using completion_not_allowed [OF n, of "bus E" c tr] by (metis prod.collapse)
  then show ?thesis
    using exclusive_completion [OF assms]
    by (simp add: busCompletion_def smbusCompletionHandler_def Let_def split: option.split prod.split)
qed

lemma bus_client:
  "busView (snd (readWriteWord E c inp out n m s)) = busView s"
  "busView (snd (secureInflowDisable E c l s)) = busView s"
  "busView (snd (secureChargeInhibit E c l s)) = busView s"
  "busView (handleSetOverrideCapacityGated v b s) = busView s"
  using bus_external
  by (auto simp: readWriteWord_def smbusExternalTransaction_def secureInflowDisable_def secureChargeInhibit_def
      handleSetOverrideCapacityGated_def split: option.split prod.split) (metis snd_conv)+

lemma flag_submit: "fExclusiveUserClient (snd (submitCurrent E s)) = fExclusiveUserClient s"
  by (simp add: submitCurrent_def busEmit_def Let_def)

lemma flag_smbus: "fExclusiveUserClient (snd (smbusPerformTransaction E r s)) = fExclusiveUserClient s"
  by (simp add: smbusPerformTransaction_def flag_submit Let_def split: prod.split)

lemma flag_perform: "fExclusiveUserClient (snd (asbmPerformTransaction E cs s)) = fExclusiveUserClient s"
  by (simp add: asbmPerformTransaction_def flag_smbus)

lemma flag_next: "fExclusiveUserClient (initiateNextTransaction E c s) = fExclusiveUserClient s"
  using exclusive_view [OF bus_finished]
  by (simp add: initiateNextTransaction_def initiateTransaction_def flag_perform split: option.split)

lemma flag_completion: "fExclusiveUserClient (transactionCompletion E cs st n d s) = fExclusiveUserClient s"
proof -
  obtain ret c s1 where g: "transactionCompletionGated E cs st n d s = (ret, c, s1)" by (metis surj_pair)
  then have "busView s1 = busView s" using bus_gated [of E cs st n d s] by simp
  then have "fExclusiveUserClient s1 = fExclusiveUserClient s" by (rule exclusive_view)
  moreover have "fExclusiveUserClient (handlePollingFinished E False s') = fExclusiveUserClient s'" for s'
    by (rule exclusive_view [OF bus_finished])
  ultimately show ?thesis by (simp add: transactionCompletion_def g flag_next)
qed

lemma flag_poll: "fExclusiveUserClient (snd (pollBatteryState E t s)) = fExclusiveUserClient s"
proof -
  have "fExclusiveUserClient (choosePath t s) = fExclusiveUserClient s" by (simp add: choosePath_def Let_def)
  then show ?thesis
    unfolding pollBatteryState_def startPoll_def Let_def by (simp add: flag_completion)
qed

lemma exclusive_sleep: "busView (snd (setPowerState E which s)) = busView s"
  by (simp add: setPowerState_def handleSystemSleepWake_def handleSystemSleepWakeGated_def Let_def)

lemma exclusive_capacity:
  assumes "fExclusiveUserClient s"
  shows "busView (switchToTrueCapacity E s) = busView s"
  using assms exclusive_poll [of "s\<lparr>fCapacityOverride := False\<rparr>" E kUserVis]
  by (simp add: switchToTrueCapacity_def handleSwitchToTrueCapacityGated_def)

lemma exclusive_ends:
  assumes "fExclusiveUserClient (snd (requestExclusiveSMBusAccess E request s))"
  shows "request"
proof (rule ccontr)
  assume n: "\<not> request"
  let ?s1 = "handleExclusiveAccess (bus E) request (s\<lparr>fExclusiveUserClient := request\<rparr>)"
  have "fExclusiveUserClient ?s1 = request" using exclusive_view [OF bus_exclusive] by simp
  then show False
    using assms n
    by (cases "asbmStarted ?s1") (simp_all add: requestExclusiveSMBusAccess_def requestPoll_def flag_poll Let_def)
qed

text \<open>
  C27: while an exclusive client stays attached, no step of the driver submits a transaction for
  the battery: neither polls, timeouts and alarms nor the completion of what was submitted before.
\<close>

theorem exclusive_client_undisturbed:
  assumes "asbStep s s'" and "fExclusiveUserClient s" and "fExclusiveUserClient s'"
  shows "submissions s' = submissions s"
proof -
  have "exView s' = exView s"
    using assms(1)
  proof cases
    case (poll_requested E type)
    then show ?thesis using assms(2) by (simp add: requestPoll_def exclusive_poll)
  next
    case (bus_answered t0 c E tr t)
    have "busView s' = busView (s\<lparr>fTransaction := t\<rparr>)"
      unfolding bus_answered(1) by (rule exclusive_answer) (simp add: assms(2))
    then show ?thesis by (intro ex_bus) simp
  next
    case (timer_fired E)
    show ?thesis unfolding timer_fired(1) by (rule ex_bus [OF exclusive_timeout [OF assms(2)]])
  next
    case (alarm_received E alarm)
    show ?thesis unfolding alarm_received by (rule exclusive_message [OF assms(2)])
  next
    case (power_changed E which)
    show ?thesis unfolding power_changed by (rule ex_bus [OF exclusive_sleep])
  next
    case (exclusive_requested E request)
    then have "request" using assms(3) exclusive_ends by blast
    then show ?thesis using assms(2) exclusive_requested by (simp add: requestExclusiveSMBusAccess_def)
  next
    case (capacity_set v b)
    show ?thesis unfolding capacity_set by (rule ex_bus [OF bus_client(4)])
  next
    case (capacity_true E)
    show ?thesis unfolding capacity_true by (rule ex_bus [OF exclusive_capacity [OF assms(2)]])
  next
    case (client_transaction E c inp out n m)
    show ?thesis unfolding client_transaction by (rule ex_bus [OF bus_client(1)])
  next
    case (inflow_set E c level)
    show ?thesis unfolding inflow_set by (rule ex_bus [OF bus_client(2)])
  next
    case (charging_set E c level)
    show ?thesis unfolding charging_set by (rule ex_bus [OF bus_client(3)])
  qed
  then show ?thesis by (simp add: exView_def)
qed

section \<open>A laptop\<close>

text \<open>A bus that takes every transaction and a battery of one cell.\<close>

definition quietBus :: busEnv where
  "quietBus = \<lparr>submitResult = (\<lambda>_. kIOReturnSuccess), blockingResult = (\<lambda>_ _. kIOReturnSuccess),
     blockingAnswer = (\<lambda>k t. t\<lparr>tx_status := (if k = 2 then kIOSMBusStatusOK else kIOSMBusStatusBusy)\<rparr>),
     acpiProvider = False, acpiRead = (\<lambda>_. (kIOReturnSuccess, 0)), acpiWriteResult = (\<lambda>_. kIOReturnSuccess)\<rparr>"

definition mac :: asbEnv where
  "mac = \<lparr>bus = quietBus, calendarSecs = 1000, uptime = 5, nanosecondsOf = unat, wakesFromHibernate = False,
     stackMemory = noTransaction\<rparr>"

definition laptop :: asb where
  "laptop = asbmStart mac 0x10000 True (asbLoaded 1 None)"

definition lidClosed :: asb where
  "lidClosed = snd (setPowerState mac 0 laptop)"

definition updating :: asb where
  "updating = snd (requestExclusiveSMBusAccess mac True laptop)"

lemma laptop_polled:
  "pollingNow laptop" "\<not> cancelPolling laptop" "\<not> fSystemSleeping laptop" "asbmStarted laptop"
  by code_simp+

lemma laptop_reachable: "asbReachable laptop"
  unfolding laptop_def by (rule asb_started)

theorem exclusive_client_undisturbed_witness:
  "submissions (snd (requestPoll mac kFull updating)) = submissions updating \<and> fExclusiveUserClient updating"
proof -
  have "fExclusiveUserClient updating" by code_simp
  moreover have "fExclusiveUserClient (snd (requestPoll mac kFull updating))" by code_simp
  ultimately show ?thesis
    using exclusive_client_undisturbed [OF poll_requested, of updating mac kFull] by simp
qed

section \<open>Polls, timer and sleep\<close>

text \<open>The calls of \<open>acknowledgeSetPowerState\<close> so far.\<close>

definition powerAcks :: "asb \<Rightarrow> nat" where
  "powerAcks s = length (filter (\<lambda>e. e = AcknowledgeSetPowerState) (asbEffects s))"

lemma powerAcks_steps [simp]:
  "powerAcks (setIntegerProperty k n w s) = powerAcks s"
  "powerAcks (rebuildLegacyIOBatteryInfoGated s) = powerAcks s"
  "powerAcks (markAttached E s) = powerAcks s"
  "powerAcks (asbEmit UpdateStatus s) = powerAcks s"
  by (simp_all add: powerAcks_def setIntegerProperty_def setPSProperty_def rebuildLegacyIOBatteryInfoGated_def
      markAttached_def asbEmit_def)

lemma powerAcks_finishedGated: "powerAcks (handlePollingFinishedGated E v p s) = powerAcks s"
proof -
  have u: "powerAcks (s'\<lparr>batteryReadAllTimer := b\<rparr>) = powerAcks s'"
    "powerAcks (s'\<lparr>fInitialPollCountdown := n\<rparr>) = powerAcks s'"
    "powerAcks (s'\<lparr>properties := d\<rparr>) = powerAcks s'" for s' b n d
    by (simp_all add: powerAcks_def)
  show ?thesis by (simp add: handlePollingFinishedGated_def Let_def u split: option.split)
qed

lemma powerAcks_acknowledge:
  "powerAcks (acknowledgeSystemSleepWake s) = powerAcks s + of_bool (fPowerServiceToAck s)"
  by (simp add: acknowledgeSystemSleepWake_def powerAcks_def asbEmit_def)

lemma powerAcks_finished:
  "powerAcks (handlePollingFinished E v s) = powerAcks s + of_bool (fPowerServiceToAck s)"
proof -
  let ?g = "handlePollingFinishedGated E v (machinePath s) s"
  have "fPowerServiceToAck ?g = fPowerServiceToAck s"
    using view_finishedGated [of E v "machinePath s" s] by (simp add: pollView_def)
  moreover have "powerAcks (?g\<lparr>pollingNow := False\<rparr>) = powerAcks s"
    using powerAcks_finishedGated [of E v "machinePath s" s] by (simp add: powerAcks_def)
  ultimately show ?thesis by (simp add: handlePollingFinished_def powerAcks_acknowledge)
qed

text \<open>
  C28: in every reachable state a poll that is under way has been cancelled or is watched by the
  timer, and where the acknowledgement of a power change is outstanding, the system is going to
  sleep and a poll is under way.  The end of a poll, complete or not, calls
  \<open>acknowledgeSetPowerState\<close> exactly once if an acknowledgement is outstanding and not at all
  otherwise, and none is outstanding after it.
\<close>

theorem poll_watched:
  assumes "asbReachable s"
  shows "(pollingNow s \<longrightarrow> batteryReadAllTimer s \<or> cancelPolling s) \<and>
    (fPowerServiceToAck s \<longrightarrow> pollingNow s \<and> fSystemSleeping s) \<and>
    powerAcks (handlePollingFinished E v s) = powerAcks s + of_bool (fPowerServiceToAck s) \<and>
    \<not> fPowerServiceToAck (handlePollingFinished E v s)"
proof -
  have "\<not> fPowerServiceToAck (handlePollingFinished E v s)"
    using view_finished [of E v s] by (simp add: pollView_def)
  then show ?thesis
    using asbReachable_watched [OF assms] powerAcks_finished [of E v s] by (simp add: watched_def)
qed

theorem poll_watched_witness:
  "fPowerServiceToAck lidClosed \<and> fSystemSleeping lidClosed \<and> batteryReadAllTimer lidClosed \<and>
   powerAcks (handlePollingFinished mac True lidClosed) = Suc (powerAcks lidClosed)"
proof -
  have "asbReachable lidClosed"
    unfolding lidClosed_def by (rule asb_stepped [OF laptop_reachable power_changed])
  note w = poll_watched [OF this, of mac True]
  have a: "fPowerServiceToAck lidClosed" and c: "\<not> cancelPolling lidClosed"
    using laptop_polled
    by (simp_all add: lidClosed_def setPowerState_def handleSystemSleepWake_def handleSystemSleepWakeGated_def mac_def)
  show ?thesis using w a c by simp
qed

section \<open>Retries\<close>

text \<open>
  C29: a transaction that fails again and again is submitted again five times, each time after a
  longer delay of the table, and is then completed with an error.
\<close>

theorem failing_transaction_given_up:
  assumes "isTransactionAllowed s = kIOReturnSuccess" and "fRetryAttempts s = 0"
    and "\<And>t. submitResult E t = kIOReturnSuccess"
    and "list_all (\<lambda>a. statusNeedsRetry (ans_status a)) as" and "kRetryAttempts < length as"
  shows "(\<exists>n d. fst (serve E as s) = Some (kIOReturnIOError, n, d)) \<and>
    submissions (snd (serve E as s)) = submissions s + kRetryAttempts \<and>
    delays (snd (serve E as s)) = delays s @ microSecDelayTable"
  using serve_failing [of s E as] assms by simp

definition reading :: asb where
  "reading = snd (smbusPerformTransaction quietBus
     \<lparr>req_opType = kASBMSMBUSReadWord, req_address = kSMBusBatteryAddr, req_command = kBFullChargeCapacityCmd,
      req_outData = [], req_fullyDischarged = False\<rparr> laptop)"

theorem failing_transaction_given_up_witness:
  "submissions (snd (serve quietBus (replicate 6 \<lparr>ans_status = kIOSMBusStatusTimeout, ans_data = [], ans_count = 0\<rparr>)
     reading)) = 6"
proof -
  have "isTransactionAllowed reading = kIOReturnSuccess" "fRetryAttempts reading = 0" "submissions reading = 1"
    by code_simp+
  moreover have "submitResult quietBus t = kIOReturnSuccess" for t by (simp add: quietBus_def)
  ultimately show ?thesis
    using failing_transaction_given_up
      [of reading quietBus "replicate 6 \<lparr>ans_status = kIOSMBusStatusTimeout, ans_data = [], ans_count = 0\<rparr>"]
    by (simp add: statusNeedsRetry_def kRetryAttempts_def list_all_iff)
qed

section \<open>Transactions of user clients\<close>

text \<open>
  A transaction of a user client is sent five times at most, and once without the retry flag;
  the status the client reads is success exactly when one of these attempts can succeed.
\<close>

theorem external_attempts:
  assumes "externalTransaction i = Some t" and "\<And>k. blockingResult E k t = kIOReturnSuccess"
    and "sizeofInput \<le> inSize" and "sizeofOutput \<le> outSize"
  shows "\<exists>o'. fst (smbusExternalTransaction E (Some i) (Some out) inSize outSize s) = (kIOReturnSuccess, Some o') \<and>
    (ex_status o' = kIOReturnSuccess) =
      (\<exists>k. k < (if ex_retry i then kRetryAttempts else 1) \<and> tx_status (blockingAnswer E k t) = kIOSMBusStatusOK) \<and>
    externals (snd (smbusExternalTransaction E (Some i) (Some out) inSize outSize s)) =
      externals s + Suc (decidingAttempt E i t 0) \<and>
    decidingAttempt E i t 0 < kRetryAttempts"
proof -
  let ?n = "decidingAttempt E i t 0"
  obtain s1 where l: "externalLoop E i 0 None s =
      ((kIOReturnSuccess, Some (getErrorCode (tx_status (blockingAnswer E ?n t)))), s1)"
      "externals s1 = externals s + Suc ?n"
    using externalLoop_exact [OF assms(1,2), of 0 None s] by (cases "externalLoop E i 0 None s") (auto simp: kRetryAttempts_def)
  let ?o = "externalOutput (fTransaction s1) (writeStatus (Some (getErrorCode (tx_status (blockingAnswer E ?n t)))) out)"
  have e: "smbusExternalTransaction E (Some i) (Some out) inSize outSize s = ((kIOReturnSuccess, Some ?o), s1)"
    using assms(3,4) by (simp add: smbusExternalTransaction_def l(1))
  have "ex_status ?o = getErrorCode (tx_status (blockingAnswer E ?n t))"
    by (simp add: externalOutput_def writeStatus_def Let_def)
  moreover have "tx_status (blockingAnswer E ?n t) = kIOSMBusStatusOK \<longleftrightarrow>
      (\<exists>k. k < (if ex_retry i then kRetryAttempts else 1) \<and> tx_status (blockingAnswer E k t) = kIOSMBusStatusOK)"
  proof (cases "ex_retry i")
    case True
    then show ?thesis using deciding_success [OF True, of _ E t] decidingAttempt_bound [of E i t] by auto
  qed (simp add: decidingAttempt_def)
  ultimately show ?thesis using e l(2) decidingAttempt_bound [of E i t] by simp
qed

definition temperatureRead :: EXSMBUSInputStruct where
  "temperatureRead = \<lparr>ex_retry = True, ex_usePEC = False, ex_type = kEXReadWord, ex_batterySelector = 0,
     ex_address = 8, ex_inByteCount = 0, ex_inBuf = []\<rparr>"

theorem external_attempts_witness:
  "externals (snd (smbusExternalTransaction quietBus (Some temperatureRead)
     (Some \<lparr>ex_status = kIOReturnError, ex_outByteCount = 0, ex_outBuf = []\<rparr>) 37 40 laptop)) = externals laptop + 3"
proof -
  obtain t where t: "externalTransaction temperatureRead = Some t"
    by (simp add: externalTransaction_def externalProtocol_def temperatureRead_def)
  have "decidingAttempt quietBus temperatureRead t 0 = 2"
    by (simp add: decidingAttempt_def temperatureRead_def quietBus_def kRetryAttempts_def upt_rec numeral_eq_Suc)
  moreover have "blockingResult quietBus k t = kIOReturnSuccess" for k by (simp add: quietBus_def)
  ultimately show ?thesis
    using external_attempts [OF t, of quietBus 37 40 "\<lparr>ex_status = kIOReturnError, ex_outByteCount = 0, ex_outBuf = []\<rparr>" laptop]
    by (auto simp: sizeofInput_def sizeofOutput_def)
qed

section \<open>What goes wrong\<close>

text \<open>
  The flag that cancels a poll is never cleared again: the start of a poll looks at it first, and
  the place that clears it comes after.
\<close>

lemma cancelled_stays: "cancelPolling s \<Longrightarrow> cancelPolling (transactionCompletion E cs st n d s)"
  using view_finished [of E False s] by (simp add: transactionCompletion_def pollView_def)

lemma cancelled_poll_reads_nothing:
  assumes "cancelPolling s" and "\<not> pollingNow s" and "\<not> fExclusiveUserClient s"
  shows "submissions (snd (pollBatteryState E t s)) = submissions s \<and> cancelPolling (snd (pollBatteryState E t s)) \<and>
    \<not> pollingNow (snd (pollBatteryState E t s))"
proof -
  let ?s1 = "choosePath t s"
  have b: "busView ?s1 = busView s" and v: "pollView ?s1 = pollView s" by (simp_all add: choosePath_def Let_def)
  then have c: "cancelPolling ?s1" and n: "\<not> pollingNow ?s1" using assms by (simp_all add: pollView_def)
  then have e: "snd (pollBatteryState E t s) = handlePollingFinished E False ?s1"
    using assms(3) by (simp add: pollBatteryState_def startPoll_def transactionCompletion_def Let_def)
  have "busView (handlePollingFinished E False ?s1) = busView s" using b by simp
  moreover have "pollView (handlePollingFinished E False ?s1) = (False, True, \<not> fPowerServiceToAck ?s1, False, fSystemSleeping ?s1)"
    using view_finished [of E False ?s1] c by simp
  ultimately show ?thesis by (simp add: e busView_def pollView_def)
qed

text \<open>A battery that is taken out while it is polled and put in again is not polled any more.\<close>

lemma cancelled_poll: "cancelPolling s \<Longrightarrow> cancelPolling (snd (pollBatteryState E t s))"
proof -
  assume "cancelPolling s"
  then have "cancelPolling (choosePath t s)" by (simp add: choosePath_def Let_def)
  then show ?thesis
    using \<open>cancelPolling s\<close> unfolding pollBatteryState_def startPoll_def Let_def by (simp add: cancelled_stays)
qed

lemma cancelled_removed: "pollingNow s \<Longrightarrow> cancelPolling (batteryRemoved s)"
proof -
  let ?c = "\<lambda>s1. clearBatteryStateGated True (s1\<lparr>batteryReadAllTimer := False\<rparr>)"
  have k: "cancelPolling (acknowledgeSystemSleepWake s1) = cancelPolling s1" for s1
    by (simp add: acknowledgeSystemSleepWake_def asbEmit_def)
  have "pollView (?c s1) = pollView (s1\<lparr>batteryReadAllTimer := False\<rparr>)" for s1 by simp
  then have "cancelPolling (?c s1) = cancelPolling s1" for s1 by (simp add: pollView_def)
  then show "pollingNow s \<Longrightarrow> cancelPolling (batteryRemoved s)" unfolding batteryRemoved_def Let_def k by simp
qed

lemma reinserted_not_polled:
  assumes "pollingNow s"
  shows "cancelPolling (batteryInserted E (batteryRemoved s))"
proof -
  have "cancelPolling (clearBatteryStateGated False (batteryRemoved s))"
    using cancelled_removed [OF assms] view_clear [of False "batteryRemoved s"] by (simp only: pollView_def prod.inject)
  then show ?thesis unfolding batteryInserted_def by (intro cancelled_poll) simp
qed

text \<open>Power management is never told to wait for the poll.\<close>

lemma sleep_never_delayed:
  "fst (setPowerState E which s) = 0 \<and> fst (handleSystemSleepWakeGated mac True True laptop) = 10000000"
  using laptop_polled
  by (simp add: setPowerState_def handleSystemSleepWake_def handleSystemSleepWakeGated_def kBatteryReadAllTimeout_def)

text \<open>Inflow that has been enabled again is still reported as forcibly enabled.\<close>

lemma enabled_inflow_reported:
  assumes "inflowDisabledProperty s = Some False"
  shows "MessageFullyDischarged True \<in> set (asbEffects (handleFullDischarge E s))"
  using assms by (simp add: handleFullDischarge_def asbEmit_def)

text \<open>A poll that is refused returns the code of success, one that is accepted does not.\<close>

lemma poll_request_inverted:
  "fst (externalRequestPoll mac kFull updating) = 0 \<and> fst (externalRequestPoll mac kFull laptop) = 1"
  by code_simp

text \<open>The byte of a client that writes one byte is not copied: a zero is sent.\<close>

lemma write_byte_sends_zero:
  assumes "ex_type i = kEXWriteByte"
  shows "\<exists>t. externalTransaction i = Some t \<and> tx_sendDataCount t = 1 \<and> byteAt (tx_sendData t) 0 = 0"
  using assms
  by (simp add: externalTransaction_def externalProtocol_def noTransaction_def byteAt_def MAX_SMBUS_DATA_SIZE_def)

text \<open>The second byte of the commands to the charger is what the stack holds.\<close>

lemma charger_byte_unset:
  "\<exists>t. SubmitExternal t \<in> set (busEffects (snd (disableInflow E stack level s))) \<and> tx_sendDataCount t = 2 \<and>
     byteAt (tx_sendData t) 1 = byteAt (tx_sendData stack) 1"
proof (intro exI conjI)
  let ?t = "stack\<lparr>tx_address := kSMBusManagerAddr, tx_command := kMStateContCmd,
     tx_protocol := Some kIOSMBusProtocolWriteWord, tx_sendDataCount := 2,
     tx_sendData := (tx_sendData stack)[0 := (if level then kMCalibrateBit else 0)]\<rparr>"
  show "SubmitExternal ?t \<in> set (busEffects (snd (disableInflow E stack level s)))"
    by (simp add: disableInflow_def blockingCommand_def busEmit_def Let_def)
  show "tx_sendDataCount ?t = 2" by simp
  show "byteAt (tx_sendData ?t) 1 = byteAt (tx_sendData stack) 1" by (simp add: byteAt_def)
qed

text \<open>
  The first command of the battery has a type that the manager refuses: on a laptop a poll stops
  before it has submitted anything, until the timer fires.
\<close>

lemma first_command_stalls: "pollingNow laptop \<and> submissions laptop = 0"
  by code_simp

end
