(* ===== verification/SmcClient.thy ===== *)
theory SmcClient
  imports Prelude
begin

text \<open>
  The part that the clients of the system management controller share (AppleBatteryAuth.cpp,
  AppleGasGaugeUpdate.cpp): keys read and written with retries, and the wait for the notification
  that ends a command.  The controller is a parameter with a state of its own.
\<close>

section \<open>The controller\<close>

datatype smcKey = BATC | BATD | GCCM | GCRW | BFUC | BFUD

text \<open>The operation, the status of the bus and the status of the chip that a notification carries.\<close>

record notification =
  nOp :: u8
  nI2c :: u8
  nChip :: u8

text \<open>
  \<open>smcWait\<close> is the sleep on the command gate: the notifications whose threads get the gate before
  the sleeper has it back, and whether the sleeper has been awakened by one.
\<close>

record 'd smcEnv =
  smcWrite :: "smcKey \<Rightarrow> u8 list \<Rightarrow> 'd \<Rightarrow> bool \<times> 'd"
  smcRead :: "smcKey \<Rightarrow> nat \<Rightarrow> 'd \<Rightarrow> u8 list option \<times> 'd"
  smcWait :: "'d \<Rightarrow> (notification list \<times> bool) \<times> 'd"

text \<open>What a client does, in order: a write or a read and its success, a delay, a wait.\<close>

datatype smcEvent =
    SmcWrote smcKey "u8 list" bool
  | SmcRead smcKey bool
  | SmcSlept nat
  | SmcWaited bool

text \<open>\<open>notified\<close> is \<open>_receivedNotificationStatus\<close>; \<open>smcLog\<close> records the calls.\<close>

record 'd smcClient =
  smcState :: 'd
  notified :: notification
  smcLog :: "smcEvent list"

definition smcEmit :: "smcEvent \<Rightarrow> ('d, 'a) smcClient_scheme \<Rightarrow> ('d, 'a) smcClient_scheme" where
  "smcEmit e s = s\<lparr>smcLog := smcLog s @ [e]\<rparr>"

abbreviation IOSleep :: "nat \<Rightarrow> ('d, 'a) smcClient_scheme \<Rightarrow> ('d, 'a) smcClient_scheme" where
  "IOSleep ms \<equiv> smcEmit (SmcSlept ms)"

section \<open>Keys\<close>

definition MAX_TRIES :: nat where
  "MAX_TRIES = 5"

definition writeOnce ::
    "('d, 'e) smcEnv_scheme \<Rightarrow> smcKey \<Rightarrow> u8 list \<Rightarrow> ('d, 'a) smcClient_scheme
     \<Rightarrow> bool \<times> ('d, 'a) smcClient_scheme" where
  "writeOnce E key bs s =
     (case smcWrite E key bs (smcState s) of
        (ok, d) \<Rightarrow> (ok, smcEmit (SmcWrote key bs ok) (s\<lparr>smcState := d\<rparr>)))"

text \<open>The attempts with \<open>n\<close> retries left.\<close>

fun writeTries ::
    "('d, 'e) smcEnv_scheme \<Rightarrow> smcKey \<Rightarrow> u8 list \<Rightarrow> nat \<Rightarrow> ('d, 'a) smcClient_scheme
     \<Rightarrow> bool \<times> ('d, 'a) smcClient_scheme" where
  "writeTries E key bs 0 s = writeOnce E key bs s"
| "writeTries E key bs (Suc n) s =
     (case writeOnce E key bs s of
        (ok, s1) \<Rightarrow> if ok then (True, s1) else writeTries E key bs n (IOSleep 700 s1))"

definition smcWriteKey ::
    "('d, 'e) smcEnv_scheme \<Rightarrow> smcKey \<Rightarrow> u8 list \<Rightarrow> ('d, 'a) smcClient_scheme
     \<Rightarrow> bool \<times> ('d, 'a) smcClient_scheme" where
  "smcWriteKey E key bs s = writeTries E key bs MAX_TRIES s"

definition readOnce ::
    "('d, 'e) smcEnv_scheme \<Rightarrow> smcKey \<Rightarrow> nat \<Rightarrow> ('d, 'a) smcClient_scheme
     \<Rightarrow> u8 list option \<times> ('d, 'a) smcClient_scheme" where
  "readOnce E key len s =
     (case smcRead E key len (smcState s) of
        (bs, d) \<Rightarrow> (bs, smcEmit (SmcRead key (bs \<noteq> None)) (s\<lparr>smcState := d\<rparr>)))"

fun readTries ::
    "('d, 'e) smcEnv_scheme \<Rightarrow> smcKey \<Rightarrow> nat \<Rightarrow> nat \<Rightarrow> ('d, 'a) smcClient_scheme
     \<Rightarrow> u8 list option \<times> ('d, 'a) smcClient_scheme" where
  "readTries E key len 0 s = readOnce E key len s"
| "readTries E key len (Suc n) s =
     (case readOnce E key len s of
        (bs, s1) \<Rightarrow> if bs \<noteq> None then (bs, s1) else readTries E key len n (IOSleep 700 s1))"

definition smcReadKey ::
    "('d, 'e) smcEnv_scheme \<Rightarrow> smcKey \<Rightarrow> nat \<Rightarrow> ('d, 'a) smcClient_scheme
     \<Rightarrow> u8 list option \<times> ('d, 'a) smcClient_scheme" where
  "smcReadKey E key len s = readTries E key len MAX_TRIES s"

section \<open>Memory and early returns\<close>

text \<open>A byte of memory, and the bytes from an offset.\<close>

definition memAt :: "u8 list \<Rightarrow> nat \<Rightarrow> u8" where
  "memAt xs i = (if i < length xs then xs ! i else 0)"

definition memRange :: "u8 list \<Rightarrow> nat \<Rightarrow> nat \<Rightarrow> u8 list" where
  "memRange xs off n = map (memAt xs) [off..<off + n]"

lemma length_memRange [simp]: "length (memRange xs off n) = n"
  by (simp add: memRange_def)

text \<open>A little-endian number of 16 bits.\<close>

definition le16 :: "u8 list \<Rightarrow> nat" where
  "le16 xs = unat (memAt xs 0) + 256 * unat (memAt xs 1)"

text \<open>The early return: the second part runs if the first succeeded.\<close>

definition andThen :: "IOReturn \<times> 's \<Rightarrow> ('s \<Rightarrow> IOReturn \<times> 's) \<Rightarrow> IOReturn \<times> 's" where
  "andThen p f = (case p of (r, s) \<Rightarrow> if r \<noteq> kIOReturnSuccess then (r, s) else f s)"

section \<open>Waiting for a notification\<close>

text \<open>\<open>handle\<close> is the notification handler of the client, which runs while the gate is free.\<close>

definition commandSleep ::
    "('d, 'e) smcEnv_scheme \<Rightarrow> (notification \<Rightarrow> ('d, 'a) smcClient_scheme \<Rightarrow> ('d, 'a) smcClient_scheme)
     \<Rightarrow> ('d, 'a) smcClient_scheme \<Rightarrow> bool \<times> ('d, 'a) smcClient_scheme" where
  "commandSleep E handle s =
     (case smcWait E (smcState s) of
        ((ns, awakened), d) \<Rightarrow>
          (awakened, smcEmit (SmcWaited awakened) (fold handle ns (s\<lparr>smcState := d\<rparr>))))"

section \<open>What the controller has been told\<close>

text \<open>
  The writes that the controller has acknowledged, read as messages: a write of the command key
  sends the command with what the data key holds.
\<close>

type_synonym mailbox = "u8 list \<times> (u8 \<times> u8 list) list"

fun mailStep :: "smcKey \<Rightarrow> smcKey \<Rightarrow> mailbox \<Rightarrow> smcEvent \<Rightarrow> mailbox" where
  "mailStep dkey ckey (reg, ms) (SmcWrote key bs ok) =
     (if \<not> ok then (reg, ms)
      else if key = dkey then (bs, ms)
      else if key = ckey then (reg, ms @ [(hd bs, reg)])
      else (reg, ms))"
| "mailStep dkey ckey (reg, ms) (SmcRead key ok) = (reg, ms)"
| "mailStep dkey ckey (reg, ms) (SmcSlept ms') = (reg, ms)"
| "mailStep dkey ckey (reg, ms) (SmcWaited w) = (reg, ms)"

definition mailbox :: "smcKey \<Rightarrow> smcKey \<Rightarrow> ('d, 'a) smcClient_scheme \<Rightarrow> mailbox" where
  "mailbox dkey ckey s = foldl (mailStep dkey ckey) ([], []) (smcLog s)"

lemma mailbox_emit [simp]:
  "mailbox dkey ckey (smcEmit e s) = mailStep dkey ckey (mailbox dkey ckey s) e"
  by (simp add: mailbox_def smcEmit_def)

lemma mailbox_cong: "smcLog s = smcLog t \<Longrightarrow> mailbox dkey ckey s = mailbox dkey ckey t"
  by (simp add: mailbox_def)

lemma mailStep_quiet [simp]:
  "mailStep dkey ckey m (SmcRead key ok) = m"
  "mailStep dkey ckey m (SmcSlept n) = m"
  "mailStep dkey ckey m (SmcWaited w) = m"
  by (cases m; simp)+

text \<open>What one successful write of a key does.\<close>

definition mailWrite :: "smcKey \<Rightarrow> smcKey \<Rightarrow> smcKey \<Rightarrow> u8 list \<Rightarrow> mailbox \<Rightarrow> mailbox" where
  "mailWrite dkey ckey key bs m = mailStep dkey ckey m (SmcWrote key bs True)"

lemma mailStep_failed [simp]: "mailStep dkey ckey m (SmcWrote key bs False) = m"
  by (cases m; simp)

lemma writeOnce_mailbox:
  assumes "writeOnce E key bs s = (ok, s')"
  shows "mailbox dkey ckey s' = (if ok then mailWrite dkey ckey key bs (mailbox dkey ckey s)
                                 else mailbox dkey ckey s)"
proof -
  have "mailbox dkey ckey (s\<lparr>smcState := d\<rparr>) = mailbox dkey ckey s" for d
    by (rule mailbox_cong) simp
  with assms show ?thesis
    by (auto simp: writeOnce_def mailWrite_def split: prod.splits bool.splits)
qed

lemma writeTries_mailbox:
  "writeTries E key bs n s = (ok, s') \<Longrightarrow>
   mailbox dkey ckey s' = (if ok then mailWrite dkey ckey key bs (mailbox dkey ckey s) else mailbox dkey ckey s)"
proof (induction n arbitrary: s)
  case 0
  then show ?case by (simp add: writeOnce_mailbox)
next
  case (Suc n)
  obtain b s1 where w: "writeOnce E key bs s = (b, s1)" by fastforce
  from writeOnce_mailbox [OF w]
  have m: "mailbox dkey ckey s1 = (if b then mailWrite dkey ckey key bs (mailbox dkey ckey s) else mailbox dkey ckey s)" .
  show ?case
  proof (cases b)
    case True
    with Suc.prems w m show ?thesis by simp
  next
    case False
    with Suc.prems w have "writeTries E key bs n (IOSleep 700 s1) = (ok, s')" by simp
    from Suc.IH [OF this] m False show ?thesis by simp
  qed
qed

lemmas smcWriteKey_mailbox = writeTries_mailbox [where n = MAX_TRIES, folded smcWriteKey_def]

lemma readOnce_mailbox: "readOnce E key len s = (r, s') \<Longrightarrow> mailbox dkey ckey s' = mailbox dkey ckey s"
proof -
  have "mailbox dkey ckey (s\<lparr>smcState := d\<rparr>) = mailbox dkey ckey s" for d
    by (rule mailbox_cong) simp
  then show "readOnce E key len s = (r, s') \<Longrightarrow> mailbox dkey ckey s' = mailbox dkey ckey s"
    by (auto simp: readOnce_def split: prod.splits)
qed

lemma readTries_mailbox:
  "readTries E key len n s = (r, s') \<Longrightarrow> mailbox dkey ckey s' = mailbox dkey ckey s"
proof (induction n arbitrary: s)
  case 0
  then show ?case by (simp add: readOnce_mailbox)
next
  case (Suc n)
  obtain b s1 where w: "readOnce E key len s = (b, s1)" by fastforce
  show ?case
  proof (cases "b = None")
    case True
    with Suc.prems w have "readTries E key len n (IOSleep 700 s1) = (r, s')" by simp
    from Suc.IH [OF this] readOnce_mailbox [OF w] show ?thesis by simp
  next
    case False
    with Suc.prems w readOnce_mailbox [OF w] show ?thesis by auto
  qed
qed

lemmas smcReadKey_mailbox = readTries_mailbox [where n = MAX_TRIES, folded smcReadKey_def]

text \<open>A handler that leaves the log alone.\<close>

definition quietHandler :: "(notification \<Rightarrow> ('d, 'a) smcClient_scheme \<Rightarrow> ('d, 'a) smcClient_scheme) \<Rightarrow> bool" where
  "quietHandler handle \<longleftrightarrow> (\<forall>n s. smcLog (handle n s) = smcLog s \<and> smcState (handle n s) = smcState s)"

lemma quietHandler_fold:
  "quietHandler handle \<Longrightarrow> smcLog (fold handle ns s) = smcLog s \<and> smcState (fold handle ns s) = smcState s"
  by (induction ns arbitrary: s) (auto simp: quietHandler_def)

lemma commandSleep_mailbox:
  assumes "quietHandler handle" and "commandSleep E handle s = (w, s')"
  shows "mailbox dkey ckey s' = mailbox dkey ckey s"
proof -
  obtain ns d where p: "smcWait E (smcState s) = ((ns, w), d)"
      and s': "s' = smcEmit (SmcWaited w) (fold handle ns (s\<lparr>smcState := d\<rparr>))"
    using assms(2) by (auto simp: commandSleep_def split: prod.splits)
  have "smcLog (fold handle ns (s\<lparr>smcState := d\<rparr>)) = smcLog s"
    using quietHandler_fold [OF assms(1)] by simp
  then show ?thesis unfolding s' by (simp add: mailbox_def smcEmit_def)
qed

section \<open>The attempts\<close>

fun writesOf :: "smcEvent list \<Rightarrow> (smcKey \<times> u8 list) list" where
  "writesOf [] = []"
| "writesOf (SmcWrote key bs ok # es) = (key, bs) # writesOf es"
| "writesOf (e # es) = writesOf es"

lemma writesOf_append [simp]: "writesOf (xs @ ys) = writesOf xs @ writesOf ys"
  by (induction xs rule: writesOf.induct) auto

text \<open>A key is written at least once and at most six times; a write that fails was tried six times.\<close>

lemma writeTries_attempts:
  "writeTries E key bs n s = (ok, s') \<Longrightarrow>
   \<exists>k \<le> Suc n. 0 < k \<and> (ok \<or> k = Suc n) \<and>
     writesOf (smcLog s') = writesOf (smcLog s) @ replicate k (key, bs)"
proof (induction n arbitrary: s)
  case 0
  then show ?case
    by (auto simp: writeOnce_def smcEmit_def split: prod.splits intro!: exI [of _ 1])
next
  case (Suc n)
  obtain b s1 where w: "writeOnce E key bs s = (b, s1)" by fastforce
  then have l: "writesOf (smcLog s1) = writesOf (smcLog s) @ [(key, bs)]"
    by (auto simp: writeOnce_def smcEmit_def split: prod.splits)
  show ?case
  proof (cases b)
    case True
    with Suc.prems w l show ?thesis by (auto intro!: exI [of _ 1])
  next
    case False
    with Suc.prems w have "writeTries E key bs n (IOSleep 700 s1) = (ok, s')" by simp
    from Suc.IH [OF this] obtain k where k: "k \<le> Suc n" "0 < k" "ok \<or> k = Suc n"
        "writesOf (smcLog s') = writesOf (smcLog s1) @ replicate k (key, bs)"
      by (auto simp: smcEmit_def)
    show ?thesis
      by (rule exI [of _ "Suc k"]) (use k l in auto)
  qed
qed

lemmas smcWriteKey_attempts = writeTries_attempts [where n = MAX_TRIES, folded smcWriteKey_def]

end
