(* ===== verification/GasGauge.thy ===== *)
theory GasGauge
  imports SmcClient
begin

unbundle bit_operations_syntax

text \<open>
  Update of the firmware of the gas gauge (AppleGasGaugeUpdate.cpp, its user client): commands and
  blocks of data written to keys of the controller, each ended by a notification and a poll of the
  updater's status.  The numbers of the operations, of the status values and of the image types and the
  layout of the information structures come from headers outside the repository: they are parameters.
\<close>

section \<open>Operations, status and state\<close>

datatype ggOp =
    kGgFwUpdOpGetUpdStatus
  | kGgFwUpdOpStartImage
  | kGgFwUpdOpSetImageData
  | kGgFwUpdOpSetDone
  | kGgFwUpdOpSetImg4Len
  | kGgFwUpdOpSetImg4
  | kGgFwUpdOpSetImg4Sign1
  | kGgFwUpdOpSetImg4Sign2
  | kGgFwUpdOpSetDigDictLen
  | kGgFwUpdOpSetDigDict
  | kGgFwUpdOpStartCrypto
  | kGgFwUpdOpSetCertLen
  | kGgFwUpdOpSetCert
  | kGgFwUpdOpSetCertSign1
  | kGgFwUpdOpSetCertSign2
  | kGgFwUpdOpGetUid
  | kGgFwUpdOpGetNonce
  | kGgFwUpdOpStartUpdate
  | kGgFwUpdOpCommitImage
  | kGgFwUpdOpGetInfo
  | kGgFwUpdOpGetInfo2

datatype ggImageType = kGgFwUpdTypeFirmware | kGgFwUpdTypeConfiguration | kGgFwUpdTypeDnvd

datatype ggDataType =
    kGgFwUpdDataTypeCertificate
  | kGgFwUpdDataTypeImg4Manifest
  | kGgFwUpdDataTypeDigestDictionary
  | kGgFwUpdDataTypeDnvdImage
  | kGgFwUpdDataTypeConfigImage
  | kGgFwUpdDataTypeFirmwareImage
  | kGgFwUpdDataTypeMax

text \<open>The bits of \<open>updateImage\<close>.\<close>

definition kGgFwUpdateTypeFirmware :: u8 where "kGgFwUpdateTypeFirmware = 1"
definition kGgFwUpdateTypeConfiguration :: u8 where "kGgFwUpdateTypeConfiguration = 2"
definition kGgFwUpdateTypeDnvd :: u8 where "kGgFwUpdateTypeDnvd = 4"

text \<open>\<open>struct gg_fw_update_info\<close> and \<open>struct gg_fw_update_info2\<close>, as the driver reads them.\<close>

record ggInfo =
  fw_version :: u32
  config_version :: u32
  dnvd1_version :: u32
  dnvd2_version :: u32
  crypto_version :: u32
  chip_id :: u32
  device_type :: u32
  info_chemistry :: u32

record ggInfo2 =
  hw_id :: u32
  updater_status :: "16 word"
  is_two_stage_update :: bool
  set_ids_supported :: "u8 list"
  set_ids :: "u8 list"

record 'd ggEnv = "'d smcEnv" +
  opByte :: "ggOp \<Rightarrow> u8"
  typeByte :: "ggImageType \<Rightarrow> u8"
  kRegUpdaterStatusBusy :: nat
  kRegUpdaterStatusReady :: nat
  kRegUpdaterStatusSuccess :: nat
  kRegUpdaterStatusReset :: nat
  infoOf :: "u8 list \<Rightarrow> ggInfo"
  info2Of :: "u8 list \<Rightarrow> ggInfo2"

record ggUserClientInfo =
  fwVersion :: u32
  configVersion :: u32
  dnvd1Version :: u32
  dnvd2Version :: u32
  cryptoVersion :: u32
  chipId :: u32
  deviceType :: u32
  chemistry :: u32
  hwId :: u32
  updaterStatus :: "16 word"
  setIdsSupported :: "u8 list"
  setIds :: "u8 list"
  isTwoStageSupported :: bool

record ggOData =
  nonce :: "u8 list"
  batteryId :: u32

text \<open>\<open>updateImage\<close> is the first byte of the union with \<open>signature\<close>.\<close>

record ggIData =
  signature :: "u8 list"
  data_length :: nat
  data_type :: ggDataType
  data_bytes :: "u8 list"

text \<open>The driver's own state: the flag of the last information read and the properties it publishes.\<close>

record 'd gauge = "'d smcClient" +
  ggTwoStageUpdate :: bool
  commErrorProperty :: "u8 option"
  updaterStatusProperty :: "u8 option"
  batteryIdProperty :: "u32 option"

definition GG_SMCTRANSFER_LEN :: nat where
  "GG_SMCTRANSFER_LEN = 32"

text \<open>A little-endian number of 16 bits, written; data filled to the size of a block.\<close>

definition le16Bytes :: "nat \<Rightarrow> u8 list" where
  "le16Bytes n = [of_nat n, of_nat (n div 256)]"

definition zeroed :: "u8 list \<Rightarrow> u8 list" where
  "zeroed xs = xs @ replicate (GG_SMCTRANSFER_LEN - length xs) 0"

section \<open>Notifications\<close>

definition clearErrorReports :: "'d gauge \<Rightarrow> 'd gauge" where
  "clearErrorReports s = s\<lparr>commErrorProperty := None, updaterStatusProperty := None\<rparr>"

text \<open>The notification is an array of three numbers.\<close>

definition ggNotifierHandler :: "('d, 'e) ggEnv_scheme \<Rightarrow> notification \<Rightarrow> 'd gauge \<Rightarrow> 'd gauge" where
  "ggNotifierHandler E n s =
     (let s1 = s\<lparr>notified := n\<rparr>;
          s2 = (if nI2c n \<noteq> 0 then s1\<lparr>commErrorProperty := Some (nI2c n)\<rparr> else s1)
      in if nChip n > 1 \<and> unat (nChip n) \<noteq> kRegUpdaterStatusSuccess E
         then s2\<lparr>updaterStatusProperty := Some (nChip n)\<rparr> else s2)"

definition checkOperationStatus :: "('d, 'e) ggEnv_scheme \<Rightarrow> u8 \<Rightarrow> 'd gauge \<Rightarrow> IOReturn" where
  "checkOperationStatus E op s =
     (if nOp (notified s) \<noteq> op then kIOReturnIOError
      else if nI2c (notified s) \<noteq> 0 then kIOReturnIOError
      else if unat (nChip (notified s)) > kRegUpdaterStatusReady E \<and>
              unat (nChip (notified s)) \<noteq> kRegUpdaterStatusSuccess E then kIOReturnIOError
      else kIOReturnSuccess)"

section \<open>Commands\<close>

definition passData :: "('d, 'e) ggEnv_scheme \<Rightarrow> u8 list \<Rightarrow> 'd gauge \<Rightarrow> IOReturn \<times> 'd gauge" where
  "passData E buffer s =
     (case smcWriteKey E BFUD buffer s of
        (ok, s1) \<Rightarrow> (if ok then kIOReturnSuccess else kIOReturnIOError, s1))"

text \<open>The command is written, its notification awaited and checked; a timeout is ignored.\<close>

definition setCommand :: "('d, 'e) ggEnv_scheme \<Rightarrow> u8 \<Rightarrow> 'd gauge \<Rightarrow> IOReturn \<times> 'd gauge" where
  "setCommand E op s =
     (case smcWriteKey E BFUC [op] s of
        (ok, s1) \<Rightarrow>
          if \<not> ok then (kIOReturnIOError, s1)
          else case commandSleep E (ggNotifierHandler E) s1 of
            (awakened, s2) \<Rightarrow> (checkOperationStatus E op s2, s2))"

text \<open>One round of the poll: the status, unchanged where the round gives none, or the failure.\<close>

definition pollRound ::
    "('d, 'e) ggEnv_scheme \<Rightarrow> nat \<Rightarrow> 'd gauge \<Rightarrow> (IOReturn \<times> nat) \<times> 'd gauge" where
  "pollRound E status s =
     (let op = opByte E kGgFwUpdOpGetUpdStatus in
      case smcWriteKey E BFUC [op] s of
        (ok, s1) \<Rightarrow>
          if \<not> ok then ((kIOReturnIOError, status), s1)
          else case commandSleep E (ggNotifierHandler E) s1 of
            (awakened, s2) \<Rightarrow>
              if \<not> awakened then ((kIOReturnSuccess, status), s2)
              else if checkOperationStatus E op s2 \<noteq> kIOReturnSuccess then ((kIOReturnSuccess, status), s2)
              else case smcReadKey E BFUD GG_SMCTRANSFER_LEN s2 of
                (None, s3) \<Rightarrow> ((kIOReturnIOError, status), s3)
              | (Some buffer, s3) \<Rightarrow> ((kIOReturnSuccess, le16 buffer), s3))"

text \<open>The loop with \<open>n\<close> rounds left after this one.\<close>

fun pollLoop ::
    "('d, 'e) ggEnv_scheme \<Rightarrow> nat \<Rightarrow> nat \<Rightarrow> nat \<Rightarrow> 'd gauge \<Rightarrow> (IOReturn \<times> nat) \<times> 'd gauge" where
  "pollLoop E retry_ms 0 status s = pollRound E status s"
| "pollLoop E retry_ms (Suc n) status s =
     (case pollRound E status s of
        ((r, status1), s1) \<Rightarrow>
          if r \<noteq> kIOReturnSuccess then ((r, status1), s1)
          else if status1 = kRegUpdaterStatusBusy E then pollLoop E retry_ms n status1 (IOSleep retry_ms s1)
          else ((r, status1), s1))"

definition pollUpdaterStatus ::
    "('d, 'e) ggEnv_scheme \<Rightarrow> nat \<Rightarrow> nat \<Rightarrow> 'd gauge \<Rightarrow> (IOReturn \<times> nat) \<times> 'd gauge" where
  "pollUpdaterStatus E timeout_ms retry_ms s =
     pollLoop E retry_ms (timeout_ms div retry_ms + 1) (kRegUpdaterStatusBusy E) s"

text \<open>The poll after a command, whose result has to be \<open>status\<close>.\<close>

definition awaitStatus ::
    "('d, 'e) ggEnv_scheme \<Rightarrow> nat \<Rightarrow> nat \<Rightarrow> nat \<Rightarrow> 'd gauge \<Rightarrow> IOReturn \<times> 'd gauge" where
  "awaitStatus E timeout_ms retry_ms status s =
     (case pollUpdaterStatus E timeout_ms retry_ms s of
        ((r, polled), s1) \<Rightarrow>
          if r \<noteq> kIOReturnSuccess then (r, s1)
          else (if polled \<noteq> status then kIOReturnTimeout else kIOReturnSuccess, s1))"

section \<open>The parts of a transfer\<close>

definition writeDataLengthGated ::
    "('d, 'e) ggEnv_scheme \<Rightarrow> nat \<Rightarrow> u8 \<Rightarrow> nat \<Rightarrow> nat \<Rightarrow> nat \<Rightarrow> nat \<Rightarrow> 'd gauge \<Rightarrow> IOReturn \<times> 'd gauge" where
  "writeDataLengthGated E len op typical_ms timeout_ms retry_ms status s =
     andThen (passData E (zeroed (le16Bytes len)) s)
      (\<lambda>s1. andThen (setCommand E op s1)
      (\<lambda>s2. awaitStatus E timeout_ms retry_ms status (IOSleep typical_ms s2)))"

definition writeDataSignatureGated ::
    "('d, 'e) ggEnv_scheme \<Rightarrow> u8 list \<Rightarrow> u8 \<Rightarrow> u8 \<Rightarrow> 'd gauge \<Rightarrow> IOReturn \<times> 'd gauge" where
  "writeDataSignatureGated E sig op_sign1 op_sign2 s =
     andThen (passData E (memRange sig 0 GG_SMCTRANSFER_LEN) s)
      (\<lambda>s1. andThen (setCommand E op_sign1 s1)
      (\<lambda>s2. andThen (awaitStatus E 700 80 (kRegUpdaterStatusReady E) s2)
      (\<lambda>s3. andThen (passData E (memRange sig 32 GG_SMCTRANSFER_LEN) s3)
      (\<lambda>s4. andThen (setCommand E op_sign2 s4)
      (\<lambda>s5. awaitStatus E 700 80 (kRegUpdaterStatusReady E) s5)))))"

text \<open>Type, typical duration, limit and interval of the start of an image.\<close>

definition startImageParameters :: "ggDataType \<Rightarrow> (ggImageType \<times> nat \<times> nat \<times> nat) option" where
  "startImageParameters type =
     (case type of
        kGgFwUpdDataTypeFirmwareImage \<Rightarrow> Some (kGgFwUpdTypeFirmware, 220, 1500, 700)
      | kGgFwUpdDataTypeDnvdImage \<Rightarrow> Some (kGgFwUpdTypeDnvd, 40, 1000, 70)
      | kGgFwUpdDataTypeConfigImage \<Rightarrow> Some (kGgFwUpdTypeConfiguration, 40, 1000, 70)
      | _ \<Rightarrow> None)"

definition startImageGated :: "('d, 'e) ggEnv_scheme \<Rightarrow> ggDataType \<Rightarrow> 'd gauge \<Rightarrow> IOReturn \<times> 'd gauge" where
  "startImageGated E type s =
     (case startImageParameters type of
        None \<Rightarrow> (kIOReturnBadArgument, s)
      | Some (imageType, typical_ms, timeout_ms, retry_ms) \<Rightarrow>
          andThen (passData E (zeroed [typeByte E imageType]) s)
           (\<lambda>s1. andThen (setCommand E (opByte E kGgFwUpdOpStartImage) s1)
           (\<lambda>s2. awaitStatus E timeout_ms retry_ms (kRegUpdaterStatusReady E) (IOSleep typical_ms s2))))"

function writeDataDataGated ::
    "('d, 'e) ggEnv_scheme \<Rightarrow> u8 list \<Rightarrow> nat \<Rightarrow> nat \<Rightarrow> u8 \<Rightarrow> 'd gauge \<Rightarrow> IOReturn \<times> 'd gauge" where
  "writeDataDataGated E bytes offset data_remaining op s =
     (if data_remaining = 0 then (kIOReturnSuccess, s)
      else
        let copy_size = min GG_SMCTRANSFER_LEN data_remaining in
        andThen (passData E (zeroed (memRange bytes offset copy_size)) s)
         (\<lambda>s1. andThen (setCommand E op s1)
         (\<lambda>s2. andThen (awaitStatus E 700 70 (kRegUpdaterStatusReady E) (IOSleep 15 s2))
         (\<lambda>s3. writeDataDataGated E bytes (offset + copy_size) (data_remaining - copy_size) op s3))))"
  by pat_completeness auto
termination
  by (relation "measure (\<lambda>(E, bytes, offset, data_remaining, op, s). data_remaining)")
     (auto simp: GG_SMCTRANSFER_LEN_def)

declare writeDataDataGated.simps [simp del]

definition cryptoTypes :: "('d, 'e) ggEnv_scheme \<Rightarrow> u8 \<Rightarrow> u8" where
  "cryptoTypes E images =
     (let t1 = (if images AND kGgFwUpdateTypeFirmware \<noteq> 0 then typeByte E kGgFwUpdTypeFirmware else 0);
          t2 = (if images AND kGgFwUpdateTypeConfiguration \<noteq> 0
                then t1 OR typeByte E kGgFwUpdTypeConfiguration else t1)
      in if images AND kGgFwUpdateTypeDnvd \<noteq> 0 then t2 OR typeByte E kGgFwUpdTypeDnvd else t2)"

definition startCryptoGated :: "('d, 'e) ggEnv_scheme \<Rightarrow> u8 \<Rightarrow> 'd gauge \<Rightarrow> IOReturn \<times> 'd gauge" where
  "startCryptoGated E images s =
     (if cryptoTypes E images = 0 then (kIOReturnBadArgument, s)
      else
        andThen (passData E (zeroed [cryptoTypes E images]) s)
         (\<lambda>s1. andThen (setCommand E (opByte E kGgFwUpdOpStartCrypto) s1)
         (\<lambda>s2. awaitStatus E 27000 5000 (kRegUpdaterStatusReady E) (IOSleep 12000 s2))))"

section \<open>A transfer\<close>

record ggOps =
  op_length :: u8
  op_data :: u8
  op_sign1 :: u8
  op_sign2 :: u8

definition isImage :: "ggDataType \<Rightarrow> bool" where
  "isImage type \<longleftrightarrow>
     type \<in> {kGgFwUpdDataTypeDnvdImage, kGgFwUpdDataTypeConfigImage, kGgFwUpdDataTypeFirmwareImage}"

text \<open>Typical duration, limit, interval and final status of the end of an image.\<close>

definition imageEnd :: "('d, 'e) ggEnv_scheme \<Rightarrow> bool \<Rightarrow> ggDataType \<Rightarrow> (nat \<times> nat \<times> nat \<times> nat) option" where
  "imageEnd E twoStage type =
     (case type of
        kGgFwUpdDataTypeDnvdImage \<Rightarrow>
          Some (500, 2000, 700, if twoStage then kRegUpdaterStatusReady E else kRegUpdaterStatusSuccess E)
      | kGgFwUpdDataTypeConfigImage \<Rightarrow>
          Some (1500, 10000, 700, if twoStage then kRegUpdaterStatusReady E else kRegUpdaterStatusReset E)
      | kGgFwUpdDataTypeFirmwareImage \<Rightarrow>
          Some (3000, 16000, 1000, if twoStage then kRegUpdaterStatusReady E else kRegUpdaterStatusReset E)
      | _ \<Rightarrow> None)"

text \<open>The status in which the updater takes the data.\<close>

definition updaterAccepts :: "('d, 'e) ggEnv_scheme \<Rightarrow> ggDataType \<Rightarrow> nat \<Rightarrow> bool" where
  "updaterAccepts E type status \<longleftrightarrow>
     (if isImage type
      then status = kRegUpdaterStatusReady E \<or> status = kRegUpdaterStatusSuccess E \<or> status = kRegUpdaterStatusReset E
      else status = kRegUpdaterStatusReady E)"

definition transferBegin ::
    "('d, 'e) ggEnv_scheme \<Rightarrow> ggIData \<Rightarrow> ggOps \<Rightarrow> 'd gauge \<Rightarrow> IOReturn \<times> 'd gauge" where
  "transferBegin E d ops s =
     (if isImage (data_type d) then startImageGated E (data_type d) s
      else writeDataLengthGated E (data_length d mod 65536) (op_length ops) 15 700 100 (kRegUpdaterStatusReady E) s)"

definition transferEnd ::
    "('d, 'e) ggEnv_scheme \<Rightarrow> ggIData \<Rightarrow> ggOps \<Rightarrow> 'd gauge \<Rightarrow> IOReturn \<times> 'd gauge" where
  "transferEnd E d ops s =
     (if isImage (data_type d) then
        (case imageEnd E (ggTwoStageUpdate s) (data_type d) of
           None \<Rightarrow> (kIOReturnInternalError, s)
         | Some (typical_ms, timeout_ms, retry_ms, status) \<Rightarrow>
             writeDataLengthGated E ((data_length d + 31) div 32 mod 65536) (op_length ops)
               typical_ms timeout_ms retry_ms status s)
      else if data_type d = kGgFwUpdDataTypeDigestDictionary then startCryptoGated E (memAt (signature d) 0) s
      else writeDataSignatureGated E (signature d) (op_sign1 ops) (op_sign2 ops) s)"

definition writeDataGated ::
    "('d, 'e) ggEnv_scheme \<Rightarrow> ggIData \<Rightarrow> ggOps \<Rightarrow> 'd gauge \<Rightarrow> IOReturn \<times> 'd gauge" where
  "writeDataGated E d ops s =
     (case pollUpdaterStatus E 2800 700 s of
        ((r, status), s0) \<Rightarrow>
          if r \<noteq> kIOReturnSuccess then (r, s0)
          else if \<not> updaterAccepts E (data_type d) status then (kIOReturnInternalError, s0)
          else
            andThen (transferBegin E d ops s0)
             (\<lambda>s1. andThen (writeDataDataGated E (data_bytes d) 0 (data_length d) (op_data ops) s1)
             (\<lambda>s2. andThen (transferEnd E d ops s2)
             (\<lambda>s3. (kIOReturnSuccess, clearErrorReports s3)))))"

definition writeImage :: "('d, 'e) ggEnv_scheme \<Rightarrow> ggIData \<Rightarrow> 'd gauge \<Rightarrow> IOReturn \<times> 'd gauge" where
  "writeImage E d s =
     writeDataGated E d \<lparr>op_length = opByte E kGgFwUpdOpSetDone, op_data = opByte E kGgFwUpdOpSetImageData,
       op_sign1 = 0, op_sign2 = 0\<rparr> s"

definition writeImg4Manifest :: "('d, 'e) ggEnv_scheme \<Rightarrow> ggIData \<Rightarrow> 'd gauge \<Rightarrow> IOReturn \<times> 'd gauge" where
  "writeImg4Manifest E d s =
     writeDataGated E d \<lparr>op_length = opByte E kGgFwUpdOpSetImg4Len, op_data = opByte E kGgFwUpdOpSetImg4,
       op_sign1 = opByte E kGgFwUpdOpSetImg4Sign1, op_sign2 = opByte E kGgFwUpdOpSetImg4Sign2\<rparr> s"

definition writeDigestDict :: "('d, 'e) ggEnv_scheme \<Rightarrow> ggIData \<Rightarrow> 'd gauge \<Rightarrow> IOReturn \<times> 'd gauge" where
  "writeDigestDict E d s =
     (if memAt (signature d) 0 = 0 then (kIOReturnBadArgument, s)
      else writeDataGated E d \<lparr>op_length = opByte E kGgFwUpdOpSetDigDictLen, op_data = opByte E kGgFwUpdOpSetDigDict,
             op_sign1 = 0, op_sign2 = 0\<rparr> s)"

definition writeCertificate :: "('d, 'e) ggEnv_scheme \<Rightarrow> ggIData \<Rightarrow> 'd gauge \<Rightarrow> IOReturn \<times> 'd gauge" where
  "writeCertificate E d s =
     writeDataGated E d \<lparr>op_length = opByte E kGgFwUpdOpSetCertLen, op_data = opByte E kGgFwUpdOpSetCert,
       op_sign1 = opByte E kGgFwUpdOpSetCertSign1, op_sign2 = opByte E kGgFwUpdOpSetCertSign2\<rparr> s"

definition sendData :: "('d, 'e) ggEnv_scheme \<Rightarrow> ggIData \<Rightarrow> 'd gauge \<Rightarrow> IOReturn \<times> 'd gauge" where
  "sendData E d s =
     (case data_type d of
        kGgFwUpdDataTypeCertificate \<Rightarrow> writeCertificate E d s
      | kGgFwUpdDataTypeImg4Manifest \<Rightarrow> writeImg4Manifest E d s
      | kGgFwUpdDataTypeDigestDictionary \<Rightarrow> writeDigestDict E d s
      | kGgFwUpdDataTypeDnvdImage \<Rightarrow> writeImage E d s
      | kGgFwUpdDataTypeConfigImage \<Rightarrow> writeImage E d s
      | kGgFwUpdDataTypeFirmwareImage \<Rightarrow> writeImage E d s
      | kGgFwUpdDataTypeMax \<Rightarrow> (kIOReturnBadArgument, s))"

section \<open>Information, start and commit\<close>

definition readData :: "('d, 'e) ggEnv_scheme \<Rightarrow> 'd gauge \<Rightarrow> (IOReturn \<times> u8 list) \<times> 'd gauge" where
  "readData E s =
     (case smcReadKey E BFUD GG_SMCTRANSFER_LEN s of
        (None, s1) \<Rightarrow> ((kIOReturnIOError, []), s1)
      | (Some buffer, s1) \<Rightarrow> ((kIOReturnSuccess, buffer), s1))"

text \<open>The results go to the memory of the caller: \<open>None\<close> is a null pointer.\<close>

definition le32 :: "u8 list \<Rightarrow> u32" where
  "le32 xs = of_nat (unat (memAt xs 0) + 256 * unat (memAt xs 1) + 65536 * unat (memAt xs 2)
                     + 16777216 * unat (memAt xs 3))"

definition getBatteryIdGated :: "('d, 'e) ggEnv_scheme \<Rightarrow> 'd gauge \<Rightarrow> (IOReturn \<times> u32 option) \<times> 'd gauge" where
  "getBatteryIdGated E s =
     (case setCommand E (opByte E kGgFwUpdOpGetUid) s of
        (r, s1) \<Rightarrow>
          if r \<noteq> kIOReturnSuccess then ((r, None), s1)
          else case readData E s1 of
            ((r2, buffer), s2) \<Rightarrow>
              if r2 \<noteq> kIOReturnSuccess then ((r2, None), s2)
              else ((kIOReturnSuccess, Some (le32 buffer)), s2\<lparr>batteryIdProperty := Some (le32 buffer)\<rparr>))"

definition getChallengeDataGated ::
    "('d, 'e) ggEnv_scheme \<Rightarrow> 'd gauge \<Rightarrow> (IOReturn \<times> u8 list option) \<times> 'd gauge" where
  "getChallengeDataGated E s =
     (case setCommand E (opByte E kGgFwUpdOpGetNonce) s of
        (r, s1) \<Rightarrow>
          if r \<noteq> kIOReturnSuccess then ((r, None), s1)
          else case readData E s1 of
            ((r2, buffer), s2) \<Rightarrow>
              if r2 \<noteq> kIOReturnSuccess then ((r2, None), s2)
              else ((kIOReturnSuccess, Some (memRange buffer 0 GG_SMCTRANSFER_LEN)), s2))"

definition initUpdateGated :: "('d, 'e) ggEnv_scheme \<Rightarrow> 'd gauge \<Rightarrow> IOReturn \<times> 'd gauge" where
  "initUpdateGated E s =
     andThen (setCommand E (opByte E kGgFwUpdOpStartUpdate) s)
      (\<lambda>s1. awaitStatus E 1500 70 (kRegUpdaterStatusReady E) (IOSleep 40 s1))"

definition startUpdateGated ::
    "('d, 'e) ggEnv_scheme \<Rightarrow> ggOData option \<Rightarrow> 'd gauge \<Rightarrow> (IOReturn \<times> ggOData option) \<times> 'd gauge" where
  "startUpdateGated E out s =
     (case out of
        None \<Rightarrow> ((kIOReturnBadArgument, None), s)
      | Some o1 \<Rightarrow>
          case initUpdateGated E (clearErrorReports s) of
            (r, s1) \<Rightarrow>
              if r \<noteq> kIOReturnSuccess then ((r, Some o1), s1)
              else case getBatteryIdGated E s1 of
                ((r2, bid), s2) \<Rightarrow>
                  let o2 = (case bid of Some x \<Rightarrow> o1\<lparr>batteryId := x\<rparr> | None \<Rightarrow> o1) in
                  if r2 \<noteq> kIOReturnSuccess then ((r2, Some o2), s2)
                  else case getChallengeDataGated E s2 of
                    ((r3, ch), s3) \<Rightarrow>
                      ((r3, Some (case ch of Some x \<Rightarrow> o2\<lparr>nonce := x\<rparr> | None \<Rightarrow> o2)), s3))"

definition commitImageGated :: "('d, 'e) ggEnv_scheme \<Rightarrow> 'd gauge \<Rightarrow> IOReturn \<times> 'd gauge" where
  "commitImageGated E s =
     andThen (setCommand E (opByte E kGgFwUpdOpCommitImage) s)
      (\<lambda>s1. awaitStatus E 7000 100 (kRegUpdaterStatusSuccess E) (IOSleep 3000 s1))"

definition withInfo :: "ggInfo \<Rightarrow> ggUserClientInfo \<Rightarrow> ggUserClientInfo" where
  "withInfo i d = d\<lparr>fwVersion := fw_version i, configVersion := config_version i,
     dnvd1Version := dnvd1_version i, dnvd2Version := dnvd2_version i, cryptoVersion := crypto_version i,
     chipId := chip_id i, deviceType := device_type i, chemistry := info_chemistry i\<rparr>"

definition withInfo2 :: "ggInfo2 \<Rightarrow> ggUserClientInfo \<Rightarrow> ggUserClientInfo" where
  "withInfo2 i d = d\<lparr>hwId := hw_id i, updaterStatus := updater_status i,
     isTwoStageSupported := is_two_stage_update i, setIdsSupported := take 12 (set_ids_supported i),
     setIds := take 12 (set_ids i)\<rparr>"

definition getInfoGated ::
    "('d, 'e) ggEnv_scheme \<Rightarrow> ggUserClientInfo option \<Rightarrow> 'd gauge
     \<Rightarrow> (IOReturn \<times> ggUserClientInfo option) \<times> 'd gauge" where
  "getInfoGated E out s =
     (case out of
        None \<Rightarrow> ((kIOReturnBadArgument, None), s)
      | Some d0 \<Rightarrow>
          case setCommand E (opByte E kGgFwUpdOpGetInfo) s of
            (r, s1) \<Rightarrow>
              if r \<noteq> kIOReturnSuccess then ((r, Some d0), s1)
              else case readData E s1 of
                ((r2, buffer), s2) \<Rightarrow>
                  if r2 \<noteq> kIOReturnSuccess then ((r2, Some d0), s2)
                  else
                    let d1 = withInfo (infoOf E buffer) d0 in
                    case setCommand E (opByte E kGgFwUpdOpGetInfo2) s2 of
                      (r3, s3) \<Rightarrow>
                        if r3 \<noteq> kIOReturnSuccess then ((r3, Some d1), s3)
                        else case readData E s3 of
                          ((r4, buffer2), s4) \<Rightarrow>
                            if r4 \<noteq> kIOReturnSuccess then ((r4, Some d1), s4)
                            else ((kIOReturnSuccess, Some (withInfo2 (info2Of E buffer2) d1)),
                                  s4\<lparr>ggTwoStageUpdate := is_two_stage_update (info2Of E buffer2)\<rparr>))"

section \<open>The user client\<close>

text \<open>The memory that a client passes: the structure of 80 bytes, then the data.\<close>

definition sizeofIData :: nat where
  "sizeofIData = 80"

definition le64 :: "u8 list \<Rightarrow> nat \<Rightarrow> nat" where
  "le64 xs off = foldr (\<lambda>i n. unat (memAt xs (off + i)) + 256 * n) [0..<8] 0"

definition dataTypeOf :: "nat \<Rightarrow> ggDataType" where
  "dataTypeOf n =
     (if n = 0 then kGgFwUpdDataTypeCertificate
      else if n = 1 then kGgFwUpdDataTypeImg4Manifest
      else if n = 2 then kGgFwUpdDataTypeDigestDictionary
      else if n = 3 then kGgFwUpdDataTypeDnvdImage
      else if n = 4 then kGgFwUpdDataTypeConfigImage
      else if n = 5 then kGgFwUpdDataTypeFirmwareImage
      else kGgFwUpdDataTypeMax)"

definition iDataOf :: "u8 list \<Rightarrow> ggIData" where
  "iDataOf mem =
     \<lparr>signature = memRange mem 0 64, data_length = le64 mem 64, data_type = dataTypeOf (le64 mem 72),
      data_bytes = drop sizeofIData mem\<rparr>"

definition argsValid :: "u8 list option \<Rightarrow> nat \<Rightarrow> u8 list option \<Rightarrow> bool" where
  "argsValid struct_input len md =
     (if len = 0 \<and> md = None then False
      else if struct_input = None \<and> md = None then False
      else if md = None \<and> struct_input \<noteq> None \<and>
              (len \<le> sizeofIData \<or> data_length (iDataOf (the struct_input)) = 0) then False
      else if len = 0 \<and> md \<noteq> None \<and> length (the md) \<le> sizeofIData then False
      else True)"

text \<open>
  \<open>struct_input\<close> and \<open>len\<close> are the structure and its size, \<open>md\<close> the memory behind the descriptor and
  \<open>mapped\<close> whether it can be mapped.  The difference of the lengths is unsigned, of 64 bits.
\<close>

definition extSendData ::
    "('d, 'e) ggEnv_scheme \<Rightarrow> u8 list option \<Rightarrow> nat \<Rightarrow> u8 list option \<Rightarrow> bool \<Rightarrow> 'd gauge
     \<Rightarrow> IOReturn \<times> 'd gauge" where
  "extSendData E struct_input len md mapped s =
     (if \<not> argsValid struct_input len md then (kIOReturnBadArgument, s)
      else if md \<noteq> None \<and> \<not> mapped then (kIOReturnNoMemory, s)
      else
        let inp = (if md \<noteq> None then md else struct_input);
            inputLength = (if md \<noteq> None then length (the md) else len)
        in case inp of
             None \<Rightarrow> (kIOReturnNoMemory, s)
           | Some mem \<Rightarrow>
               if data_type (iDataOf mem) = kGgFwUpdDataTypeMax then (kIOReturnBadArgument, s)
               else if data_length (iDataOf mem) > unat (of_nat inputLength - of_nat sizeofIData :: u64)
               then (kIOReturnBadArgument, s)
               else sendData E (iDataOf mem) s)"

end
