(* ===== verification/GasGaugeLemmas.thy ===== *)
theory GasGaugeLemmas
  imports GasGauge
begin

unbundle bit_operations_syntax

text \<open>
  The updater as the gas gauge sees it: the messages that the controller has taken, polls apart, and
  the messages that a transfer consists of.  Every operation sends a prefix of its messages, and all
  of them when it succeeds.
\<close>

section \<open>Messages\<close>

type_synonym message = "u8 \<times> u8 list"

definition register :: "'d gauge \<Rightarrow> u8 list" where
  "register s = fst (mailbox BFUD BFUC s)"

definition messages :: "('d, 'e) ggEnv_scheme \<Rightarrow> 'd gauge \<Rightarrow> message list" where
  "messages E s = filter (\<lambda>m. fst m \<noteq> opByte E kGgFwUpdOpGetUpdStatus) (snd (mailbox BFUD BFUC s))"

text \<open>The messages \<open>P\<close> have been sent from one state to the other: all of them if the result is success.\<close>

definition sends ::
    "('d, 'e) ggEnv_scheme \<Rightarrow> message list \<Rightarrow> 'd gauge \<Rightarrow> IOReturn \<times> 'd gauge \<Rightarrow> bool" where
  "sends E P s p \<longleftrightarrow>
     (\<exists>n. n \<le> length P \<and> messages E (snd p) = messages E s @ take n P \<and>
          (fst p = kIOReturnSuccess \<longrightarrow> n = length P))"

lemma sends_nil: "messages E s' = messages E s \<Longrightarrow> sends E [] s (r, s')"
  by (simp add: sends_def)

lemma sends_none: "messages E s' = messages E s \<Longrightarrow> r \<noteq> kIOReturnSuccess \<Longrightarrow> sends E P s (r, s')"
  by (auto simp: sends_def intro: exI [of _ 0])

lemma sends_from: "messages E t = messages E s \<Longrightarrow> sends E P t p \<Longrightarrow> sends E P s p"
  by (simp add: sends_def)

lemma sends_andThen:
  assumes p: "sends E P s p"
    and f: "\<And>s1. fst p = kIOReturnSuccess \<Longrightarrow> snd p = s1 \<Longrightarrow> sends E Q s1 (f s1)"
  shows "sends E (P @ Q) s (andThen p f)"
proof (cases "fst p = kIOReturnSuccess")
  case True
  then have e: "andThen p f = f (snd p)" by (cases p) (simp add: andThen_def)
  have m: "messages E (snd p) = messages E s @ P" using p True by (auto simp: sends_def)
  obtain n where n: "n \<le> length Q" "messages E (snd (f (snd p))) = messages E (snd p) @ take n Q"
      "fst (f (snd p)) = kIOReturnSuccess \<longrightarrow> n = length Q"
    using f [OF True refl] by (auto simp: sends_def)
  then show ?thesis unfolding e sends_def m
    by (intro exI [of _ "length P + n"]) simp
next
  case False
  then have e: "andThen p f = p" by (cases p) (simp add: andThen_def)
  obtain n where n: "n \<le> length P" "messages E (snd p) = messages E s @ take n P"
    using p by (auto simp: sends_def)
  show ?thesis unfolding e sends_def
    by (rule exI [of _ n]) (use n False in simp)
qed

lemma sends_andThen_nil:
  assumes "sends E P s p"
    and "\<And>s1. fst p = kIOReturnSuccess \<Longrightarrow> snd p = s1 \<Longrightarrow> sends E [] s1 (f s1)"
  shows "sends E P s (andThen p f)"
  using sends_andThen [of E P s p "[]" f] assms by simp

lemma sends_nil_andThen:
  assumes "sends E [] s p"
    and "\<And>s1. fst p = kIOReturnSuccess \<Longrightarrow> snd p = s1 \<Longrightarrow> sends E Q s1 (f s1)"
  shows "sends E Q s (andThen p f)"
  using sends_andThen [of E "[]" s p Q f] assms by simp

text \<open>A state that differs in the fields of the driver alone.\<close>

lemma messages_cong: "smcLog s = smcLog t \<Longrightarrow> messages E s = messages E t"
  by (simp add: messages_def mailbox_cong [of s t])

lemma messages_sleep [simp]: "messages E (IOSleep n s) = messages E s"
  by (simp add: messages_def)

lemma register_sleep [simp]: "register (IOSleep n s) = register s"
  by (simp add: register_def)

lemma messages_clear [simp]: "messages E (clearErrorReports s) = messages E s"
  by (rule messages_cong) (simp add: clearErrorReports_def)

lemma quiet_ggNotifierHandler: "quietHandler (ggNotifierHandler E)"
  by (auto simp: quietHandler_def ggNotifierHandler_def Let_def)

lemma mailWrite_data: "mailWrite BFUD BFUC BFUD bs m = (bs, snd m)"
  by (cases m) (simp add: mailWrite_def)

lemma mailWrite_command: "mailWrite BFUD BFUC BFUC [op] m = (fst m, snd m @ [(op, fst m)])"
  by (cases m) (simp add: mailWrite_def)

section \<open>The single steps\<close>

lemma passData_register:
  "passData E b s = (kIOReturnSuccess, s') \<Longrightarrow> register s' = b"
  by (auto simp: passData_def register_def mailWrite_data split: prod.splits if_splits
           dest!: smcWriteKey_mailbox [where dkey = BFUD and ckey = BFUC])

lemma passData_messages: "messages E (snd (passData E b s)) = messages E s"
proof -
  obtain ok s1 where w: "smcWriteKey E BFUD b s = (ok, s1)" by fastforce
  from smcWriteKey_mailbox [OF w, of BFUD BFUC] show ?thesis
    by (simp add: passData_def w messages_def mailWrite_data)
qed

lemma passData_sends: "sends E [] s (passData E b s)"
  using passData_messages [of E b s] by (simp add: sends_def)

lemma setCommand_messages:
  assumes op: "op \<noteq> opByte E kGgFwUpdOpGetUpdStatus"
  shows "sends E [(op, register s)] s (setCommand E op s)"
proof -
  obtain ok s1 where w: "smcWriteKey E BFUC [op] s = (ok, s1)" by fastforce
  note m = smcWriteKey_mailbox [OF w, of BFUD BFUC, unfolded mailWrite_command]
  show ?thesis
  proof (cases ok)
    case False
    then have "messages E s1 = messages E s" using m by (simp add: messages_def)
    then show ?thesis by (simp add: setCommand_def w False sends_none)
  next
    case True
    obtain a s2 where c: "commandSleep E (ggNotifierHandler E) s1 = (a, s2)" by fastforce
    have "messages E s2 = messages E s @ [(op, register s)]"
      using m True op commandSleep_mailbox [OF quiet_ggNotifierHandler c, of BFUD BFUC]
      by (simp add: messages_def register_def)
    then show ?thesis
      by (simp add: setCommand_def w True c sends_def exI [of _ "Suc 0"])
  qed
qed

lemma pollRound_view:
  "messages E (snd (pollRound E st s)) = messages E s \<and> register (snd (pollRound E st s)) = register s"
proof -
  obtain ok s1 where w: "smcWriteKey E BFUC [opByte E kGgFwUpdOpGetUpdStatus] s = (ok, s1)" by fastforce
  note m = smcWriteKey_mailbox [OF w, of BFUD BFUC, unfolded mailWrite_command]
  have v1: "messages E s1 = messages E s \<and> register s1 = register s"
    using m by (cases ok) (simp_all add: messages_def register_def)
  obtain a s2 where c: "commandSleep E (ggNotifierHandler E) s1 = (a, s2)" by fastforce
  have v2: "messages E s2 = messages E s1 \<and> register s2 = register s1"
    using commandSleep_mailbox [OF quiet_ggNotifierHandler c, of BFUD BFUC]
    by (simp add: messages_def register_def)
  obtain b s3 where r: "smcReadKey E BFUD GG_SMCTRANSFER_LEN s2 = (b, s3)" by fastforce
  have v3: "messages E s3 = messages E s2 \<and> register s3 = register s2"
    using smcReadKey_mailbox [OF r, of BFUD BFUC] by (simp add: messages_def register_def)
  show ?thesis
    by (simp add: pollRound_def Let_def w c r v1 v2 v3 split: option.split)
qed

lemma pollLoop_view:
  "messages E (snd (pollLoop E rt n st s)) = messages E s \<and> register (snd (pollLoop E rt n st s)) = register s"
proof (induction n arbitrary: st s)
  case 0
  show ?case by (simp add: pollRound_view)
next
  case (Suc n)
  obtain r st1 s1 where p: "pollRound E st s = ((r, st1), s1)" by (metis surj_pair)
  then show ?case using pollRound_view [of E st s] Suc.IH [of "kRegUpdaterStatusBusy E" "IOSleep rt s1"] by simp
qed

lemma awaitStatus_view:
  "messages E (snd (awaitStatus E t rt st s)) = messages E s \<and> register (snd (awaitStatus E t rt st s)) = register s"
proof -
  obtain r p s1 where e: "pollUpdaterStatus E t rt s = ((r, p), s1)" by (metis surj_pair)
  then show ?thesis
    using pollLoop_view [of E rt "t div rt + 1" "kRegUpdaterStatusBusy E" s]
    by (simp add: awaitStatus_def pollUpdaterStatus_def)
qed

lemma awaitStatus_sends: "sends E [] s (awaitStatus E t rt st s)"
  by (cases "awaitStatus E t rt st s") (use awaitStatus_view [of E t rt st s] in \<open>simp add: sends_def\<close>)

lemma awaitStatus_sends_slept: "sends E [] s (awaitStatus E t rt st (IOSleep n s))"
  by (rule sends_from [OF _ awaitStatus_sends]) simp

text \<open>Data, command, poll: one message.\<close>

lemma sends_message:
  assumes op: "op \<noteq> opByte E kGgFwUpdOpGetUpdStatus"
    and rest: "\<And>s2. sends E Q s2 (f s2)"
  shows "sends E ((op, b) # Q) s (andThen (passData E b s) (\<lambda>s1. andThen (setCommand E op s1) f))"
proof (rule sends_nil_andThen [OF passData_sends])
  fix s1 assume "fst (passData E b s) = kIOReturnSuccess" "snd (passData E b s) = s1"
  then have reg: "register s1 = b" by (metis passData_register prod.collapse)
  show "sends E ((op, b) # Q) s1 (andThen (setCommand E op s1) f)"
    using sends_andThen [OF setCommand_messages [OF op, of s1], of Q f] rest by (simp add: reg)
qed

section \<open>The parts of a transfer\<close>

lemma writeDataLengthGated_sends:
  "op \<noteq> opByte E kGgFwUpdOpGetUpdStatus \<Longrightarrow>
   sends E [(op, zeroed (le16Bytes len))] s (writeDataLengthGated E len op t1 t2 t3 st s)"
  unfolding writeDataLengthGated_def by (intro sends_message awaitStatus_sends_slept)

lemma writeDataSignatureGated_sends:
  assumes "op1 \<noteq> opByte E kGgFwUpdOpGetUpdStatus" "op2 \<noteq> opByte E kGgFwUpdOpGetUpdStatus"
  shows "sends E [(op1, memRange sig 0 32), (op2, memRange sig 32 32)] s
           (writeDataSignatureGated E sig op1 op2 s)"
  unfolding writeDataSignatureGated_def GG_SMCTRANSFER_LEN_def
  by (intro sends_message assms sends_nil_andThen [OF awaitStatus_sends] awaitStatus_sends)

lemma startImageGated_sends:
  assumes "opByte E kGgFwUpdOpStartImage \<noteq> opByte E kGgFwUpdOpGetUpdStatus"
    and "startImageParameters type = Some (imageType, t1, t2, t3)"
  shows "sends E [(opByte E kGgFwUpdOpStartImage, zeroed [typeByte E imageType])] s (startImageGated E type s)"
  unfolding startImageGated_def assms(2) option.case prod.case
  by (intro sends_message assms awaitStatus_sends_slept)

text \<open>The blocks of the data from an offset.\<close>

definition blocksFrom :: "u8 list \<Rightarrow> nat \<Rightarrow> nat \<Rightarrow> u8 list list" where
  "blocksFrom bytes off n =
     map (\<lambda>i. zeroed (memRange bytes (off + 32 * i) (min 32 (n - 32 * i)))) [0..<(n + 31) div 32]"

lemma blocksFrom_0 [simp]: "blocksFrom bytes off 0 = []"
  by (simp add: blocksFrom_def)

lemma blocksFrom_step:
  assumes "0 < n"
  shows "blocksFrom bytes off n =
           zeroed (memRange bytes off (min 32 n)) # blocksFrom bytes (off + min 32 n) (n - min 32 n)"
proof (cases "n \<le> 32")
  case True
  then have "(n + 31) div 32 = Suc 0" using assms by simp
  then show ?thesis using True by (simp add: blocksFrom_def)
next
  case False
  then have d: "(n + 31) div 32 = Suc ((n - 32 + 31) div 32)" by simp
  show ?thesis unfolding blocksFrom_def d
    using False by (simp add: upt_conv_Cons map_Suc_upt [symmetric] add.assoc del: upt_Suc map_Suc_upt)
qed

lemma writeDataDataGated_sends:
  assumes op: "op \<noteq> opByte E kGgFwUpdOpGetUpdStatus"
  shows "sends E (map (Pair op) (blocksFrom bytes off n)) s (writeDataDataGated E bytes off n op s)"
proof (induction n arbitrary: off s rule: less_induct)
  case (less n)
  show ?case
  proof (cases "n = 0")
    case True
    then show ?thesis by (subst writeDataDataGated.simps) (simp add: sends_nil)
  next
    case False
    let ?c = "min GG_SMCTRANSFER_LEN n"
    have "n - ?c < n" using False by (simp add: GG_SMCTRANSFER_LEN_def)
    then have "sends E ((op, zeroed (memRange bytes off ?c)) # map (Pair op) (blocksFrom bytes (off + ?c) (n - ?c))) s
        (writeDataDataGated E bytes off n op s)"
      using False
      by (subst writeDataDataGated.simps)
         (simp add: Let_def sends_message [OF op] sends_nil_andThen [OF awaitStatus_sends_slept] less.IH)
    then show ?thesis using False by (simp add: blocksFrom_step [of n] GG_SMCTRANSFER_LEN_def)
  qed
qed

text \<open>The blocks together are the data, filled with zeros to a multiple of 32 bytes.\<close>

lemma length_zeroed: "length xs \<le> 32 \<Longrightarrow> length (zeroed xs) = 32"
  by (simp add: zeroed_def GG_SMCTRANSFER_LEN_def)

lemma concat_blocksFrom:
  "concat (blocksFrom bytes off n) = memRange bytes off n @ replicate (32 * ((n + 31) div 32) - n) 0"
proof (induction n arbitrary: off rule: less_induct)
  case (less n)
  show ?case
  proof (cases "n \<le> 32")
    case True
    show ?thesis
    proof (cases "n = 0")
      case False
      with True have "(n + 31) div 32 = Suc 0" by simp
      then show ?thesis using True False
        by (simp add: blocksFrom_step [of n] min_def zeroed_def GG_SMCTRANSFER_LEN_def)
    qed (simp add: memRange_def)
  next
    case False
    then have d: "(n + 31) div 32 = Suc ((n - 32 + 31) div 32)" by simp
    have "memRange bytes off n = memRange bytes off 32 @ memRange bytes (off + 32) (n - 32)"
      using False upt_add_eq_append [of off "off + 32" "n - 32"]
      by (simp add: memRange_def map_append [symmetric] del: map_append)
    moreover have "32 * ((n - 32 + 31) div 32) - (n - 32) = 32 * ((n + 31) div 32) - n" unfolding d using False by simp
    ultimately show ?thesis
      using False less.IH [of "n - 32" "off + 32"]
      by (simp add: blocksFrom_step [of n] min_def zeroed_def GG_SMCTRANSFER_LEN_def)
  qed
qed

lemma startCryptoGated_sends:
  assumes "opByte E kGgFwUpdOpStartCrypto \<noteq> opByte E kGgFwUpdOpGetUpdStatus"
  shows "sends E [(opByte E kGgFwUpdOpStartCrypto, zeroed [cryptoTypes E images])] s (startCryptoGated E images s)"
proof (cases "cryptoTypes E images = 0")
  case True
  then show ?thesis by (simp add: startCryptoGated_def sends_none)
next
  case False
  show ?thesis unfolding startCryptoGated_def if_not_P [OF False]
    by (intro sends_message assms awaitStatus_sends_slept)
qed

section \<open>A whole transfer\<close>

definition signed :: "ggDataType \<Rightarrow> bool" where
  "signed type \<longleftrightarrow> \<not> isImage type \<and> type \<noteq> kGgFwUpdDataTypeDigestDictionary"

definition beginMessage :: "('d, 'e) ggEnv_scheme \<Rightarrow> ggIData \<Rightarrow> ggOps \<Rightarrow> message" where
  "beginMessage E d ops =
     (case data_type d of
        kGgFwUpdDataTypeFirmwareImage \<Rightarrow> (opByte E kGgFwUpdOpStartImage, zeroed [typeByte E kGgFwUpdTypeFirmware])
      | kGgFwUpdDataTypeConfigImage \<Rightarrow> (opByte E kGgFwUpdOpStartImage, zeroed [typeByte E kGgFwUpdTypeConfiguration])
      | kGgFwUpdDataTypeDnvdImage \<Rightarrow> (opByte E kGgFwUpdOpStartImage, zeroed [typeByte E kGgFwUpdTypeDnvd])
      | _ \<Rightarrow> (op_length ops, zeroed (le16Bytes (data_length d mod 65536))))"

definition endMessages :: "('d, 'e) ggEnv_scheme \<Rightarrow> ggIData \<Rightarrow> ggOps \<Rightarrow> message list" where
  "endMessages E d ops =
     (if isImage (data_type d) then [(op_length ops, zeroed (le16Bytes ((data_length d + 31) div 32 mod 65536)))]
      else if data_type d = kGgFwUpdDataTypeDigestDictionary
      then [(opByte E kGgFwUpdOpStartCrypto, zeroed [cryptoTypes E (memAt (signature d) 0)])]
      else [(op_sign1 ops, memRange (signature d) 0 32), (op_sign2 ops, memRange (signature d) 32 32)])"

definition transferMessages :: "('d, 'e) ggEnv_scheme \<Rightarrow> ggIData \<Rightarrow> ggOps \<Rightarrow> message list" where
  "transferMessages E d ops =
     [beginMessage E d ops] @ map (Pair (op_data ops)) (blocksFrom (data_bytes d) 0 (data_length d)) @
     endMessages E d ops"

text \<open>The numbers of the operations differ.\<close>

lemma transferBegin_sends:
  assumes inj: "inj (opByte E)" and len: "op_length ops \<noteq> opByte E kGgFwUpdOpGetUpdStatus"
  shows "sends E [beginMessage E d ops] s (transferBegin E d ops s)"
proof -
  have st: "opByte E kGgFwUpdOpStartImage \<noteq> opByte E kGgFwUpdOpGetUpdStatus"
    by (simp add: inj_eq [OF inj])
  show ?thesis
    by (cases "data_type d")
       (simp_all add: transferBegin_def beginMessage_def isImage_def writeDataLengthGated_sends [OF len]
          startImageGated_sends [OF st] startImageParameters_def)
qed

lemma transferEnd_sends:
  assumes inj: "inj (opByte E)" and len: "op_length ops \<noteq> opByte E kGgFwUpdOpGetUpdStatus"
    and sg: "signed (data_type d) \<Longrightarrow>
      op_sign1 ops \<noteq> opByte E kGgFwUpdOpGetUpdStatus \<and> op_sign2 ops \<noteq> opByte E kGgFwUpdOpGetUpdStatus"
  shows "sends E (endMessages E d ops) s (transferEnd E d ops s)"
proof (cases "isImage (data_type d)")
  case True
  then obtain t1 t2 t3 st where "imageEnd E (ggTwoStageUpdate s) (data_type d) = Some (t1, t2, t3, st)"
    by (auto simp: isImage_def imageEnd_def)
  then show ?thesis using True
    by (simp add: transferEnd_def endMessages_def writeDataLengthGated_sends [OF len])
next
  case False
  have st: "opByte E kGgFwUpdOpStartCrypto \<noteq> opByte E kGgFwUpdOpGetUpdStatus"
    by (simp add: inj_eq [OF inj])
  show ?thesis using False sg
    by (auto simp add: transferEnd_def endMessages_def signed_def startCryptoGated_sends [OF st]
             intro!: writeDataSignatureGated_sends)
qed

lemma writeDataGated_sends:
  assumes inj: "inj (opByte E)" and ops: "op_length ops \<noteq> opByte E kGgFwUpdOpGetUpdStatus"
      "op_data ops \<noteq> opByte E kGgFwUpdOpGetUpdStatus"
      "signed (data_type d) \<Longrightarrow> op_sign1 ops \<noteq> opByte E kGgFwUpdOpGetUpdStatus \<and> op_sign2 ops \<noteq> opByte E kGgFwUpdOpGetUpdStatus"
  shows "sends E (transferMessages E d ops) s (writeDataGated E d ops s)"
proof -
  obtain r st s0 where p: "pollUpdaterStatus E 2800 700 s = ((r, st), s0)" by (metis surj_pair)
  then have m: "messages E s0 = messages E s"
    using pollLoop_view [of E 700 "2800 div 700 + 1" "kRegUpdaterStatusBusy E" s]
    by (simp add: pollUpdaterStatus_def)
  have fin: "sends E [] s3 (kIOReturnSuccess, clearErrorReports s3)" for s3
    by (simp add: sends_nil)
  have "sends E (transferMessages E d ops) s0
      (andThen (transferBegin E d ops s0)
         (\<lambda>s1. andThen (writeDataDataGated E (data_bytes d) 0 (data_length d) (op_data ops) s1)
         (\<lambda>s2. andThen (transferEnd E d ops s2)
         (\<lambda>s3. (kIOReturnSuccess, clearErrorReports s3)))))"
    unfolding transferMessages_def
    by (intro sends_andThen [OF transferBegin_sends] sends_andThen [OF writeDataDataGated_sends]
          sends_andThen_nil [OF transferEnd_sends] fin inj ops)
  then show ?thesis
    unfolding writeDataGated_def p prod.case
    by (simp add: m sends_none sends_from [OF m])
qed

end
