(* ===== verification/GasGaugeProperties.thy ===== *)
theory GasGaugeProperties
  imports GasGaugeLemmas
begin

unbundle bit_operations_syntax

text \<open>
  What holds of the update of the gas gauge: transfers refine the sequence of messages they stand
  for, every write has the size of its key, the data of a client lies in the client's memory, and an
  updater in another state is left alone.
\<close>

section \<open>Invariants of the driver\<close>

definition keySized :: "smcKey \<times> u8 list \<Rightarrow> bool" where
  "keySized w \<longleftrightarrow>
     (case w of (BFUD, bs) \<Rightarrow> length bs = GG_SMCTRANSFER_LEN | (BFUC, bs) \<Rightarrow> length bs = 1 | _ \<Rightarrow> False)"

text \<open>What every elementary step of the driver keeps, every operation keeps.\<close>

locale gauge_invariant =
  fixes E :: "('d, 'e) ggEnv_scheme" and I :: "'d gauge \<Rightarrow> bool"
  assumes written: "keySized (key, bs) \<Longrightarrow> I s \<Longrightarrow> I (snd (writeOnce E key bs s))"
    and read: "I s \<Longrightarrow> I (snd (readOnce E key len s))"
    and slept: "I s \<Longrightarrow> I (IOSleep n s)"
    and waited: "I s \<Longrightarrow> I (snd (commandSleep E (ggNotifierHandler E) s))"
    and handled: "I s \<Longrightarrow> I (ggNotifierHandler E m s)"
    and cleared: "I s \<Longrightarrow> I (clearErrorReports s)"
    and identified: "I s \<Longrightarrow> I (s\<lparr>batteryIdProperty := x\<rparr>)"
    and staged: "I s \<Longrightarrow> I (s\<lparr>ggTwoStageUpdate := b\<rparr>)"
begin

lemma writeTries: "keySized (key, bs) \<Longrightarrow> I s \<Longrightarrow> I (snd (writeTries E key bs n s))"
proof (induction n arbitrary: s)
  case (Suc n)
  then show ?case using written [OF Suc.prems]
    by (auto simp: slept split: prod.splits)
qed (simp add: written)

lemma readTries: "I s \<Longrightarrow> I (snd (readTries E key len n s))"
proof (induction n arbitrary: s)
  case (Suc n)
  then show ?case using read [OF Suc.prems, of key len]
    by (auto simp: slept split: prod.splits)
qed (simp add: read)

lemma passData: "length b = GG_SMCTRANSFER_LEN \<Longrightarrow> I s \<Longrightarrow> I (snd (passData E b s))"
  using writeTries [of BFUD b s MAX_TRIES]
  by (auto simp: passData_def smcWriteKey_def keySized_def split: prod.splits)

lemma setCommand: "I s \<Longrightarrow> I (snd (setCommand E op s))"
proof -
  assume I: "I s"
  obtain ok s1 where w: "smcWriteKey E BFUC [op] s = (ok, s1)" by fastforce
  have "I s1" using writeTries [of BFUC "[op]" s MAX_TRIES] I w
    by (simp add: smcWriteKey_def keySized_def)
  then show ?thesis using waited [of s1] by (auto simp: setCommand_def w split: prod.splits)
qed

lemma pollRound: "I s \<Longrightarrow> I (snd (pollRound E st s))"
proof -
  assume I: "I s"
  obtain ok s1 where w: "smcWriteKey E BFUC [opByte E kGgFwUpdOpGetUpdStatus] s = (ok, s1)" by fastforce
  have 1: "I s1" using writeTries [of BFUC "[opByte E kGgFwUpdOpGetUpdStatus]" s MAX_TRIES] I w
    by (simp add: smcWriteKey_def keySized_def)
  obtain a s2 where c: "commandSleep E (ggNotifierHandler E) s1 = (a, s2)" by fastforce
  with waited [OF 1] have 2: "I s2" by simp
  obtain b s3 where r: "smcReadKey E BFUD GG_SMCTRANSFER_LEN s2 = (b, s3)" by fastforce
  have 3: "I s3" using readTries [OF 2, of BFUD GG_SMCTRANSFER_LEN MAX_TRIES] r by (simp add: smcReadKey_def)
  show ?thesis by (simp add: pollRound_def Let_def w c r 1 2 3 split: option.split)
qed

lemma pollLoop: "I s \<Longrightarrow> I (snd (pollLoop E rt n st s))"
proof (induction n arbitrary: st s)
  case (Suc n)
  then show ?case using pollRound [OF Suc.prems, of st]
    by (auto simp: slept split: prod.splits)
qed (simp add: pollRound)

lemma awaitStatus: "I s \<Longrightarrow> I (snd (awaitStatus E t rt st s))"
  using pollLoop [of s rt "t div rt + 1" "kRegUpdaterStatusBusy E"]
  by (auto simp: awaitStatus_def pollUpdaterStatus_def split: prod.splits)

lemma andThen: "I (snd p) \<Longrightarrow> (\<And>s1. I s1 \<Longrightarrow> I (snd (f s1))) \<Longrightarrow> I (snd (andThen p f))"
  by (cases p) (simp add: andThen_def)

lemma writeDataLengthGated: "I s \<Longrightarrow> I (snd (writeDataLengthGated E len op t1 t2 t3 st s))"
  unfolding writeDataLengthGated_def
  by (intro andThen passData setCommand awaitStatus slept)
     (simp_all add: zeroed_def le16Bytes_def GG_SMCTRANSFER_LEN_def)

lemma writeDataSignatureGated: "I s \<Longrightarrow> I (snd (writeDataSignatureGated E sig op1 op2 s))"
  unfolding writeDataSignatureGated_def
  by (intro andThen passData setCommand awaitStatus) simp_all

lemma startImageGated: "I s \<Longrightarrow> I (snd (startImageGated E type s))"
  unfolding startImageGated_def
  by (auto split: option.split intro!: andThen passData setCommand awaitStatus slept
           simp: zeroed_def GG_SMCTRANSFER_LEN_def)

lemma startCryptoGated: "I s \<Longrightarrow> I (snd (startCryptoGated E images s))"
  unfolding startCryptoGated_def
  by (auto intro!: andThen passData setCommand awaitStatus slept simp: zeroed_def GG_SMCTRANSFER_LEN_def)

lemma writeDataDataGated: "I s \<Longrightarrow> I (snd (writeDataDataGated E bytes off n op s))"
proof (induction n arbitrary: off s rule: less_induct)
  case (less n)
  show ?case
  proof (cases "n = 0")
    case True
    then show ?thesis by (subst writeDataDataGated.simps) (simp add: less.prems)
  next
    case False
    let ?c = "min GG_SMCTRANSFER_LEN n"
    have "n - ?c < n" using False by (simp add: GG_SMCTRANSFER_LEN_def)
    note rest = less.IH [OF this]
    have size: "length (zeroed (memRange bytes off ?c)) = GG_SMCTRANSFER_LEN"
      by (simp add: zeroed_def)
    show ?thesis
      by (subst writeDataDataGated.simps)
         (simp add: False Let_def andThen passData [OF size less.prems] setCommand awaitStatus slept rest)
  qed
qed

lemma transferBegin: "I s \<Longrightarrow> I (snd (transferBegin E d ops s))"
  by (simp add: transferBegin_def startImageGated writeDataLengthGated)

lemma transferEnd: "I s \<Longrightarrow> I (snd (transferEnd E d ops s))"
  by (auto simp: transferEnd_def startCryptoGated writeDataSignatureGated writeDataLengthGated split: option.split)

lemma writeDataGated: "I s \<Longrightarrow> I (snd (writeDataGated E d ops s))"
proof -
  assume I: "I s"
  obtain r st s0 where p: "pollUpdaterStatus E 2800 700 s = ((r, st), s0)" by (metis surj_pair)
  with pollLoop [OF I, of 700 "2800 div 700 + 1" "kRegUpdaterStatusBusy E"] have "I s0"
    by (simp add: pollUpdaterStatus_def)
  then show ?thesis
    by (simp add: writeDataGated_def p andThen transferBegin writeDataDataGated transferEnd cleared)
qed

lemma sendData: "I s \<Longrightarrow> I (snd (sendData E d s))"
  by (simp add: sendData_def writeCertificate_def writeImg4Manifest_def writeDigestDict_def writeImage_def
        writeDataGated split: ggDataType.split)

lemma extSendData: "I s \<Longrightarrow> I (snd (extSendData E si len md mapped s))"
  by (simp add: extSendData_def Let_def sendData split: option.split)

lemma readData: "I s \<Longrightarrow> I (snd (readData E s))"
  using readTries [of s BFUD GG_SMCTRANSFER_LEN MAX_TRIES]
  by (auto simp: readData_def smcReadKey_def split: prod.splits option.splits)

lemma getBatteryIdGated: "I s \<Longrightarrow> I (snd (getBatteryIdGated E s))"
  using setCommand [of s "opByte E kGgFwUpdOpGetUid"] readData
  by (fastforce simp: getBatteryIdGated_def identified split: prod.splits)

lemma getChallengeDataGated: "I s \<Longrightarrow> I (snd (getChallengeDataGated E s))"
  using setCommand [of s "opByte E kGgFwUpdOpGetNonce"] readData
  by (fastforce simp: getChallengeDataGated_def split: prod.splits)

lemma initUpdateGated: "I s \<Longrightarrow> I (snd (initUpdateGated E s))"
  unfolding initUpdateGated_def by (intro andThen setCommand awaitStatus slept)

lemma startUpdateGated: "I s \<Longrightarrow> I (snd (startUpdateGated E out s))"
proof (cases out)
  case (Some o1)
  assume I: "I s"
  obtain r s1 where 1: "initUpdateGated E (clearErrorReports s) = (r, s1)" by (metis surj_pair)
  obtain r2 b s2 where 2: "getBatteryIdGated E s1 = ((r2, b), s2)" by (metis surj_pair)
  obtain r3 c s3 where 3: "getChallengeDataGated E s2 = ((r3, c), s3)" by (metis surj_pair)
  have "I s1" "I s2" "I s3"
    using initUpdateGated [OF cleared [OF I]] getBatteryIdGated [of s1] getChallengeDataGated [of s2] 1 2 3
    by simp_all
  then show ?thesis by (simp add: startUpdateGated_def Some 1 2 3 Let_def)
qed (simp add: startUpdateGated_def)

lemma commitImageGated: "I s \<Longrightarrow> I (snd (commitImageGated E s))"
  unfolding commitImageGated_def by (intro andThen setCommand awaitStatus slept)

lemma getInfoGated: "I s \<Longrightarrow> I (snd (getInfoGated E out s))"
proof (cases out)
  case (Some d0)
  assume I: "I s"
  obtain r s1 where 1: "setCommand E (opByte E kGgFwUpdOpGetInfo) s = (r, s1)" by (metis surj_pair)
  obtain r2 b s2 where 2: "readData E s1 = ((r2, b), s2)" by (metis surj_pair)
  obtain r3 s3 where 3: "setCommand E (opByte E kGgFwUpdOpGetInfo2) s2 = (r3, s3)" by (metis surj_pair)
  obtain r4 c s4 where 4: "readData E s3 = ((r4, c), s4)" by (metis surj_pair)
  have i: "I s1" "I s2" "I s3" "I s4"
    using setCommand [OF I] readData [of s1] setCommand [of s2] readData [of s3] 1 2 3 4
    by (metis snd_conv)+
  then show ?thesis by (simp add: getInfoGated_def Some 1 2 3 4 Let_def staged)
qed (simp add: getInfoGated_def)

end

section \<open>The driver as a machine\<close>

text \<open>Methods of the user client, and notifications that come between them.\<close>

inductive gaugeStep :: "('d, 'e) ggEnv_scheme \<Rightarrow> 'd gauge \<Rightarrow> 'd gauge \<Rightarrow> bool" for E where
  step_info: "gaugeStep E s (snd (getInfoGated E out s))"
| step_start: "gaugeStep E s (snd (startUpdateGated E out s))"
| step_send: "gaugeStep E s (snd (extSendData E si len md mapped s))"
| step_commit: "gaugeStep E s (snd (commitImageGated E s))"
| step_notify: "gaugeStep E s (ggNotifierHandler E n s)"

definition gaugeLoaded :: "'d \<Rightarrow> 'd gauge" where
  "gaugeLoaded d =
     \<lparr>smcState = d, notified = \<lparr>nOp = 0, nI2c = 0, nChip = 0\<rparr>, smcLog = [], ggTwoStageUpdate = False,
      commErrorProperty = None, updaterStatusProperty = None, batteryIdProperty = None\<rparr>"

inductive gaugeReachable :: "('d, 'e) ggEnv_scheme \<Rightarrow> 'd gauge \<Rightarrow> bool" for E where
  gauge_loaded: "gaugeReachable E (gaugeLoaded d)"
| gauge_step: "gaugeReachable E s \<Longrightarrow> gaugeStep E s t \<Longrightarrow> gaugeReachable E t"

lemma gauge_invariant_reachable:
  assumes "gaugeReachable E s" and "gauge_invariant E I" and "\<And>d. I (gaugeLoaded d)"
  shows "I s"
  using assms(1)
proof induction
  case (gauge_step s t)
  note keeps = gauge_invariant.getInfoGated [OF assms(2)] gauge_invariant.startUpdateGated [OF assms(2)]
    gauge_invariant.extSendData [OF assms(2)] gauge_invariant.commitImageGated [OF assms(2)]
    gauge_invariant.handled [OF assms(2)]
  show ?case using gauge_step(2,3)
    by (cases rule: gaugeStep.cases)
       (simp_all add: keeps)
qed (rule assms(3))

section \<open>The size of the writes, and the published errors\<close>

definition sizedWrites :: "'d gauge \<Rightarrow> bool" where
  "sizedWrites s \<longleftrightarrow> list_all keySized (writesOf (smcLog s))"

definition errorsPublished :: "('d, 'e) ggEnv_scheme \<Rightarrow> 'd gauge \<Rightarrow> bool" where
  "errorsPublished E s \<longleftrightarrow>
     commErrorProperty s \<noteq> Some 0 \<and>
     (case updaterStatusProperty s of
        None \<Rightarrow> True
      | Some x \<Rightarrow> 1 < x \<and> unat x \<noteq> kRegUpdaterStatusSuccess E)"

lemma sizedWrites_event: "sizedWrites (smcEmit e s) = (sizedWrites s \<and> list_all keySized (writesOf [e]))"
  by (simp add: sizedWrites_def smcEmit_def)

lemma sizedWrites_cong: "smcLog s = smcLog t \<Longrightarrow> sizedWrites s = sizedWrites t"
  by (simp add: sizedWrites_def)

lemma errorsPublished_cong:
  "commErrorProperty s = commErrorProperty t \<Longrightarrow> updaterStatusProperty s = updaterStatusProperty t \<Longrightarrow>
   errorsPublished E s = errorsPublished E t"
  by (simp add: errorsPublished_def)

lemma errorsPublished_handled: "errorsPublished E s \<Longrightarrow> errorsPublished E (ggNotifierHandler E n s)"
  by (simp add: errorsPublished_def ggNotifierHandler_def Let_def)

lemma errorsPublished_fold: "errorsPublished E s \<Longrightarrow> errorsPublished E (fold (ggNotifierHandler E) ns s)"
  by (rule fold_invariant) (simp_all add: errorsPublished_handled)

interpretation sized: gauge_invariant E sizedWrites for E :: "('d, 'e) ggEnv_scheme"
proof
  fix key bs and s :: "'d gauge" assume "keySized (key, bs)" "sizedWrites s"
  then show "sizedWrites (snd (writeOnce E key bs s))"
    by (simp add: writeOnce_def sizedWrites_event split: prod.split) (simp add: sizedWrites_def)
next
  fix s :: "'d gauge" and key len assume "sizedWrites s"
  then show "sizedWrites (snd (readOnce E key len s))"
    by (simp add: readOnce_def sizedWrites_event split: prod.split) (simp add: sizedWrites_def)
next
  fix s :: "'d gauge" assume s: "sizedWrites s"
  show "sizedWrites (snd (commandSleep E (ggNotifierHandler E) s))"
  proof -
    have "smcLog (fold (ggNotifierHandler E) ns (s\<lparr>smcState := d\<rparr>)) = smcLog s" for ns d
      using quietHandler_fold [OF quiet_ggNotifierHandler [of E], where s = "s\<lparr>smcState := d\<rparr>"] by simp
    then have "sizedWrites (fold (ggNotifierHandler E) ns (s\<lparr>smcState := d\<rparr>)) = sizedWrites s" for ns d
      by (rule sizedWrites_cong)
    then show ?thesis using s by (simp add: commandSleep_def sizedWrites_event split: prod.split)
  qed
next
  fix s :: "'d gauge" and m assume "sizedWrites s"
  then show "sizedWrites (ggNotifierHandler E m s)"
    by (simp add: sizedWrites_def ggNotifierHandler_def Let_def)
qed (simp_all add: sizedWrites_event, simp_all add: sizedWrites_def clearErrorReports_def)

interpretation published: gauge_invariant E "errorsPublished E" for E :: "('d, 'e) ggEnv_scheme"
proof
  fix s :: "'d gauge" assume "errorsPublished E s"
  then have "errorsPublished E (fold (ggNotifierHandler E) ns (s\<lparr>smcState := d\<rparr>))" for ns d
    by (intro errorsPublished_fold) (simp add: errorsPublished_def)
  then show "errorsPublished E (snd (commandSleep E (ggNotifierHandler E) s))"
    by (simp add: commandSleep_def smcEmit_def split: prod.split)
       (simp add: errorsPublished_def)
next
  fix s :: "'d gauge" and m assume "errorsPublished E s"
  then show "errorsPublished E (ggNotifierHandler E m s)" by (rule errorsPublished_handled)
qed (simp_all add: writeOnce_def readOnce_def smcEmit_def errorsPublished_def clearErrorReports_def split: prod.split)

section \<open>A transfer and its messages\<close>

text \<open>The operations of each type of data.\<close>

definition opsFor :: "('d, 'e) ggEnv_scheme \<Rightarrow> ggDataType \<Rightarrow> ggOps" where
  "opsFor E type =
     (case type of
        kGgFwUpdDataTypeCertificate \<Rightarrow>
          \<lparr>op_length = opByte E kGgFwUpdOpSetCertLen, op_data = opByte E kGgFwUpdOpSetCert,
           op_sign1 = opByte E kGgFwUpdOpSetCertSign1, op_sign2 = opByte E kGgFwUpdOpSetCertSign2\<rparr>
      | kGgFwUpdDataTypeImg4Manifest \<Rightarrow>
          \<lparr>op_length = opByte E kGgFwUpdOpSetImg4Len, op_data = opByte E kGgFwUpdOpSetImg4,
           op_sign1 = opByte E kGgFwUpdOpSetImg4Sign1, op_sign2 = opByte E kGgFwUpdOpSetImg4Sign2\<rparr>
      | kGgFwUpdDataTypeDigestDictionary \<Rightarrow>
          \<lparr>op_length = opByte E kGgFwUpdOpSetDigDictLen, op_data = opByte E kGgFwUpdOpSetDigDict,
           op_sign1 = 0, op_sign2 = 0\<rparr>
      | _ \<Rightarrow> \<lparr>op_length = opByte E kGgFwUpdOpSetDone, op_data = opByte E kGgFwUpdOpSetImageData,
              op_sign1 = 0, op_sign2 = 0\<rparr>)"

lemma sendData_sends:
  assumes inj: "inj (opByte E)"
  shows "sends E (transferMessages E d (opsFor E (data_type d))) s (sendData E d s)"
proof -
  have "sends E (transferMessages E d (opsFor E (data_type d))) s (writeDataGated E d (opsFor E (data_type d)) s)"
    if "data_type d \<noteq> kGgFwUpdDataTypeMax"
    by (rule writeDataGated_sends [OF inj])
       (use that in \<open>auto simp: opsFor_def signed_def isImage_def inj_eq [OF inj] split: ggDataType.splits\<close>)
  then show ?thesis
    by (cases "data_type d")
       (simp_all add: sendData_def writeCertificate_def writeImg4Manifest_def writeDigestDict_def writeImage_def
          opsFor_def sends_none)
qed

text \<open>C30: A transfer refines the sequence of messages that stands for its data: the message of the
  begin, the data in order, filled with zeros to blocks of 32 bytes, and the messages of the end.
  Whatever the controller and the gauge do, the gauge is sent a prefix of the sequence, and all of it
  if the transfer succeeds.\<close>

theorem transfer_refines:
  assumes "inj (opByte E)"
  shows "(\<exists>n. messages E (snd (sendData E d s)) = messages E s @
            (let ops = opsFor E (data_type d);
                 P = [beginMessage E d ops] @
                     map (Pair (op_data ops)) (blocksFrom (data_bytes d) 0 (data_length d)) @ endMessages E d ops
             in if fst (sendData E d s) = kIOReturnSuccess then P else take n P)) \<and>
         concat (blocksFrom (data_bytes d) 0 (data_length d)) =
           memRange (data_bytes d) 0 (data_length d) @ replicate (32 * ((data_length d + 31) div 32) - data_length d) 0"
proof -
  obtain n where "messages E (snd (sendData E d s)) =
        messages E s @ take n (transferMessages E d (opsFor E (data_type d)))"
      "fst (sendData E d s) = kIOReturnSuccess \<longrightarrow> n = length (transferMessages E d (opsFor E (data_type d)))"
    using sendData_sends [OF assms, of d s] unfolding sends_def by blast
  then show ?thesis unfolding Let_def transferMessages_def [symmetric]
    by (intro conjI exI [of _ n] concat_blocksFrom) simp
qed

section \<open>A gauge that answers\<close>

text \<open>
  \<open>lastOp\<close> reads from the state of the controller the command it holds: writes succeed and each wait
  ends with the notification of that command.
\<close>

definition obeys :: "('d, 'e) ggEnv_scheme \<Rightarrow> ('d \<Rightarrow> u8) \<Rightarrow> bool" where
  "obeys E lastOp \<longleftrightarrow>
     (\<forall>key bs d. fst (smcWrite E key bs d) \<and>
        lastOp (snd (smcWrite E key bs d)) = (if key = BFUC then hd bs else lastOp d)) \<and>
     (\<forall>d. \<exists>ns chip d'. smcWait E d = ((ns @ [\<lparr>nOp = lastOp d, nI2c = 0, nChip = chip\<rparr>], True), d') \<and>
        unat chip \<le> kRegUpdaterStatusReady E \<and> lastOp d' = lastOp d)"

text \<open>The updater's status is \<open>status\<close>.\<close>

definition reports :: "('d, 'e) ggEnv_scheme \<Rightarrow> nat \<Rightarrow> bool" where
  "reports E status \<longleftrightarrow>
     (\<forall>d. \<exists>bs d'. smcRead E BFUD GG_SMCTRANSFER_LEN d = (Some bs, d') \<and> le16 bs = status) \<and>
     status \<noteq> kRegUpdaterStatusBusy E"

definition answers :: "('d, 'e) ggEnv_scheme \<Rightarrow> ('d \<Rightarrow> u8) \<Rightarrow> bool" where
  "answers E lastOp \<longleftrightarrow> obeys E lastOp \<and> reports E (kRegUpdaterStatusReady E)"

lemma obeys_write:
  assumes "obeys E lastOp"
  obtains s1 where "smcWriteKey E key bs s = (True, s1)"
    "lastOp (smcState s1) = (if key = BFUC then hd bs else lastOp (smcState s))"
    "ggTwoStageUpdate s1 = ggTwoStageUpdate (s :: 'd gauge)"
proof -
  obtain d where w: "smcWrite E key bs (smcState s) = (True, d)"
      "lastOp d = (if key = BFUC then hd bs else lastOp (smcState s))"
  proof (cases "smcWrite E key bs (smcState s)")
    case (Pair ok d)
    with assms have "ok" "lastOp d = (if key = BFUC then hd bs else lastOp (smcState s))"
      unfolding obeys_def by (metis fst_conv, metis snd_conv)
    with Pair that show thesis by simp
  qed
  show ?thesis
    by (rule that [of "smcEmit (SmcWrote key bs True) (s\<lparr>smcState := d\<rparr>)"])
       (simp_all add: smcWriteKey_def MAX_TRIES_def eval_nat_numeral writeOnce_def w smcEmit_def)
qed

lemma twoStage_fold: "ggTwoStageUpdate (fold (ggNotifierHandler E) ns s) = ggTwoStageUpdate s"
  by (rule fold_view_same) (simp add: ggNotifierHandler_def Let_def)

lemma obeys_wait:
  assumes "obeys E lastOp"
  obtains s1 where "commandSleep E (ggNotifierHandler E) s = (True, s1)"
    "checkOperationStatus E (lastOp (smcState s)) s1 = kIOReturnSuccess"
    "lastOp (smcState s1) = lastOp (smcState s)" "ggTwoStageUpdate s1 = ggTwoStageUpdate s"
proof -
  obtain ns chip d where w: "smcWait E (smcState s) = ((ns @ [\<lparr>nOp = lastOp (smcState s), nI2c = 0, nChip = chip\<rparr>], True), d)"
      "unat chip \<le> kRegUpdaterStatusReady E" "lastOp d = lastOp (smcState s)"
    using assms unfolding obeys_def by blast
  let ?n = "\<lparr>nOp = lastOp (smcState s), nI2c = 0, nChip = chip\<rparr>"
  let ?t = "ggNotifierHandler E ?n (fold (ggNotifierHandler E) ns (s\<lparr>smcState := d\<rparr>))"
  have "smcState ?t = d" "notified ?t = ?n" "ggTwoStageUpdate ?t = ggTwoStageUpdate s"
    using quietHandler_fold [OF quiet_ggNotifierHandler [of E], of ns "s\<lparr>smcState := d\<rparr>"]
      twoStage_fold [of E ns "s\<lparr>smcState := d\<rparr>"]
    by (simp_all add: ggNotifierHandler_def Let_def)
  then show ?thesis using w
    by (intro that [of "smcEmit (SmcWaited True) ?t"])
       (simp_all add: commandSleep_def smcEmit_def checkOperationStatus_def)
qed

lemma obeys_passData:
  assumes "obeys E lastOp"
  obtains s1 where "passData E b s = (kIOReturnSuccess, s1)" "ggTwoStageUpdate s1 = ggTwoStageUpdate s"
  using obeys_write [OF assms, of BFUD b s] by (metis (mono_tags, lifting) case_prod_conv passData_def)

lemma obeys_setCommand:
  assumes "obeys E lastOp"
  obtains s1 where "setCommand E op s = (kIOReturnSuccess, s1)" "ggTwoStageUpdate s1 = ggTwoStageUpdate s"
proof -
  obtain s1 where 1: "smcWriteKey E BFUC [op] s = (True, s1)" "lastOp (smcState s1) = op"
      "ggTwoStageUpdate s1 = ggTwoStageUpdate s"
    using obeys_write [OF assms, of BFUC "[op]" s] by auto
  obtain s2 where 2: "commandSleep E (ggNotifierHandler E) s1 = (True, s2)"
      "checkOperationStatus E op s2 = kIOReturnSuccess" "ggTwoStageUpdate s2 = ggTwoStageUpdate s1"
    using obeys_wait [OF assms, of s1] 1(2) by auto
  show ?thesis by (rule that [of s2]) (simp_all add: setCommand_def 1 2)
qed

lemma obeys_poll:
  assumes "obeys E lastOp" and "reports E status"
  obtains s1 where "pollUpdaterStatus E t rt s = ((kIOReturnSuccess, status), s1)"
    "ggTwoStageUpdate s1 = ggTwoStageUpdate s"
proof -
  let ?op = "opByte E kGgFwUpdOpGetUpdStatus"
  obtain s1 where 1: "smcWriteKey E BFUC [?op] s = (True, s1)" "lastOp (smcState s1) = ?op"
      "ggTwoStageUpdate s1 = ggTwoStageUpdate s"
    using obeys_write [OF assms(1), of BFUC "[?op]" s] by auto
  obtain s2 where 2: "commandSleep E (ggNotifierHandler E) s1 = (True, s2)"
      "checkOperationStatus E ?op s2 = kIOReturnSuccess" "ggTwoStageUpdate s2 = ggTwoStageUpdate s1"
    using obeys_wait [OF assms(1), of s1] 1(2) by auto
  obtain bs d where 3: "smcRead E BFUD GG_SMCTRANSFER_LEN (smcState s2) = (Some bs, d)" "le16 bs = status"
    using assms(2) unfolding reports_def by blast
  have nb: "status \<noteq> kRegUpdaterStatusBusy E" using assms(2) by (simp add: reports_def)
  let ?t = "smcEmit (SmcRead BFUD True) (s2\<lparr>smcState := d\<rparr>)"
  have "pollRound E (kRegUpdaterStatusBusy E) s = ((kIOReturnSuccess, status), ?t)"
    by (simp add: pollRound_def Let_def 1 2 smcReadKey_def MAX_TRIES_def eval_nat_numeral readOnce_def 3)
  then have "pollUpdaterStatus E t rt s = ((kIOReturnSuccess, status), ?t)"
    by (simp add: pollUpdaterStatus_def nb)
  then show ?thesis by (rule that) (simp add: smcEmit_def 1 2)
qed

text \<open>A step that succeeds without touching the flag; such steps compose.\<close>

definition succeeds :: "'d gauge \<Rightarrow> IOReturn \<times> 'd gauge \<Rightarrow> bool" where
  "succeeds s p \<longleftrightarrow> fst p = kIOReturnSuccess \<and> ggTwoStageUpdate (snd p) = ggTwoStageUpdate s"

lemma succeeds_andThen:
  "succeeds s p \<Longrightarrow> (\<And>s1. ggTwoStageUpdate s1 = ggTwoStageUpdate s \<Longrightarrow> succeeds s1 (f s1)) \<Longrightarrow> succeeds s (andThen p f)"
  by (cases p) (simp add: succeeds_def andThen_def)

lemma succeeds_step:
  assumes "answers E lastOp"
  shows "succeeds s (passData E b s)" "succeeds s (setCommand E op s)"
    "succeeds s (awaitStatus E t rt (kRegUpdaterStatusReady E) s)"
    "succeeds s (awaitStatus E t rt (kRegUpdaterStatusReady E) (IOSleep n s))"
proof -
  show "succeeds s (passData E b s)" by (metis obeys_passData [OF assms[unfolded answers_def, THEN conjunct1]] succeeds_def fst_conv snd_conv)
  show "succeeds s (setCommand E op s)" by (metis obeys_setCommand [OF assms[unfolded answers_def, THEN conjunct1]] succeeds_def fst_conv snd_conv)
  have p: "succeeds s (awaitStatus E t rt (kRegUpdaterStatusReady E) s)" for s :: "'a gauge"
  proof -
    obtain s1 where "pollUpdaterStatus E t rt s = ((kIOReturnSuccess, kRegUpdaterStatusReady E), s1)"
        "ggTwoStageUpdate s1 = ggTwoStageUpdate s" by (rule obeys_poll [OF assms[unfolded answers_def, THEN conjunct1] assms[unfolded answers_def, THEN conjunct2]])
    then show ?thesis by (simp add: awaitStatus_def succeeds_def)
  qed
  show "succeeds s (awaitStatus E t rt (kRegUpdaterStatusReady E) s)" by (rule p)
  show "succeeds s (awaitStatus E t rt (kRegUpdaterStatusReady E) (IOSleep n s))"
    using p [of "IOSleep n s"] by (simp add: succeeds_def smcEmit_def)
qed

lemma succeeds_data:
  assumes "answers E lastOp"
  shows "succeeds s (writeDataDataGated E bytes off n op s)"
proof (induction n arbitrary: off s rule: less_induct)
  case (less n)
  show ?case
  proof (cases "n = 0")
    case True
    then show ?thesis by (subst writeDataDataGated.simps) (simp add: succeeds_def)
  next
    case False
    then have "n - min GG_SMCTRANSFER_LEN n < n" by (simp add: GG_SMCTRANSFER_LEN_def)
    with False show ?thesis
      by (subst writeDataDataGated.simps)
         (simp add: Let_def succeeds_andThen succeeds_step [OF assms] less.IH)
  qed
qed

lemma answers_sendData:
  assumes ans: "answers E lastOp" and type: "data_type d \<noteq> kGgFwUpdDataTypeMax"
    and stage: "if isImage (data_type d) then ggTwoStageUpdate s
      else (if data_type d = kGgFwUpdDataTypeDigestDictionary then cryptoTypes E (memAt (signature d) 0) \<noteq> 0 else True)"
  shows "fst (sendData E d s) = kIOReturnSuccess"
proof -
  let ?ops = "opsFor E (data_type d)"
  obtain s0 where p: "pollUpdaterStatus E 2800 700 s = ((kIOReturnSuccess, kRegUpdaterStatusReady E), s0)"
      "ggTwoStageUpdate s0 = ggTwoStageUpdate s" by (rule obeys_poll [OF ans[unfolded answers_def, THEN conjunct1] ans[unfolded answers_def, THEN conjunct2]])
  have b: "succeeds s1 (transferBegin E d ?ops s1)" for s1
    using type by (cases "data_type d")
      (simp_all add: transferBegin_def isImage_def startImageGated_def startImageParameters_def
         writeDataLengthGated_def succeeds_andThen succeeds_step [OF ans])
  have e: "succeeds s1 (transferEnd E d ?ops s1)" if "ggTwoStageUpdate s1 = ggTwoStageUpdate s" for s1
    using type stage that by (cases "data_type d")
      (simp_all add: transferEnd_def isImage_def imageEnd_def writeDataLengthGated_def startCryptoGated_def
         writeDataSignatureGated_def succeeds_andThen succeeds_step [OF ans])
  have "succeeds s0 (andThen (transferBegin E d ?ops s0)
         (\<lambda>s1. andThen (writeDataDataGated E (data_bytes d) 0 (data_length d) (op_data ?ops) s1)
         (\<lambda>s2. andThen (transferEnd E d ?ops s2)
         (\<lambda>s3. (kIOReturnSuccess, clearErrorReports s3)))))"
    by (intro succeeds_andThen b succeeds_data [OF ans] e) (simp_all add: p succeeds_def clearErrorReports_def)
  moreover have "updaterAccepts E (data_type d) (kRegUpdaterStatusReady E)" by (simp add: updaterAccepts_def)
  ultimately have "fst (writeDataGated E d ?ops s) = kIOReturnSuccess"
    by (simp add: writeDataGated_def p succeeds_def)
  moreover have "memAt (signature d) 0 \<noteq> 0" if "data_type d = kGgFwUpdDataTypeDigestDictionary"
    using stage that by (auto simp: isImage_def cryptoTypes_def)
  ultimately show ?thesis using type
    by (cases "data_type d")
       (simp_all add: sendData_def writeCertificate_def writeImg4Manifest_def writeDigestDict_def writeImage_def opsFor_def)
qed

text \<open>A gauge that does what it is told and is always ready.\<close>

definition allOps :: "ggOp list" where
  "allOps =
     [kGgFwUpdOpGetUpdStatus, kGgFwUpdOpStartImage, kGgFwUpdOpSetImageData, kGgFwUpdOpSetDone,
      kGgFwUpdOpSetImg4Len, kGgFwUpdOpSetImg4, kGgFwUpdOpSetImg4Sign1, kGgFwUpdOpSetImg4Sign2,
      kGgFwUpdOpSetDigDictLen, kGgFwUpdOpSetDigDict, kGgFwUpdOpStartCrypto, kGgFwUpdOpSetCertLen,
      kGgFwUpdOpSetCert, kGgFwUpdOpSetCertSign1, kGgFwUpdOpSetCertSign2, kGgFwUpdOpGetUid,
      kGgFwUpdOpGetNonce, kGgFwUpdOpStartUpdate, kGgFwUpdOpCommitImage, kGgFwUpdOpGetInfo, kGgFwUpdOpGetInfo2]"

definition exampleOpByte :: "ggOp \<Rightarrow> u8" where
  "exampleOpByte g = of_nat (length (takeWhile (\<lambda>x. x \<noteq> g) allOps))"

lemma inj_exampleOpByte: "inj exampleOpByte"
proof (rule inj_on_inverseI)
  fix g show "allOps ! unat (exampleOpByte g) = g"
    by (cases g) (simp_all add: exampleOpByte_def allOps_def)
qed

definition readyGauge :: "u8 ggEnv" where
  "readyGauge =
     \<lparr>smcWrite = (\<lambda>key bs d. (True, if key = BFUC then hd bs else d)),
      smcRead = (\<lambda>key n d. (Some (zeroed (le16Bytes 1)), d)),
      smcWait = (\<lambda>d. (([\<lparr>nOp = d, nI2c = 0, nChip = 1\<rparr>], True), d)),
      opByte = exampleOpByte, typeByte = (\<lambda>t. case t of kGgFwUpdTypeFirmware \<Rightarrow> 1 | kGgFwUpdTypeConfiguration \<Rightarrow> 2
                                                   | kGgFwUpdTypeDnvd \<Rightarrow> 4),
      kRegUpdaterStatusBusy = 0, kRegUpdaterStatusReady = 1, kRegUpdaterStatusSuccess = 6, kRegUpdaterStatusReset = 9,
      infoOf = (\<lambda>bs. \<lparr>fw_version = le32 bs, config_version = 0, dnvd1_version = 0, dnvd2_version = 0,
                      crypto_version = 0, chip_id = 0, device_type = 0, info_chemistry = 0\<rparr>),
      info2Of = (\<lambda>bs. \<lparr>hw_id = 0, updater_status = 0, is_two_stage_update = True, set_ids_supported = [], set_ids = []\<rparr>)\<rparr>"

lemma answers_readyGauge: "answers readyGauge id"
  by (simp add: answers_def obeys_def reports_def readyGauge_def le16_def le16Bytes_def zeroed_def memAt_def GG_SMCTRANSFER_LEN_def)

definition exampleManifest :: ggIData where
  "exampleManifest =
     \<lparr>signature = replicate 64 7, data_length = 3, data_type = kGgFwUpdDataTypeImg4Manifest, data_bytes = [1, 2, 3]\<rparr>"

lemma exampleManifest_sent: "fst (sendData readyGauge exampleManifest s) = kIOReturnSuccess"
  by (rule answers_sendData [OF answers_readyGauge]) (simp_all add: exampleManifest_def isImage_def)

lemma transfer_refines_witness:
  "messages readyGauge (snd (sendData readyGauge exampleManifest (gaugeLoaded 0))) =
     transferMessages readyGauge exampleManifest (opsFor readyGauge kGgFwUpdDataTypeImg4Manifest)"
proof -
  have "inj (opByte readyGauge)" by (simp add: readyGauge_def inj_exampleOpByte)
  from conjunct1 [OF transfer_refines [OF this, of exampleManifest "gaugeLoaded 0"]]
  have "messages readyGauge (snd (sendData readyGauge exampleManifest (gaugeLoaded 0))) =
      messages readyGauge (gaugeLoaded 0 :: u8 gauge) @
      transferMessages readyGauge exampleManifest (opsFor readyGauge (data_type exampleManifest))"
    by (simp add: exampleManifest_sent Let_def transferMessages_def)
  then show ?thesis
    by (simp add: messages_def mailbox_def gaugeLoaded_def exampleManifest_def)
qed

section \<open>The other properties\<close>

text \<open>C33: A transfer to a gauge that answers and is ready succeeds, whatever its length, for certificates,
  manifests, digest dictionaries whose number of crypto types is not zero, and images when the update is
  done in two stages.  It says nothing of images in a single stage, whose start waits for the status
  Success or Reset instead, nor of digest dictionaries without crypto types.\<close>

theorem ready_transfer_succeeds:
  assumes ans: "answers E lastOp" and type: "data_type d \<noteq> kGgFwUpdDataTypeMax"
    and stage: "if isImage (data_type d) then ggTwoStageUpdate s
      else (if data_type d = kGgFwUpdDataTypeDigestDictionary then cryptoTypes E (memAt (signature d) 0) \<noteq> 0 else True)"
  shows "fst (sendData E d s) = kIOReturnSuccess"
  using assms by (rule answers_sendData)

lemma ready_transfer_succeeds_witness: "fst (sendData readyGauge exampleManifest (gaugeLoaded 0)) = kIOReturnSuccess"
  by (rule ready_transfer_succeeds [OF answers_readyGauge]) (simp_all add: exampleManifest_def isImage_def)

text \<open>C31: In every reachable state every write of the driver had the size of its key, 32 bytes of data
  or one byte of command, and the errors that it publishes are errors: a bus status that is not zero,
  an updater status above one that is not the success.\<close>

theorem writes_sized:
  assumes "gaugeReachable E s"
  shows "sizedWrites s \<and> errorsPublished E s"
proof
  show "sizedWrites s"
    by (rule gauge_invariant_reachable [OF assms sized.gauge_invariant_axioms]) (simp add: sizedWrites_def gaugeLoaded_def)
  show "errorsPublished E s"
    by (rule gauge_invariant_reachable [OF assms published.gauge_invariant_axioms])
       (simp add: errorsPublished_def gaugeLoaded_def)
qed

definition exampleMemory :: "u8 list" where
  "exampleMemory = replicate 64 7 @ [3, 0, 0, 0, 0, 0, 0, 0] @ [1, 0, 0, 0, 0, 0, 0, 0] @ [1, 2, 3]"

lemma writes_sized_witness:
  "sizedWrites (snd (extSendData readyGauge (Some exampleMemory) 83 None False (gaugeLoaded 0)))"
  by (rule conjunct1 [OF writes_sized [OF gauge_step [OF gauge_loaded step_send]]])

text \<open>C32: The data that a client sends lies in the memory that it passes.  Of the structure and the
  descriptor the kernel passes one, and the size with the structure; then the request is refused and
  nothing happens, or the structure and all of its data lie in that memory and the type is a type.\<close>

theorem extSendData_in_bounds:
  assumes "case md of Some mem \<Rightarrow> len = 0 \<and> length mem < 2 ^ 64 | None \<Rightarrow> case_option True (\<lambda>mem. len = length mem) si"
    and "len < 2 ^ 32"
  shows "extSendData E si len md mapped s \<in> {(kIOReturnBadArgument, s), (kIOReturnNoMemory, s)} \<or>
         (\<exists>mem. (md = Some mem \<or> md = None \<and> si = Some mem) \<and>
            sizeofIData + data_length (iDataOf mem) \<le> length mem \<and> data_type (iDataOf mem) \<noteq> kGgFwUpdDataTypeMax \<and>
            extSendData E si len md mapped s = sendData E (iDataOf mem) s)"
proof -
  have w: "unat (of_nat n - of_nat sizeofIData :: u64) = n - sizeofIData" if "sizeofIData < n" "n < 2 ^ 64" for n
  proof -
    have "of_nat n - of_nat sizeofIData = (of_nat (n - sizeofIData) :: u64)"
      using that(1) by (simp add: of_nat_diff)
    moreover have "n - sizeofIData < 2 ^ LENGTH(64)" using that by simp
    ultimately show ?thesis by (simp only: unat_of_nat mod_less)
  qed
  show ?thesis
  proof (cases "argsValid si len md")
    case False
    then show ?thesis by (simp add: extSendData_def)
  next
    case True
    show ?thesis
    proof (cases md)
      case (Some mem)
      with True assms(1) have "sizeofIData < length mem" "length mem < 2 ^ 64"
        by (auto simp: argsValid_def split: if_splits)
      then show ?thesis using True Some by (auto simp: extSendData_def Let_def w)
    next
      case None
      with True assms obtain mem where "si = Some mem" "sizeofIData < length mem" "length mem < 2 ^ 32" "len = length mem"
        by (auto simp: argsValid_def split: option.splits if_splits)
      then show ?thesis using True None by (auto simp: extSendData_def Let_def w)
    qed
  qed
qed

lemma exampleMemory_accepted:
  "fst (extSendData readyGauge (Some exampleMemory) 83 None False s) = kIOReturnSuccess"
proof -
  have "argsValid (Some exampleMemory) 83 None" "data_type (iDataOf exampleMemory) = kGgFwUpdDataTypeImg4Manifest"
      "data_length (iDataOf exampleMemory) = 3"
    by (simp_all add: argsValid_def iDataOf_def exampleMemory_def le64_def upt_rec memAt_def nth_append
          sizeofIData_def dataTypeOf_def)
  moreover from this have "fst (sendData readyGauge (iDataOf exampleMemory) s) = kIOReturnSuccess"
    by (intro answers_sendData [OF answers_readyGauge]) (simp_all add: isImage_def)
  ultimately show ?thesis by (simp add: extSendData_def sizeofIData_def)
qed

lemma extSendData_in_bounds_witness:
  "extSendData readyGauge (Some exampleMemory) 83 None False (gaugeLoaded 0) =
     sendData readyGauge (iDataOf exampleMemory) (gaugeLoaded 0) \<and>
   sizeofIData + data_length (iDataOf exampleMemory) \<le> length exampleMemory"
proof -
  have "length exampleMemory = 83" by (simp add: exampleMemory_def)
  with extSendData_in_bounds [where md = None and len = 83 and si = "Some exampleMemory" and E = readyGauge
      and mapped = False and s = "gaugeLoaded 0"] exampleMemory_accepted [of "gaugeLoaded 0"]
  show ?thesis by auto
qed

section \<open>Failures\<close>

text \<open>
  A command whose notification does not come within the timeout fails, although the code takes it
  for missed and means to go on: the status of an earlier command is that of another operation.
\<close>

lemma missed_notification_fails:
  assumes "smcWait E (smcState (snd (smcWriteKey E BFUC [op] s))) = (([], False), d)"
    and "nOp (notified (snd (smcWriteKey E BFUC [op] s))) \<noteq> op"
  shows "fst (setCommand E op s) = kIOReturnIOError"
  using assms
  by (cases "smcWriteKey E BFUC [op] s") (simp add: setCommand_def commandSleep_def smcEmit_def checkOperationStatus_def)

text \<open>The length of a manifest is sent modulo 65536, all of its bytes are.\<close>

lemma manifest_length_truncated:
  "data_type d = kGgFwUpdDataTypeImg4Manifest \<Longrightarrow> data_length d = 65537 \<Longrightarrow>
   beginMessage E d (opsFor E (data_type d)) = (opByte E kGgFwUpdOpSetImg4Len, zeroed [1, 0])"
  by (simp add: beginMessage_def opsFor_def le16Bytes_def)

text \<open>An updater in a state in which it does not take the data is left alone: the transfer fails
  and not a message is sent.\<close>

theorem other_state_refused:
  assumes "pollUpdaterStatus E 2800 700 s = ((kIOReturnSuccess, status), s0)"
    and "\<not> updaterAccepts E (data_type d) status"
  shows "fst (sendData E d s) \<in> {kIOReturnInternalError, kIOReturnBadArgument} \<and>
         messages E (snd (sendData E d s)) = messages E s"
proof -
  have "messages E s0 = messages E s"
    using pollLoop_view [of E 700 "2800 div 700 + 1" "kRegUpdaterStatusBusy E" s] assms(1)
    by (simp add: pollUpdaterStatus_def)
  then show ?thesis using assms
    by (cases "data_type d")
       (simp_all add: sendData_def writeCertificate_def writeImg4Manifest_def writeDigestDict_def writeImage_def
          writeDataGated_def)
qed

lemma other_state_refused_witness:
  "messages (readyGauge\<lparr>kRegUpdaterStatusReady := 2\<rparr>)
     (snd (sendData (readyGauge\<lparr>kRegUpdaterStatusReady := 2\<rparr>) exampleManifest (gaugeLoaded 0))) =
   messages (readyGauge\<lparr>kRegUpdaterStatusReady := 2\<rparr>) (gaugeLoaded 0)"
proof -
  let ?E = "readyGauge\<lparr>kRegUpdaterStatusReady := 2\<rparr>"
  have "obeys ?E id" "reports ?E 1"
    by (simp_all add: obeys_def reports_def readyGauge_def le16_def le16Bytes_def zeroed_def memAt_def GG_SMCTRANSFER_LEN_def)
  then obtain s0 where "pollUpdaterStatus ?E 2800 700 (gaugeLoaded 0) = ((kIOReturnSuccess, 1), s0)"
    by (rule obeys_poll)
  from conjunct2 [OF other_state_refused [OF this, of exampleManifest]] show ?thesis
    by (simp add: updaterAccepts_def exampleManifest_def isImage_def readyGauge_def)
qed

end
