(* ===== verification/BatteryAuth.thy ===== *)
theory BatteryAuth
  imports SmcClient
begin

unbundle bit_operations_syntax

text \<open>
  Authentication of the battery (AppleBatteryAuth.cpp): commands of the authentication service, each
  carried out by a thread in one or more exchanges with the co-processor behind the controller, and
  answered by a call.  The numbers of the operations and the chip come from outside the repository: they
  are parameters.  The memory that the driver allocates can be allocated.
\<close>

section \<open>Commands, operations and state\<close>

datatype authCommand =
    kAuthCommandIDGetCertSN
  | kAuthCommandIDGetInfo
  | kAuthCommandIDGetSignature
  | kAuthCommandIDGetCert
  | kAuthCommandIDSetTrustStatus
  | kAuthCommandIDOther

text \<open>\<open>kBatteryAuthOpGetCert n\<close> stands for \<open>kBatteryAuthOpGetCert0\<close> to \<open>kBatteryAuthOpGetCert9\<close>.\<close>

datatype battOp =
    kBatteryAuthOpGetInfo
  | kBatteryAuthOpGetCertSerial
  | kBatteryAuthOpGetCertLength
  | kBatteryAuthOpGetNonce
  | kBatteryAuthOpGetSignature
  | kBatteryAuthOpGetStatus
  | kBatteryAuthOpSetChallenge
  | kBatteryAuthOpSetAuthStatus
  | kBatteryAuthOpGetCert nat

datatype battChannel =
    kAuthCommandIDGetCertSNID
  | kAuthCommandIDGetInfoID
  | kAuthCommandIDGetSignatureID
  | kAuthCommandIDGetCertID
  | kAuthCommandIDSetTrustStatusID
  | kGGResetCountID

definition BATT_AUTH_CERTSERIAL_LEN :: nat where "BATT_AUTH_CERTSERIAL_LEN = 32"
definition BATT_AUTH_CHALLENGE_LEN :: nat where "BATT_AUTH_CHALLENGE_LEN = 32"
definition BATT_AUTH_SIGNATURE_LEN :: nat where "BATT_AUTH_SIGNATURE_LEN = 64"
definition BATT_AUTH_SMC_DATA_LEN :: nat where "BATT_AUTH_SMC_DATA_LEN = 64"
definition BATT_AUTH_STATUS_LEN :: nat where "BATT_AUTH_STATUS_LEN = 2"
definition BATT_AUTH_MAX_CERT_LENGTH :: nat where "BATT_AUTH_MAX_CERT_LENGTH = 609"
definition POLL_DELAY_SECS :: nat where "POLL_DELAY_SECS = 3"
definition kVeridianAuthStatusOk :: nat where "kVeridianAuthStatusOk = 0xefcc"
definition kAppleBatteryAuthBootArgForceAuth :: u32 where "kAppleBatteryAuthBootArgForceAuth = 1"

text \<open>The dictionary of the chip: five numbers and the serial of a Roswell, the serial of a Veridian.\<close>

datatype authInfo =
    RoswellInfo u8 u8 u8 u8 u32 "u8 list"
  | VeridianInfo "u8 list"

text \<open>What a command is answered with; the serial of the battery is an opaque object.\<close>

datatype authData =
    AuthInfo authInfo "nat option"
  | AuthBytes "u8 list"
  | AuthSignature "u8 list" "u8 list option"

record battAuthCmd =
  cmd_id :: authCommand
  cmd_data :: "u8 list option"

datatype authEvent =
    AuthAccepted authCommand
  | AuthAnswered authCommand IOReturn "authData option"
  | AuthClientsNotified

record 'd baEnv = "'d smcEnv" +
  battOpByte :: "battOp \<Rightarrow> u8"
  isRoswell :: bool
  isVeridian :: bool
  trustedDataEnabled :: bool
  bootArg :: u32
  calendarSeconds :: nat
  serialProperty :: "nat option"

record 'd bauth = "'d smcClient" +
  battAuthOwner :: bool
  battAuthBusy :: bool
  battAuthPending :: "battAuthCmd option"
  dataRetained :: int
  healthNonce :: "u8 list option"
  authPassProperty :: "bool option"
  nonceProperty :: "u8 list option"
  lastTSProperty :: "nat option"
  commErrorLogged :: bool
  procErrorLogged :: bool
  authCommError :: "u8 option"
  authProcError :: "u8 option"
  hasReporter :: bool
  channelValue :: "battChannel \<Rightarrow> int"
  authEvents :: "authEvent list"

definition authEmit :: "authEvent \<Rightarrow> 'd bauth \<Rightarrow> 'd bauth" where
  "authEmit e s = s\<lparr>authEvents := authEvents s @ [e]\<rparr>"

definition bauthCmd2len :: "authCommand \<Rightarrow> nat" where
  "bauthCmd2len cmd =
     (case cmd of
        kAuthCommandIDGetCertSN \<Rightarrow> 32
      | kAuthCommandIDGetInfo \<Rightarrow> 8
      | kAuthCommandIDGetSignature \<Rightarrow> 64
      | kAuthCommandIDGetCert \<Rightarrow> BATT_AUTH_MAX_CERT_LENGTH
      | kAuthCommandIDSetTrustStatus \<Rightarrow> 1
      | kAuthCommandIDOther \<Rightarrow> 0)"

section \<open>Notifications and reports\<close>

text \<open>The notification is an array of three numbers.\<close>

definition authNotifierHandler :: "notification \<Rightarrow> 'd bauth \<Rightarrow> 'd bauth" where
  "authNotifierHandler n s =
     (let s1 = s\<lparr>notified := n\<rparr>;
          s2 = (if nI2c n \<noteq> 0 \<and> \<not> commErrorLogged s1
                then s1\<lparr>authCommError := Some (nI2c n), commErrorLogged := True\<rparr> else s1)
      in if nChip n \<noteq> 0 \<and> \<not> procErrorLogged s2
         then s2\<lparr>authProcError := Some (nChip n), commErrorLogged := True\<rparr> else s2)"

definition checkAuthStatus :: "u8 \<Rightarrow> 'd bauth \<Rightarrow> IOReturn" where
  "checkAuthStatus op s =
     (if nOp (notified s) \<noteq> op then kIOReturnIOError
      else if nI2c (notified s) \<noteq> 0 then kIOReturnIOError
      else if nChip (notified s) \<noteq> 0 then kIOReturnIOError
      else kIOReturnSuccess)"

definition bauthOp2channelId :: "battOp \<Rightarrow> battChannel option" where
  "bauthOp2channelId op =
     (case op of
        kBatteryAuthOpGetCertSerial \<Rightarrow> Some kAuthCommandIDGetCertSNID
      | kBatteryAuthOpGetInfo \<Rightarrow> Some kAuthCommandIDGetInfoID
      | kBatteryAuthOpSetChallenge \<Rightarrow> Some kAuthCommandIDGetSignatureID
      | kBatteryAuthOpGetNonce \<Rightarrow> Some kAuthCommandIDGetSignatureID
      | kBatteryAuthOpGetSignature \<Rightarrow> Some kAuthCommandIDGetSignatureID
      | kBatteryAuthOpGetCert n \<Rightarrow> if n \<le> 9 then Some kAuthCommandIDGetCertID else None
      | kBatteryAuthOpSetAuthStatus \<Rightarrow> Some kAuthCommandIDSetTrustStatusID
      | _ \<Rightarrow> None)"

definition incrementValue :: "battChannel \<Rightarrow> int \<Rightarrow> 'd bauth \<Rightarrow> 'd bauth" where
  "incrementValue c n s = s\<lparr>channelValue := (channelValue s)(c := channelValue s c + n)\<rparr>"

definition incrementChannel :: "battOp \<Rightarrow> 'd bauth \<Rightarrow> 'd bauth" where
  "incrementChannel op s =
     (case bauthOp2channelId op of
        None \<Rightarrow> s
      | Some c \<Rightarrow> if hasReporter s then incrementValue c 1 s else s)"

definition readGgResetCount :: "('d, 'e) baEnv_scheme \<Rightarrow> 'd bauth \<Rightarrow> nat \<times> 'd bauth" where
  "readGgResetCount E s =
     (if \<not> isRoswell E then (0, s)
      else case smcWriteKey E GCCM [5, 0] s of
        (ok, s1) \<Rightarrow>
          if \<not> ok then (0, s1)
          else case smcReadKey E GCRW 2 s1 of
            (None, s2) \<Rightarrow> (0, s2)
          | (Some bs, s2) \<Rightarrow> (le16 bs, s2))"

text \<open>The end of an exchange that was repeated: the resets of the gauge are counted, in unsigned arithmetic.\<close>

definition countResets :: "('d, 'e) baEnv_scheme \<Rightarrow> nat \<Rightarrow> nat \<Rightarrow> 'd bauth \<Rightarrow> 'd bauth" where
  "countResets E retry before s =
     (if retry = 0 then s
      else case readGgResetCount E s of
        (cnt, s1) \<Rightarrow>
          let diff = (int cnt - int before) mod 2 ^ 32
          in if diff \<noteq> 0 then incrementValue kGGResetCountID diff s1 else s1)"

section \<open>One exchange\<close>

definition isSetOp :: "battOp \<Rightarrow> bool" where
  "isSetOp op \<longleftrightarrow> op = kBatteryAuthOpSetChallenge \<or> op = kBatteryAuthOpSetAuthStatus"

text \<open>The command is written and its notification awaited and checked.\<close>

definition authOp :: "('d, 'e) baEnv_scheme \<Rightarrow> battOp \<Rightarrow> 'd bauth \<Rightarrow> IOReturn \<times> 'd bauth" where
  "authOp E op s =
     (case smcWriteKey E BATC [battOpByte E op] s of
        (ok, s1) \<Rightarrow>
          if \<not> ok then (kIOReturnIOError, s1)
          else case commandSleep E authNotifierHandler s1 of
            (awakened, s2) \<Rightarrow> (checkAuthStatus (battOpByte E op) s2, s2))"

definition authRead :: "('d, 'e) baEnv_scheme \<Rightarrow> 'd bauth \<Rightarrow> (IOReturn \<times> u8 list) \<times> 'd bauth" where
  "authRead E s =
     (case smcReadKey E BATD BATT_AUTH_SMC_DATA_LEN s of
        (None, s1) \<Rightarrow> ((kIOReturnIOError, []), s1)
      | (Some bs, s1) \<Rightarrow> ((kIOReturnSuccess, memRange bs 0 BATT_AUTH_SMC_DATA_LEN), s1))"

definition authWrite :: "('d, 'e) baEnv_scheme \<Rightarrow> battOp \<Rightarrow> u8 list \<Rightarrow> 'd bauth \<Rightarrow> IOReturn \<times> 'd bauth" where
  "authWrite E op input s =
     (if isSetOp op then
        (case smcWriteKey E BATD (memRange input 0 BATT_AUTH_SMC_DATA_LEN) s of
           (ok, s1) \<Rightarrow> (if ok then kIOReturnSuccess else kIOReturnIOError, s1))
      else (kIOReturnSuccess, s))"

definition infoRound ::
    "('d, 'e) baEnv_scheme \<Rightarrow> battOp \<Rightarrow> u8 list \<Rightarrow> 'd bauth \<Rightarrow> (IOReturn \<times> u8 list) \<times> 'd bauth" where
  "infoRound E op input s =
     (case andThen (authWrite E op input s) (authOp E op) of
        (r, s1) \<Rightarrow>
          if r \<noteq> kIOReturnSuccess then ((r, []), s1)
          else if op = kBatteryAuthOpSetChallenge then ((kIOReturnSuccess, []), IOSleep 550 s1)
          else if op = kBatteryAuthOpSetAuthStatus then ((kIOReturnSuccess, []), s1)
          else authRead E s1)"

function infoLoop ::
    "('d, 'e) baEnv_scheme \<Rightarrow> battOp \<Rightarrow> u8 list \<Rightarrow> nat \<Rightarrow> 'd bauth \<Rightarrow> (IOReturn \<times> u8 list \<times> nat) \<times> 'd bauth" where
  "infoLoop E op input retry s =
     (case infoRound E op input (if retry \<noteq> 0 then IOSleep 700 (incrementChannel op s) else s) of
        ((r, buf), s1) \<Rightarrow>
          if r = kIOReturnSuccess then ((r, buf, retry), s1)
          else if retry < MAX_TRIES then infoLoop E op input (retry + 1) s1
          else ((r, buf, retry + 1), s1))"
  by pat_completeness auto
termination by (relation "measure (\<lambda>(E, op, input, retry, s). MAX_TRIES - retry)") auto

declare infoLoop.simps [simp del]

definition parseAuthInfoRoswell :: "u8 list \<Rightarrow> authInfo" where
  "parseAuthInfoRoswell buf =
     RoswellInfo (memAt buf 0) (memAt buf 1) (memAt buf 2) (memAt buf 3)
       (of_nat (16777216 * unat (memAt buf 4) + 65536 * unat (memAt buf 5) + 256 * unat (memAt buf 6)
                + unat (memAt buf 7)))
       (memRange buf 8 6)"

definition parseAuthInfoVeridian :: "u8 list \<Rightarrow> authInfo" where
  "parseAuthInfoVeridian buf = VeridianInfo (memRange buf 0 4)"

text \<open>What an exchange gives back: nothing, a dictionary, bytes or a length.\<close>

datatype infoResult = InfoNone | InfoDict authInfo | InfoBytes "u8 list" | InfoLength nat

definition infoDecode :: "('d, 'e) baEnv_scheme \<Rightarrow> battOp \<Rightarrow> u8 list \<Rightarrow> IOReturn \<times> infoResult" where
  "infoDecode E op buf =
     (case op of
        kBatteryAuthOpGetInfo \<Rightarrow>
          if isRoswell E then (kIOReturnSuccess, InfoDict (parseAuthInfoRoswell buf))
          else if isVeridian E then (kIOReturnSuccess, InfoDict (parseAuthInfoVeridian buf))
          else (kIOReturnNoMemory, InfoNone)
      | kBatteryAuthOpGetCertSerial \<Rightarrow> (kIOReturnSuccess, InfoBytes (memRange buf 0 BATT_AUTH_CERTSERIAL_LEN))
      | kBatteryAuthOpGetCertLength \<Rightarrow> (kIOReturnSuccess, InfoLength (le16 buf))
      | kBatteryAuthOpGetNonce \<Rightarrow> (kIOReturnSuccess, InfoBytes (memRange buf 0 BATT_AUTH_CHALLENGE_LEN))
      | kBatteryAuthOpGetSignature \<Rightarrow> (kIOReturnSuccess, InfoBytes (memRange buf 0 BATT_AUTH_SIGNATURE_LEN))
      | kBatteryAuthOpGetStatus \<Rightarrow> (kIOReturnSuccess, InfoBytes (memRange buf 0 BATT_AUTH_STATUS_LEN))
      | _ \<Rightarrow> (kIOReturnSuccess, InfoNone))"

definition getInfo ::
    "('d, 'e) baEnv_scheme \<Rightarrow> battOp \<Rightarrow> u8 list \<Rightarrow> 'd bauth \<Rightarrow> (IOReturn \<times> infoResult) \<times> 'd bauth" where
  "getInfo E op input s =
     (case readGgResetCount E s of
        (before, s1) \<Rightarrow>
          case infoLoop E op input 0 s1 of
            ((r, buf, retry), s2) \<Rightarrow>
              let s3 = countResets E retry before s2
              in (if r \<noteq> kIOReturnSuccess then (r, InfoNone) else infoDecode E op buf, s3))"

definition bytesOf :: "infoResult \<Rightarrow> u8 list" where
  "bytesOf r = (case r of InfoBytes bs \<Rightarrow> bs | _ \<Rightarrow> [])"

section \<open>The certificate\<close>

text \<open>
  The blocks from number \<open>i\<close> while bytes are left: the result, the bytes left, the next number and
  what has been read.
\<close>

function certLoop ::
    "('d, 'e) baEnv_scheme \<Rightarrow> nat \<Rightarrow> nat \<Rightarrow> u8 list \<Rightarrow> 'd bauth
     \<Rightarrow> (IOReturn \<times> nat \<times> nat \<times> u8 list) \<times> 'd bauth" where
  "certLoop E clen i cert s =
     (if clen = 0 \<or> 9 < i then ((kIOReturnSuccess, clen, i, cert), s)
      else case authOp E (kBatteryAuthOpGetCert i) s of
        (r, s1) \<Rightarrow>
          if r \<noteq> kIOReturnSuccess then ((r, clen, i, cert), s1)
          else case authRead E s1 of
            ((r2, buf), s2) \<Rightarrow>
              if r2 \<noteq> kIOReturnSuccess then ((r2, clen, i, cert), s2)
              else
                let sz = min clen BATT_AUTH_SMC_DATA_LEN
                in certLoop E (clen - sz) (i + 1) (cert @ memRange buf 0 sz) s2)"
  by pat_completeness auto
termination
  by (relation "measure (\<lambda>(E, clen, i, cert, s). clen)") (auto simp: BATT_AUTH_SMC_DATA_LEN_def)

declare certLoop.simps [simp del]

text \<open>The attempts: each starts a new buffer, but goes on from where the last has failed.\<close>

function certTries ::
    "('d, 'e) baEnv_scheme \<Rightarrow> nat \<Rightarrow> nat \<Rightarrow> nat \<Rightarrow> 'd bauth
     \<Rightarrow> (IOReturn \<times> u8 list option \<times> nat) \<times> 'd bauth" where
  "certTries E clen i retry s =
     (case certLoop E clen i [] (if retry \<noteq> 0 then IOSleep 700 (incrementChannel (kBatteryAuthOpGetCert i) s) else s) of
        ((r, clen', i', cert), s1) \<Rightarrow>
          if r = kIOReturnSuccess then ((r, Some (memRange cert 0 clen), retry), s1)
          else if retry < MAX_TRIES then certTries E clen' i' (retry + 1) s1
          else ((r, None, retry + 1), s1))"
  by pat_completeness auto
termination by (relation "measure (\<lambda>(E, clen, i, retry, s). MAX_TRIES - retry)") auto

declare certTries.simps [simp del]

definition getCertificate ::
    "('d, 'e) baEnv_scheme \<Rightarrow> authCommand \<Rightarrow> 'd bauth \<Rightarrow> (IOReturn \<times> u8 list option) \<times> 'd bauth" where
  "getCertificate E cmd s =
     (case getInfo E kBatteryAuthOpGetCertLength [] s of
        ((r, info), s1) \<Rightarrow>
          if r \<noteq> kIOReturnSuccess then ((r, None), s1)
          else
            let clen = (case info of InfoLength n \<Rightarrow> n | _ \<Rightarrow> 0)
            in if bauthCmd2len cmd < clen then ((kIOReturnInternalError, None), s1)
               else case readGgResetCount E s1 of
                 (before, s2) \<Rightarrow>
                   case certTries E clen 0 0 s2 of
                     ((r2, cert, retry), s3) \<Rightarrow> ((r2, cert), countResets E retry before s3))"

section \<open>The commands\<close>

text \<open>\<open>n\<close> rounds of the poll are left.\<close>

fun veridianPoll :: "('d, 'e) baEnv_scheme \<Rightarrow> nat \<Rightarrow> 'd bauth \<Rightarrow> IOReturn \<times> 'd bauth" where
  "veridianPoll E 0 s = (kIOReturnTimeout, s)"
| "veridianPoll E (Suc n) s =
     (case getInfo E kBatteryAuthOpGetStatus [] (IOSleep (POLL_DELAY_SECS * 1000) s) of
        ((r, info), s1) \<Rightarrow>
          if r \<noteq> kIOReturnSuccess then (r, s1)
          else if le16 (bytesOf info) = kVeridianAuthStatusOk then (kIOReturnSuccess, s1)
          else veridianPoll E n s1)"

definition veridianPollAuthStatus :: "('d, 'e) baEnv_scheme \<Rightarrow> nat \<Rightarrow> 'd bauth \<Rightarrow> IOReturn \<times> 'd bauth" where
  "veridianPollAuthStatus E timeout_sec s = veridianPoll E ((timeout_sec + (POLL_DELAY_SECS - 1)) div POLL_DELAY_SECS) s"

definition copyDeviceNonceTrustedData :: "('d, 'e) baEnv_scheme \<Rightarrow> u8 list \<Rightarrow> 'd bauth \<Rightarrow> 'd bauth" where
  "copyDeviceNonceTrustedData E nonce s =
     (if \<not> trustedDataEnabled E then s else s\<lparr>healthNonce := Some nonce\<rparr>)"

definition checkTrustValueAndPublishNonce :: "('d, 'e) baEnv_scheme \<Rightarrow> u8 list \<Rightarrow> 'd bauth \<Rightarrow> 'd bauth" where
  "checkTrustValueAndPublishNonce E authStatus s =
     (if \<not> trustedDataEnabled E then s
      else
        let authPassed = (memAt authStatus 0 \<noteq> 0);
            s1 = (if authPassed \<and> healthNonce s \<noteq> None
                  then s\<lparr>authPassProperty := Some True, nonceProperty := healthNonce s,
                         lastTSProperty := Some (calendarSeconds E)\<rparr>
                  else s\<lparr>authPassProperty := Some False\<rparr>)
        in (authEmit AuthClientsNotified s1)\<lparr>healthNonce := None\<rparr>)"

definition forceAuth :: "('d, 'e) baEnv_scheme \<Rightarrow> bool" where
  "forceAuth E \<longleftrightarrow> bootArg E AND kAppleBatteryAuthBootArgForceAuth \<noteq> 0"

definition releaseData :: "'d bauth \<Rightarrow> 'd bauth" where
  "releaseData s = s\<lparr>dataRetained := dataRetained s - 1\<rparr>"

definition authGetInfo :: "('d, 'e) baEnv_scheme \<Rightarrow> 'd bauth \<Rightarrow> (IOReturn \<times> authData option) \<times> 'd bauth" where
  "authGetInfo E s =
     (case getInfo E kBatteryAuthOpGetInfo [] s of
        ((r, info), s1) \<Rightarrow>
          ((r, if r \<noteq> kIOReturnSuccess then None
               else case info of InfoDict i \<Rightarrow> Some (AuthInfo i (serialProperty E)) | _ \<Rightarrow> None), s1))"

definition authGetCertSN :: "('d, 'e) baEnv_scheme \<Rightarrow> 'd bauth \<Rightarrow> (IOReturn \<times> authData option) \<times> 'd bauth" where
  "authGetCertSN E s =
     (case getInfo E kBatteryAuthOpGetCertSerial [] s of
        ((r, info), s1) \<Rightarrow> ((r, if r \<noteq> kIOReturnSuccess then None else Some (AuthBytes (bytesOf info))), s1))"

definition authGetCert :: "('d, 'e) baEnv_scheme \<Rightarrow> 'd bauth \<Rightarrow> (IOReturn \<times> authData option) \<times> 'd bauth" where
  "authGetCert E s =
     (case getCertificate E kAuthCommandIDGetCert s of
        ((r, cert), s1) \<Rightarrow> ((r, if r \<noteq> kIOReturnSuccess then None else map_option AuthBytes cert), s1))"

text \<open>The nonce of a Veridian, once it reports that it has authenticated.\<close>

definition veridianNonce :: "('d, 'e) baEnv_scheme \<Rightarrow> 'd bauth \<Rightarrow> (IOReturn \<times> u8 list option) \<times> 'd bauth" where
  "veridianNonce E s =
     (if \<not> isVeridian E then ((kIOReturnSuccess, None), s)
      else case veridianPollAuthStatus E 20 s of
        (r, s1) \<Rightarrow>
          if r \<noteq> kIOReturnSuccess then ((r, None), s1)
          else case getInfo E kBatteryAuthOpGetNonce [] s1 of
            ((r2, info), s2) \<Rightarrow>
              ((r2, if r2 \<noteq> kIOReturnSuccess then None else Some (bytesOf info)), s2))"

definition authGetSignature ::
    "('d, 'e) baEnv_scheme \<Rightarrow> u8 list \<Rightarrow> 'd bauth \<Rightarrow> (IOReturn \<times> authData option) \<times> 'd bauth" where
  "authGetSignature E data s =
     (case getInfo E kBatteryAuthOpSetChallenge data s of
        ((r, info), s1) \<Rightarrow>
          let s2 = releaseData s1 in
          if r \<noteq> kIOReturnSuccess then ((r, None), s2)
          else case veridianNonce E s2 of
            ((r2, nonce), s3) \<Rightarrow>
              if r2 \<noteq> kIOReturnSuccess then ((r2, None), s3)
              else case getInfo E kBatteryAuthOpGetSignature [] s3 of
                ((r3, sig), s4) \<Rightarrow>
                  if r3 \<noteq> kIOReturnSuccess then ((r3, None), s4)
                  else
                    ((kIOReturnSuccess, Some (AuthSignature (bytesOf sig) nonce)),
                     case nonce of
                       None \<Rightarrow> s4
                     | Some n \<Rightarrow>
                         let s5 = copyDeviceNonceTrustedData E n s4
                         in if forceAuth E then checkTrustValueAndPublishNonce E [1, 0, 0, 0] s5 else s5))"

definition authSetTrustStatus ::
    "('d, 'e) baEnv_scheme \<Rightarrow> u8 list \<Rightarrow> 'd bauth \<Rightarrow> (IOReturn \<times> authData option) \<times> 'd bauth" where
  "authSetTrustStatus E data s =
     (let s1 = (if \<not> forceAuth E then checkTrustValueAndPublishNonce E data s else s) in
      case getInfo E kBatteryAuthOpSetAuthStatus data s1 of
        ((r, info), s2) \<Rightarrow> ((r, None), releaseData s2))"

definition authCommand ::
    "('d, 'e) baEnv_scheme \<Rightarrow> battAuthCmd \<Rightarrow> 'd bauth \<Rightarrow> (IOReturn \<times> authData option) \<times> 'd bauth" where
  "authCommand E cmd s =
     (let data = (case cmd_data cmd of Some d \<Rightarrow> d | None \<Rightarrow> []) in
      case cmd_id cmd of
        kAuthCommandIDGetInfo \<Rightarrow> authGetInfo E s
      | kAuthCommandIDGetCertSN \<Rightarrow> authGetCertSN E s
      | kAuthCommandIDGetCert \<Rightarrow> authGetCert E s
      | kAuthCommandIDGetSignature \<Rightarrow> authGetSignature E data s
      | kAuthCommandIDSetTrustStatus \<Rightarrow> authSetTrustStatus E data s
      | kAuthCommandIDOther \<Rightarrow> ((kIOReturnBadArgument, None), s))"

text \<open>The thread of a command: the pending one is carried out and answered, then the interface is free.\<close>

definition battAuthThread :: "('d, 'e) baEnv_scheme \<Rightarrow> 'd bauth \<Rightarrow> 'd bauth" where
  "battAuthThread E s =
     (case battAuthPending s of
        None \<Rightarrow> s
      | Some cmd \<Rightarrow>
          case authCommand E cmd (s\<lparr>battAuthPending := None\<rparr>) of
            ((r, retdata), s1) \<Rightarrow> (authEmit (AuthAnswered (cmd_id cmd) r retdata) s1)\<lparr>battAuthBusy := False\<rparr>)"

section \<open>Requests\<close>

definition interfaceTryGet :: "bool \<Rightarrow> 'd bauth \<Rightarrow> bool \<times> 'd bauth" where
  "interfaceTryGet lockFree s =
     (if \<not> lockFree then (False, s)
      else if battAuthBusy s then (False, s)
      else (True, s\<lparr>battAuthBusy := True\<rparr>))"

text \<open>The data that a command has to come with, retained for the thread.\<close>

definition dataRefused :: "authCommand \<Rightarrow> u8 list option \<Rightarrow> IOReturn option" where
  "dataRefused cmdId data =
     (case cmdId of
        kAuthCommandIDSetTrustStatus \<Rightarrow>
          (case data of
             None \<Rightarrow> Some kIOReturnBadArgument
           | Some d \<Rightarrow> if length d \<noteq> bauthCmd2len cmdId then Some kIOReturnBadArgument else None)
      | kAuthCommandIDGetSignature \<Rightarrow>
          (case data of
             None \<Rightarrow> Some kIOReturnBadArgument
           | Some d \<Rightarrow> if length d \<noteq> BATT_AUTH_CHALLENGE_LEN then Some kIOReturnBadArgument else None)
      | kAuthCommandIDOther \<Rightarrow> Some kIOReturnError
      | _ \<Rightarrow> None)"

definition takesData :: "authCommand \<Rightarrow> bool" where
  "takesData c \<longleftrightarrow> c = kAuthCommandIDSetTrustStatus \<or> c = kAuthCommandIDGetSignature"

text \<open>\<open>lockFree\<close>: the lock of the submission can be taken.\<close>

definition authSendData :: "authCommand \<Rightarrow> u8 list option \<Rightarrow> bool \<Rightarrow> 'd bauth \<Rightarrow> IOReturn \<times> 'd bauth" where
  "authSendData cmdId data lockFree s =
     (if \<not> battAuthOwner s then (kIOReturnError, s)
      else case dataRefused cmdId data of
        Some r \<Rightarrow> (r, s)
      | None \<Rightarrow>
          let s1 = (if takesData cmdId then s\<lparr>dataRetained := dataRetained s + 1\<rparr> else s) in
          case interfaceTryGet lockFree s1 of
            (got, s2) \<Rightarrow>
              if \<not> got then (kIOReturnBusy, s2)
              else (kIOReturnSuccess,
                    authEmit (AuthAccepted cmdId) (s2\<lparr>battAuthPending := Some \<lparr>cmd_id = cmdId, cmd_data = data\<rparr>\<rparr>)))"

text \<open>
  The start of the service: whether owner and action are given, the gate, the two thread calls can be made
  and the notification registered.
\<close>

definition authInit :: "bool \<Rightarrow> bool \<Rightarrow> bool \<Rightarrow> bool \<Rightarrow> bool \<Rightarrow> 'd bauth \<Rightarrow> IOReturn \<times> 'd bauth" where
  "authInit given gateMade threadMade notifierMade registered s =
     (if \<not> given then (kIOReturnBadArgument, s)
      else if \<not> gateMade then (kIOReturnError, s)
      else
        let s1 = s\<lparr>battAuthOwner := True\<rparr>
        in if \<not> threadMade then (kIOReturnInternalError, s1)
           else if \<not> notifierMade then (kIOReturnInternalError, s1)
           else if \<not> registered then (kIOReturnInternalError, s1)
           else (kIOReturnSuccess, s1\<lparr>healthNonce := None\<rparr>))"

definition bauthLoaded :: "'d \<Rightarrow> 'd bauth" where
  "bauthLoaded d =
     \<lparr>smcState = d, notified = \<lparr>nOp = 0, nI2c = 0, nChip = 0\<rparr>, smcLog = [], battAuthOwner = False,
      battAuthBusy = False, battAuthPending = None, dataRetained = 0, healthNonce = None, authPassProperty = None,
      nonceProperty = None, lastTSProperty = None, commErrorLogged = False, procErrorLogged = False,
      authCommError = None, authProcError = None, hasReporter = True, channelValue = (\<lambda>c. 0), authEvents = []\<rparr>"

end
