(* ===== verification/BatteryAuthProperties.thy ===== *)
theory BatteryAuthProperties
  imports BatteryAuth
begin

unbundle bit_operations_syntax

text \<open>
  What holds of the authentication of the battery: every accepted command is answered once, in order;
  a certificate read without an error is the chip's; the nonce of the trusted data is published only with
  an authentication that passed, and not twice.
\<close>

section \<open>Invariants of an exchange\<close>

definition authSized :: "smcKey \<times> u8 list \<Rightarrow> bool" where
  "authSized w \<longleftrightarrow>
     (case w of (BATD, bs) \<Rightarrow> length bs = BATT_AUTH_SMC_DATA_LEN | (BATC, bs) \<Rightarrow> length bs = 1
              | (GCCM, bs) \<Rightarrow> length bs = 2 | _ \<Rightarrow> False)"

text \<open>What the elementary steps keep, the commands keep.\<close>

locale auth_invariant =
  fixes E :: "('d, 'e) baEnv_scheme" and I :: "'d bauth \<Rightarrow> bool"
  assumes written: "authSized (key, bs) \<Longrightarrow> I s \<Longrightarrow> I (snd (writeOnce E key bs s))"
    and read: "I s \<Longrightarrow> I (snd (readOnce E key len s))"
    and slept: "I s \<Longrightarrow> I (IOSleep n s)"
    and waited: "I s \<Longrightarrow> I (snd (commandSleep E authNotifierHandler s))"
    and counted: "I s \<Longrightarrow> I (incrementValue c m s)"
begin

lemma writeKey: "authSized (key, bs) \<Longrightarrow> I s \<Longrightarrow> I (snd (smcWriteKey E key bs s))"
proof -
  assume size: "authSized (key, bs)" and s: "I s"
  have "I (snd (writeTries E key bs n s))" for n
    using s
  proof (induction n arbitrary: s)
    case (Suc n)
    then show ?case using written [OF size Suc.prems] by (auto simp: slept split: prod.splits)
  qed (simp add: written size)
  then show ?thesis by (simp add: smcWriteKey_def)
qed

lemma readKey: "I s \<Longrightarrow> I (snd (smcReadKey E key len s))"
proof -
  assume s: "I s"
  have "I (snd (readTries E key len n s))" for n
    using s
  proof (induction n arbitrary: s)
    case (Suc n)
    then show ?case using read [OF Suc.prems, of key len] by (auto simp: slept split: prod.splits)
  qed (simp add: read)
  then show ?thesis by (simp add: smcReadKey_def)
qed

lemma incremented: "I s \<Longrightarrow> I (incrementChannel op s)"
  by (simp add: incrementChannel_def counted split: option.split)

lemma resetCount: "I s \<Longrightarrow> I (snd (readGgResetCount E s))"
proof -
  assume s: "I s"
  obtain ok s1 where 1: "smcWriteKey E GCCM [5, 0] s = (ok, s1)" by fastforce
  obtain b s2 where 2: "smcReadKey E GCRW 2 s1 = (b, s2)" by fastforce
  have "I s1" "I s2" using writeKey [of GCCM "[5, 0]" s] readKey [of s1 GCRW 2] s 1 2 by (simp_all add: authSized_def)
  then show ?thesis using s by (simp add: readGgResetCount_def 1 2 split: option.split)
qed

lemma resetsCounted: "I s \<Longrightarrow> I (countResets E retry before s)"
  using resetCount [of s] by (auto simp: countResets_def Let_def counted split: prod.splits)

lemma op: "I s \<Longrightarrow> I (snd (authOp E op s))"
proof -
  assume s: "I s"
  obtain ok s1 where 1: "smcWriteKey E BATC [battOpByte E op] s = (ok, s1)" by fastforce
  have "I s1" using writeKey [of BATC "[battOpByte E op]" s] s 1 by (simp add: authSized_def)
  then show ?thesis using waited [of s1] by (auto simp: authOp_def 1 split: prod.splits)
qed

lemma readData: "I s \<Longrightarrow> I (snd (authRead E s))"
  using readKey [of s BATD BATT_AUTH_SMC_DATA_LEN] by (auto simp: authRead_def split: prod.splits option.splits)

lemma writeData: "I s \<Longrightarrow> I (snd (authWrite E op input s))"
proof -
  assume s: "I s"
  obtain ok s1 where 1: "smcWriteKey E BATD (memRange input 0 BATT_AUTH_SMC_DATA_LEN) s = (ok, s1)" by fastforce
  have "I s1" using writeKey [of BATD "memRange input 0 BATT_AUTH_SMC_DATA_LEN" s] s 1 by (simp add: authSized_def)
  then show ?thesis using s by (simp add: authWrite_def 1)
qed

lemma round: "I s \<Longrightarrow> I (snd (infoRound E op' input s))"
proof -
  assume s: "I s"
  obtain r s1 where 1: "andThen (authWrite E op' input s) (authOp E op') = (r, s1)" by fastforce
  have "I s1" using writeData [OF s, of op' input] op 1
    by (cases "authWrite E op' input s") (auto simp: andThen_def split: if_splits; metis snd_conv)
  then show ?thesis by (simp add: infoRound_def 1 slept readData)
qed

lemma loop: "I s \<Longrightarrow> I (snd (infoLoop E op' input retry s))"
proof (induction "MAX_TRIES - retry" arbitrary: retry s rule: less_induct)
  case less
  let ?s = "if retry \<noteq> 0 then IOSleep 700 (incrementChannel op' s) else s"
  obtain r buf s1 where 1: "infoRound E op' input ?s = ((r, buf), s1)" by (metis surj_pair)
  have "I ?s" using less.prems by (simp add: slept incremented)
  from round [OF this, of op' input] 1 have "I s1" by simp
  moreover have "I (snd (infoLoop E op' input (retry + 1) s1))" if "retry < MAX_TRIES"
    using less.hyps [of "retry + 1" s1] that \<open>I s1\<close> by simp
  ultimately show ?case unfolding infoLoop.simps [of E op' input retry s] 1 prod.case by simp
qed

lemma info: "I s \<Longrightarrow> I (snd (getInfo E op' input s))"
proof -
  assume s: "I s"
  obtain b s1 where 1: "readGgResetCount E s = (b, s1)" by fastforce
  obtain r buf rt s2 where 2: "infoLoop E op' input 0 s1 = ((r, buf, rt), s2)" by (metis surj_pair)
  have "I s1" using resetCount [OF s] 1 by simp
  then have "I s2" using loop [of s1 op' input 0] 2 by simp
  then show ?thesis by (simp add: getInfo_def 1 2 Let_def resetsCounted)
qed

lemma certificateLoop: "I s \<Longrightarrow> I (snd (certLoop E clen i cert s))"
proof (induction clen arbitrary: i cert s rule: less_induct)
  case (less clen)
  obtain r s1 where 1: "authOp E (kBatteryAuthOpGetCert i) s = (r, s1)" by fastforce
  obtain r2 buf s2 where 2: "authRead E s1 = ((r2, buf), s2)" by (metis surj_pair)
  have "I s1" using op [OF less.prems] 1 by (metis snd_conv)
  moreover from this have "I s2" using readData 2 by (metis snd_conv)
  moreover from this have "clen \<noteq> 0 \<Longrightarrow>
      I (snd (certLoop E (clen - min clen BATT_AUTH_SMC_DATA_LEN) (i + 1) (cert @ memRange buf 0 (min clen BATT_AUTH_SMC_DATA_LEN)) s2))"
    by (intro less.IH) (simp_all add: BATT_AUTH_SMC_DATA_LEN_def)
  ultimately show ?case using less.prems by (subst certLoop.simps) (simp add: 1 2 Let_def)
qed

lemma certificateTries: "I s \<Longrightarrow> I (snd (certTries E clen i retry s))"
proof (induction "MAX_TRIES - retry" arbitrary: clen i retry s rule: less_induct)
  case less
  let ?s = "if retry \<noteq> 0 then IOSleep 700 (incrementChannel (kBatteryAuthOpGetCert i) s) else s"
  obtain r c j b s1 where 1: "certLoop E clen i [] ?s = ((r, c, j, b), s1)" by (metis surj_pair)
  have "I ?s" using less.prems by (simp add: slept incremented)
  from certificateLoop [OF this, of clen i "[]"] 1 have "I s1" by simp
  moreover have "I (snd (certTries E c j (retry + 1) s1))" if "retry < MAX_TRIES"
    using less.hyps [of "retry + 1" s1 c j] that \<open>I s1\<close> by simp
  ultimately show ?case unfolding certTries.simps [of E clen i retry s] 1 prod.case by simp
qed

lemma certificate: "I s \<Longrightarrow> I (snd (getCertificate E cmd s))"
proof -
  assume s: "I s"
  obtain r i s1 where 1: "getInfo E kBatteryAuthOpGetCertLength [] s = ((r, i), s1)" by (metis surj_pair)
  obtain b s2 where 2: "readGgResetCount E s1 = (b, s2)" by fastforce
  let ?clen = "case i of InfoLength n \<Rightarrow> n | _ \<Rightarrow> 0"
  obtain r2 c rt s3 where 3: "certTries E ?clen 0 0 s2 = ((r2, c, rt), s3)" by (metis surj_pair)
  have "I s1" using info [OF s, of kBatteryAuthOpGetCertLength "[]"] 1 by simp
  moreover from this have "I s2" using resetCount 2 by (metis snd_conv)
  moreover from this have "I s3" using certificateTries [of s2 ?clen 0 0] 3 by simp
  ultimately show ?thesis by (simp add: getCertificate_def 1 2 3 Let_def resetsCounted)
qed

lemma poll: "I s \<Longrightarrow> I (snd (veridianPoll E n s))"
proof (induction n arbitrary: s)
  case (Suc n)
  obtain r i s1 where 1: "getInfo E kBatteryAuthOpGetStatus [] (IOSleep (POLL_DELAY_SECS * 1000) s) = ((r, i), s1)"
    by (metis surj_pair)
  then have "I s1"
    using info [OF slept [OF Suc.prems, of "POLL_DELAY_SECS * 1000"], of kBatteryAuthOpGetStatus "[]"] by simp
  with Suc.IH show ?case by (simp add: 1)
qed simp

lemma readNonce: "I s \<Longrightarrow> I (snd (veridianNonce E s))"
proof -
  assume s: "I s"
  obtain r s1 where 1: "veridianPollAuthStatus E 20 s = (r, s1)" by fastforce
  obtain r2 i s2 where 2: "getInfo E kBatteryAuthOpGetNonce [] s1 = ((r2, i), s2)" by (metis surj_pair)
  have "I s1" using poll [OF s] 1 by (metis snd_conv veridianPollAuthStatus_def)
  moreover from this have "I s2" using info [of s1 kBatteryAuthOpGetNonce "[]"] 2 by simp
  ultimately show ?thesis using s by (simp add: veridianNonce_def 1 2)
qed

end

text \<open>An invariant that the effects of a command keep too.\<close>

locale command_invariant = auth_invariant +
  assumes released: "I s \<Longrightarrow> I (releaseData s)"
    and copied: "I s \<Longrightarrow> I (copyDeviceNonceTrustedData E n' s)"
    and published: "I s \<Longrightarrow> I (checkTrustValueAndPublishNonce E d s)"
begin

lemma signature: "I s \<Longrightarrow> I (snd (authGetSignature E data s))"
proof -
  assume s: "I s"
  obtain r i s1 where 1: "getInfo E kBatteryAuthOpSetChallenge data s = ((r, i), s1)" by (metis surj_pair)
  obtain r2 n s3 where 2: "veridianNonce E (releaseData s1) = ((r2, n), s3)" by (metis surj_pair)
  obtain r3 g s4 where 3: "getInfo E kBatteryAuthOpGetSignature [] s3 = ((r3, g), s4)" by (metis surj_pair)
  have a: "I s1" using info [OF s, of kBatteryAuthOpSetChallenge data] 1 by simp
  have b: "I s3" using readNonce [OF released [OF a]] 2 by simp
  have c: "I s4" using info [OF b, of kBatteryAuthOpGetSignature "[]"] 3 by simp
  show ?thesis
    by (simp add: authGetSignature_def 1 2 3 Let_def released a b c copied published split: option.split)
qed

lemma trustStatus: "I s \<Longrightarrow> I (snd (authSetTrustStatus E data s))"
proof -
  assume s: "I s"
  let ?s = "if \<not> forceAuth E then checkTrustValueAndPublishNonce E data s else s"
  obtain r i s1 where 1: "getInfo E kBatteryAuthOpSetAuthStatus data ?s = ((r, i), s1)" by (metis surj_pair)
  have "I ?s" using s by (simp add: published)
  from info [OF this, of kBatteryAuthOpSetAuthStatus data] 1 have "I s1" by simp
  then show ?thesis by (simp only: authSetTrustStatus_def 1 Let_def prod.case snd_conv released)
qed

lemma command: "I s \<Longrightarrow> I (snd (authCommand E cmd s))"
proof -
  assume s: "I s"
  have "I (snd (authGetInfo E s))" "I (snd (authGetCertSN E s))" "I (snd (authGetCert E s))"
    using info [OF s, of kBatteryAuthOpGetInfo "[]"] info [OF s, of kBatteryAuthOpGetCertSerial "[]"]
      certificate [OF s, of kAuthCommandIDGetCert]
    by (auto simp: authGetInfo_def authGetCertSN_def authGetCert_def split: prod.splits)
  then show ?thesis using signature [OF s] trustStatus [OF s] s
    by (cases "cmd_id cmd") (simp_all add: authCommand_def Let_def)
qed

end

section \<open>The frame of a command\<close>

text \<open>The part of the state that the exchanges leave alone.\<close>

definition authView where
  "authView s = (battAuthOwner s, battAuthBusy s, battAuthPending s,
                 filter (\<lambda>e. e \<noteq> AuthClientsNotified) (authEvents s))"

definition trustView where
  "trustView s = (healthNonce s, authPassProperty s, nonceProperty s, lastTSProperty s)"

lemmas view_defs = writeOnce_def readOnce_def smcEmit_def incrementValue_def authView_def trustView_def

lemma handler_views:
  "authView (fold authNotifierHandler ns s) = authView s"
  "trustView (fold authNotifierHandler ns s) = trustView s"
  by (rule fold_view_same, simp add: authNotifierHandler_def Let_def authView_def trustView_def)+

lemma sleep_views:
  "authView (snd (commandSleep E authNotifierHandler s)) = authView s"
  "trustView (snd (commandSleep E authNotifierHandler s)) = trustView s"
proof -
  obtain ns w d where w: "smcWait E (smcState s) = ((ns, w), d)" by (metis surj_pair)
  let ?t = "fold authNotifierHandler ns (s\<lparr>smcState := d\<rparr>)"
  have "authView (smcEmit (SmcWaited w) ?t) = authView ?t" "trustView (smcEmit (SmcWaited w) ?t) = trustView ?t"
    by (simp_all add: smcEmit_def authView_def trustView_def)
  moreover have "authView (s\<lparr>smcState := d\<rparr>) = authView s" "trustView (s\<lparr>smcState := d\<rparr>) = trustView s"
    by (simp_all add: authView_def trustView_def)
  ultimately show "authView (snd (commandSleep E authNotifierHandler s)) = authView s"
    "trustView (snd (commandSleep E authNotifierHandler s)) = trustView s"
    by (simp_all add: commandSleep_def w handler_views)
qed

interpretation calls: command_invariant E "\<lambda>s. authView s = v" for E :: "('d, 'e) baEnv_scheme" and v
  by unfold_locales
     (simp_all add: sleep_views,
      simp_all add: view_defs releaseData_def copyDeviceNonceTrustedData_def checkTrustValueAndPublishNonce_def
        authEmit_def Let_def split: prod.split)

interpretation trust: auth_invariant E "\<lambda>s. trustView s = v" for E :: "('d, 'e) baEnv_scheme" and v
  by unfold_locales (simp_all add: sleep_views, simp_all add: view_defs split: prod.split)

definition trustOk :: "('d, 'e) baEnv_scheme \<Rightarrow> 'd bauth \<Rightarrow> bool" where
  "trustOk E s \<longleftrightarrow>
     (healthNonce s \<noteq> None \<or> nonceProperty s \<noteq> None \<or> authPassProperty s \<noteq> None \<longrightarrow> trustedDataEnabled E) \<and>
     (authPassProperty s = Some True \<longrightarrow> nonceProperty s \<noteq> None) \<and>
     (nonceProperty s \<noteq> None \<longrightarrow> lastTSProperty s = Some (calendarSeconds E))"

lemma trustOk_cong: "trustView s = trustView t \<Longrightarrow> trustOk E s = trustOk E t"
  by (simp add: trustOk_def trustView_def)

interpretation published: command_invariant E "trustOk E" for E :: "('d, 'e) baEnv_scheme"
proof unfold_locales
  fix s :: "'d bauth" assume "trustOk E s"
  then show "trustOk E (snd (commandSleep E authNotifierHandler s))"
    by (rule iffD2 [OF trustOk_cong [OF sleep_views(2)]])
qed (auto simp: trustOk_def writeOnce_def readOnce_def smcEmit_def incrementValue_def releaseData_def
       copyDeviceNonceTrustedData_def checkTrustValueAndPublishNonce_def authEmit_def Let_def split: prod.split)

section \<open>The driver as a machine\<close>

inductive authStep :: "('d, 'e) baEnv_scheme \<Rightarrow> 'd bauth \<Rightarrow> 'd bauth \<Rightarrow> bool" for E where
  auth_init: "authStep E s (snd (authInit given gate thread notifier registered s))"
| auth_send: "authStep E s (snd (authSendData c data lockFree s))"
| auth_run: "authStep E s (battAuthThread E s)"
| auth_notify: "authStep E s (authNotifierHandler n s)"

inductive authReachable :: "('d, 'e) baEnv_scheme \<Rightarrow> 'd bauth \<Rightarrow> bool" for E where
  auth_loaded: "authReachable E (bauthLoaded d)"
| auth_step: "authReachable E s \<Longrightarrow> authStep E s t \<Longrightarrow> authReachable E t"

fun acceptedOf :: "authEvent list \<Rightarrow> authCommand list" where
  "acceptedOf [] = []"
| "acceptedOf (AuthAccepted c # es) = c # acceptedOf es"
| "acceptedOf (e # es) = acceptedOf es"

fun answeredOf :: "authEvent list \<Rightarrow> authCommand list" where
  "answeredOf [] = []"
| "answeredOf (AuthAnswered c r d # es) = c # answeredOf es"
| "answeredOf (e # es) = answeredOf es"

lemma acceptedOf_append [simp]: "acceptedOf (xs @ ys) = acceptedOf xs @ acceptedOf ys"
  by (induction xs rule: acceptedOf.induct) auto

lemma answeredOf_append [simp]: "answeredOf (xs @ ys) = answeredOf xs @ answeredOf ys"
  by (induction xs rule: answeredOf.induct) auto

lemma callsOf_filter:
  "acceptedOf (filter (\<lambda>e. e \<noteq> AuthClientsNotified) es) = acceptedOf es"
  "answeredOf (filter (\<lambda>e. e \<noteq> AuthClientsNotified) es) = answeredOf es"
  by (induction es rule: acceptedOf.induct) auto

definition queueOk :: "'d bauth \<Rightarrow> bool" where
  "queueOk s \<longleftrightarrow>
     acceptedOf (authEvents s) = answeredOf (authEvents s) @ map cmd_id (case battAuthPending s of Some c \<Rightarrow> [c] | None \<Rightarrow> []) \<and>
     battAuthBusy s = (battAuthPending s \<noteq> None)"

lemma battAuthThread_view:
  assumes "battAuthPending s = Some cmd"
  shows "\<exists>r d. authView (battAuthThread E s) =
           (battAuthOwner s, False, None,
            filter (\<lambda>e. e \<noteq> AuthClientsNotified) (authEvents s) @ [AuthAnswered (cmd_id cmd) r d])"
proof -
  obtain r d s1 where 1: "authCommand E cmd (s\<lparr>battAuthPending := None\<rparr>) = ((r, d), s1)" by (metis surj_pair)
  have "authView s1 = authView (s\<lparr>battAuthPending := None\<rparr>)"
    using calls.command [OF refl, of E cmd "s\<lparr>battAuthPending := None\<rparr>"] 1 by simp
  then show ?thesis by (simp add: battAuthThread_def assms 1 authView_def authEmit_def)
qed

lemma queueOk_view:
  "queueOk s \<longleftrightarrow> (case authView s of (ow, b, p, es) \<Rightarrow>
     acceptedOf es = answeredOf es @ map cmd_id (case p of Some c \<Rightarrow> [c] | None \<Rightarrow> []) \<and> b = (p \<noteq> None))"
  by (simp add: queueOk_def authView_def callsOf_filter)

lemma queueOk_step: "authStep E s t \<Longrightarrow> queueOk s \<Longrightarrow> queueOk t"
proof (induction rule: authStep.induct)
  case (auth_init s given gate thread notifier registered)
  then show ?case by (simp add: authInit_def Let_def queueOk_def)
next
  case (auth_send s c data lockFree)
  then show ?case
    by (auto simp: authSendData_def interfaceTryGet_def Let_def queueOk_def authEmit_def split: option.splits prod.splits if_splits)
next
  case (auth_run s)
  show ?case
  proof (cases "battAuthPending s")
    case None
    then show ?thesis using auth_run by (simp add: battAuthThread_def)
  next
    case (Some cmd)
    from battAuthThread_view [OF this, of E] auth_run Some show ?thesis
      by (auto simp: queueOk_view callsOf_filter) (simp add: authView_def callsOf_filter)
  qed
next
  case (auth_notify s n)
  then show ?case using handler_views(1) [of "[n]" s] by (simp add: queueOk_view)
qed

lemma trustOk_step: "authStep E s t \<Longrightarrow> trustOk E s \<Longrightarrow> trustOk E t"
proof (induction rule: authStep.induct)
  case (auth_init s given gate thread notifier registered)
  then show ?case by (simp add: authInit_def Let_def trustOk_def)
next
  case (auth_send s c data lockFree)
  then show ?case
    by (auto simp: authSendData_def interfaceTryGet_def Let_def trustOk_def authEmit_def split: option.splits prod.splits if_splits)
next
  case (auth_run s)
  show ?case
  proof (cases "battAuthPending s")
    case None
    then show ?thesis using auth_run by (simp add: battAuthThread_def)
  next
    case (Some cmd)
    obtain r d s1 where 1: "authCommand E cmd (s\<lparr>battAuthPending := None\<rparr>) = ((r, d), s1)" by (metis surj_pair)
    have "trustOk E s1" using published.command [of E "s\<lparr>battAuthPending := None\<rparr>" cmd] auth_run 1
      by (simp add: trustOk_def)
    then show ?thesis by (simp add: battAuthThread_def Some 1 trustOk_def authEmit_def)
  qed
next
  case (auth_notify s n)
  then show ?case using handler_views(2) [of "[n]" s] by (simp add: trustOk_cong [of "authNotifierHandler n s" s])
qed

text \<open>The trusted data is published only where it is enabled, and a passed authentication with a nonce.\<close>

lemma trustOk_reachable: "authReachable E s \<Longrightarrow> trustOk E s"
  by (induction rule: authReachable.induct) (simp add: trustOk_def bauthLoaded_def, rule trustOk_step)

section \<open>The properties\<close>

text \<open>C35: In every reachable state the commands that the driver has accepted are, in order, those that
  it has answered, followed by the one whose thread has not run yet; the interface is busy exactly
  when there is one.\<close>

theorem auth_answered_once:
  assumes "authReachable E s"
  shows "acceptedOf (authEvents s) =
           answeredOf (authEvents s) @ map cmd_id (case battAuthPending s of Some c \<Rightarrow> [c] | None \<Rightarrow> []) \<and>
         battAuthBusy s = (battAuthPending s \<noteq> None)"
proof -
  have "queueOk s" using assms
    by (induction rule: authReachable.induct) (simp add: queueOk_def bauthLoaded_def, rule queueOk_step)
  then show ?thesis by (simp add: queueOk_def)
qed

text \<open>C36: Where the trusted data is enabled and its publication is not forced, the status that the service
  sets publishes the stored nonce exactly if authentication has passed, publishes a failure otherwise,
  also when there is no nonce, and in both cases forgets the nonce, so that none is published twice.\<close>

theorem trust_status_exact:
  assumes "trustedDataEnabled E" and "\<not> forceAuth E"
  shows "(let s' = snd (authSetTrustStatus E d s); pass = (memAt d 0 \<noteq> 0 \<and> healthNonce s \<noteq> None)
          in authPassProperty s' = Some pass \<and>
             nonceProperty s' = (if pass then healthNonce s else nonceProperty s) \<and> healthNonce s' = None)"
proof -
  let ?t = "checkTrustValueAndPublishNonce E d s"
  obtain r i s1 where 1: "getInfo E kBatteryAuthOpSetAuthStatus d ?t = ((r, i), s1)" by (metis surj_pair)
  have "trustView s1 = trustView ?t"
    using trust.info [OF refl, of E kBatteryAuthOpSetAuthStatus d ?t] 1 by simp
  moreover have "snd (authSetTrustStatus E d s) = releaseData s1"
    by (simp add: authSetTrustStatus_def assms(2) 1)
  ultimately show ?thesis using assms(1)
    by (auto simp: trustView_def releaseData_def checkTrustValueAndPublishNonce_def authEmit_def Let_def)
qed

section \<open>A chip that answers\<close>

text \<open>
  \<open>lastOp\<close> reads from the state of the controller the command it holds; \<open>answer\<close> is what the chip
  gives for a command.
\<close>

definition chipAnswers :: "('d, 'e) baEnv_scheme \<Rightarrow> ('d \<Rightarrow> u8) \<Rightarrow> (u8 \<Rightarrow> u8 list) \<Rightarrow> bool" where
  "chipAnswers E lastOp answer \<longleftrightarrow>
     (\<forall>key bs d. fst (smcWrite E key bs d) \<and> (key = BATC \<longrightarrow> lastOp (snd (smcWrite E key bs d)) = hd bs)) \<and>
     (\<forall>d. \<exists>ns d'. smcWait E d = ((ns @ [\<lparr>nOp = lastOp d, nI2c = 0, nChip = 0\<rparr>], True), d') \<and> lastOp d' = lastOp d) \<and>
     (\<forall>d. \<exists>d'. smcRead E BATD BATT_AUTH_SMC_DATA_LEN d = (Some (answer (lastOp d)), d'))"

lemma state_fold: "smcState (fold authNotifierHandler ns s) = smcState s"
  by (rule fold_view_same) (simp add: authNotifierHandler_def Let_def)

lemma chip_op:
  assumes "chipAnswers E lastOp answer"
  obtains s1 where "authOp E op s = (kIOReturnSuccess, s1)" "lastOp (smcState s1) = battOpByte E op"
proof -
  let ?b = "battOpByte E op"
  obtain d where w: "smcWrite E BATC [?b] (smcState s) = (True, d)" "lastOp d = ?b"
  proof (cases "smcWrite E BATC [?b] (smcState s)")
    case (Pair ok d)
    with assms have "ok" "lastOp d = ?b"
      unfolding chipAnswers_def by (metis fst_conv, metis snd_conv list.sel(1))
    with Pair that show thesis by simp
  qed
  let ?s1 = "smcEmit (SmcWrote BATC [?b] True) (s\<lparr>smcState := d\<rparr>)"
  have 1: "smcWriteKey E BATC [?b] s = (True, ?s1)"
    by (simp add: smcWriteKey_def MAX_TRIES_def eval_nat_numeral writeOnce_def w)
  obtain ns d2 where 2: "smcWait E d = ((ns @ [\<lparr>nOp = ?b, nI2c = 0, nChip = 0\<rparr>], True), d2)" "lastOp d2 = ?b"
    using assms w(2) unfolding chipAnswers_def by metis
  let ?t = "authNotifierHandler \<lparr>nOp = ?b, nI2c = 0, nChip = 0\<rparr> (fold authNotifierHandler ns (?s1\<lparr>smcState := d2\<rparr>))"
  have st: "smcState ?s1 = d" by (simp add: smcEmit_def)
  have t: "smcState ?t = d2" "notified ?t = \<lparr>nOp = ?b, nI2c = 0, nChip = 0\<rparr>"
    using state_fold [of ns "?s1\<lparr>smcState := d2\<rparr>"] by (simp_all add: authNotifierHandler_def)
  have 3: "commandSleep E authNotifierHandler ?s1 = (True, smcEmit (SmcWaited True) ?t)"
    unfolding commandSleep_def st 2(1) prod.case by simp
  have "checkAuthStatus ?b (smcEmit (SmcWaited True) ?t) = kIOReturnSuccess" "smcState (smcEmit (SmcWaited True) ?t) = d2"
    using t by (simp_all add: checkAuthStatus_def smcEmit_def)
  then show ?thesis using 2(2)
    by (intro that [of "smcEmit (SmcWaited True) ?t"]) (simp_all add: authOp_def 1 3)
qed

lemma chip_read:
  assumes "chipAnswers E lastOp answer"
  obtains s1 where "authRead E s = ((kIOReturnSuccess, memRange (answer (lastOp (smcState s))) 0 BATT_AUTH_SMC_DATA_LEN), s1)"
proof -
  obtain d where "smcRead E BATD BATT_AUTH_SMC_DATA_LEN (smcState s) = (Some (answer (lastOp (smcState s))), d)"
    using assms unfolding chipAnswers_def by blast
  then show ?thesis
    by (intro that [of "smcEmit (SmcRead BATD True) (s\<lparr>smcState := d\<rparr>)"])
       (simp add: authRead_def smcReadKey_def MAX_TRIES_def eval_nat_numeral readOnce_def)
qed

lemma chip_info:
  assumes "chipAnswers E lastOp answer" and "\<not> isSetOp op"
  shows "fst (getInfo E op input s) =
    infoDecode E op (memRange (answer (battOpByte E op)) 0 BATT_AUTH_SMC_DATA_LEN)"
proof -
  obtain b s0 where 0: "readGgResetCount E s = (b, s0)" by fastforce
  obtain s1 where 1: "authOp E op s0 = (kIOReturnSuccess, s1)" "lastOp (smcState s1) = battOpByte E op"
    by (rule chip_op [OF assms(1)])
  obtain s2 where "authRead E s1 =
      ((kIOReturnSuccess, memRange (answer (lastOp (smcState s1))) 0 BATT_AUTH_SMC_DATA_LEN), s2)"
    by (rule chip_read [OF assms(1)])
  then have "infoRound E op input s0 =
      ((kIOReturnSuccess, memRange (answer (battOpByte E op)) 0 BATT_AUTH_SMC_DATA_LEN), s2)"
    using assms(2) by (simp add: infoRound_def authWrite_def andThen_def 1 isSetOp_def)
  then show ?thesis by (simp add: getInfo_def 0 infoLoop.simps [of E op input 0] Let_def)
qed

text \<open>The certificate of the chip: its blocks from number \<open>i\<close>.\<close>

definition certBytes :: "('d, 'e) baEnv_scheme \<Rightarrow> (u8 \<Rightarrow> u8 list) \<Rightarrow> nat \<Rightarrow> u8 list" where
  "certBytes E answer i =
     concat (map (\<lambda>j. memRange (answer (battOpByte E (kBatteryAuthOpGetCert j))) 0 64) [i..<10])"

lemma certBytes_step:
  "i < 10 \<Longrightarrow> certBytes E answer i =
     memRange (answer (battOpByte E (kBatteryAuthOpGetCert i))) 0 64 @ certBytes E answer (i + 1)"
  by (simp add: certBytes_def upt_conv_Cons)

lemma memRange_self: "memRange xs 0 (length xs) = xs"
  by (rule nth_equalityI) (simp_all add: memRange_def memAt_def)

lemma memRange_take: "n \<le> m \<Longrightarrow> memRange (memRange xs 0 m) 0 n = take n (memRange xs 0 m)"
  by (rule nth_equalityI) (simp_all add: memRange_def memAt_def)

lemma chip_certLoop:
  assumes "chipAnswers E lastOp answer"
  shows "clen \<le> 64 * (10 - i) \<Longrightarrow>
    \<exists>i'. fst (certLoop E clen i cert s) = (kIOReturnSuccess, 0, i', cert @ take clen (certBytes E answer i))"
proof (induction clen arbitrary: i cert s rule: less_induct)
  case (less clen)
  show ?case
  proof (cases "clen = 0")
    case True
    then show ?thesis by (subst certLoop.simps) simp
  next
    case False
    with less.prems have i: "i < 10" by (cases "i < 10") simp_all
    let ?op = "kBatteryAuthOpGetCert i"
    let ?buf = "memRange (answer (battOpByte E ?op)) 0 BATT_AUTH_SMC_DATA_LEN"
    let ?sz = "min clen BATT_AUTH_SMC_DATA_LEN"
    obtain s1 where 1: "authOp E ?op s = (kIOReturnSuccess, s1)" "lastOp (smcState s1) = battOpByte E ?op"
      by (rule chip_op [OF assms])
    obtain s2 where 2: "authRead E s1 = ((kIOReturnSuccess, ?buf), s2)"
      using chip_read [OF assms, of s1] 1(2) by metis
    have step: "certLoop E clen i cert s = certLoop E (clen - ?sz) (i + 1) (cert @ memRange ?buf 0 ?sz) s2"
      using False i by (subst certLoop.simps) (simp add: 1 2 Let_def)
    have "clen - ?sz < clen" "clen - ?sz \<le> 64 * (10 - (i + 1))"
      using False less.prems i by (auto simp: BATT_AUTH_SMC_DATA_LEN_def)
    from less.IH [OF this, of "cert @ memRange ?buf 0 ?sz" s2] obtain i' where
      "fst (certLoop E clen i cert s) =
         (kIOReturnSuccess, 0, i', (cert @ memRange ?buf 0 ?sz) @ take (clen - ?sz) (certBytes E answer (i + 1)))"
      unfolding step by blast
    moreover have "memRange ?buf 0 ?sz @ take (clen - ?sz) (certBytes E answer (i + 1)) = take clen (certBytes E answer i)"
      by (simp add: certBytes_step [OF i] memRange_take BATT_AUTH_SMC_DATA_LEN_def)
         (simp add: min_def)
    ultimately show ?thesis by auto
  qed
qed

text \<open>C34: The certificate command returns the certificate of a chip that answers: its blocks in
  order, cut to the length that the chip gives, if that is at most the length of a certificate.\<close>

theorem certificate_exact:
  assumes "chipAnswers E lastOp answer"
    and "le16 (answer (battOpByte E kBatteryAuthOpGetCertLength)) \<le> BATT_AUTH_MAX_CERT_LENGTH"
  shows "fst (getCertificate E kAuthCommandIDGetCert s) =
    (kIOReturnSuccess,
     Some (take (le16 (answer (battOpByte E kBatteryAuthOpGetCertLength)))
       (concat (map (\<lambda>j. memRange (answer (battOpByte E (kBatteryAuthOpGetCert j))) 0 64) [0..<10]))))"
proof -
  let ?clen = "le16 (answer (battOpByte E kBatteryAuthOpGetCertLength))"
  obtain r i s1 where 1: "getInfo E kBatteryAuthOpGetCertLength [] s = ((r, i), s1)" by (metis surj_pair)
  have "le16 (memRange xs 0 BATT_AUTH_SMC_DATA_LEN) = le16 xs" for xs
    by (simp add: le16_def memRange_def memAt_def BATT_AUTH_SMC_DATA_LEN_def)
  then have ri: "r = kIOReturnSuccess" "i = InfoLength ?clen"
    using chip_info [OF assms(1), of kBatteryAuthOpGetCertLength "[]" s] 1
    by (simp_all add: infoDecode_def isSetOp_def)
  obtain b s2 where 2: "readGgResetCount E s1 = (b, s2)" by fastforce
  have "?clen \<le> 64 * (10 - 0)" using assms(2) by (simp add: BATT_AUTH_MAX_CERT_LENGTH_def)
  from chip_certLoop [OF assms(1) this, of "[]" s2] obtain i' s3 where
    3: "certLoop E ?clen 0 [] s2 = ((kIOReturnSuccess, 0, i', take ?clen (certBytes E answer 0)), s3)"
    by (metis append_Nil prod.collapse)
  have "length (certBytes E answer 0) = 640" by (simp add: certBytes_def length_concat comp_def sum_list_triv)
  then have "length (take ?clen (certBytes E answer 0)) = ?clen"
    using assms(2) by (simp add: BATT_AUTH_MAX_CERT_LENGTH_def)
  then have "memRange (take ?clen (certBytes E answer 0)) 0 ?clen = take ?clen (certBytes E answer 0)"
    by (metis memRange_self)
  then have 4: "certTries E ?clen 0 0 s2 = ((kIOReturnSuccess, Some (take ?clen (certBytes E answer 0)), 0), s3)"
    by (subst certTries.simps) (simp add: 3)
  show ?thesis using assms(2)
    by (simp add: getCertificate_def 1 ri 2 4 bauthCmd2len_def) (simp add: certBytes_def)
qed

section \<open>Failures\<close>

text \<open>
  After an attempt that fails in the middle, the next one goes on with the blocks and the length that
  are left, into an empty buffer: what is returned with success is the tail of the certificate.
\<close>

lemma certificate_tail:
  assumes "certLoop E clen 0 [] s = ((kIOReturnIOError, left, i, cert), s1)"
    and "certLoop E left i [] (IOSleep 700 (incrementChannel (kBatteryAuthOpGetCert i) s1)) =
           ((kIOReturnSuccess, 0, i', tail), s2)"
  shows "fst (certTries E clen 0 0 s) = (kIOReturnSuccess, Some (memRange tail 0 left), 1)"
  by (subst certTries.simps) (simp add: assms(1) MAX_TRIES_def certTries.simps [of E left i "Suc 0"] assms(2))

text \<open>A command that is refused because another runs has already retained its data, and nobody releases it.\<close>

lemma busy_leaks:
  assumes "battAuthOwner s" and "battAuthBusy s" and "length d = BATT_AUTH_CHALLENGE_LEN"
  shows "authSendData kAuthCommandIDGetSignature (Some d) True s =
           (kIOReturnBusy, s\<lparr>dataRetained := dataRetained s + 1\<rparr>)"
  using assms by (simp add: authSendData_def dataRefused_def takesData_def interfaceTryGet_def)

text \<open>The first error of the chip hides the errors of the bus, and none hides those of the chip.\<close>

lemma chip_error_hides_bus_error:
  assumes "nChip n \<noteq> 0" and "nI2c n = 0" and "nI2c m \<noteq> 0" and "nChip m = 0"
    and "\<not> procErrorLogged s"
  shows "authCommError (authNotifierHandler m (authNotifierHandler n s)) = authCommError s"
  using assms by (simp add: authNotifierHandler_def Let_def)

text \<open>An initialisation that fails after the owner is noted leaves an interface that accepts commands.\<close>

lemma failed_init_accepts:
  "fst (authInit True True False nm rg s) = kIOReturnInternalError \<and>
   (\<not> battAuthBusy s \<longrightarrow>
     fst (authSendData kAuthCommandIDGetInfo None True (snd (authInit True True False nm rg s))) = kIOReturnSuccess)"
  by (simp add: authInit_def authSendData_def dataRefused_def takesData_def interfaceTryGet_def)

text \<open>A counter of resets that cannot be read again counts as more than four thousand million resets.\<close>

lemma lost_reset_count:
  assumes "readGgResetCount E s = (0, s1)"
  shows "channelValue (countResets E 1 1 s) kGGResetCountID = channelValue s1 kGGResetCountID + 4294967295"
  using assms by (simp add: countResets_def Let_def incrementValue_def)

section \<open>Examples\<close>

definition exampleBattOp :: "battOp \<Rightarrow> u8" where
  "exampleBattOp op =
     (case op of
        kBatteryAuthOpGetInfo \<Rightarrow> 1 | kBatteryAuthOpGetCertSerial \<Rightarrow> 2 | kBatteryAuthOpGetCertLength \<Rightarrow> 3
      | kBatteryAuthOpGetNonce \<Rightarrow> 4 | kBatteryAuthOpGetSignature \<Rightarrow> 5 | kBatteryAuthOpGetStatus \<Rightarrow> 6
      | kBatteryAuthOpSetChallenge \<Rightarrow> 7 | kBatteryAuthOpSetAuthStatus \<Rightarrow> 8 | kBatteryAuthOpGetCert n \<Rightarrow> 20 + of_nat n)"

definition exampleAnswer :: "u8 \<Rightarrow> u8 list" where
  "exampleAnswer b = (if b = 3 then [70, 0] else replicate 64 b)"

definition exampleChip :: "bool \<Rightarrow> u8 baEnv" where
  "exampleChip trusted =
     \<lparr>smcWrite = (\<lambda>key bs d. (True, if key = BATC then hd bs else d)),
      smcRead = (\<lambda>key n d. (Some (exampleAnswer d), d)),
      smcWait = (\<lambda>d. (([\<lparr>nOp = d, nI2c = 0, nChip = 0\<rparr>], True), d)),
      battOpByte = exampleBattOp, isRoswell = False, isVeridian = True, trustedDataEnabled = trusted,
      bootArg = 0, calendarSeconds = 1000, serialProperty = None\<rparr>"

lemma exampleChip_answers: "chipAnswers (exampleChip trusted) id exampleAnswer"
  by (simp add: chipAnswers_def exampleChip_def)

lemma certificate_exact_witness:
  "fst (getCertificate (exampleChip True) kAuthCommandIDGetCert (bauthLoaded 0)) =
     (kIOReturnSuccess, Some (replicate 64 20 @ replicate 6 21))"
proof -
  have l: "le16 (exampleAnswer (battOpByte (exampleChip True) kBatteryAuthOpGetCertLength)) = 70"
    by (simp add: exampleChip_def exampleBattOp_def exampleAnswer_def le16_def memAt_def)
  have "memRange (replicate 64 x) 0 64 = replicate 64 x" for x :: u8
    using memRange_self [of "replicate 64 x"] by simp
  then have "take 70 (concat (map (\<lambda>j. memRange (exampleAnswer (battOpByte (exampleChip True) (kBatteryAuthOpGetCert j))) 0 64) [0..<10]))
      = replicate 64 20 @ replicate 6 21"
    by (simp add: exampleChip_def exampleBattOp_def exampleAnswer_def upt_rec)
  then show ?thesis
    using certificate_exact [OF exampleChip_answers [of True], of "bauthLoaded 0"]
    by (simp add: l BATT_AUTH_MAX_CERT_LENGTH_def)
qed

lemma auth_answered_once_witness:
  "acceptedOf (authEvents (battAuthThread (exampleChip True)
       (snd (authSendData kAuthCommandIDGetInfo None True (snd (authInit True True True True True (bauthLoaded 0))))))) =
   answeredOf (authEvents (battAuthThread (exampleChip True)
       (snd (authSendData kAuthCommandIDGetInfo None True (snd (authInit True True True True True (bauthLoaded 0)))))))"
proof -
  let ?s = "snd (authSendData kAuthCommandIDGetInfo None True (snd (authInit True True True True True (bauthLoaded (0 :: u8)))))"
  let ?t = "battAuthThread (exampleChip True) ?s"
  have r: "authReachable (exampleChip True) ?t"
    by (intro auth_step [OF auth_step [OF auth_step [OF auth_loaded auth_init] auth_send] auth_run])
  have "battAuthPending ?s = Some \<lparr>cmd_id = kAuthCommandIDGetInfo, cmd_data = None\<rparr>"
    by (simp add: authSendData_def authInit_def bauthLoaded_def dataRefused_def takesData_def interfaceTryGet_def authEmit_def)
  from battAuthThread_view [OF this, of "exampleChip True"] have "battAuthPending ?t = None"
    by (auto simp: authView_def)
  with auth_answered_once [OF r] show ?thesis by simp
qed

lemma trust_status_exact_witness:
  "authPassProperty (snd (authSetTrustStatus (exampleChip True) [1] ((bauthLoaded 0)\<lparr>healthNonce := Some [9]\<rparr>))) = Some True \<and>
   nonceProperty (snd (authSetTrustStatus (exampleChip True) [1] ((bauthLoaded 0)\<lparr>healthNonce := Some [9]\<rparr>))) = Some [9]"
proof -
  have "trustedDataEnabled (exampleChip True)" "\<not> forceAuth (exampleChip True)"
    by (simp_all add: exampleChip_def forceAuth_def)
  from trust_status_exact [OF this, of "[1]" "(bauthLoaded 0)\<lparr>healthNonce := Some [9]\<rparr>"] show ?thesis
    by (simp add: Let_def memAt_def)
qed

end
