(* ===== verification/ActivityLog.thy ===== *)
theory ActivityLog
  imports AssertionProc
begin

unbundle bit_operations_syntax

text \<open>
  The activity log of the assertion engine (PMAssertionLog.c): a ring of the last 64 entries that
  power logging reads incrementally, the decision which events go to the system log, and the statistics
  of the processes.
\<close>

section \<open>Entries\<close>

definition AA_MAX_ENTRIES :: nat where "AA_MAX_ENTRIES = 64"
definition DISPLAY_ON_ASSERTION_LOG_DELAY :: u64 where "DISPLAY_ON_ASSERTION_LOG_DELAY = 60"
definition DISPLAY_OFF_ASSERTION_LOG_DELAY :: u64 where "DISPLAY_OFF_ASSERTION_LOG_DELAY = 10"

text \<open>\<open>UINT_MAX\<close>, which stands for no reader and for no position.\<close>

definition UINT_MAX :: u32 where "UINT_MAX = - 1"

text \<open>The keys of the properties that an entry takes over; those the other components do not use are
  \<open>OtherKey\<close>.\<close>

definition kIOPMAssertionActivityTime :: propKey where
  "kIOPMAssertionActivityTime = OtherKey ''ActivityTime''"

definition kIOPMAssertionCreatorBacktrace :: propKey where
  "kIOPMAssertionCreatorBacktrace = OtherKey ''CreatorBacktrace''"

definition copiedKeys :: "propKey list" where
  "copiedKeys =
     [kIOPMAssertionCreateDateKey, kIOPMAssertionTypeKey, kIOPMAssertionNameKey, kIOPMAssertionGlobalUniqueIDKey,
      kIOPMAssertionOnBehalfOfPID, OtherKey ''OnBehalfOfPIDReason'', OtherKey ''OnBehalfOfBundleID'',
      kIOPMAssertionFrameworkIDKey, OtherKey ''InstanceMetadata'', kIOPMAssertionCategoryKey,
      kIOPMAssertionIsCoalescedKey]"

record logEntry =
  le_time :: cf
  le_action :: assertLogAction
  le_pid :: "pid option"
  le_process :: "cf option"
  le_retain :: u32
  le_props :: props_t

text \<open>
  The entry of an event; the owner is \<open>None\<close> where \<open>pinfo\<close> is null.  The allocations of the entry
  succeed.
\<close>

definition logsBacktrace :: "assertLogAction \<Rightarrow> bool" where
  "logsBacktrace a \<longleftrightarrow> a \<in> {kACreateLog, kACreateRetain, kATurnOnLog}"

definition activityEntry ::
    "rat \<Rightarrow> assertLogAction \<Rightarrow> props_t \<Rightarrow> pid option \<Rightarrow> u32 \<Rightarrow> logEntry" where
  "activityEntry now action prps owner retain =
     \<lparr>le_time = (case prps kIOPMAssertionActivityTime of Some t \<Rightarrow> t | None \<Rightarrow> CFDate now),
      le_action = action, le_pid = owner,
      le_process = (if owner = None then None else prps kIOPMAssertionProcessNameKey),
      le_retain = retain,
      le_props = prps |` set (copiedKeys @ (if logsBacktrace action then [kIOPMAssertionCreatorBacktrace] else []))\<rparr>"

section \<open>The ring\<close>

text \<open>
  \<open>ringLog\<close> is \<open>None\<close> before the array has been made; \<open>hwmPosts\<close> counts the notifications of the high
  water mark.
\<close>

record 'x activityLog =
  ringIdx :: u32
  ringLog :: "'x list option"
  unreadCnt :: u32
  gActivityLogCnt :: u32
  gNumAssertions :: u64
  hwmPosts :: nat

definition activityStart :: "'x activityLog" where
  "activityStart = \<lparr>ringIdx = 0, ringLog = None, unreadCnt = 0, gActivityLogCnt = 0, gNumAssertions = 0, hwmPosts = 0\<rparr>"

definition postHighWater :: "('x, 'z) activityLog_scheme \<Rightarrow> ('x, 'z) activityLog_scheme" where
  "postHighWater s = s\<lparr>hwmPosts := hwmPosts s + 1, unreadCnt := UINT_MAX\<rparr>"

definition ensureLog :: "('x, 'z) activityLog_scheme \<Rightarrow> ('x, 'z) activityLog_scheme" where
  "ensureLog s = (if ringLog s = None then postHighWater (s\<lparr>ringLog := Some []\<rparr>) else s)"

text \<open>\<open>CFArraySetValueAtIndex\<close>: an index that is the count appends.\<close>

definition setValueAtIndex :: "'x list \<Rightarrow> nat \<Rightarrow> 'x \<Rightarrow> 'x list" where
  "setValueAtIndex xs i x = (if i = length xs then xs @ [x] else xs[i := x])"

text \<open>The unread count is compared with nine tenths of the size, 57.6.\<close>

definition countUnread :: "('x, 'z) activityLog_scheme \<Rightarrow> ('x, 'z) activityLog_scheme" where
  "countUnread s =
     (if unreadCnt s \<noteq> UINT_MAX then
        let s1 = s\<lparr>unreadCnt := unreadCnt s + 1\<rparr>
        in if 10 * unat (unreadCnt s1) \<ge> 9 * AA_MAX_ENTRIES then postHighWater s1 else s1
      else s)"

definition appendEntry :: "'x \<Rightarrow> ('x, 'z) activityLog_scheme \<Rightarrow> ('x, 'z) activityLog_scheme" where
  "appendEntry e s =
     (let s1 = ensureLog s;
          l = (case ringLog s1 of Some xs \<Rightarrow> xs | None \<Rightarrow> [])
      in countUnread (s1\<lparr>ringLog := Some (setValueAtIndex l (unat (ringIdx s1) mod AA_MAX_ENTRIES) e),
                         ringIdx := ringIdx s1 + 1\<rparr>))"

text \<open>Which events are recorded; \<open>debugNames\<close> is the debug flag for changes of the name.\<close>

definition recorded :: "bool \<Rightarrow> assertLogAction \<Rightarrow> bool" where
  "recorded debugNames action \<longleftrightarrow>
     (case action of
        kANameChangeLog \<Rightarrow> debugNames
      | kACapExpiryLog \<Rightarrow> False
      | kASummaryLog \<Rightarrow> False
      | _ \<Rightarrow> True)"

definition logAssertionActivity ::
    "bool \<Rightarrow> rat \<Rightarrow> assertLogAction \<Rightarrow> props_t \<Rightarrow> pid option \<Rightarrow> u32
     \<Rightarrow> (logEntry, 'z) activityLog_scheme \<Rightarrow> (logEntry, 'z) activityLog_scheme" where
  "logAssertionActivity debugNames now action prps owner retain s =
     (let s1 = (if action = kACreateLog \<or> action = kASessionStartLog
                then s\<lparr>gNumAssertions := gNumAssertions s + 1\<rparr> else s)
      in if \<not> recorded debugNames action then s1
         else appendEntry (activityEntry now action prps owner retain) s1)"

definition setAssertionActivityLog :: "int \<Rightarrow> ('x, 'z) activityLog_scheme \<Rightarrow> ('x, 'z) activityLog_scheme" where
  "setAssertionActivityLog value s =
     (if value \<noteq> 0 then s\<lparr>gActivityLogCnt := gActivityLogCnt s + 1\<rparr>
      else if gActivityLogCnt s \<noteq> 0 then s\<lparr>gActivityLogCnt := gActivityLogCnt s - 1\<rparr> else s)"

text \<open>The activity that a client has recorded itself, one property list for each event with the name of its action.\<close>

datatype asyncActionName =
    kPMAsyncAssertionActionCreate
  | kPMAsyncAssertionActionRelease
  | kPMAsyncAssertionActionTurnOn
  | kPMAsyncAssertionActionTurnOff
  | kPMAsyncAssertionActionTimeOut
  | kPMAsyncAssertionActionNameChange
  | kPMAsyncAssertionActionUnknown

definition asyncAction :: "asyncActionName option \<Rightarrow> assertLogAction option" where
  "asyncAction v =
     (case v of
        Some kPMAsyncAssertionActionCreate \<Rightarrow> Some kACreateLog
      | Some kPMAsyncAssertionActionRelease \<Rightarrow> Some kAReleaseLog
      | Some kPMAsyncAssertionActionTurnOn \<Rightarrow> Some kATurnOnLog
      | Some kPMAsyncAssertionActionTurnOff \<Rightarrow> Some kATurnOffLog
      | Some kPMAsyncAssertionActionTimeOut \<Rightarrow> Some kATimeoutLog
      | Some kPMAsyncAssertionActionNameChange \<Rightarrow> Some kANameChangeLog
      | _ \<Rightarrow> None)"

definition logAsyncAssertionActivity ::
    "bool \<Rightarrow> rat \<Rightarrow> pid option \<Rightarrow> (asyncActionName option \<times> props_t) list
     \<Rightarrow> (logEntry, 'z) activityLog_scheme \<Rightarrow> (logEntry, 'z) activityLog_scheme" where
  "logAsyncAssertionActivity debugNames now owner activity s =
     fold (\<lambda>(name, prps) s. case asyncAction name of
             None \<Rightarrow> s
           | Some a \<Rightarrow> logAssertionActivity debugNames now a prps owner 0 s) activity s"

section \<open>Reading\<close>

text \<open>\<open>CFRangeMake start len\<close> of an array.\<close>

definition CFRange :: "nat \<Rightarrow> nat \<Rightarrow> 'x list \<Rightarrow> 'x list" where
  "CFRange start len xs = take len (drop start xs)"

text \<open>Start, end and overflow of the range of the ring that a reader at \<open>rd\<close> has not seen.\<close>

definition updateRange :: "u32 \<Rightarrow> u32 \<Rightarrow> nat \<Rightarrow> (nat \<times> nat \<times> bool) option" where
  "updateRange rd wr arrCnt =
     (let w = unat wr; prev = unat (wr - 1) mod AA_MAX_ENTRIES in
      if rd = UINT_MAX \<and> w \<le> AA_MAX_ENTRIES then
        (if arrCnt = 0 then None else Some (0, arrCnt - 1, False))
      else if wr > rd + of_nat AA_MAX_ENTRIES \<or> wr < rd then
        Some (if w mod AA_MAX_ENTRIES \<ge> arrCnt then 0 else w mod AA_MAX_ENTRIES, prev, True)
      else Some (unat rd mod AA_MAX_ENTRIES, prev, False))"

text \<open>The updates, the new position of the reader and whether entries have been lost.\<close>

definition getAssertionActivityUpdates ::
    "u32 \<Rightarrow> bool \<Rightarrow> ('x, 'z) activityLog_scheme \<Rightarrow> 'x list option \<times> u32 \<times> bool" where
  "getAssertionActivityUpdates refCnt firstcall s =
     (let wr = ringIdx s;
          l = (case ringLog s of Some xs \<Rightarrow> xs | None \<Rightarrow> []);
          arrCnt = length l;
          rd0 = (if firstcall then UINT_MAX else refCnt)
      in if rd0 = wr \<or> arrCnt = 0 then (None, rd0, firstcall)
         else
           let lost = (unat rd0 mod AA_MAX_ENTRIES \<ge> arrCnt);
               rd = (if lost then UINT_MAX else rd0);
               ov0 = (firstcall \<or> lost)
           in case updateRange rd wr arrCnt of
                None \<Rightarrow> (None, rd, ov0)
              | Some (start, end', over) \<Rightarrow>
                  let ov1 = (ov0 \<or> over);
                      wrapped = (start > end');
                      part1 = (if wrapped \<and> arrCnt = AA_MAX_ENTRIES
                               then CFRange start (AA_MAX_ENTRIES - start) l else []);
                      ov2 = (ov1 \<or> wrapped \<and> arrCnt \<noteq> AA_MAX_ENTRIES);
                      start' = (if wrapped then 0 else start)
                  in if arrCnt \<ge> end' + 1 then (Some (part1 @ CFRange start' (end' - start' + 1) l), wr, ov2)
                     else (Some part1, wr, True))"

text \<open>
  The MIG routine: \<open>serialized\<close> says whether the entries can be serialized; a null pointer in the
  arguments is \<open>badArgs\<close>.  The flag of the first call is cleared before it is looked at.
\<close>

definition io_pm_assertion_activity_log ::
    "bool \<Rightarrow> bool \<Rightarrow> bool \<Rightarrow> u32 \<Rightarrow> ('x, 'z) activityLog_scheme
     \<Rightarrow> (IOReturn \<times> 'x list option \<times> u32 \<times> bool) \<times> ('x, 'z) activityLog_scheme" where
  "io_pm_assertion_activity_log badArgs entitled serialized refCnt s =
     (if badArgs then ((kIOReturnBadArgument, None, refCnt, False), s)
      else if \<not> entitled then ((kIOReturnNotPermitted, None, refCnt, False), s)
      else
        let s1 = s\<lparr>unreadCnt := 0\<rparr>;
            s2 = (if ringLog s1 = None then s1\<lparr>ringLog := Some []\<rparr> else s1)
        in case getAssertionActivityUpdates refCnt False s2 of
             (updates, refCnt', overflow) \<Rightarrow>
               (case updates of
                  None \<Rightarrow> ((kIOReturnNotFound, None, refCnt', overflow), s2)
                | Some l \<Rightarrow>
                    if \<not> serialized then ((kIOReturnNotFound, None, refCnt', overflow), s2)
                    else ((kIOReturnSuccess, Some l, ringIdx s2, overflow), s2)))"

section \<open>The system log\<close>

text \<open>
  Whether an event is logged: synchronous logging logs everything, otherwise creations are logged
  for the types that ask for it and releases if the creation was or if the assertion lived long enough.
\<close>

definition isCreateAction :: "assertLogAction \<Rightarrow> bool" where
  "isCreateAction a \<longleftrightarrow> a = kACreateLog \<or> a = kATurnOnLog \<or> a = kASessionStartLog"

definition isReleaseAction :: "assertLogAction \<Rightarrow> bool" where
  "isReleaseAction a \<longleftrightarrow> a \<in> {kAReleaseLog, kAClientDeathLog, kATimeoutLog, kATurnOffLog, kASessionEndLog}"

definition aslAction :: "bool \<Rightarrow> assertLogAction \<Rightarrow> bool" where
  "aslAction debugNames action \<longleftrightarrow>
     (case action of kANameChangeLog \<Rightarrow> debugNames | kACreateRetain \<Rightarrow> False | _ \<Rightarrow> True)"

text \<open>The result is whether a message is made, and the assertion, whose state notes a logged creation.\<close>

definition logAssertionToASL ::
    "bool \<Rightarrow> bool \<Rightarrow> pm \<Rightarrow> assertLogAction \<Rightarrow> assertion \<Rightarrow> bool \<times> assertion" where
  "logAssertionToASL synchronous debugNames s action a =
     (if kAssertionSkipLogging \<in> state a then (False, a)
      else if \<not> synchronous \<and> isCreateAction action then
        (if kAssertionTypeLogOnCreate \<notin> flags (gAssertionTypes s (kassert a)) then (False, a)
         else (aslAction debugNames action, state_set kAssertionStateLogged a))
      else if \<not> synchronous \<and> isReleaseAction action \<and> kAssertionStateLogged \<notin> state a \<and>
        getMonotonicTime (env s) - createTime a <
          (if isDisplayAsleep (env s) then DISPLAY_OFF_ASSERTION_LOG_DELAY else DISPLAY_ON_ASSERTION_LOG_DELAY)
      then (False, a)
      else (aslAction debugNames action, a))"

definition printAssertionQualifiersToBuf :: "assertion \<Rightarrow> string" where
  "printAssertionQualifiersToBuf a =
     (if \<not> (audioin a \<or> audioout a \<or> gps a \<or> baseband a \<or> bluetooth a \<or> allowsDeviceRestart a \<or>
             perfUnrestricted a \<or> camera a \<or> budgetedActivity a) then ''''
      else ''[Qualifiers:'' @
        concat (map (\<lambda>(b, t). if b then t else '''')
          [(audioin a, '' AudioIn''), (audioout a, '' AudioOut''), (gps a, '' GPS''), (baseband a, '' Baseband''),
           (bluetooth a, '' Bluetooth''), (camera a, '' Camera''), (allowsDeviceRestart a, '' AllowsDeviceRestart''),
           (perfUnrestricted a, '' PerfUnrestricted''), (budgetedActivity a, '' BudgetedActivity'')]) @ '']'')"

section \<open>Statistics of the processes\<close>

definition effectStatsList :: "kerAssertionEffect list" where
  "effectStatsList = [kNoEffect, kPrevIdleSlpEffect, kPrevDemandSlpEffect, kPrevDisplaySlpEffect]"

text \<open>The time of every effect under way is added to the buffer and starts anew.\<close>

definition addDuration :: "u64 \<Rightarrow> kerAssertionEffect \<Rightarrow> ProcessInfo \<Rightarrow> ProcessInfo" where
  "addDuration now e P =
     (let st = stats P e;
          P1 = (if st_cnt st \<noteq> 0
                then P\<lparr>reportBuf := map_option (\<lambda>b. b(e := b e + (now - st_startTime st))) (reportBuf P)\<rparr> else P)
      in P1\<lparr>stats := (stats P1)(e := st\<lparr>st_startTime := now\<rparr>)\<rparr>)"

text \<open>The legend and the report buffers of IOReport can be made.\<close>

definition updateProcAssertionStats :: "u64 \<Rightarrow> ProcessInfo \<Rightarrow> (pid \<times> (kerAssertionEffect \<Rightarrow> u64)) list \<times> ProcessInfo" where
  "updateProcAssertionStats now P =
     (case reportBuf P of
        None \<Rightarrow> ([], P)
      | Some b \<Rightarrow>
          let P1 = fold (addDuration now) effectStatsList P
          in (case reportBuf P1 of Some b1 \<Rightarrow> [(procpid P1, b1)] | None \<Rightarrow> [], P1))"

text \<open>
  \<open>order\<close> is the processes in the order of their creation, which \<open>qsort\<close> with \<open>qcompare\<close> makes of
  the table.
\<close>

definition copyAssertionActivityAggregate ::
    "pid list \<Rightarrow> pm \<Rightarrow> (IOReturn \<times> (pid \<times> (kerAssertionEffect \<Rightarrow> u64)) list) \<times> pm" where
  "copyAssertionActivityAggregate order s =
     (if gActivityAggCnt s = 0 then ((kIOReturnNotOpen, []), s)
      else
        case fold (\<lambda>p (out, t).
               case gProcessDict t p of
                 None \<Rightarrow> (out, t)
               | Some P \<Rightarrow>
                   case updateProcAssertionStats (currTime s) P of
                     (r, P1) \<Rightarrow> (out @ r, upd_proc p (\<lambda>_. P1) t)) order ([], s) of
          (samples, t) \<Rightarrow> ((kIOReturnSuccess, samples), t))"

text \<open>The MIG routine; the size of the data is left at 0 when there is nothing to return.\<close>

definition io_pm_assertion_activity_aggregate ::
    "bool \<Rightarrow> pid list \<Rightarrow> pm \<Rightarrow> (IOReturn \<times> (pid \<times> (kerAssertionEffect \<Rightarrow> u64)) list) \<times> pm" where
  "io_pm_assertion_activity_aggregate serialized order s =
     (case copyAssertionActivityAggregate order s of
        ((rc, samples), t) \<Rightarrow>
          if rc \<noteq> kIOReturnSuccess then ((rc, []), t)
          else if samples = [] then ((kIOReturnSuccess, []), t)
          else if serialized then ((rc, samples), t)
          else ((kIOReturnInternalError, []), t))"

text \<open>
  The periodic check on battery: the processes whose assertions have had an effect for longer than their limit
  since the last check are announced.  \<open>delta\<close> stands for \<open>IOReportCreateSamplesDelta\<close>; without samples
  the basis is given up.
\<close>

type_synonym samples = "(pid \<times> (kerAssertionEffect \<Rightarrow> u64)) list"

definition exceeds :: "pm \<Rightarrow> pid \<times> (kerAssertionEffect \<Rightarrow> u64) \<Rightarrow> bool" where
  "exceeds s ch =
     (case gProcessDict s (fst ch) of
        None \<Rightarrow> False
      | Some P \<Rightarrow>
          aggAssertLength P \<noteq> 0 \<and>
          (\<exists>e \<in> {kPrevIdleSlpEffect, kPrevDemandSlpEffect, kPrevDisplaySlpEffect}.
             uint (aggAssertLength P) \<le> sint (snd ch e)))"

definition checkProcAggregates ::
    "(samples \<Rightarrow> samples \<Rightarrow> samples option) \<Rightarrow> pid list \<Rightarrow> samples option \<Rightarrow> pm
     \<Rightarrow> pid list \<times> samples option \<times> pm" where
  "checkProcAggregates delta order gProcAggregateBasis s =
     (if getPowerSource (env s) \<noteq> kBatteryPowered then ([], gProcAggregateBasis, s)
      else
        case copyAssertionActivityAggregate order s of
          ((rc, update), t) \<Rightarrow>
            let update' = (if rc = kIOReturnSuccess then Some update else None) in
            case (gProcAggregateBasis, update') of
              (None, _) \<Rightarrow> ([], update', t)
            | (Some _, None) \<Rightarrow> ([], None, t)
            | (Some basis, Some u) \<Rightarrow>
                (case delta basis u of None \<Rightarrow> [] | Some chs \<Rightarrow> map fst (filter (exceeds t) chs), Some u, t))"

definition qcompare :: "ProcessInfo \<Rightarrow> ProcessInfo \<Rightarrow> int" where
  "qcompare p1 p2 = (if create_seq p1 < create_seq p2 then - 1 else if create_seq p1 = create_seq p2 then 0 else 1)"

end
