(* ===== verification/ActivityLogProperties.thy ===== *)
theory ActivityLogProperties
  imports ActivityLog
begin

unbundle bit_operations_syntax

text \<open>
  What holds of the activity log: the ring holds the last 64 of all entries ever recorded, and an
  incremental reader is given exactly the entries since its last read, or the last 64 and the word that
  some are lost.
\<close>

section \<open>The ring and the history\<close>

text \<open>\<open>H\<close> is all entries ever recorded; entry \<open>j\<close> of the last 64 is at \<open>j mod 64\<close>.\<close>

definition ringOf :: "'x list \<Rightarrow> 'x list \<Rightarrow> bool" where
  "ringOf H l \<longleftrightarrow>
     length l = min (length H) 64 \<and> (\<forall>j < length H. length H \<le> j + 64 \<longrightarrow> l ! (j mod 64) = H ! j)"

definition records :: "'x list \<Rightarrow> ('x, 'z) activityLog_scheme \<Rightarrow> bool" where
  "records H s \<longleftrightarrow>
     ringOf H (case ringLog s of Some l \<Rightarrow> l | None \<Rightarrow> []) \<and> ringIdx s = of_nat (length H)"

lemma ringOf_append:
  assumes "ringOf H l"
  shows "ringOf (H @ [e]) (setValueAtIndex l (length H mod 64) e)"
proof -
  let ?n = "length H"
  have len: "length l = min ?n 64" and nth: "\<And>j. j < ?n \<Longrightarrow> ?n \<le> j + 64 \<Longrightarrow> l ! (j mod 64) = H ! j"
    using assms by (auto simp: ringOf_def)
  show ?thesis
  proof (cases "?n < 64")
    case True
    then have "setValueAtIndex l (?n mod 64) e = l @ [e]" using len by (simp add: setValueAtIndex_def)
    moreover have "(l @ [e]) ! (j mod 64) = (H @ [e]) ! j" if "j < Suc ?n" for j
      using that True nth [of j] len by (auto simp: nth_append less_Suc_eq)
    ultimately show ?thesis using True len by (simp add: ringOf_def)
  next
    case False
    then have s: "setValueAtIndex l (?n mod 64) e = l[?n mod 64 := e]" "length l = 64"
      using len by (auto simp: setValueAtIndex_def)
    have "l[?n mod 64 := e] ! (j mod 64) = (H @ [e]) ! j" if "j < Suc ?n" "Suc ?n \<le> j + 64" for j
    proof (cases "j = ?n")
      case True
      then show ?thesis using s by simp
    next
      case False
      with that have "j < ?n" "?n < j + 64" by auto
      have "j mod 64 \<noteq> ?n mod 64"
      proof
        assume "j mod 64 = ?n mod 64"
        then have "64 dvd ?n - j" using \<open>j < ?n\<close> by (metis mod_eq_dvd_iff_nat less_imp_le)
        then have "64 \<le> ?n - j" using \<open>j < ?n\<close> by (simp add: dvd_imp_le)
        then show False using \<open>?n < j + 64\<close> by simp
      qed
      then show ?thesis using nth [of j] \<open>j < ?n\<close> that by (simp add: nth_append)
    qed
    then show ?thesis using s \<open>\<not> ?n < 64\<close> by (simp add: ringOf_def)
  qed
qed

lemma records_cong: "ringLog s = ringLog t \<Longrightarrow> ringIdx s = ringIdx t \<Longrightarrow> records H s = records H t"
  by (simp add: records_def)

lemma countUnread_ring: "ringLog (countUnread s) = ringLog s" "ringIdx (countUnread s) = ringIdx s"
  by (simp_all add: countUnread_def postHighWater_def Let_def)

lemma ensureLog_records: "records H s \<Longrightarrow> records H (ensureLog s)"
  by (auto simp: records_def ensureLog_def postHighWater_def)

lemma ensureLog_some: "\<exists>l. ringLog (ensureLog s) = Some l"
  by (auto simp: ensureLog_def postHighWater_def)

text \<open>The index wraps at a multiple of 64.\<close>

lemma unat_of_nat_mod64: "unat (of_nat n :: u32) mod AA_MAX_ENTRIES = n mod 64"
  by (simp add: unat_of_nat AA_MAX_ENTRIES_def mod_mod_cancel)

lemma appendEntry_records:
  assumes "records H s"
  shows "records (H @ [e]) (appendEntry e s)"
proof -
  obtain l where l: "ringLog (ensureLog s) = Some l" using ensureLog_some by blast
  have "ringOf H l" "ringIdx (ensureLog s) = of_nat (length H)"
    using ensureLog_records [OF assms] l by (simp_all add: records_def)
  then show ?thesis
    by (simp add: records_def appendEntry_def Let_def countUnread_ring l unat_of_nat_mod64 ringOf_append)
qed

section \<open>Ranges\<close>

lemma CFRange_nth: "start + len \<le> length xs \<Longrightarrow> i < len \<Longrightarrow> CFRange start len xs ! i = xs ! (start + i)"
  by (simp add: CFRange_def)

lemma length_CFRange: "start + len \<le> length xs \<Longrightarrow> length (CFRange start len xs) = len"
  by (simp add: CFRange_def)

text \<open>A range that does not wrap is a part of the history.\<close>

lemma ring_range:
  assumes "ringOf H l" and "a < b" and "b \<le> length H" and "length H \<le> a + 64"
    and "a mod 64 \<le> (b - 1) mod 64"
  shows "CFRange (a mod 64) ((b - 1) mod 64 - a mod 64 + 1) l = take (b - a) (drop a H)"
proof -
  have d: "b - 1 - a < 64" using assms by simp
  have e: "(b - 1) mod 64 = a mod 64 + (b - 1 - a)"
  proof -
    have "(a + (b - 1 - a)) mod 64 = (a mod 64 + (b - 1 - a)) mod 64" by (rule mod_add_left_eq [symmetric])
    moreover have "a + (b - 1 - a) = b - 1" using assms(2) by simp
    ultimately have m: "(b - 1) mod 64 = (a mod 64 + (b - 1 - a)) mod 64" by simp
    show ?thesis
    proof (cases "a mod 64 + (b - 1 - a) < 64")
      case True
      then show ?thesis using m by simp
    next
      case False
      moreover have "a mod 64 < 64" by simp
      ultimately have "(a mod 64 + (b - 1 - a)) mod 64 = a mod 64 + (b - 1 - a) - 64"
        using d by (subst mod_if) (simp add: mod_less)
      moreover have "a mod 64 + (b - 1 - a) - 64 < a mod 64" using d False by linarith
      ultimately have "(b - 1) mod 64 < a mod 64" using m by simp
      then show ?thesis using assms(5) by simp
    qed
  qed
  have len: "length l = min (length H) 64" using assms(1) by (simp add: ringOf_def)
  have fits: "a mod 64 + (b - a) \<le> length l"
  proof (cases "length H \<le> 64")
    case True
    then have "a mod 64 \<le> a" by simp
    then show ?thesis using True len assms(2,3) by simp
  next
    case False
    have "(b - 1) mod 64 < 64" by simp
    then have "a mod 64 + (b - 1 - a) < 64" using e by linarith
    then show ?thesis using False len assms(2) by simp
  qed
  have c: "(b - 1) mod 64 - a mod 64 + 1 = b - a" using e assms(2) by simp
  show ?thesis unfolding c
  proof (rule nth_equalityI)
    show "length (CFRange (a mod 64) (b - a) l) = length (take (b - a) (drop a H))"
      using fits assms(2,3) by (simp add: length_CFRange)
  next
    fix i assume "i < length (CFRange (a mod 64) (b - a) l)"
    then have i: "i < b - a" using fits by (simp add: length_CFRange)
    have "(b - 1) mod 64 < 64" by simp
    then have "a mod 64 + i < 64" using e i by linarith
    then have "a mod 64 + i = (a + i) mod 64" using mod_add_left_eq [of a 64 i] by simp
    then have "CFRange (a mod 64) (b - a) l ! i = l ! ((a + i) mod 64)"
      using i fits by (simp add: CFRange_nth)
    also have "\<dots> = H ! (a + i)" using assms(1,3,4) i by (simp add: ringOf_def)
    finally show "CFRange (a mod 64) (b - a) l ! i = take (b - a) (drop a H) ! i"
      using i assms(3) by simp
  qed
qed

text \<open>A range that wraps is two parts of the full ring.\<close>

lemma ring_wrapped:
  assumes "ringOf H l" and "a < b" and "b = length H" and "length H \<le> a + 64"
    and "(b - 1) mod 64 < a mod 64"
  shows "length l = 64 \<and>
         CFRange (a mod 64) (64 - a mod 64) l @ CFRange 0 ((b - 1) mod 64 + 1) l = drop a H"
proof -
  let ?c = "a + (64 - a mod 64)"
  have am: "a mod 64 < 64" by simp
  have c0: "?c mod 64 = 0"
  proof -
    have "?c = a - a mod 64 + 64" using am by simp
    then show ?thesis by (simp add: minus_mod_eq_mult_div)
  qed
  have cb: "?c < b"
  proof (rule ccontr)
    assume "\<not> ?c < b"
    then have "b - 1 = a + (b - 1 - a)" "a mod 64 + (b - 1 - a) < 64" using assms(2) am by auto
    then have "(b - 1) mod 64 = a mod 64 + (b - 1 - a)" by (metis mod_add_left_eq mod_less)
    then show False using assms(5) by simp
  qed
  have len: "length l = 64" using cb assms(1,3) am by (auto simp: ringOf_def min_def)
  have first: "CFRange (a mod 64) ((?c - 1) mod 64 - a mod 64 + 1) l = take (?c - a) (drop a H)"
  proof (rule ring_range [OF assms(1)])
    have "?c - 1 = a - a mod 64 + 63" using am by simp
    then have "(?c - 1) mod 64 = 63" by (simp add: minus_mod_eq_mult_div)
    then show "a mod 64 \<le> (?c - 1) mod 64" using am by simp
  qed (use cb assms am in auto)
  have "(?c - 1) mod 64 = 63"
  proof -
    have "?c - 1 = a - a mod 64 + 63" using am by simp
    then show ?thesis by (simp add: minus_mod_eq_mult_div)
  qed
  then have p1: "CFRange (a mod 64) (64 - a mod 64) l = take (?c - a) (drop a H)"
  proof -
    have "63 - a mod 64 + 1 = 64 - a mod 64" using am by simp
    then show ?thesis using first \<open>(?c - 1) mod 64 = 63\<close> by (simp only:)
  qed
  have "CFRange (?c mod 64) ((b - 1) mod 64 - ?c mod 64 + 1) l = take (b - ?c) (drop ?c H)"
    by (rule ring_range [OF assms(1)]) (use cb assms c0 in auto)
  then have "CFRange 0 ((b - 1) mod 64 - 0 + 1) l = take (b - ?c) (drop ?c H)"
    by (simp only: c0)
  then have p2: "CFRange 0 ((b - 1) mod 64 + 1) l = drop ?c H"
    using assms(3) by simp
  have "take (?c - a) (drop a H) @ drop ?c H = drop a H"
    using append_take_drop_id [of "?c - a" "drop a H"] by (simp add: add.commute)
  then show ?thesis using len by (simp only: p1 p2)
qed

text \<open>The part of the history from entry \<open>a\<close>, as the reader assembles it.\<close>

lemma ring_segment:
  assumes "ringOf H l" and "a < length H" and "length H \<le> a + 64"
  shows "(if (length H - 1) mod 64 < a mod 64 then
            length l = 64 \<and> CFRange (a mod 64) (64 - a mod 64) l @ CFRange 0 ((length H - 1) mod 64 + 1) l = drop a H
          else CFRange (a mod 64) ((length H - 1) mod 64 - a mod 64 + 1) l = drop a H) \<and>
         (length H - 1) mod 64 + 1 \<le> length l"
proof -
  have "(length H - 1) mod 64 + 1 \<le> length l"
  proof (cases "length H \<le> 64")
    case True
    then have "(length H - 1) mod 64 = length H - 1" using assms(2) by simp
    then show ?thesis using True assms(1,2) by (simp add: ringOf_def)
  next
    case False
    have "(length H - 1) mod 64 < 64" by simp
    then show ?thesis using False assms(1) by (simp add: ringOf_def)
  qed
  then show ?thesis
    using ring_wrapped [OF assms(1,2) refl assms(3)] ring_range [OF assms(1,2) le_refl assms(3)] by auto
qed

section \<open>The reader\<close>

lemma updates_of_range:
  assumes "rd \<noteq> ringIdx s" and "ringLog s = Some l" and "\<not> unat rd mod AA_MAX_ENTRIES \<ge> length l"
    and "updateRange rd (ringIdx s) (length l) = Some (st, en, ov)" and "en + 1 \<le> length l"
  shows "getAssertionActivityUpdates rd False s =
    (Some ((if st > en \<and> length l = 64 then CFRange st (64 - st) l else []) @
           CFRange (if st > en then 0 else st) (en - (if st > en then 0 else st) + 1) l),
     ringIdx s, ov \<or> st > en \<and> length l \<noteq> 64)"
proof -
  have "length l \<noteq> 0" using assms(5) by (cases l) simp_all
  then show ?thesis
    using assms(1,3,5)
    by (simp only: getAssertionActivityUpdates_def Let_def assms(2,4) option.case prod.case if_False if_True
          simp_thms AA_MAX_ENTRIES_def)
qed

text \<open>The range of a reader that has seen \<open>r\<close> of \<open>n\<close> entries.\<close>

lemma updateRange_seen:
  assumes "r < n" and "n + 64 < 2 ^ 32" and "m = min n 64"
  shows "updateRange (of_nat r) (of_nat n) m =
    Some ((if n \<le> r + 64 then r else n - 64) mod 64, (n - 1) mod 64, r + 64 < n)"
proof -
  have u: "unat (of_nat k :: u32) = k" if "k \<le> n + 64" for k
    using that assms(2) by (simp add: unat_of_nat)
  have ne: "(of_nat r :: u32) \<noteq> UINT_MAX"
  proof
    assume "(of_nat r :: u32) = UINT_MAX"
    then have "(of_nat r :: u32) = of_nat 4294967295" by (simp add: UINT_MAX_def)
    then have "unat (of_nat r :: u32) = unat (of_nat 4294967295 :: u32)" by (rule arg_cong)
    then show False using assms(1,2) u [of r] by simp
  qed
  have sum: "(of_nat r + of_nat AA_MAX_ENTRIES :: u32) = of_nat (r + 64)" by (simp add: AA_MAX_ENTRIES_def)
  have gt: "(of_nat n :: u32) > of_nat (r + 64) \<longleftrightarrow> r + 64 < n"
    unfolding word_less_nat_alt using u [of n] u [of "r + 64"] assms(1) by simp
  have lt: "(of_nat n :: u32) < of_nat r \<longleftrightarrow> False"
    unfolding word_less_nat_alt using u [of n] u [of r] assms(1) by simp
  have pr: "unat (of_nat n - 1 :: u32) mod AA_MAX_ENTRIES = (n - 1) mod 64"
  proof -
    have "of_nat n - 1 = (of_nat (n - 1) :: u32)" using assms(1) by (simp add: of_nat_diff)
    then show ?thesis using unat_of_nat_mod64 [of "n - 1"] by simp
  qed
  have e: "updateRange (of_nat r) (of_nat n) m =
      (if r + 64 < n then Some (if n mod 64 \<ge> m then 0 else n mod 64, (n - 1) mod 64, True)
       else Some (r mod 64, (n - 1) mod 64, False))"
    unfolding updateRange_def Let_def sum gt lt pr unat_of_nat_mod64
    using ne by simp
  show ?thesis
  proof (cases "r + 64 < n")
    case True
    then have "(n - 64) mod 64 = n mod 64" by (simp add: le_mod_geq [symmetric])
    moreover have "n mod 64 < m" using True assms(3) by simp
    ultimately show ?thesis unfolding e using True by simp
  next
    case False
    then show ?thesis unfolding e by simp
  qed
qed

lemma activity_updates:
  assumes rec: "records H s" and n: "length H + 64 < 2 ^ 32" and r: "r \<le> length H"
  shows "getAssertionActivityUpdates (of_nat r) False s =
    (if r = length H then None else Some (if length H \<le> r + 64 then drop r H else drop (length H - 64) H),
     of_nat (length H), r + 64 < length H)"
proof (cases "r = length H")
  case True
  then show ?thesis using rec by (simp add: getAssertionActivityUpdates_def records_def)
next
  case False
  let ?n = "length H"
  let ?a = "if ?n \<le> r + 64 then r else ?n - 64"
  have rn: "r < ?n" using r False by simp
  have idx: "ringIdx s = of_nat ?n" using rec by (simp add: records_def)
  obtain l where l: "ringLog s = Some l" "ringOf H l"
    using rec rn by (cases "ringLog s") (auto simp: records_def ringOf_def min_def split: if_splits)
  have len: "length l = min ?n 64" using l(2) by (simp add: ringOf_def)
  have "unat (of_nat r :: u32) = r" "unat (of_nat ?n :: u32) = ?n" using rn n by (simp_all add: unat_of_nat)
  then have ne: "(of_nat r :: u32) \<noteq> ringIdx s" using rn by (metis idx less_irrefl)
  have lost: "\<not> unat (of_nat r :: u32) mod AA_MAX_ENTRIES \<ge> length l"
  proof -
    have "r mod 64 < 64" "r mod 64 \<le> r" by simp_all
    then show ?thesis unfolding unat_of_nat_mod64 len using rn by (simp add: min_def not_le)
  qed
  have "?a < ?n" "?n \<le> ?a + 64" using rn by auto
  note seg = ring_segment [OF l(2) this]
  have "getAssertionActivityUpdates (of_nat r) False s =
    (Some ((if ?a mod 64 > (?n - 1) mod 64 \<and> length l = 64 then CFRange (?a mod 64) (64 - ?a mod 64) l else []) @
           CFRange (if ?a mod 64 > (?n - 1) mod 64 then 0 else ?a mod 64)
             ((?n - 1) mod 64 - (if ?a mod 64 > (?n - 1) mod 64 then 0 else ?a mod 64) + 1) l),
     ringIdx s, r + 64 < ?n \<or> ?a mod 64 > (?n - 1) mod 64 \<and> length l \<noteq> 64)"
    by (rule updates_of_range [OF ne l(1) lost])
       (use seg in \<open>simp_all only: idx updateRange_seen [OF rn n len]\<close>)
  also have "\<dots> = (Some (drop ?a H), of_nat ?n, r + 64 < ?n)"
  proof (cases "?a mod 64 > (?n - 1) mod 64")
    case True
    then show ?thesis using seg by (simp only: if_True idx simp_thms diff_zero)
  next
    case c: False
    then show ?thesis using seg by (simp only: if_False idx simp_thms append_Nil)
  qed
  finally show ?thesis using False by (simp split: if_splits)
qed

section \<open>The log as a machine\<close>

inductive logReachable :: "logEntry list \<Rightarrow> logEntry activityLog \<Rightarrow> bool" where
  log_start: "logReachable [] activityStart"
| log_entry: "logReachable H s \<Longrightarrow> recorded dbg a \<Longrightarrow>
    logReachable (H @ [activityEntry now a prps owner retain]) (logAssertionActivity dbg now a prps owner retain s)"
| log_ignored: "logReachable H s \<Longrightarrow> \<not> recorded dbg a \<Longrightarrow>
    logReachable H (logAssertionActivity dbg now a prps owner retain s)"
| log_read: "logReachable H s \<Longrightarrow> logReachable H (snd (io_pm_assertion_activity_log bad ent ser refCnt s))"
| log_switch: "logReachable H s \<Longrightarrow> logReachable H (setAssertionActivityLog v s)"

lemma logReachable_records: "logReachable H s \<Longrightarrow> records H s"
proof (induction rule: logReachable.induct)
  case log_start
  then show ?case by (simp add: records_def ringOf_def activityStart_def)
next
  case (log_entry H s dbg a now prps owner retain)
  let ?s = "if a = kACreateLog \<or> a = kASessionStartLog then s\<lparr>gNumAssertions := gNumAssertions s + 1\<rparr> else s"
  have "records H ?s" using log_entry.IH by (simp add: records_def)
  then show ?case using log_entry.hyps by (simp only: logAssertionActivity_def Let_def if_False simp_thms appendEntry_records)
next
  case (log_ignored H s dbg a now prps owner retain)
  then show ?case by (simp add: logAssertionActivity_def records_def)
next
  case (log_read H s bad ent ser refCnt)
  have "records H (s\<lparr>unreadCnt := 0\<rparr>)" "ringLog s = None \<Longrightarrow> records H (s\<lparr>unreadCnt := 0, ringLog := Some []\<rparr>)"
    using log_read.IH by (simp_all add: records_def)
  then show ?case using log_read.IH
    by (simp add: io_pm_assertion_activity_log_def Let_def split: prod.split option.split)
next
  case (log_switch H s v)
  then show ?case by (simp add: setAssertionActivityLog_def records_def)
qed

text \<open>C37: While fewer than 2^32 - 64 entries have been recorded, so that their number does not wrap, the
  activity log refines the list of all entries ever recorded: an entitled reader that has
  seen \<open>r\<close> of them is given the entries since then, or the last 64 and the mark of an overflow exactly
  if it has missed some, and the number of entries to come back with.\<close>

theorem activity_log_refines:
  assumes "logReachable H s" and "length H + 64 < 2 ^ 32" and "r \<le> length H"
  shows "fst (io_pm_assertion_activity_log False True True (of_nat r) s) =
    (if r = length H then (kIOReturnNotFound, None, of_nat (length H), False)
     else (kIOReturnSuccess, Some (if length H \<le> r + 64 then drop r H else drop (length H - 64) H),
           of_nat (length H), r + 64 < length H))"
proof -
  let ?s1 = "s\<lparr>unreadCnt := 0\<rparr>"
  let ?s2 = "if ringLog ?s1 = None then ?s1\<lparr>ringLog := Some []\<rparr> else ?s1"
  have rec: "records H ?s2" using logReachable_records [OF assms(1)] by (auto simp: records_def)
  then have "ringIdx ?s2 = of_nat (length H)" by (simp only: records_def simp_thms)
  then show ?thesis
    by (simp only: io_pm_assertion_activity_log_def Let_def activity_updates [OF rec assms(2,3)] simp_thms if_False
          prod.case fst_conv) simp
qed

lemma activity_log_refines_witness:
  "fst (io_pm_assertion_activity_log False True True 0
      (logAssertionActivity False 5 kACreateLog Map.empty (Some 7) 1 activityStart)) =
   (kIOReturnSuccess, Some [activityEntry 5 kACreateLog Map.empty (Some 7) 1], 1, False)"
proof -
  have "recorded False kACreateLog" by (simp add: recorded_def)
  from activity_log_refines [OF log_entry [OF log_start this, of 5 Map.empty "Some 7" 1], of 0]
  show ?thesis by simp
qed

section \<open>Statistics\<close>

text \<open>No time is counted twice: a sample between adds nothing to what a later one has counted in all.\<close>

lemma samples_add:
  "reportBuf (addDuration t2 e (addDuration t1 e P)) = reportBuf (addDuration t2 e P) \<and>
   stats (addDuration t2 e (addDuration t1 e P)) = stats (addDuration t2 e P)"
  by (cases "reportBuf P") (auto simp: addDuration_def Let_def fun_eq_iff)

text \<open>
  The flag of the first call is cleared before it is passed on, so a first reader is not told that
  it may have missed entries; with the flag it would be.
\<close>

lemma first_call_told: "snd (snd (getAssertionActivityUpdates r True s)) = True"
  by (simp add: getAssertionActivityUpdates_def Let_def split: option.split)

lemma first_call_not_told:
  assumes "logReachable H s" and "length H \<le> 64"
  shows "snd (snd (snd (fst (io_pm_assertion_activity_log False True True 0 s)))) = False"
proof -
  let ?s1 = "s\<lparr>unreadCnt := 0\<rparr>"
  let ?s2 = "if ringLog ?s1 = None then ?s1\<lparr>ringLog := Some []\<rparr> else ?s1"
  have "records H ?s2" using logReachable_records [OF assms(1)] by (auto simp: records_def)
  from activity_updates [OF this, of 0] assms(2)
  have eq: "getAssertionActivityUpdates 0 False ?s2 =
      (if length H = 0 then (None, 0, False) else (Some H, of_nat (length H), False))" by auto
  show ?thesis
    by (cases "length H = 0") (simp_all only: io_pm_assertion_activity_log_def Let_def eq simp_thms if_True if_False
        prod.case option.case fst_conv snd_conv)
qed

text \<open>Without aggregation the periodic check announces nothing and gives up its basis.\<close>

lemma check_without_aggregates:
  "gActivityAggCnt s = 0 \<Longrightarrow> getPowerSource (env s) = kBatteryPowered \<Longrightarrow>
     checkProcAggregates delta order b s = ([], None, s)"
  by (auto simp: checkProcAggregates_def copyAssertionActivityAggregate_def split: option.split)

text \<open>A process without a limit is never announced.\<close>

lemma no_limit_not_announced:
  assumes "gProcessDict t p = Some P" and "aggAssertLength P = 0"
  shows "p \<notin> set (map fst (filter (exceeds t) chs))"
  using assms by (auto simp: exceeds_def)

end
