(* ===== verification/AsyncChecks.thy ===== *)
theory AsyncChecks
  imports ActivityLog
begin

text \<open>
  The questions of the daemon to the processes that keep their assertions themselves
  (PMAssertions.c): before the system sleeps they are asked for assertions that forbid it, and when
  power logging reads the activity log (PMAssertionLog.c) they are asked for what they have recorded.  Both
  wait for the answers of all processes, but no longer than \<open>gPendingResponseTimeout\<close>.
\<close>

section \<open>State\<close>

text \<open>A dictionary that has been released keeps its pointer; a use of it is an event.\<close>

datatype cfDict = NullDict | LiveDict "pid \<rightharpoonup> props_t list" | FreedDict

datatype asyncEvent =
    SleepNotificationResponse u64 bool
  | AssertionCheckMsg pid u64
  | AssertionUpdateMsg pid bool u32
  | ActivityUpdateReply "logEntry list option" u32 bool "string list option"
  | ActiveAssertionsReply "(pid \<rightharpoonup> props_t list) option"
  | UseAfterFree

text \<open>
  The sets of pending processes hold pointers to their records, which stand here for the process
  identifiers of the records; \<open>None\<close> is a set that has not been made.  A timer is a flag that says whether it
  is armed.  \<open>gRemoteRequest\<close> stands for \<open>gRemoteConnection\<close> and \<open>gRemoteMsg\<close>, which are set together, and
  is the position in the log that the message holds.
\<close>

record asyncChecks =
  gPendingResponses :: "pid list option"
  gPendingAckToken :: u64
  gSleepBlockers :: u32
  checkTimer :: bool
  gPendingLoggingResponses :: "pid list option"
  gActivityUpdateToken :: u32
  lastToken :: u32
  gAsyncActiveAssertions :: cfDict
  gActivityUpdateActivesOnly :: bool
  gActivityUpdateClientOverflow :: bool
  updateTimer :: bool
  gRemoteRequest :: "u64 option"
  activity :: "logEntry activityLog"
  engine :: pm
  sent :: "asyncEvent list"

definition asyncStart :: "pm \<Rightarrow> asyncChecks" where
  "asyncStart e =
     \<lparr>gPendingResponses = None, gPendingAckToken = 0, gSleepBlockers = 0, checkTimer = False,
      gPendingLoggingResponses = None, gActivityUpdateToken = 0, lastToken = 0, gAsyncActiveAssertions = NullDict,
      gActivityUpdateActivesOnly = False, gActivityUpdateClientOverflow = False, updateTimer = False,
      gRemoteRequest = None, activity = activityStart, engine = e, sent = []\<rparr>"

definition say :: "asyncEvent \<Rightarrow> asyncChecks \<Rightarrow> asyncChecks" where
  "say e s = s\<lparr>sent := e # sent s\<rparr>"

definition members :: "pid list option \<Rightarrow> pid list" where
  "members = case_option [] id"

definition onEngine :: "(pm \<Rightarrow> pm) \<Rightarrow> asyncChecks \<Rightarrow> asyncChecks" where
  "onEngine f s = s\<lparr>engine := f (engine s)\<rparr>"

text \<open>The processes that are asked.\<close>

definition asked :: "ProcessInfo \<Rightarrow> bool" where
  "asked P \<longleftrightarrow> remoteConnection P \<and> \<not> proc_exited P \<and> \<not> isSuspended P"

section \<open>Before sleep\<close>

text \<open>The answer to the kernel at the end of a check.\<close>

definition answerSleep :: "asyncChecks \<Rightarrow> asyncChecks" where
  "answerSleep s =
     (say (SleepNotificationResponse (gPendingAckToken s) (gSleepBlockers s = 0)) s)
       \<lparr>gPendingAckToken := 0, gSleepBlockers := 0\<rparr>"

definition handleAssertionCheckTimeout :: "pid \<Rightarrow> asyncChecks \<Rightarrow> asyncChecks" where
  "handleAssertionCheckTimeout p = onEngine (processInfoRelease p)"

text \<open>A key that the reply does not have, or a reply that is an error, gives 0.\<close>

definition processAssertionCheckResp :: "u64 \<Rightarrow> u64 \<Rightarrow> pid \<Rightarrow> asyncChecks \<Rightarrow> asyncChecks" where
  "processAssertionCheckResp token blockers p s =
     (if token \<noteq> gPendingAckToken s \<or> p = 0 then s
      else case processInfoGet (engine s) p of
        None \<Rightarrow> s
      | Some q \<Rightarrow>
          if q \<notin> set (members (gPendingResponses s)) then s
          else
            let s1 = onEngine (processInfoRelease q)
                  (s\<lparr>gSleepBlockers := gSleepBlockers s + ucast blockers,
                     gPendingResponses := map_option (remove1 q) (gPendingResponses s)\<rparr>)
            in if members (gPendingResponses s1) = [] then answerSleep s1 else s1)"

text \<open>The message to a process can always be made.\<close>

definition sendCheckAssertionsMsg :: "pid \<Rightarrow> asyncChecks \<Rightarrow> asyncChecks" where
  "sendCheckAssertionsMsg p s = say (AssertionCheckMsg p (gPendingAckToken s)) s"

definition askForBlockers :: "pid \<Rightarrow> asyncChecks \<Rightarrow> asyncChecks" where
  "askForBlockers p s =
     (case gProcessDict (engine s) p of
        None \<Rightarrow> s
      | Some P \<Rightarrow>
          if \<not> asked P then s
          else sendCheckAssertionsMsg p
                 ((onEngine (processInfoRetain p) s)
                    \<lparr>gPendingResponses := map_option (List.insert p) (gPendingResponses s)\<rparr>))"

text \<open>\<open>order\<close> is the processes of the table in the order in which the dictionary gives them.\<close>

definition checkForAsyncAssertions :: "pid list \<Rightarrow> u64 \<Rightarrow> asyncChecks \<Rightarrow> asyncChecks" where
  "checkForAsyncAssertions order acknowledgementToken s =
     (let s1 = (if gPendingResponses s = None then s\<lparr>gPendingResponses := Some []\<rparr> else s) in
      if gPendingAckToken s1 \<noteq> 0 \<or> members (gPendingResponses s1) \<noteq> []
      then say (SleepNotificationResponse acknowledgementToken True) s1
      else
        let s2 = fold askForBlockers order (s1\<lparr>gPendingAckToken := acknowledgementToken, gSleepBlockers := 0\<rparr>);
            s3 = (if members (gPendingResponses s2) = []
                  then (say (SleepNotificationResponse acknowledgementToken True) s2)
                         \<lparr>gPendingAckToken := 0, gSleepBlockers := 0\<rparr>
                  else s2)
        in s3\<lparr>checkTimer := True\<rparr>)"

definition checkTimerFired :: "asyncChecks \<Rightarrow> asyncChecks" where
  "checkTimerFired s =
     (let s0 = s\<lparr>checkTimer := False\<rparr>; pending = members (gPendingResponses s0) in
      if pending = [] then s0
      else answerSleep ((fold handleAssertionCheckTimeout pending s0)\<lparr>gPendingResponses := Some []\<rparr>))"

section \<open>The activity of the processes\<close>

definition asyncAssertionLog ::
    "bool \<Rightarrow> rat \<Rightarrow> pid option \<Rightarrow> (asyncActionName option \<times> props_t) list option \<Rightarrow> asyncChecks \<Rightarrow> asyncChecks" where
  "asyncAssertionLog debugNames now owner entries s =
     (case entries of
        None \<Rightarrow> s
      | Some l \<Rightarrow> s\<lparr>activity := logAsyncAssertionActivity debugNames now owner l (activity s)\<rparr>)"

text \<open>A message with activity alone; its process is entered for the time of the call if it is not known.\<close>

definition asyncAssertionLogging ::
    "bool \<Rightarrow> rat \<Rightarrow> pid \<Rightarrow> (asyncActionName option \<times> props_t) list option \<Rightarrow> asyncChecks \<Rightarrow> asyncChecks" where
  "asyncAssertionLogging debugNames now p entries s =
     (let (owner, e) = (case processInfoGet (engine s) p of
              Some q \<Rightarrow> (Some q, processInfoRetain q (engine s))
            | None \<Rightarrow> processInfoCreate p (engine s));
          s1 = asyncAssertionLog debugNames now owner entries (s\<lparr>engine := e\<rparr>)
      in if owner \<noteq> None then onEngine (processInfoRelease p) s1 else s1)"

text \<open>The reply to power logging; as in the MIG routine the flag of the first call has been cleared.\<close>

definition sendAssertionActivityUpdate :: "string list option \<Rightarrow> bool \<Rightarrow> asyncChecks \<Rightarrow> asyncChecks" where
  "sendAssertionActivityUpdate processes clientOverflow s =
     (let s1 = s\<lparr>activity := (activity s)\<lparr>unreadCnt := 0\<rparr>\<rparr> in
      case gRemoteRequest s1 of
        None \<Rightarrow> s1
      | Some refCnt \<Rightarrow>
          case getAssertionActivityUpdates (ucast refCnt) False (activity s1) of
            (updates, refCnt', overflow) \<Rightarrow>
              (say (ActivityUpdateReply updates refCnt' (overflow \<or> clientOverflow) processes) s1)
                \<lparr>gRemoteRequest := None\<rparr>)"

text \<open>The request is kept after the reply.\<close>

definition sendActiveAssertions :: "cfDict \<Rightarrow> asyncChecks \<Rightarrow> asyncChecks" where
  "sendActiveAssertions d s =
     (case gRemoteRequest s of
        None \<Rightarrow> s
      | Some _ \<Rightarrow>
          case d of
            NullDict \<Rightarrow> say (ActiveAssertionsReply None) s
          | LiveDict m \<Rightarrow> say (ActiveAssertionsReply (Some m)) s
          | FreedDict \<Rightarrow> say UseAfterFree s)"

text \<open>\<open>if (gAsyncActiveAssertions) CFRelease(gAsyncActiveAssertions)\<close>: the pointer is kept.\<close>

definition releaseActives :: "asyncChecks \<Rightarrow> asyncChecks" where
  "releaseActives s =
     (case gAsyncActiveAssertions s of
        NullDict \<Rightarrow> s
      | LiveDict _ \<Rightarrow> s\<lparr>gAsyncActiveAssertions := FreedDict\<rparr>
      | FreedDict \<Rightarrow> say UseAfterFree s)"

definition answerUpdate :: "bool \<Rightarrow> string list option \<Rightarrow> asyncChecks \<Rightarrow> asyncChecks" where
  "answerUpdate activesOnly processes s =
     (if activesOnly then releaseActives (sendActiveAssertions (gAsyncActiveAssertions s) s)
      else sendAssertionActivityUpdate processes (gActivityUpdateClientOverflow s) s)"

text \<open>The reply of a process: the token, what it holds under the key of the request, and the mark of an overflow.\<close>

record updateReply =
  rp_token :: u64
  rp_actives :: "props_t list option"
  rp_log :: "(asyncActionName option \<times> props_t) list option"
  rp_overflow :: bool

definition noteActives :: "pid \<Rightarrow> props_t list option \<Rightarrow> asyncChecks \<Rightarrow> asyncChecks" where
  "noteActives p actives s =
     (case actives of
        None \<Rightarrow> s
      | Some l \<Rightarrow>
          case gAsyncActiveAssertions s of
            NullDict \<Rightarrow> s
          | LiveDict m \<Rightarrow> s\<lparr>gAsyncActiveAssertions := LiveDict (m(p \<mapsto> l))\<rparr>
          | FreedDict \<Rightarrow> say UseAfterFree s)"

text \<open>\<open>None\<close> is a reply that is no dictionary.\<close>

definition processAssertionActivityUpdateResp ::
    "bool \<Rightarrow> rat \<Rightarrow> updateReply option \<Rightarrow> pid \<Rightarrow> bool \<Rightarrow> asyncChecks \<Rightarrow> asyncChecks" where
  "processAssertionActivityUpdateResp debugNames now reply p activesOnly s =
     (case reply of
        None \<Rightarrow> s
      | Some r \<Rightarrow>
          if (ucast (rp_token r) :: u32) \<noteq> gActivityUpdateToken s then s
          else case processInfoGet (engine s) p of
            None \<Rightarrow> s
          | Some q \<Rightarrow>
              let s1 = (if activesOnly then noteActives p (rp_actives r) s
                        else asyncAssertionLog debugNames now (Some q) (rp_log r) s);
                  s2 = (if rp_overflow r then s1\<lparr>gActivityUpdateClientOverflow := True\<rparr> else s1);
                  s3 = onEngine (processInfoRelease p)
                         (s2\<lparr>gPendingLoggingResponses := map_option (remove1 q) (gPendingLoggingResponses s2)\<rparr>)
              in if members (gPendingLoggingResponses s3) = []
                 then (answerUpdate activesOnly None s3)\<lparr>gActivityUpdateToken := 0\<rparr> else s3)"

definition assertionActivityUpdateInProgress :: "asyncChecks \<Rightarrow> bool" where
  "assertionActivityUpdateInProgress s \<longleftrightarrow> gActivityUpdateToken s \<noteq> 0"

definition generateAssertionActivityUpdateToken :: "asyncChecks \<Rightarrow> u32 \<times> asyncChecks" where
  "generateAssertionActivityUpdateToken s =
     (let t = (if lastToken s = UINT_MAX then 0 else lastToken s) + 1 in (t, s\<lparr>lastToken := t\<rparr>))"

definition sendAssertionActivityUpdateMsg :: "pid \<Rightarrow> bool \<Rightarrow> asyncChecks \<Rightarrow> asyncChecks" where
  "sendAssertionActivityUpdateMsg p activesOnly s =
     say (AssertionUpdateMsg p activesOnly (gActivityUpdateToken s)) s"

definition askForActivity :: "pid \<Rightarrow> asyncChecks \<Rightarrow> asyncChecks" where
  "askForActivity p s =
     (case gProcessDict (engine s) p of
        None \<Rightarrow> s
      | Some P \<Rightarrow>
          if \<not> asked P then s
          else sendAssertionActivityUpdateMsg p (gActivityUpdateActivesOnly s)
                 ((onEngine (processInfoRetain p) s)
                    \<lparr>gPendingLoggingResponses := map_option (List.insert p) (gPendingLoggingResponses s)\<rparr>))"

definition checkForAssertionActivityUpdates :: "pid list \<Rightarrow> bool \<Rightarrow> asyncChecks \<Rightarrow> asyncChecks" where
  "checkForAssertionActivityUpdates order activesOnly s =
     (let s1 = s\<lparr>gActivityUpdateClientOverflow := False, gActivityUpdateActivesOnly := activesOnly,
                gAsyncActiveAssertions := (if activesOnly then LiveDict Map.empty else gAsyncActiveAssertions s)\<rparr>
      in case generateAssertionActivityUpdateToken s1 of
           (token, s2) \<Rightarrow>
             let s3 = s2\<lparr>gActivityUpdateToken := token,
                        gPendingLoggingResponses := Some (members (gPendingLoggingResponses s2))\<rparr>;
                 s4 = fold askForActivity order s3
             in if members (gPendingLoggingResponses s4) = []
                then (if activesOnly then sendActiveAssertions NullDict s4
                      else sendAssertionActivityUpdate None False s4)\<lparr>gActivityUpdateToken := 0\<rparr>
                else s4\<lparr>updateTimer := True\<rparr>)"

text \<open>The names of the processes that have not answered, for the reply.\<close>

definition timedOutProcesses :: "asyncChecks \<Rightarrow> string list" where
  "timedOutProcesses s =
     List.map_filter (\<lambda>p. pname (proc (engine s) p)) (members (gPendingLoggingResponses s))"

definition updateTimerFired :: "asyncChecks \<Rightarrow> asyncChecks" where
  "updateTimerFired s =
     (let s0 = s\<lparr>updateTimer := False\<rparr>; pending = members (gPendingLoggingResponses s0) in
      if pending = [] then s0
      else
        (answerUpdate (gActivityUpdateActivesOnly s0) (Some (timedOutProcesses s0))
           (fold handleAssertionCheckTimeout pending s0))
          \<lparr>gActivityUpdateToken := 0, gPendingLoggingResponses := Some []\<rparr>)"

section \<open>Requests of power logging\<close>

text \<open>The last failure decides; the reply to a refused request is made from the connection and not sent.\<close>

definition copyRequestRc :: "bool \<Rightarrow> bool \<Rightarrow> asyncChecks \<Rightarrow> IOReturn" where
  "copyRequestRc validArgs entitled s =
     (if assertionActivityUpdateInProgress s then kIOReturnBusy
      else if \<not> entitled then kIOReturnNotPermitted
      else if \<not> validArgs then kIOReturnBadArgument
      else kIOReturnSuccess)"

definition copyAssertionActivityUpdate ::
    "bool \<Rightarrow> bool \<Rightarrow> u64 \<Rightarrow> pid list \<Rightarrow> asyncChecks \<Rightarrow> asyncChecks" where
  "copyAssertionActivityUpdate validArgs entitled refCnt order s =
     (if copyRequestRc validArgs entitled s \<noteq> kIOReturnSuccess then s
      else checkForAssertionActivityUpdates order False (s\<lparr>gRemoteRequest := Some refCnt\<rparr>))"

definition copyActiveAssertions :: "bool \<Rightarrow> bool \<Rightarrow> u64 \<Rightarrow> pid list \<Rightarrow> asyncChecks \<Rightarrow> asyncChecks" where
  "copyActiveAssertions validArgs entitled refCnt order s =
     (if copyRequestRc validArgs entitled s \<noteq> kIOReturnSuccess then s
      else checkForAssertionActivityUpdates order True (s\<lparr>gRemoteRequest := Some refCnt\<rparr>))"

end
