(* ===== verification/AsyncChecksLemmas.thy ===== *)
theory AsyncChecksLemmas
  imports AsyncChecks
begin

text \<open>
  The invariants of the two questions to the processes and their preservation by every operation:
  which tokens have been answered, how many requests of power logging have been, and that the records of the
  processes that are waited for are retained.
\<close>

section \<open>What has been sent\<close>

definition ackOf :: "asyncEvent \<Rightarrow> u64 option" where
  "ackOf e = (case e of SleepNotificationResponse t _ \<Rightarrow> Some t | _ \<Rightarrow> None)"

definition acks :: "asyncChecks \<Rightarrow> u64 list" where
  "acks s = List.map_filter ackOf (sent s)"

definition isReply :: "asyncEvent \<Rightarrow> bool" where
  "isReply e = (case e of ActivityUpdateReply _ _ _ _ \<Rightarrow> True | ActiveAssertionsReply _ \<Rightarrow> True | _ \<Rightarrow> False)"

definition replies :: "asyncChecks \<Rightarrow> nat" where
  "replies s = length (filter isReply (sent s))"

abbreviation awaited :: "asyncChecks \<Rightarrow> pid list" where
  "awaited s \<equiv> members (gPendingResponses s)"

abbreviation awaitedLogs :: "asyncChecks \<Rightarrow> pid list" where
  "awaitedLogs s \<equiv> members (gPendingLoggingResponses s)"

lemma members_simps [simp]:
  "members None = []"
  "members (Some xs) = xs"
  "members (map_option f x) = (case x of None \<Rightarrow> [] | Some xs \<Rightarrow> f xs)"
  by (simp_all add: members_def split: option.split)

lemma members_remove1 [simp]: "(case x of None \<Rightarrow> [] | Some xs \<Rightarrow> remove1 q xs) = remove1 q (members x)"
  by (cases x) simp_all

lemma set_members_insert [simp]:
  "set (case x of None \<Rightarrow> [] | Some xs \<Rightarrow> List.insert q xs) = (if x = None then {} else insert q (set (members x)))"
  by (cases x) simp_all

section \<open>Records that are retained\<close>

definition retains :: "pm \<Rightarrow> pid \<Rightarrow> nat" where
  "retains e p = (case gProcessDict e p of None \<Rightarrow> 0 | Some P \<Rightarrow> unat (retain_cnt P))"

definition owed :: "asyncChecks \<Rightarrow> pid \<Rightarrow> nat" where
  "owed s p = of_bool (p \<in> set (awaited s)) + of_bool (p \<in> set (awaitedLogs s))"

text \<open>Every process that is waited for is in the table and retained for it.\<close>

definition held :: "asyncChecks \<Rightarrow> bool" where
  "held s \<longleftrightarrow> (\<forall>p. owed s p \<le> retains (engine s) p)"

lemma owed_le: "owed s p \<le> 2"
  by (simp add: owed_def)

lemma retains_release:
  assumes "0 < retains e q"
  shows "retains (processInfoRelease q e) p = (if p = q then retains e q - 1 else retains e p)"
proof -
  from assms obtain P where P: "gProcessDict e q = Some P" "retain_cnt P \<noteq> 0"
    by (auto simp: retains_def unat_gt_0 split: option.splits)
  have "unat (retain_cnt P - 1) = unat (retain_cnt P) - 1"
    using P(2) by (simp add: unat_minus_one)
  then show ?thesis
    using P by (auto simp: retains_def processInfoRelease_def upd_proc_def emit_def)
qed

lemma retains_retain:
  "retains (processInfoRetain q e) p =
     (if p = q \<and> gProcessDict e q \<noteq> None \<and> retains e q < 2 ^ 32 - 1 then retains e q + 1 else retains e p)"
proof (cases "gProcessDict e q")
  case None
  then show ?thesis by (auto simp: retains_def processInfoRetain_def upd_proc_def)
next
  case (Some P)
  have m1: "unat (- 1 :: u32) = 2 ^ 32 - 1" by (simp add: unsigned_minus_1_eq_mask mask_eq_exp_minus_1)
  have le: "unat (retain_cnt P) < 2 ^ 32"
    by (rule less_le_trans [OF unsigned_less]) simp
  show ?thesis
  proof (cases "retain_cnt P = - 1")
    case True
    then show ?thesis using Some
      by (auto simp: retains_def processInfoRetain_def upd_proc_def m1)
  next
    case False
    then have "retain_cnt P + 1 \<noteq> 0" by (metis add.inverse_unique add.commute)
    then have 1: "unat (retain_cnt P + 1) = unat (retain_cnt P) + 1" by (metis unatSuc add.commute Suc_eq_plus1)
    have "unat (retain_cnt P) \<noteq> 2 ^ 32 - 1"
      using False m1 by (metis unsigned_word_eqI)
    with le have "unat (retain_cnt P) < 2 ^ 32 - 1" by simp
    then show ?thesis using Some False 1
      by (auto simp: retains_def processInfoRetain_def upd_proc_def)
  qed
qed

lemma retains_fold_release:
  assumes "distinct ps" and "\<And>p. p \<in> set ps \<Longrightarrow> 0 < retains e p"
  shows "retains (fold processInfoRelease ps e) p = retains e p - of_bool (p \<in> set ps)"
  using assms
proof (induction ps arbitrary: e)
  case (Cons q ps)
  have q: "0 < retains e q" using Cons.prems(2) by simp
  have "0 < retains (processInfoRelease q e) r" if "r \<in> set ps" for r
    using Cons.prems that by (auto simp: retains_release [OF q])
  with Cons.IH [of "processInfoRelease q e"] Cons.prems(1) show ?case
    by (auto simp: retains_release [OF q])
qed simp

lemma retains_create:
  "processInfoGet e p = None \<Longrightarrow>
     retains (snd (processInfoCreate p e)) q = (if q = p \<and> fst (processInfoCreate p e) \<noteq> None then 1 else retains e q)"
  by (auto simp: processInfoCreate_def processInfoGet_def setProcessAssertionLimits_def upd_proc_def retains_def
      Let_def split: option.splits)

section \<open>The invariants\<close>

definition sleepCore :: "u64 list \<Rightarrow> asyncChecks \<Rightarrow> bool" where
  "sleepCore T s \<longleftrightarrow>
     mset (acks s) + (if gPendingAckToken s = 0 then {#} else {#gPendingAckToken s#}) = mset T \<and>
     distinct (awaited s)"

definition sleepInv :: "u64 list \<Rightarrow> asyncChecks \<Rightarrow> bool" where
  "sleepInv T s \<longleftrightarrow>
     sleepCore T s \<and> (gPendingAckToken s = 0 \<longleftrightarrow> awaited s = []) \<and> (awaited s = [] \<or> checkTimer s)"

definition updateCore :: "nat \<Rightarrow> asyncChecks \<Rightarrow> bool" where
  "updateCore n s \<longleftrightarrow>
     replies s + of_bool (gActivityUpdateToken s \<noteq> 0) = n \<and> distinct (awaitedLogs s) \<and>
     UseAfterFree \<notin> set (sent s) \<and>
     (gActivityUpdateToken s = 0 \<or>
        gRemoteRequest s \<noteq> None \<and>
        (gActivityUpdateActivesOnly s \<longrightarrow> (\<exists>m. gAsyncActiveAssertions s = LiveDict m)))"

definition updateInv :: "nat \<Rightarrow> asyncChecks \<Rightarrow> bool" where
  "updateInv n s \<longleftrightarrow>
     updateCore n s \<and> (gActivityUpdateToken s = 0 \<longleftrightarrow> awaitedLogs s = []) \<and> (awaitedLogs s = [] \<or> updateTimer s)"

text \<open>The parts of the state that the invariants read.\<close>

definition sleepView :: "asyncChecks \<Rightarrow> u64 list \<times> u64 \<times> pid list \<times> bool" where
  "sleepView s = (acks s, gPendingAckToken s, awaited s, checkTimer s)"

definition updateView ::
    "asyncChecks \<Rightarrow> (nat \<times> bool \<times> u32 \<times> pid list) \<times> (bool \<times> u64 option \<times> bool \<times> cfDict)" where
  "updateView s =
     ((replies s, UseAfterFree \<in> set (sent s), gActivityUpdateToken s, awaitedLogs s),
      (updateTimer s, gRemoteRequest s, gActivityUpdateActivesOnly s, gAsyncActiveAssertions s))"

definition heldView :: "asyncChecks \<Rightarrow> pid list \<times> pid list \<times> pm" where
  "heldView s = (awaited s, awaitedLogs s, engine s)"

lemma sleepInv_cong: "sleepView s' = sleepView s \<Longrightarrow> sleepInv T s' = sleepInv T s"
  by (simp add: sleepInv_def sleepCore_def sleepView_def)

lemma sleepCore_cong: "sleepView s' = sleepView s \<Longrightarrow> sleepCore T s' = sleepCore T s"
  by (simp add: sleepCore_def sleepView_def)

lemma updateInv_cong: "updateView s' = updateView s \<Longrightarrow> updateInv n s' = updateInv n s"
  by (simp add: updateInv_def updateCore_def updateView_def)

lemma updateCore_cong: "updateView s' = updateView s \<Longrightarrow> updateCore n s' = updateCore n s"
  by (simp add: updateCore_def updateView_def)

lemma held_cong: "heldView s' = heldView s \<Longrightarrow> held s' = held s"
  by (simp add: held_def owed_def heldView_def)

lemma acks_say [simp]: "acks (say e s) = (case ackOf e of Some t \<Rightarrow> t # acks s | None \<Rightarrow> acks s)"
  by (simp add: acks_def say_def List.map_filter_def split: option.split)

lemma replies_say [simp]: "replies (say e s) = replies s + of_bool (isReply e)"
  by (simp add: replies_def say_def)

lemma sent_say [simp]: "sent (say e s) = e # sent s"
  by (simp add: say_def)

lemma say_fields [simp]:
  "gPendingResponses (say e s) = gPendingResponses s"
  "gPendingAckToken (say e s) = gPendingAckToken s"
  "gSleepBlockers (say e s) = gSleepBlockers s"
  "checkTimer (say e s) = checkTimer s"
  "gPendingLoggingResponses (say e s) = gPendingLoggingResponses s"
  "gActivityUpdateToken (say e s) = gActivityUpdateToken s"
  "gAsyncActiveAssertions (say e s) = gAsyncActiveAssertions s"
  "gActivityUpdateActivesOnly (say e s) = gActivityUpdateActivesOnly s"
  "gActivityUpdateClientOverflow (say e s) = gActivityUpdateClientOverflow s"
  "updateTimer (say e s) = updateTimer s"
  "gRemoteRequest (say e s) = gRemoteRequest s"
  "activity (say e s) = activity s"
  "engine (say e s) = engine s"
  by (simp_all add: say_def)

lemma acks_update [simp]:
  "acks (s\<lparr>gPendingResponses := a\<rparr>) = acks s"
  "acks (s\<lparr>gPendingAckToken := b\<rparr>) = acks s"
  "acks (s\<lparr>gSleepBlockers := c\<rparr>) = acks s"
  "acks (s\<lparr>checkTimer := d\<rparr>) = acks s"
  "acks (s\<lparr>gPendingLoggingResponses := a\<rparr>) = acks s"
  "acks (s\<lparr>gActivityUpdateToken := f\<rparr>) = acks s"
  "acks (s\<lparr>lastToken := f\<rparr>) = acks s"
  "acks (s\<lparr>gAsyncActiveAssertions := g\<rparr>) = acks s"
  "acks (s\<lparr>gActivityUpdateActivesOnly := d\<rparr>) = acks s"
  "acks (s\<lparr>gActivityUpdateClientOverflow := d\<rparr>) = acks s"
  "acks (s\<lparr>updateTimer := d\<rparr>) = acks s"
  "acks (s\<lparr>gRemoteRequest := h\<rparr>) = acks s"
  "acks (s\<lparr>activity := i\<rparr>) = acks s"
  "acks (s\<lparr>engine := j\<rparr>) = acks s"
  by (simp_all add: acks_def)

lemma replies_update [simp]:
  "replies (s\<lparr>gPendingResponses := a\<rparr>) = replies s"
  "replies (s\<lparr>gPendingAckToken := b\<rparr>) = replies s"
  "replies (s\<lparr>gSleepBlockers := c\<rparr>) = replies s"
  "replies (s\<lparr>checkTimer := d\<rparr>) = replies s"
  "replies (s\<lparr>gPendingLoggingResponses := a\<rparr>) = replies s"
  "replies (s\<lparr>gActivityUpdateToken := f\<rparr>) = replies s"
  "replies (s\<lparr>lastToken := f\<rparr>) = replies s"
  "replies (s\<lparr>gAsyncActiveAssertions := g\<rparr>) = replies s"
  "replies (s\<lparr>gActivityUpdateActivesOnly := d\<rparr>) = replies s"
  "replies (s\<lparr>gActivityUpdateClientOverflow := d\<rparr>) = replies s"
  "replies (s\<lparr>updateTimer := d\<rparr>) = replies s"
  "replies (s\<lparr>gRemoteRequest := h\<rparr>) = replies s"
  "replies (s\<lparr>activity := i\<rparr>) = replies s"
  "replies (s\<lparr>engine := j\<rparr>) = replies s"
  by (simp_all add: replies_def)

lemma event_simps [simp]:
  "ackOf (SleepNotificationResponse t b) = Some t"
  "ackOf (AssertionCheckMsg p t) = None"
  "ackOf (AssertionUpdateMsg p b u) = None"
  "ackOf (ActivityUpdateReply l r ov ps) = None"
  "ackOf (ActiveAssertionsReply m) = None"
  "ackOf UseAfterFree = None"
  "\<not> isReply (SleepNotificationResponse t b)"
  "\<not> isReply (AssertionCheckMsg p t)"
  "\<not> isReply (AssertionUpdateMsg p b u)"
  "isReply (ActivityUpdateReply l r ov ps)"
  "isReply (ActiveAssertionsReply m)"
  "\<not> isReply UseAfterFree"
  by (simp_all add: ackOf_def isReply_def)

section \<open>Asking the processes\<close>

lemma held_retain:
  assumes "held s" and "gProcessDict (engine s) p \<noteq> None"
    and "engine s' = processInfoRetain p (engine s)"
    and "\<And>q. owed s' q \<le> owed s q + of_bool (q = p)"
  shows "held s'"
proof -
  have "owed s' q \<le> retains (engine s') q" for q
  proof -
    have "owed s' q \<le> 2" by (rule owed_le)
    moreover have "owed s q \<le> retains (engine s) q" using assms(1) by (simp add: held_def)
    ultimately show ?thesis
      using assms(2) assms(4) [of q] by (cases "q = p") (auto simp: assms(3) retains_retain)
  qed
  then show ?thesis by (simp add: held_def)
qed

lemma held_release:
  assumes "held s" and "engine s' = processInfoRelease p (engine s)"
    and "0 < owed s p" and "\<And>q. owed s' q + of_bool (q = p) \<le> owed s q"
  shows "held s'"
proof -
  have pos: "0 < retains (engine s) p" using assms(1,3) by (metis held_def less_le_trans)
  have "owed s' q \<le> retains (engine s') q" for q
  proof -
    have "owed s q \<le> retains (engine s) q" using assms(1) by (simp add: held_def)
    then show ?thesis using assms(4) [of q] by (auto simp: assms(2) retains_release [OF pos] split: if_splits)
  qed
  then show ?thesis by (simp add: held_def)
qed

lemma asked_blockers:
  "sleepCore T (askForBlockers p s) = (sleepCore T s)" if "gPendingResponses s \<noteq> None"
  using that
  by (auto simp: sleepCore_def askForBlockers_def sendCheckAssertionsMsg_def onEngine_def distinct_insert
      split: option.split)

lemma askForBlockers_same [simp]:
  "gPendingAckToken (askForBlockers p s) = gPendingAckToken s"
  "gPendingResponses s \<noteq> None \<Longrightarrow> gPendingResponses (askForBlockers p s) \<noteq> None"
  "updateView (askForBlockers p s) = updateView s"
  by (auto simp: askForBlockers_def sendCheckAssertionsMsg_def onEngine_def updateView_def split: option.split)

lemma held_askForBlockers: "held s \<Longrightarrow> held (askForBlockers p s)"
proof (cases "\<exists>P. gProcessDict (engine s) p = Some P \<and> asked P")
  case True
  assume "held s"
  then show ?thesis
    by (rule held_retain [of s p])
      (use True in \<open>auto simp: askForBlockers_def sendCheckAssertionsMsg_def onEngine_def owed_def
         split: option.split\<close>)
next
  case False
  assume "held s"
  then show ?thesis using False by (auto simp: askForBlockers_def split: option.split)
qed

lemma askForActivity_same [simp]:
  "gPendingLoggingResponses s \<noteq> None \<Longrightarrow> gPendingLoggingResponses (askForActivity p s) \<noteq> None"
  "gActivityUpdateToken (askForActivity p s) = gActivityUpdateToken s"
  "gActivityUpdateActivesOnly (askForActivity p s) = gActivityUpdateActivesOnly s"
  "sleepView (askForActivity p s) = sleepView s"
  by (auto simp: askForActivity_def sendAssertionActivityUpdateMsg_def onEngine_def sleepView_def split: option.split)

lemma asked_activity:
  "updateCore n (askForActivity p s) = updateCore n s" if "gPendingLoggingResponses s \<noteq> None"
  using that
  by (auto simp: updateCore_def askForActivity_def sendAssertionActivityUpdateMsg_def onEngine_def distinct_insert
      split: option.split)

lemma held_askForActivity: "held s \<Longrightarrow> held (askForActivity p s)"
proof (cases "\<exists>P. gProcessDict (engine s) p = Some P \<and> asked P")
  case True
  assume "held s"
  then show ?thesis
    by (rule held_retain [of s p])
      (use True in \<open>auto simp: askForActivity_def sendAssertionActivityUpdateMsg_def onEngine_def owed_def
         split: option.split\<close>)
next
  case False
  assume "held s"
  then show ?thesis using False by (auto simp: askForActivity_def split: option.split)
qed

section \<open>Before sleep\<close>

lemma answerSleep_same [simp]:
  "updateView (answerSleep s) = updateView s"
  "heldView (answerSleep s) = heldView s"
  by (simp_all add: answerSleep_def updateView_def heldView_def)

lemma answerSleep_inv:
  "sleepCore T s \<Longrightarrow> gPendingAckToken s \<noteq> 0 \<Longrightarrow> awaited s = [] \<Longrightarrow> sleepInv T (answerSleep s)"
  by (simp add: sleepInv_def sleepCore_def answerSleep_def)

lemma checkResp_sleep:
  assumes "sleepInv T s" shows "sleepInv T (processAssertionCheckResp token blockers p s)"
proof -
  let ?s1 = "\<lambda>q. onEngine (processInfoRelease q) (s\<lparr>gSleepBlockers := gSleepBlockers s + ucast blockers,
      gPendingResponses := map_option (remove1 q) (gPendingResponses s)\<rparr>)"
  have core: "sleepCore T (?s1 q)" for q
    using assms by (auto simp: sleepInv_def sleepCore_def onEngine_def split: if_splits)
  have tok: "gPendingAckToken s \<noteq> 0" if "q \<in> set (awaited s)" for q
    using assms that by (auto simp: sleepInv_def)
  have wait: "sleepInv T (?s1 q)" if "q \<in> set (awaited s)" "awaited (?s1 q) \<noteq> []" for q
    using core [of q] tok [OF that(1)] assms that by (auto simp: sleepInv_def onEngine_def)
  have fin: "sleepInv T (answerSleep (?s1 q))" if "q \<in> set (awaited s)" "awaited (?s1 q) = []" for q
    using core tok [OF that(1)] that(2) by (intro answerSleep_inv) (simp_all add: onEngine_def)
  show ?thesis
    using assms wait fin
    by (auto simp: processAssertionCheckResp_def Let_def split: option.split)
qed

lemma checkResp_update: "updateView (processAssertionCheckResp token blockers p s) = updateView s"
  by (auto simp: processAssertionCheckResp_def Let_def onEngine_def split: option.split) (simp_all add: updateView_def)

lemma checkResp_held:
  assumes "held s" and "distinct (awaited s)" shows "held (processAssertionCheckResp token blockers p s)"
proof -
  let ?s1 = "\<lambda>q. onEngine (processInfoRelease q) (s\<lparr>gSleepBlockers := gSleepBlockers s + ucast blockers,
      gPendingResponses := map_option (remove1 q) (gPendingResponses s)\<rparr>)"
  have "held (?s1 q)" if "q \<in> set (awaited s)" for q
    by (rule held_release [OF assms(1), of _ q]) (use that assms(2) in \<open>auto simp: onEngine_def owed_def\<close>)
  then show ?thesis
    using assms(1)
    by (auto simp: processAssertionCheckResp_def Let_def held_cong [OF answerSleep_same(2)] split: option.split)
qed

text \<open>The loop of a check and what follows it.\<close>

lemma check_loop:
  assumes "gPendingResponses s \<noteq> None"
  shows "gPendingResponses (fold askForBlockers ps s) \<noteq> None \<and>
    gPendingAckToken (fold askForBlockers ps s) = gPendingAckToken s \<and>
    updateView (fold askForBlockers ps s) = updateView s \<and>
    (sleepCore T (fold askForBlockers ps s) \<longleftrightarrow> sleepCore T s)"
  using assms by (induction ps arbitrary: s) (simp_all add: asked_blockers del: not_None_eq)

lemma check_held: "held s \<Longrightarrow> held (fold askForBlockers ps s)"
  by (rule fold_invariant) (simp_all add: held_askForBlockers)

lemma check_sleep:
  assumes "sleepInv T s" and "tok \<noteq> 0"
  shows "sleepInv (tok # T) (checkForAsyncAssertions order tok s)"
proof -
  define s1 where "s1 = (if gPendingResponses s = None then s\<lparr>gPendingResponses := Some []\<rparr> else s)"
  have 1: "sleepInv T s1" "gPendingResponses s1 \<noteq> None"
    using assms(1) by (auto simp: s1_def sleepInv_def sleepCore_def)
  show ?thesis
  proof (cases "gPendingAckToken s1 \<noteq> 0 \<or> awaited s1 \<noteq> []")
    case True
    with 1 have "sleepInv (tok # T) (say (SleepNotificationResponse tok True) s1)"
      by (auto simp: sleepInv_def sleepCore_def)
    then show ?thesis using True by (simp add: checkForAsyncAssertions_def s1_def [symmetric])
  next
    case False
    define s2 where "s2 = fold askForBlockers order (s1\<lparr>gPendingAckToken := tok, gSleepBlockers := 0\<rparr>)"
    have "sleepCore (tok # T) (s1\<lparr>gPendingAckToken := tok, gSleepBlockers := 0\<rparr>)"
      using 1(1) False assms(2) by (auto simp: sleepInv_def sleepCore_def)
    then have 2: "sleepCore (tok # T) s2" "gPendingAckToken s2 = tok"
      using check_loop [of "s1\<lparr>gPendingAckToken := tok, gSleepBlockers := 0\<rparr>" order "tok # T"] 1(2)
      by (simp_all add: s2_def)
    have "sleepInv (tok # T) ((if awaited s2 = []
        then (say (SleepNotificationResponse tok True) s2)\<lparr>gPendingAckToken := 0, gSleepBlockers := 0\<rparr>
        else s2)\<lparr>checkTimer := True\<rparr>)"
      using 2 assms(2) by (auto simp: sleepInv_def sleepCore_def)
    then show ?thesis using False
      by (simp only: checkForAsyncAssertions_def Let_def s1_def [symmetric] s2_def [symmetric] if_False)
  qed
qed

lemma check_other:
  "updateView (checkForAsyncAssertions order tok s) = updateView s"
  "held s \<Longrightarrow> held (checkForAsyncAssertions order tok s)"
proof -
  define s1 where "s1 = (if gPendingResponses s = None then s\<lparr>gPendingResponses := Some []\<rparr> else s)"
  have 1: "updateView s1 = updateView s" "gPendingResponses s1 \<noteq> None" "heldView s1 = heldView s"
    by (auto simp: s1_def updateView_def heldView_def)
  define s2 where "s2 = fold askForBlockers order (s1\<lparr>gPendingAckToken := tok, gSleepBlockers := 0\<rparr>)"
  have 2: "updateView s2 = updateView s"
    using check_loop [of "s1\<lparr>gPendingAckToken := tok, gSleepBlockers := 0\<rparr>" order "[]"] 1(1,2)
    by (simp add: s2_def updateView_def)
  have 3: "held s \<Longrightarrow> held s2"
    unfolding s2_def by (rule check_held) (use held_cong [OF 1(3)] in \<open>simp add: held_def owed_def\<close>)
  have eq: "checkForAsyncAssertions order tok s =
      (if gPendingAckToken s1 \<noteq> 0 \<or> awaited s1 \<noteq> [] then say (SleepNotificationResponse tok True) s1
       else (if awaited s2 = [] then (say (SleepNotificationResponse tok True) s2)
               \<lparr>gPendingAckToken := 0, gSleepBlockers := 0\<rparr> else s2)\<lparr>checkTimer := True\<rparr>)"
    by (simp only: checkForAsyncAssertions_def Let_def s1_def [symmetric] s2_def [symmetric])
  show "updateView (checkForAsyncAssertions order tok s) = updateView s"
    using 1(1) 2 by (auto simp: eq updateView_def)
  have "heldView (checkForAsyncAssertions order tok s) \<in> {heldView s1, heldView s2}"
    by (simp add: eq heldView_def)
  then show "held (checkForAsyncAssertions order tok s)" if "held s"
    using held_cong [OF 1(3)] 3 [OF that] that by (auto dest: held_cong)
qed

section \<open>The timer of a check\<close>

lemma fold_timeout:
  "fold handleAssertionCheckTimeout ps s = s\<lparr>engine := fold processInfoRelease ps (engine s)\<rparr>"
  by (induction ps arbitrary: s) (simp_all add: handleAssertionCheckTimeout_def onEngine_def)

lemma timer_sleep: "sleepInv T s \<Longrightarrow> sleepInv T (checkTimerFired s)"
  by (auto simp: checkTimerFired_def Let_def fold_timeout sleepInv_def sleepCore_def answerSleep_def)

lemma timer_update: "updateView (checkTimerFired s) = updateView s"
  by (simp add: checkTimerFired_def Let_def fold_timeout) (simp add: updateView_def)

text \<open>At the timeout every process that was waited for is released once.\<close>

lemma held_timeout:
  assumes "held s" and "distinct ps" and "\<And>p. p \<in> set ps \<Longrightarrow> 0 < owed s p"
    and "engine s' = fold processInfoRelease ps (engine s)"
    and "\<And>q. owed s' q + of_bool (q \<in> set ps) \<le> owed s q"
  shows "held s'"
proof -
  have le: "owed s q \<le> retains (engine s) q" for q using assms(1) by (simp add: held_def)
  have "retains (engine s') q = retains (engine s) q - of_bool (q \<in> set ps)" for q
    unfolding assms(4) by (rule retains_fold_release [OF assms(2)]) (use assms(3) le less_le_trans in blast)
  then have "owed s' q \<le> retains (engine s') q" for q using assms(5) [of q] le [of q] by (cases "q \<in> set ps") simp_all
  then show ?thesis by (simp add: held_def)
qed

lemma timer_held:
  assumes "held s" and "distinct (awaited s)" shows "held (checkTimerFired s)"
proof (cases "awaited s = []")
  case True
  then show ?thesis using assms(1) by (simp add: checkTimerFired_def held_def owed_def)
next
  case False
  let ?s1 = "(fold handleAssertionCheckTimeout (awaited s) (s\<lparr>checkTimer := False\<rparr>))\<lparr>gPendingResponses := Some []\<rparr>"
  have "held ?s1"
    by (rule held_timeout [OF assms(1,2)]) (simp_all add: fold_timeout owed_def)
  then show ?thesis using False by (simp add: checkTimerFired_def Let_def held_cong [OF answerSleep_same(2)])
qed

section \<open>Activity\<close>

text \<open>The replies to power logging leave everything but the request and the log as it is.\<close>

lemma answerUpdate_same [simp]:
  "sleepView (answerUpdate b ps s) = sleepView s"
  "heldView (answerUpdate b ps s) = heldView s"
  "updateTimer (answerUpdate b ps s) = updateTimer s"
  by (auto simp: answerUpdate_def releaseActives_def sendActiveAssertions_def sendAssertionActivityUpdate_def
      sleepView_def heldView_def split: option.split cfDict.split prod.split)

lemma answerUpdate_counts:
  assumes "updateCore n s" and "gActivityUpdateToken s \<noteq> 0"
  shows "replies (answerUpdate (gActivityUpdateActivesOnly s) ps s) = n \<and>
    UseAfterFree \<notin> set (sent (answerUpdate (gActivityUpdateActivesOnly s) ps s))"
proof -
  obtain refCnt where r: "gRemoteRequest s = Some refCnt" using assms by (auto simp: updateCore_def)
  obtain u c ov where g: "getAssertionActivityUpdates (ucast refCnt) False ((activity s)\<lparr>unreadCnt := 0\<rparr>) = (u, c, ov)"
    by (metis surj_pair)
  show ?thesis
  proof (cases "gActivityUpdateActivesOnly s")
    case True
    then obtain m where "gAsyncActiveAssertions s = LiveDict m" using assms by (auto simp: updateCore_def)
    then show ?thesis using True r assms
      by (simp add: answerUpdate_def releaseActives_def sendActiveAssertions_def updateCore_def)
  next
    case False
    then show ?thesis using r g assms
      by (simp add: answerUpdate_def sendAssertionActivityUpdate_def updateCore_def Let_def)
  qed
qed

lemma update_ended:
  assumes "updateCore n s" and "gActivityUpdateToken s \<noteq> 0" and "awaitedLogs s' = []"
    and "replies s' = replies (answerUpdate (gActivityUpdateActivesOnly s) ps s)"
    and "sent s' = sent (answerUpdate (gActivityUpdateActivesOnly s) ps s)" and "gActivityUpdateToken s' = 0"
  shows "updateInv n s'"
  using answerUpdate_counts [OF assms(1,2), of ps] assms(3-6) by (simp add: updateInv_def updateCore_def)

text \<open>What a reply adds before the process is taken off.\<close>

definition replyNoted :: "bool \<Rightarrow> rat \<Rightarrow> updateReply \<Rightarrow> pid \<Rightarrow> bool \<Rightarrow> asyncChecks \<Rightarrow> asyncChecks" where
  "replyNoted debugNames now r p activesOnly s =
     (let s1 = (if activesOnly then noteActives p (rp_actives r) s
                else asyncAssertionLog debugNames now (Some p) (rp_log r) s);
          s2 = (if rp_overflow r then s1\<lparr>gActivityUpdateClientOverflow := True\<rparr> else s1)
      in onEngine (processInfoRelease p)
           (s2\<lparr>gPendingLoggingResponses := map_option (remove1 p) (gPendingLoggingResponses s2)\<rparr>))"

lemma processInfoGet_Some: "processInfoGet e p = Some q \<longleftrightarrow> q = p \<and> gProcessDict e p \<noteq> None"
  by (auto simp: processInfoGet_def split: option.splits)

lemma updateResp_cases:
  "processAssertionActivityUpdateResp debugNames now reply p activesOnly s = s \<or>
   (\<exists>r. reply = Some r \<and> (ucast (rp_token r) :: u32) = gActivityUpdateToken s \<and>
     (let s3 = replyNoted debugNames now r p activesOnly s in
      processAssertionActivityUpdateResp debugNames now reply p activesOnly s =
        (if awaitedLogs s3 = [] then (answerUpdate activesOnly None s3)\<lparr>gActivityUpdateToken := 0\<rparr> else s3)))"
proof (cases "\<exists>r q. reply = Some r \<and> (ucast (rp_token r) :: u32) = gActivityUpdateToken s \<and>
      processInfoGet (engine s) p = Some q")
  case True
  then obtain r where r: "reply = Some r" "(ucast (rp_token r) :: u32) = gActivityUpdateToken s"
    and q: "processInfoGet (engine s) p = Some p" by (auto simp: processInfoGet_Some)
  show ?thesis
    by (rule disjI2, rule exI [of _ r])
      (simp only: r q processAssertionActivityUpdateResp_def replyNoted_def Let_def option.case simp_thms if_False)
next
  case False
  then show ?thesis by (auto simp: processAssertionActivityUpdateResp_def split: option.split)
qed

lemma replyNoted_same:
  "sleepView (replyNoted debugNames now r p b s) = sleepView s"
  "gPendingResponses (replyNoted debugNames now r p b s) = gPendingResponses s"
  "gPendingLoggingResponses (replyNoted debugNames now r p b s) = map_option (remove1 p) (gPendingLoggingResponses s)"
  "engine (replyNoted debugNames now r p b s) = processInfoRelease p (engine s)"
  "gActivityUpdateToken (replyNoted debugNames now r p b s) = gActivityUpdateToken s"
  "gActivityUpdateActivesOnly (replyNoted debugNames now r p b s) = gActivityUpdateActivesOnly s"
  "gRemoteRequest (replyNoted debugNames now r p b s) = gRemoteRequest s"
  "updateTimer (replyNoted debugNames now r p b s) = updateTimer s"
  "replies (replyNoted debugNames now r p b s) = replies s"
  by (auto simp: replyNoted_def Let_def noteActives_def asyncAssertionLog_def onEngine_def sleepView_def
      split: option.split cfDict.split)

lemma replyNoted_core:
  assumes "updateCore n s" and "gActivityUpdateToken s \<noteq> 0" and "b = gActivityUpdateActivesOnly s"
  shows "updateCore n (replyNoted debugNames now r p b s)"
proof -
  have "UseAfterFree \<notin> set (sent (replyNoted debugNames now r p b s)) \<and>
      (b \<longrightarrow> (\<exists>m. gAsyncActiveAssertions (replyNoted debugNames now r p b s) = LiveDict m))"
    using assms by (auto simp: updateCore_def replyNoted_def Let_def noteActives_def asyncAssertionLog_def onEngine_def
        split: option.split)
  then show ?thesis using assms by (simp add: updateCore_def replyNoted_same)
qed

lemma updateResp_sleep:
  "sleepView (processAssertionActivityUpdateResp debugNames now reply p b s) = sleepView s"
  using updateResp_cases [of debugNames now reply p b s]
  by (auto simp: Let_def replyNoted_same split: if_splits)
    (simp add: sleepView_def [of "_\<lparr>gActivityUpdateToken := _\<rparr>"],
     simp add: sleepView_def [symmetric] replyNoted_same)

text \<open>A reply that bears the token of the request is from a process that is waited for.\<close>

definition properReply :: "updateReply option \<Rightarrow> pid \<Rightarrow> asyncChecks \<Rightarrow> bool" where
  "properReply reply p s \<longleftrightarrow>
     (case reply of
        None \<Rightarrow> True
      | Some r \<Rightarrow> (ucast (rp_token r) :: u32) \<noteq> gActivityUpdateToken s \<or> p \<in> set (awaitedLogs s))"

lemma updateResp_held:
  assumes "held s" and "properReply reply p s" and "distinct (awaitedLogs s)"
  shows "held (processAssertionActivityUpdateResp debugNames now reply p b s)"
  using updateResp_cases [of debugNames now reply p b s]
proof
  assume "\<exists>r. reply = Some r \<and> (ucast (rp_token r) :: u32) = gActivityUpdateToken s \<and>
     (let s3 = replyNoted debugNames now r p b s in
      processAssertionActivityUpdateResp debugNames now reply p b s =
        (if awaitedLogs s3 = [] then (answerUpdate b None s3)\<lparr>gActivityUpdateToken := 0\<rparr> else s3))"
  then obtain r where r: "reply = Some r" "(ucast (rp_token r) :: u32) = gActivityUpdateToken s"
    and eq: "processAssertionActivityUpdateResp debugNames now reply p b s =
      (if awaitedLogs (replyNoted debugNames now r p b s) = []
       then (answerUpdate b None (replyNoted debugNames now r p b s))\<lparr>gActivityUpdateToken := 0\<rparr>
       else replyNoted debugNames now r p b s)" by (auto simp: Let_def)
  have p: "p \<in> set (awaitedLogs s)" using assms(2) r by (simp add: properReply_def)
  have "held (replyNoted debugNames now r p b s)"
    by (rule held_release [OF assms(1), of _ p]) (use p assms(3) in \<open>auto simp: owed_def replyNoted_same\<close>)
  moreover have "heldView (processAssertionActivityUpdateResp debugNames now reply p b s) =
      heldView (replyNoted debugNames now r p b s)"
    using answerUpdate_same(2) [of b None "replyNoted debugNames now r p b s"] by (simp add: eq heldView_def)
  ultimately show ?thesis using held_cong by blast
qed (simp add: assms(1))

lemma updateResp_update:
  assumes "updateInv n s" and "properReply reply p s"
  shows "updateInv n (processAssertionActivityUpdateResp debugNames now reply p (gActivityUpdateActivesOnly s) s)"
  using updateResp_cases [of debugNames now reply p "gActivityUpdateActivesOnly s" s]
proof
  let ?b = "gActivityUpdateActivesOnly s"
  assume "\<exists>r. reply = Some r \<and> (ucast (rp_token r) :: u32) = gActivityUpdateToken s \<and>
     (let s3 = replyNoted debugNames now r p ?b s in
      processAssertionActivityUpdateResp debugNames now reply p ?b s =
        (if awaitedLogs s3 = [] then (answerUpdate ?b None s3)\<lparr>gActivityUpdateToken := 0\<rparr> else s3))"
  then obtain r where r: "reply = Some r" "(ucast (rp_token r) :: u32) = gActivityUpdateToken s"
    and eq: "processAssertionActivityUpdateResp debugNames now reply p ?b s =
      (if awaitedLogs (replyNoted debugNames now r p ?b s) = []
       then (answerUpdate ?b None (replyNoted debugNames now r p ?b s))\<lparr>gActivityUpdateToken := 0\<rparr>
       else replyNoted debugNames now r p ?b s)" by (auto simp: Let_def)
  let ?s3 = "replyNoted debugNames now r p ?b s"
  have p: "p \<in> set (awaitedLogs s)" using assms(2) r by (simp add: properReply_def)
  then have tok: "gActivityUpdateToken s \<noteq> 0" using assms(1) by (auto simp: updateInv_def)
  have core: "updateCore n ?s3" using replyNoted_core [OF _ tok refl] assms(1) by (simp add: updateInv_def)
  show ?thesis
  proof (cases "awaitedLogs ?s3 = []")
    case True
    have aw: "awaitedLogs (answerUpdate ?b None ?s3) = []"
      using answerUpdate_same(2) [of ?b None ?s3] True by (simp add: heldView_def)
    show ?thesis
      unfolding eq if_P [OF True]
      by (rule update_ended [OF core, of _ None]) (use tok aw in \<open>simp_all add: replyNoted_same\<close>)
  next
    case False
    then have "awaitedLogs s \<noteq> []" using p by auto
    then show ?thesis
      unfolding eq if_not_P [OF False] using core tok False assms(1) by (simp add: updateInv_def replyNoted_same)
  qed
qed (simp add: assms(1))

section \<open>The timer of an update\<close>

lemma updateTimer_sleep: "sleepView (updateTimerFired s) = sleepView s"
proof -
  let ?s1 = "fold handleAssertionCheckTimeout (awaitedLogs s) (s\<lparr>updateTimer := False\<rparr>)"
  have "sleepView ?s1 = sleepView s" by (simp add: fold_timeout sleepView_def)
  then show ?thesis
    using answerUpdate_same(1) [of "gActivityUpdateActivesOnly s"
        "Some (timedOutProcesses (s\<lparr>updateTimer := False\<rparr>))" ?s1]
    by (simp add: updateTimerFired_def Let_def sleepView_def)
qed

lemma updateTimer_held:
  assumes "held s" and "distinct (awaitedLogs s)" shows "held (updateTimerFired s)"
proof (cases "awaitedLogs s = []")
  case True
  then show ?thesis using assms(1) by (simp add: updateTimerFired_def held_def owed_def)
next
  case False
  let ?s1 = "fold handleAssertionCheckTimeout (awaitedLogs s) (s\<lparr>updateTimer := False\<rparr>)"
  let ?s2 = "answerUpdate (gActivityUpdateActivesOnly s) (Some (timedOutProcesses (s\<lparr>updateTimer := False\<rparr>))) ?s1"
  have v: "heldView ?s2 = heldView ?s1" by simp
  have "held (?s1\<lparr>gActivityUpdateToken := 0, gPendingLoggingResponses := Some []\<rparr>)"
    by (rule held_timeout [OF assms]) (simp_all add: fold_timeout owed_def)
  moreover have "heldView (updateTimerFired s) =
      heldView (?s1\<lparr>gActivityUpdateToken := 0, gPendingLoggingResponses := Some []\<rparr>)"
    using v False by (simp add: updateTimerFired_def Let_def heldView_def)
  ultimately show ?thesis using held_cong by blast
qed

lemma updateTimer_update:
  assumes "updateInv n s" shows "updateInv n (updateTimerFired s)"
proof (cases "awaitedLogs s = []")
  case True
  then show ?thesis using assms by (auto simp: updateTimerFired_def updateInv_def updateCore_def)
next
  case False
  let ?s1 = "fold handleAssertionCheckTimeout (awaitedLogs s) (s\<lparr>updateTimer := False\<rparr>)"
  have "updateCore n ?s1"
    using assms by (auto simp: fold_timeout updateInv_def updateCore_def split: if_splits)
  moreover have "gActivityUpdateToken ?s1 \<noteq> 0" using assms False by (simp add: fold_timeout updateInv_def)
  ultimately show ?thesis
    by (rule update_ended [of n ?s1 _ "Some (timedOutProcesses (s\<lparr>updateTimer := False\<rparr>))"])
      (use False in \<open>simp_all add: updateTimerFired_def Let_def fold_timeout replies_def\<close>)
qed

section \<open>A request of power logging\<close>

lemma update_loop:
  assumes "gPendingLoggingResponses s \<noteq> None"
  shows "gPendingLoggingResponses (fold askForActivity ps s) \<noteq> None \<and>
    gActivityUpdateToken (fold askForActivity ps s) = gActivityUpdateToken s \<and>
    sleepView (fold askForActivity ps s) = sleepView s \<and>
    (updateCore n (fold askForActivity ps s) \<longleftrightarrow> updateCore n s)"
  using assms by (induction ps arbitrary: s) (simp_all add: asked_activity del: not_None_eq)

lemma update_loop_held: "held s \<Longrightarrow> held (fold askForActivity ps s)"
  by (rule fold_invariant) (simp_all add: held_askForActivity)

lemma next_token: "t + 1 = 0 \<longleftrightarrow> t = UINT_MAX" for t :: u32
  by (metis UINT_MAX_def add.commute add.right_inverse add_left_imp_eq)

lemma UINT_MAX_nonzero [simp]: "UINT_MAX \<noteq> 0"
  by (simp add: UINT_MAX_def)

lemma token_nonzero: "fst (generateAssertionActivityUpdateToken s) \<noteq> 0"
  by (simp add: generateAssertionActivityUpdateToken_def Let_def next_token)

text \<open>The state in which the processes are asked.\<close>

definition updateBegun :: "bool \<Rightarrow> asyncChecks \<Rightarrow> asyncChecks" where
  "updateBegun activesOnly s =
     (let s1 = s\<lparr>gActivityUpdateClientOverflow := False, gActivityUpdateActivesOnly := activesOnly,
                gAsyncActiveAssertions := (if activesOnly then LiveDict Map.empty else gAsyncActiveAssertions s)\<rparr>
      in case generateAssertionActivityUpdateToken s1 of
           (token, s2) \<Rightarrow> s2\<lparr>gActivityUpdateToken := token,
                           gPendingLoggingResponses := Some (members (gPendingLoggingResponses s2))\<rparr>)"

lemma updateBegun_same:
  "sleepView (updateBegun b s) = sleepView s"
  "heldView (updateBegun b s) = heldView s"
  "gPendingLoggingResponses (updateBegun b s) \<noteq> None"
  by (simp_all add: updateBegun_def Let_def generateAssertionActivityUpdateToken_def sleepView_def heldView_def)

lemma updateBegun_core:
  assumes "updateCore n s" and "gActivityUpdateToken s = 0" and "gRemoteRequest s \<noteq> None"
  shows "updateCore (Suc n) (updateBegun b s) \<and> gActivityUpdateToken (updateBegun b s) \<noteq> 0"
  using assms
  by (auto simp: next_token updateBegun_def Let_def generateAssertionActivityUpdateToken_def updateCore_def split: if_splits)

lemma checkForUpdates_eq:
  "checkForAssertionActivityUpdates order b s =
     (let s4 = fold askForActivity order (updateBegun b s)
      in if awaitedLogs s4 = []
         then (if b then sendActiveAssertions NullDict s4
               else sendAssertionActivityUpdate None False s4)\<lparr>gActivityUpdateToken := 0\<rparr>
         else s4\<lparr>updateTimer := True\<rparr>)"
  by (simp add: checkForAssertionActivityUpdates_def updateBegun_def Let_def split: prod.split)

lemma immediate_reply_same:
  "sleepView (if b then sendActiveAssertions NullDict s else sendAssertionActivityUpdate None False s) = sleepView s"
  "heldView (if b then sendActiveAssertions NullDict s else sendAssertionActivityUpdate None False s) = heldView s"
  by (auto simp: sendActiveAssertions_def sendAssertionActivityUpdate_def Let_def sleepView_def heldView_def
      split: option.split prod.split)

lemma immediate_reply_counts:
  assumes "updateCore (Suc n) s" and "gActivityUpdateToken s \<noteq> 0"
  shows "updateCore (Suc n)
    ((if b then sendActiveAssertions NullDict s
      else sendAssertionActivityUpdate None False s)\<lparr>gActivityUpdateToken := 0\<rparr>)"
proof -
  obtain refCnt where r: "gRemoteRequest s = Some refCnt" using assms by (auto simp: updateCore_def)
  obtain u c ov where g: "getAssertionActivityUpdates (ucast refCnt) False ((activity s)\<lparr>unreadCnt := 0\<rparr>) = (u, c, ov)"
    by (metis surj_pair)
  show ?thesis
    using assms r g by (simp add: sendActiveAssertions_def sendAssertionActivityUpdate_def Let_def updateCore_def)
qed

lemma request_update:
  assumes "updateInv n s" and "gActivityUpdateToken s = 0"
  shows "updateInv (Suc n) (checkForAssertionActivityUpdates order b (s\<lparr>gRemoteRequest := Some refCnt\<rparr>))"
proof -
  let ?s = "s\<lparr>gRemoteRequest := Some refCnt\<rparr>"
  let ?s4 = "fold askForActivity order (updateBegun b ?s)"
  have "updateCore n ?s" using assms by (simp add: updateInv_def updateCore_def)
  from updateBegun_core [OF this, of b] assms(2)
    update_loop [OF updateBegun_same(3), of order b ?s "Suc n"]
  have 4: "updateCore (Suc n) ?s4" "gActivityUpdateToken ?s4 \<noteq> 0" by simp_all
  show ?thesis
  proof (cases "awaitedLogs ?s4 = []")
    case True
    have "awaitedLogs (if b then sendActiveAssertions NullDict ?s4 else sendAssertionActivityUpdate None False ?s4) = []"
      using immediate_reply_same(2) [of b ?s4] True by (simp add: heldView_def)
    then show ?thesis
      using immediate_reply_counts [OF 4, of b] True by (simp add: checkForUpdates_eq Let_def updateInv_def)
  next
    case False
    then show ?thesis using 4 by (simp add: checkForUpdates_eq Let_def updateInv_def updateCore_def)
  qed
qed

lemma request_other:
  "sleepView (checkForAssertionActivityUpdates order b s) = sleepView s"
  "held s \<Longrightarrow> held (checkForAssertionActivityUpdates order b s)"
proof -
  let ?s4 = "fold askForActivity order (updateBegun b s)"
  let ?r = "if b then sendActiveAssertions NullDict ?s4 else sendAssertionActivityUpdate None False ?s4"
  have v: "sleepView ?s4 = sleepView s" using update_loop [OF updateBegun_same(3)] updateBegun_same(1) by metis
  have "sleepView ?r = sleepView s" using immediate_reply_same(1) [of b ?s4] v by simp
  then show "sleepView (checkForAssertionActivityUpdates order b s) = sleepView s"
    using v by (simp add: checkForUpdates_eq Let_def sleepView_def)
  have "heldView (checkForAssertionActivityUpdates order b s) = heldView ?s4"
    using immediate_reply_same(2) [of b ?s4] by (simp add: checkForUpdates_eq Let_def heldView_def)
  moreover have "held ?s4" if "held s"
    using update_loop_held held_cong [OF updateBegun_same(2)] that by blast
  ultimately show "held (checkForAssertionActivityUpdates order b s)" if "held s" using that held_cong by blast
qed

section \<open>Activity that a process sends by itself\<close>

lemma asyncLogging_same:
  "sleepView (asyncAssertionLogging debugNames now p l s) = sleepView s"
  "updateView (asyncAssertionLogging debugNames now p l s) = updateView s"
  by (auto simp: asyncAssertionLogging_def Let_def asyncAssertionLog_def onEngine_def sleepView_def updateView_def
      split: option.split prod.split)

lemma asyncLogging_engine:
  "engine (asyncAssertionLogging debugNames now p l s) =
     (case processInfoGet (engine s) p of
        Some q \<Rightarrow> processInfoRelease p (processInfoRetain q (engine s))
      | None \<Rightarrow>
          if fst (processInfoCreate p (engine s)) = None then snd (processInfoCreate p (engine s))
          else processInfoRelease p (snd (processInfoCreate p (engine s))))"
  by (auto simp: asyncAssertionLogging_def asyncAssertionLog_def onEngine_def Let_def split: option.split prod.split)

lemma asyncLogging_retains:
  assumes "\<And>q. retains (engine s) q < 2 ^ 32 - 1" and "\<And>q P. gProcessDict (engine s) q = Some P \<Longrightarrow> retain_cnt P \<noteq> 0"
  shows "retains (engine (asyncAssertionLogging debugNames now p l s)) q = retains (engine s) q"
proof (cases "processInfoGet (engine s) p")
  case None
  then have "retains (engine s) p = 0" by (simp add: processInfoGet_def retains_def split: option.splits)
  then show ?thesis
    using retains_create [OF None] by (auto simp: asyncLogging_engine None retains_release)
next
  case (Some q')
  then have p: "q' = p" "gProcessDict (engine s) p \<noteq> None" by (simp_all add: processInfoGet_Some)
  have pos: "0 < retains (processInfoRetain p (engine s)) p"
    using p(2) assms(1) [of p] by (simp add: retains_retain)
  show ?thesis
    using p assms(1) [of p] by (auto simp: asyncLogging_engine Some retains_release [OF pos] retains_retain)
qed

end
