(* ===== verification/AsyncChecksProperties.thy ===== *)
theory AsyncChecksProperties
  imports AsyncChecksLemmas AssertionExample
begin

text \<open>
  The questions to the processes as a step relation with the clients, the timers and the rest of the
  daemon in any order, and their properties: every token of a sleep notification is answered once, every
  accepted request of power logging is answered once, and the records of awaited processes are in the table.
\<close>

section \<open>Reachable states\<close>

text \<open>
  \<open>asyncReach T n s\<close>: in \<open>s\<close> the tokens \<open>T\<close> have been handed over by the sleep code, which never
  hands over 0, and \<open>n\<close> requests of power logging have been accepted.  The rest of the daemon changes the
  engine and the log, but no record that is retained for a question is given back by it.  A process
  answers a request for its activity with the token of the request only if it is awaited.
\<close>

inductive asyncReach :: "u64 list \<Rightarrow> nat \<Rightarrow> asyncChecks \<Rightarrow> bool" where
  Reach_start: "asyncReach [] 0 (asyncStart e)"
| Reach_check: "asyncReach T n s \<Longrightarrow> tok \<noteq> 0 \<Longrightarrow> asyncReach (tok # T) n (checkForAsyncAssertions order tok s)"
| Reach_resp: "asyncReach T n s \<Longrightarrow> asyncReach T n (processAssertionCheckResp token blockers p s)"
| Reach_timer: "asyncReach T n s \<Longrightarrow> checkTimer s \<Longrightarrow> asyncReach T n (checkTimerFired s)"
| Reach_update: "asyncReach T n s \<Longrightarrow> copyRequestRc validArgs entitled s = kIOReturnSuccess
    \<Longrightarrow> asyncReach T (Suc n) (copyAssertionActivityUpdate validArgs entitled refCnt order s)"
| Reach_actives: "asyncReach T n s \<Longrightarrow> copyRequestRc validArgs entitled s = kIOReturnSuccess
    \<Longrightarrow> asyncReach T (Suc n) (copyActiveAssertions validArgs entitled refCnt order s)"
| Reach_refused: "asyncReach T n s \<Longrightarrow> copyRequestRc validArgs entitled s \<noteq> kIOReturnSuccess
    \<Longrightarrow> asyncReach T n (copyAssertionActivityUpdate validArgs entitled refCnt order s)"
| Reach_reply: "asyncReach T n s \<Longrightarrow> properReply reply p s
    \<Longrightarrow> asyncReach T n (processAssertionActivityUpdateResp debugNames now reply p (gActivityUpdateActivesOnly s) s)"
| Reach_update_timer: "asyncReach T n s \<Longrightarrow> updateTimer s \<Longrightarrow> asyncReach T n (updateTimerFired s)"
| Reach_other: "asyncReach T n s \<Longrightarrow> held (s\<lparr>engine := e\<rparr>) \<Longrightarrow> asyncReach T n (s\<lparr>engine := e, activity := l\<rparr>)"

lemma refused_same:
  "copyRequestRc v en s \<noteq> kIOReturnSuccess \<Longrightarrow> copyAssertionActivityUpdate v en r order s = s"
  "copyRequestRc v en s \<noteq> kIOReturnSuccess \<Longrightarrow> copyActiveAssertions v en r order s = s"
  by (simp_all add: copyAssertionActivityUpdate_def copyActiveAssertions_def)

lemma accepted_free: "copyRequestRc v en s = kIOReturnSuccess \<Longrightarrow> gActivityUpdateToken s = 0"
  by (simp add: copyRequestRc_def assertionActivityUpdateInProgress_def split: if_splits)

lemma accepted_eq:
  assumes "copyRequestRc v en s = kIOReturnSuccess"
  shows "copyAssertionActivityUpdate v en r order s =
      checkForAssertionActivityUpdates order False (s\<lparr>gRemoteRequest := Some r\<rparr>)"
    and "copyActiveAssertions v en r order s =
      checkForAssertionActivityUpdates order True (s\<lparr>gRemoteRequest := Some r\<rparr>)"
  using assms by (simp_all add: copyAssertionActivityUpdate_def copyActiveAssertions_def)

text \<open>The three invariants of a reachable state.\<close>

definition asyncInv :: "u64 list \<Rightarrow> nat \<Rightarrow> asyncChecks \<Rightarrow> bool" where
  "asyncInv T n s \<longleftrightarrow> sleepInv T s \<and> updateInv n s \<and> held s"

lemma asyncInv_distinct: "asyncInv T n s \<Longrightarrow> distinct (awaited s) \<and> distinct (awaitedLogs s)"
  by (simp add: asyncInv_def sleepInv_def sleepCore_def updateInv_def updateCore_def)

lemma asyncInv_request:
  assumes "asyncInv T n s" and "gActivityUpdateToken s = 0"
  shows "asyncInv T (Suc n) (checkForAssertionActivityUpdates order b (s\<lparr>gRemoteRequest := Some r\<rparr>))"
proof -
  let ?s = "s\<lparr>gRemoteRequest := Some r\<rparr>"
  have "sleepView ?s = sleepView s" "heldView ?s = heldView s" by (simp_all add: sleepView_def heldView_def)
  from sleepInv_cong [OF this(1), of T] held_cong [OF this(2)] assms(1)
  have "sleepInv T ?s" "held ?s" by (simp_all add: asyncInv_def)
  then show ?thesis
    using assms request_update [of n s order b r] request_other(2) [of ?s order b]
      sleepInv_cong [OF request_other(1) [of order b ?s], of T]
    by (simp add: asyncInv_def)
qed

lemma asyncReach_inv: "asyncReach T n s \<Longrightarrow> asyncInv T n s"
proof (induction rule: asyncReach.induct)
  case (Reach_start e)
  show ?case by (simp add: asyncInv_def sleepInv_def sleepCore_def updateInv_def updateCore_def held_def owed_def
      asyncStart_def acks_def replies_def List.map_filter_def)
next
  case (Reach_check T n s tok order)
  then show ?case
    using check_sleep check_other(2) updateInv_cong [OF check_other(1)] by (simp add: asyncInv_def)
next
  case (Reach_resp T n s token blockers p)
  then show ?case
    using checkResp_sleep checkResp_held updateInv_cong [OF checkResp_update] asyncInv_distinct [OF Reach_resp.IH]
    by (simp add: asyncInv_def)
next
  case (Reach_timer T n s)
  then show ?case
    using timer_sleep timer_held updateInv_cong [OF timer_update] asyncInv_distinct [OF Reach_timer.IH]
    by (simp add: asyncInv_def)
next
  case (Reach_update T n s v en r order)
  then show ?case using asyncInv_request accepted_free by (simp add: accepted_eq)
next
  case (Reach_actives T n s v en r order)
  then show ?case using asyncInv_request accepted_free by (simp add: accepted_eq)
next
  case (Reach_refused T n s v en r order)
  then show ?case by (simp add: refused_same)
next
  case (Reach_reply T n s reply p debugNames now)
  then show ?case
    using updateResp_update updateResp_held sleepInv_cong [OF updateResp_sleep] asyncInv_distinct [OF Reach_reply.IH]
    by (simp add: asyncInv_def)
next
  case (Reach_update_timer T n s)
  then show ?case
    using updateTimer_update updateTimer_held sleepInv_cong [OF updateTimer_sleep]
      asyncInv_distinct [OF Reach_update_timer.IH]
    by (simp add: asyncInv_def)
next
  case (Reach_other T n s e l)
  have v: "sleepView (s\<lparr>engine := e, activity := l\<rparr>) = sleepView s"
    "updateView (s\<lparr>engine := e, activity := l\<rparr>) = updateView s"
    "heldView (s\<lparr>engine := e, activity := l\<rparr>) = heldView (s\<lparr>engine := e\<rparr>)"
    by (simp_all add: sleepView_def updateView_def heldView_def)
  show ?case
    using Reach_other sleepInv_cong [OF v(1)] updateInv_cong [OF v(2)] held_cong [OF v(3)] by (simp add: asyncInv_def)
qed

section \<open>Properties\<close>

text \<open>C38: Every token of a sleep notification is answered exactly once, whatever processes answer and
  whenever: the tokens that have been answered and the one that is pending are those handed over, and
  while one is pending the timer that answers it is armed.\<close>

theorem sleep_acknowledged_once:
  assumes "asyncReach T n s"
  shows "mset (acks s) + (if gPendingAckToken s = 0 then {#} else {#gPendingAckToken s#}) = mset T \<and>
    (gPendingAckToken s = 0 \<or> checkTimer s) \<and> mset (acks (checkTimerFired s)) = mset T"
proof -
  have s: "sleepInv T s" using asyncReach_inv [OF assms] by (simp add: asyncInv_def)
  have "sleepInv T (checkTimerFired s)" using timer_sleep [OF s] .
  moreover have "awaited (checkTimerFired s) = []"
    by (simp add: checkTimerFired_def Let_def answerSleep_def)
  ultimately have "mset (acks (checkTimerFired s)) = mset T" by (simp add: sleepInv_def sleepCore_def split: if_splits)
  with s show ?thesis by (auto simp: sleepInv_def sleepCore_def)
qed

text \<open>A machine on which the process 100 has a connection.\<close>

definition client :: ProcessInfo where
  "client = calloc_ProcessInfo\<lparr>retain_cnt := 1, procpid := 100, remoteConnection := True\<rparr>"

definition talking :: pm where
  "talking = boot\<lparr>gProcessDict := [100 \<mapsto> client]\<rparr>"

lemma talking_simps [simp]:
  "gProcessDict talking = [100 \<mapsto> client]"
  "retain_cnt client = 1" "asked client" "remoteConnection client"
  by (simp_all add: talking_def client_def calloc_ProcessInfo_def asked_def)

lemma sleep_acknowledged_once_witness:
  "let s = checkForAsyncAssertions [100] 5 (asyncStart talking) in
   gPendingAckToken s = 5 \<and> awaited s = [100] \<and> mset (acks (checkTimerFired s)) = {#5#}"
proof -
  have "asyncReach [5] 0 (checkForAsyncAssertions [100] 5 (asyncStart talking))"
    by (rule Reach_check [OF Reach_start]) simp
  from sleep_acknowledged_once [OF this]
  show ?thesis
    by (simp add: Let_def checkForAsyncAssertions_def askForBlockers_def sendCheckAssertionsMsg_def onEngine_def
        asyncStart_def)
qed

text \<open>C39: As long as replies that carry the token of the open request (0 when none is open) come from
  processes that are awaited, and the rest of the daemon keeps the records that are retained for a
  question, every accepted request of power logging is answered exactly once, by the last process or by the
  timer, which is armed while one is open, and no reply uses a dictionary that has been released.  The code
  does not check who sends a reply: with a reply without a token after the end of a request both fail,
  as \<open>stray_reply_releases\<close> and \<open>stray_reply_uses_freed\<close> below show.\<close>

theorem updates_answered_once:
  assumes "asyncReach T n s"
  shows "replies s + of_bool (gActivityUpdateToken s \<noteq> 0) = n \<and> (gActivityUpdateToken s = 0 \<or> updateTimer s) \<and>
    UseAfterFree \<notin> set (sent s) \<and> replies (updateTimerFired s) = n"
proof -
  have s: "updateInv n s" using asyncReach_inv [OF assms] by (simp add: asyncInv_def)
  have "updateInv n (updateTimerFired s)" using updateTimer_update [OF s] .
  moreover have "awaitedLogs (updateTimerFired s) = []" by (simp add: updateTimerFired_def Let_def)
  ultimately have "replies (updateTimerFired s) = n" by (auto simp: updateInv_def updateCore_def)
  with s show ?thesis by (auto simp: updateInv_def updateCore_def)
qed

lemma updates_answered_once_witness:
  "let s = copyActiveAssertions True True 0 [100] (asyncStart talking) in
   gActivityUpdateToken s = 1 \<and> awaitedLogs s = [100] \<and> replies (updateTimerFired s) = 1"
proof -
  have "asyncReach [] (Suc 0) (copyActiveAssertions True True 0 [100] (asyncStart talking))"
    by (rule Reach_actives [OF Reach_start])
      (simp add: copyRequestRc_def assertionActivityUpdateInProgress_def asyncStart_def)
  from updates_answered_once [OF this]
  show ?thesis
    by (simp add: Let_def copyActiveAssertions_def copyRequestRc_def assertionActivityUpdateInProgress_def
        checkForUpdates_eq updateBegun_def generateAssertionActivityUpdateToken_def askForActivity_def
        sendAssertionActivityUpdateMsg_def onEngine_def asyncStart_def UINT_MAX_def)
qed

text \<open>The records of the processes that are waited for are in the table, retained once for each question.\<close>

lemma awaited_in_table:
  assumes "asyncReach T n s" and "p \<in> set (awaited s) \<union> set (awaitedLogs s)"
  shows "gProcessDict (engine s) p \<noteq> None"
proof -
  have "owed s p \<le> retains (engine s) p" using asyncReach_inv [OF assms(1)] by (simp add: asyncInv_def held_def)
  then show ?thesis using assms(2) by (auto simp: owed_def retains_def split: option.splits)
qed

section \<open>What the code gets wrong\<close>

text \<open>The number of blockers is cut to 32 bits: a process that reports \<open>2 ^ 32\<close> of them does not keep the
  system awake.\<close>

lemma blockers_cut:
  "SleepNotificationResponse 5 True \<in>
     set (sent (processAssertionCheckResp 5 (2 ^ 32) 100 (checkForAsyncAssertions [100] 5 (asyncStart talking))))"
  by (simp add: Let_def checkForAsyncAssertions_def askForBlockers_def sendCheckAssertionsMsg_def onEngine_def
        asyncStart_def processAssertionCheckResp_def processInfoGet_def processInfoRetain_def upd_proc_def answerSleep_def)

text \<open>
  A dictionary without a token is taken for a reply when no update is under way: the process gives
  back a reference that it does not hold, and after a request for the active assertions the released
  dictionary is used again.
\<close>

lemma stray_reply_releases:
  assumes "gActivityUpdateToken s = 0" and "rp_token r = 0" and "0 < retains (engine s) p"
    and "\<not> gActivityUpdateActivesOnly s"
  shows "retains (engine (processAssertionActivityUpdateResp debugNames now (Some r) p False s)) p =
    retains (engine s) p - 1"
proof -
  have get: "processInfoGet (engine s) p = Some p"
    using assms(3) by (auto simp: processInfoGet_def retains_def split: option.splits)
  have "engine (answerUpdate False None s') = engine s'" for s' :: asyncChecks
    using answerUpdate_same(2) [of False None s'] by (simp add: heldView_def)
  then show ?thesis
    using assms(1,2) get
    by (simp add: processAssertionActivityUpdateResp_def Let_def
        onEngine_def asyncAssertionLog_def retains_release [OF assms(3)] split: option.split)
qed

lemma stray_reply_uses_freed:
  assumes "gActivityUpdateToken s = 0" and "rp_token r = 0" and "gProcessDict (engine s) p \<noteq> None"
    and "awaitedLogs s = []" and "gAsyncActiveAssertions s = FreedDict"
  shows "UseAfterFree \<in> set (sent (processAssertionActivityUpdateResp debugNames now (Some r) p True s))"
  using assms
  by (auto simp: processAssertionActivityUpdateResp_def processInfoGet_def Let_def noteActives_def onEngine_def
      answerUpdate_def releaseActives_def sendActiveAssertions_def split: option.split)

end
