(* ===== verification/TTYKeepAwake.thy ===== *)
theory TTYKeepAwake
  imports Prelude
begin

text \<open>
  Remote terminal sessions keep the system awake (TTYKeepAwake.c): the terminals of the logins with a
  remote host are tracked, and while one of them has been used within the idle time an assertion is
  held and a timer waits for the time at which all of them will have been idle.
\<close>

section \<open>Constants, settings and environment\<close>

definition DEVMAXPATHSIZE :: nat where "DEVMAXPATHSIZE = 128"
definition kMinIdleCheckTime :: int where "kMinIdleCheckTime = 10"
definition kUseDefaultMinutesWhenSystemSleepIsNever :: int where "kUseDefaultMinutesWhenSystemSleepIsNever = 180"
definition SEC_PER_MIN :: int where "SEC_PER_MIN = 60"
definition NSEC_PER_SEC :: int where "NSEC_PER_SEC = 1000000000"
definition INT64_MAX :: int where "INT64_MAX = 2 ^ 63 - 1"

text \<open>The numbers that the settings hold under the three keys.\<close>

record ttySettings =
  displaySleepKey :: "int option"
  systemSleepKey :: "int option"
  ttysPreventSleepKey :: "int option"

text \<open>
  What the code reads from outside: the time, the last access to a device, the logins with their hosts
  and lines, the settings, and the identifier that the assertion engine gives (0 if it refuses).
  Times and minutes are integers; the values of \<open>time_t\<close> in use are far from its bounds.
\<close>

record ttyEnv =
  curtime :: "int option"
  st_atime :: "string \<Rightarrow> int option"
  logins :: "(string \<times> string) list"
  activePMSettings :: "ttySettings option"
  newAssertionID :: u32

datatype ttyEvent = TTYAssertionCreated u32 | TTYAssertionReleased u32 | TTYNullQueue

text \<open>
  \<open>s_timer_source\<close> is \<open>None\<close> before it is made and otherwise holds the delay in nanoseconds for which the
  timer was last set, if any.  The blocks on the serial queue run in the order in which they are put there.
\<close>

record ttyState =
  s_activettys :: "string list"
  s_activetty_names :: string
  settingIdleSleepSeconds :: int
  settingTTYSPreventSleep :: bool
  s_assertion :: u32
  s_utmpx_notify_token :: bool
  s_timer_source :: "int option option"
  s_tty_queue :: bool
  ttyEvents :: "ttyEvent list"

definition ttyStart :: ttyState where
  "ttyStart = \<lparr>s_activettys = [], s_activetty_names = '''', settingIdleSleepSeconds = 0,
     settingTTYSPreventSleep = True, s_assertion = 0, s_utmpx_notify_token = False, s_timer_source = None,
     s_tty_queue = False, ttyEvents = []\<rparr>"

definition ttyNote :: "ttyEvent \<Rightarrow> ttyState \<Rightarrow> ttyState" where
  "ttyNote e s = s\<lparr>ttyEvents := e # ttyEvents s\<rparr>"

text \<open>A block on \<open>s_tty_queue\<close>; a null queue ends the process.\<close>

definition onTTYQueue :: "(ttyState \<Rightarrow> ttyState) \<Rightarrow> ttyState \<Rightarrow> ttyState" where
  "onTTYQueue f s = (if s_tty_queue s then f s else ttyNote TTYNullQueue s)"

text \<open>\<open>strlcat\<close>: the length it tried to make and the string, cut to the size of the buffer.\<close>

definition strlcat :: "string \<Rightarrow> string \<Rightarrow> nat \<Rightarrow> nat \<times> string" where
  "strlcat dst src siz =
     (if length dst \<ge> siz then (siz + length src, dst) else (length dst + length src, take (siz - 1) (dst @ src)))"

section \<open>The assertion and the timer\<close>

definition create_assertion :: "ttyEnv \<Rightarrow> ttyState \<Rightarrow> ttyState" where
  "create_assertion e =
     onTTYQueue (\<lambda>s.
       if s_assertion s = 0
       then (if newAssertionID e = 0 then s
             else (ttyNote (TTYAssertionCreated (newAssertionID e)) s)\<lparr>s_assertion := newAssertionID e\<rparr>)
       else s)"

definition release_assertion :: "ttyState \<Rightarrow> ttyState" where
  "release_assertion s =
     (if \<not> s_tty_queue s then s
      else if s_assertion s \<noteq> 0 then (ttyNote (TTYAssertionReleased (s_assertion s)) s)\<lparr>s_assertion := 0\<rparr>
      else s)"

text \<open>The product is computed in 64 bits.\<close>

definition timerDelta :: "int \<Rightarrow> int" where
  "timerDelta time_to_idle =
     (let delta = sint (word_of_int (time_to_idle * NSEC_PER_SEC) :: 64 word)
      in if delta \<le> 0 then INT64_MAX else delta)"

definition rearm_timer :: "int \<Rightarrow> ttyState \<Rightarrow> ttyState" where
  "rearm_timer time_to_idle s =
     (if s_timer_source s = None then s
      else onTTYQueue (\<lambda>s. s\<lparr>s_timer_source := Some (Some (timerDelta time_to_idle))\<rparr>) s)"

definition pause_timer :: "ttyState \<Rightarrow> ttyState" where
  "pause_timer s =
     (if s_timer_source s \<noteq> None \<and> s_tty_queue s then s\<lparr>s_timer_source := Some None\<rparr> else s)"

section \<open>Activity of the terminals\<close>

text \<open>One second is added to the time since the last access.\<close>

definition current_idle_secs :: "int \<Rightarrow> int \<Rightarrow> int" where
  "current_idle_secs now atime = now - atime + 1"

text \<open>One round of the loop: the least idle time, whether one is active, whether a name has been printed, and
  the names.\<close>

definition ttyRound ::
    "ttyEnv \<Rightarrow> int \<Rightarrow> int \<Rightarrow> string \<Rightarrow> int \<times> bool \<times> bool \<times> string \<Rightarrow> int \<times> bool \<times> bool \<times> string" where
  "ttyRound e now setting tty acc =
     (case acc of (minimum_idle_secs, active, isPrintedFirst, names) \<Rightarrow>
        (case st_atime e tty of
           None \<Rightarrow> acc
         | Some a \<Rightarrow>
             let idle = current_idle_secs now a in
             if idle > setting then acc
             else
               let names1 = (if isPrintedFirst then names else snd (strlcat names '', '' (DEVMAXPATHSIZE * 4)))
               in (min idle minimum_idle_secs, True, False, snd (strlcat names1 tty (DEVMAXPATHSIZE * 4)))))"

text \<open>Whether a terminal is active, and the time until none is.\<close>

definition ttys_are_active :: "ttyEnv \<Rightarrow> ttyState \<Rightarrow> (bool \<times> int) \<times> ttyState" where
  "ttys_are_active e s =
     (if \<not> s_tty_queue s then ((False, 0), s)
      else case curtime e of
        None \<Rightarrow> ((False, 0), s\<lparr>s_activetty_names := ''''\<rparr>)
      | Some now \<Rightarrow>
          let setting = settingIdleSleepSeconds s in
          case fold (ttyRound e now setting) (s_activettys s) (setting, False, True, '''') of
            (minimum_idle_secs, active, _, names) \<Rightarrow>
              ((active, if active then setting - minimum_idle_secs else 0), s\<lparr>s_activetty_names := names\<rparr>))"

text \<open>The result is whether the system may sleep.\<close>

definition TTYKeepAwakeConsiderAssertion :: "ttyEnv \<Rightarrow> ttyState \<Rightarrow> bool \<times> ttyState" where
  "TTYKeepAwakeConsiderAssertion e s =
     (case ttys_are_active e s of
        ((active, time_to_idle), s1) \<Rightarrow>
          if active \<and> settingTTYSPreventSleep s1
          then (False, rearm_timer (max time_to_idle kMinIdleCheckTime) (create_assertion e s1))
          else (True, pause_timer (release_assertion s1)))"

section \<open>Logins and settings\<close>

definition freettys :: "ttyState \<Rightarrow> ttyState" where
  "freettys s = (if s_tty_queue s then s\<lparr>s_activettys := []\<rparr> else s)"

text \<open>The allocation succeeds.\<close>

definition addtty :: "string \<Rightarrow> ttyState \<Rightarrow> ttyState" where
  "addtty ttyname s =
     (case strlcat ''/dev/'' ttyname DEVMAXPATHSIZE of
        (len, ttydev) \<Rightarrow>
          if len > DEVMAXPATHSIZE then s
          else onTTYQueue (\<lambda>s. s\<lparr>s_activettys := ttydev # s_activettys s\<rparr>) s)"

definition read_logins :: "ttyEnv \<Rightarrow> ttyState \<Rightarrow> ttyState" where
  "read_logins e s =
     snd (TTYKeepAwakeConsiderAssertion e
       (fold (\<lambda>(host, line) s. if 0 < length host then addtty line s else s) (logins e) (freettys s)))"

text \<open>\<open>displayIdleMinutes\<close> is -1 where the settings do not have it.\<close>

definition idleMinutes :: "int \<Rightarrow> int \<Rightarrow> int" where
  "idleMinutes systemIdleMinutes displayIdleMinutes =
     (if systemIdleMinutes = 0 then kUseDefaultMinutesWhenSystemSleepIsNever
      else if displayIdleMinutes > 0 \<and> systemIdleMinutes < displayIdleMinutes then displayIdleMinutes + 1
      else systemIdleMinutes)"

definition TTYKeepAwakePrefsHaveChanged :: "ttyEnv \<Rightarrow> ttyState \<Rightarrow> ttyState" where
  "TTYKeepAwakePrefsHaveChanged e s =
     (case activePMSettings e of
        None \<Rightarrow> s
      | Some p \<Rightarrow>
          let display = (case displaySleepKey p of Some d \<Rightarrow> d | None \<Rightarrow> - 1) in
          case (systemSleepKey p, ttysPreventSleepKey p) of
            (Some m, Some prevent) \<Rightarrow>
              snd (TTYKeepAwakeConsiderAssertion e
                (onTTYQueue (\<lambda>s. s\<lparr>settingIdleSleepSeconds := idleMinutes m display * SEC_PER_MIN,
                                   settingTTYSPreventSleep := (prevent \<noteq> 0)\<rparr>) s))
          | _ \<Rightarrow> s)"

definition cleanup_tty_tracking :: "ttyState \<Rightarrow> ttyState" where
  "cleanup_tty_tracking s =
     (let s1 = freettys s in
      if s_tty_queue s1 then s1\<lparr>s_utmpx_notify_token := False, s_timer_source := None, s_tty_queue := False\<rparr>
      else s1)"

text \<open>The arguments say which of the queue, the default queue, the registration and the timer can be had.\<close>

definition TTYKeepAwake_prime :: "bool \<Rightarrow> bool \<Rightarrow> bool \<Rightarrow> bool \<Rightarrow> ttyEnv \<Rightarrow> ttyState \<Rightarrow> ttyState" where
  "TTYKeepAwake_prime queueOK defaultOK notifyOK timerOK e s =
     (let s1 = s\<lparr>s_tty_queue := queueOK\<rparr> in
      if \<not> queueOK \<or> \<not> defaultOK then cleanup_tty_tracking s1
      else if \<not> notifyOK then cleanup_tty_tracking s1
      else
        let s2 = s1\<lparr>s_utmpx_notify_token := True\<rparr> in
        if \<not> timerOK then cleanup_tty_tracking s2
        else read_logins e (TTYKeepAwakePrefsHaveChanged e (s2\<lparr>s_timer_source := Some None\<rparr>)))"

end
