(* ===== verification/TTYProperties.thy ===== *)
theory TTYProperties
  imports TTYKeepAwake
begin

text \<open>
  The tracking of remote terminals: when exactly the assertion is held, that it is given back in time, and
  that while it is held the timer waits.
\<close>

section \<open>The loop over the terminals\<close>

text \<open>The idle times of the terminals that are active.\<close>

definition idleTimes :: "ttyEnv \<Rightarrow> int \<Rightarrow> int \<Rightarrow> string list \<Rightarrow> int list" where
  "idleTimes e now setting ttys =
     filter (\<lambda>i. i \<le> setting) (map (current_idle_secs now) (List.map_filter (st_atime e) ttys))"

lemma idleTimes_simps [simp]:
  "idleTimes e now S [] = []"
  "idleTimes e now S (tty # ttys) =
     (case st_atime e tty of
        None \<Rightarrow> idleTimes e now S ttys
      | Some a \<Rightarrow> if current_idle_secs now a \<le> S then current_idle_secs now a # idleTimes e now S ttys
                  else idleTimes e now S ttys)"
  by (auto simp: idleTimes_def List.map_filter_def split: option.split)

lemma idleTimes_iff:
  "i \<in> set (idleTimes e now S ttys) \<longleftrightarrow>
     (\<exists>tty \<in> set ttys. \<exists>a. st_atime e tty = Some a \<and> i = now - a + 1 \<and> i \<le> S)"
  by (induction ttys) (auto simp: current_idle_secs_def split: option.split)

lemma round_fold:
  "\<exists>pf nm'. fold (ttyRound e now S) ttys (m, act, first, nm) =
     (fold min (idleTimes e now S ttys) m, act \<or> idleTimes e now S ttys \<noteq> [], pf, nm')"
proof (induction ttys arbitrary: m act first nm)
  case (Cons tty ttys)
  have "\<exists>f n. ttyRound e now S tty (m, act, first, nm) =
      (if idleTimes e now S [tty] = [] then (m, act, f, n) else (min (hd (idleTimes e now S [tty])) m, True, f, n))"
    by (auto simp: ttyRound_def Let_def split: option.split)
  then obtain f n where r: "ttyRound e now S tty (m, act, first, nm) =
      (if idleTimes e now S [tty] = [] then (m, act, f, n) else (min (hd (idleTimes e now S [tty])) m, True, f, n))"
    by blast
  show ?case
    using Cons.IH [of m act f n] Cons.IH [of "min (hd (idleTimes e now S [tty])) m" True f n]
    by (auto simp: r split: option.split)
qed auto

lemma fold_min_le: "fold min xs (m :: int) \<le> m \<and> (\<forall>x \<in> set xs. fold min xs m \<le> x)"
proof (induction xs arbitrary: m)
  case (Cons x xs)
  from Cons.IH [of "min x m"] show ?case by auto
qed simp

lemma fold_min_in: "fold min xs (m :: int) = m \<or> fold min xs m \<in> set xs"
proof (induction xs arbitrary: m)
  case (Cons x xs)
  from Cons.IH [of "min x m"] show ?case by (auto simp: min_def split: if_splits)
qed simp

text \<open>The time until no terminal is active any more, if one is.\<close>

definition timeToIdle :: "ttyEnv \<Rightarrow> int \<Rightarrow> ttyState \<Rightarrow> int" where
  "timeToIdle e now s =
     settingIdleSleepSeconds s
       - fold min (idleTimes e now (settingIdleSleepSeconds s) (s_activettys s)) (settingIdleSleepSeconds s)"

definition someActive :: "ttyEnv \<Rightarrow> int \<Rightarrow> ttyState \<Rightarrow> bool" where
  "someActive e now s \<longleftrightarrow> idleTimes e now (settingIdleSleepSeconds s) (s_activettys s) \<noteq> []"

lemma active_eq:
  assumes "s_tty_queue s" and "curtime e = Some now"
  shows "\<exists>nm. ttys_are_active e s =
    ((someActive e now s, if someActive e now s then timeToIdle e now s else 0), s\<lparr>s_activetty_names := nm\<rparr>)"
proof -
  obtain pf nm where "fold (ttyRound e now (settingIdleSleepSeconds s)) (s_activettys s)
      (settingIdleSleepSeconds s, False, True, '''') =
    (fold min (idleTimes e now (settingIdleSleepSeconds s) (s_activettys s)) (settingIdleSleepSeconds s),
     someActive e now s, pf, nm)"
    using round_fold [of e now "settingIdleSleepSeconds s" "s_activettys s" "settingIdleSleepSeconds s" False True "''''"]
    by (auto simp: someActive_def)
  then show ?thesis using assms by (auto simp: ttys_are_active_def timeToIdle_def Let_def)
qed

text \<open>A state in which the tracking is at work.\<close>

definition tracking :: "ttyState \<Rightarrow> bool" where
  "tracking s \<longleftrightarrow> s_tty_queue s \<and> s_timer_source s \<noteq> None"

definition held_by :: "ttyEnv \<Rightarrow> int \<Rightarrow> ttyState \<Rightarrow> bool" where
  "held_by e now s \<longleftrightarrow> someActive e now s \<and> settingTTYSPreventSleep s"

lemma considered:
  assumes "tracking s" and "curtime e = Some now"
  defines "s' \<equiv> snd (TTYKeepAwakeConsiderAssertion e s)"
  shows "fst (TTYKeepAwakeConsiderAssertion e s) = (\<not> held_by e now s)"
    and "s_assertion s' =
      (if held_by e now s then if s_assertion s = 0 then newAssertionID e else s_assertion s else 0)"
    and "s_timer_source s' =
      Some (if held_by e now s then Some (timerDelta (max (timeToIdle e now s) kMinIdleCheckTime)) else None)"
    and "s_activettys s' = s_activettys s"
    and "settingIdleSleepSeconds s' = settingIdleSleepSeconds s"
    and "settingTTYSPreventSleep s' = settingTTYSPreventSleep s"
    and "tracking s'"
proof -
  obtain nm where "ttys_are_active e s =
      ((someActive e now s, if someActive e now s then timeToIdle e now s else 0), s\<lparr>s_activetty_names := nm\<rparr>)"
    using active_eq assms unfolding tracking_def by blast
  note eqs = this TTYKeepAwakeConsiderAssertion_def rearm_timer_def create_assertion_def onTTYQueue_def
    ttyNote_def pause_timer_def release_assertion_def held_by_def s'_def
  have t: "s_tty_queue s" "s_timer_source s \<noteq> None" using assms(1) by (auto simp: tracking_def)
  show "fst (TTYKeepAwakeConsiderAssertion e s) = (\<not> held_by e now s)" using t by (auto simp: eqs)
  show "s_assertion s' =
      (if held_by e now s then if s_assertion s = 0 then newAssertionID e else s_assertion s else 0)"
    using t by (auto simp: eqs)
  show "s_timer_source s' =
      Some (if held_by e now s then Some (timerDelta (max (timeToIdle e now s) kMinIdleCheckTime)) else None)"
    using t by (auto simp: eqs)
  show "s_activettys s' = s_activettys s" using t by (auto simp: eqs)
  show "settingIdleSleepSeconds s' = settingIdleSleepSeconds s" using t by (auto simp: eqs)
  show "settingTTYSPreventSleep s' = settingTTYSPreventSleep s" using t by (auto simp: eqs)
  show "tracking s'" using t by (auto simp: eqs tracking_def)
qed

section \<open>The assertion is given back in time\<close>

lemma timerDelta_exact: "0 < d \<Longrightarrow> d \<le> 9000000000 \<Longrightarrow> timerDelta d = d * NSEC_PER_SEC"
proof -
  assume d: "0 < d" "d \<le> 9000000000"
  then have "sint (word_of_int (d * 1000000000) :: 64 word) = d * 1000000000"
    by (intro signed_take_bit_int_eq_self [THEN trans [OF sint_sbintrunc']]) simp_all
  then show ?thesis using d by (simp add: timerDelta_def NSEC_PER_SEC_def Let_def)
qed

lemma timeToIdle_bounds:
  assumes "\<forall>tty a. st_atime e tty = Some a \<longrightarrow> a \<le> now"
  shows "0 \<le> timeToIdle e now s" and "timeToIdle e now s \<le> max (settingIdleSleepSeconds s) 0"
proof -
  let ?S = "settingIdleSleepSeconds s"
  let ?xs = "idleTimes e now ?S (s_activettys s)"
  show "0 \<le> timeToIdle e now s" using fold_min_le [of ?xs ?S] by (simp add: timeToIdle_def)
  have "1 \<le> i" if "i \<in> set ?xs" for i using that assms by (fastforce simp: idleTimes_iff)
  from this [of "fold min ?xs ?S"] show "timeToIdle e now s \<le> max ?S 0"
    using fold_min_in [of ?xs ?S] by (auto simp: timeToIdle_def max_def)
qed

text \<open>If no terminal is used, the time that is left runs out; at its end only terminals that reach the limit
  exactly are active.\<close>

lemma later_idle:
  assumes "\<And>tty. st_atime e' tty = st_atime e tty"
    and "s_activettys s' = s_activettys s" and "settingIdleSleepSeconds s' = settingIdleSleepSeconds s" and "0 \<le> d"
    and "i \<in> set (idleTimes e' (now + d) (settingIdleSleepSeconds s') (s_activettys s'))"
  shows "settingIdleSleepSeconds s - timeToIdle e now s + d \<le> i \<and> i \<le> settingIdleSleepSeconds s"
proof -
  let ?S = "settingIdleSleepSeconds s"
  from assms(5) have le: "i \<le> ?S" and "i - d \<in> set (idleTimes e now ?S (s_activettys s))"
    using assms(1-4) by (auto simp: idleTimes_iff)
  then have "?S - timeToIdle e now s \<le> i - d" using fold_min_le by (simp add: timeToIdle_def)
  with le show ?thesis by simp
qed

lemma later_left:
  assumes "\<And>tty. st_atime e' tty = st_atime e tty"
    and "s_activettys s' = s_activettys s" and "settingIdleSleepSeconds s' = settingIdleSleepSeconds s" and "0 \<le> d"
  shows "timeToIdle e' (now + d) s' \<le> max 0 (timeToIdle e now s - d)"
    and "timeToIdle e now s < d \<Longrightarrow> \<not> someActive e' (now + d) s'"
proof -
  note l = later_idle [OF assms, of _ now]
  show "timeToIdle e' (now + d) s' \<le> max 0 (timeToIdle e now s - d)"
    using fold_min_in [of "idleTimes e' (now + d) (settingIdleSleepSeconds s') (s_activettys s')"
        "settingIdleSleepSeconds s'"] l assms(3)
    by (fastforce simp: timeToIdle_def [of e' "now + d"])
  show "\<not> someActive e' (now + d) s'" if "timeToIdle e now s < d"
  proof
    assume "someActive e' (now + d) s'"
    then obtain i where "i \<in> set (idleTimes e' (now + d) (settingIdleSleepSeconds s') (s_activettys s'))"
      unfolding someActive_def by (meson last_in_set)
    from l [OF this] that show False by simp
  qed
qed

text \<open>C40: A terminal that is not used any more lets the system sleep in time.  If no terminal is used
  after a moment at which the assertion is held, the timer is armed for the time \<open>d\<close> that the last used one has left,
  ten seconds at least and the idle time at most; when it fires the assertion is given back or the timer is
  armed for ten seconds, and after those it is given back and the system may sleep.  The idle time is at
  most 9000000000 seconds, so that its nanoseconds fit 64 bits, and no terminal has been used in the future.\<close>

theorem tty_released_in_time:
  assumes "tracking s" and "curtime e = Some t" and "\<not> fst (TTYKeepAwakeConsiderAssertion e s)"
    and past: "\<forall>tty a. st_atime e tty = Some a \<longrightarrow> a \<le> t" and "settingIdleSleepSeconds s \<le> 9000000000"
  shows "\<exists>d. 10 \<le> d \<and> d \<le> max (settingIdleSleepSeconds s) 10 \<and>
    (let s1 = snd (TTYKeepAwakeConsiderAssertion e s);
         s2 = snd (TTYKeepAwakeConsiderAssertion (e\<lparr>curtime := Some (t + d)\<rparr>) s1);
         r = TTYKeepAwakeConsiderAssertion (e\<lparr>curtime := Some (t + d + 10)\<rparr>) s2
     in s_timer_source s1 = Some (Some (d * NSEC_PER_SEC)) \<and>
        (s_timer_source s2 = Some None \<and> s_assertion s2 = 0 \<or> s_timer_source s2 = Some (Some (10 * NSEC_PER_SEC))) \<and>
        fst r \<and> s_assertion (snd r) = 0)"
proof -
  define d where "d = max (timeToIdle e t s) 10"
  define s1 where "s1 = snd (TTYKeepAwakeConsiderAssertion e s)"
  define e2 where "e2 = e\<lparr>curtime := Some (t + d)\<rparr>"
  define s2 where "s2 = snd (TTYKeepAwakeConsiderAssertion e2 s1)"
  define e3 where "e3 = e\<lparr>curtime := Some (t + (d + 10))\<rparr>"
  have d: "10 \<le> d" "d \<le> max (settingIdleSleepSeconds s) 10" "d \<le> 9000000000"
    using timeToIdle_bounds(2) [OF past, of s] assms(5) unfolding d_def max_def by (simp_all split: if_splits)
  note c1 = considered [OF assms(1,2), folded s1_def]
  have held: "held_by e t s" using assms(3) c1(1) by simp
  have t1: "s_timer_source s1 = Some (Some (d * NSEC_PER_SEC))"
    using c1(3) held timerDelta_exact [of d] d by (simp add: d_def kMinIdleCheckTime_def)
  have e2: "curtime e2 = Some (t + d)" "st_atime e2 tty = st_atime e tty" for tty by (simp_all add: e2_def)
  have e3: "curtime e3 = Some (t + (d + 10))" "st_atime e3 tty = st_atime e tty" for tty by (simp_all add: e3_def)
  note c2 = considered [OF c1(7) e2(1), folded s2_def]
  have "timeToIdle e2 (t + d) s1 \<le> 0"
    using later_left(1) [OF e2(2) c1(4,5), of d t] d(1) by (simp add: d_def)
  then have t2: "s_timer_source s2 = Some None \<and> s_assertion s2 = 0 \<or> s_timer_source s2 = Some (Some (10 * NSEC_PER_SEC))"
    using c2(2,3) timerDelta_exact [of 10] by (auto simp: kMinIdleCheckTime_def max_def)
  note c3 = considered [OF c2(7) e3(1)]
  have "\<not> someActive e3 (t + (d + 10)) s2"
    by (rule later_left(2) [OF e3(2)]) (use c1(4,5) c2(4,5) d(1) in \<open>auto simp: d_def max_def\<close>)
  then have "fst (TTYKeepAwakeConsiderAssertion e3 s2)" "s_assertion (snd (TTYKeepAwakeConsiderAssertion e3 s2)) = 0"
    using c3(1,2) by (simp_all add: held_by_def)
  then show ?thesis
    using d(1,2) t1 t2
    by (intro exI [of _ d]) (simp add: Let_def s1_def s2_def e2_def e3_def add.assoc)
qed

text \<open>A machine with one remote login on \<open>ttys1\<close>, last used at 990, and an idle time of two minutes.\<close>

definition ttyEnv0 :: ttyEnv where
  "ttyEnv0 = \<lparr>curtime = Some 1000, st_atime = [''/dev/ttys1'' \<mapsto> 990],
     logins = [(''example.org'', ''ttys1''), ('''', ''console'')],
     activePMSettings = Some \<lparr>displaySleepKey = Some 1, systemSleepKey = Some 2, ttysPreventSleepKey = Some 1\<rparr>,
     newAssertionID = 7\<rparr>"

definition ttyTracked :: ttyState where
  "ttyTracked = ttyStart\<lparr>s_tty_queue := True, s_timer_source := Some None, settingIdleSleepSeconds := 120,
     s_activettys := [''/dev/ttys1'']\<rparr>"

lemma ttyTracked_held: "held_by ttyEnv0 1000 ttyTracked"
  by (simp add: held_by_def someActive_def ttyTracked_def ttyStart_def ttyEnv0_def current_idle_secs_def)

lemma tty_released_in_time_witness:
  "\<exists>d. d \<le> 120 \<and> s_timer_source (snd (TTYKeepAwakeConsiderAssertion ttyEnv0 ttyTracked)) = Some (Some (d * NSEC_PER_SEC))"
proof -
  have t: "tracking ttyTracked" and c: "curtime ttyEnv0 = Some 1000"
    by (simp_all add: tracking_def ttyTracked_def ttyEnv0_def)
  have h: "\<not> fst (TTYKeepAwakeConsiderAssertion ttyEnv0 ttyTracked)"
    using considered(1) [OF t c] ttyTracked_held by simp
  have past: "\<forall>tty a. st_atime ttyEnv0 tty = Some a \<longrightarrow> a \<le> 1000"
    by (simp add: ttyEnv0_def split: if_splits)
  have "settingIdleSleepSeconds ttyTracked = 120" by (simp add: ttyTracked_def)
  then show ?thesis using tty_released_in_time [OF t c h past] by (auto simp: Let_def)
qed

section \<open>The timer waits while the assertion is held\<close>

text \<open>States reached from a successful start by considering, new logins and new settings in any order.\<close>

inductive ttyReach :: "ttyState \<Rightarrow> bool" where
  TTY_start: "ttyReach (TTYKeepAwake_prime True True True True e ttyStart)"
| TTY_consider: "ttyReach s \<Longrightarrow> ttyReach (snd (TTYKeepAwakeConsiderAssertion e s))"
| TTY_logins: "ttyReach s \<Longrightarrow> ttyReach (read_logins e s)"
| TTY_prefs: "ttyReach s \<Longrightarrow> ttyReach (TTYKeepAwakePrefsHaveChanged e s)"

definition watched :: "ttyState \<Rightarrow> bool" where
  "watched s \<longleftrightarrow> tracking s \<and> TTYNullQueue \<notin> set (ttyEvents s) \<and>
     (s_assertion s = 0 \<or> (\<exists>d. s_timer_source s = Some (Some d)))"

lemma watched_consider:
  assumes "watched s" shows "watched (snd (TTYKeepAwakeConsiderAssertion e s))"
proof (cases "curtime e")
  case None
  then show ?thesis using assms
    by (auto simp: watched_def tracking_def TTYKeepAwakeConsiderAssertion_def ttys_are_active_def release_assertion_def
        pause_timer_def ttyNote_def)
next
  case (Some now)
  have t: "tracking s" using assms by (simp add: watched_def)
  note c = considered [OF t Some]
  obtain nm where "ttys_are_active e s =
      ((someActive e now s, if someActive e now s then timeToIdle e now s else 0), s\<lparr>s_activetty_names := nm\<rparr>)"
    using active_eq Some t unfolding tracking_def by blast
  then have "TTYNullQueue \<notin> set (ttyEvents (snd (TTYKeepAwakeConsiderAssertion e s)))"
    using assms by (auto simp: watched_def tracking_def TTYKeepAwakeConsiderAssertion_def rearm_timer_def
        create_assertion_def onTTYQueue_def ttyNote_def pause_timer_def release_assertion_def)
  then show ?thesis using c(2,3,7) by (auto simp: watched_def)
qed

lemma watched_add: "watched s \<Longrightarrow> watched (addtty l s)"
  by (auto simp: watched_def tracking_def addtty_def onTTYQueue_def split: prod.split)

lemma watched_logins: "watched s \<Longrightarrow> watched (read_logins e s)"
proof -
  assume "watched s"
  then have "watched (freettys s)" by (auto simp: watched_def tracking_def freettys_def)
  then have "watched (fold (\<lambda>(host, line) s. if 0 < length host then addtty line s else s) (logins e) (freettys s))"
    by (rule fold_invariant) (auto simp: watched_add)
  then show ?thesis unfolding read_logins_def by (rule watched_consider)
qed

lemma watched_prefs: "watched s \<Longrightarrow> watched (TTYKeepAwakePrefsHaveChanged e s)"
proof -
  assume w: "watched s"
  have "watched (onTTYQueue (\<lambda>s. s\<lparr>settingIdleSleepSeconds := a, settingTTYSPreventSleep := b\<rparr>) s)" for a b
    using w by (simp add: watched_def tracking_def onTTYQueue_def)
  then show ?thesis
    using w watched_consider by (auto simp: TTYKeepAwakePrefsHaveChanged_def Let_def split: option.split)
qed

theorem tty_watched: "ttyReach s \<Longrightarrow> watched s"
proof (induction rule: ttyReach.induct)
  case (TTY_start e)
  have "watched (ttyStart\<lparr>s_tty_queue := True, s_utmpx_notify_token := True, s_timer_source := Some None\<rparr>)"
    by (simp add: watched_def tracking_def ttyStart_def)
  then show ?case by (simp add: TTYKeepAwake_prime_def Let_def watched_logins watched_prefs)
qed (simp_all add: watched_consider watched_logins watched_prefs)

section \<open>What the code gets wrong\<close>

text \<open>
  The callouts run concurrently: if one that finds the terminals idle is overtaken by one that finds
  them active between its two blocks, the assertion is held and no timer waits.
\<close>

lemma race_unwatched:
  assumes "tracking s" and "newAssertionID e \<noteq> 0"
  shows "let s' = pause_timer (rearm_timer d (create_assertion e (release_assertion s)))
    in s_assertion s' \<noteq> 0 \<and> s_timer_source s' = Some None"
  using assms by (auto simp: tracking_def pause_timer_def rearm_timer_def create_assertion_def release_assertion_def
      onTTYQueue_def ttyNote_def Let_def)

text \<open>At the time for which the timer has been set a terminal is active still.\<close>

lemma active_at_expiration:
  "someActive e (now + timeToIdle e now s) s" if act: "someActive e now s"
proof -
  let ?S = "settingIdleSleepSeconds s"
  let ?xs = "idleTimes e now ?S (s_activettys s)"
  obtain x where x: "x \<in> set ?xs" using act unfolding someActive_def by (meson last_in_set)
  have "fold min ?xs ?S \<in> set ?xs"
  proof (cases "fold min ?xs ?S = ?S")
    case True
    have "x = ?S" using x True fold_min_le [of ?xs ?S] by (auto simp: idleTimes_def intro: antisym)
    then show ?thesis using x True by simp
  qed (use fold_min_in in blast)
  then obtain tty a where "tty \<in> set (s_activettys s)" "st_atime e tty = Some a" "fold min ?xs ?S = now - a + 1"
    unfolding idleTimes_iff by blast
  then have "?S \<in> set (idleTimes e (now + timeToIdle e now s) ?S (s_activettys s))"
    unfolding idleTimes_iff by (intro bexI [of _ tty] exI [of _ a]) (simp_all add: timeToIdle_def)
  then show ?thesis by (auto simp: someActive_def)
qed

text \<open>A large idle time makes the timer fire at once, and a path is cut at its last character.\<close>

lemma delta_overflow: "timerDelta 18446744074 = 290448384"
  by (simp add: timerDelta_def NSEC_PER_SEC_def Let_def)

lemma path_cut:
  "length name = 123 \<Longrightarrow> s_tty_queue s \<Longrightarrow>
     s_activettys (addtty name s) = (''/dev/'' @ take 122 name) # s_activettys s"
  by (simp add: addtty_def strlcat_def onTTYQueue_def DEVMAXPATHSIZE_def)

lemma null_queue:
  "activePMSettings e = Some \<lparr>displaySleepKey = x, systemSleepKey = Some m, ttysPreventSleepKey = Some p\<rparr>
     \<Longrightarrow> TTYNullQueue \<in> set (ttyEvents (TTYKeepAwakePrefsHaveChanged e (TTYKeepAwake_prime True True False b e0 ttyStart)))"
  by (simp add: TTYKeepAwake_prime_def cleanup_tty_tracking_def freettys_def TTYKeepAwakePrefsHaveChanged_def
      onTTYQueue_def ttyNote_def TTYKeepAwakeConsiderAssertion_def ttys_are_active_def release_assertion_def
      pause_timer_def ttyStart_def Let_def split: option.split)

end
