(* ===== verification/TcpKeepAlive.thy ===== *)
theory TcpKeepAlive
  imports Prelude
begin

text \<open>
  TCP connections that are kept alive during sleep (Platform.c): whether that is active, and the timer
  that ends it after some hours on battery.  The cancellation of a dispatch source is asynchronous: its handler
  runs later on the main queue, and is a step of its own here.
\<close>

section \<open>State\<close>

definition kTCPKeepAliveExpireSecs :: int where "kTCPKeepAliveExpireSecs = 12 * 60 * 60"

datatype tcpKeepAliveStates = kNotSupported | kActive | kInactive

text \<open>\<open>expiration\<close> is the timer source, if there is one: whether it has been cancelled and the seconds for
  which it is armed.\<close>

record expirationSource =
  ex_cancelled :: bool
  ex_armed :: "int option"

record TCPKeepAliveStruct =
  overrideSec :: int
  ka_state :: tcpKeepAliveStates
  expiration :: "expirationSource option"
  ts_turnoff :: rat

text \<open>
  \<open>pushServiceConfigs\<close> counts the calls \<open>configAssertionType(kInteractivePushServiceType, false)\<close>;
  \<open>prevPwrSrc\<close> is the argument of the last change of the power source.
\<close>

record platform =
  gTCPKeepAlive :: "TCPKeepAliveStruct option"
  pushConnectionActive :: bool
  prevPwrSrc :: int
  pushServiceConfigs :: nat

definition platformStart :: platform where
  "platformStart = \<lparr>gTCPKeepAlive = None, pushConnectionActive = False, prevPwrSrc = - 1, pushServiceConfigs = 0\<rparr>"

text \<open>What the code reads: the two features of the platform (the second only where it is set), the preference
  of the user, the standby settings, the time, the activity of the user and the power source.\<close>

record platformEnv =
  keepAliveFeature :: "IOReturn \<times> bool"
  featureNotReady :: bool
  expirationFeature :: "int option"
  tcpPref :: "int option"
  standbyDestroysKey :: bool
  tcpNow :: rat
  sessionUserActive :: bool
  onBattery :: bool
  thermalTooHigh :: bool
  wakeOnLanPref :: "int option"

definition onKA :: "(TCPKeepAliveStruct \<Rightarrow> TCPKeepAliveStruct) \<Rightarrow> platform \<Rightarrow> platform" where
  "onKA f s = s\<lparr>gTCPKeepAlive := map_option f (gTCPKeepAlive s)\<rparr>"

section \<open>Operations\<close>

text \<open>The allocation succeeds.\<close>

definition lazyAllocTCPKeepAlive :: "platformEnv \<Rightarrow> platform \<Rightarrow> platform" where
  "lazyAllocTCPKeepAlive e s =
     (if gTCPKeepAlive s \<noteq> None then s
      else if featureNotReady e then s
      else
        let k = \<lparr>overrideSec = 0, ka_state = kNotSupported, expiration = None, ts_turnoff = 0\<rparr> in
        s\<lparr>gTCPKeepAlive := Some
          (if keepAliveFeature e = (kIOReturnSuccess, True)
           then k\<lparr>overrideSec := (case expirationFeature e of Some v \<Rightarrow> v | None \<Rightarrow> kTCPKeepAliveExpireSecs),
                  ka_state := kActive\<rparr>
           else k)\<rparr>)"

definition userPrefForTcpka :: "platformEnv \<Rightarrow> bool" where
  "userPrefForTcpka e = (case tcpPref e of None \<Rightarrow> True | Some v \<Rightarrow> v = 1)"

definition getTcpkaTurnOffTime :: "platformEnv \<Rightarrow> platform \<Rightarrow> rat" where
  "getTcpkaTurnOffTime e s =
     (case gTCPKeepAlive s of
        None \<Rightarrow> 0
      | Some k \<Rightarrow>
          if ka_state k \<noteq> kActive \<or> ts_turnoff k = 0 \<or> \<not> userPrefForTcpka e then 0 else ts_turnoff k + 60)"

definition cancelTCPKeepAliveExpTimer :: "platform \<Rightarrow> platform" where
  "cancelTCPKeepAliveExpTimer =
     onKA (\<lambda>k. k\<lparr>expiration := map_option (\<lambda>x. x\<lparr>ex_cancelled := True\<rparr>) (expiration k)\<rparr>)"

text \<open>The handlers of the source: of the cancellation, and of the timer, which a cancelled source does not call.\<close>

definition expirationCancelled :: "platform \<Rightarrow> platform" where
  "expirationCancelled =
     onKA (\<lambda>k. if expiration k \<noteq> None then k\<lparr>expiration := None, ka_state := kActive, ts_turnoff := 0\<rparr> else k)"

definition expirationFired :: "platform \<Rightarrow> platform" where
  "expirationFired s =
     (onKA (\<lambda>k. k\<lparr>ka_state := kInactive, expiration := map_option (\<lambda>x. x\<lparr>ex_armed := None\<rparr>) (expiration k)\<rparr>) s)
       \<lparr>pushServiceConfigs := pushServiceConfigs s + 1\<rparr>"

definition startTCPKeepAliveExpTimer :: "platformEnv \<Rightarrow> platform \<Rightarrow> platform" where
  "startTCPKeepAliveExpTimer e s =
     (case gTCPKeepAlive s of
        None \<Rightarrow> s
      | Some k \<Rightarrow>
          if ka_state k \<noteq> kActive \<or> \<not> userPrefForTcpka e then s
          else
            let x = (case expiration k of Some x \<Rightarrow> x | None \<Rightarrow> \<lparr>ex_cancelled = False, ex_armed = None\<rparr>)
            in s\<lparr>gTCPKeepAlive := Some (k\<lparr>ts_turnoff := tcpNow e + of_int (overrideSec k),
                   expiration := Some (x\<lparr>ex_armed := Some (overrideSec k)\<rparr>)\<rparr>)\<rparr>)"

text \<open>As built for Macs with an Intel processor, where the standby settings count.\<close>

definition getTCPKeepAliveState :: "platformEnv \<Rightarrow> platform \<Rightarrow> tcpKeepAliveStates \<times> platform" where
  "getTCPKeepAliveState e s =
     (let s1 = lazyAllocTCPKeepAlive e s in
      (case gTCPKeepAlive s1 of
         None \<Rightarrow> kNotSupported
       | Some k \<Rightarrow>
           if ka_state k = kNotSupported then kNotSupported
           else if \<not> userPrefForTcpka e then kInactive
           else if standbyDestroysKey e then kInactive
           else if ka_state k = kActive \<and> pushConnectionActive s1 then kActive
           else kInactive, s1))"

definition changeable :: "platformEnv \<Rightarrow> platform \<Rightarrow> bool" where
  "changeable e s \<longleftrightarrow>
     (case gTCPKeepAlive s of None \<Rightarrow> False | Some k \<Rightarrow> ka_state k \<noteq> kNotSupported) \<and> userPrefForTcpka e"

definition enableTCPKeepAlive :: "platformEnv \<Rightarrow> platform \<Rightarrow> platform" where
  "enableTCPKeepAlive e s =
     (if \<not> changeable e s then s else onKA (\<lambda>k. k\<lparr>ka_state := kActive\<rparr>) (cancelTCPKeepAliveExpTimer s))"

definition disableTCPKeepAlive :: "platformEnv \<Rightarrow> platform \<Rightarrow> platform" where
  "disableTCPKeepAlive e s =
     (if \<not> changeable e s then s else onKA (\<lambda>k. k\<lparr>ka_state := kInactive\<rparr>) (cancelTCPKeepAliveExpTimer s))"

definition getTCPKeepAliveOverrideSec :: "platform \<Rightarrow> int" where
  "getTCPKeepAliveOverrideSec s = (case gTCPKeepAlive s of Some k \<Rightarrow> overrideSec k | None \<Rightarrow> 0)"

definition setTCPKeepAliveOverrideSec :: "platformEnv \<Rightarrow> int \<Rightarrow> platform \<Rightarrow> platform" where
  "setTCPKeepAliveOverrideSec e value s = enableTCPKeepAlive e (onKA (\<lambda>k. k\<lparr>overrideSec := value\<rparr>) s)"

text \<open>The block on the main queue is run at once.\<close>

definition evalTcpkaForPSChange :: "platformEnv \<Rightarrow> int \<Rightarrow> platform \<Rightarrow> platform" where
  "evalTcpkaForPSChange e pwrSrc s =
     (if pwrSrc = prevPwrSrc s then s
      else
        let s1 = s\<lparr>prevPwrSrc := pwrSrc\<rparr> in
        case gTCPKeepAlive s1 of
          None \<Rightarrow> s1
        | Some k \<Rightarrow>
            if ka_state k = kNotSupported \<or> sessionUserActive e then s1
            else if onBattery e then startTCPKeepAliveExpTimer e s1
            else onKA (\<lambda>k. if ka_state k = kInactive then k\<lparr>ka_state := kActive\<rparr> else k)
                   (cancelTCPKeepAliveExpTimer s1))"

definition setPushConnectionState :: "bool \<Rightarrow> platform \<Rightarrow> platform" where
  "setPushConnectionState active s = s\<lparr>pushConnectionActive := active\<rparr>"

definition getPushConnectionState :: "platform \<Rightarrow> bool" where
  "getPushConnectionState s = pushConnectionActive s"

definition getWakeOnLanState :: "platformEnv \<Rightarrow> bool" where
  "getWakeOnLanState e \<longleftrightarrow> \<not> thermalTooHigh e \<and> wakeOnLanPref e = Some 1"

section \<open>Properties\<close>

text \<open>After the timer has fired nothing is kept alive until it is enabled again or the power source changes.\<close>

lemma expired_inactive:
  assumes "gTCPKeepAlive s \<noteq> None"
  shows "fst (getTCPKeepAliveState e (expirationFired s)) = kInactive"
  using assms by (auto simp: getTCPKeepAliveState_def Let_def lazyAllocTCPKeepAlive_def expirationFired_def onKA_def)

text \<open>What is not supported stays so, and the state is active only with the connection of the push service.\<close>

lemma unsupported_stays:
  assumes "gTCPKeepAlive s = Some k" and "ka_state k = kNotSupported"
  shows "enableTCPKeepAlive e s = s" and "disableTCPKeepAlive e s = s"
    and "startTCPKeepAliveExpTimer e s = s" and "gTCPKeepAlive (evalTcpkaForPSChange e p s) = Some k"
  using assms
  by (auto simp: enableTCPKeepAlive_def disableTCPKeepAlive_def changeable_def startTCPKeepAliveExpTimer_def
      evalTcpkaForPSChange_def Let_def)

lemma active_needs_push:
  "fst (getTCPKeepAliveState e s) = kActive \<Longrightarrow> pushConnectionActive s \<and> userPrefForTcpka e"
  by (auto simp: getTCPKeepAliveState_def Let_def lazyAllocTCPKeepAlive_def split: option.splits if_splits)

text \<open>
  Disabling while the timer is armed does not last: the handler of the cancellation makes it active
  again.  Starting again before that handler has run is lost with the source.
\<close>

lemma disable_undone:
  assumes "gTCPKeepAlive s = Some k" and "ka_state k \<noteq> kNotSupported" and "expiration k \<noteq> None" and "userPrefForTcpka e"
  shows "map_option ka_state (gTCPKeepAlive (expirationCancelled (disableTCPKeepAlive e s))) = Some kActive"
  using assms
  by (auto simp: disableTCPKeepAlive_def changeable_def cancelTCPKeepAliveExpTimer_def expirationCancelled_def onKA_def)

lemma restart_lost:
  assumes "gTCPKeepAlive s = Some k" and "ka_state k = kActive" and "expiration k \<noteq> None" and "userPrefForTcpka e"
  shows "map_option expiration
    (gTCPKeepAlive (expirationCancelled (startTCPKeepAliveExpTimer e (cancelTCPKeepAliveExpTimer s)))) = Some None"
  using assms
  by (auto simp: startTCPKeepAliveExpTimer_def cancelTCPKeepAliveExpTimer_def expirationCancelled_def onKA_def Let_def)

end
