(* ===== verification/HidHistory.thy ===== *)
theory HidHistory
  imports Prelude "HOL-Library.Signed_Division"
begin

text \<open>
  The history of the events that processes post to the HID system (HIDEventWatcher.c): for the last ten
  processes the counts of the last twelve windows of five minutes.
\<close>

section \<open>The history\<close>

definition kFiveMinutesInSeconds :: int where "kFiveMinutesInSeconds = 300"
definition kMaxFiveMinutesWindowsCount :: nat where "kMaxFiveMinutesWindowsCount = 12"
definition kMaxPIDRecorded :: nat where "kMaxPIDRecorded = 10"
definition NX_NULL_EVENT :: int where "NX_NULL_EVENT = 0"

record activityWindow =
  eventWindowStart :: rat
  nullEventCount :: int
  hidEventCount :: int

record appHistory =
  appPID :: pid
  appPath :: "string option"
  historyArray :: "activityWindow list"

text \<open>\<open>(int)timeNow\<close>: towards zero.\<close>

definition intOfTime :: "rat \<Rightarrow> int" where
  "intOfTime t = (if t < 0 then - \<lfloor>- t\<rfloor> else \<lfloor>t\<rfloor>)"

definition windowStart :: "rat \<Rightarrow> rat" where
  "windowStart now = of_int ((intOfTime now sdiv kFiveMinutesInSeconds) * kFiveMinutesInSeconds)"

definition bump :: "int \<Rightarrow> activityWindow \<Rightarrow> activityWindow" where
  "bump action w =
     (if action = NX_NULL_EVENT then w\<lparr>nullEventCount := nullEventCount w + 1\<rparr>
      else w\<lparr>hidEventCount := hidEventCount w + 1\<rparr>)"

text \<open>The windows after an event, the latest first.\<close>

definition recordEvent :: "rat \<Rightarrow> int \<Rightarrow> activityWindow list \<Rightarrow> activityWindow list" where
  "recordEvent now action ws =
     (case ws of
        w # rest \<Rightarrow>
          if now < eventWindowStart w + of_int kFiveMinutesInSeconds then bump action w # rest
          else take kMaxFiveMinutesWindowsCount
                 (bump action \<lparr>eventWindowStart = windowStart now, nullEventCount = 0, hidEventCount = 0\<rparr> # ws)
      | [] \<Rightarrow> [bump action \<lparr>eventWindowStart = windowStart now, nullEventCount = 0, hidEventCount = 0\<rparr>])"

definition findApp :: "pid \<Rightarrow> appHistory list \<Rightarrow> bool" where
  "findApp p h \<longleftrightarrow> p \<in> appPID ` set h"

text \<open>A process that is not known is appended, and the first one makes room.\<close>

definition addApp :: "pid \<Rightarrow> string option \<Rightarrow> appHistory list \<Rightarrow> appHistory list" where
  "addApp p name h =
     (if findApp p h then h
      else
        let h1 = h @ [\<lparr>appPID = p, appPath = name, historyArray = []\<rparr>]
        in if length h1 > kMaxPIDRecorded then tl h1 else h1)"

fun updateFirst :: "(appHistory \<Rightarrow> appHistory) \<Rightarrow> pid \<Rightarrow> appHistory list \<Rightarrow> appHistory list" where
  "updateFirst f p [] = []"
| "updateFirst f p (a # h) = (if appPID a = p then f a # h else a # updateFirst f p h)"

text \<open>The MIG routine: whether the event is allowed, and the history.\<close>

definition io_pm_hid_event_report_activity ::
    "bool \<Rightarrow> rat \<Rightarrow> pid \<Rightarrow> string option \<Rightarrow> int \<Rightarrow> appHistory list \<Rightarrow> bool \<times> appHistory list" where
  "io_pm_hid_event_report_activity notificationDisplayWake now p name action h =
     (\<not> (action = NX_NULL_EVENT \<and> notificationDisplayWake),
      updateFirst (\<lambda>a. a\<lparr>historyArray := recordEvent now action (historyArray a)\<rparr>) p (addApp p name h))"

text \<open>The data has been allocated if \<open>allocated\<close>; the code reports success in both cases.\<close>

definition io_pm_hid_event_copy_history ::
    "bool \<Rightarrow> bool \<Rightarrow> appHistory list \<Rightarrow> IOReturn \<times> appHistory list option" where
  "io_pm_hid_event_copy_history serialized allocated h =
     (if \<not> serialized then (kIOReturnError, None)
      else (kIOReturnSuccess, if allocated then Some h else None))"

section \<open>Properties\<close>

definition bounded_history :: "appHistory list \<Rightarrow> bool" where
  "bounded_history h \<longleftrightarrow>
     length h \<le> kMaxPIDRecorded \<and> distinct (map appPID h) \<and>
     (\<forall>a \<in> set h. historyArray a \<noteq> [] \<and> length (historyArray a) \<le> kMaxFiveMinutesWindowsCount)"

lemma recordEvent_bounds:
  "length ws \<le> 12 \<Longrightarrow> recordEvent now action ws \<noteq> [] \<and> length (recordEvent now action ws) \<le> 12"
  by (auto simp: recordEvent_def kMaxFiveMinutesWindowsCount_def split: list.split)

lemma updateFirst_pids: "(\<And>a. appPID (f a) = appPID a) \<Longrightarrow> map appPID (updateFirst f p h) = map appPID h"
  by (induction h) auto

lemma updateFirst_length [simp]: "length (updateFirst f p h) = length h"
  by (induction h) auto

lemma updateFirst_set:
  "distinct (map appPID h) \<Longrightarrow> a \<in> set (updateFirst f p h) \<Longrightarrow>
     (\<exists>b \<in> set h. appPID b = p \<and> a = f b) \<or> a \<in> set h \<and> appPID a \<noteq> p"
  by (induction h) (auto split: if_splits simp: image_iff)

lemma addApp_bounded:
  assumes "bounded_history h"
  shows "length (addApp p name h) \<le> 10 \<and> distinct (map appPID (addApp p name h)) \<and>
    (\<forall>a \<in> set (addApp p name h). length (historyArray a) \<le> 12 \<and> (appPID a \<noteq> p \<longrightarrow> historyArray a \<noteq> []))"
  using assms
  by (cases h) (auto simp: addApp_def Let_def bounded_history_def findApp_def kMaxPIDRecorded_def
      kMaxFiveMinutesWindowsCount_def)

theorem history_bounded:
  assumes "bounded_history h"
  shows "bounded_history (snd (io_pm_hid_event_report_activity w now p name action h))"
proof -
  let ?f = "\<lambda>a. a\<lparr>historyArray := recordEvent now action (historyArray a)\<rparr>"
  note b = addApp_bounded [OF assms, of p name]
  have "map appPID (updateFirst ?f p (addApp p name h)) = map appPID (addApp p name h)"
    by (rule updateFirst_pids) simp
  moreover have "historyArray a \<noteq> [] \<and> length (historyArray a) \<le> 12" if "a \<in> set (updateFirst ?f p (addApp p name h))" for a
    using updateFirst_set [OF _ that] b recordEvent_bounds by fastforce
  ultimately show ?thesis
    using b by (simp add: io_pm_hid_event_report_activity_def bounded_history_def kMaxPIDRecorded_def
        kMaxFiveMinutesWindowsCount_def)
qed

text \<open>An event is counted once: in the latest window of its process.\<close>

lemma event_counted:
  "\<exists>w rest. recordEvent now action ws = bump action w # rest \<and>
     (rest = tl ws \<and> ws \<noteq> [] \<and> w = hd ws \<or>
      rest = take 11 ws \<and> w = \<lparr>eventWindowStart = windowStart now, nullEventCount = 0, hidEventCount = 0\<rparr>)"
  by (cases ws) (auto simp: recordEvent_def kMaxFiveMinutesWindowsCount_def)

text \<open>A window starts at a multiple of five minutes, no later than the event.\<close>

lemma window_aligned:
  assumes "0 \<le> now"
  shows "windowStart now \<le> now \<and> now < windowStart now + 300 \<and> (\<exists>k. windowStart now = of_int (300 * k))"
proof -
  let ?n = "\<lfloor>now\<rfloor>"
  have n: "0 \<le> ?n" using assms by simp
  then have s: "windowStart now = of_int (300 * (?n div 300))"
    using assms by (simp add: windowStart_def intOfTime_def kFiveMinutesInSeconds_def signed_divide_int_def sgn_if)
  have "300 * (?n div 300) \<le> ?n" "?n + 1 \<le> 300 * (?n div 300) + 300" by presburger+
  then have "of_int (300 * (?n div 300)) \<le> (of_int ?n :: rat)" "(of_int (?n + 1) :: rat) \<le> of_int (300 * (?n div 300) + 300)"
    by (simp_all only: of_int_le_iff)
  then show ?thesis
    unfolding s by (auto intro: order_trans [OF _ of_int_floor_le] less_le_trans [OF floor_less_iff [THEN iffD1, of _ "?n + 1"]])
qed

end
