(* ===== verification/ThermalEvents.thy ===== *)
theory ThermalEvents
  imports Prelude
begin

text \<open>
  The power status of the root domain (PMSystemEvents.c): warnings about the temperature and the
  performance are published, posted when they change and noted in a file.
\<close>

section \<open>State\<close>

datatype statusKey = ThermalLevelWarningKey | CPUPowerLimitsKey | PerformanceWarningKey | OtherStatusKey string

text \<open>The levels are numbers of a header outside the repository; the two that count as a warning and the ones
  for unknown and normal are the arguments of this record.\<close>

record thermalLevels =
  levelWarning :: int
  levelTrap :: int
  levelUnknown :: int
  performanceWarning :: int
  performanceNormal :: int

datatype thermalEvent =
    OverrideWakeOnLan bool
  | LogThermal int
  | LogPerformance int
  | PublishKeys "statusKey list"
  | PostNotification statusKey
  | CreateThermalFile

record thermal =
  thermalState :: int
  perfState :: int
  thermalEvents :: "thermalEvent list"

definition thermalStart :: "thermalLevels \<Rightarrow> thermal" where
  "thermalStart L = \<lparr>thermalState = levelUnknown L, perfState = performanceNormal L, thermalEvents = []\<rparr>"

definition told :: "thermalEvent list \<Rightarrow> thermal \<Rightarrow> thermal" where
  "told es s = s\<lparr>thermalEvents := thermalEvents s @ es\<rparr>"

definition tooHot :: "thermalLevels \<Rightarrow> int \<Rightarrow> bool" where
  "tooHot L v \<longleftrightarrow> v = levelWarning L \<or> v = levelTrap L"

text \<open>The keys that have a place in the store; they are the ones with a notification.\<close>

definition createSCKeyForIOKitString :: "statusKey \<Rightarrow> statusKey option" where
  "createSCKeyForIOKitString k = (case k of OtherStatusKey _ \<Rightarrow> None | _ \<Rightarrow> Some k)"

definition getNotifyKeyForIOKitString :: "statusKey \<Rightarrow> statusKey option" where
  "getNotifyKeyForIOKitString k = (case k of OtherStatusKey _ \<Rightarrow> None | _ \<Rightarrow> Some k)"

section \<open>A change of the status\<close>

text \<open>The first pass: the new levels, -1 where no number is found.\<close>

definition readStatus ::
    "thermalLevels \<Rightarrow> statusKey \<times> int option \<Rightarrow> (int \<times> int) \<times> thermal \<Rightarrow> (int \<times> int) \<times> thermal" where
  "readStatus L kv acc =
     (case acc of ((thermNewState, perfNewState), s) \<Rightarrow>
        (case kv of
           (ThermalLevelWarningKey, Some v) \<Rightarrow>
             ((v, perfNewState),
              if v \<noteq> thermalState s
              then told (OverrideWakeOnLan (tooHot L v) # (if v \<noteq> levelUnknown L then [LogThermal v] else [])) s
              else s)
         | (PerformanceWarningKey, Some v) \<Rightarrow>
             ((thermNewState, v), if v \<noteq> perfState s then told [LogPerformance v] s else s)
         | _ \<Rightarrow> acc))"

text \<open>The second pass posts and takes over the levels; the flag is \<open>create_file\<close>.\<close>

definition postKey :: "statusKey \<Rightarrow> thermal \<Rightarrow> thermal" where
  "postKey k s = (case getNotifyKeyForIOKitString k of Some n \<Rightarrow> told [PostNotification n] s | None \<Rightarrow> s)"

definition postStatus ::
    "thermalLevels \<Rightarrow> int \<Rightarrow> int \<Rightarrow> statusKey \<Rightarrow> bool \<times> thermal \<Rightarrow> bool \<times> thermal" where
  "postStatus L thermNewState perfNewState k acc =
     (case acc of (create_file, s) \<Rightarrow>
        (case k of
           ThermalLevelWarningKey \<Rightarrow>
             if thermNewState \<noteq> thermalState s
             then (create_file \<or> tooHot L thermNewState, postKey k (s\<lparr>thermalState := thermNewState\<rparr>))
             else acc
         | PerformanceWarningKey \<Rightarrow>
             if perfNewState \<noteq> perfState s
             then (create_file \<or> perfNewState = performanceWarning L, postKey k (s\<lparr>perfState := perfNewState\<rparr>))
             else acc
         | _ \<Rightarrow> (create_file, postKey k s)))"

text \<open>\<open>store\<close> says whether the dynamic store can be opened.\<close>

definition PMSystemEventsRootDomainInterest ::
    "thermalLevels \<Rightarrow> bool \<Rightarrow> (statusKey \<times> int option) list \<Rightarrow> thermal \<Rightarrow> thermal" where
  "PMSystemEventsRootDomainInterest L store status s =
     (if status = [] then s
      else case fold (readStatus L) status ((- 1, - 1), s) of
        ((thermNewState, perfNewState), s1) \<Rightarrow>
          if \<not> store then s1
          else
            let s2 = told [PublishKeys (List.map_filter createSCKeyForIOKitString (map fst status))] s1 in
            case fold (postStatus L thermNewState perfNewState) (map fst status) (False, s2) of
              (create_file, s3) \<Rightarrow> if create_file then told [CreateThermalFile] s3 else s3)"

section \<open>Properties\<close>

text \<open>A level that has not changed is not posted.\<close>

lemma unchanged_silent:
  assumes "thermalState s = v"
  shows "PMSystemEventsRootDomainInterest L True [(ThermalLevelWarningKey, Some v)] s =
    told [PublishKeys [ThermalLevelWarningKey]] s"
  using assms
  by (simp add: PMSystemEventsRootDomainInterest_def readStatus_def postStatus_def createSCKeyForIOKitString_def
      List.map_filter_def told_def Let_def)

text \<open>A new level is taken over, posted, and forbids to wake on LAN exactly if it is a warning.\<close>

lemma new_level_posted:
  assumes "thermalState s \<noteq> v"
  shows "thermalState (PMSystemEventsRootDomainInterest L True [(ThermalLevelWarningKey, Some v)] s) = v \<and>
    thermalEvents (PMSystemEventsRootDomainInterest L True [(ThermalLevelWarningKey, Some v)] s) =
      thermalEvents s @ OverrideWakeOnLan (tooHot L v) # (if v \<noteq> levelUnknown L then [LogThermal v] else []) @
      [PublishKeys [ThermalLevelWarningKey], PostNotification ThermalLevelWarningKey] @
      (if tooHot L v then [CreateThermalFile] else [])"
  using assms
  by (auto simp: PMSystemEventsRootDomainInterest_def readStatus_def postStatus_def createSCKeyForIOKitString_def
      getNotifyKeyForIOKitString_def postKey_def List.map_filter_def told_def Let_def)

text \<open>A level that is no number is posted as -1, with the override of the old level in force.\<close>

lemma no_number_posted:
  assumes "thermalState s \<noteq> - 1" and "\<not> tooHot L (- 1)"
  shows "PMSystemEventsRootDomainInterest L True [(ThermalLevelWarningKey, None)] s =
    told [PublishKeys [ThermalLevelWarningKey], PostNotification ThermalLevelWarningKey] (s\<lparr>thermalState := - 1\<rparr>)"
  using assms
  by (auto simp: PMSystemEventsRootDomainInterest_def readStatus_def postStatus_def createSCKeyForIOKitString_def
      getNotifyKeyForIOKitString_def postKey_def List.map_filter_def told_def Let_def)

end
