(* ===== verification/ExternalMedia.thy ===== *)
theory ExternalMedia
  imports Prelude
begin

text \<open>
  External media (ExternalMedia.c): while disks of external devices are attached an assertion is asked for.
  Disk arbitration describes the disks and is a parameter.
\<close>

datatype diskProtocol = USB | SecureDigital | OtherProtocol string

record diskDescription =
  deviceInternal :: "bool option"
  deviceProtocol :: "diskProtocol option"

datatype mediaEvent = CreateMediaAssertion | ReleaseMediaAssertion

record 'd externalMedia =
  gExternalMediaSet :: "'d list"
  mediaEvents :: "mediaEvent list"

definition ExternalMedia_prime :: "'d externalMedia" where
  "ExternalMedia_prime = \<lparr>gExternalMediaSet = [], mediaEvents = []\<rparr>"

definition weLikeTheDisk :: "diskDescription option \<Rightarrow> bool" where
  "weLikeTheDisk description =
     (case description of
        None \<Rightarrow> False
      | Some d \<Rightarrow> deviceInternal d = Some False \<or> deviceProtocol d \<in> {Some USB, Some SecureDigital})"

definition adjustExternalDiskAssertion :: "'d externalMedia \<Rightarrow> 'd externalMedia" where
  "adjustExternalDiskAssertion s =
     s\<lparr>mediaEvents := (if gExternalMediaSet s = [] then ReleaseMediaAssertion else CreateMediaAssertion) # mediaEvents s\<rparr>"

definition DiskDisappeared :: "('d \<Rightarrow> diskDescription option) \<Rightarrow> 'd \<Rightarrow> 'd externalMedia \<Rightarrow> 'd externalMedia" where
  "DiskDisappeared describe disk s =
     (if weLikeTheDisk (describe disk)
      then adjustExternalDiskAssertion (s\<lparr>gExternalMediaSet := remove1 disk (gExternalMediaSet s)\<rparr>) else s)"

definition DiskAppeared :: "('d \<Rightarrow> diskDescription option) \<Rightarrow> 'd \<Rightarrow> 'd externalMedia \<Rightarrow> 'd externalMedia" where
  "DiskAppeared describe disk s =
     (if weLikeTheDisk (describe disk)
      then adjustExternalDiskAssertion (s\<lparr>gExternalMediaSet := List.insert disk (gExternalMediaSet s)\<rparr>) else s)"

text \<open>The last request for the assertion agrees with the set: it is asked for exactly while a disk is attached.\<close>

definition media_agree :: "'d externalMedia \<Rightarrow> bool" where
  "media_agree s \<longleftrightarrow>
     distinct (gExternalMediaSet s) \<and>
     (gExternalMediaSet s \<noteq> [] \<longleftrightarrow> mediaEvents s \<noteq> [] \<and> hd (mediaEvents s) = CreateMediaAssertion)"

theorem media_agree_kept:
  "media_agree ExternalMedia_prime"
  "media_agree s \<Longrightarrow> media_agree (DiskAppeared describe disk s)"
  "media_agree s \<Longrightarrow> media_agree (DiskDisappeared describe disk s)"
  by (auto simp: media_agree_def ExternalMedia_prime_def DiskAppeared_def DiskDisappeared_def
      adjustExternalDiskAssertion_def distinct_remove1)

text \<open>A disk that has another description when it disappears, or none, stays in the set.\<close>

lemma disk_stays: "describe disk = None \<Longrightarrow> DiskDisappeared describe disk s = s"
  by (simp add: DiskDisappeared_def weLikeTheDisk_def)

end
