(* ===== verification/PowerStore.thy ===== *)
theory PowerStore
  imports Prelude
begin

text \<open>
  The values that the daemon publishes (PMStore.c): a cache in front of the dynamic store, which is written again
  from the cache when the connection is made anew.
\<close>

text \<open>\<open>gPMStore\<close> is the cache, \<open>published\<close> the values of the daemon in the dynamic store; the store says with the
  flag of each call whether it carries it out.\<close>

record ('k, 'v) powerStore =
  gPMStore :: "('k \<rightharpoonup> 'v) option"
  published :: "'k \<rightharpoonup> 'v"
  storeWrites :: nat

definition PMStoreLoad :: "('k, 'v) powerStore \<Rightarrow> ('k, 'v) powerStore" where
  "PMStoreLoad s = s\<lparr>gPMStore := Some Map.empty\<rparr>"

text \<open>A key or a value that is null or a key that is no string is \<open>None\<close>.\<close>

definition PMStoreSetValue ::
    "bool \<Rightarrow> 'k option \<Rightarrow> 'v option \<Rightarrow> ('k, 'v) powerStore \<Rightarrow> bool \<times> ('k, 'v) powerStore" where
  "PMStoreSetValue storeOK key value s =
     (case (key, value, gPMStore s) of
        (Some k, Some v, Some m) \<Rightarrow>
          if m k = Some v then (True, s)
          else
            (storeOK, s\<lparr>gPMStore := Some (m(k \<mapsto> v)), storeWrites := storeWrites s + 1,
                        published := (if storeOK then (published s)(k \<mapsto> v) else published s)\<rparr>)
      | _ \<Rightarrow> (False, s))"

definition PMStoreRemoveValue ::
    "bool \<Rightarrow> 'k option \<Rightarrow> ('k, 'v) powerStore \<Rightarrow> bool \<times> ('k, 'v) powerStore" where
  "PMStoreRemoveValue storeOK key s =
     (case key of
        None \<Rightarrow> (False, s)
      | Some k \<Rightarrow>
          (storeOK, s\<lparr>gPMStore := map_option (\<lambda>m. m(k := None)) (gPMStore s),
                      published := (if storeOK then (published s)(k := None) else published s)\<rparr>))"

definition PMDynamicStoreDisconnectCallBack :: "('k, 'v) powerStore \<Rightarrow> ('k, 'v) powerStore" where
  "PMDynamicStoreDisconnectCallBack s =
     s\<lparr>published := published s ++ (case gPMStore s of Some m \<Rightarrow> m | None \<Rightarrow> Map.empty)\<rparr>"

section \<open>Properties\<close>

text \<open>While the store carries out all calls the cache is what is published.\<close>

definition coherent :: "('k, 'v) powerStore \<Rightarrow> bool" where
  "coherent s \<longleftrightarrow> gPMStore s = Some (published s)"

theorem store_coherent:
  "published s = Map.empty \<Longrightarrow> coherent (PMStoreLoad s)"
  "coherent s \<Longrightarrow> coherent (snd (PMStoreSetValue True key value s))"
  "coherent s \<Longrightarrow> coherent (snd (PMStoreRemoveValue True key s))"
  "coherent s \<Longrightarrow> coherent (PMDynamicStoreDisconnectCallBack (s\<lparr>published := Map.empty\<rparr>))"
  by (auto simp: coherent_def PMStoreLoad_def PMStoreSetValue_def PMStoreRemoveValue_def
      PMDynamicStoreDisconnectCallBack_def split: option.split)

text \<open>A value that is published already is not written again.\<close>

lemma no_second_write:
  assumes "fst (PMStoreSetValue ok (Some k) (Some v) s)"
  shows "PMStoreSetValue ok' (Some k) (Some v) (snd (PMStoreSetValue ok (Some k) (Some v) s)) =
    (True, snd (PMStoreSetValue ok (Some k) (Some v) s))"
  using assms by (auto simp: PMStoreSetValue_def split: option.splits if_splits)

text \<open>The cache takes a value before the store has: after a failure the value counts as published although it is
  not, until the connection is lost.\<close>

lemma failed_write_hidden:
  assumes "coherent s" and "published s k \<noteq> Some v"
  defines "s1 \<equiv> snd (PMStoreSetValue False (Some k) (Some v) s)"
  shows "PMStoreSetValue True (Some k) (Some v) s1 = (True, s1)" and "published s1 k \<noteq> Some v"
    and "published (PMDynamicStoreDisconnectCallBack s1) k = Some v"
  using assms by (auto simp: coherent_def PMStoreSetValue_def PMDynamicStoreDisconnectCallBack_def)

end
