(* ===== verification/Caffeinate.thy ===== *)
theory Caffeinate
  imports Prelude
begin

text \<open>
  The command caffeinate (caffeinate.c): its options and the assertions it makes.  The options are given as
  \<open>getopt\<close> delivers them; assertions are made by the framework, whose answers are a parameter.
\<close>

datatype assertionFlag =
    kIdleAssertionFlag
  | kDisplayAssertionFlag
  | kSystemAssertionFlag
  | kUserActiveAssertionFlag
  | kDiskAssertionFlag

text \<open>The table, in its order.\<close>

definition assertionMap :: "assertionFlag list" where
  "assertionMap =
     [kIdleAssertionFlag, kDisplayAssertionFlag, kSystemAssertionFlag, kUserActiveAssertionFlag, kDiskAssertionFlag]"

text \<open>An option with a number carries what \<open>strtol\<close> gives and whether it set \<open>errno\<close>.\<close>

datatype caffOption =
    Opt_m | Opt_d | Opt_h | Opt_i | Opt_s | Opt_u
  | Opt_w int bool
  | Opt_t int bool
  | Opt_unknown

record caffOptions =
  caff_flags :: "assertionFlag set"
  waitforpid :: int
  caff_timeout :: int

text \<open>\<open>Inl True\<close> is an exit with success, \<open>Inl False\<close> one with failure.\<close>

fun parseOptions :: "caffOption list \<Rightarrow> caffOptions \<Rightarrow> bool + caffOptions" where
  "parseOptions [] r = Inr r"
| "parseOptions (Opt_m # os) r = parseOptions os (r\<lparr>caff_flags := insert kDiskAssertionFlag (caff_flags r)\<rparr>)"
| "parseOptions (Opt_d # os) r = parseOptions os (r\<lparr>caff_flags := insert kDisplayAssertionFlag (caff_flags r)\<rparr>)"
| "parseOptions (Opt_h # os) r = Inl True"
| "parseOptions (Opt_i # os) r = parseOptions os (r\<lparr>caff_flags := insert kIdleAssertionFlag (caff_flags r)\<rparr>)"
| "parseOptions (Opt_s # os) r = parseOptions os (r\<lparr>caff_flags := insert kSystemAssertionFlag (caff_flags r)\<rparr>)"
| "parseOptions (Opt_u # os) r = parseOptions os (r\<lparr>caff_flags := insert kUserActiveAssertionFlag (caff_flags r)\<rparr>)"
| "parseOptions (Opt_w v err # os) r =
     (if v = 0 \<and> err then Inl False else parseOptions os (r\<lparr>waitforpid := v\<rparr>))"
| "parseOptions (Opt_t v err # os) r =
     (if v = 0 \<and> err then Inl False else parseOptions os (r\<lparr>caff_timeout := v\<rparr>))"
| "parseOptions (Opt_unknown # os) r = Inl False"

text \<open>Whether all could be made, and those that were, with their timeouts; the timeout of the user's activity is kept
  for the next round.\<close>

fun createAssertions ::
    "(assertionFlag \<Rightarrow> IOReturn) \<Rightarrow> assertionFlag set \<Rightarrow> int \<Rightarrow> assertionFlag list
     \<Rightarrow> IOReturn \<times> (assertionFlag \<times> int) list" where
  "createAssertions create flags timeout [] = (kIOReturnSuccess, [])"
| "createAssertions create flags timeout (f # fs) =
     (if f \<notin> flags then createAssertions create flags timeout fs
      else
        let t = (if f = kUserActiveAssertionFlag \<and> timeout = 0 then 5 else timeout) in
        if create f \<noteq> kIOReturnSuccess then (create f, [])
        else case createAssertions create flags t fs of (r, made) \<Rightarrow> (r, (f, t) # made))"

datatype caffeinateRun =
    Exits bool
  | Runs "(assertionFlag \<times> int) list" "int option" "int option"

text \<open>
  The tool with a command (in the child, while the parent becomes the command) or without; a run that goes on
  has made the assertions and waits for the timeout and the process of the options.
\<close>

definition caffeinate :: "(assertionFlag \<Rightarrow> IOReturn) \<Rightarrow> caffOption list \<Rightarrow> bool \<Rightarrow> caffeinateRun" where
  "caffeinate create os command =
     (case parseOptions os \<lparr>caff_flags = {}, waitforpid = 0, caff_timeout = 0\<rparr> of
        Inl ok \<Rightarrow> Exits ok
      | Inr p \<Rightarrow>
          let flags = (if caff_flags p = {} then {kIdleAssertionFlag} else caff_flags p) in
          case createAssertions create flags (caff_timeout p) assertionMap of
            (r, made) \<Rightarrow>
              if r \<noteq> kIOReturnSuccess then Exits False
              else if command then Runs made None None
              else Runs made (if caff_timeout p = 0 then None else Some (caff_timeout p))
                             (if waitforpid p = 0 then None else Some (waitforpid p)))"

section \<open>Properties\<close>

text \<open>With no option the tool prevents idle sleep, without end.\<close>

lemma default_idle:
  "create kIdleAssertionFlag = kIOReturnSuccess \<Longrightarrow> caffeinate create [] c = Runs [(kIdleAssertionFlag, 0)] None None"
  by (simp add: caffeinate_def assertionMap_def)

text \<open>If the assertions can be made, each requested one is, once and in the order of the table.\<close>

lemma all_created:
  assumes "\<And>f. create f = kIOReturnSuccess"
  shows "fst (createAssertions create flags t fs) = kIOReturnSuccess \<and>
    map fst (snd (createAssertions create flags t fs)) = filter (\<lambda>f. f \<in> flags) fs"
  by (induction fs arbitrary: t) (simp_all add: assms Let_def case_prod_beta)

text \<open>With a timeout every assertion has it.\<close>

lemma timeout_given:
  assumes "t \<noteq> 0" shows "set (map snd (snd (createAssertions create flags t fs))) \<subseteq> {t}"
  using assms by (induction fs) (simp_all add: Let_def case_prod_beta)

text \<open>The five seconds of the user's activity reach the assertion for the disk, which has no timeout by itself.\<close>

lemma disk_gets_five_seconds:
  "caffeinate (\<lambda>_. kIOReturnSuccess) [Opt_u, Opt_m] False =
     Runs [(kUserActiveAssertionFlag, 5), (kDiskAssertionFlag, 5)] None None"
  "caffeinate (\<lambda>_. kIOReturnSuccess) [Opt_m] False = Runs [(kDiskAssertionFlag, 0)] None None"
  by (simp_all add: caffeinate_def assertionMap_def)

end
