(* ===== verification/Spec2Isabelle.thy ===== *)
theory Spec2Isabelle
  imports AssertionEffectProperties AutoWakeProperties SystemLoadProperties UPSProperties SmartBatteryProperties
    GasGaugeProperties BatteryAuthProperties ActivityLogProperties AsyncChecksProperties TTYProperties
    TcpKeepAlive HidHistory ThermalEvents ExternalMedia PowerStore Caffeinate
begin

text \<open>
  A model of PowerManagement: the C and C++ parts of the power daemon \<open>powerd\<close> (src/pmconfigd), of the battery
  drivers (src/AppleSmartBatteryManager) and of the tool \<open>caffeinate\<close>, with their correctness.

  \<^bold>\<open>The program.\<close>  Clients ask the daemon for assertions: requests that the system or its display stay awake.
  The assertion engine (PMAssertions.c) keeps them in a table and, for every type, in an active, a timed, an
  inactive and a suspended list; changes of the lists raise and drop effects, which reach the kernel as bits,
  settings and messages.  Beside it run the scheduler of power events (AutoWakeScheduler.c,
  RepeatingAutoWake.c), the load and activity monitor (SystemLoad.c), which reads the levels of the engine and makes
  assertions in it, the emergency shutdown (UPSLowPower.c), the tracking of remote terminals (TTYKeepAwake.c),
  of external media, of keep-alive connections and of thermal warnings, and the activity log
  (PMAssertionLog.c), into which the engine writes.  All of them run on one queue; blocks that are put on
  it are explicit in the model.  The battery drivers talk to the battery over the SMBus (SmbusHandler.cpp,
  AppleSmartBattery.cpp, AppleSmartBatteryManager.cpp) and to its gauge and its authentication chip through keys of the
  system management controller (AppleGasGaugeUpdate.cpp, AppleBatteryAuth.cpp).

  \<^bold>\<open>Form.\<close>  A component is a record of its state and one function for each function of the source, named
  as there (without a leading underscore, and with a suffix where the name is taken).  What the code does to the world
  outside, as messages, notifications, timers and writes, is a list of events in the state.  Errors are
  the codes of \<open>Prelude.IOReturn\<close>; machine integers are words where their width matters; a call that may not return
  is in the option monad (\<open>None\<close>), with a theorem that it returns.  A fact about all interleavings is stated over
  an inductive relation of reachable states with one rule for each entry point.

  \<^bold>\<open>Theories and what their lemmas show.\<close>
  \<^item> \<open>Prelude\<close>, \<open>TimedQueue\<close>: shared types and lemmas; the contract of a queue kept in order of time, a locale that the
    timed lists of the engine and the arrays of power events both interpret.
  \<^item> PMAssertions.h: \<open>AssertionModel\<close>, \<open>AssertionState\<close> (types, structures, globals), \<open>AssertionCore\<close> (the abstract table of
    which every operation is a composition of a few elementary changes, and its well-formedness),
    \<open>AssertionFrames\<close> (what an operation leaves alone).
  \<^item> PMAssertions.c: \<open>AssertionProc\<close> (processes, statistics), \<open>AssertionLists\<close>, \<open>AssertionHandlers\<close> and \<open>AssertionKernel\<close>
    (effects), \<open>AssertionRaise\<close> (creation), \<open>AssertionSetProps\<close> (properties), \<open>AssertionOps\<close> (release, exit, suspension),
    \<open>AssertionTimeout\<close>, \<open>AssertionConfig\<close>, \<open>AssertionClient\<close> (requests).  \<open>AssertionLife\<close>, \<open>AssertionSuspend\<close>, \<open>AssertionRetime\<close>,
    \<open>AssertionSystemTimer\<close>, \<open>AssertionConfigLemmas\<close>, \<open>AssertionClientLemmas\<close> show that they keep the table;
    \<open>AssertionMachine\<close> is the engine with its callers as a state machine; \<open>AssertionOutcomes\<close> specifies the
    return codes; \<open>AssertionProperties\<close>, \<open>AssertionLifeProperties\<close>, \<open>AssertionEffectProperties\<close> hold the properties:
    consistency and order of the table, isolation of processes (in the fields that \<open>others_untouched\<close> names:
    type, state, timeout, identifier, owner, reference count and list), exact results of creation, expiry,
    suspension, exit and the time cap, kernel bits, permissions.
  \<^item> PMAssertionLog.c: \<open>ActivityLog\<close>, \<open>ActivityLogProperties\<close>: the ring of 64 entries refines the list of all entries, for
    readers less than \<open>2 ^ 32 - 64\<close> entries after the start; the statistics of the processes.
  \<^item> PMAssertions.c and PMAssertionLog.c: \<open>AsyncChecks\<close>, \<open>AsyncChecksLemmas\<close>, \<open>AsyncChecksProperties\<close>: the questions to
    the processes before sleep and for their activity, which are answered exactly once in any order of replies, timers
    and requests, as long as only processes that are awaited answer a request for activity.
  \<^item> AutoWakeScheduler.c, RepeatingAutoWake.c: \<open>RepeatingAutoWake\<close>, \<open>AutoWake\<close>, \<open>AutoWakeRequests\<close> (the code),
    \<open>AutoWakeLemmas\<close>, \<open>AutoWakeNext\<close>, \<open>AutoWakeDays\<close>, \<open>AutoWakeMachine\<close>, \<open>AutoWakeReach\<close>, \<open>AutoWakeProperties\<close>: sorted
    arrays and an exact count in every state that orderly calls reach (the preferences can be written, events have
    dates and names, day masks a day), the next event is the least candidate, every orderly call returns; a null
    name handed to \<open>CFEqual\<close> is a call that does not return.
  \<^item> SystemLoad.c: \<open>SystemLoad\<close>, \<open>SystemLoadLemmas\<close>, \<open>SystemLoadProperties\<close>: the levels of user and clients, the order of the
    clients, the idle timer.
  \<^item> UPSLowPower.c: \<open>UPSLowPower\<close>, \<open>UPSProperties\<close>: the shutdown happens exactly in an emergency, once and in time,
    stated for the case that no other application claims it; that such a claim is ignored is a lemma.
  \<^item> TTYKeepAwake.c: \<open>TTYKeepAwake\<close>, \<open>TTYProperties\<close>: when the assertion is held and that it is given back in time.
  \<^item> Platform.c: \<open>TcpKeepAlive\<close>; HIDEventWatcher.c: \<open>HidHistory\<close>; PMSystemEvents.c: \<open>ThermalEvents\<close>; ExternalMedia.c:
    \<open>ExternalMedia\<close>; PMStore.c: \<open>PowerStore\<close>; caffeinate.c: \<open>Caffeinate\<close>: the state machines with their lemmas, bounds and
    failures.
  \<^item> SmbusHandler.cpp: \<open>SmbusHandler\<close>, \<open>SmbusLemmas\<close>; AppleSmartBattery.cpp, AppleSmartBatteryManager.cpp and its user
    client: \<open>SmartBattery\<close>, \<open>SmartBatteryOps\<close>, \<open>SmartBatteryLemmas\<close>, \<open>SmartBatteryProperties\<close>: retries and their end,
    exclusive access, polls that are watched, acknowledgements of sleep and wake.
  \<^item> AppleGasGaugeUpdate.cpp and its user client: \<open>SmcClient\<close> (keys and notifications), \<open>GasGauge\<close>, \<open>GasGaugeLemmas\<close>,
    \<open>GasGaugeProperties\<close>: a transfer refines the sequence of messages it stands for; sizes and bounds.
  \<^item> AppleBatteryAuth.cpp: \<open>SmcClient\<close>, \<open>BatteryAuth\<close>, \<open>BatteryAuthProperties\<close>: each command is answered once, the
    certificate is that of the chip, the nonce is published at most once.
\<close>

text \<open>
  \<^bold>\<open>Bounds.\<close>  No fuel is chosen by the model: the counters are those of the code (five retries of a transaction on the
  SMBus, \<open>kRetryAttempts\<close>; five repetitions of an exchange with the chip, \<open>MAX_TRIES\<close>, hence six attempts; as many polls of the
  updater as its timeout and its delay allow; seven days of a repeating event), or a measure that the loop
  decreases (the length of the timed list).  Loops that may not end are partial functions in the option monad;
  \<open>AutoWakeDays\<close> and \<open>UPSProperties\<close> show when they return.

  \<^bold>\<open>Parameters.\<close>  Code outside the repository is an argument of the definitions: the sort of CoreFoundation, its
  calendar, its preferences, the HID client, the power sources, the UPS server, the bus and the embedded controller, the
  system management controller, the numbers of commands and states in headers of other projects, disk arbitration,
  \<open>IOReport\<close> and XPC.  What the code relies on is a hypothesis of the theorem where it is used (for example that the
  sort permutes and sorts), with a witness that instantiates it.  Allocations succeed unless an argument says
  otherwise.  The notifications of the controller are arrays with a number.  The rest of the daemon keeps the
  records that are retained for a question to a process; that is the last rule of \<open>asyncReach\<close>.

  \<^bold>\<open>Not modelled.\<close>
  \<^item> The Objective-C parts: pmconfigd.m, PMConnection.m, PMSettings.m, PrivateLib.m, PMDisplay.m,
    BatteryTimeRemaining.m and the managers of battery health, power modes and sleep prediction in src/pmconfigd; src/pmset,
    src/pmtool, src/LowPowerMode, src/migrateenergyprefs and src/ioupsd/upsd.m.  What the modelled parts read of them is a
    parameter.
  \<^item> Text: log messages, names in analytics, the human-readable state.  The decision what is logged is modelled.
  \<^item> Of PMAssertions.c: the enumeration of devices whose drivers hold the system awake, the reports about
    them, the logging of kernel assertions, the loading of property lists, and the calls into the kernel themselves.
  \<^item> Of AppleSmartBattery.cpp: the branches for machines without an SMBus, whose registers are read by code that is
    not in the repository, and the dictionaries of the adapter; the objects of the drivers and their termination.
  \<^item> Pure calls of the operating system: src/swd, src/ioupsd/ioupsplugin.c, src/common/CommonLib.c, the empty StandbyTimer.c and
    BatteryData.c.
\<close>

end
